(* ===== verification/Prelude.thy ===== *)
theory Prelude
  imports Main "HOL-Library.Word" "HOL-Library.While_Combinator"
begin

unbundle bit_operations_syntax

text \<open>
  Shared vocabulary of the development: the fixed-width integer types of the C code, the
  result type for operations that may run into undefined behaviour (a NULL or indeterminate
  pointer is dereferenced, an array is accessed outside its bounds, memory that is not
  allocated is released) or into a loop that never ends, its composition and its two
  judgements, and the scan of an array for its first matching slot.

  The repository compiles every target with \<open>-DNDEBUG\<close> (top-level CMakeLists.txt), so
  \<open>assert(...)\<close> is no statement of the program that is shipped and is not modelled; the
  \<open>return\<close> that follows many of them is.
\<close>

section \<open>Machine integers\<close>

type_synonym u8 = "8 word"
type_synonym u16 = "16 word"
type_synonym u32 = "32 word"
type_synonym u64 = "64 word"

text \<open>\<open>MISC_HB\<close> and \<open>MISC_LB\<close>: the two bytes of a 16-bit value.\<close>

definition MISC_HB :: "u16 \<Rightarrow> u8" where
  "MISC_HB value = ucast (drop_bit 8 value)"

definition MISC_LB :: "u16 \<Rightarrow> u8" where
  "MISC_LB value = ucast (value AND 0xFF)"

lemma bit_MISC_HB [simp]: "bit (MISC_HB w) n = (n < 8 \<and> bit w (n + 8))"
  by (auto simp: MISC_HB_def bit_simps add.commute dest: bit_imp_le_length)

lemma bit_0xFF_u16 [simp]: "bit (0xFF :: u16) n = (n < 8)"
  using bit_mask_iff [where ?'a = "16 word" and m = 8 and n = n]
  by (auto simp: mask_eq_exp_minus_1)

lemma bit_MISC_LB [simp]: "bit (MISC_LB w) n = (n < 8 \<and> bit w n)"
  using bit_0xFF_u16 [of n] by (auto simp: MISC_LB_def bit_simps)

lemma u8_and_0xFF [simp]: "(x :: u8) AND 0xFF = x"
  by (rule bit_word_eqI) (auto simp: bit_simps numeral_eq_Suc less_Suc_eq)

lemma u8_ucast_and_0xFF [simp]: "(ucast (x :: u8) :: u16) AND 0xFF = ucast x"
proof (rule bit_word_eqI)
  fix n
  show "bit ((ucast x :: u16) AND 0xFF) n = bit (ucast x :: u16) n"
    using bit_0xFF_u16 [of n] by (auto simp: bit_simps dest: bit_imp_le_length)
qed

lemma MISC_HB_LB_join:
  "push_bit 8 (ucast (MISC_HB w)) OR ucast (MISC_LB w) = (w :: u16)"
  by (rule bit_word_eqI) (auto simp: bit_simps)

lemma unat_ucast_u8_u16 [simp]: "unat (ucast (x :: u8) :: u16) = unat x"
  by transfer (simp add: take_bit_nat_eq [symmetric] take_bit_take_bit)

lemma unat_ucast_u16_u32 [simp]: "unat (ucast (x :: u16) :: u32) = unat x"
  by transfer (simp add: take_bit_nat_eq [symmetric] take_bit_take_bit)

lemma unat_ucast_u8_u32 [simp]: "unat (ucast (x :: u8) :: u32) = unat x"
  by transfer (simp add: take_bit_nat_eq [symmetric] take_bit_take_bit)

lemma mod_add_inj_nat:
  fixes r i c n :: nat
  assumes "(r + i) mod n = (r + c) mod n" and "i < c" and "c < n"
  shows False
proof -
  have "n dvd (r + c) - (r + i)"
    using assms by (subst mod_eq_dvd_iff_nat [symmetric]) (auto dest: sym)
  then have "n \<le> c - i" using assms(2) by (intro dvd_imp_le) auto
  with assms show False by simp
qed

section \<open>Results with undefined behaviour\<close>

datatype fault = NullDeref | WildDeref | OutOfBounds | BadFree | Diverges

type_synonym 'a result = "fault + 'a"

definition bindR :: "'a result \<Rightarrow> ('a \<Rightarrow> 'b result) \<Rightarrow> 'b result" where
  "bindR m f = (case m of Inl e \<Rightarrow> Inl e | Inr x \<Rightarrow> f x)"

lemma bindR_Inl [simp]: "bindR (Inl e) f = Inl e"
  by (simp add: bindR_def)

lemma bindR_Inr [simp]: "bindR (Inr x) f = f x"
  by (simp add: bindR_def)

lemma bindR_eq_Inr_iff: "bindR m f = Inr y \<longleftrightarrow> (\<exists>x. m = Inr x \<and> f x = Inr y)"
  by (cases m) simp_all

lemma bindR_assoc: "bindR (bindR m f) g = bindR m (\<lambda>x. bindR (f x) g)"
  by (cases m) simp_all

lemma bindR_cong [fundef_cong]:
  "m = m' \<Longrightarrow> (\<And>x. m' = Inr x \<Longrightarrow> f x = f' x) \<Longrightarrow> bindR m f = bindR m' f'"
  by (cases m') simp_all

text \<open>
  \<open>okR m Q\<close>: the operation does not run into undefined behaviour and its result satisfies
  \<open>Q\<close>. Calls compose through \<open>okR_bindR\<close> and \<open>okR_mono\<close>.
\<close>

definition okR :: "'a result \<Rightarrow> ('a \<Rightarrow> bool) \<Rightarrow> bool" where
  "okR m Q = (case m of Inl _ \<Rightarrow> False | Inr x \<Rightarrow> Q x)"

lemma okR_Inr [simp]: "okR (Inr x) Q = Q x"
  by (simp add: okR_def)

lemma okR_Inl [simp]: "\<not> okR (Inl e) Q"
  by (simp add: okR_def)

lemma okR_bindR [simp]: "okR (bindR m f) Q = okR m (\<lambda>x. okR (f x) Q)"
  by (cases m) simp_all

lemma okR_mono: "okR m P \<Longrightarrow> (\<And>x. P x \<Longrightarrow> Q x) \<Longrightarrow> okR m Q"
  by (cases m) simp_all

lemma okR_conj: "okR m (\<lambda>x. P x \<and> Q x) \<longleftrightarrow> okR m P \<and> okR m Q"
  by (cases m) simp_all

lemma okR_ex: "okR m Q \<longleftrightarrow> (\<exists>x. m = Inr x \<and> Q x)"
  by (cases m) simp_all

lemma okR_if [simp]: "okR (if b then m else m') Q = (if b then okR m Q else okR m' Q)"
  by simp

lemma okR_let [simp]: "okR (let x = a in f x) Q = (let x = a in okR (f x) Q)"
  by simp

text \<open>
  A C loop is \<open>while_option\<close>; a loop that never leaves is the fault \<open>Diverges\<close>.
\<close>

definition loopR :: "('s \<Rightarrow> bool) \<Rightarrow> ('s \<Rightarrow> 's) \<Rightarrow> 's \<Rightarrow> 's result" where
  "loopR b c s = (case while_option b c s of None \<Rightarrow> Inl Diverges | Some t \<Rightarrow> Inr t)"

lemma loopR_unfold: "loopR b c s = (if b s then loopR b c (c s) else Inr s)"
  by (simp add: loopR_def while_option_unfold [of b c s])

lemma loopR_okR:
  fixes m :: "'s \<Rightarrow> nat"
  assumes "I s"
    and "\<And>s. I s \<Longrightarrow> b s \<Longrightarrow> I (c s) \<and> m (c s) < m s"
  shows "okR (loopR b c s) (\<lambda>t. I t \<and> \<not> b t)"
proof -
  obtain t where t: "while_option b c s = Some t"
    using measure_while_option_Some [of I b c m s] assms by blast
  moreover have "I t" using while_option_rule [of I b c s t] assms t by blast
  moreover have "\<not> b t" using while_option_stop [OF t] .
  ultimately show ?thesis by (simp add: loopR_def)
qed

text \<open>Running a list of steps; the first fault ends the run.\<close>

fun foldR :: "('x \<Rightarrow> 's \<Rightarrow> 's result) \<Rightarrow> 'x list \<Rightarrow> 's \<Rightarrow> 's result" where
  "foldR f [] s = Inr s"
| "foldR f (x # xs) s = bindR (f x s) (foldR f xs)"

lemma foldR_append: "foldR f (xs @ ys) s = bindR (foldR f xs s) (foldR f ys)"
proof (induction xs arbitrary: s)
  case Nil
  then show ?case by simp
next
  case (Cons x xs)
  then show ?case by (cases "f x s") simp_all
qed

lemma foldR_okR:
  assumes "I s" and "\<And>x s. x \<in> set xs \<Longrightarrow> I s \<Longrightarrow> okR (f x s) I"
  shows "okR (foldR f xs s) I"
  using assms
proof (induction xs arbitrary: s)
  case Nil
  then show ?case by simp
next
  case (Cons x xs)
  then have "okR (f x s) I" by simp
  then show ?case
    by (simp, rule okR_mono) (use Cons in auto)
qed

section \<open>Scanning an array for the first slot that satisfies a test\<close>

text \<open>
  The loops \<open>for (i = 0; i < N; i++) if (test(a[i])) { ...; return; }\<close> of the code: the
  index of the first slot that passes, \<open>None\<close> when the loop runs to its end.
\<close>

fun scan :: "('a \<Rightarrow> bool) \<Rightarrow> 'a list \<Rightarrow> nat option" where
  "scan P [] = None"
| "scan P (x # xs) = (if P x then Some 0 else map_option Suc (scan P xs))"

lemma scan_None_iff: "scan P xs = None \<longleftrightarrow> (\<forall>x\<in>set xs. \<not> P x)"
  by (induction xs) auto

lemma scan_SomeD:
  "scan P xs = Some i \<Longrightarrow> i < length xs \<and> P (xs ! i) \<and> (\<forall>j<i. \<not> P (xs ! j))"
proof (induction xs arbitrary: i)
  case Nil
  then show ?case by simp
next
  case (Cons x xs)
  then show ?case by (cases i) (auto split: if_splits simp: less_Suc_eq_0_disj)
qed

lemma scan_SomeI:
  assumes "i < length xs" "P (xs ! i)" "\<And>j. j < i \<Longrightarrow> \<not> P (xs ! j)"
  shows "scan P xs = Some i"
  using assms
proof (induction xs arbitrary: i)
  case Nil
  then show ?case by simp
next
  case (Cons x xs)
  show ?case
  proof (cases i)
    case 0
    with Cons show ?thesis by simp
  next
    case (Suc k)
    have "\<not> P x" using Cons.prems(3) [of 0] Suc by simp
    moreover have "scan P xs = Some k"
    proof (rule Cons.IH)
      show "\<not> P (xs ! j)" if "j < k" for j
        using Cons.prems(3) [of "Suc j"] Suc that by simp
    qed (use Cons.prems Suc in simp_all)
    ultimately show ?thesis using Suc by simp
  qed
qed

lemma scan_map: "scan P (map f xs) = scan (P \<circ> f) xs"
  by (induction xs) simp_all

section \<open>Updates of lists by index\<close>

lemma set_list_update_mem: "x \<in> set (xs[i := y]) \<Longrightarrow> x = y \<or> x \<in> set xs"
  using set_update_subset_insert [of xs i y] by auto

lemma Ball_list_update: "\<forall>x\<in>set xs. P x \<Longrightarrow> P y \<Longrightarrow> \<forall>x\<in>set (xs[i := y]). P x"
  by (auto dest: set_list_update_mem)

end
