(* ===== verification/Ring_Buffer.thy ===== *)
theory Ring_Buffer
  imports Prelude
begin

text \<open>
  The command queue of the integration layer: \<open>RB_t\<close> (libraries/ucsi/ucsi_cfg.h) and the
  five functions \<open>RB_*\<close> of libraries/ucsi/ucsi_impl.c.

  The working buffer is an array of \<open>amountOfEntries\<close> entries of \<open>sizeOfEntry\<close> bytes. The
  model keeps the entries (\<open>dataQueue\<close>, one list element per entry) and the two pointers as
  byte offsets from the start of the buffer, moved and wrapped as the code does; the free
  running counters \<open>rxPos\<close> and \<open>txPos\<close> are 32-bit words and wrap around.

  \<open>rb_list\<close> abstracts a buffer to the list of its pending entries, oldest first, and the
  locale \<open>bounded_fifo\<close> is the contract its users rely on; the buffer is its interpretation.
\<close>

section \<open>The buffer\<close>

record 'e RB_t =
  dataQueue :: "'e list"
  pRx :: nat
  pTx :: nat
  amountOfEntries :: u32
  sizeOfEntry :: u32
  rxPos :: u32
  txPos :: u32

definition RB_Init :: "u16 \<Rightarrow> u32 \<Rightarrow> 'e list \<Rightarrow> 'e RB_t" where
  "RB_Init amount entrySize buffer =
     \<lparr>dataQueue = buffer, pRx = 0, pTx = 0, amountOfEntries = ucast amount,
      sizeOfEntry = entrySize, rxPos = 0, txPos = 0\<rparr>"

text \<open>A pointer into the buffer is the byte offset of an entry.\<close>

definition RB_GetReadPtr :: "'e RB_t \<Rightarrow> nat option" where
  "RB_GetReadPtr rb = (if txPos rb - rxPos rb > 0 then Some (pRx rb) else None)"

definition RB_advance :: "'e RB_t \<Rightarrow> nat \<Rightarrow> nat" where
  "RB_advance rb p =
     (let p' = p + unat (sizeOfEntry rb)
      in if p' \<ge> unat (amountOfEntries rb * sizeOfEntry rb) then 0 else p')"

definition RB_PopReadPtr :: "'e RB_t \<Rightarrow> 'e RB_t" where
  "RB_PopReadPtr rb = rb\<lparr>pRx := RB_advance rb (pRx rb), rxPos := rxPos rb + 1\<rparr>"

definition RB_GetWritePtr :: "'e RB_t \<Rightarrow> nat option" where
  "RB_GetWritePtr rb =
     (if txPos rb - rxPos rb < amountOfEntries rb then Some (pTx rb) else None)"

definition RB_PopWritePtr :: "'e RB_t \<Rightarrow> 'e RB_t" where
  "RB_PopWritePtr rb = rb\<lparr>pTx := RB_advance rb (pTx rb), txPos := txPos rb + 1\<rparr>"

text \<open>Dereferencing an entry pointer, for reading and for writing.\<close>

definition RB_slot :: "'e RB_t \<Rightarrow> nat \<Rightarrow> nat" where
  "RB_slot rb p = p div unat (sizeOfEntry rb)"

definition RB_read :: "'e RB_t \<Rightarrow> nat \<Rightarrow> 'e result" where
  "RB_read rb p =
     (if RB_slot rb p < length (dataQueue rb) then Inr (dataQueue rb ! RB_slot rb p)
      else Inl OutOfBounds)"

definition RB_write :: "'e RB_t \<Rightarrow> nat \<Rightarrow> 'e \<Rightarrow> 'e RB_t result" where
  "RB_write rb p e =
     (if RB_slot rb p < length (dataQueue rb)
      then Inr (rb\<lparr>dataQueue := (dataQueue rb)[RB_slot rb p := e]\<rparr>)
      else Inl OutOfBounds)"

section \<open>Abstraction and invariant\<close>

definition rb_count :: "'e RB_t \<Rightarrow> nat" where
  "rb_count rb = unat (txPos rb - rxPos rb)"

definition rb_head :: "'e RB_t \<Rightarrow> nat" where
  "rb_head rb = RB_slot rb (pRx rb)"

definition rb_list :: "'e RB_t \<Rightarrow> 'e list" where
  "rb_list rb =
     map (\<lambda>i. dataQueue rb ! ((rb_head rb + i) mod length (dataQueue rb))) [0..<rb_count rb]"

text \<open>
  \<open>rb_shape rb n s r c\<close>: \<open>n\<close> entries of \<open>s\<close> bytes, the read pointer at the start of entry
  \<open>r\<close>, the write pointer \<open>c\<close> entries ahead of it (modulo \<open>n\<close>), \<open>c\<close> entries pending, and the
  size computation of the code does not overflow.
\<close>

definition rb_shape :: "'e RB_t \<Rightarrow> nat \<Rightarrow> nat \<Rightarrow> nat \<Rightarrow> nat \<Rightarrow> bool" where
  "rb_shape rb n s r c \<longleftrightarrow>
     0 < n \<and> 0 < s \<and> n * s < 2 ^ 32 \<and> length (dataQueue rb) = n \<and>
     unat (amountOfEntries rb) = n \<and> unat (sizeOfEntry rb) = s \<and>
     r < n \<and> pRx rb = r * s \<and> pTx rb = ((r + c) mod n) * s \<and> c \<le> n \<and> rb_count rb = c"

definition rb_inv :: "'e RB_t \<Rightarrow> bool" where
  "rb_inv rb \<longleftrightarrow> (\<exists>n s r c. rb_shape rb n s r c)"

lemma rb_invE:
  assumes "rb_inv rb"
  obtains n s r c where "rb_shape rb n s r c"
  using assms by (auto simp: rb_inv_def)

lemma rb_shape_bounds:
  assumes "rb_shape rb n s r c"
  shows "n < 2 ^ 32" and "s < 2 ^ 32"
proof -
  from assms have p: "0 < n" "0 < s" "n * s < 2 ^ 32" by (simp_all add: rb_shape_def)
  have "n * 1 \<le> n * s" and "1 * s \<le> n * s" by (intro mult_le_mono; use p in simp)+
  with p show "n < 2 ^ 32" and "s < 2 ^ 32" by linarith+
qed

lemma rb_shape_slot [simp]: "rb_shape rb n s r c \<Longrightarrow> RB_slot rb (k * s) = k"
  by (simp add: rb_shape_def RB_slot_def)

lemma rb_shape_head: "rb_shape rb n s r c \<Longrightarrow> rb_head rb = r"
  by (simp add: rb_shape_def rb_head_def RB_slot_def)

lemma rb_shape_advance:
  assumes sh: "rb_shape rb n s r c" and k: "k < n"
  shows "RB_advance rb (k * s) = ((k + 1) mod n) * s"
proof -
  have u: "unat (amountOfEntries rb * sizeOfEntry rb) = n * s"
    using sh by (simp add: rb_shape_def unat_word_ariths)
  have "k * s + s = (k + 1) * s" by simp
  moreover have "(n * s \<le> (k + 1) * s) = (n \<le> k + 1)"
    using sh by (simp add: rb_shape_def del: mult_Suc add_Suc_right)
  ultimately show ?thesis
    using sh k by (cases "k + 1 = n") (simp_all add: RB_advance_def u rb_shape_def)
qed

lemma rb_list_shape:
  "rb_shape rb n s r c \<Longrightarrow> rb_list rb = map (\<lambda>i. dataQueue rb ! ((r + i) mod n)) [0..<c]"
  by (simp add: rb_list_def rb_shape_head) (simp add: rb_shape_def)

lemma rb_list_length: "length (rb_list rb) = rb_count rb"
  by (simp add: rb_list_def)

section \<open>The operations on the abstraction\<close>

definition rb_capacity :: "'e RB_t \<Rightarrow> nat" where
  "rb_capacity rb = unat (amountOfEntries rb)"

lemma RB_Init_shape:
  assumes "0 < amount" "0 < entrySize" "unat amount * unat entrySize < 2 ^ 32"
    and "length buffer = unat amount"
  shows "rb_shape (RB_Init amount entrySize buffer) (unat amount) (unat entrySize) 0 0"
  using assms by (simp add: rb_shape_def RB_Init_def rb_count_def word_less_nat_alt)

lemma RB_GetReadPtr_Some:
  assumes "rb_shape rb n s r c"
  shows "RB_GetReadPtr rb = (if c = 0 then None else Some (r * s))"
  using assms by (auto simp: RB_GetReadPtr_def rb_shape_def rb_count_def word_less_nat_alt)

lemma RB_GetWritePtr_Some:
  assumes "rb_shape rb n s r c"
  shows "RB_GetWritePtr rb = (if c < n then Some (((r + c) mod n) * s) else None)"
  using assms by (auto simp: RB_GetWritePtr_def rb_shape_def rb_count_def word_less_nat_alt)

lemma RB_PopReadPtr_shape:
  assumes sh: "rb_shape rb n s r c" and c: "0 < c"
  shows "rb_shape (RB_PopReadPtr rb) n s ((r + 1) mod n) (c - 1)"
proof -
  let ?rb = "RB_PopReadPtr rb"
  have "unat ((txPos rb - rxPos rb) - 1) = c - 1"
    using sh c by (subst unat_minus_one) (auto simp: rb_shape_def rb_count_def)
  then have cnt: "rb_count ?rb = c - 1"
    by (simp only: rb_count_def RB_PopReadPtr_def diff_diff_eq) simp
  have "((r + 1) mod n + (c - 1)) mod n = (r + 1 + (c - 1)) mod n" by (rule mod_add_left_eq)
  with c have m: "((r + 1) mod n + (c - 1)) mod n = (r + c) mod n" by simp
  have "c - 1 \<le> n" using sh by (auto simp: rb_shape_def)
  then show ?thesis
    using sh c cnt m rb_shape_advance [OF sh, of r]
    by (simp add: rb_shape_def RB_PopReadPtr_def)
qed

lemma RB_PopReadPtr_list:
  assumes sh: "rb_shape rb n s r c" and c: "0 < c"
  shows "rb_list (RB_PopReadPtr rb) = tl (rb_list rb)"
proof -
  have q: "dataQueue (RB_PopReadPtr rb) = dataQueue rb" by (simp add: RB_PopReadPtr_def)
  have ix: "((r + 1) mod n + i) mod n = (r + Suc i) mod n" for i
    using mod_add_left_eq [of "r + 1" n i] by simp
  show ?thesis
    unfolding rb_list_shape [OF sh] rb_list_shape [OF RB_PopReadPtr_shape [OF sh c]] q ix
    using c by (cases c) (simp_all add: map_upt_Suc del: upt_Suc)
qed

lemma RB_read_head:
  assumes sh: "rb_shape rb n s r c" and c: "0 < c"
  shows "RB_read rb (r * s) = Inr (hd (rb_list rb))"
proof -
  have "rb_list rb \<noteq> []" and "hd (rb_list rb) = dataQueue rb ! r"
    using c sh by (auto simp: rb_list_shape [OF sh] hd_map upt_rec [of 0] rb_shape_def)
  then show ?thesis using sh by (simp add: RB_read_def) (simp add: rb_shape_def)
qed

lemma RB_write_pop:
  assumes sh: "rb_shape rb n s r c" and c: "c < n"
  shows "okR (RB_write rb (((r + c) mod n) * s) e) (\<lambda>rb'.
     rb_shape (RB_PopWritePtr rb') n s r (c + 1) \<and>
     rb_list (RB_PopWritePtr rb') = rb_list rb @ [e])"
proof -
  let ?w = "(r + c) mod n"
  let ?rb1 = "rb\<lparr>dataQueue := (dataQueue rb)[?w := e]\<rparr>"
  let ?rb2 = "RB_PopWritePtr ?rb1"
  have w: "?w < n" and n: "n < 2 ^ 32"
    using sh rb_shape_bounds(1) [OF sh] by (simp_all add: rb_shape_def)
  have sh1: "rb_shape ?rb1 n s r c" using sh by (simp add: rb_shape_def rb_count_def)
  have "unat (txPos rb - rxPos rb + 1) = c + 1"
    using sh c n by (simp add: rb_shape_def rb_count_def unat_word_ariths)
  moreover have "txPos rb - rxPos rb + 1 = txPos rb + 1 - rxPos rb" by (simp only: diff_add_eq)
  ultimately have cnt: "rb_count ?rb2 = c + 1"
    by (simp only: rb_count_def RB_PopWritePtr_def) simp
  have m: "(?w + 1) mod n = (r + (c + 1)) mod n"
    using mod_add_left_eq [of "r + c" n 1] by simp
  have sh2: "rb_shape ?rb2 n s r (c + 1)"
    using sh1 c cnt m rb_shape_advance [OF sh1 w] by (simp add: rb_shape_def RB_PopWritePtr_def)
  have other: "(r + i) mod n \<noteq> ?w" if "i < c" for i
    using that c mod_add_inj_nat by blast
  have keep: "(dataQueue rb)[?w := e] ! ((r + i) mod n) = dataQueue rb ! ((r + i) mod n)"
    if "i < c" for i
    using other [OF that] by (simp add: nth_list_update_neq [OF not_sym])
  have len: "length (dataQueue rb) = n" using sh by (simp add: rb_shape_def)
  have "rb_list ?rb2 = rb_list rb @ [e]"
    unfolding rb_list_shape [OF sh] rb_list_shape [OF sh2]
    using keep w len by (simp add: RB_PopWritePtr_def)
  with sh2 show ?thesis using sh w by (simp add: RB_write_def) (simp add: rb_shape_def)
qed

section \<open>The contract of a bounded queue\<close>

text \<open>
  What the integration layer relies on: a put is refused exactly when the queue is full and
  appends otherwise, the front is the oldest element, a drop removes it, and none of them
  leaves the buffer's bounds.
\<close>

locale bounded_fifo =
  fixes inv :: "'q \<Rightarrow> bool"
    and cap :: "'q \<Rightarrow> nat"
    and contents :: "'q \<Rightarrow> 'e list"
    and room :: "'q \<Rightarrow> bool"
    and front :: "'q \<Rightarrow> 'e option"
    and put :: "'e \<Rightarrow> 'q \<Rightarrow> 'q result"
    and discard :: "'q \<Rightarrow> 'q"
  assumes room_iff: "inv q \<Longrightarrow> room q = (length (contents q) < cap q)"
    and bounded: "inv q \<Longrightarrow> length (contents q) \<le> cap q"
    and front_eq: "inv q \<Longrightarrow> front q = (case contents q of [] \<Rightarrow> None | e # _ \<Rightarrow> Some e)"
    and put_room: "inv q \<Longrightarrow> room q \<Longrightarrow>
      okR (put e q) (\<lambda>q'. inv q' \<and> contents q' = contents q @ [e] \<and> cap q' = cap q)"
    and put_full: "inv q \<Longrightarrow> \<not> room q \<Longrightarrow> put e q = Inr q"
    and discard_eq: "inv q \<Longrightarrow> contents q \<noteq> [] \<Longrightarrow>
      inv (discard q) \<and> contents (discard q) = tl (contents q) \<and> cap (discard q) = cap q"

text \<open>
  A history of puts and takes, with the elements that were accepted and those that were
  taken out, each in order of time. A take of an empty queue does nothing.
\<close>

datatype 'e fifo_op = Put 'e | Take

fun fifo_run :: "('q \<Rightarrow> bool) \<Rightarrow> ('q \<Rightarrow> 'e option) \<Rightarrow> ('e \<Rightarrow> 'q \<Rightarrow> 'q result) \<Rightarrow> ('q \<Rightarrow> 'q)
    \<Rightarrow> 'e fifo_op list \<Rightarrow> 'q \<times> 'e list \<times> 'e list \<Rightarrow> ('q \<times> 'e list \<times> 'e list) result" where
  "fifo_run room front put discard [] (q, acc, out) = Inr (q, acc, out)"
| "fifo_run room front put discard (Put e # ops) (q, acc, out) =
     bindR (put e q) (\<lambda>q'. fifo_run room front put discard ops
                            (q', if room q then acc @ [e] else acc, out))"
| "fifo_run room front put discard (Take # ops) (q, acc, out) =
     (case front q of
        None \<Rightarrow> fifo_run room front put discard ops (q, acc, out)
      | Some e \<Rightarrow> fifo_run room front put discard ops (discard q, acc, out @ [e]))"

context bounded_fifo begin

lemma run_fifo_order:
  assumes "inv q" and "acc = out @ contents q"
  shows "okR (fifo_run room front put discard ops (q, acc, out))
     (\<lambda>(q', acc', out'). inv q' \<and> acc' = out' @ contents q' \<and>
        length (contents q') \<le> cap q' \<and> cap q' = cap q)"
  using assms
proof (induction ops arbitrary: q acc out)
  case Nil
  then show ?case by (simp add: bounded)
next
  case (Cons op ops)
  show ?case
  proof (cases op)
    case (Put e)
    show ?thesis
    proof (cases "room q")
      case True
      have "okR (put e q) (\<lambda>q'. inv q' \<and> contents q' = contents q @ [e] \<and> cap q' = cap q)"
        using Cons.prems(1) True by (rule put_room)
      then obtain q' where q': "put e q = Inr q'" "inv q'" "contents q' = contents q @ [e]"
        "cap q' = cap q" by (auto simp: okR_ex)
      then show ?thesis using Cons.IH [of q' "acc @ [e]" out] Cons.prems True Put by simp
    next
      case False
      then show ?thesis using Cons put_full Put by simp
    qed
  next
    case Take
    show ?thesis
    proof (cases "contents q")
      case Nil
      then show ?thesis using Cons.IH [of q acc out] Cons.prems Take front_eq by simp
    next
      case (Cons e es)
      then show ?thesis
        using Cons.IH [of "discard q" acc "out @ [e]"] Cons.prems Take front_eq discard_eq by simp
    qed
  qed
qed

end

section \<open>The ring buffer keeps the contract\<close>

definition rb_front :: "'e RB_t \<Rightarrow> 'e option" where
  "rb_front rb =
     (case RB_GetReadPtr rb of
        None \<Rightarrow> None
      | Some p \<Rightarrow> (case RB_read rb p of Inl _ \<Rightarrow> None | Inr e \<Rightarrow> Some e))"

definition rb_room :: "'e RB_t \<Rightarrow> bool" where
  "rb_room rb = (RB_GetWritePtr rb \<noteq> None)"

text \<open>Claim the next free entry, fill it, move the write pointer.\<close>

definition rb_put :: "'e \<Rightarrow> 'e RB_t \<Rightarrow> 'e RB_t result" where
  "rb_put e rb =
     (case RB_GetWritePtr rb of
        None \<Rightarrow> Inr rb
      | Some p \<Rightarrow> bindR (RB_write rb p e) (\<lambda>rb. Inr (RB_PopWritePtr rb)))"

lemma rb_front_eq:
  assumes "rb_inv rb"
  shows "rb_front rb = (case rb_list rb of [] \<Rightarrow> None | e # _ \<Rightarrow> Some e)"
proof -
  from assms obtain n s r c where sh: "rb_shape rb n s r c" by (rule rb_invE)
  have len: "length (rb_list rb) = c" using sh by (simp add: rb_list_length rb_shape_def)
  show ?thesis
  proof (cases "c = 0")
    case True
    with len have "rb_list rb = []" by simp
    with True show ?thesis by (simp add: rb_front_def RB_GetReadPtr_Some [OF sh])
  next
    case False
    with len obtain e es where "rb_list rb = e # es" by (cases "rb_list rb") auto
    with False show ?thesis
      using RB_read_head [OF sh] by (simp add: rb_front_def RB_GetReadPtr_Some [OF sh])
  qed
qed

interpretation rb: bounded_fifo rb_inv rb_capacity rb_list rb_room rb_front rb_put RB_PopReadPtr
proof (unfold_locales, goal_cases)
  case (1 q)
  then obtain n s r c where sh: "rb_shape q n s r c" by (rule rb_invE)
  then show ?case
    by (simp add: rb_room_def RB_GetWritePtr_Some [OF sh] rb_list_length rb_capacity_def)
      (simp add: rb_shape_def)
next
  case (2 q)
  then show ?case by (auto simp: rb_inv_def rb_list_length rb_capacity_def rb_shape_def)
next
  case (3 q)
  then show ?case by (rule rb_front_eq)
next
  case (4 q e)
  from 4(1) obtain n s r c where sh: "rb_shape q n s r c" by (rule rb_invE)
  with 4(2) have c: "c < n"
    by (auto simp: rb_room_def RB_GetWritePtr_Some [OF sh] split: if_splits)
  show ?case
    unfolding rb_put_def RB_GetWritePtr_Some [OF sh]
    using c by (simp, intro okR_mono [OF RB_write_pop [OF sh c]])
      (use sh in \<open>auto simp: rb_inv_def rb_shape_def rb_capacity_def\<close>)
next
  case (5 q e)
  then show ?case by (simp add: rb_put_def rb_room_def)
next
  case (6 q)
  from 6(1) obtain n s r c where sh: "rb_shape q n s r c" by (rule rb_invE)
  from 6(2) have c: "0 < c"
    using sh rb_list_length [of q] by (cases "c = 0") (auto simp: rb_shape_def)
  show ?case
    using RB_PopReadPtr_shape [OF sh c] RB_PopReadPtr_list [OF sh c]
    by (auto simp: rb_inv_def rb_capacity_def RB_PopReadPtr_def)
qed



end
