(* ===== verification/Ucsi_Cfg.thy ===== *)
theory Ucsi_Cfg
  imports Ring_Buffer
begin

text \<open>
  The data of the integration layer: the configuration objects that it hands to the UNICENS
  library (the members the sources use), the queue entries and the instance data of
  libraries/ucsi/ucsi_cfg.h.

  The library itself (libraries/unicens, a git submodule) is not part of the repository:
  its enumerations are datatypes with the names the sources use, plus a constructor for any
  other value where the code has a default branch. Objects whose address the code compares
  (routes, resources) carry it as an identifying number; a C pointer that may be NULL is an
  option.
\<close>

section \<open>Sizes\<close>

definition CMD_QUEUE_LEN :: nat where "CMD_QUEUE_LEN = 40"
definition I2C_WRITE_MAX_LEN :: nat where "I2C_WRITE_MAX_LEN = 32"
definition MAX_NODES :: nat where "MAX_NODES = 32"
definition PROGRAM_MAX_DATA_LEN :: nat where "PROGRAM_MAX_DATA_LEN = 50"

section \<open>Configuration objects of the library\<close>

datatype Ucs_Supv_Mode_t =
    UCS_SUPV_MODE_NORMAL | UCS_SUPV_MODE_INACTIVE | UCS_SUPV_MODE_FALLBACK
  | UCS_SUPV_MODE_DIAGNOSIS | UCS_SUPV_MODE_PROGRAMMING | UCS_SUPV_MODE_OTHER int

datatype Ucs_Xrm_ResourceType_t =
    UCS_XRM_RC_TYPE_DC_PORT | UCS_XRM_RC_TYPE_NW_SOCKET | UCS_XRM_RC_TYPE_MLB_PORT
  | UCS_XRM_RC_TYPE_MLB_SOCKET | UCS_XRM_RC_TYPE_USB_PORT | UCS_XRM_RC_TYPE_USB_SOCKET
  | UCS_XRM_RC_TYPE_STRM_PORT | UCS_XRM_RC_TYPE_STRM_SOCKET | UCS_XRM_RC_TYPE_SYNC_CON
  | UCS_XRM_RC_TYPE_COMBINER | UCS_XRM_RC_TYPE_SPLITTER | UCS_XRM_RC_TYPE_AVP_CON
  | UCS_XRM_RC_TYPE_RMCK_PORT | UCS_XRM_RC_TYPE_QOS_CON | UCS_XRM_RC_TYPE_OTHER int

text \<open>
  A resource object: its address, its type, and the members the trace of resources prints.
  A structure of the library has those of its type; enumerations are printed as numbers.
\<close>

record Ucs_Xrm_ResObject_t =
  xo_addr :: nat
  xo_type :: Ucs_Xrm_ResourceType_t
  nw_port_handle :: int
  direction :: int
  data_type :: int
  bandwidth :: int
  index :: int
  clock_config :: int
  channel_address :: int
  streaming_if_ep_in_count :: int
  streaming_if_ep_out_count :: int
  end_point_addr :: int
  frames_per_transfer :: int
  data_alignment :: int
  divisor :: int
  stream_pin_id :: int
  mute_mode :: int
  offset :: int
  bytes_per_frame :: int
  isoc_packet_size :: int

record Ucs_Signature_t =
  node_address :: u16
  node_pos_addr :: u16
  group_address :: u16
  diagnosis_id :: u16
  mac_15_0 :: u16
  mac_31_16 :: u16
  mac_47_32 :: u16
  num_ports :: u8
  chip_id :: u8
  fw_major :: u8
  fw_minor :: u8
  fw_release :: u8
  fw_build :: u8
  cs_major :: u8
  cs_minor :: u8
  cs_release :: u8

text \<open>A structure that \<open>memset\<close> filled with zero.\<close>

definition zero_signature :: Ucs_Signature_t where
  "zero_signature = \<lparr>node_address = 0, node_pos_addr = 0, group_address = 0,
     diagnosis_id = 0, mac_15_0 = 0, mac_31_16 = 0, mac_47_32 = 0, num_ports = 0, chip_id = 0,
     fw_major = 0, fw_minor = 0, fw_release = 0, fw_build = 0, cs_major = 0, cs_minor = 0, cs_release = 0\<rparr>"

record Ucs_Rm_Node_t =
  signature_ptr :: "Ucs_Signature_t option"

record Ucs_Rm_EndPoint_t =
  jobs_list_ptr :: "Ucs_Xrm_ResObject_t list option"
  node_obj_ptr :: "Ucs_Rm_Node_t option"

record Ucs_Rm_Route_t =
  route_addr :: nat
  source_endpoint_ptr :: "Ucs_Rm_EndPoint_t option"
  sink_endpoint_ptr :: "Ucs_Rm_EndPoint_t option"
  active :: u8
  route_id :: u16

text \<open>Following a pointer.\<close>

definition derefR :: "'a option \<Rightarrow> 'a result" where
  "derefR p = (case p of None \<Rightarrow> Inl NullDeref | Some x \<Rightarrow> Inr x)"

lemma derefR_simps [simp]: "derefR None = Inl NullDeref" "derefR (Some x) = Inr x"
  by (simp_all add: derefR_def)

text \<open>\<open>endpoint->node_obj_ptr->signature_ptr->node_address\<close>\<close>

definition endpoint_node_address :: "Ucs_Rm_EndPoint_t option \<Rightarrow> u16 result" where
  "endpoint_node_address ep =
     bindR (derefR ep) (\<lambda>ep.
     bindR (derefR (node_obj_ptr ep)) (\<lambda>n.
     bindR (derefR (signature_ptr n)) (\<lambda>s. Inr (node_address s))))"

text \<open>A route as the configuration builds it: both endpoints and their nodes are set.\<close>

definition wf_endpoint :: "Ucs_Rm_EndPoint_t option \<Rightarrow> bool" where
  "wf_endpoint ep = (case ep of None \<Rightarrow> False | Some ep \<Rightarrow>
     (case node_obj_ptr ep of None \<Rightarrow> False | Some n \<Rightarrow> signature_ptr n \<noteq> None))"

definition wf_route :: "Ucs_Rm_Route_t \<Rightarrow> bool" where
  "wf_route r = (wf_endpoint (source_endpoint_ptr r) \<and> wf_endpoint (sink_endpoint_ptr r))"

lemma endpoint_node_address_ok:
  "wf_endpoint ep \<Longrightarrow> okR (endpoint_node_address ep) (\<lambda>_. True)"
  by (auto simp: wf_endpoint_def endpoint_node_address_def split: option.splits)

text \<open>The part of the library's start parameters that the integration layer sets.\<close>

record Ucs_InitData_t =
  inic_watchdog_enabled :: bool
  ams_enabled :: bool
  notification_mask :: u16
  debug_message_enable :: bool
  packet_bw :: u16
  proxy_channel_bw :: u16
  routes_list_ptr :: "Ucs_Rm_Route_t list option"
  routes_list_size :: u16
  nodes_list_ptr :: "Ucs_Rm_Node_t list option"
  nodes_list_size :: u16
  supv_mode :: Ucs_Supv_Mode_t

section \<open>Queue entries\<close>

datatype UnicensCmdResult_t =
    UniCmdResult_OK_ProcessFinished | UniCmdResult_OK_NeedToWaitForCB
  | UniCmdResult_ERROR_ProcessFinished

datatype UnicensCmd_t =
    UnicensCmd_Unknown | UnicensCmd_Init | UnicensCmd_Stop | UnicensCmd_RmSetRoute
  | UnicensCmd_NsRun | UnicensCmd_GpioCreatePort | UnicensCmd_GpioWritePort
  | UnicensCmd_GpioPortMode | UnicensCmd_I2CWrite | UnicensCmd_I2CRead
  | UnicensCmd_SendAmsMessage | UnicensCmd_PacketFilterMode | UnicensCmd_ProgramNode
  | UnicensCmd_ProgramExit | UnicensCmd_SupvSetMode

record UnicensCmdRmSetRoute_t =
  rsr_routePtr :: Ucs_Rm_Route_t
  rsr_isActive :: bool

text \<open>A script list is identified by its address.\<close>

record UnicensCmdNsRun_t =
  nsr_nodeAddress :: u16
  nsr_scriptPtr :: nat
  nsr_scriptSize :: u8

record UnicensCmdGpioCreatePort_t =
  gcp_destination :: u16
  gcp_debounceTime :: u16

record UnicensCmdGpioWritePort_t =
  gwp_destination :: u16
  gwp_mask :: u16
  gwp_data :: u16

record UnicensCmdGpioPortMode_t =
  gpm_destination :: u16
  gpm_gpioPinId :: u8
  gpm_mode :: int

text \<open>The result callback of an I2C write is either NULL or the caller's function.\<close>

record UnicensCmdI2CWrite_t =
  i2w_destination :: u16
  i2w_i2cMode :: int
  i2w_blockCount :: u8
  i2w_slaveAddr :: u8
  i2w_timeout :: u16
  i2w_dataLen :: u8
  i2w_data :: "u8 list"
  i2w_result_fptr :: bool
  i2w_request_ptr :: nat

record UnicensCmdI2CRead_t =
  i2r_destination :: u16
  i2r_slaveAddr :: u8
  i2r_timeout :: u16
  i2r_dataLen :: u8

text \<open>
  A message buffer allocated by the library; the entry holds the pointer, the caller has
  filled the header before and does not touch it afterwards.
\<close>

record Ucs_AmsTx_Msg_t =
  ams_addr :: nat
  ams_destination_address :: u16
  ams_llrbc :: u8
  ams_msg_id :: u16
  ams_data_size :: u32

record UnicensCmdSendAmsMessage_t =
  ams_msg :: Ucs_AmsTx_Msg_t

record UnicensCmdPacketFilterMode_t =
  pfm_destination_address :: u16
  pfm_mode :: u16

text \<open>Where an identification string is written: the test memory, or the persistent one.\<close>

datatype Ucs_Prg_MemId_t = UCS_PRG_MID_IS | UCS_PRG_MID_ISTEST

text \<open>
  \<open>commands.data_ptr\<close> points to the entry's own \<open>data\<close>, the session type is always
  \<open>UCS_PRG_ST_IS\<close>.
\<close>

record UnicensCmdProgramNode_t =
  pn_data :: "u8 list"
  pn_nodePosAddr :: u16
  pn_signature :: Ucs_Signature_t
  pn_mem_id :: Ucs_Prg_MemId_t
  pn_address :: u32
  pn_unit_size :: u8
  pn_data_size :: u16

record UnicensCmdSupvMode_t =
  supvMode :: Ucs_Supv_Mode_t

text \<open>
  The tagged union of an entry. \<open>Init.init_ptr\<close> always points to the instance's own start
  parameters, so the constructor needs no payload.
\<close>

datatype UnicensCmdEntry_t =
    EntryUnknown | EntryInit | EntryStop | RmSetRoute UnicensCmdRmSetRoute_t
  | NsRun UnicensCmdNsRun_t | GpioCreatePort UnicensCmdGpioCreatePort_t
  | GpioWritePort UnicensCmdGpioWritePort_t | GpioPortMode UnicensCmdGpioPortMode_t
  | I2CWrite UnicensCmdI2CWrite_t | I2CRead UnicensCmdI2CRead_t
  | SendAms UnicensCmdSendAmsMessage_t | PacketFilterMode UnicensCmdPacketFilterMode_t
  | ProgramNode UnicensCmdProgramNode_t | ProgramExit | SupvMode UnicensCmdSupvMode_t

fun cmd :: "UnicensCmdEntry_t \<Rightarrow> UnicensCmd_t" where
  "cmd EntryUnknown = UnicensCmd_Unknown"
| "cmd EntryInit = UnicensCmd_Init"
| "cmd EntryStop = UnicensCmd_Stop"
| "cmd (RmSetRoute _) = UnicensCmd_RmSetRoute"
| "cmd (NsRun _) = UnicensCmd_NsRun"
| "cmd (GpioCreatePort _) = UnicensCmd_GpioCreatePort"
| "cmd (GpioWritePort _) = UnicensCmd_GpioWritePort"
| "cmd (GpioPortMode _) = UnicensCmd_GpioPortMode"
| "cmd (I2CWrite _) = UnicensCmd_I2CWrite"
| "cmd (I2CRead _) = UnicensCmd_I2CRead"
| "cmd (SendAms _) = UnicensCmd_SendAmsMessage"
| "cmd (PacketFilterMode _) = UnicensCmd_PacketFilterMode"
| "cmd (ProgramNode _) = UnicensCmd_ProgramNode"
| "cmd ProgramExit = UnicensCmd_ProgramExit"
| "cmd (SupvMode _) = UnicensCmd_SupvSetMode"

section \<open>The instance\<close>

record UCSI_Programming_t =
  nodes :: "Ucs_Signature_t list"
  signatureValid :: "bool list"
  allowProgramming :: bool
  persistent :: bool
  triggerNodeCount :: u8

text \<open>
  The pointers to the library's objects are told apart only from NULL; \<open>currentCmd\<close> points
  to an entry of the queue. \<open>pendingRoutePtr\<close> is the address of a route.
\<close>

record UCSI_Data_t =
  cableResult :: "u16 list"
  uniInitData :: Ucs_InitData_t
  supvShallMode :: Ucs_Supv_Mode_t
  program :: UCSI_Programming_t
  rb :: "UnicensCmdEntry_t RB_t"
  uniLldHPtr :: bool
  pendingRoutePtr :: "nat option"
  unicens :: bool
  uniLld :: bool
  currentCmd :: "nat option"
  initialized :: bool
  printTrigger :: bool
  triggerService :: bool
  switchOnlyInInactive :: bool

end
