(* ===== verification/C_Text.thy ===== *)
theory C_Text
  imports Prelude
begin

text \<open>
  The text output of the C library as the sources use it: hexadecimal and decimal
  conversions of \<open>printf\<close>, \<open>snprintf\<close> into a buffer of fixed size, \<open>strcat\<close> onto a buffer
  whose bound it does not check (an append behind the bound is a fault), and the colours.
\<close>

section \<open>Numbers\<close>

definition hex_digit :: "nat \<Rightarrow> char" where
  "hex_digit d = ''0123456789ABCDEF'' ! (d mod 16)"

fun hex_digits :: "nat \<Rightarrow> string" where
  "hex_digits n = (if n < 16 then [hex_digit n] else hex_digits (n div 16) @ [hex_digit n])"

declare hex_digits.simps [simp del]

definition pad_zero :: "nat \<Rightarrow> string \<Rightarrow> string" where
  "pad_zero width s = replicate (width - length s) (CHR ''0'') @ s"

text \<open>\<open>%0<width>X\<close>; the plain \<open>%X\<close> has width 0.\<close>

definition fmt_X :: "nat \<Rightarrow> nat \<Rightarrow> string" where
  "fmt_X width n = pad_zero width (hex_digits n)"

fun dec_digits :: "nat \<Rightarrow> string" where
  "dec_digits n = (if n < 10 then [hex_digit n] else dec_digits (n div 10) @ [hex_digit (n mod 10)])"

declare dec_digits.simps [simp del]

lemma length_hex_digits_pos: "0 < length (hex_digits n)"
  by (subst hex_digits.simps) simp

lemma length_hex_digits: "n < 16 ^ Suc k \<Longrightarrow> length (hex_digits n) \<le> Suc k"
proof (induction k arbitrary: n)
  case 0
  then show ?case by (subst hex_digits.simps) simp
next
  case (Suc k)
  then have "n div 16 < 16 ^ Suc k" by (simp add: less_mult_imp_div_less)
  then show ?case using Suc.IH [of "n div 16"] by (subst hex_digits.simps) simp
qed

lemma length_hex_digits_ge: "16 ^ k \<le> n \<Longrightarrow> Suc k \<le> length (hex_digits n)"
proof (induction k arbitrary: n)
  case 0
  then show ?case using length_hex_digits_pos [of n] by (simp add: Suc_le_eq)
next
  case (Suc k)
  have "16 * 16 ^ k div 16 \<le> n div 16" using Suc.prems by (intro div_le_mono) simp
  then have "Suc k \<le> length (hex_digits (n div 16))" by (intro Suc.IH) simp
  moreover have "\<not> n < 16"
  proof -
    have "16 * 1 \<le> 16 * (16 :: nat) ^ k" by (intro mult_le_mono2) simp
    then have "16 * 1 \<le> n" by (rule le_trans) (use Suc.prems in simp)
    then show ?thesis by simp
  qed
  ultimately show ?case by (subst hex_digits.simps) simp
qed

section \<open>Buffers\<close>

definition snprintf :: "nat \<Rightarrow> string \<Rightarrow> string" where
  "snprintf bufLen s = take (bufLen - 1) s"

definition strcatR :: "nat \<Rightarrow> string \<Rightarrow> string \<Rightarrow> string result" where
  "strcatR bufLen pBuf s =
     (if length pBuf + length s < bufLen then Inr (pBuf @ s) else Inl OutOfBounds)"

lemma strcatR_okR: "okR (strcatR n b s) Q \<longleftrightarrow> length b + length s < n \<and> Q (b @ s)"
  by (simp add: strcatR_def)

definition quoted :: "string \<Rightarrow> string" where
  "quoted s = [CHR 0x27] @ s @ [CHR 0x27]"

section \<open>Colours\<close>

definition ESC :: char where "ESC = CHR 0x1B"
definition RESETCOLOR :: string where "RESETCOLOR = ESC # ''[0m''"
definition GREEN :: string where "GREEN = ESC # ''[0;32m''"
definition RED :: string where "RED = ESC # ''[0;31m''"
definition YELLOW :: string where "YELLOW = ESC # ''[1;33m''"
definition BLUE :: string where "BLUE = ESC # ''[0;34m''"

lemma length_colours [simp]:
  "length RESETCOLOR = 4" "length GREEN = 7" "length RED = 7" "length YELLOW = 7" "length BLUE = 7"
  by (simp_all add: RESETCOLOR_def GREEN_def RED_def YELLOW_def BLUE_def)

end
