(* ===== verification/Slot_Table.thy ===== *)
theory Slot_Table
  imports Prelude
begin

text \<open>
  Tables in arrays of fixed size whose slots are free or hold one key with a value. A store
  overwrites the first slot in use that has the key, else takes the first free one, else
  fails; a lookup returns the value of the first slot in use with the key. The print module
  keeps its nodes, connections and resources this way.
\<close>

definition slot_store ::
  "('s \<Rightarrow> bool) \<Rightarrow> ('s \<Rightarrow> 'k) \<Rightarrow> ('k \<Rightarrow> 'v \<Rightarrow> 's \<Rightarrow> 's) \<Rightarrow> ('v \<Rightarrow> 's \<Rightarrow> 's)
    \<Rightarrow> 'k \<Rightarrow> 'v \<Rightarrow> 's list \<Rightarrow> 's list option" where
  "slot_store used key fill change k v xs =
     (case scan (\<lambda>s. used s \<and> key s = k) xs of
        Some i \<Rightarrow> Some (xs[i := change v (xs ! i)])
      | None \<Rightarrow> (case scan (\<lambda>s. \<not> used s) xs of
          Some i \<Rightarrow> Some (xs[i := fill k v (xs ! i)])
        | None \<Rightarrow> None))"

definition slot_find :: "('s \<Rightarrow> bool) \<Rightarrow> ('s \<Rightarrow> 'k) \<Rightarrow> ('s \<Rightarrow> 'v) \<Rightarrow> 'k \<Rightarrow> 's list \<Rightarrow> 'v option" where
  "slot_find used key val k xs =
     map_option (\<lambda>i. val (xs ! i)) (scan (\<lambda>s. used s \<and> key s = k) xs)"

text \<open>No key is stored twice.\<close>

definition keys_distinct :: "('s \<Rightarrow> bool) \<Rightarrow> ('s \<Rightarrow> 'k) \<Rightarrow> 's list \<Rightarrow> bool" where
  "keys_distinct used key xs \<longleftrightarrow>
     (\<forall>i < length xs. \<forall>j < length xs. used (xs ! i) \<and> used (xs ! j) \<and> key (xs ! i) = key (xs ! j)
        \<longrightarrow> i = j)"

locale slot_table =
  fixes used :: "'s \<Rightarrow> bool"
    and key :: "'s \<Rightarrow> 'k"
    and val :: "'s \<Rightarrow> 'v"
    and fill :: "'k \<Rightarrow> 'v \<Rightarrow> 's \<Rightarrow> 's"
    and change :: "'v \<Rightarrow> 's \<Rightarrow> 's"
  assumes fill_slot: "used (fill k v s)" "key (fill k v s) = k" "val (fill k v s) = v"
    and change_slot: "used s \<Longrightarrow> used (change v s)" "key (change v s) = key s"
      "val (change v s) = v"

context slot_table begin

abbreviation store where "store \<equiv> slot_store used key fill change"
abbreviation find where "find \<equiv> slot_find used key val"
abbreviation unique where "unique \<equiv> keys_distinct used key"

lemma find_eq:
  assumes "unique xs" "i < length xs" "used (xs ! i)"
  shows "find (key (xs ! i)) xs = Some (val (xs ! i))"
proof -
  have "scan (\<lambda>s. used s \<and> key s = key (xs ! i)) xs = Some i"
  proof (rule scan_SomeI)
    show "\<not> (used (xs ! j) \<and> key (xs ! j) = key (xs ! i))" if "j < i" for j
      using assms that unfolding keys_distinct_def by (metis less_trans nat_neq_iff)
  qed (use assms in simp_all)
  then show ?thesis by (simp add: slot_find_def)
qed

lemma find_None_iff: "find k xs = None \<longleftrightarrow> (\<forall>s \<in> set xs. used s \<longrightarrow> key s \<noteq> k)"
  by (auto simp: slot_find_def scan_None_iff)

lemma find_SomeE:
  assumes "find k xs = Some v"
  obtains i where "i < length xs" "used (xs ! i)" "key (xs ! i) = k" "val (xs ! i) = v"
  using assms by (auto simp: slot_find_def dest!: scan_SomeD)

text \<open>Writing into slot \<open>i\<close>, which is free or holds the key already.\<close>

lemma write_slot:
  assumes u: "unique xs" and i: "i < length xs"
    and s: "used s" "key s = k" "val s = v"
    and here: "used (xs ! i) \<Longrightarrow> key (xs ! i) = k"
    and new: "\<not> used (xs ! i) \<Longrightarrow> find k xs = None"
  shows "unique (xs[i := s])" and "find k (xs[i := s]) = Some v"
    and "k' \<noteq> k \<Longrightarrow> find k' (xs[i := s]) = find k' xs"
proof -
  let ?ys = "xs[i := s]"
  have other: "j = i" if j: "used (xs ! j)" "key (xs ! j) = k" "j < length xs" for j
  proof (cases "used (xs ! i)")
    case True
    then show ?thesis using u i here j unfolding keys_distinct_def by metis
  next
    case False
    then have "\<forall>s \<in> set xs. used s \<longrightarrow> key s \<noteq> k" using new find_None_iff by blast
    then show ?thesis using j nth_mem by blast
  qed
  show y: "unique ?ys"
    unfolding keys_distinct_def
  proof (intro allI impI, elim conjE)
    fix a b
    assume ab: "a < length ?ys" "b < length ?ys" "used (?ys ! a)" "used (?ys ! b)"
      "key (?ys ! a) = key (?ys ! b)"
    show "a = b"
    proof (cases "a = i \<or> b = i")
      case True
      then show ?thesis using ab s other [of a] other [of b]
        by (auto simp: nth_list_update split: if_splits)
    next
      case False
      then show ?thesis using ab u unfolding keys_distinct_def by (simp add: nth_list_update)
    qed
  qed
  show "find k ?ys = Some v" using find_eq [OF y, of i] i s by simp
  show "find k' ?ys = find k' xs" if k': "k' \<noteq> k"
  proof (cases "find k' xs")
    case None
    have "find k' ?ys = None"
      unfolding find_None_iff using None s k' by (auto simp: find_None_iff dest!: set_list_update_mem)
    with None show ?thesis by simp
  next
    case (Some w)
    then obtain j where j: "j < length xs" "used (xs ! j)" "key (xs ! j) = k'" "val (xs ! j) = w"
      by (rule find_SomeE)
    then have "j \<noteq> i" using here k' by auto
    then show ?thesis using find_eq [OF y, of j] j Some by simp
  qed
qed

text \<open>The contract of a store.\<close>

lemma store_Some:
  assumes u: "unique xs" and st: "store k v xs = Some ys"
  shows "unique ys \<and> length ys = length xs \<and> find k ys = Some v \<and>
    (\<forall>k'. k' \<noteq> k \<longrightarrow> find k' ys = find k' xs)"
proof (cases "scan (\<lambda>s. used s \<and> key s = k) xs")
  case (Some i)
  note sc = scan_SomeD [OF Some]
  have ys: "ys = xs[i := change v (xs ! i)]" using st Some by (simp add: slot_store_def)
  show ?thesis
    unfolding ys
    using write_slot [OF u, of i "change v (xs ! i)" k v] sc change_slot by auto
next
  case None
  with st obtain i where i: "scan (\<lambda>s. \<not> used s) xs = Some i" and ys: "ys = xs[i := fill k v (xs ! i)]"
    by (auto simp: slot_store_def split: option.splits)
  have "find k xs = None" using None by (simp add: slot_find_def)
  then show ?thesis
    unfolding ys
    using write_slot [OF u, of i "fill k v (xs ! i)" k v] scan_SomeD [OF i] fill_slot by auto
qed

lemma store_None_iff:
  "store k v xs = None \<longleftrightarrow> find k xs = None \<and> (\<forall>s \<in> set xs. used s)"
proof -
  have "store k v xs = None \<longleftrightarrow>
      scan (\<lambda>s. used s \<and> key s = k) xs = None \<and> scan (\<lambda>s. \<not> used s) xs = None"
    by (simp add: slot_store_def split: option.split)
  then show ?thesis by (simp add: find_None_iff scan_None_iff)
qed

end

end
