(* ===== verification/Ucsi_Print.thy ===== *)
theory Ucsi_Print
  imports Ucsi_Cfg C_Text Slot_Table
begin

text \<open>
  The route table printer, libraries/ucsi/ucsi_print.c: its static state \<open>m\<close>, the reports it
  is fed with, the service function that decides when to print, and the table itself.

  An operation returns the new state and the callbacks it made, in order:
  \<open>UCSIPrint_CB_NeedService\<close> and \<open>UCSIPrint_CB_OnUserMessage\<close>, which libraries/ucsi/ucsi_impl.c
  implements. The tag is the instance passed to \<open>UCSIPrint_Init\<close>, or NULL.
\<close>

section \<open>State\<close>

definition SERVICE_TIME :: u32 where "SERVICE_TIME = 200"
definition MAX_TIMEOUT :: u32 where "MAX_TIMEOUT = 10000"
definition MPR_RETRIES :: u8 where "MPR_RETRIES = 5"
definition INVALID_CON_LABEL :: u16 where "INVALID_CON_LABEL = 0xDEAD"
definition STR_BUF_LEN :: nat where "STR_BUF_LEN = 384"
definition STR_RES_LEN :: nat where "STR_RES_LEN = 60"
definition UCSI_PRINT_MAX_NODES :: nat where "UCSI_PRINT_MAX_NODES = 64"
definition UCSI_PRINT_MAX_RESOURCES :: nat where "UCSI_PRINT_MAX_RESOURCES = 1024"

datatype UCSIPrint_ObjectState_t = ObjState_Unused | ObjState_Build | ObjState_Failed

datatype UCSIPrint_NodeState_t = NodeState_NotAvailable | NodeState_Ignored | NodeState_Available

text \<open>A resource object is known by its address only.\<close>

record ResourceList =
  element :: "nat option"
  r_state :: UCSIPrint_ObjectState_t

record ConnectionList =
  c_isValid :: bool
  c_isActive :: bool
  c_routeId :: u16
  c_connectionLabel :: u16

record NodeList =
  n_isValid :: bool
  n_nodeState :: UCSIPrint_NodeState_t
  n_node :: u16
  n_pos :: u16

record LocalVar =
  m_initialized :: bool
  m_triggerService :: bool
  m_nextService :: u32
  m_timeOut :: u32
  m_tag :: "unit option"
  m_pRoutes :: "Ucs_Rm_Route_t list option"
  m_routesSize :: u16
  m_networkAvailable :: bool
  m_mpr :: u8
  m_waitForMprRetries :: u8
  m_rList :: "ResourceList list"
  m_cList :: "ConnectionList list"
  m_nList :: "NodeList list"

definition rList_zero :: "ResourceList list" where
  "rList_zero = replicate UCSI_PRINT_MAX_RESOURCES \<lparr>element = None, r_state = ObjState_Unused\<rparr>"

definition cList_zero :: "ConnectionList list" where
  "cList_zero = replicate UCSI_PRINT_MAX_RESOURCES
     \<lparr>c_isValid = False, c_isActive = False, c_routeId = 0, c_connectionLabel = 0\<rparr>"

definition nList_zero :: "NodeList list" where
  "nList_zero = replicate UCSI_PRINT_MAX_NODES
     \<lparr>n_isValid = False, n_nodeState = NodeState_NotAvailable, n_node = 0, n_pos = 0\<rparr>"

definition LocalVar_zero :: LocalVar where
  "LocalVar_zero = \<lparr>m_initialized = False, m_triggerService = False, m_nextService = 0,
     m_timeOut = 0, m_tag = None, m_pRoutes = None, m_routesSize = 0,
     m_networkAvailable = False, m_mpr = 0, m_waitForMprRetries = 0,
     m_rList = rList_zero, m_cList = cList_zero, m_nList = nList_zero\<rparr>"

datatype print_cb = NeedService "unit option" | OnUserMessage "unit option" string

type_synonym print_result = "LocalVar \<times> print_cb list"

definition UCSIPrint_Init :: "Ucs_Rm_Route_t list option \<Rightarrow> u16 \<Rightarrow> unit option \<Rightarrow> LocalVar" where
  "UCSIPrint_Init pRoutes routesSize tag =
     (if pRoutes = None \<or> routesSize = 0 then LocalVar_zero
      else LocalVar_zero\<lparr>m_tag := tag, m_pRoutes := pRoutes, m_routesSize := routesSize,
             m_initialized := True\<rparr>)"

definition RequestTrigger :: "LocalVar \<Rightarrow> print_result" where
  "RequestTrigger m = (m\<lparr>m_triggerService := True\<rparr>, [NeedService (m_tag m)])"

section \<open>Reports\<close>

definition UCSIPrint_SetNetworkAvailable :: "bool \<Rightarrow> u8 \<Rightarrow> LocalVar \<Rightarrow> print_result" where
  "UCSIPrint_SetNetworkAvailable available maxPos m =
     (if \<not> m_initialized m then (m, []) else
      let m = m\<lparr>m_networkAvailable := available, m_mpr := maxPos, m_waitForMprRetries := 0,
                m_timeOut := 0\<rparr>
      in if available then RequestTrigger m
         else (m\<lparr>m_triggerService := False, m_nextService := 0, m_rList := rList_zero,
                 m_cList := cList_zero, m_nList := nList_zero\<rparr>, []))"

definition UCSIPrint_SetNodeAvailable ::
  "u16 \<Rightarrow> u16 \<Rightarrow> UCSIPrint_NodeState_t \<Rightarrow> LocalVar \<Rightarrow> print_result" where
  "UCSIPrint_SetNodeAvailable nodeAddress nodePosAddr nodeState m =
     (if \<not> m_initialized m then (m, []) else
      case scan (\<lambda>n. n_isValid n \<and> n_pos n = nodePosAddr) (m_nList m) of
        Some i \<Rightarrow>
          let n = m_nList m ! i
          in if n_nodeState n \<noteq> nodeState \<or> n_node n \<noteq> nodeAddress
             then RequestTrigger (m\<lparr>m_nList := (m_nList m)[i :=
                    n\<lparr>n_node := nodeAddress, n_nodeState := nodeState\<rparr>]\<rparr>)
             else (m, [])
      | None \<Rightarrow>
          (case scan (\<lambda>n. \<not> n_isValid n) (m_nList m) of
             Some i \<Rightarrow>
               RequestTrigger (m\<lparr>m_nList := (m_nList m)[i :=
                 (m_nList m ! i)\<lparr>n_node := nodeAddress, n_pos := nodePosAddr,
                   n_nodeState := nodeState, n_isValid := True\<rparr>]\<rparr>)
           | None \<Rightarrow>
               (m, [OnUserMessage (m_tag m)
                 (RED @ ''UCSI-Watchdog:Could not store node availability, increase UCSI_PRINT_MAX_NODES'' @ RESETCOLOR)])))"

definition UCSIPrint_SetRouteState :: "u16 \<Rightarrow> bool \<Rightarrow> u16 \<Rightarrow> LocalVar \<Rightarrow> print_result" where
  "UCSIPrint_SetRouteState routeId isActive connectionLabel m =
     (if \<not> m_initialized m then (m, []) else
      let (m, cbs) = RequestTrigger m
      in case scan (\<lambda>c. c_isValid c \<and> c_routeId c = routeId) (m_cList m) of
        Some i \<Rightarrow>
          (m\<lparr>m_cList := (m_cList m)[i := (m_cList m ! i)\<lparr>c_connectionLabel := connectionLabel,
               c_isActive := isActive\<rparr>]\<rparr>, cbs)
      | None \<Rightarrow>
          (case scan (\<lambda>c. \<not> c_isValid c) (m_cList m) of
             Some i \<Rightarrow>
               (m\<lparr>m_cList := (m_cList m)[i := (m_cList m ! i)\<lparr>c_routeId := routeId,
                    c_isActive := isActive, c_connectionLabel := connectionLabel,
                    c_isValid := True\<rparr>]\<rparr>, cbs)
           | None \<Rightarrow>
               (m, cbs @ [OnUserMessage (m_tag m)
                 (RED @ ''UCSI-Watchdog:Could not store connection label, increase UCSI_PRINT_MAX_RESOURCES'' @ RESETCOLOR)])))"

text \<open>
  The two loops compare with \<open>element\<close> and with NULL; the argument is the address of an
  object, never NULL (its caller returns early).
\<close>

definition UCSIPrint_SetObjectState ::
  "nat \<Rightarrow> UCSIPrint_ObjectState_t \<Rightarrow> LocalVar \<Rightarrow> print_result" where
  "UCSIPrint_SetObjectState obj state m =
     (if \<not> m_initialized m then (m, []) else
      case scan (\<lambda>r. element r = Some obj) (m_rList m) of
        Some i \<Rightarrow>
          if r_state (m_rList m ! i) \<noteq> state
          then RequestTrigger (m\<lparr>m_rList := (m_rList m)[i := (m_rList m ! i)\<lparr>r_state := state\<rparr>]\<rparr>)
          else (m, [])
      | None \<Rightarrow>
          (case scan (\<lambda>r. element r = None) (m_rList m) of
             Some i \<Rightarrow>
               RequestTrigger (m\<lparr>m_rList := (m_rList m)[i :=
                 (m_rList m ! i)\<lparr>element := Some obj, r_state := state\<rparr>]\<rparr>)
           | None \<Rightarrow>
               (m, [OnUserMessage (m_tag m)
                 (RED @ ''UCSI-Watchdog:Could not store object state, increase UCSI_PRINT_MAX_RESOURCES'' @ RESETCOLOR)])))"

definition UCSIPrint_UnicensActivity :: "LocalVar \<Rightarrow> print_result" where
  "UCSIPrint_UnicensActivity m =
     (if \<not> m_initialized m then (m, [])
      else if m_nextService m \<noteq> 0 then RequestTrigger m
      else (m, [NeedService (m_tag m)]))"

section \<open>Lookups\<close>

definition GetNodeState :: "u16 \<Rightarrow> LocalVar \<Rightarrow> UCSIPrint_NodeState_t" where
  "GetNodeState nodeAddress m =
     (case scan (\<lambda>n. n_isValid n \<and> n_node n = nodeAddress) (m_nList m) of
        Some i \<Rightarrow> n_nodeState (m_nList m ! i)
      | None \<Rightarrow> NodeState_NotAvailable)"

definition GetNodeCount :: "LocalVar \<Rightarrow> u8" where
  "GetNodeCount m =
     foldl (\<lambda>cnt n. if n_isValid n \<and> n_nodeState n \<noteq> NodeState_NotAvailable then cnt + 1 else cnt)
       0 (m_nList m)"

text \<open>The two output parameters, untouched (\<open>None\<close>) when the route is not known.\<close>

definition GetRouteState :: "u16 \<Rightarrow> LocalVar \<Rightarrow> (bool \<times> u16) option" where
  "GetRouteState routeId m =
     (case scan (\<lambda>c. c_isValid c \<and> c_routeId c = routeId) (m_cList m) of
        Some i \<Rightarrow> Some (c_isActive (m_cList m ! i), c_connectionLabel (m_cList m ! i))
      | None \<Rightarrow> None)"

definition GetIgnoredNodeString :: "nat \<Rightarrow> LocalVar \<Rightarrow> (bool \<times> string) result" where
  "GetIgnoredNodeString bufLen m =
     foldR (\<lambda>n (foundNodes, pBuf).
        if n_isValid n \<and> n_nodeState n = NodeState_Ignored
        then bindR (strcatR bufLen pBuf (snprintf 8 (''0x'' @ fmt_X 0 (unat (n_node n)) @ '' '')))
               (\<lambda>pBuf. Inr (True, pBuf))
        else Inr (foundNodes, pBuf))
      (m_nList m) (False, '''')"

section \<open>The table\<close>

fun find_object_state ::
  "nat \<Rightarrow> ResourceList list \<Rightarrow> UCSIPrint_ObjectState_t \<Rightarrow> UCSIPrint_ObjectState_t" where
  "find_object_state job [] newState = newState"
| "find_object_state job (r # rs) newState =
     (case element r of
        None \<Rightarrow> newState
      | Some e \<Rightarrow> if job = e then r_state r else find_object_state job rs ObjState_Unused)"

fun resource_abbrev :: "Ucs_Xrm_ResourceType_t \<Rightarrow> string" where
  "resource_abbrev UCS_XRM_RC_TYPE_NW_SOCKET = ''NS''"
| "resource_abbrev UCS_XRM_RC_TYPE_MLB_PORT = ''MP''"
| "resource_abbrev UCS_XRM_RC_TYPE_MLB_SOCKET = ''MS''"
| "resource_abbrev UCS_XRM_RC_TYPE_USB_PORT = ''UP''"
| "resource_abbrev UCS_XRM_RC_TYPE_USB_SOCKET = ''US''"
| "resource_abbrev UCS_XRM_RC_TYPE_STRM_PORT = ''SP''"
| "resource_abbrev UCS_XRM_RC_TYPE_STRM_SOCKET = ''SS''"
| "resource_abbrev UCS_XRM_RC_TYPE_SYNC_CON = ''SC''"
| "resource_abbrev UCS_XRM_RC_TYPE_COMBINER = ''C''"
| "resource_abbrev UCS_XRM_RC_TYPE_SPLITTER = ''S''"
| "resource_abbrev UCS_XRM_RC_TYPE_AVP_CON = ''AC''"
| "resource_abbrev UCS_XRM_RC_TYPE_RMCK_PORT = ''R''"
| "resource_abbrev _ = ''E''"

definition state_colour :: "UCSIPrint_ObjectState_t \<Rightarrow> string" where
  "state_colour s = (case s of ObjState_Build \<Rightarrow> GREEN | ObjState_Failed \<Rightarrow> RED | _ \<Rightarrow> RESETCOLOR)"

definition state_mark :: "UCSIPrint_ObjectState_t \<Rightarrow> string" where
  "state_mark s = (case s of ObjState_Build \<Rightarrow> ''^'' | ObjState_Failed \<Rightarrow> ''!'' | _ \<Rightarrow> '' '')"

text \<open>One job of the list: the variables are the old state, the new state and the buffer.\<close>

definition ParseResources_step ::
  "nat \<Rightarrow> LocalVar \<Rightarrow> Ucs_Xrm_ResObject_t
    \<Rightarrow> UCSIPrint_ObjectState_t \<times> UCSIPrint_ObjectState_t \<times> string
    \<Rightarrow> (UCSIPrint_ObjectState_t \<times> UCSIPrint_ObjectState_t \<times> string) result" where
  "ParseResources_step bufLen m job v = (case v of (oldState, newState, pBuf) \<Rightarrow>
     if xo_type job = UCS_XRM_RC_TYPE_DC_PORT then Inr v else
     let newState = find_object_state (xo_addr job) (m_rList m) newState
     in bindR (if oldState \<noteq> newState then strcatR bufLen pBuf (state_colour newState)
               else Inr pBuf) (\<lambda>pBuf.
        bindR (strcatR bufLen pBuf (state_mark newState)) (\<lambda>pBuf.
        bindR (strcatR bufLen pBuf (resource_abbrev (xo_type job))) (\<lambda>pBuf.
        Inr (newState, newState, pBuf)))))"

definition ParseResources :: "Ucs_Xrm_ResObject_t list option \<Rightarrow> nat \<Rightarrow> LocalVar \<Rightarrow> string result" where
  "ParseResources ppJobList bufLen m =
     (case ppJobList of
        None \<Rightarrow> Inr []
      | Some jobs \<Rightarrow>
          bindR (foldR (ParseResources_step bufLen m) jobs (ObjState_Unused, ObjState_Unused, []))
            (\<lambda>(oldState, newState, pBuf).
             if newState \<noteq> ObjState_Unused then strcatR bufLen pBuf RESETCOLOR else Inr pBuf))"

definition flag :: "bool \<Rightarrow> u8" where
  "flag b = (if b then 1 else 0)"

text \<open>The mark before a node address and the colour reset behind it.\<close>

definition source_mark :: "UCSIPrint_NodeState_t \<Rightarrow> string \<times> string" where
  "source_mark s = (case s of
     NodeState_Available \<Rightarrow> (GREEN @ ''^'', RESETCOLOR)
   | NodeState_Ignored \<Rightarrow> (RED @ ''^'', RESETCOLOR)
   | NodeState_NotAvailable \<Rightarrow> ('' '', []))"

definition sink_mark :: "UCSIPrint_NodeState_t \<Rightarrow> string \<times> string" where
  "sink_mark s = (case s of
     NodeState_Available \<Rightarrow> (GREEN @ ''^'', RESETCOLOR)
   | NodeState_Ignored \<Rightarrow> (RED @ ''!'', RESETCOLOR)
   | NodeState_NotAvailable \<Rightarrow> ('' '', []))"

definition address_cell :: "'a option \<Rightarrow> string \<times> string \<Rightarrow> u16 \<Rightarrow> string" where
  "address_cell jobs mark adr = snprintf 24
     (if jobs \<noteq> None then fst mark @ ''0x'' @ fmt_X 3 (unat adr) @ snd mark @ ''  ''
      else ''        '')"

text \<open>One line of the table.\<close>

definition route_line :: "LocalVar \<Rightarrow> Ucs_Rm_Route_t \<Rightarrow> string result" where
  "route_line m route =
     bindR (derefR (source_endpoint_ptr route)) (\<lambda>src.
     bindR (derefR (sink_endpoint_ptr route)) (\<lambda>snk.
     bindR (endpoint_node_address (Some src)) (\<lambda>srcAddr.
     bindR (endpoint_node_address (Some snk)) (\<lambda>snkAddr.
     let inJobs = jobs_list_ptr src;
         outJobs = jobs_list_ptr snk;
         shallActive = active route;
         srcState = GetNodeState srcAddr m;
         snkState = GetNodeState snkAddr m;
         (isActive, label) = (case GetRouteState (route_id route) m of
                                Some r \<Rightarrow> r | None \<Rightarrow> (False, INVALID_CON_LABEL))
     in bindR (ParseResources inJobs STR_RES_LEN m) (\<lambda>inRes.
        bindR (ParseResources outJobs STR_RES_LEN m) (\<lambda>outRes.
        let both = (srcState = NodeState_Available \<and> snkState = NodeState_Available);
            shallActive = (if both \<and> inJobs = None then 0 else shallActive);
            (routeAvail, routeReset) =
              (if both then (if shallActive = flag isActive then GREEN @ ''^'' else RED @ ''!'',
                             RESETCOLOR)
               else ('' '', []));
            conLabel = snprintf 20 (if label = INVALID_CON_LABEL \<or> label = 0 then ''      ''
                                    else ''0x'' @ fmt_X 4 (unat label))
        in Inr (snprintf STR_BUF_LEN
             (address_cell inJobs (source_mark srcState) srcAddr @ ''|'' @
              address_cell outJobs (sink_mark snkState) snkAddr @
              ''| S:'' @ dec_digits (unat shallActive) @ '' I:'' @ routeAvail @
              dec_digits (unat (flag isActive)) @ routeReset @
              '' | 0x'' @ fmt_X 4 (unat (route_id route)) @ '' | '' @ conLabel @
              '' | Src:'' @ inRes @ ''  Snk:'' @ outRes))))))))"

definition separator :: string where
  "separator = replicate 87 (CHR ''-'')"

definition table_head :: string where
  "table_head = '' Source | Sink   | Active   | ID     | Label  | Resources''"

text \<open>The loop over the routes, \<open>n\<close> of them left from index \<open>i\<close>.\<close>

fun route_lines :: "LocalVar \<Rightarrow> Ucs_Rm_Route_t list \<Rightarrow> nat \<Rightarrow> nat \<Rightarrow> string list result" where
  "route_lines m routes i 0 = Inr []"
| "route_lines m routes i (Suc n) =
     (if i < length routes
      then bindR (route_line m (routes ! i)) (\<lambda>l.
           bindR (route_lines m routes (Suc i) n) (\<lambda>ls. Inr (l # ls)))
      else Inl OutOfBounds)"

definition PrintTable :: "LocalVar \<Rightarrow> print_cb list result" where
  "PrintTable m =
     (if \<not> m_initialized m then Inr []
      else if \<not> m_networkAvailable m then Inr []
      else
        bindR (derefR (m_pRoutes m)) (\<lambda>routes.
        bindR (route_lines m routes 0 (unat (m_routesSize m))) (\<lambda>ls.
        bindR (GetIgnoredNodeString STR_RES_LEN m) (\<lambda>(foundNodes, inRes).
        Inr (map (OnUserMessage (m_tag m))
          ([separator, table_head] @ ls @ [separator] @
           (if foundNodes
            then [snprintf STR_BUF_LEN (RED @ ''Ignored nodes = { '' @ inRes @ '' }'' @ RESETCOLOR),
                  separator]
            else [])))))))"

section \<open>Service\<close>

definition UCSIPrint_Service :: "u32 \<Rightarrow> LocalVar \<Rightarrow> print_result result" where
  "UCSIPrint_Service timestamp m =
     (if \<not> m_networkAvailable m then Inr (m, [])
      else if m_triggerService m then
        Inr (m\<lparr>m_triggerService := False, m_nextService := timestamp + SERVICE_TIME,
               m_timeOut := (if m_timeOut m = 0 then timestamp + MAX_TIMEOUT else m_timeOut m)\<rparr>,
             [NeedService (m_tag m)])
      else if m_nextService m = 0 \<or> m_timeOut m = 0 then Inr (m, [])
      else
        let retries = (if m_mpr m \<noteq> GetNodeCount m then m_waitForMprRetries m + 1
                       else m_waitForMprRetries m);
            print = (\<lambda>m. let m = m\<lparr>m_nextService := 0, m_timeOut := 0\<rparr>
                         in bindR (PrintTable m) (\<lambda>cbs. Inr (m, cbs)))
        in if timestamp \<ge> m_timeOut m then print m
           else if timestamp \<ge> m_nextService m then
             (if m_mpr m \<noteq> GetNodeCount m \<and> retries \<le> MPR_RETRIES
              then Inr (m\<lparr>m_waitForMprRetries := retries,
                          m_nextService := timestamp + SERVICE_TIME\<rparr>, [])
              else print (m\<lparr>m_waitForMprRetries := retries\<rparr>))
           else Inr (m, [NeedService (m_tag m)]))"

section \<open>The three tables keep the contract of slot tables\<close>

definition conn_fill :: "u16 \<Rightarrow> bool \<times> u16 \<Rightarrow> ConnectionList \<Rightarrow> ConnectionList" where
  "conn_fill k v c = c\<lparr>c_routeId := k, c_isActive := fst v, c_connectionLabel := snd v,
     c_isValid := True\<rparr>"

definition conn_change :: "bool \<times> u16 \<Rightarrow> ConnectionList \<Rightarrow> ConnectionList" where
  "conn_change v c = c\<lparr>c_connectionLabel := snd v, c_isActive := fst v\<rparr>"

definition conn_val :: "ConnectionList \<Rightarrow> bool \<times> u16" where
  "conn_val c = (c_isActive c, c_connectionLabel c)"

definition node_fill :: "u16 \<Rightarrow> u16 \<times> UCSIPrint_NodeState_t \<Rightarrow> NodeList \<Rightarrow> NodeList" where
  "node_fill k v n = n\<lparr>n_node := fst v, n_pos := k, n_nodeState := snd v, n_isValid := True\<rparr>"

definition node_change :: "u16 \<times> UCSIPrint_NodeState_t \<Rightarrow> NodeList \<Rightarrow> NodeList" where
  "node_change v n = n\<lparr>n_node := fst v, n_nodeState := snd v\<rparr>"

definition node_val :: "NodeList \<Rightarrow> u16 \<times> UCSIPrint_NodeState_t" where
  "node_val n = (n_node n, n_nodeState n)"

definition res_used :: "ResourceList \<Rightarrow> bool" where
  "res_used r = (element r \<noteq> None)"

definition res_key :: "ResourceList \<Rightarrow> nat" where
  "res_key r = the (element r)"

definition res_fill :: "nat \<Rightarrow> UCSIPrint_ObjectState_t \<Rightarrow> ResourceList \<Rightarrow> ResourceList" where
  "res_fill k v r = r\<lparr>element := Some k, r_state := v\<rparr>"

definition res_change :: "UCSIPrint_ObjectState_t \<Rightarrow> ResourceList \<Rightarrow> ResourceList" where
  "res_change v r = r\<lparr>r_state := v\<rparr>"

interpretation conn: slot_table c_isValid c_routeId conn_val conn_fill conn_change
  by unfold_locales (simp_all add: conn_val_def conn_fill_def conn_change_def)

interpretation node: slot_table n_isValid n_pos node_val node_fill node_change
  by unfold_locales (simp_all add: node_val_def node_fill_def node_change_def)

interpretation res: slot_table res_used res_key r_state res_fill res_change
  by unfold_locales (simp_all add: res_used_def res_key_def res_fill_def res_change_def)

text \<open>The operations in terms of the contract.\<close>

lemma GetRouteState_find: "GetRouteState r m = slot_find c_isValid c_routeId conn_val r (m_cList m)"
  by (simp add: GetRouteState_def slot_find_def conn_val_def split: option.split)

lemma SetRouteState_store:
  assumes "m_initialized m"
  shows "UCSIPrint_SetRouteState r a l m =
    (case slot_store c_isValid c_routeId conn_fill conn_change r (a, l) (m_cList m) of
       Some xs \<Rightarrow> (m\<lparr>m_triggerService := True, m_cList := xs\<rparr>, [NeedService (m_tag m)])
     | None \<Rightarrow> (m\<lparr>m_triggerService := True\<rparr>, [NeedService (m_tag m), OnUserMessage (m_tag m)
         (RED @ ''UCSI-Watchdog:Could not store connection label, increase UCSI_PRINT_MAX_RESOURCES'' @ RESETCOLOR)]))"
  using assms
  by (simp add: UCSIPrint_SetRouteState_def slot_store_def RequestTrigger_def conn_fill_def
      conn_change_def split: option.split)

definition node_find :: "u16 \<Rightarrow> LocalVar \<Rightarrow> (u16 \<times> UCSIPrint_NodeState_t) option" where
  "node_find pos m = slot_find n_isValid n_pos node_val pos (m_nList m)"

definition res_find :: "nat \<Rightarrow> LocalVar \<Rightarrow> UCSIPrint_ObjectState_t option" where
  "res_find obj m = slot_find res_used res_key r_state obj (m_rList m)"

text \<open>
  A report about a node or a resource triggers the printer only when it changes what is
  stored.
\<close>

lemma SetNodeAvailable_store:
  assumes "m_initialized m"
  shows "UCSIPrint_SetNodeAvailable a p s m =
    (if node_find p m = Some (a, s) then (m, []) else
     case slot_store n_isValid n_pos node_fill node_change p (a, s) (m_nList m) of
       Some xs \<Rightarrow> (m\<lparr>m_triggerService := True, m_nList := xs\<rparr>, [NeedService (m_tag m)])
     | None \<Rightarrow> (m, [OnUserMessage (m_tag m)
         (RED @ ''UCSI-Watchdog:Could not store node availability, increase UCSI_PRINT_MAX_NODES'' @ RESETCOLOR)]))"
  using assms
  by (auto simp: UCSIPrint_SetNodeAvailable_def slot_store_def slot_find_def node_find_def
      RequestTrigger_def node_fill_def node_change_def node_val_def split: option.split)

lemma SetObjectState_store:
  assumes "m_initialized m"
  shows "UCSIPrint_SetObjectState obj s m =
    (if res_find obj m = Some s then (m, []) else
     case slot_store res_used res_key res_fill res_change obj s (m_rList m) of
       Some xs \<Rightarrow> (m\<lparr>m_triggerService := True, m_rList := xs\<rparr>, [NeedService (m_tag m)])
     | None \<Rightarrow> (m, [OnUserMessage (m_tag m)
         (RED @ ''UCSI-Watchdog:Could not store object state, increase UCSI_PRINT_MAX_RESOURCES'' @ RESETCOLOR)]))"
proof -
  have a: "(\<lambda>r. element r = Some obj) = (\<lambda>r. res_used r \<and> res_key r = obj)"
    and b: "(\<lambda>r. element r = None) = (\<lambda>r. \<not> res_used r)"
    by (auto simp: res_used_def res_key_def fun_eq_iff)
  show ?thesis
    using assms unfolding UCSIPrint_SetObjectState_def a b
    by (auto simp: slot_store_def slot_find_def res_find_def
        RequestTrigger_def res_fill_def res_change_def split: option.split)
qed

section \<open>The invariant of the printer\<close>

definition print_inv :: "LocalVar \<Rightarrow> bool" where
  "print_inv m \<longleftrightarrow>
     keys_distinct c_isValid c_routeId (m_cList m) \<and>
     keys_distinct n_isValid n_pos (m_nList m) \<and>
     keys_distinct res_used res_key (m_rList m) \<and>
     length (m_cList m) = UCSI_PRINT_MAX_RESOURCES \<and>
     length (m_nList m) = UCSI_PRINT_MAX_NODES \<and>
     length (m_rList m) = UCSI_PRINT_MAX_RESOURCES \<and>
     (m_networkAvailable m \<longrightarrow> m_initialized m) \<and>
     (m_initialized m \<longrightarrow> m_tag m \<noteq> None \<and> m_pRoutes m \<noteq> None \<and> 0 < m_routesSize m)"

lemma keys_distinct_unused: "(\<And>s. s \<in> set xs \<Longrightarrow> \<not> used s) \<Longrightarrow> keys_distinct used key xs"
  by (auto simp: keys_distinct_def)

lemma tables_zero [simp]:
  "keys_distinct c_isValid c_routeId cList_zero" "keys_distinct n_isValid n_pos nList_zero"
  "keys_distinct res_used res_key rList_zero" "length cList_zero = UCSI_PRINT_MAX_RESOURCES"
  "length nList_zero = UCSI_PRINT_MAX_NODES" "length rList_zero = UCSI_PRINT_MAX_RESOURCES"
  by (auto intro!: keys_distinct_unused
      simp: cList_zero_def nList_zero_def rList_zero_def res_used_def)

lemma print_inv_zero [simp]: "print_inv LocalVar_zero"
  by (simp add: print_inv_def LocalVar_zero_def)

lemma print_inv_Init: "tag \<noteq> None \<Longrightarrow> print_inv (UCSIPrint_Init routes n tag)"
  by (simp add: UCSIPrint_Init_def print_inv_def LocalVar_zero_def word_neq_0_conv)

text \<open>Callbacks carry the instance's tag, so the receiver may follow it.\<close>

definition cbs_tagged :: "print_cb list \<Rightarrow> bool" where
  "cbs_tagged cbs \<longleftrightarrow> NeedService None \<notin> set cbs"

definition print_step_ok :: "print_result \<Rightarrow> bool" where
  "print_step_ok r = (print_inv (fst r) \<and> cbs_tagged (snd r))"

lemma print_off:
  assumes "\<not> m_initialized m"
  shows "UCSIPrint_SetNodeAvailable a p s m = (m, [])"
    and "UCSIPrint_SetRouteState r b l m = (m, [])" and "UCSIPrint_SetObjectState obj st m = (m, [])"
  using assms
  by (simp_all add: UCSIPrint_SetNodeAvailable_def UCSIPrint_SetRouteState_def
      UCSIPrint_SetObjectState_def)

lemma print_inv_SetNetworkAvailable:
  "print_inv m \<Longrightarrow> print_step_ok (UCSIPrint_SetNetworkAvailable a p m)"
  by (auto simp: UCSIPrint_SetNetworkAvailable_def RequestTrigger_def print_inv_def
      print_step_ok_def cbs_tagged_def Let_def)

lemma print_inv_SetNodeAvailable:
  "print_inv m \<Longrightarrow> print_step_ok (UCSIPrint_SetNodeAvailable a p s m)"
  by (cases "m_initialized m")
    (auto simp: SetNodeAvailable_store print_inv_def print_step_ok_def cbs_tagged_def
      print_off split: option.split dest: node.store_Some)

lemma print_inv_SetRouteState:
  "print_inv m \<Longrightarrow> print_step_ok (UCSIPrint_SetRouteState r a l m)"
  by (cases "m_initialized m")
    (auto simp: SetRouteState_store print_inv_def print_step_ok_def cbs_tagged_def
      print_off split: option.split dest: conn.store_Some)

lemma print_inv_SetObjectState:
  "print_inv m \<Longrightarrow> print_step_ok (UCSIPrint_SetObjectState obj s m)"
  by (cases "m_initialized m")
    (auto simp: SetObjectState_store print_inv_def print_step_ok_def cbs_tagged_def
      print_off split: option.split dest: res.store_Some)

lemma print_inv_UnicensActivity:
  "print_inv m \<Longrightarrow> print_step_ok (UCSIPrint_UnicensActivity m)"
  by (auto simp: UCSIPrint_UnicensActivity_def RequestTrigger_def print_inv_def
      print_step_ok_def cbs_tagged_def)

section \<open>Buffers of the table\<close>

definition ignored :: "NodeList \<Rightarrow> bool" where
  "ignored n = (n_isValid n \<and> n_nodeState n = NodeState_Ignored)"

definition ignored_text :: "NodeList \<Rightarrow> string" where
  "ignored_text n = ''0x'' @ fmt_X 0 (unat (n_node n)) @ '' ''"

lemma length_ignored_text: "length (ignored_text n) \<le> 7"
proof -
  have "unat (n_node n) < 16 ^ Suc 3" using unsigned_less [of "n_node n", where ?'a = nat] by simp
  then show ?thesis
    using length_hex_digits [of "unat (n_node n)" 3] by (simp add: ignored_text_def fmt_X_def pad_zero_def)
qed

lemma length_ignored_text_ge: "0x100 \<le> n_node n \<Longrightarrow> 6 \<le> length (ignored_text n)"
  using length_hex_digits_ge [of 2 "unat (n_node n)"]
  by (simp add: ignored_text_def fmt_X_def pad_zero_def word_le_nat_alt)

lemma strcatR_concat:
  assumes "\<And>n. P n \<Longrightarrow> 0 < length (t n)" and "length b < len"
  shows "foldR (\<lambda>n (f, pBuf). if P n then bindR (strcatR len pBuf (t n)) (\<lambda>pBuf. Inr (True, pBuf))
                else Inr (f, pBuf)) ns (f, b)
    = (if length b + length (concat (map t (filter P ns))) < len
       then Inr (f \<or> (\<exists>n\<in>set ns. P n), b @ concat (map t (filter P ns))) else Inl OutOfBounds)"
  using assms(2)
proof (induction ns arbitrary: f b)
  case Nil
  then show ?case by simp
next
  case (Cons n ns)
  show ?case
  proof (cases "P n")
    case False
    then show ?thesis using Cons by simp
  next
    case True
    show ?thesis
      using True Cons.IH [of "b @ t n" True] by (auto simp: strcatR_def add.assoc)
  qed
qed

lemma GetIgnoredNodeString_eq:
  assumes "0 < len"
  shows "GetIgnoredNodeString len m =
    (let ns = filter ignored (m_nList m); txt = concat (map ignored_text ns)
     in if length txt < len then Inr (ns \<noteq> [], txt) else Inl OutOfBounds)"
proof -
  have s: "snprintf 8 (''0x'' @ fmt_X 0 (unat (n_node n)) @ '' '') = ignored_text n" for n
    using length_ignored_text [of n] by (simp add: snprintf_def ignored_text_def)
  have "GetIgnoredNodeString len m = foldR (\<lambda>n (f, pBuf).
      if ignored n then bindR (strcatR len pBuf (ignored_text n)) (\<lambda>pBuf. Inr (True, pBuf))
      else Inr (f, pBuf)) (m_nList m) (False, [])"
    unfolding GetIgnoredNodeString_def s ignored_def ..
  also have "\<dots> = (if length (concat (map ignored_text (filter ignored (m_nList m)))) < len
       then Inr (\<exists>n\<in>set (m_nList m). ignored n, concat (map ignored_text (filter ignored (m_nList m))))
       else Inl OutOfBounds)"
    using assms strcatR_concat [of ignored ignored_text "[]" len "m_nList m" False]
    by (simp add: ignored_text_def)
  finally show ?thesis by (auto simp: Let_def filter_empty_conv)
qed

lemma length_concat_le: "(\<And>x. x \<in> set xs \<Longrightarrow> length (t x) \<le> c) \<Longrightarrow> length (concat (map t xs)) \<le> c * length xs"
  by (induction xs) (auto intro!: add_mono)

lemma length_concat_ge: "(\<And>x. x \<in> set xs \<Longrightarrow> c \<le> length (t x)) \<Longrightarrow> c * length xs \<le> length (concat (map t xs))"
  by (induction xs) (auto intro!: add_mono)

text \<open>At most ten characters per job, four for the reset at the end.\<close>

lemma length_resource_abbrev: "length (resource_abbrev t) \<le> 2"
  by (cases t rule: resource_abbrev.cases) simp_all

lemma ParseResources_steps:
  assumes "length pBuf + 10 * length jobs < len"
  shows "okR (foldR (ParseResources_step len m) jobs (old, new, pBuf))
    (\<lambda>(_, _, b). length b \<le> length pBuf + 10 * length jobs)"
  using assms
proof (induction jobs arbitrary: old new pBuf)
  case Nil
  then show ?case by simp
next
  case (Cons job jobs)
  have col: "length (state_colour s) \<le> 7" and mark: "length (state_mark s) = 1" for s
    by (cases s; simp add: state_colour_def state_mark_def)+
  have "okR (ParseResources_step len m job (old, new, pBuf)) (\<lambda>(_, _, b). length b \<le> length pBuf + 10)"
    using Cons.prems col [of "find_object_state (xo_addr job) (m_rList m) new"] mark
      length_resource_abbrev [of "xo_type job"]
    by (simp add: ParseResources_step_def Let_def strcatR_okR)
  then obtain o' n' b where b: "ParseResources_step len m job (old, new, pBuf) = Inr (o', n', b)"
    "length b \<le> length pBuf + 10" by (auto simp: okR_ex)
  then have "okR (foldR (ParseResources_step len m) jobs (o', n', b))
      (\<lambda>(_, _, b'). length b' \<le> length b + 10 * length jobs)"
    using Cons.prems by (intro Cons.IH) simp
  then show ?case using b by (auto elim!: okR_mono)
qed

lemma ParseResources_okR:
  assumes "length (case jobs of None \<Rightarrow> [] | Some js \<Rightarrow> js) \<le> 5"
  shows "okR (ParseResources jobs STR_RES_LEN m) (\<lambda>_. True)"
proof (cases jobs)
  case None
  then show ?thesis by (simp add: ParseResources_def)
next
  case (Some js)
  have "okR (foldR (ParseResources_step STR_RES_LEN m) js (ObjState_Unused, ObjState_Unused, []))
      (\<lambda>(_, _, b). length b \<le> 50)"
    by (rule okR_mono [OF ParseResources_steps]) (use assms Some in \<open>auto simp: STR_RES_LEN_def\<close>)
  then show ?thesis using Some
    by (auto simp: ParseResources_def STR_RES_LEN_def strcatR_okR elim!: okR_mono)
qed

text \<open>A route the table can show: both ends known, and few enough jobs for the line buffer.\<close>

definition printable_route :: "Ucs_Rm_Route_t \<Rightarrow> bool" where
  "printable_route r = (wf_route r \<and>
     (\<forall>ep \<in> {source_endpoint_ptr r, sink_endpoint_ptr r}.
        case ep of None \<Rightarrow> True | Some e \<Rightarrow>
          (case jobs_list_ptr e of None \<Rightarrow> True | Some js \<Rightarrow> length js \<le> 5)))"

lemma route_line_okR:
  assumes "printable_route r"
  shows "okR (route_line m r) (\<lambda>_. True)"
proof -
  from assms obtain src snk where e: "source_endpoint_ptr r = Some src" "sink_endpoint_ptr r = Some snk"
    by (auto simp: printable_route_def wf_route_def wf_endpoint_def split: option.splits)
  obtain a where a: "endpoint_node_address (Some src) = Inr a"
    using assms e endpoint_node_address_ok [of "Some src"]
    by (auto simp: printable_route_def wf_route_def okR_ex)
  obtain b where b: "endpoint_node_address (Some snk) = Inr b"
    using assms e endpoint_node_address_ok [of "Some snk"]
    by (auto simp: printable_route_def wf_route_def okR_ex)
  have "okR (ParseResources (jobs_list_ptr src) STR_RES_LEN m) (\<lambda>_. True)"
    "okR (ParseResources (jobs_list_ptr snk) STR_RES_LEN m) (\<lambda>_. True)"
    using assms e by (intro ParseResources_okR; auto simp: printable_route_def split: option.splits)+
  then obtain x y where "ParseResources (jobs_list_ptr src) STR_RES_LEN m = Inr x"
    "ParseResources (jobs_list_ptr snk) STR_RES_LEN m = Inr y" by (auto simp: okR_ex)
  then show ?thesis
    by (simp add: route_line_def e a b Let_def split: option.split prod.split)
qed

lemma route_lines_okR:
  assumes "\<forall>r \<in> set routes. printable_route r" and "i + n \<le> length routes"
  shows "okR (route_lines m routes i n) (\<lambda>ls. length ls = n)"
  using assms(2)
proof (induction n arbitrary: i)
  case 0
  then show ?case by simp
next
  case (Suc n)
  have "okR (route_line m (routes ! i)) (\<lambda>_. True)"
    using assms(1) Suc.prems by (intro route_line_okR) simp
  moreover have "okR (route_lines m routes (Suc i) n) (\<lambda>ls. length ls = n)"
    using Suc.prems by (intro Suc.IH) simp
  ultimately show ?case using Suc.prems by (auto simp: okR_ex)
qed

definition printable :: "LocalVar \<Rightarrow> bool" where
  "printable m \<longleftrightarrow> (case m_pRoutes m of None \<Rightarrow> True | Some routes \<Rightarrow>
       (\<forall>r \<in> set routes. printable_route r) \<and> unat (m_routesSize m) \<le> length routes) \<and>
     length (filter ignored (m_nList m)) \<le> 8"

lemma PrintTable_okR:
  assumes "print_inv m" and "printable m"
  shows "okR (PrintTable m) (\<lambda>cbs. cbs_tagged cbs)"
proof (cases "m_initialized m \<and> m_networkAvailable m")
  case False
  then show ?thesis by (auto simp: PrintTable_def cbs_tagged_def)
next
  case True
  then obtain routes where routes: "m_pRoutes m = Some routes"
    using assms(1) by (auto simp: print_inv_def)
  have l: "okR (route_lines m routes 0 (unat (m_routesSize m))) (\<lambda>ls. length ls = unat (m_routesSize m))"
    using assms(2) routes by (intro route_lines_okR) (auto simp: printable_def)
  have "length (concat (map ignored_text (filter ignored (m_nList m)))) \<le> 7 * length (filter ignored (m_nList m))"
    by (rule length_concat_le) (rule length_ignored_text)
  also have "\<dots> \<le> 7 * 8" using assms(2) by (intro mult_le_mono2) (simp add: printable_def)
  finally have "okR (GetIgnoredNodeString STR_RES_LEN m) (\<lambda>_. True)"
    by (simp add: GetIgnoredNodeString_eq STR_RES_LEN_def Let_def)
  then show ?thesis using l True routes
    by (auto simp: PrintTable_def okR_ex cbs_tagged_def)
qed

section \<open>When the table is printed\<close>

lemma Service_triggered:
  assumes "m_networkAvailable m" "m_triggerService m" "m_timeOut m = 0"
  shows "UCSIPrint_Service t m = Inr (m\<lparr>m_triggerService := False,
     m_nextService := t + SERVICE_TIME, m_timeOut := t + MAX_TIMEOUT\<rparr>, [NeedService (m_tag m)])"
  using assms by (simp add: UCSIPrint_Service_def)

lemma PrintTable_cong:
  "PrintTable (m\<lparr>m_triggerService := a, m_nextService := b, m_timeOut := c,
     m_waitForMprRetries := d\<rparr>) = PrintTable m"
proof -
  let ?m = "m\<lparr>m_triggerService := a, m_nextService := b, m_timeOut := c, m_waitForMprRetries := d\<rparr>"
  have steps: "ParseResources_step l ?m = ParseResources_step l m" for l
    by (simp add: fun_eq_iff ParseResources_step_def)
  have line: "route_line ?m r = route_line m r" for r
    by (simp add: route_line_def GetNodeState_def GetRouteState_def ParseResources_def steps
        cong: option.case_cong)
  have lines: "route_lines ?m rs i n = route_lines m rs i n" for rs i n
    by (induction n arbitrary: i) (simp_all add: line)
  show ?thesis by (simp add: PrintTable_def lines GetIgnoredNodeString_def)
qed

text \<open>The four variables of the timing are irrelevant to the table and to the invariant.\<close>

lemma PrintTable_updates [simp]:
  "PrintTable (m\<lparr>m_triggerService := a\<rparr>) = PrintTable m"
  "PrintTable (m\<lparr>m_nextService := b\<rparr>) = PrintTable m"
  "PrintTable (m\<lparr>m_timeOut := c\<rparr>) = PrintTable m"
  "PrintTable (m\<lparr>m_waitForMprRetries := d\<rparr>) = PrintTable m"
  using PrintTable_cong [of d "m_timeOut m" "m_nextService m" "m_triggerService m" m]
    PrintTable_cong [of "m_waitForMprRetries m" c "m_nextService m" "m_triggerService m" m]
    PrintTable_cong [of "m_waitForMprRetries m" "m_timeOut m" b "m_triggerService m" m]
    PrintTable_cong [of "m_waitForMprRetries m" "m_timeOut m" "m_nextService m" a m]
  by simp_all

lemma print_inv_updates [simp]:
  "print_inv (m\<lparr>m_triggerService := a\<rparr>) = print_inv m"
  "print_inv (m\<lparr>m_nextService := b\<rparr>) = print_inv m"
  "print_inv (m\<lparr>m_timeOut := c\<rparr>) = print_inv m"
  "print_inv (m\<lparr>m_waitForMprRetries := d\<rparr>) = print_inv m"
  by (simp_all add: print_inv_def)

lemma printable_updates [simp]:
  "printable (m\<lparr>m_triggerService := a\<rparr>) = printable m"
  "printable (m\<lparr>m_nextService := b\<rparr>) = printable m"
  "printable (m\<lparr>m_timeOut := c\<rparr>) = printable m"
  "printable (m\<lparr>m_waitForMprRetries := d\<rparr>) = printable m"
  by (simp_all add: printable_def cong: option.case_cong)

lemma Service_okR:
  assumes "print_inv m" and "printable m"
  shows "okR (UCSIPrint_Service t m) (\<lambda>r. print_step_ok r \<and> printable (fst r))"
proof -
  have tag: "m_networkAvailable m \<Longrightarrow> m_tag m \<noteq> None"
    using assms(1) by (auto simp: print_inv_def)
  obtain cbs where "PrintTable m = Inr cbs" "cbs_tagged cbs"
    using PrintTable_okR [OF assms] by (auto simp: okR_ex)
  then show ?thesis
    using assms tag by (auto simp: UCSIPrint_Service_def Let_def print_step_ok_def cbs_tagged_def)
qed

section \<open>What keeps the table printable\<close>

text \<open>
  Node reports come from the positions \<open>P\<close> only, and the configured routes are printable.
  With at most eight positions the table never outgrows its buffers.
\<close>

definition nodes_in :: "u16 set \<Rightarrow> LocalVar \<Rightarrow> bool" where
  "nodes_in P m = (\<forall>n \<in> set (m_nList m). n_isValid n \<longrightarrow> n_pos n \<in> P)"

definition routes_ok :: "Ucs_Rm_Route_t list option \<Rightarrow> u16 \<Rightarrow> bool" where
  "routes_ok routes n = (case routes of None \<Rightarrow> True | Some rs \<Rightarrow>
     (\<forall>r \<in> set rs. printable_route r) \<and> unat n \<le> length rs)"

definition print_safe :: "u16 set \<Rightarrow> LocalVar \<Rightarrow> bool" where
  "print_safe P m = (print_inv m \<and> nodes_in P m \<and> routes_ok (m_pRoutes m) (m_routesSize m))"

lemma ignored_le_card:
  assumes "keys_distinct n_isValid n_pos ns" and "\<forall>n \<in> set ns. n_isValid n \<longrightarrow> n_pos n \<in> P" and "finite P"
  shows "length (filter ignored ns) \<le> card P"
proof -
  let ?I = "{i. i < length ns \<and> ignored (ns ! i)}"
  have inj: "inj_on (\<lambda>i. n_pos (ns ! i)) ?I"
    using assms(1) by (auto simp: inj_on_def keys_distinct_def ignored_def)
  have "(\<lambda>i. n_pos (ns ! i)) ` ?I \<subseteq> P"
    using assms(2) by (auto simp: ignored_def)
  with inj have "card ?I \<le> card P" using assms(3) by (intro card_inj_on_le)
  then show ?thesis by (simp add: length_filter_conv_card)
qed

lemma print_safe_printable:
  assumes "print_safe P m" "finite P" "card P \<le> 8"
  shows "printable m"
  using assms ignored_le_card [of "m_nList m" P]
  by (auto simp: print_safe_def printable_def routes_ok_def nodes_in_def print_inv_def)

lemma nodes_in_zero: "\<forall>n \<in> set nList_zero. n_isValid n \<longrightarrow> n_pos n \<in> P"
  by (simp add: nList_zero_def)

lemma print_safe_Init: "tag \<noteq> None \<Longrightarrow> routes_ok routes n \<Longrightarrow> print_safe P (UCSIPrint_Init routes n tag)"
  using print_inv_Init [of tag routes n] nodes_in_zero [of P]
  by (auto simp: print_safe_def nodes_in_def UCSIPrint_Init_def LocalVar_zero_def routes_ok_def)

text \<open>An operation of the printer keeps this and hands out the instance's tag.\<close>

definition print_keeps :: "u16 set \<Rightarrow> (LocalVar \<Rightarrow> print_result) \<Rightarrow> bool" where
  "print_keeps P f = (\<forall>m. print_safe P m \<longrightarrow> print_safe P (fst (f m)) \<and> cbs_tagged (snd (f m)))"

lemma print_keepsI:
  assumes "\<And>m. print_inv m \<Longrightarrow> print_step_ok (f m)"
    and "\<And>m. m_pRoutes (fst (f m)) = m_pRoutes m \<and> m_routesSize (fst (f m)) = m_routesSize m"
    and "\<And>m. nodes_in P m \<Longrightarrow> nodes_in P (fst (f m))"
  shows "print_keeps P f"
  using assms by (simp add: print_keeps_def print_safe_def print_step_ok_def)

lemma print_keeps_SetNetworkAvailable: "print_keeps P (UCSIPrint_SetNetworkAvailable a p)"
  using nodes_in_zero [of P]
  by (intro print_keepsI print_inv_SetNetworkAvailable)
    (auto simp: UCSIPrint_SetNetworkAvailable_def RequestTrigger_def Let_def nodes_in_def)

lemma print_keeps_SetNodeAvailable:
  assumes "p \<in> P"
  shows "print_keeps P (UCSIPrint_SetNodeAvailable a p st)"
proof (intro print_keepsI print_inv_SetNodeAvailable)
  fix m
  show "m_pRoutes (fst (UCSIPrint_SetNodeAvailable a p st m)) = m_pRoutes m \<and>
      m_routesSize (fst (UCSIPrint_SetNodeAvailable a p st m)) = m_routesSize m"
    by (simp add: UCSIPrint_SetNodeAvailable_def RequestTrigger_def Let_def split: option.split)
  show "nodes_in P (fst (UCSIPrint_SetNodeAvailable a p st m))" if "nodes_in P m"
    using that assms
    by (auto simp: UCSIPrint_SetNodeAvailable_def RequestTrigger_def Let_def nodes_in_def
        split: option.split dest!: set_list_update_mem scan_SomeD)
qed

lemma print_keeps_SetRouteState: "print_keeps P (UCSIPrint_SetRouteState r a l)"
  by (intro print_keepsI print_inv_SetRouteState)
    (auto simp: UCSIPrint_SetRouteState_def RequestTrigger_def nodes_in_def split: option.split)

lemma print_keeps_SetObjectState: "print_keeps P (UCSIPrint_SetObjectState ob st)"
  by (intro print_keepsI print_inv_SetObjectState)
    (auto simp: UCSIPrint_SetObjectState_def RequestTrigger_def nodes_in_def split: option.split)

lemma print_keeps_UnicensActivity: "print_keeps P UCSIPrint_UnicensActivity"
  by (intro print_keepsI print_inv_UnicensActivity)
    (auto simp: UCSIPrint_UnicensActivity_def RequestTrigger_def nodes_in_def)

lemma PrintTable_only_messages:
  "PrintTable m = Inr cbs \<Longrightarrow> c \<in> set cbs \<Longrightarrow> \<exists>t. c = OnUserMessage (m_tag m) t"
  by (auto simp: PrintTable_def bindR_eq_Inr_iff split: if_splits)

lemma Service_keeps:
  assumes "print_safe P m" "finite P" "card P \<le> 8"
  shows "okR (UCSIPrint_Service t m) (\<lambda>(m', cbs). print_safe P m' \<and> cbs_tagged cbs)"
proof -
  have pr: "printable m" and inv: "print_inv m"
    using assms print_safe_printable by (auto simp: print_safe_def)
  obtain m' cbs where r: "UCSIPrint_Service t m = Inr (m', cbs)" "print_step_ok (m', cbs)"
    using Service_okR [OF inv pr, of t] by (auto simp: okR_ex)
  then have "m_pRoutes m' = m_pRoutes m \<and> m_routesSize m' = m_routesSize m \<and> m_nList m' = m_nList m"
    by (auto simp: UCSIPrint_Service_def Let_def bindR_eq_Inr_iff split: if_splits)
  with r assms(1) show ?thesis by (auto simp: print_safe_def nodes_in_def print_step_ok_def)
qed

section \<open>Properties\<close>

text \<open>
  A route report is stored: afterwards the table holds exactly that state for the route
  and the old state for every other route, and the printer is triggered. Only when the route
  is unknown and all slots are taken the report is dropped, with a message to the user.
\<close>

theorem route_report_stored:
  assumes "print_inv m" and "m_initialized m"
  shows "case UCSIPrint_SetRouteState r a l m of (m', cbs) \<Rightarrow>
     print_inv m' \<and> m_triggerService m' \<and> NeedService (m_tag m) \<in> set cbs \<and>
     (if GetRouteState r m = None \<and> (\<forall>c \<in> set (m_cList m). c_isValid c)
      then m_cList m' = m_cList m \<and> (\<exists>t. OnUserMessage (m_tag m) t \<in> set cbs)
      else GetRouteState r m' = Some (a, l) \<and>
        (\<forall>r'. r' \<noteq> r \<longrightarrow> GetRouteState r' m' = GetRouteState r' m))"
proof -
  have inv: "print_inv (fst (UCSIPrint_SetRouteState r a l m))"
    using print_inv_SetRouteState [OF assms(1)] by (simp add: print_step_ok_def)
  show ?thesis
  proof (cases "slot_store c_isValid c_routeId conn_fill conn_change r (a, l) (m_cList m)")
    case None
    with inv show ?thesis
      using conn.store_None_iff [of r "(a, l)" "m_cList m"]
      by (auto simp: SetRouteState_store [OF assms(2)] GetRouteState_find)
  next
    case (Some xs)
    moreover have "\<not> (GetRouteState r m = None \<and> (\<forall>c \<in> set (m_cList m). c_isValid c))"
      using Some conn.store_None_iff [of r "(a, l)" "m_cList m"] by (auto simp: GetRouteState_find)
    moreover have "keys_distinct c_isValid c_routeId (m_cList m)"
      using assms(1) by (simp add: print_inv_def)
    ultimately show ?thesis
      using inv conn.store_Some [of "m_cList m" r "(a, l)" xs]
      by (auto simp: SetRouteState_store [OF assms(2)] GetRouteState_find)
  qed
qed

definition example_route :: Ucs_Rm_Route_t where
  "example_route = \<lparr>route_addr = 1,
     source_endpoint_ptr = Some \<lparr>jobs_list_ptr = None,
       node_obj_ptr = Some \<lparr>signature_ptr = Some (zero_signature\<lparr>node_address := 0x200\<rparr>)\<rparr>\<rparr>,
     sink_endpoint_ptr = Some \<lparr>jobs_list_ptr = None,
       node_obj_ptr = Some \<lparr>signature_ptr = Some (zero_signature\<lparr>node_address := 0x270\<rparr>)\<rparr>\<rparr>,
     active = 1, route_id = 7\<rparr>"

definition example_print :: LocalVar where
  "example_print = (UCSIPrint_Init (Some [example_route]) 1 (Some ()))\<lparr>m_networkAvailable := True,
     m_triggerService := True\<rparr>"

lemma example_print_inv: "print_inv example_print" "m_initialized example_print"
  by (simp_all add: example_print_def UCSIPrint_Init_def print_inv_def LocalVar_zero_def)

theorem route_report_stored_witness:
  "case UCSIPrint_SetRouteState 7 True 0xC example_print of (m', cbs) \<Rightarrow>
     print_inv m' \<and> m_triggerService m' \<and> NeedService (m_tag example_print) \<in> set cbs \<and>
     (if GetRouteState 7 example_print = None \<and> (\<forall>c \<in> set (m_cList example_print). c_isValid c)
      then m_cList m' = m_cList example_print \<and>
        (\<exists>t. OnUserMessage (m_tag example_print) t \<in> set cbs)
      else GetRouteState 7 m' = Some (True, 0xC) \<and>
        (\<forall>r'. r' \<noteq> 7 \<longrightarrow> GetRouteState r' m' = GetRouteState r' example_print))"
  by (rule route_report_stored) (rule example_print_inv)+

text \<open>
  A node report is stored under the node's position: afterwards the table holds exactly
  that address and state for the position and the old entry for every other position. The
  printer is triggered exactly when the report changed something; only when the position is
  unknown and all slots are taken the report is dropped, with a message to the user.
\<close>

theorem node_report_stored:
  assumes "print_inv m" and "m_initialized m"
  shows "case UCSIPrint_SetNodeAvailable a p s m of (m', cbs) \<Rightarrow>
     print_inv m' \<and>
     (if node_find p m = None \<and> (\<forall>n \<in> set (m_nList m). n_isValid n)
      then m' = m \<and> (\<exists>t. cbs = [OnUserMessage (m_tag m) t])
      else node_find p m' = Some (a, s) \<and>
        (\<forall>p'. p' \<noteq> p \<longrightarrow> node_find p' m' = node_find p' m) \<and>
        (if node_find p m = Some (a, s) then m' = m \<and> cbs = []
         else m_triggerService m' \<and> cbs = [NeedService (m_tag m)]))"
proof -
  have inv: "print_inv (fst (UCSIPrint_SetNodeAvailable a p s m))"
    using print_inv_SetNodeAvailable [OF assms(1)] by (simp add: print_step_ok_def)
  have u: "keys_distinct n_isValid n_pos (m_nList m)"
    using assms(1) by (simp add: print_inv_def)
  show ?thesis
  proof (cases "slot_store n_isValid n_pos node_fill node_change p (a, s) (m_nList m)")
    case None
    with inv show ?thesis
      using node.store_None_iff [of p "(a, s)" "m_nList m"]
      by (auto simp: SetNodeAvailable_store [OF assms(2)] node_find_def)
  next
    case (Some xs)
    moreover have "\<not> (node_find p m = None \<and> (\<forall>n \<in> set (m_nList m). n_isValid n))"
      using Some node.store_None_iff [of p "(a, s)" "m_nList m"] by (auto simp: node_find_def)
    ultimately show ?thesis
      using inv node.store_Some [OF u, of p "(a, s)" xs]
      by (auto simp: SetNodeAvailable_store [OF assms(2)] node_find_def)
  qed
qed

theorem node_report_stored_witness:
  "case UCSIPrint_SetNodeAvailable 0x270 0x401 NodeState_Ignored example_print of (m', cbs) \<Rightarrow>
     print_inv m' \<and>
     (if node_find 0x401 example_print = None \<and> (\<forall>n \<in> set (m_nList example_print). n_isValid n)
      then m' = example_print \<and> (\<exists>t. cbs = [OnUserMessage (m_tag example_print) t])
      else node_find 0x401 m' = Some (0x270, NodeState_Ignored) \<and>
        (\<forall>p'. p' \<noteq> 0x401 \<longrightarrow> node_find p' m' = node_find p' example_print) \<and>
        (if node_find 0x401 example_print = Some (0x270, NodeState_Ignored)
         then m' = example_print \<and> cbs = []
         else m_triggerService m' \<and> cbs = [NeedService (m_tag example_print)]))"
  by (rule node_report_stored) (rule example_print_inv)+

text \<open>
  C37: Servicing the printer is memory safe: at any time, in any state that keeps the
  invariant, whose routes have complete endpoints with at most five jobs each, and with at
  most eight ignored nodes, it follows no NULL pointer, reads no route behind the list,
  writes no character behind its text buffers, keeps the invariant, and hands the instance
  (never NULL) to its callbacks.
\<close>

theorem print_service_safe:
  assumes "print_inv m" and "printable m"
  shows "okR (UCSIPrint_Service t m) (\<lambda>(m', cbs). print_inv m' \<and> NeedService None \<notin> set cbs)"
  using Service_okR [OF assms, of t]
  by (rule okR_mono) (auto simp: print_step_ok_def cbs_tagged_def)

lemma example_print_printable: "printable example_print"
  by (simp add: example_print_def UCSIPrint_Init_def LocalVar_zero_def printable_def
      printable_route_def example_route_def wf_route_def wf_endpoint_def ignored_def nList_zero_def)

theorem print_service_safe_witness:
  "okR (UCSIPrint_Service 1000 example_print)
     (\<lambda>(m', cbs). print_inv m' \<and> NeedService None \<notin> set cbs)"
  by (rule print_service_safe) (rule example_print_inv example_print_printable)+

text \<open>
  The limit on ignored nodes is a real one: the list of ignored nodes is collected in a
  buffer of 60 characters without a check, so that with ten or more of the 64 possible node
  entries ignored (addresses from 0x100 on) printing the table writes behind that buffer.
\<close>

theorem ignored_nodes_overflow:
  assumes "m_initialized m" and "m_networkAvailable m"
    and "m_pRoutes m = Some routes" and "unat (m_routesSize m) \<le> length routes"
    and "\<forall>r \<in> set routes. printable_route r"
    and "10 \<le> length (filter ignored (m_nList m))"
    and "\<forall>n \<in> set (m_nList m). ignored n \<longrightarrow> 0x100 \<le> n_node n"
  shows "PrintTable m = Inl OutOfBounds"
proof -
  obtain ls where ls: "route_lines m routes 0 (unat (m_routesSize m)) = Inr ls"
    using route_lines_okR [of routes 0 "unat (m_routesSize m)" m] assms by (auto simp: okR_ex)
  have "6 * length (filter ignored (m_nList m)) \<le> length (concat (map ignored_text (filter ignored (m_nList m))))"
    using assms(7) by (intro length_concat_ge length_ignored_text_ge) simp
  then have "GetIgnoredNodeString STR_RES_LEN m = Inl OutOfBounds"
    using assms(6) by (simp add: GetIgnoredNodeString_eq STR_RES_LEN_def Let_def)
  then show ?thesis using assms ls by (simp add: PrintTable_def)
qed

theorem ignored_nodes_overflow_witness:
  "PrintTable (example_print\<lparr>m_nList := replicate 10 \<lparr>n_isValid = True,
     n_nodeState = NodeState_Ignored, n_node = 0x270, n_pos = 0x401\<rparr>\<rparr>) = Inl OutOfBounds"
  by (rule ignored_nodes_overflow [where routes = "[example_route]"])
    (use example_print_printable in \<open>simp_all add: example_print_def UCSIPrint_Init_def
      LocalVar_zero_def printable_def ignored_def\<close>)



text \<open>
  C35: The deadline does not survive the 16-bit clock. The integration layer passes the
  printer the 16-bit result of \<open>UCSI_CB_OnGetTime\<close>; a trigger that is taken up in the last
  200 ms before that clock wraps around sets both times behind the largest 16-bit value, so
  that at no later time the table is printed: the printer asks for service for ever (until
  another report triggers it).
\<close>

theorem print_16bit_clock_stuck:
  assumes "m_networkAvailable m" "m_triggerService m" "m_timeOut m = 0"
    and "65336 \<le> (t :: u16)"
  shows "okR (UCSIPrint_Service (ucast t) m) (\<lambda>(m', cbs).
     cbs = [NeedService (m_tag m)] \<and>
     (\<forall>now :: u16. UCSIPrint_Service (ucast now) m' = Inr (m', [NeedService (m_tag m)])))"
proof -
  have t: "65336 \<le> unat t" "unat t < 2 ^ 16"
    using assms(4) unsigned_less [of t, where ?'a = nat] by (simp_all add: word_le_nat_alt)
  have u: "unat (ucast t + SERVICE_TIME) = unat t + 200" "unat (ucast t + MAX_TIMEOUT) = unat t + 10000"
    using t(2) by (simp_all add: SERVICE_TIME_def MAX_TIMEOUT_def unat_word_ariths)
  then have nz: "ucast t + SERVICE_TIME \<noteq> 0" "ucast t + MAX_TIMEOUT \<noteq> 0"
    by (metis add_eq_0_iff_both_eq_0 unat_0 zero_neq_numeral)+
  have late: "\<not> unat (ucast t + SERVICE_TIME) \<le> unat now"
    "\<not> unat (ucast t + MAX_TIMEOUT) \<le> unat now" for now :: u16
    unfolding u using t unsigned_less [of now, where ?'a = nat] by simp_all
  show ?thesis
    unfolding Service_triggered [OF assms(1-3)]
    using assms(1) nz
    by (simp add: UCSIPrint_Service_def Let_def word_le_nat_alt late)
qed

theorem print_16bit_clock_stuck_witness:
  "okR (UCSIPrint_Service (ucast (65400 :: u16)) example_print) (\<lambda>(m', cbs).
     cbs = [NeedService (m_tag example_print)] \<and>
     (\<forall>now :: u16. UCSIPrint_Service (ucast now) m' = Inr (m', [NeedService (m_tag example_print)])))"
  by (rule print_16bit_clock_stuck)
    (simp_all add: example_print_def UCSIPrint_Init_def LocalVar_zero_def)

end
