(* ===== verification/Ucsi_Ident.thy ===== *)
theory Ucsi_Ident
  imports Prelude
begin

text \<open>
  The identification string that programming mode writes into a node: \<open>BuildIdentString\<close>,
  \<open>CalcCCITT16\<close> and \<open>CalcCCITT16Step\<close> of libraries/ucsi/ucsi_impl.c. The checksum is
  compared with a bit-serial reference (the reflected CCITT polynomial, least significant
  bit first).
\<close>

section \<open>The checksum\<close>

definition CalcCCITT16Step :: "u16 \<Rightarrow> u8 \<Rightarrow> u16" where
  "CalcCCITT16Step crc v =
     (let crc_hi = MISC_HB crc;
          crc_lo = MISC_LB crc;
          v = (v XOR crc_lo) AND 0xFF;
          v = (v XOR (push_bit 4 v AND 0xF0)) AND 0xFF;
          crc_lo = (crc_hi XOR (push_bit 3 v AND 0xFC) XOR (drop_bit 4 v AND 0xF)) AND 0xFF;
          crc_hi = (v XOR (drop_bit 5 v AND 0x7)) AND 0xFF
      in (push_bit 8 (ucast crc_hi) AND 0xFF00) OR (ucast crc_lo AND 0xFF))"

text \<open>
  The loop of \<open>CalcCCITT16\<close>: the index is a \<open>uint8_t\<close>, the bound a \<open>uint16_t\<close>, so the loop
  does not end when the bound exceeds 255. It reads the elements below the bound (all of
  the first 256 when it does not end).
\<close>

definition CalcCCITT16 :: "u8 list \<Rightarrow> u16 \<Rightarrow> u16 \<Rightarrow> u16 result" where
  "CalcCCITT16 data len start_value =
     (if length data < min (unat len) 256 then Inl OutOfBounds
      else bindR (loopR (\<lambda>(i :: u8, crc). ucast i < len)
                        (\<lambda>(i, crc). (i + 1, CalcCCITT16Step crc (data ! unat i)))
                        (0, start_value))
                 (\<lambda>(i, crc). Inr crc))"

section \<open>The identification string\<close>

record Ucs_IdentString_t =
  is_node_address :: u16
  is_group_address :: u16
  is_mac_15_0 :: u16
  is_mac_31_16 :: u16
  is_mac_47_32 :: u16

definition SONOMA_IS_VERSION :: u8 where
  "SONOMA_IS_VERSION = 0x41"

text \<open>The twelve bytes before the checksum, in the order they are stored.\<close>

definition ident_payload :: "Ucs_IdentString_t \<Rightarrow> u8 list" where
  "ident_payload s =
     [SONOMA_IS_VERSION, 0xFF,
      MISC_HB (is_node_address s), MISC_LB (is_node_address s),
      MISC_HB (is_group_address s) OR 0xFC, MISC_LB (is_group_address s),
      MISC_HB (is_mac_15_0 s), MISC_LB (is_mac_15_0 s),
      MISC_HB (is_mac_31_16 s), MISC_LB (is_mac_31_16 s),
      MISC_HB (is_mac_47_32 s), MISC_LB (is_mac_47_32 s)]"

fun store_bytes :: "nat \<Rightarrow> u8 list \<Rightarrow> u8 list \<Rightarrow> (nat \<times> u8 list) result" where
  "store_bytes i [] data = Inr (i, data)"
| "store_bytes i (b # bs) data =
     (if i < length data then store_bytes (Suc i) bs (data[i := b]) else Inl OutOfBounds)"

text \<open>The returned index, and the array after the fourteen stores.\<close>

definition BuildIdentString :: "Ucs_IdentString_t \<Rightarrow> u8 list \<Rightarrow> (u16 \<times> u8 list) result" where
  "BuildIdentString s data =
     bindR (store_bytes 0 (ident_payload s) data) (\<lambda>(i, data).
     bindR (CalcCCITT16 data 12 0) (\<lambda>crc16.
     bindR (store_bytes i [MISC_LB crc16, MISC_HB crc16] data) (\<lambda>(i, data).
     Inr (of_nat i, data))))"

section \<open>The step function against the bit-serial reference\<close>

definition crc_bit :: "u16 \<Rightarrow> u16" where
  "crc_bit c = (if bit c 0 then drop_bit 1 c XOR 0x8408 else drop_bit 1 c)"

definition crc_byte :: "u16 \<Rightarrow> u8 \<Rightarrow> u16" where
  "crc_byte c b = (crc_bit ^^ 8) (c XOR ucast b)"

lemma bit_crc_bit:
  "bit (crc_bit c) n =
     (n < 16 \<and> (bit c (Suc n) \<noteq> (bit c 0 \<and> (n = 3 \<or> n = 10 \<or> n = 15))))"
  by (cases "n < 16")
    (auto simp: crc_bit_def bit_simps less_Suc_eq numeral_eq_Suc dest: bit_imp_le_length)

text \<open>
  One formula for the sixteen result bits; \<open>x\<close> is the byte combined with the low half of
  the checksum, \<open>v\<close> the value after the nibble fold.
\<close>

definition crc_step_bit :: "u16 \<Rightarrow> u8 \<Rightarrow> nat \<Rightarrow> bool" where
  "crc_step_bit c b n =
     (let x = (\<lambda>k. bit b k \<noteq> bit c k);
          v = (\<lambda>k. if k < 4 then x k else x k \<noteq> x (k - 4))
      in if n < 8 then (bit c (n + 8) \<noteq> (3 \<le> n \<and> v (n - 3))) \<noteq> (n < 4 \<and> v (n + 4))
         else v (n - 8) \<noteq> (n < 11 \<and> v (n - 3)))"

lemma word16_bit_index: "n < LENGTH(16) \<Longrightarrow> n \<in> {0,1,2,3,4,5,6,7,8,9,10,11,12,13,14,15}"
  by simp arith

lemma bit_CalcCCITT16Step:
  assumes "n < LENGTH(16)"
  shows "bit (CalcCCITT16Step c b) n = crc_step_bit c b n"
proof -
  have len: "\<not> bit c k" if "16 \<le> k" for k using that by (auto dest: bit_imp_le_length)
  have len8: "\<not> bit b k" if "8 \<le> k" for k using that by (auto dest: bit_imp_le_length)
  show ?thesis
    using word16_bit_index [OF assms] unfolding CalcCCITT16Step_def crc_step_bit_def Let_def
    by (elim insertE emptyE; simp add: bit_simps len len8; argo)
qed

lemma bit_crc_byte:
  assumes "n < LENGTH(16)"
  shows "bit (crc_byte c b) n = crc_step_bit c b n"
proof -
  have len: "\<not> bit c k" if "16 \<le> k" for k using that by (auto dest: bit_imp_le_length)
  have len8: "\<not> bit b k" if "8 \<le> k" for k using that by (auto dest: bit_imp_le_length)
  show ?thesis
    using word16_bit_index [OF assms] unfolding crc_byte_def crc_step_bit_def Let_def
    by (elim insertE emptyE;
        simp add: bit_crc_bit bit_simps len len8 eval_nat_numeral; argo)
qed

text \<open>
  C40: The table-free checksum step of the code (nibble folding on the two halves of the
  checksum) computes, for every checksum and every byte, what eight rounds of the bit-serial
  CRC with the reflected CCITT polynomial 0x8408 compute.
\<close>

theorem crc_step_equals_bit_serial: "CalcCCITT16Step c b = crc_byte c b"
  by (rule bit_word_eqI) (simp only: bit_CalcCCITT16Step bit_crc_byte)

section \<open>The checksum loop\<close>

lemma crc_loop_take:
  fixes len :: u16
  assumes "unat len \<le> 255" and "unat i \<le> unat len" and "unat len \<le> length data"
  shows "loopR (\<lambda>(i :: u8, crc). ucast i < len)
           (\<lambda>(i, crc). (i + 1, CalcCCITT16Step crc (data ! unat i))) (i, c)
       = Inr (of_nat (unat len), foldl CalcCCITT16Step c (drop (unat i) (take (unat len) data)))"
  using assms
proof (induction "unat len - unat i" arbitrary: i c)
  case 0
  then have eq: "unat i = unat len" by simp
  then have "of_nat (unat len) = i" by (metis of_nat_unat ucast_id)
  moreover have "\<not> (ucast i :: u16) < len"
    using eq by (simp add: word_less_nat_alt)
  ultimately show ?case by (subst loopR_unfold) (use eq in simp)
next
  case (Suc k)
  then have less: "unat i < unat len" by simp
  then have guard: "(ucast i :: u16) < len"
    by (simp add: word_less_nat_alt)
  have inc: "unat (i + 1) = unat i + 1"
    using less Suc.prems(1) by (simp add: unat_word_ariths)
  have "drop (unat i) (take (unat len) data)
      = data ! unat i # drop (unat i + 1) (take (unat len) data)"
    using less Suc.prems(3) by (subst Cons_nth_drop_Suc [symmetric]) simp_all
  moreover have "k = unat len - unat (i + 1)" and "unat (i + 1) \<le> unat len"
    using Suc.hyps(2) less inc by simp_all
  ultimately show ?case
    using Suc.hyps(1) [of "i + 1" "CalcCCITT16Step c (data ! unat i)"] Suc.prems guard inc
    by (subst loopR_unfold) simp
qed

lemma CalcCCITT16_foldl:
  assumes "unat len \<le> 255" and "unat len \<le> length data"
  shows "CalcCCITT16 data len c = Inr (foldl CalcCCITT16Step c (take (unat len) data))"
  using crc_loop_take [OF assms(1) _ assms(2), of 0 c] assms by (simp add: CalcCCITT16_def)

text \<open>Feeding a checksum its own two bytes, low byte first, leaves zero.\<close>

lemma MISC_LB_ucast [simp]: "MISC_LB (ucast (b :: u8)) = b"
  by (rule bit_word_eqI) (simp add: bit_simps)

lemma MISC_HB_ucast [simp]: "MISC_HB (ucast (b :: u8)) = 0"
  by (rule bit_word_eqI) (auto simp: bit_simps dest: bit_imp_le_length)

lemma crc_self_low: "CalcCCITT16Step c (MISC_LB c) = ucast (MISC_HB c)"
  by (simp add: CalcCCITT16Step_def Let_def)

lemma crc_residue: "CalcCCITT16Step (CalcCCITT16Step c (MISC_LB c)) (MISC_HB c) = 0"
  using crc_self_low [of "ucast (MISC_HB c)"] by (simp add: crc_self_low)

section \<open>The identification string\<close>

lemma length_ident_payload [simp]: "length (ident_payload s) = 12"
  by (simp add: ident_payload_def)

lemma store_bytes_prefix:
  assumes "i = length pre" and "i + length bs \<le> length (pre @ data)"
  shows "store_bytes i bs (pre @ data) = Inr (i + length bs, pre @ bs @ drop (length bs) data)"
  using assms
proof (induction bs arbitrary: i pre data)
  case Nil
  then show ?case by simp
next
  case (Cons b bs)
  then obtain d rest where data: "data = d # rest" by (cases data) auto
  have "store_bytes (Suc i) bs ((pre @ [b]) @ rest)
      = Inr (Suc i + length bs, (pre @ [b]) @ bs @ drop (length bs) rest)"
    using Cons.prems data by (intro Cons.IH) simp_all
  then show ?case using Cons.prems(1) data by (simp add: list_update_append)
qed

text \<open>The fourteen bytes written for a node: payload and checksum, low byte first.\<close>

definition ident_bytes :: "Ucs_IdentString_t \<Rightarrow> u8 list" where
  "ident_bytes s =
     (let crc = foldl CalcCCITT16Step 0 (ident_payload s)
      in ident_payload s @ [MISC_LB crc, MISC_HB crc])"

lemma BuildIdentString_eq:
  assumes "14 \<le> length data"
  shows "BuildIdentString s data = Inr (14, ident_bytes s @ drop 14 data)"
proof -
  let ?p = "ident_payload s"
  let ?crc = "foldl CalcCCITT16Step 0 ?p"
  have a: "store_bytes 0 ?p data = Inr (12, ?p @ drop 12 data)"
    using store_bytes_prefix [of 0 "[]" ?p data] assms by simp
  have b: "CalcCCITT16 (?p @ drop 12 data) 12 0 = Inr ?crc"
    using CalcCCITT16_foldl [of 12 "?p @ drop 12 data" 0] by simp
  have c: "store_bytes 12 [MISC_LB ?crc, MISC_HB ?crc] (?p @ drop 12 data)
      = Inr (14, ?p @ [MISC_LB ?crc, MISC_HB ?crc] @ drop 14 data)"
    using store_bytes_prefix [of 12 ?p "[MISC_LB ?crc, MISC_HB ?crc]" "drop 12 data"] assms
    by simp
  show ?thesis
    by (simp only: BuildIdentString_def a b c bindR_Inr prod.case) (simp add: ident_bytes_def Let_def)
qed

text \<open>What a receiver does with the bytes: check version and checksum, take the fields.\<close>

definition join_bytes :: "u8 \<Rightarrow> u8 \<Rightarrow> u16" where
  "join_bytes hb lb = push_bit 8 (ucast hb) OR ucast lb"

definition parse_ident :: "u8 list \<Rightarrow> Ucs_IdentString_t option" where
  "parse_ident d =
     (if length d = 14 \<and> d ! 0 = SONOMA_IS_VERSION \<and> foldl CalcCCITT16Step 0 d = 0
      then Some \<lparr>is_node_address = join_bytes (d ! 2) (d ! 3),
                 is_group_address = join_bytes (d ! 4) (d ! 5),
                 is_mac_15_0 = join_bytes (d ! 6) (d ! 7),
                 is_mac_31_16 = join_bytes (d ! 8) (d ! 9),
                 is_mac_47_32 = join_bytes (d ! 10) (d ! 11)\<rparr>
      else None)"

lemma join_bytes_HB_LB [simp]: "join_bytes (MISC_HB w) (MISC_LB w) = w"
  by (simp add: join_bytes_def MISC_HB_LB_join)

lemma join_bytes_group: "join_bytes (MISC_HB w OR 0xFC) (MISC_LB w) = w OR 0xFC00"
proof (rule bit_word_eqI)
  fix n
  assume "n < LENGTH(16)"
  then show "bit (join_bytes (MISC_HB w OR 0xFC) (MISC_LB w)) n = bit (w OR 0xFC00) n"
    by (drule_tac word16_bit_index) (elim insertE emptyE; simp add: join_bytes_def bit_simps)
qed

lemma ident_okR:
  assumes "14 \<le> length data"
  shows "okR (BuildIdentString s data) (\<lambda>(len, data').
     len = 14 \<and> drop 14 data' = drop 14 data \<and> length data' = length data \<and>
     parse_ident (take 14 data') =
       Some (s\<lparr>is_group_address := is_group_address s OR 0xFC00\<rparr>))"
proof -
  let ?b = "ident_bytes s"
  have len: "length ?b = 14" by (simp add: ident_bytes_def Let_def)
  have crc: "foldl CalcCCITT16Step 0 ?b = 0"
    by (simp add: ident_bytes_def Let_def crc_residue)
  have "parse_ident ?b = Some (s\<lparr>is_group_address := is_group_address s OR 0xFC00\<rparr>)"
    using len crc unfolding parse_ident_def
    by (simp add: ident_bytes_def Let_def ident_payload_def join_bytes_group)
  then show ?thesis
    using assms len by (simp add: BuildIdentString_eq)
qed

text \<open>
  \<open>BuildIdentString\<close> fills the first fourteen bytes of a large enough array, leaves the
  rest alone and returns 14; a receiver that verifies version and checksum of the fourteen
  bytes accepts them and reads back the addresses, with the six upper bits of the group
  address set.
\<close>

theorem ident_string_roundtrip:
  assumes "14 \<le> length data"
  shows "okR (BuildIdentString s data) (\<lambda>(len, data').
     len = 14 \<and> drop 14 data' = drop 14 data \<and> length data' = length data \<and>
     parse_ident (take 14 data') =
       Some (s\<lparr>is_group_address := is_group_address s OR 0xFC00\<rparr>))"
  using assms by (rule ident_okR)

theorem ident_string_roundtrip_witness:
  "okR (BuildIdentString \<lparr>is_node_address = 0x401, is_group_address = 0x3F0, is_mac_15_0 = 1,
          is_mac_31_16 = 0x2233, is_mac_47_32 = 0x4455\<rparr> (replicate 16 7)) (\<lambda>(len, data').
     len = 14 \<and> drop 14 data' = drop 14 (replicate 16 7) \<and>
     length data' = length (replicate 16 (7 :: u8)) \<and>
     parse_ident (take 14 data') =
       Some (\<lparr>is_node_address = 0x401, is_group_address = 0x3F0, is_mac_15_0 = 1,
          is_mac_31_16 = 0x2233, is_mac_47_32 = 0x4455\<rparr>
            \<lparr>is_group_address := is_group_address \<lparr>is_node_address = 0x401,
               is_group_address = 0x3F0, is_mac_15_0 = 1,
               is_mac_31_16 = 0x2233, is_mac_47_32 = 0x4455\<rparr> OR 0xFC00\<rparr>))"
  by (rule ident_string_roundtrip) simp

end
