(* ===== verification/Custom_Programming.thy ===== *)
theory Custom_Programming
  imports Ucsi_Cfg Ucsi_Ident
begin

text \<open>
  The integrator's decision which node to reprogram, src/custom-programming.c. A node is
  given by its index in the array (the code compares pointers into it); the search for a
  free address is the code's loop, so that its termination is a theorem.

  Programming mode calls the decision again after each programmed node; \<open>program_rounds\<close> is
  that iteration over an array whose nodes take the addresses they are given.
\<close>

section \<open>Conflicts\<close>

definition TranslateMacAddressToInt :: "Ucs_Signature_t \<Rightarrow> u64" where
  "TranslateMacAddressToInt signature =
     push_bit 32 (ucast (mac_47_32 signature)) OR push_bit 16 (ucast (mac_31_16 signature))
       OR ucast (mac_15_0 signature)"

text \<open>The loop both checks share: from index \<open>i\<close>, \<open>n\<close> nodes left.\<close>

fun ConflictLoop ::
  "(Ucs_Signature_t \<Rightarrow> bool) \<Rightarrow> nat \<Rightarrow> Ucs_Signature_t list \<Rightarrow> nat \<Rightarrow> nat \<Rightarrow> bool result" where
  "ConflictLoop test checkNode allNodes i 0 = Inr False"
| "ConflictLoop test checkNode allNodes i (Suc n) =
     (if i = checkNode then ConflictLoop test checkNode allNodes (Suc i) n
      else if i < length allNodes
      then (if test (allNodes ! i) then Inr True
            else ConflictLoop test checkNode allNodes (Suc i) n)
      else Inl OutOfBounds)"

definition HasNodeAddressConflict ::
  "u16 \<Rightarrow> nat \<Rightarrow> Ucs_Signature_t list \<Rightarrow> u32 \<Rightarrow> bool result" where
  "HasNodeAddressConflict checkNodeAddress checkNode allNodes nodeArrayLen =
     ConflictLoop (\<lambda>curNode. checkNodeAddress = node_address curNode)
       checkNode allNodes 0 (unat nodeArrayLen)"

definition HasMacAddressConflict ::
  "u64 \<Rightarrow> nat \<Rightarrow> Ucs_Signature_t list \<Rightarrow> u32 \<Rightarrow> bool result" where
  "HasMacAddressConflict checkMacAddress checkNode allNodes nodeArrayLen =
     (if checkMacAddress = 0 then Inr False
      else ConflictLoop (\<lambda>curNode. checkMacAddress = TranslateMacAddressToInt curNode)
             checkNode allNodes 0 (unat nodeArrayLen))"

section \<open>The decision\<close>

text \<open>\<open>while (conflict(x)) x += 1;\<close>, where the test may fault.\<close>

definition next_free :: "('a :: len word \<Rightarrow> bool result) \<Rightarrow> 'a word \<Rightarrow> 'a word result" where
  "next_free conflict x =
     bindR (loopR (\<lambda>x. conflict x = Inr True) (\<lambda>x. x + 1) x) (\<lambda>x.
     bindR (conflict x) (\<lambda>_. Inr x))"

text \<open>The variables of the loop over the nodes.\<close>

record discovery =
  dv_nodeToBeFlashed :: "nat option"
  dv_needToProgram :: bool
  dv_node :: u16
  dv_group :: u16
  dv_mac :: u64

definition discovery_body ::
  "Ucs_Signature_t list \<Rightarrow> u32 \<Rightarrow> nat \<Rightarrow> discovery \<Rightarrow> discovery result" where
  "discovery_body pNodes nodeArrayLen i v =
     (if length pNodes \<le> i then Inl OutOfBounds else
      let cur = pNodes ! i;
          v = v\<lparr>dv_nodeToBeFlashed := Some i, dv_group := group_address cur\<rparr>
      in bindR (HasNodeAddressConflict (node_address cur) i pNodes nodeArrayLen) (\<lambda>conflict.
         bindR (if conflict
                then bindR (next_free (\<lambda>a. HasNodeAddressConflict a i pNodes nodeArrayLen)
                              (if diagnosis_id cur \<noteq> 0 then diagnosis_id cur
                               else node_address cur))
                       (\<lambda>a. Inr (v\<lparr>dv_node := a, dv_needToProgram := True\<rparr>))
                else Inr v) (\<lambda>v.
         let v = v\<lparr>dv_mac := TranslateMacAddressToInt cur\<rparr>
         in bindR (HasMacAddressConflict (dv_mac v) i pNodes nodeArrayLen) (\<lambda>conflict.
            if conflict
            then bindR (next_free (\<lambda>a. HasMacAddressConflict a i pNodes nodeArrayLen)
                          (dv_mac v + 1))
                   (\<lambda>a. Inr (v\<lparr>dv_mac := a, dv_needToProgram := True\<rparr>))
            else Inr v))))"

text \<open>From index \<open>i\<close>, \<open>n\<close> nodes left; stops behind the first node that needs programming.\<close>

fun discovery_loop ::
  "Ucs_Signature_t list \<Rightarrow> u32 \<Rightarrow> nat \<Rightarrow> nat \<Rightarrow> discovery \<Rightarrow> discovery result" where
  "discovery_loop pNodes nodeArrayLen i 0 v = Inr v"
| "discovery_loop pNodes nodeArrayLen i (Suc n) v =
     (if dv_needToProgram v then Inr v
      else bindR (discovery_body pNodes nodeArrayLen i v)
             (discovery_loop pNodes nodeArrayLen (Suc i) n))"

text \<open>The index of the node to be flashed, with its new identification; NULL is \<open>None\<close>.\<close>

definition UCSI_CB_OnProgrammingModeDeviceDiscovery ::
  "Ucs_Signature_t list \<Rightarrow> u32 \<Rightarrow> (nat \<times> Ucs_IdentString_t) option result" where
  "UCSI_CB_OnProgrammingModeDeviceDiscovery pNodes nodeArrayLen =
     (if nodeArrayLen < 2 then Inr None else
      bindR (discovery_loop pNodes nodeArrayLen 0 (unat nodeArrayLen)
        \<lparr>dv_nodeToBeFlashed = None, dv_needToProgram = False, dv_node = 0xCCCC,
         dv_group = 0xCCCC, dv_mac = 0xCCCCCCCCCCCCCCCC\<rparr>) (\<lambda>v.
      if \<not> dv_needToProgram v then Inr None else
      Inr (map_option (\<lambda>i. (i,
        \<lparr>is_node_address = dv_node v, is_group_address = dv_group v,
         is_mac_15_0 = ucast (dv_mac v), is_mac_31_16 = ucast (drop_bit 16 (dv_mac v)),
         is_mac_47_32 = ucast (drop_bit 32 (dv_mac v))\<rparr>)) (dv_nodeToBeFlashed v))))"

section \<open>What the parts compute\<close>

lemma ConflictLoop_eq:
  assumes "i + n \<le> length ns"
  shows "ConflictLoop test c ns i n = Inr (\<exists>j. i \<le> j \<and> j < i + n \<and> j \<noteq> c \<and> test (ns ! j))"
  using assms
proof (induction n arbitrary: i)
  case 0
  then show ?case by simp
next
  case (Suc n)
  have split: "(\<exists>j. i \<le> j \<and> j < i + Suc n \<and> j \<noteq> c \<and> test (ns ! j)) =
      ((i \<noteq> c \<and> test (ns ! i)) \<or> (\<exists>j. Suc i \<le> j \<and> j < Suc i + n \<and> j \<noteq> c \<and> test (ns ! j)))"
    by (metis Suc_leI add_Suc_right add_Suc_shift le_eq_less_or_eq less_add_Suc1 Suc_le_lessD)
  have "ConflictLoop test c ns (Suc i) n
      = Inr (\<exists>j. Suc i \<le> j \<and> j < Suc i + n \<and> j \<noteq> c \<and> test (ns ! j))"
    using Suc.prems by (intro Suc.IH) simp
  then show ?case unfolding split using Suc.prems by auto
qed

text \<open>The nodes' addresses, and who shares one with another node.\<close>

definition node_conflict :: "Ucs_Signature_t list \<Rightarrow> u16 \<Rightarrow> nat \<Rightarrow> bool" where
  "node_conflict ns a i = (\<exists>j < length ns. j \<noteq> i \<and> a = node_address (ns ! j))"

definition mac_conflict :: "Ucs_Signature_t list \<Rightarrow> u64 \<Rightarrow> nat \<Rightarrow> bool" where
  "mac_conflict ns m i =
     (m \<noteq> 0 \<and> (\<exists>j < length ns. j \<noteq> i \<and> m = TranslateMacAddressToInt (ns ! j)))"

lemma HasNodeAddressConflict_eq:
  "unat len = length ns \<Longrightarrow> HasNodeAddressConflict a i ns len = Inr (node_conflict ns a i)"
  by (auto simp: HasNodeAddressConflict_def node_conflict_def ConflictLoop_eq)

lemma HasMacAddressConflict_eq:
  "unat len = length ns \<Longrightarrow> HasMacAddressConflict m i ns len = Inr (mac_conflict ns m i)"
  by (auto simp: HasMacAddressConflict_def mac_conflict_def ConflictLoop_eq)

section \<open>The search for a free address ends\<close>

lemma word_not_all_in:
  fixes x :: "'a :: len word"
  assumes "finite C" and "card C < 2 ^ LENGTH('a)"
  shows "\<exists>k. x + of_nat k \<notin> C"
proof (rule ccontr)
  assume "\<not> ?thesis"
  then have "x + of_nat (unat (y - x)) \<in> C" for y by blast
  then have "UNIV \<subseteq> C" by auto
  then have "card (UNIV :: 'a word set) \<le> card C" using assms(1) by (intro card_mono)
  then show False using assms(2) by (simp add: card_word)
qed

text \<open>The first word from \<open>x\<close> on, counting with wrap-around, that is not taken.\<close>

definition first_free :: "('a :: len word \<Rightarrow> bool) \<Rightarrow> 'a word \<Rightarrow> 'a word \<Rightarrow> bool" where
  "first_free taken x y \<longleftrightarrow>
     \<not> taken y \<and> (\<exists>k. y = x + of_nat k \<and> (\<forall>j<k. taken (x + of_nat j)))"

lemma next_free_okR:
  fixes x :: "'a :: len word"
  assumes "finite {y. taken y}" and "card {y. taken y} < 2 ^ LENGTH('a)"
  shows "okR (next_free (\<lambda>y. Inr (taken y)) x) (first_free taken x)"
proof -
  define dist where "dist y = (LEAST k. \<not> taken (y + of_nat k))" for y :: "'a word"
  have dist: "\<not> taken (y + of_nat (dist y))" for y
    unfolding dist_def by (rule LeastI_ex) (use word_not_all_in [OF assms] in simp)
  have less: "dist (y + 1) < dist y" if y: "taken y" for y
  proof -
    obtain k where k: "dist y = Suc k"
      using dist [of y] y by (cases "dist y") auto
    then have "\<not> taken ((y + 1) + of_nat k)" using dist [of y] by (simp add: add.assoc)
    then have "dist (y + 1) \<le> k" unfolding dist_def by (rule Least_le)
    with k show ?thesis by simp
  qed
  let ?I = "\<lambda>y. \<exists>k. y = x + of_nat k \<and> (\<forall>j<k. taken (x + of_nat j))"
  have "okR (loopR taken (\<lambda>x. x + 1) x) (\<lambda>y. ?I y \<and> \<not> taken y)"
  proof (rule loopR_okR [where m = dist])
    show "?I x" by (intro exI [of _ 0]) simp
  next
    fix y
    assume "?I y" and y: "taken y"
    then obtain k where "y = x + of_nat k" "\<forall>j<k. taken (x + of_nat j)" by blast
    with y have "?I (y + 1)"
      by (intro exI [of _ "Suc k"]) (simp add: less_Suc_eq add.assoc add.commute)
    with less [OF y] show "?I (y + 1) \<and> dist (y + 1) < dist y" by blast
  qed
  then show ?thesis by (simp add: next_free_def first_free_def conj_commute)
qed

lemma card_node_conflict: "card {a. node_conflict ns a i} \<le> length ns"
  "finite {a. node_conflict ns a i}"
proof -
  have "{a. node_conflict ns a i} \<subseteq> node_address ` set ns"
    by (auto simp: node_conflict_def)
  then have "card {a. node_conflict ns a i} \<le> card (node_address ` set ns)"
    by (intro card_mono) simp_all
  also have "\<dots> \<le> length ns" using card_image_le card_length le_trans finite_set by blast
  finally show "card {a. node_conflict ns a i} \<le> length ns" .
qed simp

lemma card_mac_conflict: "card {a. mac_conflict ns a i} \<le> length ns"
  "finite {a. mac_conflict ns a i}"
proof -
  have "{a. mac_conflict ns a i} \<subseteq> TranslateMacAddressToInt ` set ns"
    by (auto simp: mac_conflict_def)
  then have "card {a. mac_conflict ns a i} \<le> card (TranslateMacAddressToInt ` set ns)"
    by (intro card_mono) simp_all
  also have "\<dots> \<le> length ns" using card_image_le card_length le_trans finite_set by blast
  finally show "card {a. mac_conflict ns a i} \<le> length ns" .
qed simp

section \<open>The decision as a whole\<close>

text \<open>Node \<open>i\<close> shares its node address, its MAC address, or one of them.\<close>

definition node_bad :: "Ucs_Signature_t list \<Rightarrow> nat \<Rightarrow> bool" where
  "node_bad ns i = node_conflict ns (node_address (ns ! i)) i"

definition mac_bad :: "Ucs_Signature_t list \<Rightarrow> nat \<Rightarrow> bool" where
  "mac_bad ns i = mac_conflict ns (TranslateMacAddressToInt (ns ! i)) i"

text \<open>Where the search for a new node address starts.\<close>

definition wish :: "Ucs_Signature_t \<Rightarrow> u16" where
  "wish s = (if diagnosis_id s \<noteq> 0 then diagnosis_id s else node_address s)"

text \<open>What is known of the variables when the node \<open>i\<close> is the one to be programmed.\<close>

definition chosen :: "Ucs_Signature_t list \<Rightarrow> nat \<Rightarrow> discovery \<Rightarrow> bool" where
  "chosen ns i v \<longleftrightarrow>
     i < length ns \<and> dv_nodeToBeFlashed v = Some i \<and> (node_bad ns i \<or> mac_bad ns i) \<and>
     dv_group v = group_address (ns ! i) \<and>
     (if node_bad ns i then first_free (\<lambda>a. node_conflict ns a i) (wish (ns ! i)) (dv_node v)
      else dv_node v = 0xCCCC) \<and>
     (if mac_bad ns i then first_free (\<lambda>m. mac_conflict ns m i)
        (TranslateMacAddressToInt (ns ! i) + 1) (dv_mac v)
      else dv_mac v = TranslateMacAddressToInt (ns ! i))"

lemma discovery_body_okR:
  assumes len: "unat len = length ns" "length ns < 2 ^ 16" and i: "i < length ns"
    and v: "\<not> dv_needToProgram v" "dv_node v = 0xCCCC"
  shows "okR (discovery_body ns len i v) (\<lambda>v'.
     if dv_needToProgram v' then chosen ns i v'
     else \<not> node_bad ns i \<and> \<not> mac_bad ns i \<and> dv_node v' = 0xCCCC)"
proof -
  let ?cur = "ns ! i" and ?nc = "\<lambda>a. node_conflict ns a i" and ?mc = "\<lambda>a. mac_conflict ns a i"
  have N: "okR (next_free (\<lambda>a. Inr (?nc a)) (wish ?cur)) (first_free ?nc (wish ?cur))"
    by (rule next_free_okR) (use card_node_conflict [of ns i] len in auto)
  have M: "okR (next_free (\<lambda>a. Inr (?mc a)) (TranslateMacAddressToInt ?cur + 1))
      (first_free ?mc (TranslateMacAddressToInt ?cur + 1))"
    by (rule next_free_okR) (use card_mac_conflict [of ns i] len in auto)
  from N obtain a where a: "next_free (\<lambda>a. Inr (?nc a)) (wish ?cur) = Inr a"
    "first_free ?nc (wish ?cur) a" by (auto simp: okR_ex)
  from M obtain m where m: "next_free (\<lambda>a. Inr (?mc a)) (TranslateMacAddressToInt ?cur + 1) = Inr m"
    "first_free ?mc (TranslateMacAddressToInt ?cur + 1) m"
    by (auto simp: okR_ex)
  show ?thesis
    using i v a m
    by (simp add: discovery_body_def Let_def HasNodeAddressConflict_eq [OF len(1)]
        HasMacAddressConflict_eq [OF len(1)] chosen_def node_bad_def mac_bad_def
        wish_def [symmetric])
qed

lemma discovery_loop_okR:
  assumes "unat len = length ns" "length ns < 2 ^ 16" "i + n = length ns"
    and "\<not> dv_needToProgram v" "dv_node v = 0xCCCC"
    and "\<forall>j<i. \<not> node_bad ns j \<and> \<not> mac_bad ns j"
  shows "okR (discovery_loop ns len i n v) (\<lambda>v'.
     if dv_needToProgram v'
     then \<exists>k. chosen ns k v' \<and> (\<forall>j<k. \<not> node_bad ns j \<and> \<not> mac_bad ns j)
     else \<forall>j<length ns. \<not> node_bad ns j \<and> \<not> mac_bad ns j)"
  using assms(3-)
proof (induction n arbitrary: i v)
  case 0
  then show ?case by simp
next
  case (Suc n)
  then have i: "i < length ns" by simp
  obtain v' where v': "discovery_body ns len i v = Inr v'"
    "if dv_needToProgram v' then chosen ns i v'
     else \<not> node_bad ns i \<and> \<not> mac_bad ns i \<and> dv_node v' = 0xCCCC"
    using discovery_body_okR [OF assms(1,2) i Suc.prems(2,3)] by (auto simp: okR_ex)
  show ?case
  proof (cases "dv_needToProgram v'")
    case True
    have "discovery_loop ns len (Suc i) n v' = Inr v'" using True by (cases n) simp_all
    with True v' Suc.prems show ?thesis by auto
  next
    case False
    have "okR (discovery_loop ns len (Suc i) n v') (\<lambda>v'.
     if dv_needToProgram v'
     then \<exists>k. chosen ns k v' \<and> (\<forall>j<k. \<not> node_bad ns j \<and> \<not> mac_bad ns j)
     else \<forall>j<length ns. \<not> node_bad ns j \<and> \<not> mac_bad ns j)"
      using False v' Suc.prems by (intro Suc.IH) (auto simp: less_Suc_eq)
    then show ?thesis using Suc.prems(2) v'(1) by simp
  qed
qed

section \<open>Its properties\<close>

text \<open>The address a node has after it was programmed with an identification string.\<close>

definition programmed :: "Ucs_Signature_t list \<Rightarrow> nat \<times> Ucs_IdentString_t \<Rightarrow> Ucs_Signature_t list" where
  "programmed ns p = (case p of (i, s) \<Rightarrow>
     ns[i := (ns ! i)\<lparr>node_address := is_node_address s, group_address := is_group_address s,
        mac_15_0 := is_mac_15_0 s, mac_31_16 := is_mac_31_16 s, mac_47_32 := is_mac_47_32 s\<rparr>])"

text \<open>The MAC address that twelve hexadecimal digits can hold: the code cuts to 48 bits.\<close>

definition mac48 :: "u64 \<Rightarrow> u64" where
  "mac48 m = take_bit 48 m"

lemma mac_parts:
  "TranslateMacAddressToInt (sig\<lparr>node_address := a, group_address := g, mac_15_0 := ucast m,
     mac_31_16 := ucast (drop_bit 16 m), mac_47_32 := ucast (drop_bit 32 m)\<rparr>) = mac48 m"
proof (rule bit_word_eqI)
  fix n
  assume "n < LENGTH(64)"
  then show "bit (TranslateMacAddressToInt (sig\<lparr>node_address := a, group_address := g,
      mac_15_0 := ucast m, mac_31_16 := ucast (drop_bit 16 m),
      mac_47_32 := ucast (drop_bit 32 m)\<rparr>)) n = bit (mac48 m) n"
    by (cases "n < 16"; cases "n < 32"; cases "n < 48")
      (auto simp: TranslateMacAddressToInt_def mac48_def bit_simps dest: bit_imp_le_length)
qed

lemma mac_parts_same_group:
  "TranslateMacAddressToInt (sig\<lparr>node_address := a, mac_15_0 := ucast m,
     mac_31_16 := ucast (drop_bit 16 m), mac_47_32 := ucast (drop_bit 32 m)\<rparr>) = mac48 m"
  using mac_parts [where sig = sig and g = "group_address sig"] by simp

lemma mac48_Translate: "mac48 (TranslateMacAddressToInt x) = TranslateMacAddressToInt x"
proof (rule bit_word_eqI)
  fix n
  show "bit (mac48 (TranslateMacAddressToInt x)) n = bit (TranslateMacAddressToInt x) n"
    by (auto simp: TranslateMacAddressToInt_def mac48_def bit_simps dest: bit_imp_le_length)
qed

text \<open>The decision, as a relation between the array and the answer.\<close>

definition discovery_spec ::
  "Ucs_Signature_t list \<Rightarrow> (nat \<times> Ucs_IdentString_t) option \<Rightarrow> bool" where
  "discovery_spec ns answer \<longleftrightarrow> (case answer of
     None \<Rightarrow> \<forall>j < length ns. \<not> node_bad ns j \<and> \<not> mac_bad ns j
   | Some (i, s) \<Rightarrow>
       i < length ns \<and> (node_bad ns i \<or> mac_bad ns i) \<and>
       (\<forall>j < i. \<not> node_bad ns j \<and> \<not> mac_bad ns j) \<and>
       is_group_address s = group_address (ns ! i) \<and>
       (if node_bad ns i
        then first_free (\<lambda>a. node_conflict ns a i) (wish (ns ! i)) (is_node_address s)
        else is_node_address s = 0xCCCC) \<and>
       (\<exists>m. TranslateMacAddressToInt (programmed ns (i, s) ! i) = mac48 m \<and>
         (if mac_bad ns i
          then first_free (\<lambda>m. mac_conflict ns m i) (TranslateMacAddressToInt (ns ! i) + 1) m
          else m = TranslateMacAddressToInt (ns ! i))))"

lemma discovery_okR:
  assumes "unat len = length ns" and "2 \<le> length ns" and "length ns < 2 ^ 16"
  shows "okR (UCSI_CB_OnProgrammingModeDeviceDiscovery ns len) (discovery_spec ns)"
proof -
  let ?v = "\<lparr>dv_nodeToBeFlashed = None, dv_needToProgram = False, dv_node = 0xCCCC,
         dv_group = 0xCCCC, dv_mac = 0xCCCCCCCCCCCCCCCC\<rparr>"
  have n: "\<not> len < 2" using assms by (simp add: word_less_nat_alt)
  obtain v where v: "discovery_loop ns len 0 (length ns) ?v = Inr v"
    "if dv_needToProgram v
     then \<exists>k. chosen ns k v \<and> (\<forall>j<k. \<not> node_bad ns j \<and> \<not> mac_bad ns j)
     else \<forall>j<length ns. \<not> node_bad ns j \<and> \<not> mac_bad ns j"
    using discovery_loop_okR [OF assms(1,3), of 0 "length ns" ?v] by (auto simp: okR_ex)
  show ?thesis
  proof (cases "dv_needToProgram v")
    case False
    then show ?thesis using v n assms(1)
      by (simp add: UCSI_CB_OnProgrammingModeDeviceDiscovery_def discovery_spec_def)
  next
    case True
    then obtain k where k: "chosen ns k v" "\<forall>j<k. \<not> node_bad ns j \<and> \<not> mac_bad ns j"
      using v(2) by auto
    then show ?thesis using True v(1) n assms(1)
      by (auto simp: UCSI_CB_OnProgrammingModeDeviceDiscovery_def discovery_spec_def chosen_def
          programmed_def mac_parts_same_group intro!: exI [of _ "dv_mac v"])
  qed
qed

definition example_nodes :: "Ucs_Signature_t list" where
  "example_nodes =
     [zero_signature\<lparr>node_address := 0x510, node_pos_addr := 0x401, group_address := 0x3F0, mac_15_0 := 1\<rparr>,
      zero_signature\<lparr>node_address := 0x511, node_pos_addr := 0x402, group_address := 0x3F0, mac_15_0 := 2\<rparr>,
      zero_signature\<lparr>node_address := 0x510, node_pos_addr := 0x403, group_address := 0x3F0, mac_15_0 := 2\<rparr>]"



section \<open>Programming comes to an end\<close>

text \<open>Ask, program the chosen node, ask again; at most \<open>k\<close> times.\<close>

fun program_rounds :: "nat \<Rightarrow> Ucs_Signature_t list \<Rightarrow> Ucs_Signature_t list result" where
  "program_rounds 0 ns = Inr ns"
| "program_rounds (Suc k) ns =
     bindR (UCSI_CB_OnProgrammingModeDeviceDiscovery ns (of_nat (length ns))) (\<lambda>answer.
     case answer of None \<Rightarrow> Inr ns | Some p \<Rightarrow> program_rounds k (programmed ns p))"

definition conflict_count :: "(nat \<Rightarrow> bool) \<Rightarrow> Ucs_Signature_t list \<Rightarrow> nat" where
  "conflict_count bad ns = card {i. i < length ns \<and> bad i}"

lemma conflict_count_le: "conflict_count bad ns \<le> length ns"
proof -
  have "card {i. i < length ns \<and> bad i} \<le> card {..<length ns}" by (intro card_mono) auto
  then show ?thesis by (simp add: conflict_count_def)
qed

lemma conflict_count_less:
  assumes "i < length ns" "bad i" "\<not> bad' i" and "\<And>j. j < length ns \<Longrightarrow> bad' j \<Longrightarrow> bad j"
    and "length ns' = length ns"
  shows "conflict_count bad' ns' < conflict_count bad ns"
  unfolding conflict_count_def using assms by (intro psubset_card_mono) auto

lemma conflict_count_mono:
  assumes "\<And>j. j < length ns \<Longrightarrow> bad' j \<Longrightarrow> bad j" and "length ns' = length ns"
  shows "conflict_count bad' ns' \<le> conflict_count bad ns"
  unfolding conflict_count_def using assms by (intro card_mono) auto

text \<open>
  Giving one node an address that is free (or keeping the one it has) puts no other node in
  conflict.
\<close>

lemma node_bad_update:
  assumes "\<not> node_conflict ns (node_address x) i" and "i < length ns"
  shows "\<not> node_bad (ns[i := x]) i" and "j < length ns \<Longrightarrow> node_bad (ns[i := x]) j \<Longrightarrow> node_bad ns j"
  using assms by (auto simp: node_bad_def node_conflict_def nth_list_update split: if_splits)

lemma mac_bad_update:
  assumes "\<not> mac_conflict ns (TranslateMacAddressToInt x) i" and "i < length ns"
  shows "\<not> mac_bad (ns[i := x]) i" and "j < length ns \<Longrightarrow> mac_bad (ns[i := x]) j \<Longrightarrow> mac_bad ns j"
  using assms by (auto simp: mac_bad_def mac_conflict_def nth_list_update split: if_splits)

lemma mac_bad_keep:
  assumes "TranslateMacAddressToInt x = TranslateMacAddressToInt (ns ! i)" and "i < length ns"
    and "j < length ns" and "mac_bad (ns[i := x]) j"
  shows "mac_bad ns j"
  using assms by (auto simp: mac_bad_def mac_conflict_def nth_list_update split: if_splits)

text \<open>Cutting the new MAC address to 48 bits brings no conflict back.\<close>

lemma mac48_Suc: "mac48 (TranslateMacAddressToInt y + 1) \<in> {0, TranslateMacAddressToInt y + 1}"
proof -
  let ?t = "TranslateMacAddressToInt y"
  have u: "unat (mac48 w) = unat w mod 2 ^ 48" for w
    unfolding mac48_def unsigned_take_bit_eq by (rule take_bit_eq_mod)
  have t: "unat ?t < 2 ^ 48" using u [of ?t] by (simp add: mac48_Translate)
  then have s: "unat (?t + 1) = unat ?t + 1" by (simp add: unat_word_ariths)
  have "unat (mac48 (?t + 1)) = 0 \<or> unat (mac48 (?t + 1)) = unat (?t + 1)"
    unfolding u s using t by (cases "unat ?t + 1 = 2 ^ 48") auto
  then show ?thesis by (auto simp: word_unat_eq_iff)
qed

lemma mac_first_free48:
  assumes "first_free (\<lambda>m. mac_conflict ns m i) (TranslateMacAddressToInt x + 1) m"
  shows "\<not> mac_conflict ns (mac48 m) i"
proof -
  from assms obtain k where k: "m = TranslateMacAddressToInt x + 1 + of_nat k"
    "\<forall>j<k. mac_conflict ns (TranslateMacAddressToInt x + 1 + of_nat j) i"
    and free: "\<not> mac_conflict ns m i" by (auto simp: first_free_def)
  have "\<exists>y. m = TranslateMacAddressToInt y + 1"
  proof (cases k)
    case 0
    with k show ?thesis by auto
  next
    case (Suc l)
    with k obtain y where "TranslateMacAddressToInt x + 1 + of_nat l = TranslateMacAddressToInt y"
      by (auto simp: mac_conflict_def)
    moreover have "m = (TranslateMacAddressToInt x + 1 + of_nat l) + 1"
      using k(1) Suc by simp
    ultimately show ?thesis by auto
  qed
  then have "mac48 m = 0 \<or> mac48 m = m" using mac48_Suc by auto
  with free show ?thesis by (auto simp: mac_conflict_def)
qed

text \<open>One round: the conflicts go down, those of MAC addresses first.\<close>

lemma discovery_progress:
  assumes "discovery_spec ns (Some p)"
  defines "ns' \<equiv> programmed ns p"
  shows "length ns' = length ns"
    and "conflict_count (mac_bad ns') ns' < conflict_count (mac_bad ns) ns \<or>
      conflict_count (mac_bad ns') ns' \<le> conflict_count (mac_bad ns) ns \<and>
      conflict_count (node_bad ns') ns' < conflict_count (node_bad ns) ns"
proof -
  obtain i s where p: "p = (i, s)" by (cases p)
  define x where "x = programmed ns (i, s) ! i"
  from assms(1) p obtain m where i: "i < length ns" and bad: "node_bad ns i \<or> mac_bad ns i"
    and node: "node_bad ns i \<Longrightarrow> \<not> node_conflict ns (is_node_address s) i"
    and mac: "TranslateMacAddressToInt x = mac48 m"
      "mac_bad ns i \<Longrightarrow> first_free (\<lambda>m. mac_conflict ns m i) (TranslateMacAddressToInt (ns ! i) + 1) m"
      "\<not> mac_bad ns i \<Longrightarrow> m = TranslateMacAddressToInt (ns ! i)"
    by (auto simp: discovery_spec_def x_def first_free_def split: if_splits)
  have ns': "ns' = ns[i := x]" and xa: "node_address x = is_node_address s"
    using i by (simp_all add: ns'_def p x_def programmed_def)
  show len: "length ns' = length ns" by (simp add: ns')
  show "conflict_count (mac_bad ns') ns' < conflict_count (mac_bad ns) ns \<or>
      conflict_count (mac_bad ns') ns' \<le> conflict_count (mac_bad ns) ns \<and>
      conflict_count (node_bad ns') ns' < conflict_count (node_bad ns) ns"
  proof (cases "mac_bad ns i")
    case True
    with mac have "\<not> mac_conflict ns (TranslateMacAddressToInt x) i"
      by (simp add: mac_first_free48)
    then have "conflict_count (mac_bad ns') ns' < conflict_count (mac_bad ns) ns"
      unfolding ns' using i True by (intro conflict_count_less) (auto dest: mac_bad_update)
    then show ?thesis ..
  next
    case False
    with mac have "TranslateMacAddressToInt x = TranslateMacAddressToInt (ns ! i)"
      by (simp add: mac48_Translate)
    then have "conflict_count (mac_bad ns') ns' \<le> conflict_count (mac_bad ns) ns"
      unfolding ns' using i by (intro conflict_count_mono) (auto dest: mac_bad_keep)
    moreover have "conflict_count (node_bad ns') ns' < conflict_count (node_bad ns) ns"
      unfolding ns' using i False bad node xa
      by (intro conflict_count_less) (use node_bad_update [of ns x i] in auto)
    ultimately show ?thesis by blast
  qed
qed

definition conflict_measure :: "Ucs_Signature_t list \<Rightarrow> nat" where
  "conflict_measure ns =
     conflict_count (mac_bad ns) ns * Suc (length ns) + conflict_count (node_bad ns) ns"

lemma conflict_measure_less:
  assumes "discovery_spec ns (Some p)"
  shows "conflict_measure (programmed ns p) < conflict_measure ns"
proof -
  let ?n = "length ns" and ?m' = "conflict_count (mac_bad (programmed ns p)) (programmed ns p)"
  let ?m = "conflict_count (mac_bad ns) ns"
  have len: "length (programmed ns p) = ?n" using discovery_progress(1) [OF assms] .
  have le: "conflict_count (node_bad (programmed ns p)) (programmed ns p) \<le> ?n"
    using conflict_count_le [of "node_bad (programmed ns p)" "programmed ns p"] len by simp
  from discovery_progress(2) [OF assms] show ?thesis
  proof
    assume "?m' < ?m"
    then have "Suc ?m' * Suc ?n \<le> ?m * Suc ?n" by (intro mult_le_mono1) simp
    then show ?thesis using le unfolding conflict_measure_def len by simp
  next
    assume a: "?m' \<le> ?m \<and> conflict_count (node_bad (programmed ns p)) (programmed ns p)
      < conflict_count (node_bad ns) ns"
    then have "?m' * Suc ?n \<le> ?m * Suc ?n" by (intro mult_le_mono1) simp
    then show ?thesis using a unfolding conflict_measure_def len by linarith
  qed
qed

text \<open>
  C22: Programming mode converges: for a network of 2 to 65535 discovered nodes, whatever
  addresses they have, asking and programming in turn reaches after fewer than (n + 1) * (n + 1)
  rounds an array of the same length in which no two nodes share a node address or a non-zero
  MAC address, and for which the decision asks for no further programming.
\<close>

theorem programming_converges:
  assumes "2 \<le> length ns" and "length ns < 2 ^ 16"
  shows "okR (program_rounds (Suc (length ns) * Suc (length ns)) ns) (\<lambda>ns'.
     length ns' = length ns \<and> (\<forall>j < length ns'. \<not> node_bad ns' j \<and> \<not> mac_bad ns' j) \<and>
     UCSI_CB_OnProgrammingModeDeviceDiscovery ns' (of_nat (length ns')) = Inr None)"
proof -
  let ?done = "\<lambda>n ns'. length ns' = n \<and> (\<forall>j < length ns'. \<not> node_bad ns' j \<and> \<not> mac_bad ns' j) \<and>
     UCSI_CB_OnProgrammingModeDeviceDiscovery ns' (of_nat (length ns')) = Inr None"
  have main: "okR (program_rounds k xs) (?done (length xs))"
    if "conflict_measure xs < k" "2 \<le> length xs" "length xs < 2 ^ 16" for k xs
    using that
  proof (induction k arbitrary: xs)
    case 0
    then show ?case by simp
  next
    case (Suc k)
    have u: "unat (of_nat (length xs) :: u32) = length xs"
      using Suc.prems(3) by (simp add: unat_of_nat take_bit_eq_mod)
    obtain answer where a: "UCSI_CB_OnProgrammingModeDeviceDiscovery xs (of_nat (length xs)) = Inr answer"
      "discovery_spec xs answer"
      using discovery_okR [OF u Suc.prems(2,3)] by (auto simp: okR_ex)
    show ?case
    proof (cases answer)
      case None
      with a show ?thesis by (simp add: discovery_spec_def)
    next
      case (Some p)
      have "length (programmed xs p) = length xs" using discovery_progress(1) a Some by blast
      moreover have "conflict_measure (programmed xs p) < k"
        using conflict_measure_less [of xs p] a Some Suc.prems(1) by simp
      ultimately show ?thesis using Suc.IH [of "programmed xs p"] Suc.prems a Some by simp
    qed
  qed
  have "conflict_measure ns \<le> length ns * Suc (length ns) + length ns"
    unfolding conflict_measure_def by (intro add_mono mult_le_mono1 conflict_count_le)
  then have "conflict_measure ns < Suc (length ns) * Suc (length ns)" by simp
  then show ?thesis using main assms by blast
qed

theorem programming_converges_witness:
  "okR (program_rounds (Suc (length example_nodes) * Suc (length example_nodes)) example_nodes) (\<lambda>ns'.
     length ns' = length example_nodes \<and>
     (\<forall>j < length ns'. \<not> node_bad ns' j \<and> \<not> mac_bad ns' j) \<and>
     UCSI_CB_OnProgrammingModeDeviceDiscovery ns' (of_nat (length ns')) = Inr None)"
  by (rule programming_converges) (simp_all add: example_nodes_def)

section \<open>Only the given number of nodes matters\<close>

lemma ConflictLoop_take:
  "i + n \<le> k \<Longrightarrow> k \<le> length ns \<Longrightarrow> ConflictLoop t c (take k ns) i n = ConflictLoop t c ns i n"
  by (induction n arbitrary: i) auto

lemma conflicts_take:
  assumes "unat len = k" "k \<le> length ns"
  shows "HasNodeAddressConflict a i (take k ns) len = HasNodeAddressConflict a i ns len"
    and "HasMacAddressConflict m i (take k ns) len = HasMacAddressConflict m i ns len"
  using assms by (simp_all add: HasNodeAddressConflict_def HasMacAddressConflict_def ConflictLoop_take)

lemma discovery_loop_take:
  assumes "unat len = k" "k \<le> length ns"
  shows "i + n \<le> k \<Longrightarrow> discovery_loop (take k ns) len i n v = discovery_loop ns len i n v"
proof (induction n arbitrary: i v)
  case 0
  then show ?case by simp
next
  case (Suc n)
  have "discovery_body (take k ns) len i v = discovery_body ns len i v"
    using Suc.prems assms unfolding discovery_body_def conflicts_take [OF assms] by simp
  moreover have "discovery_loop (take k ns) len (Suc i) n w = discovery_loop ns len (Suc i) n w" for w
    using Suc.prems by (intro Suc.IH) simp
  ultimately show ?case by (simp cong: bindR_cong)
qed

lemma discovery_prefix:
  assumes "2 \<le> unat len" "unat len \<le> length ns" "unat len < 2 ^ 16"
  shows "okR (UCSI_CB_OnProgrammingModeDeviceDiscovery ns len) (discovery_spec (take (unat len) ns))"
proof -
  have "UCSI_CB_OnProgrammingModeDeviceDiscovery (take (unat len) ns) len
      = UCSI_CB_OnProgrammingModeDeviceDiscovery ns len"
    using assms by (simp add: UCSI_CB_OnProgrammingModeDeviceDiscovery_def discovery_loop_take)
  then show ?thesis
    using discovery_okR [of len "take (unat len) ns"] assms by simp
qed

end
