(* ===== verification/Ucsi.thy ===== *)
theory Ucsi
  imports Ucsi_Print Custom_Programming
begin

text \<open>
  The integration layer, libraries/ucsi/ucsi_impl.c: the public operations, the service
  function that executes the queued commands, and the callbacks of the UNICENS library.

  The state is the instance data \<open>my\<close>, the static data of the printer, and the trace of all
  calls that leave the layer, in order: calls of the library and callbacks of the
  integrator. The library is the parameter \<open>ucs_lib\<close>: functions from the trace so far to the
  outcome of a call and to the callbacks it makes before it returns; the callbacks run
  through the layer's own handlers. The clock is \<open>UCSI_CB_OnGetTime\<close>, 16 bits wide.
\<close>

section \<open>What crosses the boundary\<close>

text \<open>
  Arguments of a message; an enumerator of the library stays symbolic, and a text that a format and
  its arguments make (cut to the size of a buffer) is kept as those.
\<close>

datatype msg_arg =
    MInt int | MStr string | MResType Ucs_Xrm_ResourceType_t | MText nat string "msg_arg list"

datatype UCSI_UserMessageUrgency_t = UCSI_MsgDebug | UCSI_MsgError | UCSI_MsgUrgent

text \<open>A \<open>bool\<close> passed as an urgency.\<close>

definition urgency_of :: "bool \<Rightarrow> UCSI_UserMessageUrgency_t" where
  "urgency_of b = (if b then UCSI_MsgError else UCSI_MsgDebug)"

datatype Ucs_Rm_RouteInfos_t =
    UCS_RM_ROUTE_INFOS_BUILT | UCS_RM_ROUTE_INFOS_DESTROYED | UCS_RM_ROUTE_INFOS_ATD_UPDATE
  | UCS_RM_ROUTE_INFOS_ATD_ERROR | UCS_RM_ROUTE_INFOS_OTHER int

datatype Ucs_Xrm_ResourceInfos_t =
    UCS_XRM_INFOS_BUILT | UCS_XRM_INFOS_DESTROYED | UCS_XRM_INFOS_ERR_BUILT
  | UCS_XRM_INFOS_ERR_DESTROYED | UCS_XRM_INFOS_OTHER int

datatype Ucs_Supv_Report_t =
    UCS_SUPV_REP_IGNORED_UNKNOWN | UCS_SUPV_REP_IGNORED_DUPLICATE | UCS_SUPV_REP_NOT_AVAILABLE
  | UCS_SUPV_REP_WELCOMED | UCS_SUPV_REP_SCRIPT_FAILURE | UCS_SUPV_REP_IRRECOVERABLE
  | UCS_SUPV_REP_SCRIPT_SUCCESS | UCS_SUPV_REP_AVAILABLE | UCS_SUPV_REP_OTHER int

datatype Ucs_Supv_State_t = UCS_SUPV_STATE_BUSY | UCS_SUPV_STATE_READY | UCS_SUPV_STATE_OTHER int

datatype Ucs_Hdx_Result_t =
    UCS_HDX_RES_SUCCESS | UCS_HDX_RES_SLAVE_WRONG_POS | UCS_HDX_RES_RING_BREAK
  | UCS_HDX_RES_NO_RING_BREAK | UCS_HDX_RES_NO_RESULT | UCS_HDX_RES_TIMEOUT
  | UCS_HDX_RES_ERROR | UCS_HDX_RES_END | UCS_HDX_RES_OTHER int

datatype Ucs_Supv_ProgramEvent_t =
    UCS_SUPV_PROG_INFO_EXIT | UCS_SUPV_PROG_INFO_SCAN_NEW | UCS_SUPV_PROG_ERROR_INIT_NWS
  | UCS_SUPV_PROG_ERROR_LOCAL_CFG | UCS_SUPV_PROG_ERROR_STARTUP
  | UCS_SUPV_PROG_ERROR_STARTUP_TO | UCS_SUPV_PROG_ERROR_UNSTABLE
  | UCS_SUPV_PROG_ERROR_PROGRAM | UCS_SUPV_PROG_OTHER int

record Ucs_Hdx_Report_t =
  hdx_code :: Ucs_Hdx_Result_t
  hdx_signature_ptr :: "Ucs_Signature_t option"
  hdx_cable_diag_result :: u16
  hdx_position :: u8

record Ucs_Message_t =
  tel_len :: u8
  tel_data_ptr :: "u8 list option"
  source_addr :: u16
  fblock_id :: u8
  instance_id :: u8
  function_id :: u16
  op_type :: u8

text \<open>One buffer of the chain of a message to be sent.\<close>

record Ucs_Mem_Buffer_t =
  mb_data_ptr :: "u8 list"
  mb_data_size :: u16

record Ucs_AmsRx_Msg_t =
  rx_msg_id :: u16
  rx_source_address :: u16
  rx_data :: "u8 list"
  rx_data_size :: u32

text \<open>
  The calls of the library. The first group are commands, answered later by a callback; the
  second serve the library, which makes its callbacks meanwhile; the third are queries and
  buffer operations.
\<close>

datatype ucs_call =
    Ucs_Init Ucs_InitData_t
  | Ucs_Stop
  | Ucs_Rm_SetRouteActive Ucs_Rm_Route_t bool
  | Ucs_Ns_Run u16 nat u8
  | Ucs_Gpio_CreatePort u16 u8 u16
  | Ucs_Gpio_WritePort u16 u16 u16 u16
  | Ucs_Gpio_SetPinMode u16 u16 u8 int
  | Ucs_I2c_WritePort u16 u16 int u8 u8 u16 u8 "u8 list"
  | Ucs_I2c_ReadPort u16 u16 u8 u8 u16
  | Ucs_AmsTx_SendMsg Ucs_AmsTx_Msg_t
  | Ucs_Network_SetPacketFilterMode u16 u16
  | Ucs_Supv_ProgramNode u16 UnicensCmdProgramNode_t
  | Ucs_Supv_ProgramExit
  | Ucs_Supv_SetMode Ucs_Supv_Mode_t
  | Ucs_Service
  | Ucs_ReportTimeout
  | Ucs_CreateInstance
  | Ucs_SetDefaultConfig
  | Ucs_Rm_GetConnectionLabel nat
  | Ucs_Network_RegisterAliveCb
  | Ucs_AmsTx_AllocMsg u32
  | Ucs_AmsTx_FreeUnusedMsg Ucs_AmsTx_Msg_t
  | Ucs_AmsRx_PeekMsg
  | Ucs_AmsRx_ReleaseMsg
  | Lld_rx_allocate u32
  | Lld_rx_receive "u8 list"
  | Lld_tx_release

text \<open>The callbacks of the library.\<close>

datatype ucs_event =
    EvService
  | EvError int
  | EvAppTimer u16
  | EvDebugErrorMsg Ucs_Message_t
  | EvLldStart bool bool
  | EvLldStop
  | EvLldReset
  | EvLldRxAvailable
  | EvLldTxTransmit "Ucs_Mem_Buffer_t list option"
  | EvRoutingResult "Ucs_Rm_Route_t option" Ucs_Rm_RouteInfos_t
  | EvNetworkStatus bool u8 u16
  | EvXrmResources Ucs_Xrm_ResourceType_t "Ucs_Xrm_ResObject_t option" Ucs_Xrm_ResourceInfos_t
      "Ucs_Rm_EndPoint_t option"
  | EvInitResult int bool
  | EvStopResult bool
  | EvGpioPortCreate bool
  | EvGpioPortWrite bool
  | EvGpioPinMode bool
  | EvSupvReport Ucs_Supv_Report_t Ucs_Signature_t "Ucs_Rm_Node_t option"
  | EvNsRun u16 bool
  | EvAmsRxMsgReceived
  | EvGpioTrigger u16 u16 u16
  | EvI2CWrite u16 bool
  | EvI2CRead u16 u8 u8 "u8 list" bool
  | EvAmsWrite bool int int
  | EvPacketFilterMode int bool
  | EvSupvModeReport Ucs_Supv_Mode_t Ucs_Supv_State_t
  | EvHdxReport Ucs_Hdx_Report_t
  | EvProgramLocalNode
  | EvProgramSignature "Ucs_Signature_t option"
  | EvProgramEvent Ucs_Supv_ProgramEvent_t
  | EvProgramResult int bool
  | EvNetworkAlive "(bool \<times> u8 \<times> u16) option"

text \<open>The trace: calls of the library and callbacks of the integrator.\<close>

datatype ucsi_out =
    Lib ucs_call
  | CB_OnUserMessage UCSI_UserMessageUrgency_t string "msg_arg list"
  | CB_OnCommandResult UnicensCmd_t bool u16
  | CB_OnServiceRequired
  | CB_OnSetServiceTimer u16
  | CB_OnStart
  | CB_OnStop
  | CB_OnResetInic
  | CB_OnTxRequest "u8 list"
  | CB_OnNetworkState bool u16 u8
  | CB_OnPrintRouteTable string
  | CB_OnRouteResult u16 bool u16
  | CB_OnGpioStateChange u16 u8 bool
  | CB_OnMgrReport Ucs_Supv_Report_t Ucs_Signature_t "Ucs_Rm_Node_t option"
  | CB_OnI2CRead bool u16 u8 "u8 list" u8
  | CB_OnAmsMessageReceived
  | CB_OnCableDiagnosisResult "u16 list" u8
  | CB_I2CWriteResult bool int u16 u8 nat

record ucs_lib =
  lib_success :: "ucsi_out list \<Rightarrow> ucs_call \<Rightarrow> bool"
  lib_events :: "ucsi_out list \<Rightarrow> ucs_call \<Rightarrow> ucs_event list"
  lib_label :: "ucsi_out list \<Rightarrow> nat \<Rightarrow> u16"
  lib_ams_peek :: "ucsi_out list \<Rightarrow> Ucs_AmsRx_Msg_t option"
  lib_ams_addr :: "ucsi_out list \<Rightarrow> nat"
  lib_default_config :: Ucs_InitData_t
  lib_supv_mode_zero :: Ucs_Supv_Mode_t
  lib_sizeof_entry :: u32
  lib_time :: "ucsi_out list \<Rightarrow> u16"

section \<open>State\<close>

text \<open>
  \<open>promiscuousMode\<close> is a member of the integrator's state (src/src/task-unicens.c), the only one on
  which a callback of the integrator depends that calls back into the layer.
\<close>

record ucsi =
  my :: UCSI_Data_t
  pm :: LocalVar
  trace :: "ucsi_out list"
  promiscuousMode :: bool

definition emit :: "ucsi_out \<Rightarrow> ucsi \<Rightarrow> ucsi" where
  "emit x s = s\<lparr>trace := trace s @ [x]\<rparr>"

definition upd :: "(UCSI_Data_t \<Rightarrow> UCSI_Data_t) \<Rightarrow> ucsi \<Rightarrow> ucsi" where
  "upd f s = s\<lparr>my := f (my s)\<rparr>"

definition message :: "UCSI_UserMessageUrgency_t \<Rightarrow> string \<Rightarrow> msg_arg list \<Rightarrow> ucsi \<Rightarrow> ucsi" where
  "message u fmt args = emit (CB_OnUserMessage u fmt args)"

definition LOCAL_NODE_ADDR :: u16 where "LOCAL_NODE_ADDR = 1"
definition UNKNOWN_NODE_ADDR :: u16 where "UNKNOWN_NODE_ADDR = 0xFFFF"
definition NODE_START_ADDR :: u16 where "NODE_START_ADDR = 0x401"
definition NODE_END_ADDR :: u16 where "NODE_END_ADDR = NODE_START_ADDR + of_nat MAX_NODES - 1"
definition TRACE_BUFFER_SZ :: nat where "TRACE_BUFFER_SZ = 106"
definition BOARD_PMS_TX_SIZE :: nat where "BOARD_PMS_TX_SIZE = 72"

text \<open>\<open>UCSIPrint_CB_NeedService\<close> and \<open>UCSIPrint_CB_OnUserMessage\<close>.\<close>

fun UCSIPrint_CB :: "print_cb \<Rightarrow> ucsi \<Rightarrow> ucsi result" where
  "UCSIPrint_CB (NeedService None) s = Inl NullDeref"
| "UCSIPrint_CB (NeedService (Some _)) s = Inr (upd (\<lambda>d. d\<lparr>printTrigger := True\<rparr>) s)"
| "UCSIPrint_CB (OnUserMessage _ pMsg) s = Inr (emit (CB_OnPrintRouteTable pMsg) s)"

text \<open>A call of the printer with the callbacks it makes.\<close>

definition do_print :: "(LocalVar \<Rightarrow> print_result) \<Rightarrow> ucsi \<Rightarrow> ucsi result" where
  "do_print f s = (case f (pm s) of (m, cbs) \<Rightarrow> foldR UCSIPrint_CB cbs (s\<lparr>pm := m\<rparr>))"

definition do_print_service :: "u32 \<Rightarrow> ucsi \<Rightarrow> ucsi result" where
  "do_print_service t s =
     bindR (UCSIPrint_Service t (pm s)) (\<lambda>(m, cbs). foldR UCSIPrint_CB cbs (s\<lparr>pm := m\<rparr>))"

section \<open>The command queue of the instance\<close>

definition EnqueueCommand :: "UnicensCmdEntry_t \<Rightarrow> ucsi \<Rightarrow> (bool \<times> ucsi) result" where
  "EnqueueCommand c s =
     (case RB_GetWritePtr (rb (my s)) of
        None \<Rightarrow> Inr (False, message UCSI_MsgError
          ''Could not enqueue command. Increase CMD_QUEUE_LEN define'' [] s)
      | Some e \<Rightarrow>
          bindR (RB_write (rb (my s)) e c) (\<lambda>r.
          let s = upd (\<lambda>d. d\<lparr>rb := RB_PopWritePtr r\<rparr>) s;
              s = emit CB_OnServiceRequired s
          in bindR (do_print UCSIPrint_UnicensActivity s) (\<lambda>s. Inr (True, s))))"

text \<open>The node a command result is reported for.\<close>

fun command_node :: "UnicensCmdEntry_t \<Rightarrow> u16" where
  "command_node EntryInit = LOCAL_NODE_ADDR"
| "command_node EntryStop = LOCAL_NODE_ADDR"
| "command_node (GpioCreatePort c) = gcp_destination c"
| "command_node (GpioWritePort c) = gwp_destination c"
| "command_node (I2CWrite c) = i2w_destination c"
| "command_node (I2CRead c) = i2r_destination c"
| "command_node (SendAms c) = ams_destination_address (ams_msg c)"
| "command_node (PacketFilterMode c) = pfm_destination_address c"
| "command_node _ = UNKNOWN_NODE_ADDR"

definition cmd_number :: "UnicensCmd_t \<Rightarrow> int" where
  "cmd_number c = (case c of
     UnicensCmd_Unknown \<Rightarrow> 0 | UnicensCmd_Init \<Rightarrow> 1 | UnicensCmd_Stop \<Rightarrow> 2
   | UnicensCmd_RmSetRoute \<Rightarrow> 3 | UnicensCmd_NsRun \<Rightarrow> 4 | UnicensCmd_GpioCreatePort \<Rightarrow> 5
   | UnicensCmd_GpioWritePort \<Rightarrow> 6 | UnicensCmd_GpioPortMode \<Rightarrow> 7 | UnicensCmd_I2CWrite \<Rightarrow> 8
   | UnicensCmd_I2CRead \<Rightarrow> 9 | UnicensCmd_SendAmsMessage \<Rightarrow> 10
   | UnicensCmd_PacketFilterMode \<Rightarrow> 11 | UnicensCmd_ProgramNode \<Rightarrow> 12
   | UnicensCmd_ProgramExit \<Rightarrow> 13 | UnicensCmd_SupvSetMode \<Rightarrow> 14)"

definition OnCommandExecuted :: "UnicensCmd_t \<Rightarrow> bool \<Rightarrow> ucsi \<Rightarrow> ucsi result" where
  "OnCommandExecuted c success s =
     (case currentCmd (my s) of
        None \<Rightarrow> Inr (message UCSI_MsgError
          ''OnUniCommandExecuted was called, but no command is in queue'' [] s)
      | Some p \<Rightarrow>
          bindR (RB_read (rb (my s)) p) (\<lambda>e.
          if cmd e \<noteq> c then
            Inr (message UCSI_MsgError
              ''OnUniCommandExecuted was called with wrong command (Expected=0x%X, Got=0x%X''
              [MInt (cmd_number (cmd e)), MInt (cmd_number c)] s)
          else
            bindR (do_print UCSIPrint_UnicensActivity s) (\<lambda>s.
            let s = emit (CB_OnCommandResult c success (command_node e)) s
            in Inr (upd (\<lambda>d. d\<lparr>currentCmd := None, rb := RB_PopReadPtr (rb d)\<rparr>) s))))"

end
