(* ===== verification/Ucsi_Callbacks.thy ===== *)
theory Ucsi_Callbacks
  imports Ucsi
begin

text \<open>
  The callbacks that the integration layer registers with the UNICENS library
  (libraries/ucsi/ucsi_impl.c, from \<open>OnUnicensGetTime\<close> to \<open>OnNetworkAlive\<close>), one definition
  per function, and their dispatch. Queries and buffer operations of the library that a
  callback makes are recorded in the trace and answered by the parameter; they make no
  callbacks of their own.
\<close>

section \<open>General\<close>

definition OnUnicensService :: "ucsi \<Rightarrow> ucsi result" where
  "OnUnicensService s = Inr (emit CB_OnServiceRequired (upd (\<lambda>d. d\<lparr>triggerService := True\<rparr>) s))"

definition OnUnicensError :: "int \<Rightarrow> ucsi \<Rightarrow> ucsi result" where
  "OnUnicensError error_code s =
     bindR (EnqueueCommand EntryInit (message UCSI_MsgError
       ''UNICENS general error, code=0x%X, restarting'' [MInt error_code] s))
     (\<lambda>(_, s). Inr s)"

definition OnUnicensAppTimer :: "u16 \<Rightarrow> ucsi \<Rightarrow> ucsi result" where
  "OnUnicensAppTimer timeout s = Inr (emit (CB_OnSetServiceTimer timeout) s)"

text \<open>The bytes of a telegram, three characters each, in the trace buffer.\<close>

definition telegram_text :: "u8 list \<Rightarrow> string result" where
  "telegram_text bytes = foldR (\<lambda>b buf. strcatR TRACE_BUFFER_SZ buf (fmt_X 2 (unat b) @ '' '')) bytes []"

definition OnUnicensDebugErrorMsg :: "Ucs_Message_t \<Rightarrow> ucsi \<Rightarrow> ucsi result" where
  "OnUnicensDebugErrorMsg m s =
     bindR (case tel_data_ptr m of
              None \<Rightarrow> Inr []
            | Some bytes \<Rightarrow> if length bytes < unat (tel_len m) then Inl OutOfBounds
                            else telegram_text (take (unat (tel_len m)) bytes)) (\<lambda>buf.
     Inr (message UCSI_MsgError ''Received error message, source=%x, %X.%X.%X.%X, [ %s ]''
       [MInt (uint (source_addr m)), MInt (uint (fblock_id m)), MInt (uint (instance_id m)),
        MInt (uint (function_id m)), MInt (uint (op_type m)), MStr buf] s))"

section \<open>Low level driver\<close>

definition OnLldCtrlStart :: "bool \<Rightarrow> bool \<Rightarrow> ucsi \<Rightarrow> ucsi result" where
  "OnLldCtrlStart api_ptr inst_ptr s =
     Inr (emit CB_OnStart (upd (\<lambda>d. d\<lparr>uniLld := api_ptr, uniLldHPtr := inst_ptr\<rparr>) s))"

definition OnLldCtrlStop :: "ucsi \<Rightarrow> ucsi result" where
  "OnLldCtrlStop s =
     bindR (do_print (UCSIPrint_SetNetworkAvailable False 0)
              (upd (\<lambda>d. d\<lparr>uniLld := False, uniLldHPtr := False\<rparr>) s))
       (\<lambda>s. Inr (emit CB_OnStop s))"

definition OnLldResetInic :: "ucsi \<Rightarrow> ucsi result" where
  "OnLldResetInic s = Inr (emit CB_OnResetInic s)"

definition OnLldCtrlRxMsgAvailable :: "ucsi \<Rightarrow> ucsi result" where
  "OnLldCtrlRxMsgAvailable s = Inr (emit CB_OnServiceRequired s)"

text \<open>
  The chain of buffers is gathered in \<open>buffer\<close>; \<open>Inl\<close> is the size that did not fit. The
  position and the sum are 32-bit, which the sizes (16-bit) cannot overflow below the bound.
\<close>

fun tx_gather :: "Ucs_Mem_Buffer_t list \<Rightarrow> u8 list \<Rightarrow> (nat + u8 list) result" where
  "tx_gather [] buffer = Inr (Inr buffer)"
| "tx_gather (b # bs) buffer =
     (let n = unat (mb_data_size b)
      in if n + length buffer > BOARD_PMS_TX_SIZE then Inr (Inl (n + length buffer))
         else if length (mb_data_ptr b) < n then Inl OutOfBounds
         else tx_gather bs (buffer @ take n (mb_data_ptr b)))"

definition OnLldCtrlTxTransmitC :: "Ucs_Mem_Buffer_t list option \<Rightarrow> ucsi \<Rightarrow> ucsi result" where
  "OnLldCtrlTxTransmitC msg_ptr s =
     (case msg_ptr of
        None \<Rightarrow> Inr s
      | Some bufs \<Rightarrow>
          if \<not> uniLld (my s) \<or> \<not> uniLldHPtr (my s) then Inr s
          else bindR (tx_gather bufs []) (\<lambda>r. case r of
              Inl n \<Rightarrow> Inr (emit (Lib Lld_tx_release) (message UCSI_MsgError
                 ''TX buffer is too small, increase BOARD_PMS_TX_SIZE define (%lu > %lu)''
                 [MInt (int n), MInt (int BOARD_PMS_TX_SIZE)] s))
            | Inr buffer \<Rightarrow> Inr (emit (CB_OnTxRequest buffer) (emit (Lib Lld_tx_release) s))))"

section \<open>Routes, network and resources\<close>

text \<open>
  \<open>currentCmd->val.RmSetRoute.isActive\<close> is read without a check of the tag; of another
  entry it is some byte of the union, on which nothing depends, because
  \<open>OnCommandExecuted\<close> rejects the entry.
\<close>

fun rmSetRoute_isActive :: "UnicensCmdEntry_t \<Rightarrow> bool" where
  "rmSetRoute_isActive (RmSetRoute r) = rsr_isActive r"
| "rmSetRoute_isActive _ = False"

definition OnUnicensRoutingResult ::
  "ucs_lib \<Rightarrow> Ucs_Rm_Route_t option \<Rightarrow> Ucs_Rm_RouteInfos_t \<Rightarrow> ucsi \<Rightarrow> ucsi result" where
  "OnUnicensRoutingResult L route_ptr route_infos s =
     bindR (if map_option route_addr route_ptr = pendingRoutePtr (my s) then
              bindR (derefR (currentCmd (my s))) (\<lambda>p.
              bindR (RB_read (rb (my s)) p) (\<lambda>e.
              bindR (OnCommandExecuted UnicensCmd_RmSetRoute
                       (if rmSetRoute_isActive e then route_infos = UCS_RM_ROUTE_INFOS_BUILT
                        else route_infos = UCS_RM_ROUTE_INFOS_DESTROYED) s) (\<lambda>s.
              Inr (upd (\<lambda>d. d\<lparr>pendingRoutePtr := None\<rparr>) s))))
            else Inr s) (\<lambda>s.
     case route_ptr of
       None \<Rightarrow> Inr s
     | Some route \<Rightarrow>
         if route_infos = UCS_RM_ROUTE_INFOS_ATD_UPDATE \<or> route_infos = UCS_RM_ROUTE_INFOS_ATD_ERROR
         then Inr s
         else
           let available = (route_infos = UCS_RM_ROUTE_INFOS_BUILT);
               conLabel = lib_label L (trace s) (route_addr route);
               s = emit (Lib (Ucs_Rm_GetConnectionLabel (route_addr route))) s
           in bindR (do_print (UCSIPrint_SetRouteState (route_id route) available conLabel) s) (\<lambda>s.
              Inr (emit (CB_OnRouteResult (route_id route) available conLabel) s)))"

definition ProgrammingSetFoundNodeCount :: "u8 \<Rightarrow> ucsi \<Rightarrow> ucsi" where
  "ProgrammingSetFoundNodeCount nodeCount s =
     (if nodeCount = 0 \<or> nodeCount > 64 then s
      else if supvShallMode (my s) = UCS_SUPV_MODE_PROGRAMMING then
        let allow = (unat nodeCount - 1 = unat (triggerNodeCount (program (my s))));
            s = upd (\<lambda>d. d\<lparr>program := (program d)\<lparr>allowProgramming := allow\<rparr>\<rparr>) s
        in message UCSI_MsgUrgent ''Programming is %s, due to the node count of %d''
             [MStr (if allow then ''enabled'' else ''disabled''), MInt (uint nodeCount)] s
      else s)"

definition OnUnicensNetworkStatus :: "bool \<Rightarrow> u8 \<Rightarrow> u16 \<Rightarrow> ucsi \<Rightarrow> ucsi result" where
  "OnUnicensNetworkStatus available max_position packetBw s =
     bindR (do_print (UCSIPrint_SetNetworkAvailable available max_position)
              (ProgrammingSetFoundNodeCount (if available then max_position else 0) s))
       (\<lambda>s. Inr (emit (CB_OnNetworkState available packetBw max_position) s))"

definition xrm_text :: "Ucs_Xrm_ResourceInfos_t \<Rightarrow> string" where
  "xrm_text infos = (case infos of
     UCS_XRM_INFOS_BUILT \<Rightarrow> ''has been built''
   | UCS_XRM_INFOS_DESTROYED \<Rightarrow> ''has been destroyed''
   | UCS_XRM_INFOS_ERR_BUILT \<Rightarrow> ''cannot be built''
   | UCS_XRM_INFOS_ERR_DESTROYED \<Rightarrow> ''cannot be destroyed''
   | UCS_XRM_INFOS_OTHER _ \<Rightarrow> ''has unknown state'')"

definition xrm_state :: "Ucs_Xrm_ResourceInfos_t \<Rightarrow> UCSIPrint_ObjectState_t option" where
  "xrm_state infos = (case infos of
     UCS_XRM_INFOS_BUILT \<Rightarrow> Some ObjState_Build
   | UCS_XRM_INFOS_DESTROYED \<Rightarrow> Some ObjState_Unused
   | UCS_XRM_INFOS_ERR_BUILT \<Rightarrow> Some ObjState_Failed
   | UCS_XRM_INFOS_ERR_DESTROYED \<Rightarrow> Some ObjState_Failed
   | UCS_XRM_INFOS_OTHER _ \<Rightarrow> None)"

text \<open>The format of the trace message and the arguments behind address and text.\<close>

definition xrm_format :: "Ucs_Xrm_ResourceType_t \<Rightarrow> Ucs_Xrm_ResObject_t \<Rightarrow> (string \<times> int list) option" where
  "xrm_format type obj = (case type of
     UCS_XRM_RC_TYPE_NW_SOCKET \<Rightarrow> Some
       (''Xrm-Debug (0x%03X): NW socket %s, handle=%04X, direction=%d, type=%d, bandwidth=%d'',
        [nw_port_handle obj, direction obj, data_type obj, bandwidth obj])
   | UCS_XRM_RC_TYPE_MLB_PORT \<Rightarrow> Some
       (''Xrm-Debug (0x%03X): MLB port %s, index=%d, clock=%d'', [index obj, clock_config obj])
   | UCS_XRM_RC_TYPE_MLB_SOCKET \<Rightarrow> Some
       (''Xrm-Debug (0x%03X): MLB socket %s, direction=%d, type=%d, bandwidth=%d, channel=%d'',
        [direction obj, data_type obj, bandwidth obj, channel_address obj])
   | UCS_XRM_RC_TYPE_USB_PORT \<Rightarrow> Some
       (''Xrm-Debug (0x%03X): USB port %s, in-cnt=%d, out-cnt=%d'',
        [streaming_if_ep_in_count obj, streaming_if_ep_out_count obj])
   | UCS_XRM_RC_TYPE_USB_SOCKET \<Rightarrow> Some
       (''Xrm-Debug (0x%03X): USB socket %s, direction=%d, type=%d, ep-addr=%02X, frames=%d'',
        [direction obj, data_type obj, end_point_addr obj, frames_per_transfer obj])
   | UCS_XRM_RC_TYPE_STRM_PORT \<Rightarrow> Some
       (''Xrm-Debug (0x%03X): I2S port %s, index=%d, clock=%d, align=%d'',
        [index obj, clock_config obj, data_alignment obj])
   | UCS_XRM_RC_TYPE_RMCK_PORT \<Rightarrow> Some
       (''Xrm-Debug (0x%03X): RMCK port %s, index=%d, divisor=%d, '', [index obj, divisor obj])
   | UCS_XRM_RC_TYPE_STRM_SOCKET \<Rightarrow> Some
       (''Xrm-Debug (0x%03X): I2S socket %s, direction=%d, type=%d, bandwidth=%d, pin=%d'',
        [direction obj, data_type obj, bandwidth obj, stream_pin_id obj])
   | UCS_XRM_RC_TYPE_SYNC_CON \<Rightarrow> Some
       (''Xrm-Debug (0x%03X): Sync connection %s, mute=%d, offset=%d'', [mute_mode obj, offset obj])
   | UCS_XRM_RC_TYPE_COMBINER \<Rightarrow> Some
       (''Xrm-Debug (0x%03X): Combiner %s, bytes per frame=%d'', [bytes_per_frame obj])
   | UCS_XRM_RC_TYPE_SPLITTER \<Rightarrow> Some
       (''Xrm-Debug (0x%03X): Splitter %s, bytes per frame=%d'', [bytes_per_frame obj])
   | UCS_XRM_RC_TYPE_AVP_CON \<Rightarrow> Some
       (''Xrm-Debug (0x%03X): Isoc-AVP connection %s, packetSize=%d'', [isoc_packet_size obj])
   | _ \<Rightarrow> None)"

definition endpoint_address_or :: "u16 \<Rightarrow> Ucs_Rm_EndPoint_t option \<Rightarrow> u16" where
  "endpoint_address_or a ep =
     (case ep of None \<Rightarrow> a | Some e \<Rightarrow>
       (case node_obj_ptr e of None \<Rightarrow> a | Some n \<Rightarrow>
         (case signature_ptr n of None \<Rightarrow> a | Some sg \<Rightarrow> node_address sg)))"

definition OnUnicensDebugXrmResources ::
  "Ucs_Xrm_ResourceType_t \<Rightarrow> Ucs_Xrm_ResObject_t option \<Rightarrow> Ucs_Xrm_ResourceInfos_t
    \<Rightarrow> Ucs_Rm_EndPoint_t option \<Rightarrow> ucsi \<Rightarrow> ucsi result" where
  "OnUnicensDebugXrmResources type resource_ptr infos endpoint_inst_ptr s =
     (case resource_ptr of
        None \<Rightarrow> Inr s
      | Some obj \<Rightarrow>
          let adr = MInt (uint (endpoint_address_or 0xFFFF endpoint_inst_ptr));
              msg = MStr (xrm_text infos)
          in bindR (case xrm_state infos of
                      None \<Rightarrow> Inr s
                    | Some st \<Rightarrow> do_print (UCSIPrint_SetObjectState (xo_addr obj) st) s) (\<lambda>s.
             Inr (case xrm_format type obj of
                 Some (fmt, args) \<Rightarrow> message UCSI_MsgDebug fmt ([adr, msg] @ map MInt args) s
               | None \<Rightarrow> message UCSI_MsgError ''Xrm-Debug (0x%03X): Unknown type=%d %s''
                   [adr, MResType type, msg] s)))"

section \<open>Results of commands\<close>

text \<open>The result code and whether it is \<open>UCS_INIT_RES_SUCCESS\<close>.\<close>

definition OnUcsInitResult :: "int \<Rightarrow> bool \<Rightarrow> ucsi \<Rightarrow> ucsi result" where
  "OnUcsInitResult result success s =
     bindR (OnCommandExecuted UnicensCmd_Init success
              (upd (\<lambda>d. d\<lparr>initialized := success\<rparr>) s)) (\<lambda>s.
     if initialized (my s) then Inr (emit (Lib Ucs_Network_RegisterAliveCb) s)
     else
       bindR (EnqueueCommand EntryInit (message UCSI_MsgError
         ''UcsInitResult reported error (0x%X), restarting...'' [MInt result] s))
       (\<lambda>(_, s). Inr s))"

definition OnUcsStopResult :: "bool \<Rightarrow> ucsi \<Rightarrow> ucsi result" where
  "OnUcsStopResult success s =
     bindR (OnCommandExecuted UnicensCmd_Stop success
              (upd (\<lambda>d. d\<lparr>initialized := False\<rparr>) s)) (\<lambda>s.
     Inr (emit CB_OnStop s))"

definition OnUcsGpioPortCreate :: "bool \<Rightarrow> ucsi \<Rightarrow> ucsi result" where
  "OnUcsGpioPortCreate success = OnCommandExecuted UnicensCmd_GpioCreatePort success"

definition OnUcsGpioPortWrite :: "bool \<Rightarrow> ucsi \<Rightarrow> ucsi result" where
  "OnUcsGpioPortWrite success = OnCommandExecuted UnicensCmd_GpioWritePort success"

definition OnUcsGpioPinMode :: "bool \<Rightarrow> ucsi \<Rightarrow> ucsi result" where
  "OnUcsGpioPinMode success = OnCommandExecuted UnicensCmd_GpioPortMode success"

definition OnUcsNsRun :: "u16 \<Rightarrow> bool \<Rightarrow> ucsi \<Rightarrow> ucsi result" where
  "OnUcsNsRun nodeAddr success s =
     Inr (message (urgency_of (\<not> success)) ''OnUcsNsRun (%03X): script executed %s''
       [MInt (uint nodeAddr), MStr (if success then ''succeeded'' else ''false'')]
       (emit (CB_OnCommandResult UnicensCmd_NsRun success nodeAddr) s))"

definition OnUcsAmsRxMsgReceived :: "ucsi \<Rightarrow> ucsi result" where
  "OnUcsAmsRxMsgReceived s = Inr (emit CB_OnAmsMessageReceived s)"

definition OnUcsGpioTriggerEventStatus :: "u16 \<Rightarrow> u16 \<Rightarrow> u16 \<Rightarrow> ucsi \<Rightarrow> ucsi result" where
  "OnUcsGpioTriggerEventStatus nodeAddr rising_edges falling_edges s =
     Inr (fold (\<lambda>i s.
        let s = (if drop_bit i rising_edges AND 1 \<noteq> 0
                 then emit (CB_OnGpioStateChange nodeAddr (of_nat i) True) s else s)
        in if drop_bit i falling_edges AND 1 \<noteq> 0
           then emit (CB_OnGpioStateChange nodeAddr (of_nat i) False) s else s) [0..<16] s)"

definition OnUcsI2CWrite :: "u16 \<Rightarrow> bool \<Rightarrow> ucsi \<Rightarrow> ucsi result" where
  "OnUcsI2CWrite nodeAddr success s =
     bindR (case currentCmd (my s) of
              None \<Rightarrow> Inr None
            | Some p \<Rightarrow> bindR (RB_read (rb (my s)) p) (\<lambda>e. Inr (case e of
                  I2CWrite c \<Rightarrow> if i2w_result_fptr c then Some c else None
                | _ \<Rightarrow> None))) (\<lambda>c.
     OnCommandExecuted UnicensCmd_I2CWrite success
       (case c of
          Some c \<Rightarrow> emit (CB_I2CWriteResult success (i2w_i2cMode c) (i2w_destination c)
                      (i2w_slaveAddr c) (i2w_request_ptr c)) s
        | None \<Rightarrow> if \<not> success
                  then message UCSI_MsgError ''Remote I2C Write to node=0x%X failed''
                         [MInt (uint nodeAddr)] s
                  else s))"

definition OnUcsI2CRead :: "u16 \<Rightarrow> u8 \<Rightarrow> u8 \<Rightarrow> u8 list \<Rightarrow> bool \<Rightarrow> ucsi \<Rightarrow> ucsi result" where
  "OnUcsI2CRead nodeAddr slaveAddr dataLen dataPtr success s =
     bindR (OnCommandExecuted UnicensCmd_I2CRead success s) (\<lambda>s.
     Inr (emit (CB_OnI2CRead success nodeAddr slaveAddr dataPtr dataLen) s))"

definition OnUcsAmsWrite :: "bool \<Rightarrow> int \<Rightarrow> int \<Rightarrow> ucsi \<Rightarrow> ucsi result" where
  "OnUcsAmsWrite success result info s =
     bindR (OnCommandExecuted UnicensCmd_SendAmsMessage success s) (\<lambda>s.
     Inr (if \<not> success
          then message UCSI_MsgError ''SendAms failed with result=0x%x, info=0x%X''
                 [MInt result, MInt info] s
          else s))"

definition OnUcsPacketFilterMode :: "int \<Rightarrow> bool \<Rightarrow> ucsi \<Rightarrow> ucsi result" where
  "OnUcsPacketFilterMode code success s =
     bindR (OnCommandExecuted UnicensCmd_PacketFilterMode success s) (\<lambda>s.
     Inr (if \<not> success
          then message UCSI_MsgError ''Set promiscuous mode failed with error code %d'' [MInt code] s
          else s))"

section \<open>Supervisor\<close>

definition supv_report ::
  "Ucs_Supv_Report_t \<Rightarrow> UCSIPrint_NodeState_t option \<times> UCSI_UserMessageUrgency_t \<times> string" where
  "supv_report code = (case code of
     UCS_SUPV_REP_IGNORED_UNKNOWN \<Rightarrow>
       (Some NodeState_Ignored, UCSI_MsgDebug, ''Node=%X(%X): Ignored, because unknown'')
   | UCS_SUPV_REP_IGNORED_DUPLICATE \<Rightarrow>
       (Some NodeState_Ignored, UCSI_MsgError, ''Node=%X(%X): Ignored, because duplicated'')
   | UCS_SUPV_REP_NOT_AVAILABLE \<Rightarrow>
       (Some NodeState_NotAvailable, UCSI_MsgDebug, ''Node=%X(%X): Not available'')
   | UCS_SUPV_REP_WELCOMED \<Rightarrow> (None, UCSI_MsgDebug, ''Node=%X(%X): Welcomed'')
   | UCS_SUPV_REP_SCRIPT_FAILURE \<Rightarrow> (None, UCSI_MsgError, ''Node=%X(%X): Script failure'')
   | UCS_SUPV_REP_IRRECOVERABLE \<Rightarrow> (None, UCSI_MsgError, ''Node=%X(%X): IRRECOVERABLE ERROR!!'')
   | UCS_SUPV_REP_SCRIPT_SUCCESS \<Rightarrow> (None, UCSI_MsgDebug, ''Node=%X(%X): Script ok'')
   | UCS_SUPV_REP_AVAILABLE \<Rightarrow>
       (Some NodeState_Available, UCSI_MsgDebug, ''Node=%X(%X): Available'')
   | UCS_SUPV_REP_OTHER _ \<Rightarrow> (None, UCSI_MsgError, ''Node=%X(%X): unknown code''))"

text \<open>
  The integrator's answer to a report (src/src/task-unicens.c) switches the packet filter of a node
  that has become available; its messages do not concern the layer.
\<close>

definition UCSI_EnablePromiscuousMode :: "u16 \<Rightarrow> bool \<Rightarrow> ucsi \<Rightarrow> (bool \<times> ucsi) result" where
  "UCSI_EnablePromiscuousMode targetAddress enablePromiscuous =
     EnqueueCommand (PacketFilterMode \<lparr>pfm_destination_address = targetAddress,
       pfm_mode = (if enablePromiscuous then 0xA else 0)\<rparr>)"

definition UCSI_CB_OnMgrReport ::
  "Ucs_Supv_Report_t \<Rightarrow> Ucs_Signature_t \<Rightarrow> Ucs_Rm_Node_t option \<Rightarrow> ucsi \<Rightarrow> ucsi result" where
  "UCSI_CB_OnMgrReport code signature node_ptr s =
     (let s = emit (CB_OnMgrReport code signature node_ptr) s
      in if code = UCS_SUPV_REP_AVAILABLE \<and> promiscuousMode s
         then bindR (UCSI_EnablePromiscuousMode (node_address signature) True s) (\<lambda>(_, s). Inr s)
         else Inr s)"

definition OnUcsSupvReport ::
  "Ucs_Supv_Report_t \<Rightarrow> Ucs_Signature_t \<Rightarrow> Ucs_Rm_Node_t option \<Rightarrow> ucsi \<Rightarrow> ucsi result" where
  "OnUcsSupvReport code signature node_ptr s =
     (case supv_report code of (st, urgency, fmt) \<Rightarrow>
      bindR (case st of
               Some st \<Rightarrow> do_print (UCSIPrint_SetNodeAvailable (node_address signature)
                                    (node_pos_addr signature) st) s
             | None \<Rightarrow> Inr s) (\<lambda>s.
      UCSI_CB_OnMgrReport code signature node_ptr
        (message urgency fmt
          [MInt (uint (node_address signature)), MInt (uint (node_pos_addr signature))] s)))"

definition GetSupervisorModeString :: "Ucs_Supv_Mode_t \<Rightarrow> string" where
  "GetSupervisorModeString mode = (case mode of
     UCS_SUPV_MODE_NORMAL \<Rightarrow> ''UCS_SUPV_MODE_NORMAL''
   | UCS_SUPV_MODE_INACTIVE \<Rightarrow> ''UCS_SUPV_MODE_INACTIVE''
   | UCS_SUPV_MODE_FALLBACK \<Rightarrow> ''UCS_SUPV_MODE_FALLBACK''
   | UCS_SUPV_MODE_DIAGNOSIS \<Rightarrow> ''UCS_SUPV_MODE_DIAGNOSIS''
   | UCS_SUPV_MODE_PROGRAMMING \<Rightarrow> ''UCS_SUPV_MODE_PROGRAMMING''
   | UCS_SUPV_MODE_OTHER _ \<Rightarrow> ''Unknown mode'')"

definition supv_state_string :: "Ucs_Supv_State_t \<Rightarrow> string" where
  "supv_state_string st = (case st of
     UCS_SUPV_STATE_BUSY \<Rightarrow> ''UCS_SUPV_STATE_BUSY''
   | UCS_SUPV_STATE_READY \<Rightarrow> ''UCS_SUPV_STATE_READY''
   | UCS_SUPV_STATE_OTHER _ \<Rightarrow> ''Unknown state'')"

text \<open>The entry is written into the queue in place, without \<open>EnqueueCommand\<close>.\<close>

definition enqueue_in_place :: "UnicensCmdEntry_t \<Rightarrow> nat \<Rightarrow> ucsi \<Rightarrow> ucsi result" where
  "enqueue_in_place c e s =
     bindR (RB_write (rb (my s)) e c) (\<lambda>r.
     do_print UCSIPrint_UnicensActivity
       (emit CB_OnServiceRequired (upd (\<lambda>d. d\<lparr>rb := RB_PopWritePtr r\<rparr>) s)))"

definition OnSupvModeReport :: "Ucs_Supv_Mode_t \<Rightarrow> Ucs_Supv_State_t \<Rightarrow> ucsi \<Rightarrow> ucsi result" where
  "OnSupvModeReport mode st s =
     (let s = (if st = UCS_SUPV_STATE_BUSY \<and> mode = UCS_SUPV_MODE_DIAGNOSIS
               then upd (\<lambda>d. d\<lparr>cableResult := replicate MAX_NODES 0\<rparr>) s else s);
          s = message UCSI_MsgDebug (''Supervisor mode='' @ quoted ''%s'' @ '', state='' @ quoted ''%s'')
                [MStr (GetSupervisorModeString mode), MStr (supv_state_string st)] s
      in if st \<noteq> UCS_SUPV_STATE_READY then Inr s else
         bindR (case currentCmd (my s) of
                  None \<Rightarrow> Inr s
                | Some p \<Rightarrow> bindR (RB_read (rb (my s)) p) (\<lambda>e.
                    if cmd e = UnicensCmd_SupvSetMode
                    then OnCommandExecuted UnicensCmd_SupvSetMode True s else Inr s)) (\<lambda>s.
         let check = (\<not> switchOnlyInInactive (my s) \<or>
                      switchOnlyInInactive (my s) \<and> mode = UCS_SUPV_MODE_INACTIVE)
         in if check \<and> supvShallMode (my s) \<noteq> mode then
              let s = upd (\<lambda>d. d\<lparr>switchOnlyInInactive := False\<rparr>) s
              in case RB_GetWritePtr (rb (my s)) of
                   None \<Rightarrow> Inr (message UCSI_MsgError
                     ''Could not enqueue SupvMode command. Increase CMD_QUEUE_LEN define'' [] s)
                 | Some e \<Rightarrow> enqueue_in_place (SupvMode \<lparr>supvMode = supvShallMode (my s)\<rparr>) e s
            else Inr s))"

definition hdx_code_string :: "Ucs_Hdx_Result_t \<Rightarrow> string" where
  "hdx_code_string code = (case code of
     UCS_HDX_RES_SUCCESS \<Rightarrow> ''UCS_HDX_RES_SUCCESS''
   | UCS_HDX_RES_SLAVE_WRONG_POS \<Rightarrow> ''UCS_HDX_RES_SLAVE_WRONG_POS''
   | UCS_HDX_RES_RING_BREAK \<Rightarrow> ''UCS_HDX_RES_RING_BREAK''
   | UCS_HDX_RES_NO_RING_BREAK \<Rightarrow> ''UCS_HDX_RES_NO_RING_BREAK''
   | UCS_HDX_RES_NO_RESULT \<Rightarrow> ''UCS_HDX_RES_NO_RESULT''
   | UCS_HDX_RES_TIMEOUT \<Rightarrow> ''UCS_HDX_RES_TIMEOUT''
   | UCS_HDX_RES_ERROR \<Rightarrow> ''UCS_HDX_RES_ERROR''
   | UCS_HDX_RES_END \<Rightarrow> ''UCS_HDX_RES_END''
   | UCS_HDX_RES_OTHER _ \<Rightarrow> ''unknown'')"

definition hdx_text :: "Ucs_Hdx_Report_t \<Rightarrow> string" where
  "hdx_text r = snprintf TRACE_BUFFER_SZ
     (''HalfDuplex Report code='' @ quoted (hdx_code_string (hdx_code r)) @
      '', result=0x'' @ fmt_X 0 (unat (hdx_cable_diag_result r)) @
      '' pos=0x'' @ fmt_X 0 (unat (hdx_position r)) @
      (case hdx_signature_ptr r of
         None \<Rightarrow> []
       | Some sg \<Rightarrow> '' nodeAddr=0x'' @ fmt_X 0 (unat (node_address sg)) @
                    '' posAddr=0x'' @ fmt_X 0 (unat (node_pos_addr sg))))"

text \<open>
  A store at \<open>position - 1\<close>: for position 0 the index is -1, before the array. The number of
  results is the number of entries before the first zero.
\<close>

definition OnHdxReport :: "Ucs_Hdx_Report_t \<Rightarrow> ucsi \<Rightarrow> ucsi result" where
  "OnHdxReport r s =
     bindR (case hdx_signature_ptr r of
              Some sg \<Rightarrow>
                if unat (hdx_position r) \<le> MAX_NODES then
                  (if hdx_position r = 0 \<or> length (cableResult (my s)) < unat (hdx_position r)
                   then Inl OutOfBounds
                   else Inr (upd (\<lambda>d. d\<lparr>cableResult :=
                          (cableResult d)[unat (hdx_position r) - 1 := node_address sg]\<rparr>) s))
                else Inr s
            | None \<Rightarrow>
                Inr (emit (CB_OnCableDiagnosisResult (cableResult (my s))
                  (of_nat (length (takeWhile (\<lambda>x. x \<noteq> 0) (cableResult (my s)))))) s)) (\<lambda>s.
     Inr (upd (\<lambda>d. d\<lparr>switchOnlyInInactive := True, supvShallMode := UCS_SUPV_MODE_NORMAL\<rparr>)
       (message UCSI_MsgDebug (hdx_text r) [] s)))"

section \<open>Programming mode\<close>

definition OnUcsProgramLocalNode :: "ucsi \<Rightarrow> ucsi result" where
  "OnUcsProgramLocalNode s = Inr s"

definition ProgrammingGetNodeCount :: "ucsi \<Rightarrow> u8" where
  "ProgrammingGetNodeCount s = of_nat (length (takeWhile id (signatureValid (program (my s)))))"

definition ProgrammingExit :: "ucsi \<Rightarrow> (bool \<times> ucsi) result" where
  "ProgrammingExit s =
     EnqueueCommand ProgramExit (upd (\<lambda>d. d\<lparr>supvShallMode := UCS_SUPV_MODE_NORMAL\<rparr>) s)"

definition leave_programming :: "ucsi \<Rightarrow> ucsi result" where
  "leave_programming s =
     bindR (ProgrammingExit s) (\<lambda>(ok, s).
     Inr (if ok then message UCSI_MsgUrgent ''Leaving programming mode, no programming needed'' [] s
          else message UCSI_MsgError ''Can not leave program mode. Increase CMD_QUEUE_LEN define'' [] s))"

text \<open>
  The entry that programs a node. The fifty bytes of \<open>data\<close> behind the identification string
  keep what the queue slot held before; nothing reads them, the model has zeros there.
\<close>

definition program_entry ::
  "bool \<Rightarrow> Ucs_Signature_t \<Rightarrow> Ucs_IdentString_t \<Rightarrow> UnicensCmdEntry_t result" where
  "program_entry persist node ident =
     bindR (BuildIdentString ident (replicate PROGRAM_MAX_DATA_LEN 0)) (\<lambda>(len, bytes).
     Inr (ProgramNode \<lparr>pn_data = bytes, pn_nodePosAddr = node_pos_addr node, pn_signature = node,
       pn_mem_id = (if persist then UCS_PRG_MID_IS else UCS_PRG_MID_ISTEST),
       pn_address = 0, pn_unit_size = 1, pn_data_size = len\<rparr>))"

definition program_message :: "Ucs_Signature_t \<Rightarrow> Ucs_IdentString_t \<Rightarrow> ucsi \<Rightarrow> ucsi" where
  "program_message node ident = message UCSI_MsgUrgent
     ''Programming nodePos=0x%X, node address 0x%X change to 0x%X, mac %04X%04X%04X change to %04X%04X%04X''
     (map (MInt \<circ> uint) [node_pos_addr node, node_address node, is_node_address ident,
        mac_47_32 node, mac_31_16 node, mac_15_0 node,
        is_mac_47_32 ident, is_mac_31_16 ident, is_mac_15_0 ident])"

text \<open>The parts of \<open>ProgrammingStoreSignature\<close>: the store, the queued program command, the check.\<close>

definition signature_stored :: "Ucs_Signature_t \<Rightarrow> ucsi \<Rightarrow> ucsi" where
  "signature_stored sg s =
     (let pos = unat (node_pos_addr sg - NODE_START_ADDR)
      in upd (\<lambda>d. d\<lparr>program := (program d)\<lparr>nodes := (nodes (program d))[pos := sg],
                signatureValid := (signatureValid (program d))[pos := True]\<rparr>\<rparr>) s)"

definition queue_program :: "Ucs_Signature_t \<Rightarrow> Ucs_IdentString_t \<Rightarrow> ucsi \<Rightarrow> ucsi result" where
  "queue_program node ident s =
     (case RB_GetWritePtr (rb (my s)) of
        None \<Rightarrow> Inr (message UCSI_MsgError
          ''Could not enqueue program command. Increase CMD_QUEUE_LEN define'' [] s)
      | Some e \<Rightarrow>
          bindR (program_entry (persistent (program (my s))) node ident) (\<lambda>entry.
          enqueue_in_place entry e (program_message node ident s)))"

definition check_programming :: "ucsi \<Rightarrow> ucsi result" where
  "check_programming s =
     (let trigger = triggerNodeCount (program (my s));
          count = ProgrammingGetNodeCount s
      in if allowProgramming (program (my s)) \<and> trigger \<noteq> 0 \<and> count = trigger then
           let s = message UCSI_MsgUrgent ''Check if programming needed, node count %d/%d''
                     [MInt (uint count), MInt (uint trigger)] s
           in bindR (UCSI_CB_OnProgrammingModeDeviceDiscovery (nodes (program (my s))) (ucast trigger))
              (\<lambda>answer. case answer of
                 None \<Rightarrow> leave_programming s
               | Some (i, ident) \<Rightarrow> queue_program (nodes (program (my s)) ! i) ident s)
         else Inr (message UCSI_MsgUrgent ''Wait for programming node count %d/%d''
                     [MInt (uint count), MInt (uint trigger)] s))"

definition ProgrammingStoreSignature :: "Ucs_Signature_t option \<Rightarrow> ucsi \<Rightarrow> ucsi result" where
  "ProgrammingStoreSignature signature s =
     (case signature of
        None \<Rightarrow> Inr s
      | Some sg \<Rightarrow>
          if node_pos_addr sg < NODE_START_ADDR \<or> node_pos_addr sg > NODE_END_ADDR then Inr s
          else check_programming (signature_stored sg s))"

definition OnProgramSignature :: "Ucs_Signature_t option \<Rightarrow> ucsi \<Rightarrow> ucsi result" where
  "OnProgramSignature = ProgrammingStoreSignature"

definition program_event_string :: "Ucs_Supv_ProgramEvent_t \<Rightarrow> string" where
  "program_event_string code = (case code of
     UCS_SUPV_PROG_INFO_EXIT \<Rightarrow> ''UCS_SUPV_PROG_INFO_EXIT''
   | UCS_SUPV_PROG_INFO_SCAN_NEW \<Rightarrow> ''UCS_SUPV_PROG_INFO_SCAN_NEW''
   | UCS_SUPV_PROG_ERROR_INIT_NWS \<Rightarrow> ''UCS_SUPV_PROG_ERROR_INIT_NWS''
   | UCS_SUPV_PROG_ERROR_LOCAL_CFG \<Rightarrow> ''UCS_SUPV_PROG_ERROR_LOCAL_CFG''
   | UCS_SUPV_PROG_ERROR_STARTUP \<Rightarrow> ''UCS_SUPV_PROG_ERROR_STARTUP''
   | UCS_SUPV_PROG_ERROR_STARTUP_TO \<Rightarrow> ''UCS_SUPV_PROG_ERROR_STARTUP_TO''
   | UCS_SUPV_PROG_ERROR_UNSTABLE \<Rightarrow> ''UCS_SUPV_PROG_ERROR_UNSTABLE''
   | UCS_SUPV_PROG_ERROR_PROGRAM \<Rightarrow> ''UCS_SUPV_PROG_ERROR_PROGRAM''
   | UCS_SUPV_PROG_OTHER _ \<Rightarrow> ''UCS_SUPV_UNKNOWN'')"

definition OnProgramEvent :: "Ucs_Supv_ProgramEvent_t \<Rightarrow> ucsi \<Rightarrow> ucsi result" where
  "OnProgramEvent code s =
     (let s = (if code = UCS_SUPV_PROG_INFO_SCAN_NEW
               then upd (\<lambda>d. d\<lparr>program := (program d)\<lparr>signatureValid :=
                          replicate MAX_NODES False\<rparr>\<rparr>) s
               else s)
      in Inr (message (urgency_of False) (''Programming Event='' @ quoted ''%s'') [MStr (program_event_string code)] s))"

definition OnProgramResult :: "int \<Rightarrow> bool \<Rightarrow> ucsi \<Rightarrow> ucsi result" where
  "OnProgramResult code success s =
     bindR (OnCommandExecuted UnicensCmd_ProgramNode success s) (\<lambda>s.
     Inr (message (urgency_of (\<not> success)) ''Programming Result=0x%02X'' [MInt code] s))"

text \<open>The report is: welcomed, alive status, node address.\<close>

definition OnNetworkAlive :: "(bool \<times> u8 \<times> u16) option \<Rightarrow> ucsi \<Rightarrow> ucsi result" where
  "OnNetworkAlive result s = Inr (case result of
     None \<Rightarrow> s
   | Some (welcomed, status, adr) \<Rightarrow> message UCSI_MsgDebug (snprintf TRACE_BUFFER_SZ
       (''On alive message, welcomed='' @ dec_digits (unat (flag welcomed)) @
        '', status=0x'' @ fmt_X 0 (unat status) @ '', nodeAddr=0x'' @ fmt_X 0 (unat adr))) [] s)"

section \<open>Dispatch\<close>

fun handle_event :: "ucs_lib \<Rightarrow> ucs_event \<Rightarrow> ucsi \<Rightarrow> ucsi result" where
  "handle_event L EvService = OnUnicensService"
| "handle_event L (EvError code) = OnUnicensError code"
| "handle_event L (EvAppTimer timeout) = OnUnicensAppTimer timeout"
| "handle_event L (EvDebugErrorMsg m) = OnUnicensDebugErrorMsg m"
| "handle_event L (EvLldStart api inst) = OnLldCtrlStart api inst"
| "handle_event L EvLldStop = OnLldCtrlStop"
| "handle_event L EvLldReset = OnLldResetInic"
| "handle_event L EvLldRxAvailable = OnLldCtrlRxMsgAvailable"
| "handle_event L (EvLldTxTransmit m) = OnLldCtrlTxTransmitC m"
| "handle_event L (EvRoutingResult r i) = OnUnicensRoutingResult L r i"
| "handle_event L (EvNetworkStatus a p b) = OnUnicensNetworkStatus a p b"
| "handle_event L (EvXrmResources t r i e) = OnUnicensDebugXrmResources t r i e"
| "handle_event L (EvInitResult r ok) = OnUcsInitResult r ok"
| "handle_event L (EvStopResult ok) = OnUcsStopResult ok"
| "handle_event L (EvGpioPortCreate ok) = OnUcsGpioPortCreate ok"
| "handle_event L (EvGpioPortWrite ok) = OnUcsGpioPortWrite ok"
| "handle_event L (EvGpioPinMode ok) = OnUcsGpioPinMode ok"
| "handle_event L (EvSupvReport c sg n) = OnUcsSupvReport c sg n"
| "handle_event L (EvNsRun a ok) = OnUcsNsRun a ok"
| "handle_event L EvAmsRxMsgReceived = OnUcsAmsRxMsgReceived"
| "handle_event L (EvGpioTrigger a r f) = OnUcsGpioTriggerEventStatus a r f"
| "handle_event L (EvI2CWrite a ok) = OnUcsI2CWrite a ok"
| "handle_event L (EvI2CRead a sl n d ok) = OnUcsI2CRead a sl n d ok"
| "handle_event L (EvAmsWrite ok r i) = OnUcsAmsWrite ok r i"
| "handle_event L (EvPacketFilterMode c ok) = OnUcsPacketFilterMode c ok"
| "handle_event L (EvSupvModeReport m st) = OnSupvModeReport m st"
| "handle_event L (EvHdxReport r) = OnHdxReport r"
| "handle_event L EvProgramLocalNode = OnUcsProgramLocalNode"
| "handle_event L (EvProgramSignature sg) = OnProgramSignature sg"
| "handle_event L (EvProgramEvent c) = OnProgramEvent c"
| "handle_event L (EvProgramResult c ok) = OnProgramResult c ok"
| "handle_event L (EvNetworkAlive r) = OnNetworkAlive r"

end
