(* ===== verification/Ucsi_Api.thy ===== *)
theory Ucsi_Api
  imports Ucsi_Callbacks
begin

text \<open>
  The public operations of the integration layer (libraries/ucsi/ucsi_impl.c, \<open>UCSI_Init\<close>
  to \<open>UCSI_SetGpioMode\<close>) and \<open>UCSI_Service\<close>, which hands the queued commands to
  the library one at a time.
\<close>

section \<open>Calls of the library\<close>

text \<open>The call is made, its callbacks run, then its outcome is known.\<close>

definition lib_call :: "ucs_lib \<Rightarrow> ucs_call \<Rightarrow> ucsi \<Rightarrow> (bool \<times> ucsi) result" where
  "lib_call L c s =
     bindR (foldR (handle_event L) (lib_events L (trace s) c) (emit (Lib c) s))
       (\<lambda>s'. Inr (lib_success L (trace s) c, s'))"

section \<open>Initialisation\<close>

definition UCSI_Data_zero :: "ucs_lib \<Rightarrow> UCSI_Data_t" where
  "UCSI_Data_zero L =
     \<lparr>cableResult = replicate MAX_NODES 0,
      uniInitData = \<lparr>inic_watchdog_enabled = False, ams_enabled = False, notification_mask = 0,
        debug_message_enable = False, packet_bw = 0, proxy_channel_bw = 0,
        routes_list_ptr = None, routes_list_size = 0, nodes_list_ptr = None,
        nodes_list_size = 0, supv_mode = lib_supv_mode_zero L\<rparr>,
      supvShallMode = lib_supv_mode_zero L,
      program = \<lparr>nodes = replicate MAX_NODES zero_signature,
        signatureValid = replicate MAX_NODES False, allowProgramming = False,
        persistent = False, triggerNodeCount = 0\<rparr>,
      rb = \<lparr>dataQueue = [], pRx = 0, pTx = 0, amountOfEntries = 0, sizeOfEntry = 0,
            rxPos = 0, txPos = 0\<rparr>,
      uniLldHPtr = False, pendingRoutePtr = None, unicens = False, uniLld = False,
      currentCmd = None, initialized = False, printTrigger = False, triggerService = False,
      switchOnlyInInactive = False\<rparr>"

text \<open>
  The instance data is cleared first, so the previous state of \<open>my\<close> does not matter; the
  printer's static data is left as it is. The registered callbacks are \<open>handle_event\<close>.
\<close>

definition UCSI_Init :: "ucs_lib \<Rightarrow> bool \<Rightarrow> ucsi \<Rightarrow> ucsi" where
  "UCSI_Init L debugLocalNode s =
     (let s = s\<lparr>my := UCSI_Data_zero L\<rparr>;
          ok = lib_success L (trace s) Ucs_CreateInstance;
          s = emit (Lib Ucs_CreateInstance) (upd (\<lambda>d. d\<lparr>unicens := ok\<rparr>) s)
      in if \<not> ok then message UCSI_MsgError
           ''Can not instance a new version of UNICENS, increase UCS_NUM_INSTANCES define'' [] s
         else
           let ok = lib_success L (trace s) Ucs_SetDefaultConfig;
               s = emit (Lib Ucs_SetDefaultConfig)
                     (upd (\<lambda>d. d\<lparr>uniInitData := lib_default_config L\<rparr>) s)
           in if \<not> ok then message UCSI_MsgError
                ''Can not set default values to UNICENS config (result=0x%X)'' [] s
              else upd (\<lambda>d. d\<lparr>
                uniInitData := (uniInitData d)\<lparr>inic_watchdog_enabled := True, ams_enabled := True,
                  notification_mask := 0xC2, debug_message_enable := debugLocalNode\<rparr>,
                rb := RB_Init (of_nat CMD_QUEUE_LEN) (lib_sizeof_entry L)
                        (replicate CMD_QUEUE_LEN EntryUnknown)\<rparr>) s)"

section \<open>Supervisor modes\<close>

text \<open>The three operations that first make the network inactive.\<close>

definition request_mode :: "Ucs_Supv_Mode_t \<Rightarrow> ucsi \<Rightarrow> (bool \<times> ucsi) result" where
  "request_mode mode s =
     (case RB_GetWritePtr (rb (my s)) of
        None \<Rightarrow> Inr (False, s)
      | Some _ \<Rightarrow> EnqueueCommand (SupvMode \<lparr>supvMode = UCS_SUPV_MODE_INACTIVE\<rparr>)
                   (upd (\<lambda>d. d\<lparr>supvShallMode := mode\<rparr>) s))"

definition UCSI_RunCableDiagnosis :: "ucsi \<Rightarrow> (bool \<times> ucsi) result" where
  "UCSI_RunCableDiagnosis = request_mode UCS_SUPV_MODE_DIAGNOSIS"

definition UCSI_RunFallbackMode :: "ucsi \<Rightarrow> (bool \<times> ucsi) result" where
  "UCSI_RunFallbackMode = request_mode UCS_SUPV_MODE_FALLBACK"

definition UCSI_ShutdownNetwork :: "ucsi \<Rightarrow> (bool \<times> ucsi) result" where
  "UCSI_ShutdownNetwork = request_mode UCS_SUPV_MODE_INACTIVE"

section \<open>Configuration\<close>

text \<open>The entry is written in place and counted, nothing else (\<open>RB_PopWritePtr\<close>).\<close>

definition put_in_place :: "UnicensCmdEntry_t \<Rightarrow> nat \<Rightarrow> ucsi \<Rightarrow> ucsi result" where
  "put_in_place c e s =
     bindR (RB_write (rb (my s)) e c) (\<lambda>r. Inr (upd (\<lambda>d. d\<lparr>rb := RB_PopWritePtr r\<rparr>) s))"

definition new_config_data ::
  "u16 \<Rightarrow> u16 \<Rightarrow> Ucs_Rm_Route_t list option \<Rightarrow> u16 \<Rightarrow> Ucs_Rm_Node_t list option \<Rightarrow> u16
    \<Rightarrow> u8 \<Rightarrow> bool \<Rightarrow> UCSI_Data_t \<Rightarrow> UCSI_Data_t" where
  "new_config_data packetBw proxyBw routesList routesSize nodesList nodesSize
       programAmountOfNodes programPersistent d =
     (let trigger = (if programAmountOfNodes \<ge> 1 then programAmountOfNodes - 1
                     else triggerNodeCount (program d))
      in d\<lparr>uniInitData := (uniInitData d)\<lparr>packet_bw := packetBw, proxy_channel_bw := proxyBw,
             routes_list_ptr := routesList, routes_list_size := routesSize,
             nodes_list_ptr := nodesList, nodes_list_size := nodesSize,
             supv_mode := (if trigger = 0 then UCS_SUPV_MODE_NORMAL else UCS_SUPV_MODE_INACTIVE)\<rparr>,
           program := (program d)\<lparr>triggerNodeCount := trigger, persistent := programPersistent\<rparr>,
           supvShallMode := (if trigger = 0 then UCS_SUPV_MODE_NORMAL
                             else UCS_SUPV_MODE_PROGRAMMING)\<rparr>)"

definition UCSI_NewConfig ::
  "u16 \<Rightarrow> u16 \<Rightarrow> Ucs_Rm_Route_t list option \<Rightarrow> u16 \<Rightarrow> Ucs_Rm_Node_t list option \<Rightarrow> u16
    \<Rightarrow> u8 \<Rightarrow> bool \<Rightarrow> ucsi \<Rightarrow> (bool \<times> ucsi) result" where
  "UCSI_NewConfig packetBw proxyBw routesList routesSize nodesList nodesSize
       programAmountOfNodes programPersistent s =
     bindR (if initialized (my s) then
              (case RB_GetWritePtr (rb (my s)) of
                 None \<Rightarrow> Inr (False, s)
               | Some e \<Rightarrow> bindR (put_in_place EntryStop e s) (\<lambda>s. Inr (True, s)))
            else Inr (True, s)) (\<lambda>(go, s).
     if \<not> go then Inr (False, s) else
     let s = upd (new_config_data packetBw proxyBw routesList routesSize nodesList nodesSize
                    programAmountOfNodes programPersistent) s
     in case RB_GetWritePtr (rb (my s)) of
          None \<Rightarrow> Inr (False, s)
        | Some e \<Rightarrow> bindR (put_in_place EntryInit e s) (\<lambda>s.
            let s = emit CB_OnServiceRequired s
            in Inr (True, s\<lparr>pm := UCSIPrint_Init routesList routesSize (Some ())\<rparr>)))"

section \<open>Operations that queue one command\<close>

text \<open>A script list is given by its address, NULL is \<open>None\<close>.\<close>

definition UCSI_ExecuteScript :: "u16 \<Rightarrow> nat option \<Rightarrow> u8 \<Rightarrow> ucsi \<Rightarrow> (bool \<times> ucsi) result" where
  "UCSI_ExecuteScript targetAddress pScriptList scriptListLength s =
     (if \<not> initialized (my s) \<or> supv_mode (uniInitData (my s)) \<noteq> UCS_SUPV_MODE_NORMAL
          \<or> nodes_list_ptr (uniInitData (my s)) = None \<or> nodes_list_size (uniInitData (my s)) = 0
          \<or> pScriptList = None \<or> scriptListLength = 0
      then Inr (False, s)
      else EnqueueCommand (NsRun \<lparr>nsr_nodeAddress = targetAddress,
             nsr_scriptPtr = the pScriptList, nsr_scriptSize = scriptListLength\<rparr>) s)"

definition UCSI_ProcessRxData :: "ucs_lib \<Rightarrow> u8 list \<Rightarrow> u32 \<Rightarrow> ucsi \<Rightarrow> (bool \<times> ucsi) result" where
  "UCSI_ProcessRxData L pBuffer len s =
     (if \<not> uniLld (my s) \<or> \<not> uniLldHPtr (my s) then Inr (False, s) else
      bindR (lib_call L (Lld_rx_allocate len) s) (\<lambda>(ok, s).
      if \<not> ok then Inr (False, s)
      else if length pBuffer < unat len then Inl OutOfBounds
      else bindR (lib_call L (Lld_rx_receive (take (unat len) pBuffer)) s) (\<lambda>(_, s). Inr (True, s))))"

definition UCSI_SetRouteActive :: "u16 \<Rightarrow> bool \<Rightarrow> ucsi \<Rightarrow> (bool \<times> ucsi) result" where
  "UCSI_SetRouteActive routeId on s =
     (case routes_list_ptr (uniInitData (my s)) of
        None \<Rightarrow> Inr (False, s)
      | Some routes \<Rightarrow>
          let n = unat (routes_list_size (uniInitData (my s)))
          in case scan (\<lambda>r. route_id r = routeId) (take n routes) of
               Some i \<Rightarrow> EnqueueCommand (RmSetRoute \<lparr>rsr_routePtr = routes ! i, rsr_isActive = on\<rparr>) s
             | None \<Rightarrow> if length routes < n then Inl OutOfBounds else Inr (False, s))"

definition UCSI_I2CWrite ::
  "u16 \<Rightarrow> int \<Rightarrow> u8 \<Rightarrow> u8 \<Rightarrow> u16 \<Rightarrow> u8 \<Rightarrow> u8 list option \<Rightarrow> bool \<Rightarrow> nat \<Rightarrow> ucsi
    \<Rightarrow> (bool \<times> ucsi) result" where
  "UCSI_I2CWrite targetAddress i2cMode blockCount slaveAddr timeout dataLen pData
       result_fptr request_ptr s =
     (case pData of
        None \<Rightarrow> Inr (False, s)
      | Some bytes \<Rightarrow>
          if dataLen = 0 then Inr (False, s)
          else if unat dataLen > I2C_WRITE_MAX_LEN then
            Inr (False, message UCSI_MsgUrgent
              ''I2CWrite was called with payload length=%d, allowed is=%d''
              [MInt (uint dataLen), MInt (int I2C_WRITE_MAX_LEN)] s)
          else if length bytes < unat dataLen then Inl OutOfBounds
          else EnqueueCommand (I2CWrite \<lparr>i2w_destination = targetAddress, i2w_i2cMode = i2cMode,
                 i2w_blockCount = blockCount, i2w_slaveAddr = slaveAddr, i2w_timeout = timeout,
                 i2w_dataLen = dataLen, i2w_data = take (unat dataLen) bytes,
                 i2w_result_fptr = result_fptr, i2w_request_ptr = request_ptr\<rparr>) s)"

definition UCSI_I2CRead :: "u16 \<Rightarrow> u8 \<Rightarrow> u16 \<Rightarrow> u8 \<Rightarrow> ucsi \<Rightarrow> (bool \<times> ucsi) result" where
  "UCSI_I2CRead targetAddress slaveAddr timeout dataLen s =
     (if dataLen = 0 then Inr (False, s)
      else EnqueueCommand (I2CRead \<lparr>i2r_destination = targetAddress, i2r_slaveAddr = slaveAddr,
             i2r_timeout = timeout, i2r_dataLen = dataLen\<rparr>) s)"

text \<open>
  \<open>1 << gpioPinId\<close> is computed as an \<open>int\<close> and cut to 16 bits: pins from 16 on give no bit
  (a shift by 31 or more is undefined in C; a GPIO port has 16 pins).
\<close>

definition UCSI_SetGpioState :: "u16 \<Rightarrow> u8 \<Rightarrow> bool \<Rightarrow> ucsi \<Rightarrow> (bool \<times> ucsi) result" where
  "UCSI_SetGpioState targetAddress gpioPinId isHighState =
     (let mask = push_bit (unat gpioPinId) 1
      in EnqueueCommand (GpioWritePort \<lparr>gwp_destination = targetAddress, gwp_mask = mask,
           gwp_data = (if isHighState then mask else 0)\<rparr>))"

definition UCSI_SetGpioMode :: "u16 \<Rightarrow> u8 \<Rightarrow> int \<Rightarrow> ucsi \<Rightarrow> (bool \<times> ucsi) result" where
  "UCSI_SetGpioMode targetAddress gpioPinId mode =
     EnqueueCommand (GpioPortMode \<lparr>gpm_destination = targetAddress, gpm_gpioPinId = gpioPinId,
       gpm_mode = mode\<rparr>)"

section \<open>Application messages\<close>

definition UCSI_GetAmsTxBuffer :: "ucs_lib \<Rightarrow> u32 \<Rightarrow> ucsi \<Rightarrow> (Ucs_AmsTx_Msg_t option \<times> ucsi) result" where
  "UCSI_GetAmsTxBuffer L payloadLen s =
     bindR (lib_call L (Ucs_AmsTx_AllocMsg payloadLen) s) (\<lambda>(ok, s').
     Inr (if ok then Some \<lparr>ams_addr = lib_ams_addr L (trace s), ams_destination_address = 0,
            ams_llrbc = 0, ams_msg_id = 0, ams_data_size = payloadLen\<rparr> else None, s'))"

definition UCSI_SendAmsMessage :: "u16 \<Rightarrow> u16 \<Rightarrow> Ucs_AmsTx_Msg_t option \<Rightarrow> ucsi \<Rightarrow> (bool \<times> ucsi) result" where
  "UCSI_SendAmsMessage msgId targetAddress msg s =
     (case msg of
        None \<Rightarrow> Inr (False, s)
      | Some msg \<Rightarrow> EnqueueCommand (SendAms \<lparr>ams_msg = msg\<lparr>ams_destination_address := targetAddress,
          ams_llrbc := 10, ams_msg_id := msgId\<rparr>\<rparr>) s)"

definition UCSI_GetAmsMessage ::
  "ucs_lib \<Rightarrow> ucsi \<Rightarrow> ((u16 \<times> u16 \<times> u8 list \<times> u32) option \<times> ucsi) result" where
  "UCSI_GetAmsMessage L s =
     (if \<not> unicens (my s) then Inr (None, s) else
      bindR (lib_call L Ucs_AmsRx_PeekMsg s) (\<lambda>(_, s').
      Inr (map_option (\<lambda>m. (rx_msg_id m, rx_source_address m, rx_data m, rx_data_size m))
             (lib_ams_peek L (trace s)), s')))"

definition UCSI_ReleaseAmsMessage :: "ucs_lib \<Rightarrow> ucsi \<Rightarrow> ucsi result" where
  "UCSI_ReleaseAmsMessage L s =
     (if \<not> unicens (my s) then Inr s
      else bindR (lib_call L Ucs_AmsRx_ReleaseMsg s) (\<lambda>(_, s). Inr s))"

section \<open>Service\<close>

definition command_failed :: "string \<Rightarrow> UnicensCmd_t \<Rightarrow> u16 \<Rightarrow> ucsi \<Rightarrow> ucsi" where
  "command_failed txt c nodeAddr s =
     emit (CB_OnCommandResult c False nodeAddr) (message UCSI_MsgError txt [] s)"

text \<open>
  A command that the library answers with a callback: the entry stays (\<open>False\<close>) when the
  library takes it, else the failure is reported and the entry is to be removed (\<open>True\<close>).
\<close>

definition submit :: "ucs_lib \<Rightarrow> ucs_call \<Rightarrow> (ucsi \<Rightarrow> ucsi) \<Rightarrow> ucsi \<Rightarrow> (bool \<times> ucsi) result" where
  "submit L c failed s =
     bindR (lib_call L c s) (\<lambda>(ok, s). Inr (if ok then (False, s) else (True, failed s)))"

text \<open>The switch of \<open>UCSI_Service\<close>; the result is \<open>popEntry\<close>.\<close>

fun exec_command :: "ucs_lib \<Rightarrow> UnicensCmdEntry_t \<Rightarrow> ucsi \<Rightarrow> (bool \<times> ucsi) result" where
  "exec_command L EntryInit s =
     submit L (Ucs_Init (uniInitData (my s)))
       (command_failed ''Ucs_Init failed'' UnicensCmd_Init LOCAL_NODE_ADDR) s"
| "exec_command L EntryStop s =
     submit L Ucs_Stop (command_failed ''Ucs_Stop failed'' UnicensCmd_Stop LOCAL_NODE_ADDR) s"
| "exec_command L (RmSetRoute c) s =
     bindR (lib_call L (Ucs_Rm_SetRouteActive (rsr_routePtr c) (rsr_isActive c)) s) (\<lambda>(ok, s).
     if ok then
       Inr (False, upd (\<lambda>d. d\<lparr>pendingRoutePtr := Some (route_addr (rsr_routePtr c))\<rparr>) s)
     else
       bindR (endpoint_node_address (sink_endpoint_ptr (rsr_routePtr c))) (\<lambda>a.
       Inr (True, command_failed ''Ucs_Rm_SetRouteActive failed'' UnicensCmd_RmSetRoute a s)))"
| "exec_command L (NsRun c) s =
     bindR (lib_call L (Ucs_Ns_Run (nsr_nodeAddress c) (nsr_scriptPtr c) (nsr_scriptSize c)) s) (\<lambda>(ok, s).
     Inr (True, if ok then s
                else command_failed ''Ucs_Ns_Run failed'' UnicensCmd_NsRun (nsr_nodeAddress c) s))"
| "exec_command L (GpioCreatePort c) s =
     submit L (Ucs_Gpio_CreatePort (gcp_destination c) 0 (gcp_debounceTime c))
       (command_failed ''Ucs_Gpio_CreatePort failed'' UnicensCmd_GpioCreatePort (gcp_destination c)) s"
| "exec_command L (GpioWritePort c) s =
     submit L (Ucs_Gpio_WritePort (gwp_destination c) 0x1D00 (gwp_mask c) (gwp_data c))
       (command_failed ''Ucs_Gpio_WritePort failed'' UnicensCmd_GpioWritePort (gwp_destination c)) s"
| "exec_command L (GpioPortMode c) s =
     submit L (Ucs_Gpio_SetPinMode (gpm_destination c) 0x1D00 (gpm_gpioPinId c) (gpm_mode c))
       (command_failed ''UnicensCmd_GpioPortMode failed'' UnicensCmd_GpioPortMode (gpm_destination c)) s"
| "exec_command L (I2CWrite c) s =
     submit L (Ucs_I2c_WritePort (i2w_destination c) 0x0F00 (i2w_i2cMode c) (i2w_blockCount c)
                 (i2w_slaveAddr c) (i2w_timeout c) (i2w_dataLen c) (i2w_data c))
       (\<lambda>s. let s = command_failed ''Ucs_I2c_WritePort failed'' UnicensCmd_I2CWrite (i2w_destination c) s
            in if i2w_result_fptr c
               then emit (CB_I2CWriteResult False (i2w_i2cMode c) (i2w_destination c)
                      (i2w_slaveAddr c) (i2w_request_ptr c)) s
               else s) s"
| "exec_command L (I2CRead c) s =
     submit L (Ucs_I2c_ReadPort (i2r_destination c) 0x0F00 (i2r_slaveAddr c) (i2r_dataLen c) (i2r_timeout c))
       (command_failed ''Ucs_I2c_ReadPort failed'' UnicensCmd_I2CRead (i2r_destination c)) s"
| "exec_command L (SendAms c) s =
     submit L (Ucs_AmsTx_SendMsg (ams_msg c))
       (\<lambda>s. emit (Lib (Ucs_AmsTx_FreeUnusedMsg (ams_msg c)))
         (command_failed ''Ucs_AmsTx_SendMsg failed'' UnicensCmd_SendAmsMessage
            (ams_destination_address (ams_msg c)) s)) s"
| "exec_command L (PacketFilterMode c) s =
     submit L (Ucs_Network_SetPacketFilterMode (pfm_destination_address c) (pfm_mode c))
       (command_failed ''Ucs_Network_SetPacketFilterMode failed'' UnicensCmd_PacketFilterMode
          (pfm_destination_address c)) s"
| "exec_command L (ProgramNode c) s =
     submit L (Ucs_Supv_ProgramNode (pn_nodePosAddr c) c)
       (command_failed ''UnicensCmd_ProgramNode failed'' UnicensCmd_ProgramNode (pn_nodePosAddr c)) s"
| "exec_command L ProgramExit s =
     bindR (lib_call L Ucs_Supv_ProgramExit s) (\<lambda>(ok, s).
     Inr (True, if ok then s else message UCSI_MsgError ''UnicensCmd_ProgramExit failed'' [] s))"
| "exec_command L (SupvMode c) s =
     submit L (Ucs_Supv_SetMode (supvMode c))
       (command_failed ''UnicensCmd_SupvSetMode failed'' UnicensCmd_SupvSetMode UNKNOWN_NODE_ADDR)
       (message UCSI_MsgDebug (''Setting supervisor mode to '' @ quoted ''%s'')
          [MStr (GetSupervisorModeString (supvMode c))] s)"
| "exec_command L EntryUnknown s = Inr (True, s)"

text \<open>The printer is serviced when it asked for it, with the 16-bit clock.\<close>

definition service_print :: "ucs_lib \<Rightarrow> ucsi \<Rightarrow> ucsi result" where
  "service_print L s =
     (if printTrigger (my s)
      then do_print_service (ucast (lib_time L (trace s)))
             (upd (\<lambda>d. d\<lparr>printTrigger := False\<rparr>) s)
      else Inr s)"

definition service_command :: "ucs_lib \<Rightarrow> ucsi \<Rightarrow> ucsi result" where
  "service_command L s =
     (if currentCmd (my s) \<noteq> None then Inr s else
      case RB_GetReadPtr (rb (my s)) of
        None \<Rightarrow> Inr s
      | Some p \<Rightarrow>
          bindR (RB_read (rb (my s)) p) (\<lambda>e.
          bindR (exec_command L e (upd (\<lambda>d. d\<lparr>currentCmd := Some p\<rparr>) s)) (\<lambda>(popEntry, s).
          Inr (if popEntry
               then upd (\<lambda>d. d\<lparr>currentCmd := None, rb := RB_PopReadPtr (rb d)\<rparr>) s
               else s))))"

definition UCSI_Service :: "ucs_lib \<Rightarrow> ucsi \<Rightarrow> ucsi result" where
  "UCSI_Service L s =
     bindR (if unicens (my s) \<and> triggerService (my s)
            then bindR (lib_call L Ucs_Service (upd (\<lambda>d. d\<lparr>triggerService := False\<rparr>) s)) (\<lambda>(_, s). Inr s)
            else Inr s) (\<lambda>s.
     bindR (service_print L s) (service_command L))"

definition UCSI_Timeout :: "ucs_lib \<Rightarrow> ucsi \<Rightarrow> ucsi result" where
  "UCSI_Timeout L s =
     (if \<not> unicens (my s) then Inr s
      else bindR (lib_call L Ucs_ReportTimeout s) (\<lambda>(_, s). service_print L s))"

end
