(* ===== verification/Ucsi_Inv.thy ===== *)
theory Ucsi_Inv
  imports Ucsi_Api
begin

text \<open>
  The invariant of the integration layer, that every operation and every callback keeps it,
  and that none runs into undefined behaviour.

  The invariant: the queue is a well-formed ring buffer; the command in progress, if any, is
  the oldest entry of the queue; a pending route belongs to a route command in progress; the
  arrays have their sizes; the printer is in order.
\<close>

section \<open>The queue in list terms\<close>

definition pending :: "ucsi \<Rightarrow> UnicensCmdEntry_t list" where
  "pending s = rb_list (rb (my s))"

lemma RB_read_ptr:
  assumes "rb_inv r"
  shows "RB_GetReadPtr r = (if rb_list r = [] then None else Some (pRx r))"
    and "rb_list r \<noteq> [] \<Longrightarrow> RB_read r (pRx r) = Inr (hd (rb_list r))"
proof -
  from assms obtain n s rr c where sh: "rb_shape r n s rr c" by (rule rb_invE)
  have len: "length (rb_list r) = c" and p: "pRx r = rr * s"
    using sh by (simp_all add: rb_list_length rb_shape_def)
  then have c: "(rb_list r = []) = (c = 0)" by auto
  show "RB_GetReadPtr r = (if rb_list r = [] then None else Some (pRx r))"
    unfolding RB_GetReadPtr_Some [OF sh] c p ..
  show "RB_read r (pRx r) = Inr (hd (rb_list r))" if "rb_list r \<noteq> []"
    using RB_read_head [OF sh] that c p by simp
qed

lemma RB_write_ptr:
  assumes "rb_inv r"
  shows "(RB_GetWritePtr r = None) = (length (rb_list r) = rb_capacity r)"
    and "RB_GetWritePtr r = Some e \<Longrightarrow> okR (RB_write r e x) (\<lambda>r'.
      rb_inv (RB_PopWritePtr r') \<and> rb_list (RB_PopWritePtr r') = rb_list r @ [x] \<and>
      pRx (RB_PopWritePtr r') = pRx r \<and> rb_capacity (RB_PopWritePtr r') = rb_capacity r)"
proof -
  from assms obtain n s rr c where sh: "rb_shape r n s rr c" by (rule rb_invE)
  have len: "length (rb_list r) = c" "rb_capacity r = n" "c \<le> n"
    using sh by (simp_all add: rb_list_length rb_shape_def rb_capacity_def)
  show "(RB_GetWritePtr r = None) = (length (rb_list r) = rb_capacity r)"
    using len by (auto simp: RB_GetWritePtr_Some [OF sh])
  assume "RB_GetWritePtr r = Some e"
  then have c: "c < n" and e: "e = ((rr + c) mod n) * s"
    by (auto simp: RB_GetWritePtr_Some [OF sh] split: if_splits)
  show "okR (RB_write r e x) (\<lambda>r'.
      rb_inv (RB_PopWritePtr r') \<and> rb_list (RB_PopWritePtr r') = rb_list r @ [x] \<and>
      pRx (RB_PopWritePtr r') = pRx r \<and> rb_capacity (RB_PopWritePtr r') = rb_capacity r)"
    unfolding e by (rule okR_mono [OF RB_write_pop [OF sh c]])
      (use sh in \<open>auto simp: rb_inv_def rb_shape_def rb_capacity_def\<close>)
qed

lemma RB_pop_ptr:
  assumes "rb_inv r" "rb_list r \<noteq> []"
  shows "rb_inv (RB_PopReadPtr r)" "rb_list (RB_PopReadPtr r) = tl (rb_list r)"
    "rb_capacity (RB_PopReadPtr r) = rb_capacity r"
  using rb.discard_eq [OF assms] by auto

section \<open>The invariant\<close>

definition routes_config_ok :: "Ucs_InitData_t \<Rightarrow> bool" where
  "routes_config_ok i = routes_ok (routes_list_ptr i) (routes_list_size i)"

text \<open>Every queued route command names a route whose ends are known.\<close>

fun entry_ok :: "UnicensCmdEntry_t \<Rightarrow> bool" where
  "entry_ok (RmSetRoute c) = wf_route (rsr_routePtr c)"
| "entry_ok (I2CWrite c) =
     (0 < i2w_dataLen c \<and> unat (i2w_dataLen c) \<le> I2C_WRITE_MAX_LEN \<and>
      length (i2w_data c) = unat (i2w_dataLen c))"
| "entry_ok (ProgramNode c) =
     (pn_data_size c = 14 \<and> parse_ident (take 14 (pn_data c)) \<noteq> None \<and>
      length (pn_data c) = PROGRAM_MAX_DATA_LEN \<and> pn_nodePosAddr c = node_pos_addr (pn_signature c))"
| "entry_ok _ = True"

definition current_ok :: "ucsi \<Rightarrow> bool" where
  "current_ok s = (case currentCmd (my s) of
     None \<Rightarrow> pendingRoutePtr (my s) = None
   | Some p \<Rightarrow> pending s \<noteq> [] \<and> p = pRx (rb (my s)) \<and>
       (\<forall>a. pendingRoutePtr (my s) = Some a \<longrightarrow> cmd (hd (pending s)) = UnicensCmd_RmSetRoute))"

definition my_ok :: "UCSI_Data_t \<Rightarrow> bool" where
  "my_ok d \<longleftrightarrow> rb_inv (rb d) \<and> rb_capacity (rb d) = CMD_QUEUE_LEN \<and>
     length (cableResult d) = MAX_NODES \<and> length (nodes (program d)) = MAX_NODES \<and>
     length (signatureValid (program d)) = MAX_NODES \<and> routes_config_ok (uniInitData d)"

text \<open>What leaves the layer: messages fit a telegram, arrays have the length they are passed with.\<close>

fun out_ok :: "ucsi_out \<Rightarrow> bool" where
  "out_ok (CB_OnTxRequest bytes) = (length bytes \<le> BOARD_PMS_TX_SIZE)"
| "out_ok (CB_OnCableDiagnosisResult arr n) = (unat n \<le> length arr)"
| "out_ok _ = True"

definition outs_ok :: "ucsi \<Rightarrow> bool" where
  "outs_ok s \<longleftrightarrow> (\<forall>x \<in> set (trace s). out_ok x)"

lemma outs_ok_emit [simp]: "outs_ok (emit x s) \<longleftrightarrow> out_ok x \<and> outs_ok s"
  by (auto simp: outs_ok_def emit_def)

lemma outs_ok_upd [simp]: "outs_ok (upd f s) = outs_ok s"
  by (simp add: outs_ok_def upd_def)

lemma outs_ok_message [simp]: "outs_ok (message u fmt a s) = outs_ok s"
  by (simp add: message_def)

lemma outs_ok_pm [simp]: "outs_ok (s\<lparr>pm := m\<rparr>) = outs_ok s"
  by (simp add: outs_ok_def)

definition ucsi_inv :: "u16 set \<Rightarrow> ucsi \<Rightarrow> bool" where
  "ucsi_inv P s \<longleftrightarrow> my_ok (my s) \<and> current_ok s \<and> print_safe P (pm s) \<and>
     (\<forall>e \<in> set (pending s). entry_ok e) \<and> outs_ok s"

section \<open>Steps that do not touch the queue\<close>

text \<open>
  Calls of the printer change the printer, set the print trigger and print lines of the
  table, nothing else.
\<close>

definition print_frame :: "ucsi \<Rightarrow> ucsi \<Rightarrow> bool" where
  "print_frame s s' \<longleftrightarrow>
     (\<exists>b ts. my s' = (my s)\<lparr>printTrigger := b\<rparr> \<and>
        trace s' = trace s @ map CB_OnPrintRouteTable ts)"

lemma print_frame_refl [simp]: "print_frame s s"
  unfolding print_frame_def
  by (intro exI [of _ "printTrigger (my s)"] exI [of _ "[]"]) simp

lemma print_frame_trans: "print_frame s s' \<Longrightarrow> print_frame s' s'' \<Longrightarrow> print_frame s s''"
proof -
  assume "print_frame s s'" "print_frame s' s''"
  then obtain b ts b' ts' where "my s' = (my s)\<lparr>printTrigger := b\<rparr>"
    "trace s' = trace s @ map CB_OnPrintRouteTable ts" "my s'' = (my s')\<lparr>printTrigger := b'\<rparr>"
    "trace s'' = trace s' @ map CB_OnPrintRouteTable ts'" by (auto simp: print_frame_def)
  then show ?thesis unfolding print_frame_def
    by (intro exI [of _ b'] exI [of _ "ts @ ts'"]) simp
qed

lemma UCSIPrint_CB_okR:
  assumes "c \<noteq> NeedService None"
  shows "okR (UCSIPrint_CB c s) (\<lambda>s'. print_frame s s' \<and> pm s' = pm s)"
proof (cases c)
  case (NeedService t)
  with assms obtain u where "c = NeedService (Some u)" by (cases t) auto
  then show ?thesis
    by (auto simp: upd_def print_frame_def intro!: exI [of _ True] exI [of _ "[]"])
next
  case (OnUserMessage t ln)
  then show ?thesis
    by (auto simp: emit_def print_frame_def intro!: exI [of _ "printTrigger (my s)"] exI [of _ "[ln]"])
qed

lemma UCSIPrint_CBs_okR:
  assumes "cbs_tagged cbs"
  shows "okR (foldR UCSIPrint_CB cbs s) (\<lambda>s'. print_frame s s' \<and> pm s' = pm s)"
  using assms
proof (induction cbs arbitrary: s)
  case Nil
  then show ?case by simp
next
  case (Cons c cbs)
  then have "okR (UCSIPrint_CB c s) (\<lambda>s'. print_frame s s' \<and> pm s' = pm s)"
    by (intro UCSIPrint_CB_okR) (auto simp: cbs_tagged_def)
  moreover have "okR (foldR UCSIPrint_CB cbs s') (\<lambda>s''. print_frame s' s'' \<and> pm s'' = pm s')" for s'
    using Cons.prems by (intro Cons.IH) (auto simp: cbs_tagged_def)
  ultimately show ?case
    by (auto simp: okR_ex) (metis print_frame_trans)
qed

lemma do_print_okR:
  assumes "print_keeps P f" and "print_safe P (pm s)"
  shows "okR (do_print f s) (\<lambda>s'. print_frame s s' \<and> pm s' = fst (f (pm s)) \<and> print_safe P (pm s'))"
proof -
  obtain m cbs where f: "f (pm s) = (m, cbs)" by (cases "f (pm s)")
  with assms have "print_safe P m" "cbs_tagged cbs" by (auto simp: print_keeps_def)
  then show ?thesis
    using UCSIPrint_CBs_okR [of cbs "s\<lparr>pm := m\<rparr>"] f
    by (auto simp: do_print_def print_frame_def elim!: okR_mono)
qed

lemma print_frame_inv:
  assumes "print_frame s s'" and "ucsi_inv P s" and "print_safe P (pm s')"
  shows "ucsi_inv P s'"
  using assms by (auto simp: print_frame_def ucsi_inv_def my_ok_def current_ok_def pending_def outs_ok_def
      split: option.splits)

lemma print_frame_fields:
  assumes "print_frame s s'"
  shows "pending s' = pending s" "currentCmd (my s') = currentCmd (my s)" "rb (my s') = rb (my s)"
    "program (my s') = program (my s)" "supvShallMode (my s') = supvShallMode (my s)"
    "uniInitData (my s') = uniInitData (my s)" "initialized (my s') = initialized (my s)"
    "switchOnlyInInactive (my s') = switchOnlyInInactive (my s)"
    "pendingRoutePtr (my s') = pendingRoutePtr (my s)"
  using assms by (auto simp: print_frame_def pending_def)

lemma do_print_inv:
  assumes "print_keeps P f" and "ucsi_inv P s"
  shows "okR (do_print f s) (ucsi_inv P)"
proof -
  have "print_safe P (pm s)" using assms(2) by (simp add: ucsi_inv_def)
  from do_print_okR [OF assms(1) this] show ?thesis
    by (rule okR_mono) (auto intro: print_frame_inv [OF _ assms(2)])
qed

text \<open>Updates of fields the invariant does not mention, and new entries of the trace.\<close>

lemma ucsi_inv_emit [simp]: "ucsi_inv P (emit x s) \<longleftrightarrow> out_ok x \<and> ucsi_inv P s"
  by (auto simp: ucsi_inv_def outs_ok_def emit_def current_ok_def pending_def cong: option.case_cong)

lemma ucsi_inv_message [simp]: "ucsi_inv P (message u f a s) = ucsi_inv P s"
  by (simp add: message_def)

lemma my_emit [simp]: "my (emit x s) = my s" "pm (emit x s) = pm s"
  "my (message u f a s) = my s" "pm (message u f a s) = pm s"
  "trace (emit x s) = trace s @ [x]" "pending (emit x s) = pending s"
  "pending (message u f a s) = pending s"
  "trace (message u f a s) = trace s @ [CB_OnUserMessage u f a]"
  by (simp_all add: emit_def message_def pending_def)

lemma my_upd [simp]: "my (upd f s) = f (my s)" "pm (upd f s) = pm s" "trace (upd f s) = trace s"
  by (simp_all add: upd_def)

section \<open>Putting entries into the queue\<close>

lemma RB_put_okR:
  assumes inv: "ucsi_inv P s" and e: "RB_GetWritePtr (rb (my s)) = Some e" and c: "entry_ok c"
  shows "okR (RB_write (rb (my s)) e c) (\<lambda>r.
    ucsi_inv P (upd (\<lambda>d. d\<lparr>rb := RB_PopWritePtr r\<rparr>) s) \<and>
    pending (upd (\<lambda>d. d\<lparr>rb := RB_PopWritePtr r\<rparr>) s) = pending s @ [c])"
proof -
  have "rb_inv (rb (my s))" using inv by (simp add: ucsi_inv_def my_ok_def)
  from RB_write_ptr(2) [OF this e, of c] show ?thesis
    by (rule okR_mono)
      (use inv c in \<open>auto simp: ucsi_inv_def my_ok_def current_ok_def pending_def
         split: option.splits\<close>)
qed

text \<open>An entry was queued, and only the queue, the printer and the trace changed.\<close>

definition queued :: "UnicensCmdEntry_t \<Rightarrow> ucsi \<Rightarrow> ucsi \<Rightarrow> bool" where
  "queued c s s' \<longleftrightarrow> pending s' = pending s @ [c] \<and>
     (\<exists>r b ts. my s' = (my s)\<lparr>rb := r, printTrigger := b\<rparr> \<and>
        trace s' = trace s @ CB_OnServiceRequired # map CB_OnPrintRouteTable ts)"

lemma enqueue_in_place_okR:
  assumes inv: "ucsi_inv P s" and e: "RB_GetWritePtr (rb (my s)) = Some e" and c: "entry_ok c"
  shows "okR (enqueue_in_place c e s) (\<lambda>s'. ucsi_inv P s' \<and> queued c s s')"
proof -
  obtain r where r: "RB_write (rb (my s)) e c = Inr r"
    "ucsi_inv P (upd (\<lambda>d. d\<lparr>rb := RB_PopWritePtr r\<rparr>) s)"
    "pending (upd (\<lambda>d. d\<lparr>rb := RB_PopWritePtr r\<rparr>) s) = pending s @ [c]"
    using RB_put_okR [OF assms] by (auto simp: okR_ex)
  let ?s = "emit CB_OnServiceRequired (upd (\<lambda>d. d\<lparr>rb := RB_PopWritePtr r\<rparr>) s)"
  have inv': "ucsi_inv P ?s" using r by simp
  then have "print_safe P (pm ?s)" by (simp only: ucsi_inv_def)
  from do_print_okR [OF print_keeps_UnicensActivity this]
  show ?thesis
    unfolding enqueue_in_place_def r(1) bindR_Inr
  proof (rule okR_mono)
    fix s'
    assume a: "print_frame ?s s' \<and> pm s' = fst (UCSIPrint_UnicensActivity (pm ?s)) \<and> print_safe P (pm s')"
    then obtain b ts where "my s' = (my ?s)\<lparr>printTrigger := b\<rparr>"
      "trace s' = trace ?s @ map CB_OnPrintRouteTable ts" by (auto simp: print_frame_def)
    moreover have "pending s' = pending s @ [c]"
      using a r(3) print_frame_fields(1) [of ?s s'] by simp
    ultimately have "queued c s s'"
      unfolding queued_def by (intro conjI exI [of _ "RB_PopWritePtr r"] exI [of _ b] exI [of _ ts]) simp_all
    then show "ucsi_inv P s' \<and> queued c s s'"
      using a print_frame_inv [OF _ inv'] by blast
  qed
qed

lemma EnqueueCommand_eq:
  "EnqueueCommand c s = (case RB_GetWritePtr (rb (my s)) of
     None \<Rightarrow> Inr (False, message UCSI_MsgError
       ''Could not enqueue command. Increase CMD_QUEUE_LEN define'' [] s)
   | Some e \<Rightarrow> bindR (enqueue_in_place c e s) (\<lambda>s. Inr (True, s)))"
  by (simp add: EnqueueCommand_def enqueue_in_place_def bindR_assoc Let_def split: option.split)

definition queue_full :: "ucsi \<Rightarrow> bool" where
  "queue_full s = (length (pending s) = CMD_QUEUE_LEN)"

lemma GetWritePtr_full: "ucsi_inv P s \<Longrightarrow> (RB_GetWritePtr (rb (my s)) = None) = queue_full s"
  by (simp add: ucsi_inv_def my_ok_def RB_write_ptr(1) queue_full_def pending_def)

lemma EnqueueCommand_okR:
  assumes inv: "ucsi_inv P s" and c: "entry_ok c"
  shows "okR (EnqueueCommand c s) (\<lambda>(ok, s'). ucsi_inv P s' \<and>
    (if queue_full s then \<not> ok \<and> s' = message UCSI_MsgError
       ''Could not enqueue command. Increase CMD_QUEUE_LEN define'' [] s
     else ok \<and> queued c s s'))"
proof (cases "RB_GetWritePtr (rb (my s))")
  case None
  then show ?thesis using inv GetWritePtr_full [OF inv] by (simp add: EnqueueCommand_eq)
next
  case (Some e)
  then have "\<not> queue_full s" using GetWritePtr_full [OF inv] by simp
  then show ?thesis
    using enqueue_in_place_okR [OF inv Some c] Some by (simp add: EnqueueCommand_eq)
qed

lemma EnqueueCommand_inv:
  "ucsi_inv P s \<Longrightarrow> entry_ok c \<Longrightarrow> okR (EnqueueCommand c s) (\<lambda>(ok, s'). ucsi_inv P s')"
  by (rule okR_mono [OF EnqueueCommand_okR]) auto

section \<open>Completing the command in progress\<close>

lemma current_read:
  assumes "ucsi_inv P s" "currentCmd (my s) = Some p"
  shows "pending s \<noteq> []" "RB_read (rb (my s)) p = Inr (hd (pending s))"
  using assms RB_read_ptr(2) [of "rb (my s)"]
  by (auto simp: ucsi_inv_def my_ok_def current_ok_def pending_def)

lemma ucsi_inv_pop:
  assumes inv: "ucsi_inv P s" and ne: "pending s \<noteq> []" and route: "pendingRoutePtr (my s) = None"
  shows "ucsi_inv P (upd (\<lambda>d. d\<lparr>currentCmd := None, rb := RB_PopReadPtr (rb d)\<rparr>) s)"
    and "pending (upd (\<lambda>d. d\<lparr>currentCmd := None, rb := RB_PopReadPtr (rb d)\<rparr>) s) = tl (pending s)"
proof -
  have "rb_inv (rb (my s))" using inv by (simp add: ucsi_inv_def my_ok_def)
  from RB_pop_ptr [OF this] ne inv route
  show "ucsi_inv P (upd (\<lambda>d. d\<lparr>currentCmd := None, rb := RB_PopReadPtr (rb d)\<rparr>) s)"
    and "pending (upd (\<lambda>d. d\<lparr>currentCmd := None, rb := RB_PopReadPtr (rb d)\<rparr>) s) = tl (pending s)"
    by (auto simp: ucsi_inv_def my_ok_def current_ok_def pending_def dest: list.set_sel(2))
qed

text \<open>
  The outcome of a completion: without a command in progress, or with another one, only a
  message; else the command is removed and its result reported once.
\<close>

definition completed :: "UnicensCmd_t \<Rightarrow> bool \<Rightarrow> ucsi \<Rightarrow> ucsi \<Rightarrow> bool" where
  "completed c success s s' \<longleftrightarrow>
     (if currentCmd (my s) \<noteq> None \<and> cmd (hd (pending s)) = c
      then currentCmd (my s') = None \<and> pending s' = tl (pending s) \<and>
        (\<exists>r b ts. my s' = (my s)\<lparr>currentCmd := None, rb := r, printTrigger := b\<rparr> \<and>
           trace s' = trace s @ map CB_OnPrintRouteTable ts @
             [CB_OnCommandResult c success (command_node (hd (pending s)))])
      else my s' = my s \<and> pm s' = pm s \<and>
        (\<exists>f args. trace s' = trace s @ [CB_OnUserMessage UCSI_MsgError f args]))"

lemma inv_without_route:
  "ucsi_inv P s \<Longrightarrow> ucsi_inv P (upd (\<lambda>d. d\<lparr>pendingRoutePtr := None\<rparr>) s)"
  by (auto simp: ucsi_inv_def my_ok_def current_ok_def pending_def split: option.splits)

lemma OnCommandExecuted_okR:
  assumes inv: "ucsi_inv P s"
  shows "okR (OnCommandExecuted c success s) (\<lambda>s'. completed c success s s' \<and>
    (pendingRoutePtr (my s) = None \<longrightarrow> ucsi_inv P s') \<and>
    ucsi_inv P (upd (\<lambda>d. d\<lparr>pendingRoutePtr := None\<rparr>) s'))"
proof (cases "currentCmd (my s)")
  case None
  then show ?thesis using inv
    by (auto simp: OnCommandExecuted_def completed_def intro!: inv_without_route)
next
  case (Some p)
  note rd = current_read [OF inv Some]
  show ?thesis
  proof (cases "cmd (hd (pending s)) = c")
    case False
    then show ?thesis using inv Some rd
      by (auto simp: OnCommandExecuted_def completed_def ucsi_inv_def my_ok_def current_ok_def pending_def)
  next
    case True
    have "print_safe P (pm s)" using inv by (simp add: ucsi_inv_def)
    from do_print_okR [OF print_keeps_UnicensActivity this] obtain s1
      where s1: "do_print UCSIPrint_UnicensActivity s = Inr s1" "print_frame s s1" "print_safe P (pm s1)"
      by (auto simp: okR_ex)
    have inv1: "ucsi_inv P s1" using print_frame_inv [OF s1(2) inv s1(3)] .
    then have inv2: "ucsi_inv P (upd (\<lambda>d. d\<lparr>pendingRoutePtr := None\<rparr>) s1)"
      by (auto simp: ucsi_inv_def my_ok_def current_ok_def pending_def split: option.splits)
    let ?x = "CB_OnCommandResult c success (command_node (hd (pending s)))"
    let ?pop = "upd (\<lambda>d. d\<lparr>currentCmd := None, rb := RB_PopReadPtr (rb d)\<rparr>)"
    have ne: "pending s1 \<noteq> []" using rd(1) print_frame_fields(1) [OF s1(2)] by simp
    have res: "OnCommandExecuted c success s = Inr (?pop (emit ?x s1))"
      using Some rd True s1(1) by (simp add: OnCommandExecuted_def Let_def)
    have swap: "upd (\<lambda>d. d\<lparr>pendingRoutePtr := None\<rparr>) (?pop (emit ?x s1))
        = ?pop (emit ?x (upd (\<lambda>d. d\<lparr>pendingRoutePtr := None\<rparr>) s1))"
      by (simp add: upd_def emit_def)
    have "pending (?pop (emit ?x s1)) = tl (pending s)"
      using ne inv1 RB_pop_ptr(2) [of "rb (my s1)"] print_frame_fields(1) [OF s1(2)]
      by (simp add: pending_def ucsi_inv_def my_ok_def)
    moreover obtain b ts where "my s1 = (my s)\<lparr>printTrigger := b\<rparr>"
      "trace s1 = trace s @ map CB_OnPrintRouteTable ts" using s1(2) by (auto simp: print_frame_def)
    ultimately have "completed c success s (?pop (emit ?x s1))"
      using Some True unfolding completed_def
      by (auto intro!: exI [of _ "RB_PopReadPtr (rb (my s1))"] exI [of _ b] exI [of _ ts])
    moreover have "ucsi_inv P (?pop (emit ?x (upd (\<lambda>d. d\<lparr>pendingRoutePtr := None\<rparr>) s1)))"
      using inv2 ne by (intro ucsi_inv_pop) (simp_all add: pending_def)
    moreover have "ucsi_inv P (?pop (emit ?x s1))" if "pendingRoutePtr (my s) = None"
      using inv1 ne that print_frame_fields(9) [OF s1(2)] by (intro ucsi_inv_pop) simp_all
    ultimately show ?thesis by (simp add: res swap)
  qed
qed

lemma ucsi_inv_same: "ucsi_inv P s \<Longrightarrow> my s' = my s \<Longrightarrow> pm s' = pm s \<Longrightarrow> outs_ok s' \<Longrightarrow> ucsi_inv P s'"
  by (simp add: ucsi_inv_def current_ok_def pending_def cong: option.case_cong)

lemma OnCommandExecuted_inv:
  assumes inv: "ucsi_inv P s" and c: "c \<noteq> UnicensCmd_RmSetRoute"
  shows "okR (OnCommandExecuted c success s) (\<lambda>s'. ucsi_inv P s' \<and> completed c success s s')"
proof (rule okR_mono [OF OnCommandExecuted_okR [OF inv]])
  fix s'
  assume a: "completed c success s s' \<and> (pendingRoutePtr (my s) = None \<longrightarrow> ucsi_inv P s') \<and>
    ucsi_inv P (upd (\<lambda>d. d\<lparr>pendingRoutePtr := None\<rparr>) s')"
  show "ucsi_inv P s' \<and> completed c success s s'"
  proof (cases "pendingRoutePtr (my s)")
    case None
    with a show ?thesis by simp
  next
    case (Some r)
    then have "currentCmd (my s) \<noteq> None" "cmd (hd (pending s)) = UnicensCmd_RmSetRoute"
      using inv by (auto simp: ucsi_inv_def current_ok_def split: option.splits)
    with a c have "my s' = my s" "pm s' = pm s" by (auto simp: completed_def split: if_splits)
    moreover have "outs_ok s'" using a by (simp add: ucsi_inv_def)
    ultimately have "ucsi_inv P s'" by (rule ucsi_inv_same [OF inv])
    then show ?thesis using a by simp
  qed
qed

lemma ucsi_inv_upd:
  assumes "ucsi_inv P s"
    and "rb (f (my s)) = rb (my s)" "cableResult (f (my s)) = cableResult (my s)"
    and "program (f (my s)) = program (my s)" "uniInitData (f (my s)) = uniInitData (my s)"
    and "currentCmd (f (my s)) = currentCmd (my s)" "pendingRoutePtr (f (my s)) = pendingRoutePtr (my s)"
  shows "ucsi_inv P (upd f s)"
  using assms by (simp add: ucsi_inv_def my_ok_def current_ok_def pending_def cong: option.case_cong)

section \<open>The callbacks\<close>

text \<open>
  What the library keeps when it calls back (its documentation): a telegram is as long as it
  says and fits the trace buffer, the buffers of a message are as long as they say, a route
  result names a route, a cable diagnosis result with a signature has a position from 1 on.
  Node reports come from the positions \<open>P\<close>.
\<close>

fun event_ok :: "u16 set \<Rightarrow> ucs_event \<Rightarrow> bool" where
  "event_ok P (EvDebugErrorMsg m) = (case tel_data_ptr m of None \<Rightarrow> True
     | Some bytes \<Rightarrow> unat (tel_len m) \<le> length bytes \<and> unat (tel_len m) \<le> 35)"
| "event_ok P (EvLldTxTransmit m) = (case m of None \<Rightarrow> True
     | Some bufs \<Rightarrow> \<forall>b \<in> set bufs. unat (mb_data_size b) \<le> length (mb_data_ptr b))"
| "event_ok P (EvRoutingResult r i) = (r \<noteq> None)"
| "event_ok P (EvHdxReport r) = (hdx_signature_ptr r \<noteq> None \<longrightarrow> hdx_position r \<noteq> 0)"
| "event_ok P (EvSupvReport c sg n) = (node_pos_addr sg \<in> P)"
| "event_ok P _ = True"

lemma telegram_okR:
  assumes "length bytes \<le> 35"
  shows "okR (telegram_text bytes) (\<lambda>t. length t = 3 * length bytes)"
proof -
  have len: "length (fmt_X 2 (unat b) @ '' '') = 3" for b :: u8
  proof -
    have "unat b < 16 ^ Suc 1" using unsigned_less [of b, where ?'a = nat] by simp
    then show ?thesis using length_hex_digits [of "unat b" 1] by (simp add: fmt_X_def pad_zero_def)
  qed
  have "okR (foldR (\<lambda>b buf. strcatR TRACE_BUFFER_SZ buf (fmt_X 2 (unat b) @ '' '')) bytes buf)
      (\<lambda>t. length t = length buf + 3 * length bytes)"
    if "length buf + 3 * length bytes < TRACE_BUFFER_SZ" for buf
    using that
  proof (induction bytes arbitrary: buf)
    case Nil
    then show ?case by simp
  next
    case (Cons b bytes)
    have l: "length (buf @ fmt_X 2 (unat b) @ '' '') = length buf + 3" using len [of b] by simp
    have "okR (foldR (\<lambda>b buf. strcatR TRACE_BUFFER_SZ buf (fmt_X 2 (unat b) @ '' '')) bytes
        (buf @ fmt_X 2 (unat b) @ '' ''))
      (\<lambda>t. length t = length (buf @ fmt_X 2 (unat b) @ '' '') + 3 * length bytes)"
      by (rule Cons.IH) (use Cons.prems l in simp)
    then show ?case using Cons.prems l len [of b]
      by (auto simp: strcatR_okR elim!: okR_mono)
  qed
  from this [of "[]"] show ?thesis using assms by (simp add: telegram_text_def TRACE_BUFFER_SZ_def)
qed

text \<open>The bytes of a chain of buffers.\<close>

definition chain_bytes :: "Ucs_Mem_Buffer_t list \<Rightarrow> u8 list" where
  "chain_bytes bufs = concat (map (\<lambda>b. take (unat (mb_data_size b)) (mb_data_ptr b)) bufs)"

lemma tx_gather_okR:
  assumes "\<forall>b \<in> set bufs. unat (mb_data_size b) \<le> length (mb_data_ptr b)"
    and "length acc \<le> BOARD_PMS_TX_SIZE"
  shows "okR (tx_gather bufs acc) (\<lambda>r. case r of
     Inr bytes \<Rightarrow> bytes = acc @ chain_bytes bufs \<and> length bytes \<le> BOARD_PMS_TX_SIZE
   | Inl n \<Rightarrow> BOARD_PMS_TX_SIZE < n \<and> BOARD_PMS_TX_SIZE < length (acc @ chain_bytes bufs))"
  using assms
proof (induction bufs arbitrary: acc)
  case Nil
  then show ?case by (simp add: chain_bytes_def)
next
  case (Cons b bufs)
  show ?case
  proof (cases "unat (mb_data_size b) + length acc > BOARD_PMS_TX_SIZE")
    case True
    then show ?thesis using Cons.prems by (simp add: Let_def chain_bytes_def)
  next
    case False
    have "okR (tx_gather bufs (acc @ take (unat (mb_data_size b)) (mb_data_ptr b))) (\<lambda>r. case r of
       Inr bytes \<Rightarrow> bytes = (acc @ take (unat (mb_data_size b)) (mb_data_ptr b)) @ chain_bytes bufs
         \<and> length bytes \<le> BOARD_PMS_TX_SIZE
     | Inl n \<Rightarrow> BOARD_PMS_TX_SIZE < n \<and> BOARD_PMS_TX_SIZE <
         length ((acc @ take (unat (mb_data_size b)) (mb_data_ptr b)) @ chain_bytes bufs))"
      using Cons.prems False by (intro Cons.IH) auto
    then show ?thesis using False Cons.prems
      by (auto simp: Let_def chain_bytes_def elim!: okR_mono split: sum.splits)
  qed
qed

text \<open>Composition: a step that keeps the invariant, then another.\<close>

lemma inv_seq:
  "okR m (ucsi_inv P) \<Longrightarrow> (\<And>s. ucsi_inv P s \<Longrightarrow> okR (f s) (ucsi_inv P)) \<Longrightarrow> okR (bindR m f) (ucsi_inv P)"
  by (auto elim: okR_mono)

lemma inv_seq_pair:
  "okR m (\<lambda>(ok, s). ucsi_inv P s) \<Longrightarrow> (\<And>ok s. ucsi_inv P s \<Longrightarrow> okR (f (ok, s)) (ucsi_inv P))
    \<Longrightarrow> okR (bindR m f) (ucsi_inv P)"
  by (auto elim!: okR_mono)

lemma executed_inv:
  "ucsi_inv P s \<Longrightarrow> c \<noteq> UnicensCmd_RmSetRoute \<Longrightarrow> okR (OnCommandExecuted c success s) (ucsi_inv P)"
  by (rule okR_mono [OF OnCommandExecuted_inv]) auto

lemma OnUnicensError_inv: "ucsi_inv P s \<Longrightarrow> okR (OnUnicensError c s) (ucsi_inv P)"
  unfolding OnUnicensError_def by (rule inv_seq_pair, rule EnqueueCommand_inv) simp_all

lemma OnUnicensService_inv: "ucsi_inv P s \<Longrightarrow> okR (OnUnicensService s) (ucsi_inv P)"
  by (simp add: OnUnicensService_def ucsi_inv_upd)

lemma OnUnicensDebugErrorMsg_inv:
  "ucsi_inv P s \<Longrightarrow> event_ok P (EvDebugErrorMsg m) \<Longrightarrow> okR (OnUnicensDebugErrorMsg m s) (ucsi_inv P)"
  by (cases "tel_data_ptr m")
    (auto simp: OnUnicensDebugErrorMsg_def intro!: okR_mono [OF telegram_okR])

lemma OnLldCtrlStart_inv: "ucsi_inv P s \<Longrightarrow> okR (OnLldCtrlStart a i s) (ucsi_inv P)"
  by (simp add: OnLldCtrlStart_def ucsi_inv_upd)

lemma OnLldCtrlStop_inv: "ucsi_inv P s \<Longrightarrow> okR (OnLldCtrlStop s) (ucsi_inv P)"
  unfolding OnLldCtrlStop_def
  by (intro inv_seq do_print_inv print_keeps_SetNetworkAvailable ucsi_inv_upd) simp_all

lemma OnLldCtrlTxTransmitC_inv:
  "ucsi_inv P s \<Longrightarrow> event_ok P (EvLldTxTransmit m) \<Longrightarrow> okR (OnLldCtrlTxTransmitC m s) (ucsi_inv P)"
  by (cases m) (auto simp: OnLldCtrlTxTransmitC_def split: sum.split intro!: okR_mono [OF tx_gather_okR])

lemma OnUnicensRoutingResult_inv:
  assumes inv: "ucsi_inv P s" and r: "r \<noteq> None"
  shows "okR (OnUnicensRoutingResult L r i s) (ucsi_inv P)"
proof -
  obtain route where route: "r = Some route" using r by auto
  let ?first = "if map_option route_addr r = pendingRoutePtr (my s) then
              bindR (derefR (currentCmd (my s))) (\<lambda>p.
              bindR (RB_read (rb (my s)) p) (\<lambda>e.
              bindR (OnCommandExecuted UnicensCmd_RmSetRoute
                       (if rmSetRoute_isActive e then i = UCS_RM_ROUTE_INFOS_BUILT
                        else i = UCS_RM_ROUTE_INFOS_DESTROYED) s) (\<lambda>s.
              Inr (upd (\<lambda>d. d\<lparr>pendingRoutePtr := None\<rparr>) s))))
            else Inr s"
  have "okR ?first (ucsi_inv P)"
  proof (cases "map_option route_addr r = pendingRoutePtr (my s)")
    case True
    with route have pend: "pendingRoutePtr (my s) = Some (route_addr route)" by simp
    then obtain p where p: "currentCmd (my s) = Some p"
      using inv by (auto simp: ucsi_inv_def current_ok_def split: option.splits)
    show ?thesis
      using True p current_read(2) [OF inv p]
      by (auto intro!: okR_mono [OF OnCommandExecuted_okR [OF inv]])
  qed (use inv in simp)
  then show ?thesis
    unfolding OnUnicensRoutingResult_def
    by (rule inv_seq)
      (auto simp: route Let_def intro!: inv_seq do_print_inv print_keeps_SetRouteState)
qed

lemma ucsi_inv_lengths:
  "ucsi_inv P s \<Longrightarrow> length (nodes (program (my s))) = MAX_NODES"
  "ucsi_inv P s \<Longrightarrow> length (signatureValid (program (my s))) = MAX_NODES"
  "ucsi_inv P s \<Longrightarrow> length (cableResult (my s)) = MAX_NODES"
  by (simp_all add: ucsi_inv_def my_ok_def)

lemma ucsi_inv_upd_arrays:
  assumes "ucsi_inv P s" and "rb (f (my s)) = rb (my s)"
    and "length (cableResult (f (my s))) = MAX_NODES" "length (nodes (program (f (my s)))) = MAX_NODES"
    and "length (signatureValid (program (f (my s)))) = MAX_NODES"
    and "uniInitData (f (my s)) = uniInitData (my s)"
    and "currentCmd (f (my s)) = currentCmd (my s)" "pendingRoutePtr (f (my s)) = pendingRoutePtr (my s)"
  shows "ucsi_inv P (upd f s)"
  using assms by (simp add: ucsi_inv_def my_ok_def current_ok_def pending_def cong: option.case_cong)

lemma SetFoundNodeCount_inv: "ucsi_inv P s \<Longrightarrow> ucsi_inv P (ProgrammingSetFoundNodeCount n s)"
  by (simp add: ProgrammingSetFoundNodeCount_def Let_def ucsi_inv_lengths ucsi_inv_upd_arrays)

lemma OnUnicensNetworkStatus_inv: "ucsi_inv P s \<Longrightarrow> okR (OnUnicensNetworkStatus a p b s) (ucsi_inv P)"
  unfolding OnUnicensNetworkStatus_def
  by (intro inv_seq do_print_inv print_keeps_SetNetworkAvailable SetFoundNodeCount_inv) simp_all

lemma OnUnicensDebugXrmResources_inv:
  "ucsi_inv P s \<Longrightarrow> okR (OnUnicensDebugXrmResources t r i e s) (ucsi_inv P)"
  by (cases r; cases "xrm_state i"; cases "xrm_format t (the r)")
    (auto simp: OnUnicensDebugXrmResources_def Let_def
      intro!: okR_mono [OF do_print_inv [OF print_keeps_SetObjectState]])

lemma OnUcsInitResult_inv: "ucsi_inv P s \<Longrightarrow> okR (OnUcsInitResult r ok s) (ucsi_inv P)"
  unfolding OnUcsInitResult_def
  by (rule inv_seq, rule executed_inv)
    (auto simp: ucsi_inv_upd intro!: okR_mono [OF EnqueueCommand_inv])

lemma OnUcsStopResult_inv: "ucsi_inv P s \<Longrightarrow> okR (OnUcsStopResult ok s) (ucsi_inv P)"
  unfolding OnUcsStopResult_def
  by (rule inv_seq, rule executed_inv) (simp_all add: ucsi_inv_upd)

lemma UCSI_CB_OnMgrReport_inv: "ucsi_inv P s \<Longrightarrow> okR (UCSI_CB_OnMgrReport c sg n s) (ucsi_inv P)"
  unfolding UCSI_CB_OnMgrReport_def UCSI_EnablePromiscuousMode_def Let_def
  by (auto simp: ucsi_inv_emit intro!: okR_mono [OF EnqueueCommand_inv])

lemma OnUcsSupvReport_inv:
  "ucsi_inv P s \<Longrightarrow> event_ok P (EvSupvReport c sg n) \<Longrightarrow> okR (OnUcsSupvReport c sg n s) (ucsi_inv P)"
  unfolding OnUcsSupvReport_def
  by (auto intro!: inv_seq okR_mono [OF do_print_inv [OF print_keeps_SetNodeAvailable]] UCSI_CB_OnMgrReport_inv
      split: prod.split option.split)

lemma OnUcsGpioTrigger_inv: "ucsi_inv P s \<Longrightarrow> okR (OnUcsGpioTriggerEventStatus a r f s) (ucsi_inv P)"
proof -
  assume inv: "ucsi_inv P s"
  have "ucsi_inv P (fold (\<lambda>i s. let s = (if drop_bit i r AND 1 \<noteq> 0
                 then emit (CB_OnGpioStateChange a (of_nat i) True) s else s)
        in if drop_bit i f AND 1 \<noteq> 0
           then emit (CB_OnGpioStateChange a (of_nat i) False) s else s) is s)" for "is"
    using inv by (induction "is" arbitrary: s) (auto simp: Let_def)
  then show ?thesis by (simp add: OnUcsGpioTriggerEventStatus_def)
qed

lemma OnUcsI2CWrite_inv: "ucsi_inv P s \<Longrightarrow> okR (OnUcsI2CWrite a ok s) (ucsi_inv P)"
  unfolding OnUcsI2CWrite_def
  by (cases "currentCmd (my s)")
    (auto simp: current_read split: UnicensCmdEntry_t.split intro!: executed_inv)

lemma OnUcsI2CRead_inv: "ucsi_inv P s \<Longrightarrow> okR (OnUcsI2CRead a sl n d ok s) (ucsi_inv P)"
  unfolding OnUcsI2CRead_def by (rule inv_seq, rule executed_inv) simp_all

lemma OnUcsAmsWrite_inv: "ucsi_inv P s \<Longrightarrow> okR (OnUcsAmsWrite ok r i s) (ucsi_inv P)"
  unfolding OnUcsAmsWrite_def by (rule inv_seq, rule executed_inv) simp_all

lemma OnUcsPacketFilterMode_inv: "ucsi_inv P s \<Longrightarrow> okR (OnUcsPacketFilterMode c ok s) (ucsi_inv P)"
  unfolding OnUcsPacketFilterMode_def by (rule inv_seq, rule executed_inv) simp_all

lemma OnProgramResult_inv: "ucsi_inv P s \<Longrightarrow> okR (OnProgramResult c ok s) (ucsi_inv P)"
  unfolding OnProgramResult_def by (rule inv_seq, rule executed_inv) simp_all

lemma enqueue_in_place_inv:
  assumes "ucsi_inv P s" "RB_GetWritePtr (rb (my s)) = Some e" "entry_ok c"
  shows "okR (enqueue_in_place c e s) (ucsi_inv P)"
  by (rule okR_mono [OF enqueue_in_place_okR [OF assms]]) simp

lemma OnSupvModeReport_inv:
  assumes inv: "ucsi_inv P s"
  shows "okR (OnSupvModeReport mode st s) (ucsi_inv P)"
proof -
  let ?s = "message UCSI_MsgDebug (''Supervisor mode='' @ quoted ''%s'' @ '', state='' @ quoted ''%s'')
              [MStr (GetSupervisorModeString mode), MStr (supv_state_string st)]
              (if st = UCS_SUPV_STATE_BUSY \<and> mode = UCS_SUPV_MODE_DIAGNOSIS
               then upd (\<lambda>d. d\<lparr>cableResult := replicate MAX_NODES 0\<rparr>) s else s)"
  have inv1: "ucsi_inv P ?s" using inv by (simp add: ucsi_inv_upd_arrays ucsi_inv_lengths)
  have first: "okR (case currentCmd (my ?s) of
                  None \<Rightarrow> Inr ?s
                | Some p \<Rightarrow> bindR (RB_read (rb (my ?s)) p) (\<lambda>e.
                    if cmd e = UnicensCmd_SupvSetMode
                    then OnCommandExecuted UnicensCmd_SupvSetMode True ?s else Inr ?s)) (ucsi_inv P)"
  proof (cases "currentCmd (my ?s)")
    case None
    then show ?thesis using inv1 by simp
  next
    case (Some p)
    then show ?thesis using inv1 current_read(2) [OF inv1 Some] by (auto intro: executed_inv)
  qed
  show ?thesis
    unfolding OnSupvModeReport_def Let_def
  proof (cases "st = UCS_SUPV_STATE_READY")
    case False
    then show "okR (if st \<noteq> UCS_SUPV_STATE_READY then Inr ?s else x) (ucsi_inv P)" for x
      using inv1 by simp
  next
    case True
    note inv_upd = ucsi_inv_upd [where f = "\<lambda>d. d\<lparr>switchOnlyInInactive := False\<rparr>"]
    show "okR (if st \<noteq> UCS_SUPV_STATE_READY then Inr ?s else
         bindR (case currentCmd (my ?s) of
                  None \<Rightarrow> Inr ?s
                | Some p \<Rightarrow> bindR (RB_read (rb (my ?s)) p) (\<lambda>e.
                    if cmd e = UnicensCmd_SupvSetMode
                    then OnCommandExecuted UnicensCmd_SupvSetMode True ?s else Inr ?s)) (\<lambda>s.
         if (\<not> switchOnlyInInactive (my s) \<or>
                      switchOnlyInInactive (my s) \<and> mode = UCS_SUPV_MODE_INACTIVE)
            \<and> supvShallMode (my s) \<noteq> mode then
              case RB_GetWritePtr (rb (my (upd (\<lambda>d. d\<lparr>switchOnlyInInactive := False\<rparr>) s))) of
                   None \<Rightarrow> Inr (message UCSI_MsgError
                     ''Could not enqueue SupvMode command. Increase CMD_QUEUE_LEN define'' []
                     (upd (\<lambda>d. d\<lparr>switchOnlyInInactive := False\<rparr>) s))
                 | Some e \<Rightarrow> enqueue_in_place (SupvMode \<lparr>supvMode = supvShallMode (my
                     (upd (\<lambda>d. d\<lparr>switchOnlyInInactive := False\<rparr>) s))\<rparr>) e
                     (upd (\<lambda>d. d\<lparr>switchOnlyInInactive := False\<rparr>) s)
            else Inr s)) (ucsi_inv P)"
      using True first by (simp only: if_False not_True_eq_False simp_thms)
        (rule inv_seq, assumption,
          auto split: option.split intro!: enqueue_in_place_inv inv_upd)
  qed
qed

lemma unat_of_nat_le: "unat (of_nat n :: 'a::len word) \<le> n"
  by (simp add: unat_of_nat take_bit_eq_mod)

lemma cable_result_ok:
  "ucsi_inv P s \<Longrightarrow> unat (of_nat (length (takeWhile p (cableResult (my s)))) :: u8) \<le> MAX_NODES"
  using order_trans [OF unat_of_nat_le length_takeWhile_le [of p "cableResult (my s)"]]
  by (simp add: ucsi_inv_lengths)

lemma OnHdxReport_inv:
  "ucsi_inv P s \<Longrightarrow> event_ok P (EvHdxReport r) \<Longrightarrow> okR (OnHdxReport r s) (ucsi_inv P)"
  unfolding OnHdxReport_def
  by (rule inv_seq)
    (auto simp: ucsi_inv_lengths ucsi_inv_upd ucsi_inv_upd_arrays cable_result_ok split: option.split)

lemma program_entry_okR:
  "okR (program_entry pst node ident) entry_ok"
proof -
  have "14 \<le> length (replicate PROGRAM_MAX_DATA_LEN (0 :: u8))" by (simp add: PROGRAM_MAX_DATA_LEN_def)
  from ident_okR [OF this, of ident] show ?thesis
    by (auto simp: program_entry_def elim!: okR_mono)
qed

lemma leave_programming_inv: "ucsi_inv P s \<Longrightarrow> okR (leave_programming s) (ucsi_inv P)"
  unfolding leave_programming_def ProgrammingExit_def
  by (rule inv_seq_pair, rule EnqueueCommand_inv) (simp_all add: ucsi_inv_upd)

lemma signature_stored_inv: "ucsi_inv P s \<Longrightarrow> ucsi_inv P (signature_stored sg s)"
  by (simp add: signature_stored_def Let_def ucsi_inv_upd_arrays ucsi_inv_lengths)

lemma queue_program_inv: "ucsi_inv P s \<Longrightarrow> okR (queue_program node ident s) (ucsi_inv P)"
  by (auto simp: queue_program_def program_message_def split: option.split
      intro!: okR_mono [OF program_entry_okR] enqueue_in_place_inv)

text \<open>The count of signatures is at most 32, and so is the number of nodes looked at.\<close>

lemma discovery_total:
  assumes inv: "ucsi_inv P s" and cnt: "ProgrammingGetNodeCount s = trigger"
  shows "okR (UCSI_CB_OnProgrammingModeDeviceDiscovery (nodes (program (my s))) (ucast trigger))
    (\<lambda>answer. 2 \<le> unat trigger \<longrightarrow> unat trigger \<le> MAX_NODES \<and>
       discovery_spec (take (unat trigger) (nodes (program (my s)))) answer)"
proof (cases "2 \<le> unat trigger")
  case False
  then show ?thesis
    by (simp add: UCSI_CB_OnProgrammingModeDeviceDiscovery_def word_less_nat_alt)
next
  case True
  have "length (takeWhile id (signatureValid (program (my s)))) \<le> 32"
    using length_takeWhile_le [of id "signatureValid (program (my s))"]
      ucsi_inv_lengths(2) [OF inv] by (simp add: MAX_NODES_def)
  then have "unat trigger \<le> 32"
    unfolding cnt [symmetric]
    by (simp add: ProgrammingGetNodeCount_def unat_of_nat take_bit_eq_mod)
  then show ?thesis
    using True discovery_prefix [of "ucast trigger" "nodes (program (my s))"]
      ucsi_inv_lengths(1) [OF inv]
    by (auto simp: MAX_NODES_def elim!: okR_mono)
qed

lemma check_programming_inv: "ucsi_inv P s \<Longrightarrow> okR (check_programming s) (ucsi_inv P)"
  unfolding check_programming_def Let_def
  by (auto intro!: okR_mono [OF discovery_total] leave_programming_inv queue_program_inv
      split: option.split)

lemma ProgrammingStoreSignature_inv: "ucsi_inv P s \<Longrightarrow> okR (ProgrammingStoreSignature sg s) (ucsi_inv P)"
  by (cases sg) (auto simp: ProgrammingStoreSignature_def check_programming_inv signature_stored_inv)

lemma OnProgramEvent_inv: "ucsi_inv P s \<Longrightarrow> okR (OnProgramEvent c s) (ucsi_inv P)"
  by (simp add: OnProgramEvent_def Let_def ucsi_inv_lengths ucsi_inv_upd_arrays)

lemma OnNetworkAlive_inv: "ucsi_inv P s \<Longrightarrow> okR (OnNetworkAlive r s) (ucsi_inv P)"
  by (auto simp: OnNetworkAlive_def split: option.split)

lemmas callback_inv =
  OnUnicensService_inv OnUnicensError_inv OnUnicensDebugErrorMsg_inv OnLldCtrlStart_inv
  OnLldCtrlStop_inv OnLldCtrlTxTransmitC_inv OnUnicensRoutingResult_inv
  OnUnicensNetworkStatus_inv OnUnicensDebugXrmResources_inv OnUcsInitResult_inv
  OnUcsStopResult_inv OnUcsSupvReport_inv OnUcsGpioTrigger_inv OnUcsI2CWrite_inv
  OnUcsI2CRead_inv OnUcsAmsWrite_inv OnUcsPacketFilterMode_inv OnSupvModeReport_inv
  OnHdxReport_inv ProgrammingStoreSignature_inv OnProgramEvent_inv OnProgramResult_inv
  OnNetworkAlive_inv executed_inv

lemma handle_event_inv:
  "ucsi_inv P s \<Longrightarrow> event_ok P ev \<Longrightarrow> okR (handle_event L ev s) (ucsi_inv P)"
  by (cases ev)
    (simp_all add: callback_inv OnUnicensAppTimer_def OnLldResetInic_def OnLldCtrlRxMsgAvailable_def
      OnUcsGpioPortCreate_def OnUcsGpioPortWrite_def OnUcsGpioPinMode_def OnUcsNsRun_def
      OnUcsAmsRxMsgReceived_def OnUcsProgramLocalNode_def OnProgramSignature_def)

section \<open>The library\<close>

text \<open>
  The library's callbacks keep to what it documents, and the answer to a command comes later:
  a command call itself only asks for service.
\<close>

fun is_command :: "ucs_call \<Rightarrow> bool" where
  "is_command (Ucs_Init _) = True"
| "is_command Ucs_Stop = True"
| "is_command (Ucs_Rm_SetRouteActive _ _) = True"
| "is_command (Ucs_Ns_Run _ _ _) = True"
| "is_command (Ucs_Gpio_CreatePort _ _ _) = True"
| "is_command (Ucs_Gpio_WritePort _ _ _ _) = True"
| "is_command (Ucs_Gpio_SetPinMode _ _ _ _) = True"
| "is_command (Ucs_I2c_WritePort _ _ _ _ _ _ _ _) = True"
| "is_command (Ucs_I2c_ReadPort _ _ _ _ _) = True"
| "is_command (Ucs_AmsTx_SendMsg _) = True"
| "is_command (Ucs_Network_SetPacketFilterMode _ _) = True"
| "is_command (Ucs_Supv_ProgramNode _ _) = True"
| "is_command Ucs_Supv_ProgramExit = True"
| "is_command (Ucs_Supv_SetMode _) = True"
| "is_command _ = False"

definition lib_async :: "ucs_lib \<Rightarrow> bool" where
  "lib_async L = (\<forall>tr c. is_command c \<longrightarrow> set (lib_events L tr c) \<subseteq> {EvService})"

definition lib_events_ok :: "u16 set \<Rightarrow> ucs_lib \<Rightarrow> bool" where
  "lib_events_ok P L = (\<forall>tr c. \<forall>ev \<in> set (lib_events L tr c). event_ok P ev)"

lemma lib_call_inv:
  assumes "lib_events_ok P L" and "ucsi_inv P s"
  shows "okR (lib_call L c s) (\<lambda>(ok, s'). ucsi_inv P s')"
proof -
  have "okR (foldR (handle_event L) (lib_events L (trace s) c) (emit (Lib c) s)) (ucsi_inv P)"
    using assms by (intro foldR_okR) (auto simp: lib_events_ok_def handle_event_inv)
  then show ?thesis by (simp add: lib_call_def)
qed

text \<open>A command call: its outcome, and what it leaves in the trace.\<close>

definition asked_service :: "ucsi \<Rightarrow> ucs_call \<Rightarrow> ucsi \<Rightarrow> bool" where
  "asked_service s c s' \<longleftrightarrow> pm s' = pm s \<and>
     (\<exists>b n. my s' = (my s)\<lparr>triggerService := b\<rparr> \<and>
        trace s' = trace s @ Lib c # replicate n CB_OnServiceRequired)"

lemma service_events:
  assumes "set evs \<subseteq> {EvService}"
  shows "okR (foldR (handle_event L) evs s) (\<lambda>s'. pm s' = pm s \<and>
     (\<exists>b n. my s' = (my s)\<lparr>triggerService := b\<rparr> \<and> trace s' = trace s @ replicate n CB_OnServiceRequired))"
  using assms
proof (induction evs arbitrary: s)
  case Nil
  show ?case by (auto intro: exI [of _ "triggerService (my s)"] exI [of _ 0])
next
  case (Cons ev evs)
  let ?s = "emit CB_OnServiceRequired (upd (\<lambda>d. d\<lparr>triggerService := True\<rparr>) s)"
  have "okR (foldR (handle_event L) evs ?s) (\<lambda>s'. pm s' = pm ?s \<and>
     (\<exists>b n. my s' = (my ?s)\<lparr>triggerService := b\<rparr> \<and> trace s' = trace ?s @ replicate n CB_OnServiceRequired))"
    using Cons.prems by (intro Cons.IH) simp
  then have "okR (foldR (handle_event L) evs ?s) (\<lambda>s'. pm s' = pm s \<and>
     (\<exists>b n. my s' = (my s)\<lparr>triggerService := b\<rparr> \<and> trace s' = trace s @ replicate n CB_OnServiceRequired))"
    by (rule okR_mono) (auto simp flip: replicate_Suc)
  then show ?case using Cons.prems by (simp add: OnUnicensService_def)
qed

lemma lib_call_command:
  assumes "lib_async L" and "is_command c"
  shows "okR (lib_call L c s) (\<lambda>(ok, s'). ok = lib_success L (trace s) c \<and> asked_service s c s')"
proof -
  have "set (lib_events L (trace s) c) \<subseteq> {EvService}" using assms by (simp add: lib_async_def)
  from service_events [OF this, of L "emit (Lib c) s"] show ?thesis
    by (auto simp: lib_call_def asked_service_def elim!: okR_mono)
qed

text \<open>One step of the switch changes nothing of the instance but the trigger and the pending route.\<close>

definition exec_frame :: "UnicensCmdEntry_t \<Rightarrow> bool \<Rightarrow> ucsi \<Rightarrow> ucsi \<Rightarrow> bool" where
  "exec_frame e popEntry s s' \<longleftrightarrow> pm s' = pm s \<and> (outs_ok s \<longrightarrow> outs_ok s') \<and>
     (\<exists>b x. my s' = (my s)\<lparr>triggerService := b, pendingRoutePtr := x\<rparr> \<and>
        (x = pendingRoutePtr (my s) \<or> \<not> popEntry \<and> cmd e = UnicensCmd_RmSetRoute))"

lemma asked_service_outs: "asked_service s c s' \<Longrightarrow> outs_ok s' = outs_ok s"
  by (auto simp: asked_service_def outs_ok_def split: if_splits)

lemma asked_service_frame:
  assumes "asked_service s c s'" "my s'' = my s'" "pm s'' = pm s'" "outs_ok s'' = outs_ok s'"
  shows "exec_frame e pop s s''"
  using assms asked_service_outs [OF assms(1)] unfolding asked_service_def exec_frame_def
  by (auto intro!: exI [of _ "pendingRoutePtr (my s)"])

lemma submit_okR:
  assumes "lib_async L" "is_command c" "\<And>s. my (failed s) = my s \<and> pm (failed s) = pm s \<and> outs_ok (failed s) = outs_ok s"
  shows "okR (submit L c failed s) (\<lambda>(popEntry, s').
    popEntry = (\<not> lib_success L (trace s) c) \<and> exec_frame e popEntry s s' \<and>
    (\<exists>s1. asked_service s c s1 \<and> s' = (if popEntry then failed s1 else s1)))"
proof -
  obtain ok s1 where s1: "lib_call L c s = Inr (ok, s1)" "ok = lib_success L (trace s) c"
    "asked_service s c s1"
    using lib_call_command [OF assms(1,2), of s] by (auto simp: okR_ex)
  then show ?thesis
    using asked_service_frame [OF s1(3)] assms(3) by (auto simp: submit_def)
qed

lemma my_command_failed [simp]:
  "my (command_failed f c a s) = my s" "pm (command_failed f c a s) = pm s"
  "trace (command_failed f c a s) =
     trace s @ [CB_OnUserMessage UCSI_MsgError f [], CB_OnCommandResult c False a]"
  "outs_ok (command_failed f c a s) = outs_ok s"
  by (simp_all add: command_failed_def)

lemma exec_command_okR:
  assumes L: "lib_async L" and e: "entry_ok e"
  shows "okR (exec_command L e s) (\<lambda>(popEntry, s'). exec_frame e popEntry s s')"
proof -
  have sub: "okR (submit L c failed s) (\<lambda>(popEntry, s'). exec_frame e popEntry s s')"
    if "is_command c" "\<And>s. my (failed s) = my s \<and> pm (failed s) = pm s \<and> outs_ok (failed s) = outs_ok s" for c failed s e
    by (rule okR_mono [OF submit_okR [OF L that, where e = e]]) auto
  have msg: "okR (submit L c failed (message u f a s)) (\<lambda>(popEntry, s'). exec_frame e popEntry s s')"
    if "is_command c" "\<And>s. my (failed s) = my s \<and> pm (failed s) = pm s \<and> outs_ok (failed s) = outs_ok s" for c failed u f a s e
    using sub [OF that, of "message u f a s" e] by (simp add: exec_frame_def)
  show ?thesis
  proof (cases e)
    case (RmSetRoute c)
    let ?c = "Ucs_Rm_SetRouteActive (rsr_routePtr c) (rsr_isActive c)"
    obtain ok s1 where s1: "lib_call L ?c s = Inr (ok, s1)" "asked_service s ?c s1"
      using lib_call_command [OF L, of ?c s] by (auto simp: okR_ex)
    obtain a where "endpoint_node_address (sink_endpoint_ptr (rsr_routePtr c)) = Inr a"
      using e RmSetRoute endpoint_node_address_ok by (auto simp: wf_route_def okR_ex)
    then show ?thesis
      using RmSetRoute s1 asked_service_outs [OF s1(2)] by (auto simp: exec_frame_def asked_service_def) blast+
  next
    case (NsRun c)
    let ?c = "Ucs_Ns_Run (nsr_nodeAddress c) (nsr_scriptPtr c) (nsr_scriptSize c)"
    obtain ok s1 where s1: "lib_call L ?c s = Inr (ok, s1)" "asked_service s ?c s1"
      using lib_call_command [OF L, of ?c s] by (auto simp: okR_ex)
    then show ?thesis using NsRun asked_service_frame [OF s1(2)] by auto
  next
    case ProgramExit
    obtain ok s1 where s1: "lib_call L Ucs_Supv_ProgramExit s = Inr (ok, s1)"
      "asked_service s Ucs_Supv_ProgramExit s1"
      using lib_call_command [OF L, of Ucs_Supv_ProgramExit s] by (auto simp: okR_ex)
    then show ?thesis using ProgramExit asked_service_frame [OF s1(2)] by auto
  next
    case EntryUnknown
    then show ?thesis by (auto simp: exec_frame_def intro!: exI [of _ "triggerService (my s)"]
        exI [of _ "pendingRoutePtr (my s)"])
  qed (auto simp: Let_def split: if_splits intro!: sub msg)
qed

section \<open>Service\<close>

lemma service_print_okR:
  assumes inv: "ucsi_inv P s" and P: "finite P" "card P \<le> 8"
  shows "okR (service_print L s) (\<lambda>s'. ucsi_inv P s' \<and> print_frame s s')"
proof (cases "printTrigger (my s)")
  case False
  then show ?thesis using inv by (simp add: service_print_def)
next
  case True
  let ?s = "upd (\<lambda>d. d\<lparr>printTrigger := False\<rparr>) s"
  have inv': "ucsi_inv P ?s" and fr: "print_frame s ?s"
    using inv by (auto simp: ucsi_inv_upd print_frame_def intro!: exI [of _ False] exI [of _ "[]"])
  have safe: "print_safe P (pm ?s)" using inv by (simp add: ucsi_inv_def)
  obtain m cbs where m: "UCSIPrint_Service (ucast (lib_time L (trace s))) (pm ?s) = Inr (m, cbs)"
    "print_safe P m" "cbs_tagged cbs"
    using Service_keeps [OF safe P, of "ucast (lib_time L (trace s))"] by (auto simp: okR_ex)
  have "okR (foldR UCSIPrint_CB cbs (?s\<lparr>pm := m\<rparr>)) (\<lambda>s'. print_frame (?s\<lparr>pm := m\<rparr>) s' \<and> pm s' = m)"
    using UCSIPrint_CBs_okR [OF m(3), of "?s\<lparr>pm := m\<rparr>"] by simp
  moreover have "print_frame (?s\<lparr>pm := m\<rparr>) s' = print_frame ?s s'" for s'
    by (simp add: print_frame_def)
  ultimately have "okR (foldR UCSIPrint_CB cbs (?s\<lparr>pm := m\<rparr>)) (\<lambda>s'. ucsi_inv P s' \<and> print_frame s s')"
    using m(2) by (auto elim!: okR_mono intro: print_frame_inv [OF _ inv'] print_frame_trans [OF fr])
  then show ?thesis
    using True m by (simp add: service_print_def do_print_service_def)
qed

lemma ucsi_inv_start:
  assumes inv: "ucsi_inv P s" and idle: "currentCmd (my s) = None" and ne: "pending s \<noteq> []"
  shows "ucsi_inv P (upd (\<lambda>d. d\<lparr>currentCmd := Some (pRx (rb (my s)))\<rparr>) s)"
  using assms by (simp add: ucsi_inv_def my_ok_def current_ok_def pending_def)

lemma exec_frame_inv:
  assumes inv: "ucsi_inv P s" and cur: "currentCmd (my s) \<noteq> None"
    and fr: "exec_frame (hd (pending s)) popEntry s s'"
  shows "ucsi_inv P s'" and "pending s' = pending s"
  using assms by (auto simp: exec_frame_def ucsi_inv_def my_ok_def current_ok_def pending_def
      split: option.splits)

lemma service_command_inv:
  assumes inv: "ucsi_inv P s" and L: "lib_async L"
  shows "okR (service_command L s) (ucsi_inv P)"
proof (cases "currentCmd (my s) \<noteq> None \<or> pending s = []")
  case True
  moreover have "rb_inv (rb (my s))" using inv by (simp add: ucsi_inv_def my_ok_def)
  ultimately show ?thesis
    using inv by (auto simp: service_command_def RB_read_ptr(1) pending_def)
next
  case False
  then have idle: "currentCmd (my s) = None" and ne: "pending s \<noteq> []" by auto
  have rbi: "rb_inv (rb (my s))" using inv by (simp add: ucsi_inv_def my_ok_def)
  let ?e = "hd (pending s)" and ?s = "upd (\<lambda>d. d\<lparr>currentCmd := Some (pRx (rb (my s)))\<rparr>) s"
  have inv1: "ucsi_inv P ?s" using ucsi_inv_start [OF inv idle ne] .
  have pend: "pending ?s = pending s" "currentCmd (my ?s) \<noteq> None" "pendingRoutePtr (my ?s) = None"
    using inv idle by (auto simp: pending_def ucsi_inv_def current_ok_def)
  have "entry_ok ?e" using inv ne by (simp add: ucsi_inv_def)
  from exec_command_okR [OF L this, of ?s] obtain pop s1
    where s1: "exec_command L ?e ?s = Inr (pop, s1)" "exec_frame ?e pop ?s s1" by (auto simp: okR_ex)
  have inv2: "ucsi_inv P s1" "pending s1 = pending s"
    using exec_frame_inv [OF inv1 pend(2)] s1(2) pend(1) by auto
  have "pendingRoutePtr (my s1) = None" if pop using s1(2) pend(3) that by (auto simp: exec_frame_def)
  then have "ucsi_inv P (if pop then upd (\<lambda>d. d\<lparr>currentCmd := None, rb := RB_PopReadPtr (rb d)\<rparr>) s1 else s1)"
    using inv2 ne ucsi_inv_pop(1) [of P s1] by auto
  then show ?thesis
    using idle ne s1(1) RB_read_ptr [OF rbi]
    by (simp add: service_command_def pending_def)
qed

lemma UCSI_Service_inv:
  assumes "ucsi_inv P s" "lib_async L" "lib_events_ok P L" "finite P" "card P \<le> 8"
  shows "okR (UCSI_Service L s) (ucsi_inv P)"
  unfolding UCSI_Service_def
proof (rule inv_seq)
  show "okR (if unicens (my s) \<and> triggerService (my s)
            then bindR (lib_call L Ucs_Service (upd (\<lambda>d. d\<lparr>triggerService := False\<rparr>) s)) (\<lambda>(_, s). Inr s)
            else Inr s) (ucsi_inv P)"
    using assms by (auto intro!: okR_mono [OF lib_call_inv] ucsi_inv_upd)
next
  fix s
  assume "ucsi_inv P s"
  then show "okR (bindR (service_print L s) (service_command L)) (ucsi_inv P)"
    using assms by (intro inv_seq) (auto intro: service_command_inv okR_mono [OF service_print_okR])
qed

lemma UCSI_Timeout_inv:
  assumes "ucsi_inv P s" "lib_events_ok P L" "finite P" "card P \<le> 8"
  shows "okR (UCSI_Timeout L s) (ucsi_inv P)"
  using assms
  by (auto simp: UCSI_Timeout_def intro!: okR_mono [OF lib_call_inv] okR_mono [OF service_print_okR])

section \<open>The other operations\<close>

lemma put_in_place_inv:
  assumes "ucsi_inv P s" "RB_GetWritePtr (rb (my s)) = Some e" "entry_ok c"
  shows "okR (put_in_place c e s) (\<lambda>s'. ucsi_inv P s' \<and> pending s' = pending s @ [c] \<and>
    pm s' = pm s \<and> trace s' = trace s \<and> (\<exists>r. my s' = (my s)\<lparr>rb := r\<rparr>))"
  using RB_put_okR [OF assms] by (auto simp: put_in_place_def elim!: okR_mono)

lemma request_mode_inv: "ucsi_inv P s \<Longrightarrow> okR (request_mode m s) (\<lambda>(ok, s'). ucsi_inv P s')"
  by (auto simp: request_mode_def split: option.split intro!: EnqueueCommand_inv ucsi_inv_upd)

lemma new_config_inv:
  assumes "ucsi_inv P s" and "routes_ok routes n"
  shows "ucsi_inv P (upd (new_config_data pb xb routes n nl nn k pst) s)"
  using assms by (simp add: new_config_data_def Let_def ucsi_inv_def my_ok_def current_ok_def
      pending_def routes_config_ok_def cong: option.case_cong)

lemma UCSI_NewConfig_inv:
  assumes inv: "ucsi_inv P s" and r: "routes_ok routes n"
  shows "okR (UCSI_NewConfig pb xb routes n nl nn k pst s) (\<lambda>(ok, s'). ucsi_inv P s')"
proof -
  have second: "okR (let s = upd (new_config_data pb xb routes n nl nn k pst) s
     in case RB_GetWritePtr (rb (my s)) of
          None \<Rightarrow> Inr (False, s)
        | Some e \<Rightarrow> bindR (put_in_place EntryInit e s) (\<lambda>s.
            let s = emit CB_OnServiceRequired s
            in Inr (True, s\<lparr>pm := UCSIPrint_Init routes n (Some ())\<rparr>))) (\<lambda>(ok, s'). ucsi_inv P s')"
    if s: "ucsi_inv P s" for s
  proof -
    have safe: "print_safe P (UCSIPrint_Init routes n (Some ()))"
      using r by (intro print_safe_Init) simp_all
    have "ucsi_inv P (emit CB_OnServiceRequired s'\<lparr>pm := UCSIPrint_Init routes n (Some ())\<rparr>)"
      if "ucsi_inv P s'" for s'
    proof -
      have "ucsi_inv P (emit CB_OnServiceRequired s')" using that by simp
      then show ?thesis
        using safe by (auto simp: ucsi_inv_def current_ok_def pending_def cong: option.case_cong)
    qed
    then show ?thesis
      using new_config_inv [OF s r]
      by (auto simp: Let_def split: option.split intro!: okR_mono [OF put_in_place_inv])
  qed
  show ?thesis
    unfolding UCSI_NewConfig_def
    using inv second
    by (cases "initialized (my s)"; cases "RB_GetWritePtr (rb (my s))")
      (auto simp: Let_def elim!: okR_mono intro!: okR_mono [OF put_in_place_inv])
qed

section \<open>Any sequence of operations\<close>

datatype ucsi_op =
    OpNewConfig u16 u16 "Ucs_Rm_Route_t list option" u16 "Ucs_Rm_Node_t list option" u16 u8 bool
  | OpCableDiagnosis | OpFallbackMode | OpShutdown
  | OpExecuteScript u16 "nat option" u8
  | OpProcessRxData "u8 list" u32
  | OpSetRouteActive u16 bool
  | OpI2CWrite u16 int u8 u8 u16 u8 "u8 list option" bool nat
  | OpI2CRead u16 u8 u16 u8
  | OpSetGpioState u16 u8 bool
  | OpSetGpioMode u16 u8 int
  | OpPromiscuous u16 bool
  | OpGetAmsTxBuffer u32
  | OpSendAms u16 u16 "Ucs_AmsTx_Msg_t option"
  | OpGetAms | OpReleaseAms
  | OpService | OpTimeout
  | OpCallback ucs_event

definition state_of :: "('a \<times> ucsi) result \<Rightarrow> ucsi result" where
  "state_of r = bindR r (\<lambda>(_, s). Inr s)"

fun run_op :: "ucs_lib \<Rightarrow> ucsi_op \<Rightarrow> ucsi \<Rightarrow> ucsi result" where
  "run_op L (OpNewConfig pb xb r n nl nn k pst) s = state_of (UCSI_NewConfig pb xb r n nl nn k pst s)"
| "run_op L OpCableDiagnosis s = state_of (UCSI_RunCableDiagnosis s)"
| "run_op L OpFallbackMode s = state_of (UCSI_RunFallbackMode s)"
| "run_op L OpShutdown s = state_of (UCSI_ShutdownNetwork s)"
| "run_op L (OpExecuteScript a sc n) s = state_of (UCSI_ExecuteScript a sc n s)"
| "run_op L (OpProcessRxData b n) s = state_of (UCSI_ProcessRxData L b n s)"
| "run_op L (OpSetRouteActive r on) s = state_of (UCSI_SetRouteActive r on s)"
| "run_op L (OpI2CWrite a m bc sl t n d f rq) s = state_of (UCSI_I2CWrite a m bc sl t n d f rq s)"
| "run_op L (OpI2CRead a sl t n) s = state_of (UCSI_I2CRead a sl t n s)"
| "run_op L (OpSetGpioState a p h) s = state_of (UCSI_SetGpioState a p h s)"
| "run_op L (OpSetGpioMode a p m) s = state_of (UCSI_SetGpioMode a p m s)"
| "run_op L (OpPromiscuous a b) s = state_of (UCSI_EnablePromiscuousMode a b s)"
| "run_op L (OpGetAmsTxBuffer n) s = state_of (UCSI_GetAmsTxBuffer L n s)"
| "run_op L (OpSendAms i a m) s = state_of (UCSI_SendAmsMessage i a m s)"
| "run_op L OpGetAms s = state_of (UCSI_GetAmsMessage L s)"
| "run_op L OpReleaseAms s = UCSI_ReleaseAmsMessage L s"
| "run_op L OpService s = UCSI_Service L s"
| "run_op L OpTimeout s = UCSI_Timeout L s"
| "run_op L (OpCallback ev) s = handle_event L ev s"

text \<open>Buffers are as long as the caller says, routes are complete, callbacks keep their contract.\<close>

fun op_ok :: "u16 set \<Rightarrow> ucsi_op \<Rightarrow> bool" where
  "op_ok P (OpNewConfig pb xb r n nl nn k pst) = routes_ok r n"
| "op_ok P (OpProcessRxData b n) = (unat n \<le> length b)"
| "op_ok P (OpI2CWrite a m bc sl t n d f rq) =
     (case d of None \<Rightarrow> True | Some bytes \<Rightarrow> unat n \<le> length bytes)"
| "op_ok P (OpCallback ev) = event_ok P ev"
| "op_ok P _ = True"

lemma state_of_okR: "okR r (\<lambda>(x, s). Q s) \<Longrightarrow> okR (state_of r) Q"
  by (auto simp: state_of_def elim!: okR_mono)

lemma UCSI_SetRouteActive_inv:
  assumes inv: "ucsi_inv P s"
  shows "okR (UCSI_SetRouteActive r on s) (\<lambda>(ok, s'). ucsi_inv P s')"
proof (cases "routes_list_ptr (uniInitData (my s))")
  case None
  then show ?thesis using inv by (simp add: UCSI_SetRouteActive_def)
next
  case (Some routes)
  let ?n = "unat (routes_list_size (uniInitData (my s)))"
  have ok: "\<forall>x \<in> set routes. wf_route x" "?n \<le> length routes"
    using inv Some by (auto simp: ucsi_inv_def my_ok_def routes_config_ok_def routes_ok_def printable_route_def)
  show ?thesis
  proof (cases "scan (\<lambda>x. route_id x = r) (take ?n routes)")
    case None
    then show ?thesis using Some ok inv by (simp add: UCSI_SetRouteActive_def Let_def)
  next
    case (Some i)
    have "wf_route (routes ! i)" using scan_SomeD [OF Some] ok by simp
    then show ?thesis
      using Some \<open>routes_list_ptr (uniInitData (my s)) = Some routes\<close> inv
      by (auto simp: UCSI_SetRouteActive_def Let_def intro!: EnqueueCommand_inv)
  qed
qed

lemma UCSI_I2CWrite_inv:
  assumes "ucsi_inv P s" and "op_ok P (OpI2CWrite a m bc sl t n d f rq)"
  shows "okR (UCSI_I2CWrite a m bc sl t n d f rq s) (\<lambda>(ok, s'). ucsi_inv P s')"
  using assms
  by (cases d) (auto simp: UCSI_I2CWrite_def word_neq_0_conv not_less intro!: EnqueueCommand_inv)

lemma lib_call_inv': "lib_events_ok P L \<Longrightarrow> ucsi_inv P s \<Longrightarrow> (\<And>ok s'. ucsi_inv P s' \<Longrightarrow> okR (f (ok, s')) Q)
    \<Longrightarrow> okR (bindR (lib_call L c s) f) Q"
  by (simp, rule okR_mono [OF lib_call_inv]) auto

lemma run_op_inv:
  assumes "ucsi_inv P s" "op_ok P op" and L: "lib_async L" "lib_events_ok P L"
    and P: "finite P" "card P \<le> 8"
  shows "okR (run_op L op s) (ucsi_inv P)"
proof (cases op)
  case (OpNewConfig pb xb r n nl nn k pst)
  then show ?thesis using assms by (auto intro!: state_of_okR UCSI_NewConfig_inv)
next
  case (OpProcessRxData b n)
  then show ?thesis using assms
    by (auto simp: UCSI_ProcessRxData_def not_less
        intro!: state_of_okR lib_call_inv' [OF L(2)] okR_mono [OF lib_call_inv [OF L(2)]])
next
  case (OpI2CWrite a m bc sl t n d f rq)
  then show ?thesis using assms by (auto intro!: state_of_okR UCSI_I2CWrite_inv)
next
  case (OpCallback ev)
  then show ?thesis using assms by (simp add: handle_event_inv)
next
  case OpService
  then show ?thesis using assms by (simp add: UCSI_Service_inv)
next
  case OpTimeout
  then show ?thesis using assms by (simp add: UCSI_Timeout_inv)
next
  case (OpGetAmsTxBuffer n)
  then show ?thesis using assms
    by (auto simp: UCSI_GetAmsTxBuffer_def intro!: state_of_okR lib_call_inv' [OF L(2)])
next
  case OpGetAms
  then show ?thesis using assms
    by (auto simp: UCSI_GetAmsMessage_def intro!: state_of_okR lib_call_inv' [OF L(2)])
next
  case OpReleaseAms
  then show ?thesis using assms
    by (auto simp: UCSI_ReleaseAmsMessage_def intro!: okR_mono [OF lib_call_inv [OF L(2)]])
next
  case (OpSendAms i a m)
  then show ?thesis using assms
    by (cases m) (auto simp: UCSI_SendAmsMessage_def intro!: state_of_okR EnqueueCommand_inv)
qed (use assms in \<open>auto simp: UCSI_RunCableDiagnosis_def UCSI_RunFallbackMode_def UCSI_ShutdownNetwork_def
    UCSI_ExecuteScript_def UCSI_I2CRead_def UCSI_SetGpioState_def UCSI_SetGpioMode_def
    UCSI_EnablePromiscuousMode_def Let_def
    intro!: state_of_okR request_mode_inv EnqueueCommand_inv UCSI_SetRouteActive_inv\<close>)

section \<open>The state after initialisation\<close>

text \<open>
  The library has an instance to give and accepts its default configuration (with no routes),
  and the queue's memory is addressable with 32 bits.
\<close>

definition lib_starts :: "ucs_lib \<Rightarrow> bool" where
  "lib_starts L \<longleftrightarrow> (\<forall>tr. lib_success L tr Ucs_CreateInstance) \<and>
     (\<forall>tr. lib_success L tr Ucs_SetDefaultConfig) \<and>
     routes_list_ptr (lib_default_config L) = None \<and>
     0 < lib_sizeof_entry L \<and> CMD_QUEUE_LEN * unat (lib_sizeof_entry L) < 2 ^ 32"

lemma UCSI_Init_inv:
  assumes L: "lib_starts L" and s: "print_safe P (pm s)" "outs_ok s"
  shows "ucsi_inv P (UCSI_Init L dbg s)" and "pending (UCSI_Init L dbg s) = []"
    and "currentCmd (my (UCSI_Init L dbg s)) = None"
    and "initialized (my (UCSI_Init L dbg s)) = False"
proof -
  let ?rb = "RB_Init (of_nat CMD_QUEUE_LEN) (lib_sizeof_entry L) (replicate CMD_QUEUE_LEN EntryUnknown)"
  have n: "unat (of_nat CMD_QUEUE_LEN :: u16) = CMD_QUEUE_LEN" by (simp add: CMD_QUEUE_LEN_def)
  have sh: "rb_shape ?rb (unat (of_nat CMD_QUEUE_LEN :: u16)) (unat (lib_sizeof_entry L)) 0 0"
    using L by (intro RB_Init_shape) (auto simp: lib_starts_def n CMD_QUEUE_LEN_def)
  then have inv: "rb_inv ?rb" and l: "rb_list ?rb = []"
    using rb_list_shape [OF sh] by (auto simp: rb_inv_def)
  have cap: "rb_capacity ?rb = CMD_QUEUE_LEN" by (simp add: rb_capacity_def RB_Init_def CMD_QUEUE_LEN_def)
  have r: "rb (my (UCSI_Init L dbg s)) = ?rb" "pm (UCSI_Init L dbg s) = pm s"
    using L by (simp_all add: UCSI_Init_def Let_def lib_starts_def)
  show cur: "currentCmd (my (UCSI_Init L dbg s)) = None"
    and "initialized (my (UCSI_Init L dbg s)) = False"
    using L by (simp_all add: UCSI_Init_def Let_def lib_starts_def UCSI_Data_zero_def)
  show pend: "pending (UCSI_Init L dbg s) = []" using r l by (simp add: pending_def)
  have "my_ok (my (UCSI_Init L dbg s))" "pendingRoutePtr (my (UCSI_Init L dbg s)) = None"
    unfolding my_ok_def using L inv cap r
    by (simp_all add: UCSI_Init_def Let_def lib_starts_def UCSI_Data_zero_def routes_config_ok_def routes_ok_def)
  moreover have "outs_ok (UCSI_Init L dbg s)"
    using s(2) L by (simp add: UCSI_Init_def Let_def lib_starts_def outs_ok_def emit_def upd_def)
  ultimately show "ucsi_inv P (UCSI_Init L dbg s)"
    using s r pend cur by (simp add: ucsi_inv_def current_ok_def)
qed

end
