(* ===== verification/Ucsi_Props.thy ===== *)
theory Ucsi_Props
  imports Ucsi_Inv
begin

text \<open>
  The properties of the integration layer. The examples run it on \<open>demo_lib\<close>, a library that
  accepts every call, answers nothing by itself and has a clock that stands still.
\<close>

section \<open>A library to run on\<close>

definition demo_config :: Ucs_InitData_t where
  "demo_config = \<lparr>inic_watchdog_enabled = False, ams_enabled = False, notification_mask = 0,
     debug_message_enable = False, packet_bw = 0, proxy_channel_bw = 0, routes_list_ptr = None,
     routes_list_size = 0, nodes_list_ptr = None, nodes_list_size = 0,
     supv_mode = UCS_SUPV_MODE_NORMAL\<rparr>"

definition demo_lib :: ucs_lib where
  "demo_lib = \<lparr>lib_success = (\<lambda>_ _. True), lib_events = (\<lambda>_ c. if c = Ucs_Stop then [EvService] else []),
     lib_label = (\<lambda>_ _. 0xC), lib_ams_peek = (\<lambda>_. None), lib_ams_addr = (\<lambda>_. 0),
     lib_default_config = demo_config, lib_supv_mode_zero = UCS_SUPV_MODE_NORMAL,
     lib_sizeof_entry = 88, lib_time = (\<lambda>_. 0)\<rparr>"

definition demo_start :: ucsi where
  "demo_start = \<lparr>my = UCSI_Data_zero demo_lib, pm = LocalVar_zero, trace = [], promiscuousMode = False\<rparr>"

lemma demo_lib_ok:
  "lib_starts demo_lib" "lib_async demo_lib" "lib_events_ok P demo_lib"
  by (auto simp: demo_lib_def lib_starts_def lib_async_def lib_events_ok_def demo_config_def
      CMD_QUEUE_LEN_def split: if_splits)

lemma demo_start_safe: "print_safe P (pm demo_start)" "outs_ok demo_start"
  by (simp_all add: demo_start_def outs_ok_def print_safe_def nodes_in_def routes_ok_def LocalVar_zero_def nodes_in_zero
      print_inv_zero [unfolded LocalVar_zero_def])

definition demo :: ucsi where
  "demo = UCSI_Init demo_lib False demo_start"

lemma demo_inv: "ucsi_inv {} demo" "pending demo = []" "currentCmd (my demo) = None"
    "initialized (my demo) = False"
  unfolding demo_def by (rule UCSI_Init_inv [OF demo_lib_ok(1) demo_start_safe])+

section \<open>Safety and the invariant\<close>



section \<open>The life of a command\<close>

text \<open>
  A remote I2C write is accepted exactly when it carries 1 to 32 bytes and the queue has
  room. Accepted, it is appended to the queue with its parameters and exactly its bytes, the
  integrator is asked for service, and nothing else of the instance changes; refused, the
  queue stays as it is.
\<close>

theorem i2c_write_accepted:
  assumes "ucsi_inv P s" and "case d of None \<Rightarrow> True | Some bytes \<Rightarrow> unat n \<le> length bytes"
  shows "okR (UCSI_I2CWrite a m bc sl t n d f rq s) (\<lambda>(ok, s').
     ok = (d \<noteq> None \<and> 1 \<le> unat n \<and> unat n \<le> 32 \<and> \<not> queue_full s) \<and>
     (if ok then queued (I2CWrite \<lparr>i2w_destination = a, i2w_i2cMode = m, i2w_blockCount = bc,
           i2w_slaveAddr = sl, i2w_timeout = t, i2w_dataLen = n, i2w_data = take (unat n) (the d),
           i2w_result_fptr = f, i2w_request_ptr = rq\<rparr>) s s'
      else pending s' = pending s))"
proof (cases "d \<noteq> None \<and> n \<noteq> 0 \<and> unat n \<le> 32")
  case False
  moreover have "n \<noteq> 0 \<Longrightarrow> 1 \<le> unat n" by (simp add: Suc_le_eq unat_gt_0)
  ultimately show ?thesis using assms(2)
    by (cases d) (auto simp: UCSI_I2CWrite_def I2C_WRITE_MAX_LEN_def)
next
  case True
  then obtain bytes where d: "d = Some bytes" by auto
  have n: "1 \<le> unat n" using True by (simp add: Suc_le_eq unat_gt_0)
  show ?thesis
    using True assms(2) n
    by (auto simp: UCSI_I2CWrite_def d I2C_WRITE_MAX_LEN_def word_neq_0_conv
        intro!: okR_mono [OF EnqueueCommand_okR [OF assms(1)]] split: if_splits)
qed

theorem i2c_write_accepted_witness:
  "okR (UCSI_I2CWrite 0x270 0 0 0x2A 100 2 (Some [1, 2, 3]) True 5 demo) (\<lambda>(ok, s').
     ok = (Some [1, 2, 3] \<noteq> (None :: u8 list option) \<and> 1 \<le> unat (2 :: u8) \<and> unat (2 :: u8) \<le> 32 \<and>
       \<not> queue_full demo) \<and>
     (if ok then queued (I2CWrite \<lparr>i2w_destination = 0x270, i2w_i2cMode = 0, i2w_blockCount = 0,
           i2w_slaveAddr = 0x2A, i2w_timeout = 100, i2w_dataLen = 2,
           i2w_data = take (unat (2 :: u8)) (the (Some [1, 2, 3])),
           i2w_result_fptr = True, i2w_request_ptr = 5\<rparr>) demo s'
      else pending s' = pending demo))"
  by (rule i2c_write_accepted [OF demo_inv(1)]) simp

text \<open>
  What a queued command asks of the library, whether the answer comes by a callback, and the
  node a refusal is reported for.
\<close>

fun call_of :: "UnicensCmdEntry_t \<Rightarrow> Ucs_InitData_t \<Rightarrow> ucs_call option" where
  "call_of EntryInit i = Some (Ucs_Init i)"
| "call_of EntryStop i = Some Ucs_Stop"
| "call_of (RmSetRoute c) i = Some (Ucs_Rm_SetRouteActive (rsr_routePtr c) (rsr_isActive c))"
| "call_of (NsRun c) i = Some (Ucs_Ns_Run (nsr_nodeAddress c) (nsr_scriptPtr c) (nsr_scriptSize c))"
| "call_of (GpioCreatePort c) i = Some (Ucs_Gpio_CreatePort (gcp_destination c) 0 (gcp_debounceTime c))"
| "call_of (GpioWritePort c) i =
     Some (Ucs_Gpio_WritePort (gwp_destination c) 0x1D00 (gwp_mask c) (gwp_data c))"
| "call_of (GpioPortMode c) i =
     Some (Ucs_Gpio_SetPinMode (gpm_destination c) 0x1D00 (gpm_gpioPinId c) (gpm_mode c))"
| "call_of (I2CWrite c) i =
     Some (Ucs_I2c_WritePort (i2w_destination c) 0x0F00 (i2w_i2cMode c) (i2w_blockCount c)
       (i2w_slaveAddr c) (i2w_timeout c) (i2w_dataLen c) (i2w_data c))"
| "call_of (I2CRead c) i =
     Some (Ucs_I2c_ReadPort (i2r_destination c) 0x0F00 (i2r_slaveAddr c) (i2r_dataLen c) (i2r_timeout c))"
| "call_of (SendAms c) i = Some (Ucs_AmsTx_SendMsg (ams_msg c))"
| "call_of (PacketFilterMode c) i =
     Some (Ucs_Network_SetPacketFilterMode (pfm_destination_address c) (pfm_mode c))"
| "call_of (ProgramNode c) i = Some (Ucs_Supv_ProgramNode (pn_nodePosAddr c) c)"
| "call_of ProgramExit i = Some Ucs_Supv_ProgramExit"
| "call_of (SupvMode c) i = Some (Ucs_Supv_SetMode (supvMode c))"
| "call_of EntryUnknown i = None"

definition answered_later :: "UnicensCmdEntry_t \<Rightarrow> bool" where
  "answered_later e = (cmd e \<notin> {UnicensCmd_NsRun, UnicensCmd_ProgramExit, UnicensCmd_Unknown})"

fun refusal_node :: "UnicensCmdEntry_t \<Rightarrow> u16" where
  "refusal_node (RmSetRoute c) = (case endpoint_node_address (sink_endpoint_ptr (rsr_routePtr c)) of
     Inr a \<Rightarrow> a | Inl _ \<Rightarrow> 0)"
| "refusal_node (NsRun c) = nsr_nodeAddress c"
| "refusal_node (GpioPortMode c) = gpm_destination c"
| "refusal_node (ProgramNode c) = pn_nodePosAddr c"
| "refusal_node e = command_node e"

fun is_result :: "ucsi_out \<Rightarrow> bool" where
  "is_result (CB_OnCommandResult _ _ _) = True"
| "is_result _ = False"

fun is_lib :: "ucsi_out \<Rightarrow> bool" where
  "is_lib (Lib _) = True"
| "is_lib _ = False"

text \<open>The trace of handing the entry \<open>e\<close> to the library, up to \<open>tr'\<close>, and whether it is then removed.\<close>

definition handed_over :: "ucs_lib \<Rightarrow> UnicensCmdEntry_t \<Rightarrow> Ucs_InitData_t \<Rightarrow> ucsi_out list \<Rightarrow> ucsi_out list \<Rightarrow> bool \<Rightarrow> bool" where
  "handed_over L e i tr tr' removed \<longleftrightarrow> (case call_of e i of
     None \<Rightarrow> tr' = tr \<and> removed
   | Some c \<Rightarrow> \<exists>pre post. tr' = tr @ pre @ Lib c # post \<and> (\<forall>x \<in> set pre. \<not> is_lib x \<and> \<not> is_result x) \<and>
       (let ok = lib_success L (tr @ pre) c
        in removed = (\<not> (ok \<and> answered_later e)) \<and>
           filter is_result post =
             (if ok \<or> e = ProgramExit then [] else [CB_OnCommandResult (cmd e) False (refusal_node e)])))"

lemma handed_overI:
  assumes "call_of e i = Some c" and "asked_service s1 c s2" and "trace s1 = tr @ pre"
    and "\<forall>x \<in> set pre. \<not> is_lib x \<and> \<not> is_result x"
    and "trace s3 = trace s2 @ ext"
    and "filter is_result ext = (if lib_success L (tr @ pre) c \<or> e = ProgramExit then []
      else [CB_OnCommandResult (cmd e) False (refusal_node e)])"
    and "removed = (\<not> (lib_success L (tr @ pre) c \<and> answered_later e))"
  shows "handed_over L e i tr (trace s3) removed"
proof -
  obtain n where "trace s2 = trace s1 @ Lib c # replicate n CB_OnServiceRequired"
    using assms(2) by (auto simp: asked_service_def)
  then have "trace s3 = tr @ pre @ Lib c # (replicate n CB_OnServiceRequired @ ext)"
    using assms by simp
  moreover have "filter is_result (replicate n CB_OnServiceRequired @ ext) = filter is_result ext"
    by simp
  ultimately show ?thesis
    unfolding handed_over_def assms(1) option.case Let_def
    using assms(4,6,7)
    by (intro exI [of _ pre] exI [of _ "replicate n CB_OnServiceRequired @ ext"]) simp
qed

lemma call_handed_over:
  assumes L: "lib_async L" and c: "is_command c" "call_of e i = Some c"
    and s: "trace s = tr @ pre" "\<forall>x \<in> set pre. \<not> is_lib x \<and> \<not> is_result x"
    and g: "\<And>s1. okR (g (lib_success L (tr @ pre) c, s1)) (\<lambda>(removed, s3). \<exists>ext.
       trace s3 = trace s1 @ ext \<and>
       filter is_result ext = (if lib_success L (tr @ pre) c \<or> e = ProgramExit then []
         else [CB_OnCommandResult (cmd e) False (refusal_node e)]) \<and>
       removed = (\<not> (lib_success L (tr @ pre) c \<and> answered_later e)))"
  shows "okR (bindR (lib_call L c s) g) (\<lambda>(removed, s'). handed_over L e i tr (trace s') removed)"
proof -
  obtain s1 where s1: "lib_call L c s = Inr (lib_success L (tr @ pre) c, s1)" "asked_service s c s1"
    using lib_call_command [OF L c(1), of s] s(1) by (auto simp: okR_ex)
  from g [of s1] show ?thesis
    unfolding s1(1) bindR_Inr
    by (rule okR_mono) (use handed_overI [OF c(2) s1(2) s] in auto)
qed

lemma exec_command_handed_over:
  assumes L: "lib_async L" and e: "entry_ok e"
  shows "okR (exec_command L e s) (\<lambda>(removed, s').
     handed_over L e (uniInitData (my s)) (trace s) (trace s') removed)"
proof -
  note now = call_handed_over [OF L, where pre = "[]" and tr = "trace s"]
  note plain = now [where g = "\<lambda>(ok, s). Inr (if ok then (False, s) else (True, failed s))" for failed]
  show ?thesis
  proof (cases e)
    case (RmSetRoute c)
    obtain a where a: "endpoint_node_address (sink_endpoint_ptr (rsr_routePtr c)) = Inr a"
      using e RmSetRoute endpoint_node_address_ok by (auto simp: wf_route_def okR_ex)
    show ?thesis
      unfolding RmSetRoute exec_command.simps
      by (rule now) (simp_all add: answered_later_def a split: prod.split)
  next
    case (NsRun c)
    show ?thesis
      unfolding NsRun exec_command.simps by (rule now) (simp_all add: answered_later_def)
  next
    case ProgramExit
    show ?thesis
      unfolding ProgramExit exec_command.simps by (rule now) (auto simp: answered_later_def)
  next
    case EntryUnknown
    then show ?thesis by (simp add: handed_over_def)
  next
    case (SupvMode c)
    show ?thesis
      unfolding SupvMode exec_command.simps submit_def
      by (rule call_handed_over [OF L, where tr = "trace s"])
        (auto simp: answered_later_def)
  next
    case (I2CWrite c)
    show ?thesis
      unfolding I2CWrite exec_command.simps submit_def
      by (rule plain) (auto simp: answered_later_def Let_def)
  next
    case (SendAms c)
    show ?thesis
      unfolding SendAms exec_command.simps submit_def
      by (rule plain) (auto simp: answered_later_def)
  qed ((simp only: exec_command.simps submit_def, rule plain; auto simp: answered_later_def)+)
qed

text \<open>
  C9: Commands run one at a time, oldest first. While one is in progress, or with an empty
  queue, servicing the commands does nothing at all. Otherwise exactly the call that belongs
  to the oldest entry goes to the library. When the library takes it and answers later, the
  entry stays as the command in progress and nothing is reported; in every other case it is
  removed, and a refusal is reported to the integrator exactly once, with the command and the
  node it was for (leaving programming mode only gives a message).
\<close>

theorem service_one_command:
  assumes inv: "ucsi_inv P s" and L: "lib_async L"
  shows "okR (service_command L s) (\<lambda>s'. ucsi_inv P s' \<and>
     (if currentCmd (my s) \<noteq> None \<or> pending s = [] then s' = s
      else \<exists>removed. handed_over L (hd (pending s)) (uniInitData (my s)) (trace s) (trace s') removed \<and>
        (if removed then currentCmd (my s') = None \<and> pending s' = tl (pending s)
         else currentCmd (my s') \<noteq> None \<and> pending s' = pending s)))"
proof (cases "currentCmd (my s) \<noteq> None \<or> pending s = []")
  case True
  moreover have "rb_inv (rb (my s))" using inv by (simp add: ucsi_inv_def my_ok_def)
  ultimately show ?thesis
    using inv by (auto simp: service_command_def RB_read_ptr(1) pending_def)
next
  case False
  then have idle: "currentCmd (my s) = None" and ne: "pending s \<noteq> []" by auto
  have rbi: "rb_inv (rb (my s))" using inv by (simp add: ucsi_inv_def my_ok_def)
  let ?e = "hd (pending s)" and ?s = "upd (\<lambda>d. d\<lparr>currentCmd := Some (pRx (rb (my s)))\<rparr>) s"
  have pend: "pending ?s = pending s" "currentCmd (my ?s) \<noteq> None" by (simp_all add: pending_def)
  have ok: "entry_ok ?e" using inv ne by (simp add: ucsi_inv_def)
  have "okR (exec_command L ?e ?s) (\<lambda>r. (case r of (pop, s1) \<Rightarrow> exec_frame ?e pop ?s s1) \<and>
      (case r of (pop, s1) \<Rightarrow> handed_over L ?e (uniInitData (my s)) (trace s) (trace s1) pop))"
    using exec_command_okR [OF L ok, of ?s] exec_command_handed_over [OF L ok, of ?s]
    by (simp add: okR_conj)
  then obtain pop s1 where s1: "exec_command L ?e ?s = Inr (pop, s1)" "exec_frame ?e pop ?s s1"
    "handed_over L ?e (uniInitData (my s)) (trace s) (trace s1) pop" by (auto simp: okR_ex)
  have inv2: "ucsi_inv P s1" "pending s1 = pending s"
    using exec_frame_inv [OF ucsi_inv_start [OF inv idle ne] pend(2)] s1(2) pend(1) by auto
  have cur: "currentCmd (my s1) \<noteq> None" using s1(2) by (auto simp: exec_frame_def)
  have rbe: "rb (my s1) = rb (my s)" using s1(2) by (auto simp: exec_frame_def)
  let ?pop = "upd (\<lambda>d. d\<lparr>currentCmd := None, rb := RB_PopReadPtr (rb d)\<rparr>) s1"
  have "okR (service_command L s) (ucsi_inv P)" using service_command_inv [OF inv L] .
  moreover have "service_command L s = Inr (if pop then ?pop else s1)"
    using idle ne s1(1) RB_read_ptr [OF rbi] by (simp add: service_command_def pending_def)
  moreover have "pending ?pop = tl (pending s)"
    using RB_pop_ptr(2) [OF rbi] ne rbe by (simp add: pending_def)
  ultimately show ?thesis using False s1(3) inv2(2) cur by (auto intro!: exI [of _ pop])
qed

lemma demo_queued:
  assumes "entry_ok e"
  shows "okR (EnqueueCommand e demo) (\<lambda>(ok, s'). ok \<and> ucsi_inv {} s' \<and> pending s' = [e] \<and>
     currentCmd (my s') = None)"
  by (rule okR_mono [OF EnqueueCommand_okR [OF demo_inv(1) assms]])
    (auto simp: queue_full_def demo_inv queued_def CMD_QUEUE_LEN_def)

definition run_demo :: "ucsi_op list \<Rightarrow> ucsi" where
  "run_demo ops = (case foldR (run_op demo_lib) ops demo of Inr s \<Rightarrow> s | Inl _ \<Rightarrow> demo)"

lemma run_demo_inv:
  assumes "\<forall>op \<in> set ops. op_ok {} op"
  shows "ucsi_inv {} (run_demo ops)"
proof -
  have "okR (foldR (run_op demo_lib) ops demo) (ucsi_inv {})"
    using assms by (intro foldR_okR demo_inv(1)) (auto intro: run_op_inv demo_lib_ok)
  then show ?thesis by (auto simp: run_demo_def okR_ex)
qed

theorem service_one_command_witness:
  "okR (service_command demo_lib (run_demo [OpI2CRead 0x270 0x2A 100 4])) (\<lambda>s'. ucsi_inv {} s' \<and>
     (if currentCmd (my (run_demo [OpI2CRead 0x270 0x2A 100 4])) \<noteq> None \<or>
         pending (run_demo [OpI2CRead 0x270 0x2A 100 4]) = []
      then s' = run_demo [OpI2CRead 0x270 0x2A 100 4]
      else \<exists>removed. handed_over demo_lib (hd (pending (run_demo [OpI2CRead 0x270 0x2A 100 4])))
          (uniInitData (my (run_demo [OpI2CRead 0x270 0x2A 100 4])))
          (trace (run_demo [OpI2CRead 0x270 0x2A 100 4])) (trace s') removed \<and>
        (if removed then currentCmd (my s') = None \<and>
           pending s' = tl (pending (run_demo [OpI2CRead 0x270 0x2A 100 4]))
         else currentCmd (my s') \<noteq> None \<and>
           pending s' = pending (run_demo [OpI2CRead 0x270 0x2A 100 4]))))"
  by (rule service_one_command [OF run_demo_inv demo_lib_ok(2)]) simp



text \<open>
  C24: A route command in progress is completed by the result of exactly its route: success
  means built for an activation and destroyed for a deactivation. It is removed, no route
  stays pending, the result is reported, and the route's new state with its connection label
  goes to the integrator (updates of the delay measurement excepted).
\<close>

theorem route_command_completed:
  assumes inv: "ucsi_inv P s" and cur: "currentCmd (my s) \<noteq> None"
    and hd: "hd (pending s) = RmSetRoute c" and pend: "pendingRoutePtr (my s) = Some (route_addr r)"
    and info: "info \<noteq> UCS_RM_ROUTE_INFOS_ATD_UPDATE" "info \<noteq> UCS_RM_ROUTE_INFOS_ATD_ERROR"
  shows "okR (OnUnicensRoutingResult L (Some r) info s) (\<lambda>s'. ucsi_inv P s' \<and>
     currentCmd (my s') = None \<and> pendingRoutePtr (my s') = None \<and> pending s' = tl (pending s) \<and>
     CB_OnCommandResult UnicensCmd_RmSetRoute
       (info = (if rsr_isActive c then UCS_RM_ROUTE_INFOS_BUILT else UCS_RM_ROUTE_INFOS_DESTROYED))
       UNKNOWN_NODE_ADDR \<in> set (trace s') \<and>
     (\<exists>label. last (trace s') = CB_OnRouteResult (route_id r) (info = UCS_RM_ROUTE_INFOS_BUILT) label))"
proof -
  let ?ok = "info = (if rsr_isActive c then UCS_RM_ROUTE_INFOS_BUILT else UCS_RM_ROUTE_INFOS_DESTROYED)"
  obtain p where p: "currentCmd (my s) = Some p" using cur by auto
  obtain s1 where s1: "OnCommandExecuted UnicensCmd_RmSetRoute ?ok s = Inr s1"
    "completed UnicensCmd_RmSetRoute ?ok s s1" "ucsi_inv P (upd (\<lambda>d. d\<lparr>pendingRoutePtr := None\<rparr>) s1)"
    using OnCommandExecuted_okR [OF inv, of UnicensCmd_RmSetRoute ?ok] by (auto simp: okR_ex)
  let ?s1 = "upd (\<lambda>d. d\<lparr>pendingRoutePtr := None\<rparr>) s1"
  have c1: "currentCmd (my s1) = None" "pending s1 = tl (pending s)"
    "CB_OnCommandResult UnicensCmd_RmSetRoute ?ok UNKNOWN_NODE_ADDR \<in> set (trace s1)"
    using s1(2) cur hd by (auto simp: completed_def)
  have first: "(if map_option route_addr (Some r) = pendingRoutePtr (my s) then
              bindR (derefR (currentCmd (my s))) (\<lambda>p.
              bindR (RB_read (rb (my s)) p) (\<lambda>e.
              bindR (OnCommandExecuted UnicensCmd_RmSetRoute
                       (if rmSetRoute_isActive e then info = UCS_RM_ROUTE_INFOS_BUILT
                        else info = UCS_RM_ROUTE_INFOS_DESTROYED) s) (\<lambda>s.
              Inr (upd (\<lambda>d. d\<lparr>pendingRoutePtr := None\<rparr>) s))))
            else Inr s) = Inr ?s1"
    using p pend current_read(2) [OF inv p] hd s1(1) by (cases "rsr_isActive c") simp_all
  let ?l = "lib_label L (trace ?s1) (route_addr r)"
  let ?s2 = "emit (Lib (Ucs_Rm_GetConnectionLabel (route_addr r))) ?s1"
  have inv2: "ucsi_inv P ?s2" using s1(3) by simp
  then have "print_safe P (pm ?s2)" unfolding ucsi_inv_def by blast
  from do_print_okR [OF print_keeps_SetRouteState this, of "route_id r" "info = UCS_RM_ROUTE_INFOS_BUILT" ?l]
  obtain s3 where s3: "do_print (UCSIPrint_SetRouteState (route_id r) (info = UCS_RM_ROUTE_INFOS_BUILT) ?l) ?s2
      = Inr s3" "print_frame ?s2 s3" "print_safe P (pm s3)" by (auto simp: okR_ex)
  have "ucsi_inv P s3" using print_frame_inv [OF s3(2) inv2 s3(3)] .
  moreover have "currentCmd (my s3) = None" "pendingRoutePtr (my s3) = None" "pending s3 = tl (pending s)"
    using print_frame_fields [OF s3(2)] c1 by (simp_all add: pending_def)
  moreover have "set (trace s1) \<subseteq> set (trace s3)" using s3(2) by (auto simp: print_frame_def)
  ultimately show ?thesis
    using info s3(1) c1(3) unfolding OnUnicensRoutingResult_def first bindR_Inr by (auto simp: Let_def)
qed

text \<open>A state with the entry \<open>e\<close> in progress, for the examples.\<close>

definition holding :: "UnicensCmdEntry_t \<Rightarrow> nat option \<Rightarrow> ucsi" where
  "holding e route = upd (\<lambda>d. d\<lparr>currentCmd := Some 0, pendingRoutePtr := route,
     rb := \<lparr>dataQueue = replicate 40 e, pRx = 0, pTx = 88, amountOfEntries = 40,
            sizeOfEntry = 88, rxPos = 0, txPos = 1\<rparr>\<rparr>) demo"

lemma holding_inv:
  assumes "entry_ok e" and "route \<noteq> None \<longrightarrow> cmd e = UnicensCmd_RmSetRoute"
  shows "ucsi_inv {} (holding e route)" and "pending (holding e route) = [e]"
    and "currentCmd (my (holding e route)) = Some 0" and "pendingRoutePtr (my (holding e route)) = route"
proof -
  let ?rb = "rb (my (holding e route))"
  have sh: "rb_shape ?rb 40 88 0 1"
    by (simp add: holding_def rb_shape_def rb_count_def)
  then have inv: "rb_inv ?rb" by (auto simp: rb_inv_def)
  show p: "pending (holding e route) = [e]"
    unfolding pending_def rb_list_shape [OF sh] by (simp add: holding_def)
  show c: "currentCmd (my (holding e route)) = Some 0" "pendingRoutePtr (my (holding e route)) = route"
    by (simp_all add: holding_def)
  have "pRx ?rb = 0" by (simp add: holding_def)
  then have "current_ok (holding e route)"
    using assms(2) p c by (auto simp: current_ok_def)
  moreover have "my_ok (my (holding e route))"
    using demo_inv(1) inv by (simp add: ucsi_inv_def my_ok_def holding_def rb_capacity_def CMD_QUEUE_LEN_def)
  ultimately show "ucsi_inv {} (holding e route)"
    using assms(1) demo_inv(1) p by (simp add: ucsi_inv_def) (simp add: holding_def)
qed

definition example_route_entry :: UnicensCmdEntry_t where
  "example_route_entry = RmSetRoute \<lparr>rsr_routePtr = example_route, rsr_isActive = True\<rparr>"

lemma example_route_entry_ok:
  "entry_ok example_route_entry" "cmd example_route_entry = UnicensCmd_RmSetRoute"
  by (simp_all add: example_route_entry_def example_route_def wf_route_def wf_endpoint_def)

theorem route_command_completed_witness:
  "okR (OnUnicensRoutingResult demo_lib (Some example_route) UCS_RM_ROUTE_INFOS_BUILT
          (holding example_route_entry (Some (route_addr example_route)))) (\<lambda>s'. ucsi_inv {} s' \<and>
     currentCmd (my s') = None \<and> pendingRoutePtr (my s') = None \<and>
     pending s' = tl (pending (holding example_route_entry (Some (route_addr example_route)))) \<and>
     CB_OnCommandResult UnicensCmd_RmSetRoute
       (UCS_RM_ROUTE_INFOS_BUILT = (if rsr_isActive \<lparr>rsr_routePtr = example_route, rsr_isActive = True\<rparr>
          then UCS_RM_ROUTE_INFOS_BUILT else UCS_RM_ROUTE_INFOS_DESTROYED))
       UNKNOWN_NODE_ADDR \<in> set (trace s') \<and>
     (\<exists>label. last (trace s') = CB_OnRouteResult (route_id example_route)
        (UCS_RM_ROUTE_INFOS_BUILT = UCS_RM_ROUTE_INFOS_BUILT) label))"
  by (rule route_command_completed [where c = "\<lparr>rsr_routePtr = example_route, rsr_isActive = True\<rparr>"])
    (simp_all add: holding_inv example_route_entry_ok, simp add: example_route_entry_def)

text \<open>
  A failed start is repeated: when the library reports that the initialisation in
  progress has failed, the layer is marked as not initialised, the failure is reported, and a
  new initialisation is queued behind the commands that were waiting; there is always room
  for it.
\<close>

theorem failed_init_restarts:
  assumes inv: "ucsi_inv P s" and cur: "currentCmd (my s) \<noteq> None" and hd: "hd (pending s) = EntryInit"
  shows "okR (OnUcsInitResult code False s) (\<lambda>s'. ucsi_inv P s' \<and> \<not> initialized (my s') \<and>
     currentCmd (my s') = None \<and> pending s' = tl (pending s) @ [EntryInit] \<and>
     CB_OnCommandResult UnicensCmd_Init False LOCAL_NODE_ADDR \<in> set (trace s'))"
proof -
  let ?s = "upd (\<lambda>d. d\<lparr>initialized := False\<rparr>) s"
  have inv0: "ucsi_inv P ?s" and p0: "pending ?s = pending s"
    using inv by (auto simp: ucsi_inv_upd pending_def)
  obtain s1 where s1: "OnCommandExecuted UnicensCmd_Init False ?s = Inr s1" "ucsi_inv P s1"
    "completed UnicensCmd_Init False ?s s1"
    using OnCommandExecuted_inv [OF inv0, of UnicensCmd_Init False] by (auto simp: okR_ex)
  have c1: "currentCmd (my s1) = None" "pending s1 = tl (pending s)" "\<not> initialized (my s1)"
    "CB_OnCommandResult UnicensCmd_Init False LOCAL_NODE_ADDR \<in> set (trace s1)"
    using s1(3) cur hd p0 by (auto simp: completed_def)
  let ?s1 = "message UCSI_MsgError ''UcsInitResult reported error (0x%X), restarting...'' [MInt code] s1"
  have "length (pending s) \<le> CMD_QUEUE_LEN"
    using inv rb.bounded [of "rb (my s)"] by (simp add: ucsi_inv_def my_ok_def pending_def)
  then have room: "\<not> queue_full ?s1"
    using current_read(1) [OF inv] cur c1(2)
    by (cases "pending s") (auto simp: queue_full_def)
  have "okR (EnqueueCommand EntryInit ?s1) (\<lambda>(ok, s'). ucsi_inv P s' \<and> queued EntryInit ?s1 s')"
    by (rule okR_mono [OF EnqueueCommand_okR]) (use s1(2) room in auto)
  then show ?thesis
    using s1(1) c1 by (auto simp: OnUcsInitResult_def queued_def elim!: okR_mono)
qed

theorem failed_init_restarts_witness:
  "okR (OnUcsInitResult 3 False (holding EntryInit None)) (\<lambda>s'. ucsi_inv {} s' \<and>
     \<not> initialized (my s') \<and> currentCmd (my s') = None \<and>
     pending s' = tl (pending (holding EntryInit None)) @ [EntryInit] \<and>
     CB_OnCommandResult UnicensCmd_Init False LOCAL_NODE_ADDR \<in> set (trace s'))"
  by (rule failed_init_restarts) (simp_all add: holding_inv)

section \<open>Supervisor modes\<close>

text \<open>The queue behind a mode command that is just being completed.\<close>

definition after_mode_command :: "ucsi \<Rightarrow> UnicensCmdEntry_t list" where
  "after_mode_command s =
     (if currentCmd (my s) \<noteq> None \<and> cmd (hd (pending s)) = UnicensCmd_SupvSetMode
      then tl (pending s) else pending s)"

text \<open>
  C18: The supervisor is driven to the mode that is wanted. When the library reports that a
  mode is ready, a mode command in progress is completed; then, exactly when the wanted mode
  is another one (and, after a cable diagnosis, only once the network is inactive) and the
  queue has room, one command for the wanted mode is queued behind the waiting ones. When the
  wanted mode is the reported one nothing is queued: the switching has come to rest.
\<close>

theorem supervisor_driven_to_mode:
  assumes inv: "ucsi_inv P s"
  shows "okR (OnSupvModeReport mode UCS_SUPV_STATE_READY s) (\<lambda>s'. ucsi_inv P s' \<and>
     supvShallMode (my s') = supvShallMode (my s) \<and>
     (let waiting = after_mode_command s
      in pending s' = waiting @
        (if supvShallMode (my s) \<noteq> mode \<and>
            (switchOnlyInInactive (my s) \<longrightarrow> mode = UCS_SUPV_MODE_INACTIVE) \<and>
            length waiting < CMD_QUEUE_LEN
         then [SupvMode \<lparr>supvMode = supvShallMode (my s)\<rparr>] else [])))"
proof -
  let ?s = "message UCSI_MsgDebug (''Supervisor mode='' @ quoted ''%s'' @ '', state='' @ quoted ''%s'')
              [MStr (GetSupervisorModeString mode), MStr (supv_state_string UCS_SUPV_STATE_READY)] s"
  have inv1: "ucsi_inv P ?s" using inv by simp
  have first: "okR (case currentCmd (my ?s) of
                  None \<Rightarrow> Inr ?s
                | Some p \<Rightarrow> bindR (RB_read (rb (my ?s)) p) (\<lambda>e.
                    if cmd e = UnicensCmd_SupvSetMode
                    then OnCommandExecuted UnicensCmd_SupvSetMode True ?s else Inr ?s))
      (\<lambda>s1. ucsi_inv P s1 \<and> pending s1 = after_mode_command s \<and>
         supvShallMode (my s1) = supvShallMode (my s) \<and>
         switchOnlyInInactive (my s1) = switchOnlyInInactive (my s))"
  proof (cases "currentCmd (my ?s)")
    case None
    then show ?thesis using inv1 by (simp add: after_mode_command_def)
  next
    case (Some p)
    then show ?thesis using inv1 current_read(2) [OF inv1 Some]
      by (auto simp: after_mode_command_def completed_def intro!: okR_mono [OF OnCommandExecuted_inv])
  qed
  then obtain s1 where s1: "(case currentCmd (my ?s) of
                  None \<Rightarrow> Inr ?s
                | Some p \<Rightarrow> bindR (RB_read (rb (my ?s)) p) (\<lambda>e.
                    if cmd e = UnicensCmd_SupvSetMode
                    then OnCommandExecuted UnicensCmd_SupvSetMode True ?s else Inr ?s)) = Inr s1"
    "ucsi_inv P s1" "pending s1 = after_mode_command s" "supvShallMode (my s1) = supvShallMode (my s)"
    "switchOnlyInInactive (my s1) = switchOnlyInInactive (my s)" by (auto simp: okR_ex)
  let ?s2 = "upd (\<lambda>d. d\<lparr>switchOnlyInInactive := False\<rparr>) s1"
  have s2: "ucsi_inv P ?s2" "pending ?s2 = after_mode_command s" "rb (my ?s2) = rb (my s1)"
    using s1(2,3) by (auto simp: ucsi_inv_upd pending_def)
  have le: "length (after_mode_command s) \<le> CMD_QUEUE_LEN"
    using s1(2,3) rb.bounded [of "rb (my s1)"] by (simp add: ucsi_inv_def my_ok_def pending_def)
  have room: "(RB_GetWritePtr (rb (my ?s2)) = None) = (length (after_mode_command s) = CMD_QUEUE_LEN)"
    using GetWritePtr_full [OF s2(1)] s2(2) by (simp add: queue_full_def)
  have q: "okR (enqueue_in_place (SupvMode \<lparr>supvMode = supvShallMode (my s1)\<rparr>) e ?s2) (\<lambda>s'.
      ucsi_inv P s' \<and> supvShallMode (my s') = supvShallMode (my s) \<and>
      pending s' = after_mode_command s @ [SupvMode \<lparr>supvMode = supvShallMode (my s)\<rparr>])"
    if "RB_GetWritePtr (rb (my ?s2)) = Some e" for e
    by (rule okR_mono [OF enqueue_in_place_okR [OF s2(1) that]])
      (use s1(4) s2(2) in \<open>auto simp: queued_def\<close>)
  let ?go = "supvShallMode (my s) \<noteq> mode \<and> (switchOnlyInInactive (my s) \<longrightarrow> mode = UCS_SUPV_MODE_INACTIVE)"
  have eq: "OnSupvModeReport mode UCS_SUPV_STATE_READY s =
      (if ?go then case RB_GetWritePtr (rb (my ?s2)) of
           None \<Rightarrow> Inr (message UCSI_MsgError
             ''Could not enqueue SupvMode command. Increase CMD_QUEUE_LEN define'' [] ?s2)
         | Some e \<Rightarrow> enqueue_in_place (SupvMode \<lparr>supvMode = supvShallMode (my s1)\<rparr>) e ?s2
       else Inr s1)"
    unfolding OnSupvModeReport_def Let_def using s1(4,5)
    by (simp only: Ucs_Supv_State_t.distinct simp_thms if_False if_True s1(1) bindR_Inr)
      (auto cong: option.case_cong)
  show ?thesis
  proof (cases ?go)
    case False
    then show ?thesis using s1 by (auto simp: eq)
  next
    case True
    show ?thesis
    proof (cases "RB_GetWritePtr (rb (my ?s2))")
      case None
      then show ?thesis using True room s1 s2 by (auto simp: eq)
    next
      case (Some e)
      then have "length (after_mode_command s) < CMD_QUEUE_LEN" using room le by auto
      then show ?thesis using True Some q [OF Some] by (simp add: eq Let_def)
    qed
  qed
qed

definition mode_entry :: "Ucs_Supv_Mode_t \<Rightarrow> UnicensCmdEntry_t" where
  "mode_entry m = SupvMode \<lparr>supvMode = m\<rparr>"

definition wanting :: "Ucs_Supv_Mode_t \<Rightarrow> ucsi \<Rightarrow> ucsi" where
  "wanting m = upd (\<lambda>d. d\<lparr>supvShallMode := m\<rparr>)"

lemma wanting_inv: "ucsi_inv P s \<Longrightarrow> ucsi_inv P (wanting m s)"
  by (simp add: wanting_def ucsi_inv_upd)

theorem supervisor_driven_to_mode_witness:
  "okR (OnSupvModeReport UCS_SUPV_MODE_INACTIVE UCS_SUPV_STATE_READY
          (wanting UCS_SUPV_MODE_DIAGNOSIS (holding (mode_entry UCS_SUPV_MODE_INACTIVE) None)))
     (\<lambda>s'. ucsi_inv {} s' \<and> supvShallMode (my s') =
        supvShallMode (my (wanting UCS_SUPV_MODE_DIAGNOSIS (holding (mode_entry UCS_SUPV_MODE_INACTIVE) None))) \<and>
     (let waiting = after_mode_command
            (wanting UCS_SUPV_MODE_DIAGNOSIS (holding (mode_entry UCS_SUPV_MODE_INACTIVE) None))
      in pending s' = waiting @
        (if supvShallMode (my (wanting UCS_SUPV_MODE_DIAGNOSIS (holding (mode_entry UCS_SUPV_MODE_INACTIVE) None)))
              \<noteq> UCS_SUPV_MODE_INACTIVE \<and>
            (switchOnlyInInactive (my (wanting UCS_SUPV_MODE_DIAGNOSIS
                (holding (mode_entry UCS_SUPV_MODE_INACTIVE) None))) \<longrightarrow>
              UCS_SUPV_MODE_INACTIVE = UCS_SUPV_MODE_INACTIVE) \<and>
            length waiting < CMD_QUEUE_LEN
         then [SupvMode \<lparr>supvMode = supvShallMode (my (wanting UCS_SUPV_MODE_DIAGNOSIS
                (holding (mode_entry UCS_SUPV_MODE_INACTIVE) None)))\<rparr>] else [])))"
  by (rule supervisor_driven_to_mode, rule wanting_inv, rule holding_inv) (simp_all add: mode_entry_def)

section \<open>Configuration\<close>



text \<open>A state with \<open>n\<close> entries waiting and none in progress, for the examples.\<close>

definition crowded :: "nat \<Rightarrow> UnicensCmdEntry_t \<Rightarrow> ucsi" where
  "crowded n e = upd (\<lambda>d. d\<lparr>initialized := True,
     rb := \<lparr>dataQueue = replicate 40 e, pRx = 0, pTx = (n mod 40) * 88, amountOfEntries = 40,
            sizeOfEntry = 88, rxPos = 0, txPos = of_nat n\<rparr>\<rparr>) demo"

lemma crowded_inv:
  assumes "entry_ok e" and n: "n \<le> 40"
  shows "ucsi_inv {} (crowded n e)" and "pending (crowded n e) = replicate n e"
    and "initialized (my (crowded n e))"
proof -
  let ?rb = "rb (my (crowded n e))"
  have "unat (of_nat n :: u32) = n" using n by (simp add: unat_of_nat take_bit_eq_mod)
  then have sh: "rb_shape ?rb 40 88 0 n"
    using n by (simp add: crowded_def rb_shape_def rb_count_def)
  then have inv: "rb_inv ?rb" by (auto simp: rb_inv_def)
  show p: "pending (crowded n e) = replicate n e"
    unfolding pending_def rb_list_shape [OF sh]
    by (rule nth_equalityI) (use n in \<open>simp_all add: crowded_def\<close>)
  show "initialized (my (crowded n e))" by (simp add: crowded_def)
  have "current_ok (crowded n e)"
    using demo_inv(1,3) by (simp add: ucsi_inv_def current_ok_def crowded_def)
  moreover have "my_ok (my (crowded n e))"
    using demo_inv(1) inv by (simp add: ucsi_inv_def my_ok_def crowded_def rb_capacity_def CMD_QUEUE_LEN_def)
  moreover have "outs_ok (crowded n e)" using demo_inv(1) by (simp add: ucsi_inv_def crowded_def)
  ultimately show "ucsi_inv {} (crowded n e)"
    using assms(1) demo_inv(1) p by (auto simp: ucsi_inv_def) (simp add: crowded_def)
qed

text \<open>
  With exactly one free entry, replacing a running configuration stops the library and
  does not start it again: the call reports failure, but the stop command is queued, the
  parameters are already exchanged, and no start command follows.
\<close>

theorem new_config_half_done:
  assumes inv: "ucsi_inv P s" and r: "routes_ok routes n" and init: "initialized (my s)"
    and one: "length (pending s) + 1 = CMD_QUEUE_LEN"
  shows "okR (UCSI_NewConfig pb xb routes n nl nn k pst s) (\<lambda>(ok, s'). \<not> ok \<and>
     pending s' = pending s @ [EntryStop] \<and> routes_list_ptr (uniInitData (my s')) = routes)"
proof -
  obtain e where e: "RB_GetWritePtr (rb (my s)) = Some e"
    using GetWritePtr_full [OF inv] one by (cases "RB_GetWritePtr (rb (my s))") (auto simp: queue_full_def)
  obtain s1 where s1: "put_in_place EntryStop e s = Inr s1" "ucsi_inv P s1"
    "pending s1 = pending s @ [EntryStop]"
    using put_in_place_inv [OF inv e, of EntryStop] by (auto simp: okR_ex)
  let ?s2 = "upd (new_config_data pb xb routes n nl nn k pst) s1"
  have "ucsi_inv P ?s2" using new_config_inv [OF s1(2) r] .
  moreover have p2: "pending ?s2 = pending s1" by (simp add: pending_def new_config_data_def Let_def)
  moreover have "queue_full ?s2" using p2 s1(3) one by (simp add: queue_full_def)
  ultimately have "RB_GetWritePtr (rb (my ?s2)) = None" using GetWritePtr_full by blast
  then show ?thesis
    using e s1 p2 init by (simp add: UCSI_NewConfig_def Let_def) (simp add: new_config_data_def Let_def)
qed

theorem new_config_half_done_witness:
  "okR (UCSI_NewConfig 52 0 None 0 None 0 0 False (crowded 39 EntryUnknown)) (\<lambda>(ok, s'). \<not> ok \<and>
     pending s' = pending (crowded 39 EntryUnknown) @ [EntryStop] \<and>
     routes_list_ptr (uniInitData (my s')) = None)"
  by (rule new_config_half_done [OF crowded_inv(1)])
    (simp_all add: crowded_inv routes_ok_def CMD_QUEUE_LEN_def)

section \<open>Control messages and cable diagnosis\<close>

text \<open>
  A control message of the library goes out whole or not at all: when the bytes of its
  chain of buffers fit the transmit buffer of 72 bytes, exactly those bytes, in their order,
  are handed to the driver; otherwise nothing is sent and an error message is given. In both
  cases the message is released exactly once and the state does not change.
\<close>

theorem transmit_whole_message:
  assumes "\<forall>b \<in> set bufs. unat (mb_data_size b) \<le> length (mb_data_ptr b)"
    and "uniLld (my s)" "uniLldHPtr (my s)"
  shows "okR (OnLldCtrlTxTransmitC (Some bufs) s) (\<lambda>s'. my s' = my s \<and> pm s' = pm s \<and>
     (if length (chain_bytes bufs) \<le> 72
      then trace s' = trace s @ [Lib Lld_tx_release, CB_OnTxRequest (chain_bytes bufs)]
      else \<exists>f args. trace s' = trace s @ [CB_OnUserMessage UCSI_MsgError f args, Lib Lld_tx_release]))"
  using assms tx_gather_okR [of bufs "[]"]
  by (auto simp: OnLldCtrlTxTransmitC_def BOARD_PMS_TX_SIZE_def elim!: okR_mono split: sum.splits)

definition attached :: ucsi where
  "attached = upd (\<lambda>d. d\<lparr>uniLld := True, uniLldHPtr := True\<rparr>) demo"

theorem transmit_whole_message_witness:
  "okR (OnLldCtrlTxTransmitC (Some [\<lparr>mb_data_ptr = [1, 2, 3], mb_data_size = 3\<rparr>,
          \<lparr>mb_data_ptr = [4], mb_data_size = 1\<rparr>]) attached) (\<lambda>s'. my s' = my attached \<and> pm s' = pm attached \<and>
     (if length (chain_bytes [\<lparr>mb_data_ptr = [1, 2, 3], mb_data_size = 3\<rparr>,
           \<lparr>mb_data_ptr = [4], mb_data_size = 1\<rparr>]) \<le> 72
      then trace s' = trace attached @ [Lib Lld_tx_release,
        CB_OnTxRequest (chain_bytes [\<lparr>mb_data_ptr = [1, 2, 3], mb_data_size = 3\<rparr>,
           \<lparr>mb_data_ptr = [4], mb_data_size = 1\<rparr>])]
      else \<exists>f args. trace s' = trace attached @ [CB_OnUserMessage UCSI_MsgError f args, Lib Lld_tx_release]))"
  by (rule transmit_whole_message) (simp_all add: attached_def)

text \<open>
  A cable diagnosis report of a node at ring position 0 is written in front of the result
  array (index -1); every other position from 1 to 32 is stored at its place, larger ones
  are ignored, and afterwards normal mode is wanted, once the network is inactive.
\<close>

theorem cable_report_position:
  assumes "hdx_signature_ptr r = Some sg" and "length (cableResult (my s)) = MAX_NODES"
  shows "if hdx_position r = 0 then OnHdxReport r s = Inl OutOfBounds
     else okR (OnHdxReport r s) (\<lambda>s'.
       cableResult (my s') = (if unat (hdx_position r) \<le> 32
         then (cableResult (my s))[unat (hdx_position r) - 1 := node_address sg]
         else cableResult (my s)) \<and>
       switchOnlyInInactive (my s') \<and> supvShallMode (my s') = UCS_SUPV_MODE_NORMAL)"
  using assms by (auto simp: OnHdxReport_def MAX_NODES_def)

theorem cable_report_position_witness:
  "if hdx_position \<lparr>hdx_code = UCS_HDX_RES_SUCCESS, hdx_signature_ptr = Some zero_signature,
       hdx_cable_diag_result = 0, hdx_position = 0\<rparr> = 0
   then OnHdxReport \<lparr>hdx_code = UCS_HDX_RES_SUCCESS, hdx_signature_ptr = Some zero_signature,
       hdx_cable_diag_result = 0, hdx_position = 0\<rparr> demo = Inl OutOfBounds
   else okR (OnHdxReport \<lparr>hdx_code = UCS_HDX_RES_SUCCESS, hdx_signature_ptr = Some zero_signature,
       hdx_cable_diag_result = 0, hdx_position = 0\<rparr> demo) (\<lambda>s'.
       cableResult (my s') = (if unat (hdx_position \<lparr>hdx_code = UCS_HDX_RES_SUCCESS,
           hdx_signature_ptr = Some zero_signature, hdx_cable_diag_result = 0, hdx_position = 0\<rparr>) \<le> 32
         then (cableResult (my demo))[unat (hdx_position \<lparr>hdx_code = UCS_HDX_RES_SUCCESS,
           hdx_signature_ptr = Some zero_signature, hdx_cable_diag_result = 0, hdx_position = 0\<rparr>) - 1
             := node_address zero_signature]
         else cableResult (my demo)) \<and>
       switchOnlyInInactive (my s') \<and> supvShallMode (my s') = UCS_SUPV_MODE_NORMAL)"
  by (rule cable_report_position) (simp_all add: ucsi_inv_lengths [OF demo_inv(1)])

section \<open>Programming mode\<close>

text \<open>
  C19: Programming happens only in a network of the expected size. When all expected nodes
  have reported their signatures and programming is allowed, either no two of them conflict,
  and leaving programming mode is queued, or the first conflicting one is queued for
  programming with an identification string that a receiver accepts; with any other count the
  queue stays as it is.
\<close>

theorem programming_decision:
  assumes inv: "ucsi_inv P s" and room: "\<not> queue_full s"
  shows "okR (check_programming s) (\<lambda>s'. ucsi_inv P s' \<and>
     (let trigger = triggerNodeCount (program (my s));
          found = take (unat trigger) (nodes (program (my s)))
      in if allowProgramming (program (my s)) \<and> trigger \<noteq> 0 \<and> ProgrammingGetNodeCount s = trigger
         then (if 2 \<le> unat trigger \<and> (\<exists>j < length found. node_bad found j \<or> mac_bad found j)
           then \<exists>i c. pending s' = pending s @ [ProgramNode c] \<and> entry_ok (ProgramNode c) \<and>
             i < length found \<and> (node_bad found i \<or> mac_bad found i) \<and>
             (\<forall>j < i. \<not> node_bad found j \<and> \<not> mac_bad found j) \<and> pn_signature c = found ! i \<and>
             pn_mem_id c = (if persistent (program (my s)) then UCS_PRG_MID_IS else UCS_PRG_MID_ISTEST)
           else pending s' = pending s @ [ProgramExit] \<and> supvShallMode (my s') = UCS_SUPV_MODE_NORMAL)
         else pending s' = pending s))"
proof -
  let ?trigger = "triggerNodeCount (program (my s))"
  let ?found = "take (unat ?trigger) (nodes (program (my s)))"
  have check: "okR (check_programming s) (ucsi_inv P)" using check_programming_inv [OF inv] .
  show ?thesis
  proof (cases "allowProgramming (program (my s)) \<and> ?trigger \<noteq> 0 \<and> ProgrammingGetNodeCount s = ?trigger")
    case False
    then show ?thesis using check by (auto simp: check_programming_def Let_def)
  next
    case True
    let ?s = "message UCSI_MsgUrgent ''Check if programming needed, node count %d/%d''
                     [MInt (uint ?trigger), MInt (uint ?trigger)] s"
    have invs: "ucsi_inv P ?s" using inv by simp
    have rooms: "\<not> queue_full ?s" using room by (simp add: queue_full_def)
    obtain answer where a: "UCSI_CB_OnProgrammingModeDeviceDiscovery (nodes (program (my s))) (ucast ?trigger) = Inr answer"
      "2 \<le> unat ?trigger \<longrightarrow> unat ?trigger \<le> MAX_NODES \<and> discovery_spec ?found answer"
      using discovery_total [OF inv, of ?trigger] True by (auto simp: okR_ex)
    have run: "check_programming s = (case answer of None \<Rightarrow> leave_programming ?s
        | Some (i, ident) \<Rightarrow> queue_program (nodes (program (my s)) ! i) ident ?s)"
      using True a(1) by (simp add: check_programming_def Let_def)
    show ?thesis
    proof (cases answer)
      case None
      have none: "\<not> (2 \<le> unat ?trigger \<and> (\<exists>j < length ?found. node_bad ?found j \<or> mac_bad ?found j))"
        using a(2) None by (auto simp: discovery_spec_def)
      have "okR (leave_programming ?s) (\<lambda>s'. pending s' = pending s @ [ProgramExit] \<and>
          supvShallMode (my s') = UCS_SUPV_MODE_NORMAL)"
      proof -
        let ?n = "upd (\<lambda>d. d\<lparr>supvShallMode := UCS_SUPV_MODE_NORMAL\<rparr>) ?s"
        have n: "ucsi_inv P ?n" "\<not> queue_full ?n" "pending ?n = pending s"
          using invs rooms by (auto simp: ucsi_inv_upd queue_full_def pending_def)
        show ?thesis
          unfolding leave_programming_def ProgrammingExit_def okR_bindR
          by (rule okR_mono [OF EnqueueCommand_okR [OF n(1)]]) (use n in \<open>auto simp: queued_def\<close>)
      qed
      then have "okR (check_programming s) (\<lambda>s'. ucsi_inv P s' \<and> pending s' = pending s @ [ProgramExit] \<and>
          supvShallMode (my s') = UCS_SUPV_MODE_NORMAL)"
        using check None unfolding run by (simp add: okR_conj)
      then show ?thesis
        unfolding Let_def
        by (rule okR_mono) (simp only: True none simp_thms if_True if_False)
    next
      case (Some p)
      then obtain i ident where p: "answer = Some (i, ident)" by (cases p) auto
      have two: "2 \<le> unat ?trigger"
        using a(1) p by (cases "2 \<le> unat ?trigger")
          (auto simp: UCSI_CB_OnProgrammingModeDeviceDiscovery_def word_less_nat_alt split: if_splits)
      then have spec: "discovery_spec ?found (Some (i, ident))" using a(2) p by simp
      then have i: "i < length ?found" "node_bad ?found i \<or> mac_bad ?found i"
        "\<forall>j < i. \<not> node_bad ?found j \<and> \<not> mac_bad ?found j" by (auto simp: discovery_spec_def)
      let ?node = "nodes (program (my s)) ! i"
      have node: "?node = ?found ! i" using i(1) by simp
      obtain c where c: "program_entry (persistent (program (my s))) ?node ident = Inr (ProgramNode c)"
        "entry_ok (ProgramNode c)" "pn_signature c = ?node"
        "pn_mem_id c = (if persistent (program (my s)) then UCS_PRG_MID_IS else UCS_PRG_MID_ISTEST)"
        using program_entry_okR [of "persistent (program (my s))" ?node ident]
        by (auto simp: okR_ex program_entry_def bindR_eq_Inr_iff)
      obtain e where e: "RB_GetWritePtr (rb (my ?s)) = Some e"
        using GetWritePtr_full [OF invs] rooms by auto
      let ?s2 = "program_message ?node ident ?s"
      have s2: "ucsi_inv P ?s2" "RB_GetWritePtr (rb (my ?s2)) = Some e" "pending ?s2 = pending s"
        using invs e by (simp_all add: program_message_def)
      have "okR (queue_program ?node ident ?s) (\<lambda>s'. pending s' = pending s @ [ProgramNode c])"
        unfolding queue_program_def using e c(1)
        by (simp, intro okR_mono [OF enqueue_in_place_okR [OF s2(1,2) c(2)]]) (use s2(3) in \<open>simp add: queued_def\<close>)
      then have "okR (queue_program ?node ident ?s) (\<lambda>s'. ucsi_inv P s' \<and> pending s' = pending s @ [ProgramNode c])"
        using check run p by (simp add: okR_conj)
      then have q: "okR (check_programming s) (\<lambda>s'. ucsi_inv P s' \<and> pending s' = pending s @ [ProgramNode c])"
        using p unfolding run by simp
      have some: "2 \<le> unat ?trigger \<and> (\<exists>j < length ?found. node_bad ?found j \<or> mac_bad ?found j)"
        using two i by blast
      have sig: "pn_signature c = ?found ! i" using c(3) node by simp
      show ?thesis
        unfolding Let_def
      proof (rule okR_mono [OF q], elim conjE, intro conjI)
        fix s'
        assume s': "pending s' = pending s @ [ProgramNode c]"
        have "\<exists>i c. pending s' = pending s @ [ProgramNode c] \<and> entry_ok (ProgramNode c) \<and>
             i < length ?found \<and> (node_bad ?found i \<or> mac_bad ?found i) \<and>
             (\<forall>j < i. \<not> node_bad ?found j \<and> \<not> mac_bad ?found j) \<and> pn_signature c = ?found ! i \<and>
             pn_mem_id c = (if persistent (program (my s)) then UCS_PRG_MID_IS else UCS_PRG_MID_ISTEST)"
          by (intro exI [of _ i] exI [of _ c] conjI) (rule s' c(2) i sig c(4))+
        then show "if allowProgramming (program (my s)) \<and> ?trigger \<noteq> 0 \<and> ProgrammingGetNodeCount s = ?trigger
         then (if 2 \<le> unat ?trigger \<and> (\<exists>j < length ?found. node_bad ?found j \<or> mac_bad ?found j)
           then \<exists>i c. pending s' = pending s @ [ProgramNode c] \<and> entry_ok (ProgramNode c) \<and>
             i < length ?found \<and> (node_bad ?found i \<or> mac_bad ?found i) \<and>
             (\<forall>j < i. \<not> node_bad ?found j \<and> \<not> mac_bad ?found j) \<and> pn_signature c = ?found ! i \<and>
             pn_mem_id c = (if persistent (program (my s)) then UCS_PRG_MID_IS else UCS_PRG_MID_ISTEST)
           else pending s' = pending s @ [ProgramExit] \<and> supvShallMode (my s') = UCS_SUPV_MODE_NORMAL)
         else pending s' = pending s"
          using True some by (simp only: simp_thms if_True)
      qed
    qed
  qed
qed

definition programming_demo :: ucsi where
  "programming_demo = upd (\<lambda>d. d\<lparr>program := \<lparr>nodes = example_nodes @ replicate 29 zero_signature,
     signatureValid = replicate 3 True @ replicate 29 False, allowProgramming = True,
     persistent = False, triggerNodeCount = 3\<rparr>\<rparr>) demo"

lemma programming_demo_inv: "ucsi_inv {} programming_demo" "\<not> queue_full programming_demo"
proof -
  show "ucsi_inv {} programming_demo"
    unfolding programming_demo_def using demo_inv(1)
    by (intro ucsi_inv_upd_arrays) (simp_all add: ucsi_inv_lengths MAX_NODES_def example_nodes_def)
  have "pending programming_demo = pending demo" by (simp add: programming_demo_def pending_def)
  then show "\<not> queue_full programming_demo" by (simp add: demo_inv queue_full_def CMD_QUEUE_LEN_def)
qed

theorem programming_decision_witness:
  "okR (check_programming programming_demo) (\<lambda>s'. ucsi_inv {} s' \<and>
     (let trigger = triggerNodeCount (program (my programming_demo));
          found = take (unat trigger) (nodes (program (my programming_demo)))
      in if allowProgramming (program (my programming_demo)) \<and> trigger \<noteq> 0 \<and>
            ProgrammingGetNodeCount programming_demo = trigger
         then (if 2 \<le> unat trigger \<and> (\<exists>j < length found. node_bad found j \<or> mac_bad found j)
           then \<exists>i c. pending s' = pending programming_demo @ [ProgramNode c] \<and> entry_ok (ProgramNode c) \<and>
             i < length found \<and> (node_bad found i \<or> mac_bad found i) \<and>
             (\<forall>j < i. \<not> node_bad found j \<and> \<not> mac_bad found j) \<and> pn_signature c = found ! i \<and>
             pn_mem_id c = (if persistent (program (my programming_demo)) then UCS_PRG_MID_IS
               else UCS_PRG_MID_ISTEST)
           else pending s' = pending programming_demo @ [ProgramExit] \<and>
             supvShallMode (my s') = UCS_SUPV_MODE_NORMAL)
         else pending s' = pending programming_demo))"
  by (rule programming_decision) (rule programming_demo_inv)+

end
