(* ===== verification/C_Strtol.thy ===== *)
theory C_Strtol
  imports C_Text
begin

text \<open>
  \<open>strtol\<close> of the C library for the bases the sources use (0: by prefix, and 16), on a 64-bit
  \<open>long\<close>: leading white space, a sign, the prefix, then as many digits as there are; the value
  saturates at the ends of the range.
\<close>

section \<open>Conversion\<close>

definition is_space :: "char \<Rightarrow> bool" where
  "is_space c = (c = CHR '' '' \<or> (9 \<le> (of_char c :: nat) \<and> (of_char c :: nat) \<le> 13))"

definition digit_value :: "char \<Rightarrow> nat option" where
  "digit_value c = (let k = of_char c :: nat in
     if 48 \<le> k \<and> k \<le> 57 then Some (k - 48)
     else if 97 \<le> k \<and> k \<le> 122 then Some (k - 87)
     else if 65 \<le> k \<and> k \<le> 90 then Some (k - 55)
     else None)"

definition base_digit :: "nat \<Rightarrow> char \<Rightarrow> bool" where
  "base_digit base c = (case digit_value c of None \<Rightarrow> False | Some v \<Rightarrow> v < base)"

fun digits_value :: "nat \<Rightarrow> nat \<Rightarrow> string \<Rightarrow> nat" where
  "digits_value base acc [] = acc"
| "digits_value base acc (c # cs) =
     (if base_digit base c then digits_value base (acc * base + the (digit_value c)) cs else acc)"

definition prefix_x :: "string \<Rightarrow> bool" where
  "prefix_x cs = (take 2 cs = ''0x'' \<or> take 2 cs = ''0X'')"

definition strtol_abs :: "nat \<Rightarrow> string \<Rightarrow> nat" where
  "strtol_abs base cs =
     (if (base = 0 \<or> base = 16) \<and> prefix_x cs then digits_value 16 0 (drop 2 cs)
      else if base = 0 then digits_value (if take 1 cs = ''0'' then 8 else 10) 0 cs
      else digits_value base 0 cs)"

definition strtol :: "nat \<Rightarrow> string \<Rightarrow> int" where
  "strtol base txt =
     (let cs = dropWhile is_space txt
      in if take 1 cs = ''-'' then max (- (2 ^ 63)) (- int (strtol_abs base (drop 1 cs)))
         else min (2 ^ 63 - 1) (int (strtol_abs base (if take 1 cs = ''+'' then drop 1 cs else cs))))"

text \<open>The values of \<open>long\<close> that a cast to a narrower type cuts.\<close>

lemma strtol_range: "- (2 ^ 63) \<le> strtol base txt \<and> strtol base txt < 2 ^ 63"
  by (auto simp: strtol_def Let_def)

lemma strtol_nonneg: "take 1 (dropWhile is_space txt) \<noteq> ''-'' \<Longrightarrow> 0 \<le> strtol base txt"
  by (auto simp: strtol_def Let_def)

section \<open>Printed numbers are read back\<close>

lemma nat_less_16_cases:
  "d < (16 :: nat) \<Longrightarrow> d = 0 \<or> d = 1 \<or> d = 2 \<or> d = 3 \<or> d = 4 \<or> d = 5 \<or> d = 6 \<or> d = 7 \<or> d = 8
     \<or> d = 9 \<or> d = 10 \<or> d = 11 \<or> d = 12 \<or> d = 13 \<or> d = 14 \<or> d = 15"
  by presburger

lemma digit_value_hex_digit: "d < 16 \<Longrightarrow> digit_value (hex_digit d) = Some d"
  by (drule nat_less_16_cases) (elim disjE; simp add: digit_value_def hex_digit_def)

lemma base_digit_hex_digit: "d < base \<Longrightarrow> base \<le> 16 \<Longrightarrow> base_digit base (hex_digit d)"
  by (simp add: base_digit_def digit_value_hex_digit)

lemma not_space_hex_digit: "d < 16 \<Longrightarrow> \<not> is_space (hex_digit d)"
  by (drule nat_less_16_cases) (elim disjE; simp add: is_space_def hex_digit_def)

lemma digits_value_append:
  "\<forall>c \<in> set cs. base_digit base c \<Longrightarrow>
     digits_value base acc (cs @ ds) = digits_value base (digits_value base acc cs) ds"
  by (induction cs arbitrary: acc) simp_all

lemma hex_digit_mod: "hex_digit (n mod 16) = hex_digit n"
  by (simp add: hex_digit_def)

lemma hex_digits_digits: "c \<in> set (hex_digits n) \<Longrightarrow> \<exists>d < 16. c = hex_digit d"
proof (induction n rule: hex_digits.induct)
  case (1 n)
  have "\<exists>d < 16. hex_digit n = hex_digit d"
    by (intro exI [of _ "n mod 16"]) (simp add: hex_digit_mod)
  moreover from 1(2) have "c = hex_digit n \<or> (\<not> n < 16 \<and> c \<in> set (hex_digits (n div 16)))"
    by (subst (asm) hex_digits.simps) (auto split: if_splits)
  ultimately show ?case using 1(1) by blast
qed

lemma digits_value_hex_digits: "digits_value 16 0 (hex_digits n) = n"
proof (induction n rule: hex_digits.induct)
  case (1 n)
  have last: "base_digit 16 (hex_digit n)" "digit_value (hex_digit n) = Some (n mod 16)"
    using base_digit_hex_digit [of "n mod 16" 16] digit_value_hex_digit [of "n mod 16"]
    by (simp_all add: hex_digit_mod)
  show ?case
  proof (cases "n < 16")
    case True
    then show ?thesis
      by (subst hex_digits.simps) (simp add: base_digit_hex_digit digit_value_hex_digit)
  next
    case False
    have "\<forall>c \<in> set (hex_digits (n div 16)). base_digit 16 c"
      by (auto dest!: hex_digits_digits simp: base_digit_hex_digit)
    with False 1 show ?thesis
      by (subst hex_digits.simps)
        (simp add: digits_value_append last)
  qed
qed

lemma dec_digits_digits: "c \<in> set (dec_digits n) \<Longrightarrow> \<exists>d < 10. c = hex_digit d"
proof (induction n rule: dec_digits.induct)
  case (1 n)
  have "\<exists>d < 10. hex_digit (n mod 10) = hex_digit d" by (intro exI [of _ "n mod 10"]) simp
  moreover from 1(2) have
    "(n < 10 \<and> c = hex_digit n) \<or> c = hex_digit (n mod 10) \<or> (\<not> n < 10 \<and> c \<in> set (dec_digits (n div 10)))"
    by (subst (asm) dec_digits.simps) (auto split: if_splits)
  ultimately show ?case using 1(1) by blast
qed

lemma digits_value_dec_digits: "digits_value 10 0 (dec_digits n) = n"
proof (induction n rule: dec_digits.induct)
  case (1 n)
  show ?case
  proof (cases "n < 10")
    case True
    then show ?thesis
      by (subst dec_digits.simps) (simp add: base_digit_hex_digit digit_value_hex_digit)
  next
    case False
    have "\<forall>c \<in> set (dec_digits (n div 10)). base_digit 10 c"
      by (auto dest!: dec_digits_digits simp: base_digit_hex_digit)
    with False 1 show ?thesis
      by (subst dec_digits.simps)
        (simp add: digits_value_append base_digit_hex_digit digit_value_hex_digit)
  qed
qed

end
