(* ===== verification/Xml_Tree.thy ===== *)
theory Xml_Tree
  imports C_Strtol
begin

text \<open>
  Access to the XML document: the search of libraries/mxml/mxml-search.c, and the functions of
  libraries/ucs-xml/UcsXml.c that find elements, count them and read attributes
  (\<open>GetElement\<close> to \<open>GetSocketType\<close>).

  The parser moves in the tree only by \<open>child\<close>, \<open>next\<close> and the search below a node, so a
  \<open>mxml_node_t\<close> pointer is a cursor: the node followed by its later siblings; NULL is the
  empty list. The document comes from a parameter of the parser, for which \<open>Mxml_Doc\<close> has \<open>mxmlLoadString\<close>.
\<close>

section \<open>Documents\<close>

text \<open>Text and all other nodes that are no elements are \<open>Other\<close>.\<close>

datatype mxml_node_t =
    Element (elem_name: string) (elem_attrs: "(string \<times> string) list")
            (elem_children: "mxml_node_t list")
  | Other

type_synonym cursor = "mxml_node_t list"

fun child :: "mxml_node_t \<Rightarrow> cursor" where
  "child (Element _ _ cs) = cs"
| "child Other = []"

fun is_named :: "string \<Rightarrow> mxml_node_t \<Rightarrow> bool" where
  "is_named name (Element n _ _) = (n = name)"
| "is_named name Other = False"

text \<open>
  A position below the top node of a walk: the cursor of the node, then those of its
  ancestors below the top.
\<close>

type_synonym walk = "cursor list"

fun climb :: "walk \<Rightarrow> walk option" where
  "climb [] = None"
| "climb (c # up) = (case c of _ # m # ms \<Rightarrow> Some ((m # ms) # up) | _ \<Rightarrow> climb up)"

fun mxmlWalkNext :: "walk \<Rightarrow> walk option" where
  "mxmlWalkNext ((n # rest) # up) =
     (if child n \<noteq> [] then Some (child n # (n # rest) # up)
      else if rest \<noteq> [] then Some (rest # up)
      else climb up)"
| "mxmlWalkNext _ = None"

fun forest_size :: "cursor \<Rightarrow> nat" and node_size :: "mxml_node_t \<Rightarrow> nat" where
  "forest_size [] = 0"
| "forest_size (n # ns) = node_size n + forest_size ns"
| "node_size (Element _ _ cs) = Suc (forest_size cs)"
| "node_size Other = 1"

text \<open>The nodes a walk has still to visit, the current one included.\<close>

fun walk_left :: "walk \<Rightarrow> nat" where
  "walk_left [] = 0"
| "walk_left (c # up) = forest_size c + (\<Sum>c \<leftarrow> up. forest_size (tl c))"

lemma node_size_child: "node_size n = Suc (forest_size (child n))"
  by (cases n) simp_all

lemma climb_left: "climb up = Some w \<Longrightarrow> walk_left w = (\<Sum>c \<leftarrow> up. forest_size (tl c))"
  by (induction up rule: climb.induct) (auto split: list.splits)

lemma walk_left_next: "mxmlWalkNext w = Some w' \<Longrightarrow> walk_left w' < walk_left w"
  by (cases w rule: mxmlWalkNext.cases)
    (auto split: if_splits simp: node_size_child dest: climb_left)

text \<open>The search from a position onwards.\<close>

function walk_find :: "string \<Rightarrow> walk \<Rightarrow> cursor" where
  "walk_find name w =
     (case w of
        (n # rest) # _ \<Rightarrow>
          if is_named name n then n # rest
          else (case mxmlWalkNext w of None \<Rightarrow> [] | Some w' \<Rightarrow> walk_find name w')
      | _ \<Rightarrow> [])"
  by pat_completeness auto
termination
  by (relation "measure (\<lambda>(_, w). walk_left w)")
    (auto dest: walk_left_next simp del: mxmlWalkNext.simps walk_left.simps)

declare walk_find.simps [simp del]

text \<open>\<open>mxmlFindElement(n, n, name, NULL, NULL, MXML_DESCEND)\<close>\<close>

definition mxmlFindElement :: "cursor \<Rightarrow> string \<Rightarrow> cursor" where
  "mxmlFindElement c name =
     (case c of [] \<Rightarrow> [] | n # _ \<Rightarrow> if child n = [] then [] else walk_find name [child n])"

subsection \<open>The walk visits the tree in document order\<close>

fun find_below :: "string \<Rightarrow> cursor \<Rightarrow> cursor" and find_in :: "string \<Rightarrow> mxml_node_t \<Rightarrow> cursor" where
  "find_below name [] = []"
| "find_below name (n # ns) =
     (if is_named name n then n # ns
      else case find_in name n of [] \<Rightarrow> find_below name ns | c \<Rightarrow> c)"
| "find_in name (Element _ _ cs) = find_below name cs"
| "find_in name Other = []"

lemma find_in_child: "find_in name n = find_below name (child n)"
  by (cases n) simp_all

fun find_up :: "string \<Rightarrow> walk \<Rightarrow> cursor" where
  "find_up name [] = []"
| "find_up name (c # up) = (case find_below name (tl c) of [] \<Rightarrow> find_up name up | d \<Rightarrow> d)"

lemma walk_find_climb:
  assumes "\<And>w. climb up = Some w \<Longrightarrow>
     walk_find name w = (case find_below name (hd w) of [] \<Rightarrow> find_up name (tl w) | d \<Rightarrow> d)"
  shows "(case climb up of None \<Rightarrow> [] | Some w \<Rightarrow> walk_find name w) = find_up name up"
  using assms by (induction up rule: climb.induct) (auto split: list.splits)

lemma walk_find_eq:
  "w \<noteq> [] \<Longrightarrow> hd w \<noteq> [] \<Longrightarrow>
     walk_find name w = (case find_below name (hd w) of [] \<Rightarrow> find_up name (tl w) | d \<Rightarrow> d)"
proof (induction "walk_left w" arbitrary: w rule: less_induct)
  case less
  obtain n rest up where w: "w = (n # rest) # up"
    using less.prems by (metis list.collapse)
  have next_ne: "w' \<noteq> [] \<and> hd w' \<noteq> []" if "mxmlWalkNext w = Some w'" for w'
  proof -
    have climb_ne: "climb u = Some v \<Longrightarrow> v \<noteq> [] \<and> hd v \<noteq> []" for u v
      by (induction u rule: climb.induct) (auto split: list.splits)
    from that show ?thesis using climb_ne by (auto simp: w split: if_splits)
  qed
  have IH: "walk_find name w' = (case find_below name (hd w') of [] \<Rightarrow> find_up name (tl w') | d \<Rightarrow> d)"
    if "mxmlWalkNext w = Some w'" for w'
    using less.hyps [OF walk_left_next [OF that]] next_ne [OF that] by blast
  show ?case
  proof (cases "is_named name n")
    case True
    then show ?thesis by (simp add: w walk_find.simps)
  next
    case False
    consider "child n \<noteq> []" | "child n = []" "rest \<noteq> []" | "child n = []" "rest = []" by blast
    then show ?thesis
    proof cases
      case 1
      then show ?thesis using IH False
        by (subst walk_find.simps) (auto simp: w find_in_child split: list.splits)
    next
      case 2
      then show ?thesis using IH False
        by (subst walk_find.simps) (auto simp: w find_in_child split: list.splits)
    next
      case 3
      then have "(case climb up of None \<Rightarrow> [] | Some w \<Rightarrow> walk_find name w) = find_up name up"
        using IH by (intro walk_find_climb) (simp add: w)
      with 3 False show ?thesis
        by (subst walk_find.simps) (simp add: w find_in_child)
    qed
  qed
qed

lemma mxmlFindElement_eq: "mxmlFindElement c name = (case c of [] \<Rightarrow> [] | n # _ \<Rightarrow> find_in name n)"
  by (cases c) (auto simp: mxmlFindElement_def find_in_child walk_find_eq split: list.splits)

section \<open>Errors reported\<close>

text \<open>Every call of \<open>UcsXml_CB_OnError\<close>: the format, the announced number of arguments, the arguments.\<close>

datatype xml_arg = XStr string | XInt int

record xlog =
  xs_errors :: "(string \<times> nat \<times> xml_arg list) list"

definition UcsXml_CB_OnError :: "string \<Rightarrow> nat \<Rightarrow> xml_arg list \<Rightarrow> 'z xlog_scheme \<Rightarrow> 'z xlog_scheme" where
  "UcsXml_CB_OnError format cnt args s = s\<lparr>xs_errors := xs_errors s @ [(format, cnt, args)]\<rparr>"

section \<open>Elements\<close>

definition as_pointer :: "cursor \<Rightarrow> cursor option" where
  "as_pointer c = (if c = [] then None else Some c)"

definition is_one_of :: "string list \<Rightarrow> mxml_node_t \<Rightarrow> bool" where
  "is_one_of array n = (case n of Element name _ _ \<Rightarrow> name \<in> set array | Other \<Rightarrow> False)"

definition GetElement ::
  "cursor \<Rightarrow> string \<Rightarrow> bool \<Rightarrow> bool \<Rightarrow> 'z xlog_scheme \<Rightarrow> cursor option \<times> 'z xlog_scheme" where
  "GetElement element name goDeep mandatory s =
     (if element = [] then (None, s)
      else if goDeep then (as_pointer (mxmlFindElement element name), s)
      else case dropWhile (\<lambda>n. \<not> is_named name n) (tl element) of
             n # ns \<Rightarrow> (Some (n # ns), s)
           | [] \<Rightarrow> (None, if mandatory
                then UcsXml_CB_OnError ''Can not find tag <%s>'' 1 [XStr name] s else s))"

text \<open>The found name is the name of the node.\<close>

definition GetElementArray :: "cursor \<Rightarrow> string list \<Rightarrow> bool \<Rightarrow> (string \<times> cursor) option" where
  "GetElementArray element array skipFirstElement =
     (case dropWhile (\<lambda>n. \<not> is_one_of array n)
            (if skipFirstElement then tl element else element) of
        n # ns \<Rightarrow> Some (elem_name n, n # ns)
      | [] \<Rightarrow> None)"

text \<open>
  The nodes that a loop \<open>while (c) { ...; if (!Get...(c, ..., &c, ...)) break; }\<close> visits.
\<close>

fun siblings :: "(mxml_node_t \<Rightarrow> bool) \<Rightarrow> cursor \<Rightarrow> cursor list" where
  "siblings p [] = []"
| "siblings p (n # ns) = (if p n then (n # ns) # siblings p ns else siblings p ns)"

lemma siblings_step:
  "siblings p c = (case dropWhile (\<lambda>n. \<not> p n) c of [] \<Rightarrow> [] | n # ns \<Rightarrow> (n # ns) # siblings p ns)"
  by (induction c) auto

lemma siblings_GetElement:
  assumes "c \<noteq> []"
  shows "siblings (is_named name) (tl c) =
     (case fst (GetElement c name False m s) of None \<Rightarrow> [] | Some d \<Rightarrow> d # siblings (is_named name) (tl d))"
  using assms
  by (subst siblings_step, cases "dropWhile (\<lambda>n. \<not> is_named name n) (tl c)")
    (simp_all add: GetElement_def del: dropWhile_eq_Nil_conv)

lemma siblings_GetElementArray:
  "siblings (is_one_of array) (tl c) =
     (case GetElementArray c array True of None \<Rightarrow> [] | Some (_, d) \<Rightarrow> d # siblings (is_one_of array) (tl d))"
  by (subst siblings_step, cases "dropWhile (\<lambda>n. \<not> is_one_of array n) (tl c)")
    (simp_all add: GetElementArray_def del: dropWhile_eq_Nil_conv)

lemma siblings_head: "d \<in> set (siblings p c) \<Longrightarrow> \<exists>n ns. d = n # ns \<and> p n"
  by (induction c) (auto split: if_splits)

definition GetCount ::
  "cursor \<Rightarrow> string \<Rightarrow> bool \<Rightarrow> 'z xlog_scheme \<Rightarrow> u32 option \<times> 'z xlog_scheme" where
  "GetCount element name mandatory s =
     (case GetElement element name True False s of
        (None, s) \<Rightarrow> (None, s)
      | (Some n, s) \<Rightarrow>
          let cnt = word_of_nat (length (n # siblings (is_named name) (tl n))) in
          if mandatory \<and> cnt = 0
          then (None, UcsXml_CB_OnError ''element count of <%s> is zero'' 1 [XStr name] s)
          else (Some cnt, s))"

definition GetCountArray ::
  "cursor \<Rightarrow> string list \<Rightarrow> bool \<Rightarrow> 'z xlog_scheme \<Rightarrow> u32 option \<times> 'z xlog_scheme" where
  "GetCountArray element array mandatory s =
     (if element = [] then (None, s) else
      let cnt = word_of_nat (length (siblings (is_one_of array) (tl element))) in
      if mandatory \<and> cnt = 0
      then (None, UcsXml_CB_OnError ''element count is zero, searched with string array'' 0 [] s)
      else (Some cnt, s))"

section \<open>Attributes\<close>

definition GetString ::
  "mxml_node_t \<Rightarrow> string \<Rightarrow> bool \<Rightarrow> 'z xlog_scheme \<Rightarrow> string option \<times> 'z xlog_scheme" where
  "GetString element key mandatory s =
     (case map_of (elem_attrs element) key of
        Some v \<Rightarrow> (Some v, s)
      | None \<Rightarrow> (None, if mandatory
          then UcsXml_CB_OnError (''Can not find attribute='' @ quoted ''%s'' @ '' from element <%s>'') 2
                 [XStr key, XStr (elem_name element)] s
          else s))"

definition is_integer_char :: "bool \<Rightarrow> char \<Rightarrow> bool" where
  "is_integer_char hex c = (let v = of_char c :: nat in
     48 \<le> v \<and> v \<le> 57 \<or> hex \<and> (97 \<le> v \<and> v \<le> 102 \<or> 65 \<le> v \<and> v \<le> 70))"

definition CheckInteger :: "string \<Rightarrow> bool \<Rightarrow> bool" where
  "CheckInteger value forceHex =
     (if length value \<ge> 3 \<and> take 2 value = ''0x''
      then list_all (is_integer_char True) (drop 2 value)
      else list_all (is_integer_char forceHex) value)"

definition get_integer ::
  "int \<Rightarrow> mxml_node_t \<Rightarrow> string \<Rightarrow> bool \<Rightarrow> 'z xlog_scheme \<Rightarrow> int option \<times> 'z xlog_scheme" where
  "get_integer limit element key mandatory s =
     (case GetString element key mandatory s of
        (None, s) \<Rightarrow> (None, s)
      | (Some txt, s) \<Rightarrow>
          if \<not> CheckInteger txt False
          then (None, UcsXml_CB_OnError (''key='' @ quoted ''%s'' @ '' contained invalid integer='' @ quoted ''%s'') 2
                        [XStr key, XStr txt] s)
          else let value = strtol 0 txt in
            if value > limit
            then (None, UcsXml_CB_OnError (''key='' @ quoted ''%s'' @ '' is out of range='' @ quoted ''%d'') 2
                          [XStr key, XInt value] s)
            else (Some value, s))"

definition GetUInt16 ::
  "mxml_node_t \<Rightarrow> string \<Rightarrow> bool \<Rightarrow> 'z xlog_scheme \<Rightarrow> u16 option \<times> 'z xlog_scheme" where
  "GetUInt16 element key mandatory s =
     (case get_integer 0xFFFF element key mandatory s of (v, s) \<Rightarrow> (map_option word_of_int v, s))"

definition GetUInt8 ::
  "mxml_node_t \<Rightarrow> string \<Rightarrow> bool \<Rightarrow> 'z xlog_scheme \<Rightarrow> u8 option \<times> 'z xlog_scheme" where
  "GetUInt8 element key mandatory s =
     (case get_integer 0xFF element key mandatory s of (v, s) \<Rightarrow> (map_option word_of_int v, s))"

section \<open>Names of data types and sockets\<close>

datatype MDataType_t =
    SYNC_DATA | CONTROL_DATA | AV_PACKETIZED | QOS_IP | DISC_FRAME_PHASE | IPC_PACKET | INVALID

definition data_type_number :: "MDataType_t \<Rightarrow> int" where
  "data_type_number t = (case t of SYNC_DATA \<Rightarrow> 0 | CONTROL_DATA \<Rightarrow> 2 | AV_PACKETIZED \<Rightarrow> 3
     | QOS_IP \<Rightarrow> 4 | DISC_FRAME_PHASE \<Rightarrow> 5 | IPC_PACKET \<Rightarrow> 7 | INVALID \<Rightarrow> 0xFF)"

definition GetDataType ::
  "string \<Rightarrow> 'z xlog_scheme \<Rightarrow> MDataType_t option \<times> 'z xlog_scheme" where
  "GetDataType txt s =
     (if txt = ''SyncConnection'' then (Some SYNC_DATA, s)
      else if txt = ''AVPConnection'' then (Some AV_PACKETIZED, s)
      else if txt = ''QoSConnection'' then (Some QOS_IP, s)
      else if txt = ''DFPhaseConnection'' then (Some DISC_FRAME_PHASE, s)
      else if txt = ''IPCConnection'' then (Some IPC_PACKET, s)
      else (None, UcsXml_CB_OnError (''Unknown data type : '' @ quoted ''%s'') 1 [XStr txt] s))"

datatype MSocketType_t =
    MSocket_NETWORK | MSocket_USB | MSocket_MLB | MSocket_STRM | MSocket_SPLITTER | MSocket_COMBINER

definition GetSocketType ::
  "string \<Rightarrow> 'z xlog_scheme \<Rightarrow> MSocketType_t option \<times> 'z xlog_scheme" where
  "GetSocketType txt s =
     (if txt = ''NetworkSocket'' then (Some MSocket_NETWORK, s)
      else if txt = ''USBSocket'' then (Some MSocket_USB, s)
      else if txt = ''MediaLBSocket'' then (Some MSocket_MLB, s)
      else if txt = ''StreamSocket'' then (Some MSocket_STRM, s)
      else if txt = ''Splitter'' then (Some MSocket_SPLITTER, s)
      else if txt = ''Combiner'' then (Some MSocket_COMBINER, s)
      else (None, UcsXml_CB_OnError (''Unknown port : '' @ quoted ''%s'') 1 [XStr txt] s))"

section \<open>Numbers in attributes\<close>

lemma digit_is_integer_char:
  "d < 10 \<Longrightarrow> is_integer_char hex (hex_digit d)"
  "d < 16 \<Longrightarrow> is_integer_char True (hex_digit d)"
  by (frule nat_less_16_cases [OF less_trans], simp,
      elim disjE; simp add: is_integer_char_def hex_digit_def)
    (drule nat_less_16_cases, elim disjE; simp add: is_integer_char_def hex_digit_def)

lemma hex_digit_neq: "d < 16 \<Longrightarrow> hex_digit d \<noteq> CHR ''x'' \<and> hex_digit d \<noteq> CHR ''X'' \<and>
     hex_digit d \<noteq> CHR ''-'' \<and> hex_digit d \<noteq> CHR ''+'' \<and> (d \<noteq> 0 \<longrightarrow> hex_digit d \<noteq> CHR ''0'')"
  by (drule nat_less_16_cases) (elim disjE; simp add: hex_digit_def)

lemma dec_digits_ne [simp]: "dec_digits n \<noteq> []"
  by (subst dec_digits.simps) simp

lemma hd_dec_digits: "n \<noteq> 0 \<Longrightarrow> \<exists>d < 10. d \<noteq> 0 \<and> hd (dec_digits n) = hex_digit d"
proof (induction n rule: dec_digits.induct)
  case (1 n)
  show ?case
  proof (cases "n < 10")
    case True
    with 1 show ?thesis by (subst dec_digits.simps) auto
  next
    case False
    with 1 show ?thesis by (subst dec_digits.simps) simp
  qed
qed

lemma dec_digits_shape:
  "\<not> prefix_x (dec_digits n) \<and> take 2 (dec_digits n) \<noteq> ''0x''
     \<and> dropWhile is_space (dec_digits n) = dec_digits n
     \<and> take 1 (dec_digits n) \<noteq> ''-'' \<and> take 1 (dec_digits n) \<noteq> ''+''"
proof -
  obtain c cs where c: "dec_digits n = c # cs" by (cases "dec_digits n") simp_all
  have "x \<noteq> CHR ''x'' \<and> x \<noteq> CHR ''X'' \<and> x \<noteq> CHR ''-'' \<and> x \<noteq> CHR ''+'' \<and> \<not> is_space x"
    if x: "x \<in> set (dec_digits n)" for x
  proof -
    obtain d where d: "d < 10" "x = hex_digit d" using dec_digits_digits [OF x] by blast
    then have "d < 16" by simp
    from hex_digit_neq [OF this] not_space_hex_digit [OF this] show ?thesis by (simp add: d)
  qed
  then have "\<forall>x \<in> set (c # cs). x \<noteq> CHR ''x'' \<and> x \<noteq> CHR ''X'' \<and> x \<noteq> CHR ''-'' \<and> x \<noteq> CHR ''+'' \<and> \<not> is_space x"
    unfolding c by simp
  then show ?thesis by (cases cs) (auto simp: c prefix_x_def)
qed

lemma strtol_dec_digits: "n < 2 ^ 63 \<Longrightarrow> strtol 0 (dec_digits n) = int n"
proof -
  assume n: "n < 2 ^ 63"
  have "strtol_abs 0 (dec_digits n) = n"
  proof (cases "n = 0")
    case True
    then show ?thesis using dec_digits_shape [of n]
      by (auto simp: strtol_abs_def dec_digits.simps [of 0] hex_digit_def base_digit_def digit_value_def)
  next
    case False
    then have "take 1 (dec_digits n) \<noteq> ''0''"
      using hd_dec_digits [OF False] hex_digit_neq
      by (cases "dec_digits n") (force dest: less_trans [of _ 10 16])+
    then show ?thesis using dec_digits_shape [of n] by (simp add: strtol_abs_def digits_value_dec_digits)
  qed
  with n show ?thesis using dec_digits_shape [of n] by (simp add: strtol_def)
qed

lemma strtol_hex_digits:
  assumes "n < 2 ^ 63"
  shows "strtol 0 (''0x'' @ hex_digits n) = int n"
proof -
  have "dropWhile is_space (''0x'' @ hex_digits n) = ''0x'' @ hex_digits n"
    by (simp add: is_space_def)
  moreover have "strtol_abs 0 (''0x'' @ hex_digits n) = n"
    by (simp add: strtol_abs_def prefix_x_def digits_value_hex_digits)
  ultimately show ?thesis using assms by (simp add: strtol_def)
qed

lemma CheckInteger_printed:
  "CheckInteger (dec_digits n) False" "CheckInteger (''0x'' @ hex_digits n) False"
proof -
  have "list_all (is_integer_char False) (dec_digits n)"
    by (auto simp: list_all_iff dest!: dec_digits_digits intro: digit_is_integer_char)
  then show "CheckInteger (dec_digits n) False"
    using dec_digits_shape [of n] by (simp add: CheckInteger_def)
  have "list_all (is_integer_char True) (hex_digits n)"
    by (auto simp: list_all_iff dest!: hex_digits_digits intro: digit_is_integer_char)
  then show "CheckInteger (''0x'' @ hex_digits n) False"
    using length_hex_digits_pos [of n] by (simp add: CheckInteger_def Suc_le_eq)
qed

lemma get_integer_printed:
  assumes "n < 2 ^ 63" and "map_of (elem_attrs e) key = Some txt"
    and "txt = dec_digits n \<or> txt = ''0x'' @ hex_digits n"
  shows "get_integer limit e key mandatory s =
     (if int n > limit
      then (None, UcsXml_CB_OnError (''key='' @ quoted ''%s'' @ '' is out of range='' @ quoted ''%d'') 2
                    [XStr key, XInt (int n)] s)
      else (Some (int n), s))"
proof -
  have "strtol 0 txt = int n" "CheckInteger txt False"
    using assms(3) strtol_dec_digits [OF assms(1)] strtol_hex_digits [OF assms(1)]
      CheckInteger_printed [of n] by blast+
  then show ?thesis using assms(2) by (simp add: get_integer_def GetString_def)
qed



text \<open>
  A leading zero changes the number. An attribute of decimal digits that starts with 0 is
  accepted without a message, but it is read as octal and only up to the first 8 or 9, so
  that 010 is 8 and 08 is 0.
\<close>

theorem attribute_leading_zero:
  assumes "map_of (elem_attrs e) key = Some (CHR ''0'' # ds)" and "\<forall>c \<in> set ds. is_integer_char False c"
    and "digits_value 8 0 ds \<le> 0xFFFF"
  shows "GetUInt16 e key m s = (Some (of_nat (digits_value 8 0 ds)), s)"
proof -
  have "\<not> is_integer_char False CHR ''x''" "\<not> is_integer_char False CHR ''X''" "is_integer_char False CHR ''0''"
    by (simp_all add: is_integer_char_def)
  then have "take 1 ds \<noteq> ''x'' \<and> take 1 ds \<noteq> ''X''" and c: "CheckInteger (CHR ''0'' # ds) False"
    using assms(2) by (cases ds; auto simp: CheckInteger_def list_all_iff)+
  then have "strtol_abs 0 (CHR ''0'' # ds) = digits_value 8 0 ds"
    by (cases ds) (auto simp: strtol_abs_def prefix_x_def base_digit_def digit_value_def)
  then have "strtol 0 (CHR ''0'' # ds) = int (digits_value 8 0 ds)"
    using assms(3) by (simp add: strtol_def is_space_def)
  then show ?thesis using assms(1,3) c by (simp add: GetUInt16_def get_integer_def GetString_def)
qed

theorem attribute_leading_zero_witness:
  "GetUInt16 (Element ''Node'' [(''Address'', ''010'')] []) ''Address'' True \<lparr>xs_errors = []\<rparr>
     = (Some 8, \<lparr>xs_errors = []\<rparr>)"
  using attribute_leading_zero [of "Element ''Node'' [(''Address'', ''010'')] []" "''Address''" "''10''" True
      "\<lparr>xs_errors = []\<rparr>"]
  by (simp add: is_integer_char_def base_digit_def digit_value_def)

section \<open>Search in document order\<close>

fun preorder :: "cursor \<Rightarrow> cursor list" and preorder_node :: "mxml_node_t \<Rightarrow> cursor list" where
  "preorder [] = []"
| "preorder (n # ns) = (n # ns) # preorder_node n @ preorder ns"
| "preorder_node (Element _ _ cs) = preorder cs"
| "preorder_node Other = []"

definition first_named :: "string \<Rightarrow> cursor list \<Rightarrow> cursor" where
  "first_named name ds = (case filter (\<lambda>d. is_named name (hd d)) ds of [] \<Rightarrow> [] | d # _ \<Rightarrow> d)"

lemma first_named_append:
  "[] \<notin> set ds \<Longrightarrow>
   first_named name (ds @ es) = (case first_named name ds of [] \<Rightarrow> first_named name es | d \<Rightarrow> d)"
  by (auto simp: first_named_def filter_append split: list.splits dest: filter_eq_ConsD)

lemma preorder_nonempty: "[] \<notin> set (preorder c)" "[] \<notin> set (preorder_node n)"
  by (induction c and n rule: preorder_preorder_node.induct) auto

lemma find_preorder:
  "find_below name c = first_named name (preorder c)"
  "find_in name n = first_named name (preorder_node n)"
proof (induction name c and name n rule: find_below_find_in.induct)
  case (2 name n ns)
  then show ?case
    using first_named_append [OF preorder_nonempty(2) [of n], of name "preorder ns"]
    by (simp add: first_named_def split: list.splits)
qed (simp_all add: first_named_def)

text \<open>
  C39: The search of the parser, which walks the tree along child, sibling and parent links,
  ends and finds the first element of the given name below the node in document order, and
  nothing when there is none; the node itself and what follows it are not searched.
\<close>

theorem search_document_order:
  "mxmlFindElement (n # later) name = first_named name (preorder (child n))"
  by (simp add: mxmlFindElement_eq find_in_child find_preorder)

end
