(* ===== verification/Xml_Memory.thy ===== *)
theory Xml_Memory
  imports Xml_Tree
begin

text \<open>
  The memory of the parser, libraries/ucs-xml/UcsXml_Private.c: \<open>MCalloc\<close> chains every
  allocated object into the object list, \<open>FreeObjList\<close> releases them. Blocks are numbered by
  the calls of \<open>calloc\<close>; which calls succeed is the parameter \<open>calloc_ok\<close> in the state.

  The list is \<open>struct UcsXmlObjectList\<close>: a head that is a member of the parser's data, and
  cells that are blocks themselves, each with its object.
\<close>

section \<open>Blocks\<close>

record xmem = xlog +
  calloc_ok :: "nat \<Rightarrow> bool"
  calloc_calls :: nat
  live :: "nat set"
  obj_head :: "nat option"
  obj_cells :: "(nat \<times> nat) list"

definition calloc :: "'z xmem_scheme \<Rightarrow> nat option \<times> 'z xmem_scheme" where
  "calloc s =
     (let b = calloc_calls s; s' = s\<lparr>calloc_calls := Suc b\<rparr>
      in if calloc_ok s b then (Some b, s'\<lparr>live := insert b (live s')\<rparr>) else (None, s'))"

definition free :: "nat \<Rightarrow> 'z xmem_scheme \<Rightarrow> 'z xmem_scheme result" where
  "free b s = (if b \<in> live s then Inr (s\<lparr>live := live s - {b}\<rparr>) else Inl BadFree)"

section \<open>The object list\<close>

definition MCalloc :: "nat \<Rightarrow> nat \<Rightarrow> 'z xmem_scheme \<Rightarrow> nat option \<times> 'z xmem_scheme" where
  "MCalloc nElem elemSize s =
     (if nElem = 0 \<or> elemSize = 0 then (None, s) else
      case calloc s of
        (None, s) \<Rightarrow> (None, s)
      | (Some obj, s) \<Rightarrow>
          if obj_head s = None then (Some obj, s\<lparr>obj_head := Some obj\<rparr>)
          else (case calloc s of
                  (None, s) \<Rightarrow> (None, s\<lparr>live := live s - {obj}\<rparr>)
                | (Some cell, s) \<Rightarrow> (Some obj, s\<lparr>obj_cells := obj_cells s @ [(cell, obj)]\<rparr>)))"

definition free_cell :: "nat \<times> nat \<Rightarrow> 'z xmem_scheme \<Rightarrow> 'z xmem_scheme result" where
  "free_cell c s = bindR (free (snd c) s) (free (fst c))"

definition FreeObjList :: "'z xmem_scheme \<Rightarrow> 'z xmem_scheme result" where
  "FreeObjList s =
     bindR (case obj_head s of None \<Rightarrow> Inr s | Some obj \<Rightarrow> free obj s) (foldR free_cell (obj_cells s))"

section \<open>Nothing is lost and nothing is released twice\<close>

definition owned :: "'z xmem_scheme \<Rightarrow> nat list" where
  "owned s = (case obj_head s of None \<Rightarrow> [] | Some b \<Rightarrow> [b]) @
     concat (map (\<lambda>(cell, obj). [obj, cell]) (obj_cells s))"

text \<open>The live blocks are those the list owns and others, which the parser does not touch.\<close>

definition mem_ok :: "nat set \<Rightarrow> 'z xmem_scheme \<Rightarrow> bool" where
  "mem_ok others s \<longleftrightarrow>
     live s = others \<union> set (owned s) \<and> others \<inter> set (owned s) = {} \<and> distinct (owned s) \<and>
     (\<forall>b \<in> live s. b < calloc_calls s) \<and> (obj_head s = None \<longrightarrow> obj_cells s = [])"

lemma mem_ok_start:
  "obj_head s = None \<Longrightarrow> obj_cells s = [] \<Longrightarrow> \<forall>b \<in> live s. b < calloc_calls s \<Longrightarrow> mem_ok (live s) s"
  by (simp add: mem_ok_def owned_def)

lemma mem_ok_cong:
  "live s' = live s \<Longrightarrow> calloc_calls s' = calloc_calls s \<Longrightarrow> obj_head s' = obj_head s \<Longrightarrow>
   obj_cells s' = obj_cells s \<Longrightarrow> mem_ok others s' = mem_ok others s"
  by (simp add: mem_ok_def owned_def)

lemma mem_ok_log [simp]: "mem_ok others (UcsXml_CB_OnError f n a s) = mem_ok others s"
  by (rule mem_ok_cong) (simp_all add: UcsXml_CB_OnError_def)

lemma mem_ok_extend:
  assumes "mem_ok others s" and "live s' = live s \<union> set bs" and "owned s' = owned s @ bs"
    and "distinct bs" and "\<forall>b \<in> set bs. calloc_calls s \<le> b \<and> b < calloc_calls s'"
    and "calloc_calls s \<le> calloc_calls s'" and "obj_head s' = None \<longrightarrow> obj_cells s' = []"
  shows "mem_ok others s'"
proof -
  have fresh: "b \<notin> live s" if "b \<in> set bs" for b
    using assms(1,5) that by (meson leD mem_ok_def)
  have old: "b < calloc_calls s'" if "b \<in> live s" for b
    using assms(1,6) that by (meson less_le_trans mem_ok_def)
  show ?thesis
    unfolding mem_ok_def assms(2,3)
    using assms(1,4,5,7) fresh old by (auto simp: mem_ok_def)
qed

lemma MCalloc_ok:
  assumes ok: "mem_ok others s"
  shows "mem_ok others (snd (MCalloc n k s))"
proof -
  let ?b = "calloc_calls s"
  have fresh: "?b \<notin> live s" using ok by (meson less_irrefl mem_ok_def)
  have cells: "obj_head s = None \<longrightarrow> obj_cells s = []" using ok by (simp add: mem_ok_def)
  have more: "mem_ok others (s\<lparr>calloc_calls := m\<rparr>)" if "?b \<le> m" for m
    using ok that by (intro mem_ok_extend [OF ok, where bs = "[]"]) (auto simp: owned_def cells)
  have undo: "insert ?b (live s) - {?b} = live s" using fresh by simp
  consider "n = 0 \<or> k = 0" | "n \<noteq> 0" "k \<noteq> 0" "\<not> calloc_ok s ?b"
    | "n \<noteq> 0" "k \<noteq> 0" "calloc_ok s ?b" "obj_head s = None"
    | "n \<noteq> 0" "k \<noteq> 0" "calloc_ok s ?b" "obj_head s \<noteq> None" "\<not> calloc_ok s (Suc ?b)"
    | "n \<noteq> 0" "k \<noteq> 0" "calloc_ok s ?b" "obj_head s \<noteq> None" "calloc_ok s (Suc ?b)"
    by blast
  then show ?thesis
  proof cases
    case 3
    then show ?thesis
      by (intro mem_ok_extend [OF ok, where bs = "[?b]"])
        (use cells in \<open>auto simp: MCalloc_def calloc_def Let_def owned_def\<close>)
  next
    case 5
    then show ?thesis
      by (intro mem_ok_extend [OF ok, where bs = "[?b, Suc ?b]"])
        (auto simp: MCalloc_def calloc_def Let_def owned_def)
  qed (use ok more in \<open>auto simp: MCalloc_def calloc_def Let_def undo\<close>)
qed

lemma free_cells_okR:
  assumes "live s = others \<union> set (concat (map (\<lambda>(cell, obj). [obj, cell]) cs))"
    and "others \<inter> set (concat (map (\<lambda>(cell, obj). [obj, cell]) cs)) = {}"
    and "distinct (concat (map (\<lambda>(cell, obj). [obj, cell]) cs))"
  shows "okR (foldR free_cell cs s) (\<lambda>s'. live s' = others)"
  using assms
proof (induction cs arbitrary: s)
  case Nil
  then show ?case by simp
next
  case (Cons c cs)
  obtain cell obj where c: "c = (cell, obj)" by (cases c)
  let ?s = "s\<lparr>live := live s - {obj} - {cell}\<rparr>"
  have "free_cell c s = Inr ?s"
    using Cons.prems by (auto simp: c free_cell_def free_def)
  moreover have "okR (foldR free_cell cs ?s) (\<lambda>s'. live s' = others)"
    using Cons.prems by (intro Cons.IH) (auto simp: c)
  ultimately show ?case by simp
qed

lemma FreeObjList_okR:
  assumes "mem_ok others s"
  shows "okR (FreeObjList s) (\<lambda>s'. live s' = others)"
proof (cases "obj_head s")
  case None
  then show ?thesis using assms by (simp add: FreeObjList_def mem_ok_def owned_def)
next
  case (Some b)
  let ?s = "s\<lparr>live := live s - {b}\<rparr>"
  have "okR (foldR free_cell (obj_cells s) ?s) (\<lambda>s'. live s' = others)"
    using assms Some by (intro free_cells_okR) (auto simp: mem_ok_def owned_def)
  then show ?thesis using assms Some by (simp add: FreeObjList_def free_def mem_ok_def owned_def)
qed

text \<open>
  Whatever the parser allocates is released once. After any series of allocations, of
  which any may fail, starting with an empty object list, releasing the list returns every
  block of the series and nothing else, and releases no block twice.
\<close>

theorem object_list_released:
  assumes "obj_head s = None" "obj_cells s = []" "\<forall>b \<in> live s. b < calloc_calls s"
  shows "okR (FreeObjList (fold (\<lambda>(n, k) s. snd (MCalloc n k s)) requests s)) (\<lambda>s'. live s' = live s)"
proof -
  have "mem_ok others s \<Longrightarrow> mem_ok others (fold (\<lambda>(n, k) s. snd (MCalloc n k s)) requests s)" for others
    by (induction requests arbitrary: s) (auto dest: MCalloc_ok)
  then show ?thesis using mem_ok_start [OF assms] by (intro FreeObjList_okR)
qed

theorem object_list_released_witness:
  "okR (FreeObjList (fold (\<lambda>(n, k) s. snd (MCalloc n k s)) [(1, 4), (0, 4), (3, 8), (1, 1)]
      \<lparr>xs_errors = [], calloc_ok = (\<lambda>n. n \<noteq> 3), calloc_calls = 1, live = {0}, obj_head = None,
       obj_cells = []\<rparr>)) (\<lambda>s'. live s' = live \<lparr>xs_errors = [], calloc_ok = (\<lambda>n. n \<noteq> 3),
       calloc_calls = 1, live = {0}, obj_head = None, obj_cells = []\<rparr>)"
  by (rule object_list_released) simp_all

end
