(* ===== verification/Control.thy ===== *)
theory Control
  imports Prelude
begin

text \<open>
  Control flow of C functions that leave early: a computation on a state runs to its end with a
  value, leaves early with what it reports (\<open>return\<close> of an error code, \<open>goto error\<close>), or runs
  into undefined behaviour. The combinators stand for the sequence, early returns and loops.

  \<open>okX m s Q E\<close> is the weakest precondition: the computation is free of undefined behaviour,
  its normal end satisfies \<open>Q\<close>, an early return satisfies \<open>E\<close>. \<open>safeX I m P\<close> says that a
  computation started in a state of the invariant has defined behaviour, ends in a state of
  the invariant and returns a value of \<open>P\<close>.
\<close>

section \<open>Computations\<close>

type_synonym ('e, 'a, 's) xe = "'s \<Rightarrow> (('e + 'a) \<times> 's) result"

definition retX :: "'a \<Rightarrow> ('e, 'a, 's) xe" where
  "retX x s = Inr (Inr x, s)"

definition stopX :: "'e \<Rightarrow> ('e, 'a, 's) xe" where
  "stopX r s = Inr (Inl r, s)"

definition bindX :: "('e, 'a, 's) xe \<Rightarrow> ('a \<Rightarrow> ('e, 'b, 's) xe) \<Rightarrow> ('e, 'b, 's) xe" where
  "bindX m f s = bindR (m s) (\<lambda>(r, s). case r of Inl e \<Rightarrow> Inr (Inl e, s) | Inr x \<Rightarrow> f x s)"

definition thenX :: "('e, 'a, 's) xe \<Rightarrow> ('e, 'b, 's) xe \<Rightarrow> ('e, 'b, 's) xe" where
  "thenX m n = bindX m (\<lambda>_. n)"

definition updX :: "('s \<Rightarrow> 's) \<Rightarrow> ('e, unit, 's) xe" where
  "updX g s = Inr (Inr (), g s)"

definition getX :: "('s \<Rightarrow> 'a) \<Rightarrow> ('e, 'a, 's) xe" where
  "getX g s = Inr (Inr (g s), s)"

text \<open>A call that cannot fault, and a value whose computation can.\<close>

definition liftX :: "('s \<Rightarrow> 'a \<times> 's) \<Rightarrow> ('e, 'a, 's) xe" where
  "liftX m s = (case m s of (x, s) \<Rightarrow> Inr (Inr x, s))"

definition valX :: "'a result \<Rightarrow> ('e, 'a, 's) xe" where
  "valX r s = bindR r (\<lambda>x. Inr (Inr x, s))"

definition whenX :: "bool \<Rightarrow> ('e, unit, 's) xe \<Rightarrow> ('e, unit, 's) xe" where
  "whenX b m = (if b then m else retX ())"

fun forX :: "('x \<Rightarrow> ('e, unit, 's) xe) \<Rightarrow> 'x list \<Rightarrow> ('e, unit, 's) xe" where
  "forX f [] = retX ()"
| "forX f (x # xs) = thenX (f x) (forX f xs)"

fun foldX :: "('x \<Rightarrow> 'a \<Rightarrow> ('e, 'a, 's) xe) \<Rightarrow> 'x list \<Rightarrow> 'a \<Rightarrow> ('e, 'a, 's) xe" where
  "foldX f [] a = retX a"
| "foldX f (x # xs) a = bindX (f x a) (foldX f xs)"

text \<open>
  A loop whose body reads on: \<open>Inl\<close> is the state of the local variables for the next round,
  \<open>Inr\<close> leaves the loop. The number bounds the rounds; a loop that needs more is \<open>Diverges\<close>.
\<close>

fun loopX :: "nat \<Rightarrow> ('b \<Rightarrow> ('e, 'b + 'c, 's) xe) \<Rightarrow> 'b \<Rightarrow> ('e, 'c, 's) xe" where
  "loopX 0 f b = valX (Inl Diverges)"
| "loopX (Suc n) f b = bindX (f b) (\<lambda>r. case r of Inl b \<Rightarrow> loopX n f b | Inr c \<Rightarrow> retX c)"

section \<open>Weakest preconditions\<close>

definition okX ::
  "('e, 'a, 's) xe \<Rightarrow> 's \<Rightarrow> ('a \<Rightarrow> 's \<Rightarrow> bool) \<Rightarrow> ('e \<Rightarrow> 's \<Rightarrow> bool) \<Rightarrow> bool" where
  "okX m s Q E = okR (m s) (\<lambda>(r, s). case r of Inl e \<Rightarrow> E e s | Inr x \<Rightarrow> Q x s)"

lemma okX_retX [simp]: "okX (retX x) s Q E = Q x s"
  by (simp add: okX_def retX_def)

lemma okX_stopX [simp]: "okX (stopX r) s Q E = E r s"
  by (simp add: okX_def stopX_def)

lemma okX_bindX [simp]: "okX (bindX m f) s Q E = okX m s (\<lambda>x s. okX (f x) s Q E) E"
  by (cases "m s") (auto simp: okX_def bindX_def split: sum.splits)

lemma okX_thenX [simp]: "okX (thenX m n) s Q E = okX m s (\<lambda>_ s. okX n s Q E) E"
  by (simp add: thenX_def)

lemma okX_updX [simp]: "okX (updX g) s Q E = Q () (g s)"
  by (simp add: okX_def updX_def)

lemma okX_getX [simp]: "okX (getX g) s Q E = Q (g s) s"
  by (simp add: okX_def getX_def)

lemma okX_liftX: "okX (liftX m) s Q E = Q (fst (m s)) (snd (m s))"
  by (simp add: okX_def liftX_def split: prod.splits)

lemma okX_valX [simp]: "okX (valX r) s Q E = okR r (\<lambda>x. Q x s)"
  by (simp add: okX_def valX_def)

lemma okX_whenX [simp]: "okX (whenX b m) s Q E = (if b then okX m s Q E else Q () s)"
  by (simp add: whenX_def)

lemma okX_mono:
  "okX m s Q E \<Longrightarrow> (\<And>x s. Q x s \<Longrightarrow> Q' x s) \<Longrightarrow> (\<And>e s. E e s \<Longrightarrow> E' e s) \<Longrightarrow> okX m s Q' E'"
  by (cases "m s") (auto simp: okX_def split: sum.splits)

lemma okX_conj:
  "okX m s (\<lambda>x s. Q x s \<and> Q' x s) (\<lambda>e s. E e s \<and> E' e s) \<longleftrightarrow> okX m s Q E \<and> okX m s Q' E'"
  by (cases "m s") (auto simp: okX_def split: sum.splits)

lemma okX_if [simp]: "okX (if b then m else n) s Q E = (if b then okX m s Q E else okX n s Q E)"
  by simp

lemma okX_let [simp]: "okX (let x = a in f x) s Q E = (let x = a in okX (f x) s Q E)"
  by simp

lemma okX_case_option:
  "okX (case x of None \<Rightarrow> m | Some v \<Rightarrow> f v) s Q E =
     (case x of None \<Rightarrow> okX m s Q E | Some v \<Rightarrow> okX (f v) s Q E)"
  by (simp split: option.splits)

lemma okX_forX:
  assumes "I s" and "\<And>x s. x \<in> set xs \<Longrightarrow> I s \<Longrightarrow> okX (f x) s (\<lambda>_. I) E"
  shows "okX (forX f xs) s (\<lambda>_. I) E"
  using assms
proof (induction xs arbitrary: s)
  case Nil
  then show ?case by simp
next
  case (Cons x xs)
  have "okX (f x) s (\<lambda>_. I) E" using Cons.prems by simp
  then have "okX (f x) s (\<lambda>_ s. okX (forX f xs) s (\<lambda>_. I) E) E"
    by (rule okX_mono) (use Cons in auto)
  then show ?case by simp
qed

lemma okX_foldX:
  assumes "I a s" and "\<And>x a s. x \<in> set xs \<Longrightarrow> I a s \<Longrightarrow> okX (f x a) s I E"
  shows "okX (foldX f xs a) s I E"
  using assms
proof (induction xs arbitrary: a s)
  case Nil
  then show ?case by simp
next
  case (Cons x xs)
  have "okX (f x a) s I E" using Cons.prems by simp
  then have "okX (f x a) s (\<lambda>a s. okX (foldX f xs a) s I E) E"
    by (rule okX_mono) (use Cons in auto)
  then show ?case by simp
qed

section \<open>Safe computations\<close>

definition safeX :: "('s \<Rightarrow> bool) \<Rightarrow> ('e, 'a, 's) xe \<Rightarrow> ('a \<Rightarrow> bool) \<Rightarrow> bool" where
  "safeX I m P \<longleftrightarrow> (\<forall>s. I s \<longrightarrow> okX m s (\<lambda>x s. P x \<and> I s) (\<lambda>_. I))"

abbreviation anything :: "'a \<Rightarrow> bool" where
  "anything \<equiv> \<lambda>_. True"

named_theorems safe \<open>a computation is safe\<close>

lemma safeXD: "safeX I m P \<Longrightarrow> I s \<Longrightarrow> okX m s (\<lambda>x s. P x \<and> I s) (\<lambda>_. I)"
  by (simp add: safeX_def)

lemma safeX_weaken: "safeX I m P \<Longrightarrow> (\<And>x. P x \<Longrightarrow> Q x) \<Longrightarrow> safeX I m Q"
  by (auto simp: safeX_def elim!: okX_mono)

lemma safeX_retX [safe]: "P x \<Longrightarrow> safeX I (retX x) P"
  by (simp add: safeX_def)

lemma safeX_stopX [safe]: "safeX I (stopX r) P"
  by (simp add: safeX_def)

lemma safeX_bind: "safeX I m P \<Longrightarrow> (\<And>x. P x \<Longrightarrow> safeX I (f x) Q) \<Longrightarrow> safeX I (bindX m f) Q"
  by (auto simp: safeX_def elim!: okX_mono)

lemma safeX_bindX [safe]: "safeX I m anything \<Longrightarrow> (\<And>x. safeX I (f x) Q) \<Longrightarrow> safeX I (bindX m f) Q"
  by (rule safeX_bind)

lemma safeX_thenX [safe]: "safeX I m anything \<Longrightarrow> safeX I n Q \<Longrightarrow> safeX I (thenX m n) Q"
  by (simp add: thenX_def safeX_bindX)

lemma safeX_getX [safe]: "safeX I (getX g) anything"
  by (simp add: safeX_def)

lemma safeX_get: "(\<And>s. I s \<Longrightarrow> P (g s)) \<Longrightarrow> safeX I (getX g) P"
  by (simp add: safeX_def)

lemma safeX_updX: "(\<And>s. I s \<Longrightarrow> I (g s)) \<Longrightarrow> safeX I (updX g) anything"
  by (simp add: safeX_def)

lemma safeX_liftX: "(\<And>s. I s \<Longrightarrow> P (fst (m s)) \<and> I (snd (m s))) \<Longrightarrow> safeX I (liftX m) P"
  by (simp add: safeX_def okX_liftX)

lemma safeX_valX: "okR r P \<Longrightarrow> safeX I (valX r) P"
  by (cases r) (auto simp: safeX_def)

lemma safeX_whenX [safe]: "(b \<Longrightarrow> safeX I m anything) \<Longrightarrow> safeX I (whenX b m) anything"
  by (auto simp: safeX_def)

lemma safeX_if [safe]: "(b \<Longrightarrow> safeX I m P) \<Longrightarrow> (\<not> b \<Longrightarrow> safeX I n P) \<Longrightarrow> safeX I (if b then m else n) P"
  by simp

lemma safeX_option [safe]:
  "(x = None \<Longrightarrow> safeX I m P) \<Longrightarrow> (\<And>v. x = Some v \<Longrightarrow> safeX I (f v) P) \<Longrightarrow>
     safeX I (case x of None \<Rightarrow> m | Some v \<Rightarrow> f v) P"
  by (cases x) simp_all

lemma safeX_prod [safe]:
  "(\<And>a b. p = (a, b) \<Longrightarrow> safeX I (f a b) P) \<Longrightarrow> safeX I (case p of (a, b) \<Rightarrow> f a b) P"
  by (cases p) simp

lemma safeX_forX [safe]:
  assumes "\<And>x. x \<in> set xs \<Longrightarrow> safeX I (f x) anything"
  shows "safeX I (forX f xs) anything"
  unfolding safeX_def
proof (intro allI impI)
  fix s assume "I s"
  then have "okX (forX f xs) s (\<lambda>_. I) (\<lambda>_. I)"
    by (rule okX_forX) (use assms in \<open>auto simp: safeX_def\<close>)
  then show "okX (forX f xs) s (\<lambda>_ s. True \<and> I s) (\<lambda>_. I)" by simp
qed

lemma safeX_foldX [safe]:
  assumes "P a" "\<And>x a. x \<in> set xs \<Longrightarrow> P a \<Longrightarrow> safeX I (f x a) P"
  shows "safeX I (foldX f xs a) P"
  unfolding safeX_def
proof (intro allI impI)
  fix s assume "I s"
  then show "okX (foldX f xs a) s (\<lambda>x s. P x \<and> I s) (\<lambda>_. I)"
    by (intro okX_foldX) (use assms in \<open>auto simp: safeX_def\<close>)
qed

end
