(* ===== verification/Xml_Control.thy ===== *)
theory Xml_Control
  imports Xml_Memory Control
begin

text \<open>
  Control flow of the parser functions, which return \<open>ParseResult_t\<close>: the early return carries
  the code. The combinators here stand for the macro \<open>RETURN_ASSERT\<close> and the tests of a call's
  result.
\<close>

section \<open>Computations\<close>

datatype ParseResult_t = Parse_Success | Parse_MemoryError | Parse_XmlError

type_synonym ('a, 's) xp = "(ParseResult_t, 'a, 's) xe"

definition errorX :: "string \<Rightarrow> nat \<Rightarrow> xml_arg list \<Rightarrow> (unit, 'z xlog_scheme) xp" where
  "errorX format cnt args = updX (UcsXml_CB_OnError format cnt args)"

text \<open>The file and the line of the message are left out.\<close>

definition RETURN_ASSERT :: "ParseResult_t \<Rightarrow> string \<Rightarrow> ('a, 'z xlog_scheme) xp" where
  "RETURN_ASSERT result reason =
     thenX (errorX (''Assertion in file=%s, line=%d reason='' @ quoted ''%s'') 3 [XStr reason]) (stopX result)"

text \<open>\<open>if (!call(..., &x)) RETURN_ASSERT(result, reason);\<close>\<close>

definition needX ::
  "('z xlog_scheme \<Rightarrow> 'a option \<times> 'z xlog_scheme) \<Rightarrow> ParseResult_t \<Rightarrow> string \<Rightarrow> ('a, 'z xlog_scheme) xp" where
  "needX m result reason =
     bindX (liftX m) (\<lambda>x. case x of None \<Rightarrow> RETURN_ASSERT result reason | Some v \<Rightarrow> retX v)"

text \<open>\<open>if (Parse_Success != (result = call(...))) return result;\<close>, and a call whose result is not used.\<close>

definition callX :: "(unit, 's) xp \<Rightarrow> (unit, 's) xp" where
  "callX m s = bindR (m s) (\<lambda>(r, s). Inr (if r = Inl Parse_Success then Inr () else r, s))"

definition ignoreX :: "(unit, 's) xp \<Rightarrow> (unit, 's) xp" where
  "ignoreX m s = bindR (m s) (\<lambda>(r, s). Inr (Inr (), s))"

text \<open>The value a function returns.\<close>

definition result_of :: "(unit, 's) xp \<Rightarrow> (ParseResult_t, 's) xp" where
  "result_of m s = bindR (m s) (\<lambda>(r, s). Inr (Inr (case r of Inl e \<Rightarrow> e | Inr _ \<Rightarrow> Parse_Success), s))"

text \<open>A call whose failure is reported once more before it is passed on.\<close>

definition abortX :: "(unit, 'z xlog_scheme) xp \<Rightarrow> string \<Rightarrow> (unit, 'z xlog_scheme) xp" where
  "abortX m reason =
     bindX (result_of m) (\<lambda>r. if r = Parse_Success then retX () else RETURN_ASSERT r reason)"

section \<open>Weakest preconditions\<close>

lemma okX_errorX [simp]: "okX (errorX f n a) s Q E = Q () (UcsXml_CB_OnError f n a s)"
  by (simp add: errorX_def)

lemma okX_RETURN_ASSERT [simp]: "okX (RETURN_ASSERT r reason) s Q E =
   E r (UcsXml_CB_OnError (''Assertion in file=%s, line=%d reason='' @ quoted ''%s'') 3 [XStr reason] s)"
  by (simp add: RETURN_ASSERT_def)

lemma okX_callX [simp]: "okX (callX m) s Q E =
   okX m s (\<lambda>_. Q ()) (\<lambda>e. if e = Parse_Success then Q () else E e)"
proof (cases "m s")
  case (Inr p)
  then show ?thesis by (cases p; cases "fst p") (simp_all add: okX_def callX_def)
qed (simp add: okX_def callX_def)

lemma okX_ignoreX [simp]: "okX (ignoreX m) s Q E = okX m s (\<lambda>_. Q ()) (\<lambda>_. Q ())"
proof (cases "m s")
  case (Inr p)
  then show ?thesis by (cases p; cases "fst p") (simp_all add: okX_def ignoreX_def)
qed (simp add: okX_def ignoreX_def)

lemma okX_result_of [simp]: "okX (result_of m) s Q E = okX m s (\<lambda>_. Q Parse_Success) (\<lambda>e. Q e)"
proof (cases "m s")
  case (Inr p)
  then show ?thesis by (cases p; cases "fst p") (simp_all add: okX_def result_of_def)
qed (simp add: okX_def result_of_def)

section \<open>Calls that only report\<close>

definition logs_only :: "('z xlog_scheme \<Rightarrow> 'a \<times> 'z xlog_scheme) \<Rightarrow> bool" where
  "logs_only m \<longleftrightarrow> (\<forall>s. \<exists>es. snd (m s) = s\<lparr>xs_errors := es\<rparr>)"

lemma logs_onlyI [intro]:
  "(\<And>s. snd (m s) = s \<or> (\<exists>f n a. snd (m s) = UcsXml_CB_OnError f n a s)) \<Longrightarrow> logs_only m"
  unfolding logs_only_def UcsXml_CB_OnError_def
  by (metis (no_types, lifting) xlog.surjective xlog.update_convs(1))

lemma logs_only_get [simp]:
  "logs_only (GetString e k m)" "logs_only (GetElement c n d m)" "logs_only (GetCount c n m)"
  "logs_only (GetCountArray c a m)" "logs_only (GetDataType t)" "logs_only (GetSocketType t)"
  by (rule logs_onlyI;
      simp add: GetString_def GetElement_def GetCount_def GetCountArray_def GetDataType_def GetSocketType_def
        Let_def split: option.splits list.splits; blast)+

lemma okX_logs:
  assumes "logs_only m" and "\<And>x es. Q x (s\<lparr>xs_errors := es\<rparr>)"
  shows "okX (liftX m) s Q E"
  using assms unfolding okX_liftX logs_only_def by metis

lemma okX_needX_logs:
  assumes "logs_only m" and "\<And>x es. Q x (s\<lparr>xs_errors := es\<rparr>)" and "\<And>es. E r (s\<lparr>xs_errors := es\<rparr>)"
  shows "okX (needX m r reason) s Q E"
  unfolding needX_def okX_bindX
  by (rule okX_logs [OF assms(1)])
    (use assms(2,3) in \<open>auto simp: okX_case_option UcsXml_CB_OnError_def split: option.splits\<close>)

end
