(* ===== verification/Xml_Objects.thy ===== *)
theory Xml_Objects
  imports Xml_Control
begin

text \<open>
  The resource objects of a node (sockets, ports, connections, splitters and combiners) and
  the functions of libraries/ucs-xml/UcsXml_Private.c that create them.

  The objects live in a store, \<open>xs_res\<close>; a pointer is NULL, a place in the store, or
  indeterminate (a variable that was never assigned). A member that is an enumeration is
  \<open>None\<close> as long as it has the zero that \<open>calloc\<close> wrote. A function that creates an object
  returns the pointer it stored into its out parameter, if it did, and its truth value: the
  code stores the pointer before it checks the other parameters. Parameters that every caller
  passes as non-NULL have types without NULL; the checks for NULL are left out there.
\<close>

section \<open>Objects\<close>

datatype ptr = Null | Ref nat | Wild

datatype SocketDir = UCS_SOCKET_DIR_INPUT | UCS_SOCKET_DIR_OUTPUT
datatype NwSocketData =
  UCS_NW_SCKT_SYNC_DATA | UCS_NW_SCKT_AV_PACKETIZED | UCS_NW_SCKT_QOS_IP | UCS_NW_SCKT_DISC_FRAME_PHASE
datatype UsbSocketData = UCS_USB_SCKT_SYNC_DATA | UCS_USB_SCKT_AV_PACKETIZED | UCS_USB_SCKT_IPC_PACKET
datatype MlbSocketData =
    UCS_MLB_SCKT_SYNC_DATA | UCS_MLB_SCKT_AV_PACKETIZED | UCS_MLB_SCKT_QOS_IP
  | UCS_MLB_SCKT_DISC_FRAME_PHASE | UCS_MLB_SCKT_IPC_PACKET
datatype StrmSocketData = UCS_STREAM_PORT_SCKT_SYNC_DATA
datatype UsbPhyLayer = UCS_USB_PHY_LAYER_STANDARD | UCS_USB_PHY_LAYER_HSIC
datatype MlbClock =
    UCS_MLB_CLK_CFG_256_FS | UCS_MLB_CLK_CFG_512_FS | UCS_MLB_CLK_CFG_1024_FS | UCS_MLB_CLK_CFG_2048_FS
  | UCS_MLB_CLK_CFG_3072_FS | UCS_MLB_CLK_CFG_4096_FS | UCS_MLB_CLK_CFG_6144_FS | UCS_MLB_CLK_CFG_8192_FS
datatype StrmClock =
    UCS_STREAM_PORT_CLK_CFG_64FS | UCS_STREAM_PORT_CLK_CFG_128FS | UCS_STREAM_PORT_CLK_CFG_256FS
  | UCS_STREAM_PORT_CLK_CFG_512FS | UCS_STREAM_PORT_CLK_CFG_WILD
datatype StrmAlign =
    UCS_STREAM_PORT_ALGN_LEFT16BIT | UCS_STREAM_PORT_ALGN_LEFT24BIT | UCS_STREAM_PORT_ALGN_RIGHT16BIT
  | UCS_STREAM_PORT_ALGN_RIGHT24BIT | UCS_STREAM_PORT_ALGN_SEQ | UCS_STREAM_PORT_ALGN_TDM16BIT
  | UCS_STREAM_PORT_ALGN_TDM24BIT
datatype StrmPin =
    UCS_STREAM_PORT_PIN_ID_SRXA0 | UCS_STREAM_PORT_PIN_ID_SRXA1
  | UCS_STREAM_PORT_PIN_ID_SRXB0 | UCS_STREAM_PORT_PIN_ID_SRXB1
datatype MuteMode = UCS_SYNC_MUTE_MODE_NO_MUTING | UCS_SYNC_MUTE_MODE_MUTE_SIGNAL
datatype IsocSize = UCS_ISOC_PCKT_SIZE_188 | UCS_ISOC_PCKT_SIZE_196 | UCS_ISOC_PCKT_SIZE_206
datatype PortType = UCS_XRM_PORT_TYPE_USB | UCS_XRM_PORT_TYPE_MLB | UCS_XRM_PORT_TYPE_STRM

record NetworkSocket =
  nws_port_handle :: u16
  nws_bandwidth :: u16
  nws_direction :: SocketDir
  nws_data_type :: "NwSocketData option"

record UsbPort =
  usp_index :: u8
  usp_devices_interfaces :: u16
  usp_in_count :: u8
  usp_out_count :: u8
  usp_physical_layer :: "UsbPhyLayer option"

record DcPort =
  dcp_type :: PortType
  dcp_index :: u8

record UsbSocket =
  uss_direction :: SocketDir
  uss_data_type :: "UsbSocketData option"
  uss_end_point_addr :: u8
  uss_frames_per_transfer :: u16
  uss_port :: ptr

record MlbPort =
  mlp_index :: u8
  mlp_clock :: "MlbClock option"

record MlbSocket =
  mls_direction :: SocketDir
  mls_bandwidth :: u16
  mls_data_type :: "MlbSocketData option"
  mls_channel_address :: u16
  mls_port :: ptr

record StrmPort =
  stp_index :: u8
  stp_clock :: "StrmClock option"
  stp_alignment :: "StrmAlign option"

record StrmSocket =
  sts_direction :: SocketDir
  sts_data_type :: "StrmSocketData option"
  sts_bandwidth :: u16
  sts_pin :: "StrmPin option"
  sts_port :: ptr

record RmckPort =
  rmp_index :: u8
  rmp_divisor :: u16

record SplitterObj =
  spl_port_handle :: u16
  spl_bytes_per_frame :: u16
  spl_socket_in :: ptr

record CombinerObj =
  cmb_port_handle :: u16
  cmb_bytes_per_frame :: u16
  cmb_port_socket :: ptr

record SyncCon =
  syc_in :: ptr
  syc_out :: ptr
  syc_mute :: "MuteMode option"
  syc_offset :: u16

record AvpCon =
  avc_in :: ptr
  avc_out :: ptr
  avc_isoc :: "IsocSize option"

datatype xobj =
    ONetworkSocket NetworkSocket | OUsbPort UsbPort | ODcPort DcPort | OUsbSocket UsbSocket
  | OMlbPort MlbPort | OMlbSocket MlbSocket | OStrmPort StrmPort | OStrmSocket StrmSocket
  | ORmckPort RmckPort | OSplitter SplitterObj | OCombiner CombinerObj | OSyncCon SyncCon
  | OAvpCon AvpCon

record xstore = xmem +
  xs_res :: "xobj list"

definition derefX :: "xobj list \<Rightarrow> ptr \<Rightarrow> xobj result" where
  "derefX store p = (case p of
     Null \<Rightarrow> Inl NullDeref
   | Wild \<Rightarrow> Inl WildDeref
   | Ref i \<Rightarrow> if i < length store then Inr (store ! i) else Inl OutOfBounds)"

text \<open>\<open>MCalloc(list, 1, sizeof(...))\<close>; every type has a positive size.\<close>

definition new_obj :: "xobj \<Rightarrow> 'z xstore_scheme \<Rightarrow> nat option \<times> 'z xstore_scheme" where
  "new_obj obj s = (case MCalloc 1 1 s of
     (None, s) \<Rightarrow> (None, s)
   | (Some _, s) \<Rightarrow> (Some (length (xs_res s)), s\<lparr>xs_res := xs_res s @ [obj]\<rparr>))"

definition set_obj :: "nat \<Rightarrow> xobj \<Rightarrow> 'z xstore_scheme \<Rightarrow> 'z xstore_scheme" where
  "set_obj i obj s = s\<lparr>xs_res := (xs_res s)[i := obj]\<rparr>"

section \<open>Creating objects\<close>

definition Str2Int :: "string \<Rightarrow> u32" where
  "Str2Int val = word_of_int (strtol 0 val)"

text \<open>The file and the line are left out.\<close>

definition ASSERT_FALSE :: "string \<Rightarrow> string \<Rightarrow> 'z xlog_scheme \<Rightarrow> 'z xlog_scheme" where
  "ASSERT_FALSE func par =
     UcsXml_CB_OnError ''Parameter error in attribute=%s value=%s, file=%s, line=%d'' 4 [XStr func, XStr par]"

text \<open>
  Allocate, check the pointer, store it; then the members are filled: \<open>fill\<close> gives the object
  and what remains to complain about, an attribute with its value.
\<close>

definition create ::
  "xobj \<Rightarrow> (string \<times> string) option \<Rightarrow> 'z xstore_scheme \<Rightarrow> (nat option \<times> bool) \<times> 'z xstore_scheme" where
  "create obj complaint s = (case new_obj obj s of
     (None, s) \<Rightarrow> ((None, False), ASSERT_FALSE ''(null)'' ''NULL pointer'' s)
   | (Some p, s) \<Rightarrow> (case complaint of
        None \<Rightarrow> ((Some p, True), s)
      | Some (func, par) \<Rightarrow> ((Some p, False), ASSERT_FALSE func par s)))"

definition socket_dir :: "bool \<Rightarrow> SocketDir" where
  "socket_dir isSource = (if isSource then UCS_SOCKET_DIR_INPUT else UCS_SOCKET_DIR_OUTPUT)"

definition complain :: "'a option \<Rightarrow> string \<Rightarrow> string \<Rightarrow> (string \<times> string) option" where
  "complain v func par = (if v = None then Some (func, par) else None)"

definition GetNetworkSocket ::
  "bool \<Rightarrow> MDataType_t \<Rightarrow> u16 \<Rightarrow> 'z xstore_scheme \<Rightarrow> (nat option \<times> bool) \<times> 'z xstore_scheme" where
  "GetNetworkSocket isSource dataType bandwidth =
     (let t = (case dataType of SYNC_DATA \<Rightarrow> Some UCS_NW_SCKT_SYNC_DATA
                 | AV_PACKETIZED \<Rightarrow> Some UCS_NW_SCKT_AV_PACKETIZED
                 | QOS_IP \<Rightarrow> Some UCS_NW_SCKT_QOS_IP
                 | DISC_FRAME_PHASE \<Rightarrow> Some UCS_NW_SCKT_DISC_FRAME_PHASE
                 | _ \<Rightarrow> None)
      in create (ONetworkSocket \<lparr>nws_port_handle = 0x0D00, nws_bandwidth = bandwidth,
                   nws_direction = socket_dir isSource, nws_data_type = t\<rparr>)
           (complain t ''GetNetworkSocket->dataType'' []))"

definition GetUsbPort ::
  "string \<Rightarrow> string \<Rightarrow> string \<Rightarrow> string \<Rightarrow> 'z xstore_scheme \<Rightarrow> (nat option \<times> bool) \<times> 'z xstore_scheme" where
  "GetUsbPort physicalLayer deviceInterfaces streamInCount streamOutCount =
     (let t = map_of [(''Standard'', UCS_USB_PHY_LAYER_STANDARD), (''HSIC'', UCS_USB_PHY_LAYER_HSIC)]
                physicalLayer
      in create (OUsbPort \<lparr>usp_index = 0, usp_devices_interfaces = ucast (Str2Int deviceInterfaces),
                   usp_in_count = ucast (Str2Int streamInCount),
                   usp_out_count = ucast (Str2Int streamOutCount), usp_physical_layer = t\<rparr>)
           (complain t ''GetUsbPort->physical_layer'' physicalLayer))"

definition GetUsbPortDefaultCreated :: "'z xstore_scheme \<Rightarrow> (nat option \<times> bool) \<times> 'z xstore_scheme" where
  "GetUsbPortDefaultCreated =
     create (ODcPort \<lparr>dcp_type = UCS_XRM_PORT_TYPE_USB, dcp_index = 0\<rparr>) None"

text \<open>With an unknown data type the members after it stay zero.\<close>

definition GetUsbSocket ::
  "bool \<Rightarrow> MDataType_t \<Rightarrow> string \<Rightarrow> string \<Rightarrow> ptr \<Rightarrow> 'z xstore_scheme
     \<Rightarrow> (nat option \<times> bool) \<times> 'z xstore_scheme" where
  "GetUsbSocket isSource dataType endpointAddress framesPerTrans usbPort =
     (let t = (case dataType of SYNC_DATA \<Rightarrow> Some UCS_USB_SCKT_SYNC_DATA
                 | AV_PACKETIZED \<Rightarrow> Some UCS_USB_SCKT_AV_PACKETIZED
                 | IPC_PACKET \<Rightarrow> Some UCS_USB_SCKT_IPC_PACKET
                 | _ \<Rightarrow> None)
      in create (OUsbSocket (if t = None
             then \<lparr>uss_direction = socket_dir isSource, uss_data_type = None, uss_end_point_addr = 0,
                    uss_frames_per_transfer = 0, uss_port = Null\<rparr>
             else \<lparr>uss_direction = socket_dir isSource, uss_data_type = t,
                    uss_end_point_addr = ucast (Str2Int endpointAddress),
                    uss_frames_per_transfer = ucast (Str2Int framesPerTrans), uss_port = usbPort\<rparr>))
           (complain t ''GetUsbSocket->dataType'' []))"

definition GetMlbPort :: "string \<Rightarrow> 'z xstore_scheme \<Rightarrow> (nat option \<times> bool) \<times> 'z xstore_scheme" where
  "GetMlbPort clockConfig =
     (let t = map_of [(''256Fs'', UCS_MLB_CLK_CFG_256_FS), (''512Fs'', UCS_MLB_CLK_CFG_512_FS),
                (''1024Fs'', UCS_MLB_CLK_CFG_1024_FS), (''2048Fs'', UCS_MLB_CLK_CFG_2048_FS),
                (''3072Fs'', UCS_MLB_CLK_CFG_3072_FS), (''4096Fs'', UCS_MLB_CLK_CFG_4096_FS),
                (''6144Fs'', UCS_MLB_CLK_CFG_6144_FS), (''8192Fs'', UCS_MLB_CLK_CFG_8192_FS)] clockConfig
      in create (OMlbPort \<lparr>mlp_index = 0, mlp_clock = t\<rparr>)
           (complain t ''GetMlbPort->clockConfig'' clockConfig))"

definition GetMlbPortDefaultCreated :: "'z xstore_scheme \<Rightarrow> (nat option \<times> bool) \<times> 'z xstore_scheme" where
  "GetMlbPortDefaultCreated =
     create (ODcPort \<lparr>dcp_type = UCS_XRM_PORT_TYPE_MLB, dcp_index = 0\<rparr>) None"

definition GetMlbSocket ::
  "bool \<Rightarrow> MDataType_t \<Rightarrow> u16 \<Rightarrow> string \<Rightarrow> ptr \<Rightarrow> 'z xstore_scheme
     \<Rightarrow> (nat option \<times> bool) \<times> 'z xstore_scheme" where
  "GetMlbSocket isSource dataType bandwidth channelAddress mlbPort =
     (let t = (case dataType of SYNC_DATA \<Rightarrow> Some UCS_MLB_SCKT_SYNC_DATA
                 | AV_PACKETIZED \<Rightarrow> Some UCS_MLB_SCKT_AV_PACKETIZED
                 | QOS_IP \<Rightarrow> Some UCS_MLB_SCKT_QOS_IP
                 | DISC_FRAME_PHASE \<Rightarrow> Some UCS_MLB_SCKT_DISC_FRAME_PHASE
                 | IPC_PACKET \<Rightarrow> Some UCS_MLB_SCKT_IPC_PACKET
                 | _ \<Rightarrow> None)
      in create (OMlbSocket (if t = None
             then \<lparr>mls_direction = socket_dir isSource, mls_bandwidth = bandwidth, mls_data_type = None,
                    mls_channel_address = 0, mls_port = Null\<rparr>
             else \<lparr>mls_direction = socket_dir isSource, mls_bandwidth = bandwidth, mls_data_type = t,
                    mls_channel_address = ucast (Str2Int channelAddress), mls_port = mlbPort\<rparr>))
           (complain t ''GetMlbSocket->dataType'' []))"

text \<open>The second port, of index 1, has no clock of its own; an unknown clock leaves the alignment zero.\<close>

definition GetStrmPort ::
  "u8 \<Rightarrow> string \<Rightarrow> string \<Rightarrow> 'z xstore_scheme \<Rightarrow> (nat option \<times> bool) \<times> 'z xstore_scheme" where
  "GetStrmPort portIndex clockConfig dataAlignment =
     (let c = (if portIndex = 0
               then map_of [(''64Fs'', UCS_STREAM_PORT_CLK_CFG_64FS), (''128Fs'', UCS_STREAM_PORT_CLK_CFG_128FS),
                      (''256Fs'', UCS_STREAM_PORT_CLK_CFG_256FS), (''512Fs'', UCS_STREAM_PORT_CLK_CFG_512FS),
                      (''Wildcard'', UCS_STREAM_PORT_CLK_CFG_WILD)] clockConfig
               else Some UCS_STREAM_PORT_CLK_CFG_WILD);
          a = map_of [(''Left16Bit'', UCS_STREAM_PORT_ALGN_LEFT16BIT),
                (''Left24Bit'', UCS_STREAM_PORT_ALGN_LEFT24BIT),
                (''Right16Bit'', UCS_STREAM_PORT_ALGN_RIGHT16BIT),
                (''Right24Bit'', UCS_STREAM_PORT_ALGN_RIGHT24BIT),
                (''Seq'', UCS_STREAM_PORT_ALGN_SEQ), (''TDM16Bit'', UCS_STREAM_PORT_ALGN_TDM16BIT),
                (''TDM24Bit'', UCS_STREAM_PORT_ALGN_TDM24BIT)] dataAlignment
      in create (OStrmPort \<lparr>stp_index = portIndex, stp_clock = c,
                   stp_alignment = (if c = None then None else a)\<rparr>)
           (if c = None then Some (''GetStrmPort->clockConfig'', clockConfig)
            else complain a ''GetStrmPort->dataAlignment'' dataAlignment))"

definition GetStrmPortDefaultCreated :: "u8 \<Rightarrow> 'z xstore_scheme \<Rightarrow> (nat option \<times> bool) \<times> 'z xstore_scheme" where
  "GetStrmPortDefaultCreated portIndex =
     create (ODcPort \<lparr>dcp_type = UCS_XRM_PORT_TYPE_STRM, dcp_index = portIndex\<rparr>) None"

definition GetRmckPort :: "u16 \<Rightarrow> 'z xstore_scheme \<Rightarrow> (nat option \<times> bool) \<times> 'z xstore_scheme" where
  "GetRmckPort divisor = create (ORmckPort \<lparr>rmp_index = 0, rmp_divisor = divisor\<rparr>) None"

definition GetStrmSocket ::
  "bool \<Rightarrow> MDataType_t \<Rightarrow> u16 \<Rightarrow> string \<Rightarrow> ptr \<Rightarrow> ptr \<Rightarrow> 'z xstore_scheme
     \<Rightarrow> (nat option \<times> bool) \<times> 'z xstore_scheme" where
  "GetStrmSocket isSource dataType bandwidth streamPin streamPortA streamPortB =
     (let t = (case dataType of SYNC_DATA \<Rightarrow> Some UCS_STREAM_PORT_SCKT_SYNC_DATA | _ \<Rightarrow> None);
          p = map_of [(''SRXA0'', (UCS_STREAM_PORT_PIN_ID_SRXA0, streamPortA)),
                (''SRXA1'', (UCS_STREAM_PORT_PIN_ID_SRXA1, streamPortA)),
                (''SRXB0'', (UCS_STREAM_PORT_PIN_ID_SRXB0, streamPortB)),
                (''SRXB1'', (UCS_STREAM_PORT_PIN_ID_SRXB1, streamPortB))] streamPin;
          empty = \<lparr>sts_direction = socket_dir isSource, sts_data_type = t, sts_bandwidth = 0,
                   sts_pin = None, sts_port = Null\<rparr>
      in if t = None then create (OStrmSocket empty) (Some (''GetStrmSocket->dataType'', []))
         else case p of
                None \<Rightarrow> create (OStrmSocket (empty\<lparr>sts_bandwidth := bandwidth\<rparr>))
                          (Some (''GetStrmSocket->streamPin'', streamPin))
              | Some (pin, port) \<Rightarrow>
                  create (OStrmSocket (empty\<lparr>sts_bandwidth := bandwidth, sts_pin := Some pin, sts_port := port\<rparr>))
                    None)"

definition GetSplitter :: "u16 \<Rightarrow> ptr \<Rightarrow> 'z xstore_scheme \<Rightarrow> (nat option \<times> bool) \<times> 'z xstore_scheme" where
  "GetSplitter bytesPerFrame inSoc =
     create (OSplitter \<lparr>spl_port_handle = 0x0D00, spl_bytes_per_frame = bytesPerFrame,
               spl_socket_in = inSoc\<rparr>) None"

definition GetCombiner :: "u16 \<Rightarrow> ptr \<Rightarrow> 'z xstore_scheme \<Rightarrow> (nat option \<times> bool) \<times> 'z xstore_scheme" where
  "GetCombiner bytesPerFrame outSoc =
     create (OCombiner \<lparr>cmb_port_handle = 0x0D00, cmb_bytes_per_frame = bytesPerFrame,
               cmb_port_socket = outSoc\<rparr>) None"

definition GetSyncCon ::
  "string \<Rightarrow> string option \<Rightarrow> ptr \<Rightarrow> ptr \<Rightarrow> 'z xstore_scheme \<Rightarrow> (nat option \<times> bool) \<times> 'z xstore_scheme" where
  "GetSyncCon muteMode optional_offset inSoc outSoc =
     (let t = map_of [(''NoMuting'', UCS_SYNC_MUTE_MODE_NO_MUTING),
                (''MuteSignal'', UCS_SYNC_MUTE_MODE_MUTE_SIGNAL)] muteMode
      in create (OSyncCon (if t = None
             then \<lparr>syc_in = Null, syc_out = Null, syc_mute = None, syc_offset = 0\<rparr>
             else \<lparr>syc_in = inSoc, syc_out = outSoc, syc_mute = t,
                    syc_offset = (case optional_offset of None \<Rightarrow> 0 | Some txt \<Rightarrow> ucast (Str2Int txt))\<rparr>))
           (complain t ''GetSyncCon->mute_mode'' muteMode))"

definition isoc_size :: "'a :: len word \<Rightarrow> IsocSize option" where
  "isoc_size w = (if w = 188 then Some UCS_ISOC_PCKT_SIZE_188
     else if w = 196 then Some UCS_ISOC_PCKT_SIZE_196
     else if w = 206 then Some UCS_ISOC_PCKT_SIZE_206 else None)"

definition GetAvpCon ::
  "string option \<Rightarrow> ptr \<Rightarrow> ptr \<Rightarrow> 'z xstore_scheme \<Rightarrow> (nat option \<times> bool) \<times> 'z xstore_scheme" where
  "GetAvpCon optional_isocPacketSize inSoc outSoc =
     (let t = (case optional_isocPacketSize of
                 None \<Rightarrow> Some UCS_ISOC_PCKT_SIZE_188
               | Some txt \<Rightarrow> isoc_size (Str2Int txt))
      in create (OAvpCon \<lparr>avc_in = inSoc, avc_out = outSoc, avc_isoc = t\<rparr>)
           (complain t ''GetAvpCon->isoc_packet_size'' []))"

section \<open>What creating does to the state\<close>

definition obj_ptrs :: "xobj \<Rightarrow> ptr list" where
  "obj_ptrs obj = (case obj of
     OUsbSocket c \<Rightarrow> [uss_port c] | OMlbSocket c \<Rightarrow> [mls_port c] | OStrmSocket c \<Rightarrow> [sts_port c]
   | OSplitter c \<Rightarrow> [spl_socket_in c] | OCombiner c \<Rightarrow> [cmb_port_socket c]
   | OSyncCon c \<Rightarrow> [syc_in c, syc_out c] | OAvpCon c \<Rightarrow> [avc_in c, avc_out c] | _ \<Rightarrow> [])"

end
