(* ===== verification/Xml_State.thy ===== *)
theory Xml_State
  imports Xml_Objects
begin

text \<open>
  The parser's own data (libraries/ucs-xml/UcsXml.c, \<open>PrivateData_t\<close> and what it consists of),
  the value it builds (\<open>UcsXmlVal_t\<close> of UcsXml.h), and the functions on job lists and payloads.

  Linked lists whose cells are not shared (jobs, routes, scripts, drivers) are lists; each cell
  still is an allocation. The list that the parameter \<open>jobList\<close> of \<open>ParseSocket\<close> points to is
  \<open>cd_jobList\<close>; where the code passes a copy, the original is put back after the call.
  A character array of 32 places holds at most 32 characters; it has no terminating zero when
  it is full, so that reading on is out of bounds.
\<close>

section \<open>The value\<close>

datatype EndPointType = UCS_RM_EP_SOURCE | UCS_RM_EP_SINK | UCS_RM_EP_DC_SOURCE | UCS_RM_EP_DC_SINK

text \<open>A node is given by its place in the array of nodes.\<close>

record XEndPoint =
  ep_type :: EndPointType
  ep_jobs :: "ptr list option"
  ep_node :: nat

record XRmRoute =
  rt_source :: "XEndPoint option"
  rt_sink :: "XEndPoint option"
  rt_active :: bool
  rt_id :: u16
  rt_fallback :: bool
  rt_label :: u16

record NsMsg =
  nm_fblock_id :: u8
  nm_inst_id :: u8
  nm_funct_id :: u16
  nm_op_type :: u8
  nm_data_size :: u8
  nm_data :: "u8 list option"

record NsScript =
  ns_send :: "NsMsg option"
  ns_result :: "NsMsg option"
  ns_pause :: u16

text \<open>Of the signature only the node address is set.\<close>

record XNode =
  xn_signature :: "u16 option"
  xn_remote_attach_disabled :: bool
  xn_script :: "NsScript list option"
  xn_script_size :: u32

datatype DriverPhysicalLayer_t = DriverPhyUnknown | DriverPhyUsb | DriverPhyMlb
datatype DriverCfgDirection_t = DriverCfgDirection_Tx | DriverCfgDirection_Rx
datatype DriverCfgDataType_t =
  DriverCfgDataType_Control | DriverCfgDataType_Async | DriverCfgDataType_Sync | DriverCfgDataType_Isoc
datatype DriverType_t = Driver_LinuxCdev | Driver_LinuxAlsa | Driver_LinuxV4l2 | Driver_LinuxNetwork

text \<open>
  The structures of the union \<open>drv\<close> begin with the same members, which the code sets before and
  after it changes \<open>driverType\<close>; the last two belong to ALSA. A number that the code copies from
  a variable it never assigned is \<open>None\<close>.
\<close>

record DriverInformation_t =
  di_linkName :: string
  di_phy :: DriverPhysicalLayer_t
  di_nodeAddress :: u16
  di_driverType :: DriverType_t
  dv_channelName :: string
  dv_aimName :: string
  dv_dataType :: "DriverCfgDataType_t option"
  dv_direction :: "DriverCfgDirection_t option"
  dv_numBuffers :: u16
  dv_bufferSize :: u16
  dv_subBufferSize :: u16
  dv_packetsPerXact :: "u16 option"
  dv_amountOfChannels :: u8
  dv_resolutionInBit :: u8

record UcsXmlVal_t =
  v_packetBw :: u16
  v_proxyBw :: u16
  v_routes :: "XRmRoute list"
  v_routesSize :: u16
  v_nodes :: "XNode list"
  v_nodSize :: u16
  v_drivers :: "DriverInformation_t list"
  v_driverSize :: u16

section \<open>The parser's data\<close>

record UcsXmlRoute =
  xr_isTalker :: bool
  xr_isActive :: bool
  xr_routeId :: u16
  xr_routeName :: string
  xr_labelNormal :: u16
  xr_labelFallback :: u16
  xr_ep :: XEndPoint

record UcsXmlScript =
  sc_singleShot :: bool
  sc_inUse :: bool
  sc_scriptName :: string
  sc_node :: "nat option"

record NodeData_t =
  nd_nod :: nat
  nd_usbPort :: ptr
  nd_mlbPort :: ptr
  nd_strmPortA :: ptr
  nd_strmPortB :: ptr
  nd_rmckPort :: ptr

record ConnectionData_t =
  cd_dataType :: MDataType_t
  cd_sockCnt :: u8
  cd_syncOffsetNeeded :: bool
  cd_isDeactivated :: bool
  cd_routeId :: u16
  cd_syncOffset :: u16
  cd_routeName :: "string option"
  cd_labelNormal :: u16
  cd_labelFallback :: u16
  cd_inSocket :: ptr
  cd_outSocket :: ptr
  cd_jobList :: "ptr list"
  cd_combiner :: ptr
  cd_splitter :: ptr
  cd_pendingCombinerSockets :: cursor
  cd_muteMode :: "MuteMode option"
  cd_isocPacketSize :: "IsocSize option"

text \<open>\<open>memset\<close> with zero; \<open>SYNC_DATA\<close> is 0.\<close>

definition zero_node_data :: "nat \<Rightarrow> NodeData_t" where
  "zero_node_data nod = \<lparr>nd_nod = nod, nd_usbPort = Null, nd_mlbPort = Null, nd_strmPortA = Null,
     nd_strmPortB = Null, nd_rmckPort = Null\<rparr>"

definition zero_con_data :: ConnectionData_t where
  "zero_con_data = \<lparr>cd_dataType = SYNC_DATA, cd_sockCnt = 0, cd_syncOffsetNeeded = False,
     cd_isDeactivated = False, cd_routeId = 0, cd_syncOffset = 0, cd_routeName = None,
     cd_labelNormal = 0, cd_labelFallback = 0, cd_inSocket = Null, cd_outSocket = Null,
     cd_jobList = [], cd_combiner = Null, cd_splitter = Null, cd_pendingCombinerSockets = [],
     cd_muteMode = None, cd_isocPacketSize = None\<rparr>"

record xst = xstore +
  xs_autoRouteId :: u16
  xs_routes :: "UcsXmlRoute list"
  xs_scripts :: "UcsXmlScript list"
  xs_drivers :: "DriverInformation_t list"
  xs_node :: NodeData_t
  xs_con :: ConnectionData_t
  xs_val :: UcsXmlVal_t

abbreviation upd_con :: "(ConnectionData_t \<Rightarrow> ConnectionData_t) \<Rightarrow> xst \<Rightarrow> xst" where
  "upd_con f s \<equiv> s\<lparr>xs_con := f (xs_con s)\<rparr>"

abbreviation upd_node :: "(NodeData_t \<Rightarrow> NodeData_t) \<Rightarrow> xst \<Rightarrow> xst" where
  "upd_node f s \<equiv> s\<lparr>xs_node := f (xs_node s)\<rparr>"

abbreviation upd_val :: "(UcsXmlVal_t \<Rightarrow> UcsXmlVal_t) \<Rightarrow> xst \<Rightarrow> xst" where
  "upd_val f s \<equiv> s\<lparr>xs_val := f (xs_val s)\<rparr>"

section \<open>Character arrays of 32 places\<close>

definition NAME_LEN :: nat where "NAME_LEN = 32"

definition strncpy_name :: "string \<Rightarrow> string" where
  "strncpy_name txt = take NAME_LEN txt"

definition name_strcmp :: "string \<Rightarrow> string \<Rightarrow> bool result" where
  "name_strcmp txt buf =
     (if length buf = NAME_LEN \<and> take NAME_LEN txt = buf then Inl OutOfBounds else Inr (txt = buf))"

definition name_nonempty :: "string \<Rightarrow> bool result" where
  "name_nonempty buf = (if length buf = NAME_LEN then Inl OutOfBounds else Inr (buf \<noteq> []))"

section \<open>Job lists\<close>

definition AddJob :: "ptr \<Rightarrow> xst \<Rightarrow> unit option \<times> xst" where
  "AddJob job s =
     (if job = Null then (None, s) else
      case MCalloc 1 1 s of
        (None, s) \<Rightarrow> (None, s)
      | (Some _, s) \<Rightarrow> (Some (), upd_con (\<lambda>c. c\<lparr>cd_jobList := cd_jobList c @ [job]\<rparr>) s))"

definition calloc_NULL :: "'z xlog_scheme \<Rightarrow> 'z xlog_scheme" where
  "calloc_NULL = UcsXml_CB_OnError (''Assertion in file=%s, line=%d reason='' @ quoted ''%s'') 3
     [XStr ''calloc returned NULL'']"

definition GetJobList :: "ptr list \<Rightarrow> 'z xmem_scheme \<Rightarrow> ptr list option \<times> 'z xmem_scheme" where
  "GetJobList joblist s =
     (if joblist = [] then (None, s) else
      case MCalloc (length joblist + 1) 1 s of
        (None, s) \<Rightarrow> (None, calloc_NULL s)
      | (Some _, s) \<Rightarrow> (Some joblist, s))"

text \<open>Allocating the cells of a copy one by one.\<close>

fun alloc_cells :: "nat \<Rightarrow> 'z xmem_scheme \<Rightarrow> bool \<times> 'z xmem_scheme" where
  "alloc_cells 0 s = (True, s)"
| "alloc_cells (Suc n) s = (case MCalloc 1 1 s of
     (None, s) \<Rightarrow> (False, calloc_NULL s)
   | (Some _, s) \<Rightarrow> alloc_cells n s)"

definition DeepCopyJobList :: "ptr list \<Rightarrow> 'z xmem_scheme \<Rightarrow> ptr list \<times> 'z xmem_scheme" where
  "DeepCopyJobList jobsIn s =
     (case alloc_cells (length jobsIn) s of
        (ok, s) \<Rightarrow> (if ok then jobsIn else [], s))"

section \<open>Payloads\<close>

definition is_delim :: "char \<Rightarrow> bool" where
  "is_delim c = (c \<in> set '' ,.-'')"

text \<open>The tokens that \<open>strtok_r(..., " ,.-", ...)\<close> returns one after the other.\<close>

function tokens :: "string \<Rightarrow> string list" where
  "tokens s = (case dropWhile is_delim s of
     [] \<Rightarrow> []
   | c # cs \<Rightarrow> (c # takeWhile (\<lambda>c. \<not> is_delim c) cs) # tokens (dropWhile (\<lambda>c. \<not> is_delim c) cs))"
  by pat_completeness auto
termination
proof (relation "measure length")
  fix s :: string and c cs
  assume "dropWhile is_delim s = c # cs"
  then have "length (c # cs) \<le> length s" by (metis length_dropWhile_le)
  then show "(dropWhile (\<lambda>c. \<not> is_delim c) cs, s) \<in> measure length"
    using length_dropWhile_le [of "\<lambda>c. \<not> is_delim c" cs] by simp
qed simp

declare tokens.simps [simp del]

text \<open>The loop over the tokens; \<open>len\<close> bytes are already behind the offset.\<close>

fun payload_loop ::
  "nat \<Rightarrow> nat \<Rightarrow> string list \<Rightarrow> u8 list \<Rightarrow> nat \<Rightarrow> 'z xlog_scheme
     \<Rightarrow> (u8 list \<times> nat) option \<times> 'z xlog_scheme" where
  "payload_loop tempLen off [] p len s = (Some (p, len), s)"
| "payload_loop tempLen off (token # ts) p len s =
     (if len \<ge> tempLen
      then (None, UcsXml_CB_OnError ''Script payload values must be stuffed to two characters'' 0 [] s)
      else if \<not> CheckInteger token True
      then (None, UcsXml_CB_OnError (''Script payload contains non valid hex number='' @ quoted ''%s'') 1
                    [XStr token] s)
      else payload_loop tempLen off ts (p[off + len := word_of_int (strtol 16 token)]) (Suc len) s)"

text \<open>
  The bytes and the length reported; the bytes are NULL for an empty text. The copy of the
  text is released on failure only.
\<close>

definition GetPayload ::
  "mxml_node_t \<Rightarrow> string \<Rightarrow> u8 \<Rightarrow> bool \<Rightarrow> 'z xmem_scheme
     \<Rightarrow> (u8 list option \<times> u8) option \<times> 'z xmem_scheme" where
  "GetPayload element name off mandatory s =
     (case GetString element name mandatory s of
        (None, s) \<Rightarrow> (None, s)
      | (Some txt, s) \<Rightarrow>
          if txt = [] then (Some (None, 0), s) else
          (case calloc s of
             (None, s) \<Rightarrow> (None, s)
           | (Some txtCopy, s) \<Rightarrow>
               let tempLen = (length txt + 1) div 3;
                   release = (\<lambda>s. s\<lparr>live := live s - {txtCopy}\<rparr>)
               in case MCalloc (unat off + tempLen) 1 s of
                    (None, s) \<Rightarrow> (None, release s)
                  | (Some _, s) \<Rightarrow>
                      (case payload_loop tempLen (unat off) (tokens txt)
                              (replicate (unat off + tempLen) 0) 0 s of
                         (None, s) \<Rightarrow> (None, release s)
                       | (Some (p, len), s) \<Rightarrow> (Some (Some p, of_nat len), s))))"

section \<open>Payloads are read back\<close>

fun hex_text :: "u8 list \<Rightarrow> string" where
  "hex_text [] = []"
| "hex_text [b] = fmt_X 2 (unat b)"
| "hex_text (b # c # bs) = fmt_X 2 (unat b) @ '' '' @ hex_text (c # bs)"

lemma fmt_byte:
  fixes b :: u8
  obtains h l where "h < 16" "l < 16" "fmt_X 2 (unat b) = [hex_digit h, hex_digit l]"
    "unat b = 16 * h + l"
proof -
  have b: "unat b < 256" by (rule less_le_trans [OF unsigned_less]) simp
  have "fmt_X 2 (unat b) = [hex_digit (unat b div 16), hex_digit (unat b mod 16)]"
  proof (cases "unat b < 16")
    case True
    then show ?thesis by (simp add: fmt_X_def pad_zero_def hex_digits.simps [of "unat b"] hex_digit_def)
  next
    case False
    with b have "unat b div 16 < 16" by simp
    with False show ?thesis
      by (simp add: fmt_X_def pad_zero_def hex_digits.simps [of "unat b"]
          hex_digits.simps [of "unat b div 16"] hex_digit_mod)
  qed
  with b show ?thesis by (intro that [of "unat b div 16" "unat b mod 16"]) simp_all
qed

lemma not_delim_hex_digit: "d < 16 \<Longrightarrow> \<not> is_delim (hex_digit d)"
  by (drule nat_less_16_cases) (elim disjE; simp add: is_delim_def hex_digit_def)

lemma token_byte:
  fixes b :: u8
  shows "CheckInteger (fmt_X 2 (unat b)) True"
    and "(word_of_int (strtol 16 (fmt_X 2 (unat b))) :: u8) = b"
proof -
  obtain h l where hl: "h < 16" "l < 16" "fmt_X 2 (unat b) = [hex_digit h, hex_digit l]"
    "unat b = 16 * h + l" by (rule fmt_byte)
  show "CheckInteger (fmt_X 2 (unat b)) True"
    using hl by (simp add: CheckInteger_def digit_is_integer_char(2))
  have "strtol 16 (fmt_X 2 (unat b)) = int (unat b)"
    using hl hex_digit_neq [OF hl(1)] hex_digit_neq [OF hl(2)] not_space_hex_digit [OF hl(1)]
    by (simp add: strtol_def strtol_abs_def prefix_x_def base_digit_hex_digit digit_value_hex_digit)
  then show "(word_of_int (strtol 16 (fmt_X 2 (unat b))) :: u8) = b" by simp
qed

lemma tokens_hex_text: "tokens (hex_text bs) = map (\<lambda>b. fmt_X 2 (unat b)) bs"
proof (induction bs rule: hex_text.induct)
  case 1
  then show ?case by (simp add: tokens.simps [of "[]"])
next
  case (2 b)
  obtain h l where hl: "h < 16" "l < 16" "fmt_X 2 (unat b) = [hex_digit h, hex_digit l]"
    by (rule fmt_byte)
  then show ?case
    by (simp add: tokens.simps [of "[hex_digit h, hex_digit l]"] tokens.simps [of "[]"] not_delim_hex_digit)
next
  case (3 b c bs)
  obtain h l where hl: "h < 16" "l < 16" "fmt_X 2 (unat b) = [hex_digit h, hex_digit l]"
    by (rule fmt_byte)
  have skip: "tokens (CHR '' '' # cs) = tokens cs" for cs
    by (simp add: tokens.simps [of "CHR '' '' # cs"] tokens.simps [of cs] is_delim_def)
  have sep: "is_delim CHR '' ''" by (simp add: is_delim_def)
  show ?case
    using hl 3 tokens.simps [of "hex_digit h # hex_digit l # CHR '' '' # hex_text (c # bs)"]
    by (simp add: not_delim_hex_digit sep skip)
qed

lemma length_hex_text: "bs \<noteq> [] \<Longrightarrow> length (hex_text bs) + 1 = 3 * length bs"
proof (induction bs rule: hex_text.induct)
  case (2 b)
  obtain h l where "fmt_X 2 (unat b) = [hex_digit h, hex_digit l]" by (rule fmt_byte)
  then show ?case by simp
next
  case (3 b c bs)
  obtain h l where "fmt_X 2 (unat b) = [hex_digit h, hex_digit l]" by (rule fmt_byte)
  with 3 show ?case by simp
qed simp

lemma payload_loop_hex:
  assumes "len + length bs \<le> tempLen" and "off + len + length bs \<le> length p"
  shows "payload_loop tempLen off (map (\<lambda>b. fmt_X 2 (unat b)) bs) p len s =
     (Some (take (off + len) p @ bs @ drop (off + len + length bs) p, len + length bs), s)"
  using assms
proof (induction bs arbitrary: p len)
  case Nil
  then show ?case by simp
next
  case (Cons b bs)
  have upd: "take (Suc (off + len)) (p[off + len := b]) = take (off + len) p @ [b]"
    using Cons.prems by (simp add: take_Suc_conv_app_nth)
  show ?case
    using Cons.prems by (simp add: token_byte Cons.IH upd drop_update_cancel)
qed

lemma GetPayload_hex:
  assumes "bs \<noteq> []" and "map_of (elem_attrs e) name = Some (hex_text bs)"
    and "\<forall>n. calloc_ok s n"
  shows "\<exists>s'. GetPayload e name off m s =
       (Some (Some (replicate (unat off) 0 @ bs), of_nat (length bs)), s') \<and> xs_errors s' = xs_errors s"
proof -
  have len: "Suc (length (hex_text bs)) div 3 = length bs" "0 < length bs" "hex_text bs \<noteq> []"
    using length_hex_text [OF assms(1)] assms(1) by auto
  have ok: "\<exists>b s'. MCalloc (unat off + length bs) 1 t = (Some b, s') \<and> xs_errors s' = xs_errors t"
    if "\<forall>n. calloc_ok t n" for t :: "'a xmem_scheme"
    using that len(2) by (auto simp: MCalloc_def calloc_def Let_def)
  obtain t where t: "calloc s = (Some (calloc_calls s), t)" "\<forall>n. calloc_ok t n" "xs_errors t = xs_errors s"
    using assms(3) by (auto simp: calloc_def Let_def)
  obtain b s' where "MCalloc (unat off + length bs) 1 t = (Some b, s')" "xs_errors s' = xs_errors s"
    using ok [OF t(2)] t(3) by auto
  then show ?thesis
    using assms(2) len(3) t(1)
    by (simp add: GetPayload_def GetString_def len(1) tokens_hex_text payload_loop_hex Let_def)
qed

text \<open>
  C31: Payloads survive. The text that writes bytes as two hexadecimal digits each, separated by
  blanks, is parsed to exactly those bytes in order, behind the reserved header, in a buffer of
  exactly that size and without an error message; the length reported is their number (modulo
  256, as the length is a byte).
\<close>

theorem payload_roundtrip:
  assumes "bs \<noteq> []" and "map_of (elem_attrs e) name = Some (hex_text bs)"
    and "\<forall>n. calloc_ok s n"
  shows "\<exists>s'. GetPayload e name off m s =
       (Some (Some (replicate (unat off) 0 @ bs), of_nat (length bs)), s') \<and> xs_errors s' = xs_errors s"
  using assms by (rule GetPayload_hex)

definition memory_start :: xmem where
  "memory_start = \<lparr>xs_errors = [], calloc_ok = (\<lambda>_. True), calloc_calls = 0, live = {}, obj_head = None,
     obj_cells = []\<rparr>"

theorem payload_roundtrip_witness:
  "\<exists>s'. GetPayload (Element ''I2CPortWrite'' [(''Payload'', hex_text [0x0F, 0xA0])] []) ''Payload'' 8 True
       memory_start = (Some (Some (replicate (unat (8 :: u8)) 0 @ [0x0F, 0xA0]), of_nat (length [0x0F, 0xA0 :: u8])), s')
     \<and> xs_errors s' = xs_errors memory_start"
  by (rule payload_roundtrip) (simp_all add: memory_start_def)

end
