(* ===== verification/Xml_Scripts.thy ===== *)
theory Xml_Scripts
  imports Xml_State
begin

text \<open>
  Scripts: \<open>ParseAllScripts\<close> to \<open>ParseScriptPause\<close> of libraries/ucs-xml/UcsXml.c.

  A script is an array of messages, allocated for as many elements as were counted; the
  functions for the actions write into one element. Its place may be behind the end of the
  array, which the parameter \<open>slot\<close> tells: the first write to it is then out of bounds. The
  pause that the next message waits is \<open>scriptData->pause\<close>.
\<close>

section \<open>Messages\<close>

definition missing :: string where "missing = ''Missing mandatory attribute''"

definition zero_msg :: NsMsg where
  "zero_msg = \<lparr>nm_fblock_id = 0, nm_inst_id = 0, nm_funct_id = 0, nm_op_type = 0, nm_data_size = 0,
     nm_data = None\<rparr>"

definition zero_script :: NsScript where
  "zero_script = \<lparr>ns_send = None, ns_result = None, ns_pause = 0\<rparr>"

text \<open>Two allocations and the first writes to the element.\<close>

definition FillScriptInitialValues :: "bool \<Rightarrow> (bool, xst) xp" where
  "FillScriptInitialValues slot =
     bindX (liftX (MCalloc 1 1)) (\<lambda>send_cmd.
     bindX (liftX (MCalloc 1 1)) (\<lambda>exp_result.
     thenX (valX (if slot then Inr () else Inl OutOfBounds))
       (if send_cmd = None \<or> exp_result = None
        then thenX (updX calloc_NULL) (retX False) else retX True)))"

definition need_fill :: "bool \<Rightarrow> (unit, xst) xp" where
  "need_fill slot = bindX (FillScriptInitialValues slot) (\<lambda>ok.
     if ok then retX () else RETURN_ASSERT Parse_MemoryError ''Script initialization failed'')"

definition need_memory :: "nat \<Rightarrow> (unit, xst) xp" where
  "need_memory n = bindX (needX (MCalloc n 1) Parse_MemoryError ''calloc returned NULL'') (\<lambda>_. retX ())"

text \<open>The messages of the fixed functions: request 0x2, any answer of 0xC.\<close>

definition port_script :: "u16 \<Rightarrow> u8 \<Rightarrow> u8 list \<Rightarrow> u16 \<Rightarrow> NsScript" where
  "port_script funct dataSize bytes pause =
     \<lparr>ns_send = Some (zero_msg\<lparr>nm_inst_id := 1, nm_funct_id := funct, nm_op_type := 0x2,
        nm_data_size := dataSize, nm_data := Some bytes\<rparr>),
      ns_result = Some (zero_msg\<lparr>nm_inst_id := 1, nm_funct_id := funct, nm_op_type := 0xC\<rparr>),
      ns_pause = pause\<rparr>"

definition ParseScriptMsgSend :: "mxml_node_t \<Rightarrow> bool \<Rightarrow> u16 \<Rightarrow> (NsScript, xst) xp" where
  "ParseScriptMsgSend act slot pause =
     bindX (FillScriptInitialValues slot) (\<lambda>ok.
     if \<not> ok then stopX Parse_MemoryError else
     bindX (needX (GetUInt8 act ''FBlockId'' True) Parse_XmlError missing) (\<lambda>fblock.
     bindX (needX (GetUInt16 act ''FunctionId'' True) Parse_XmlError missing) (\<lambda>funct.
     bindX (needX (GetUInt8 act ''OpTypeRequest'' True) Parse_XmlError missing) (\<lambda>request.
     bindX (liftX (GetUInt8 act ''OpTypeResponse'' False)) (\<lambda>response.
     bindX (needX (GetPayload act ''PayloadRequest'' 0 True) Parse_XmlError missing) (\<lambda>(payload, len).
     retX \<lparr>ns_send = Some \<lparr>nm_fblock_id = fblock, nm_inst_id = 1, nm_funct_id = funct, nm_op_type = request,
              nm_data_size = len, nm_data = payload\<rparr>,
           ns_result = Some (zero_msg\<lparr>nm_fblock_id := fblock, nm_inst_id := 1, nm_funct_id := funct,
              nm_op_type := (case response of None \<Rightarrow> 0xFF | Some t \<Rightarrow> t)\<rparr>),
           ns_pause = pause\<rparr>))))))"

definition ParseScriptGpioPortCreate :: "mxml_node_t \<Rightarrow> bool \<Rightarrow> u16 \<Rightarrow> (NsScript, xst) xp" where
  "ParseScriptGpioPortCreate act slot pause =
     thenX (need_fill slot)
     (bindX (needX (GetUInt16 act ''DebounceTime'' True) Parse_XmlError missing) (\<lambda>debounce.
      thenX (need_memory 3)
      (retX (port_script 0x701 3 [0, MISC_HB debounce, MISC_LB debounce] pause))))"

definition PORT_HANDLE_OFFSET :: u8 where "PORT_HANDLE_OFFSET = 2"

text \<open>Overwriting the first bytes of the payload buffer; an empty payload has none.\<close>

definition put_header :: "u8 list \<Rightarrow> u8 list option \<Rightarrow> u8 list result" where
  "put_header header payload = (case payload of
     None \<Rightarrow> Inl NullDeref
   | Some p \<Rightarrow> if length header \<le> length p then Inr (header @ drop (length header) p) else Inl OutOfBounds)"

definition ParseScriptGpioPinMode :: "mxml_node_t \<Rightarrow> bool \<Rightarrow> u16 \<Rightarrow> (NsScript, xst) xp" where
  "ParseScriptGpioPinMode act slot pause =
     thenX (need_fill slot)
     (bindX (needX (GetPayload act ''PinConfiguration'' PORT_HANDLE_OFFSET True) Parse_XmlError missing)
        (\<lambda>(payload, payloadLen).
      bindX (valX (put_header [0x1D, 0x00] payload)) (\<lambda>p.
      retX (port_script 0x703 (payloadLen + PORT_HANDLE_OFFSET) p pause))))"

definition ParseScriptGpioPinState :: "mxml_node_t \<Rightarrow> bool \<Rightarrow> u16 \<Rightarrow> (NsScript, xst) xp" where
  "ParseScriptGpioPinState act slot pause =
     thenX (need_fill slot)
     (bindX (needX (GetUInt16 act ''Mask'' True) Parse_XmlError missing) (\<lambda>mask.
      bindX (needX (GetUInt16 act ''Data'' True) Parse_XmlError missing) (\<lambda>data.
      thenX (need_memory 6)
      (retX (port_script 0x704 6
         [0x1D, 0x00, MISC_HB mask, MISC_LB mask, MISC_HB data, MISC_LB data] pause)))))"

definition ParseScriptPortCreate :: "mxml_node_t \<Rightarrow> bool \<Rightarrow> u16 \<Rightarrow> (NsScript, xst) xp" where
  "ParseScriptPortCreate act slot pause =
     thenX (need_fill slot)
     (bindX (needX (GetString act ''Speed'' True) Parse_XmlError missing) (\<lambda>txt.
      bindX (if txt = ''SlowMode'' then retX 0 else if txt = ''FastMode'' then retX 1
             else thenX (errorX (''Invalid I2C speed:'' @ quoted ''%s'') 1 [XStr txt])
                    (RETURN_ASSERT Parse_XmlError missing)) (\<lambda>speed.
      thenX (need_memory 4)
      (retX (port_script 0x6C1 4 [0x00, 0x00, 0x01, speed] pause)))))"

definition HEADER_OFFSET :: u8 where "HEADER_OFFSET = 8"

definition ParseScriptPortWrite :: "mxml_node_t \<Rightarrow> bool \<Rightarrow> u16 \<Rightarrow> (NsScript, xst) xp" where
  "ParseScriptPortWrite act slot pause =
     bindX (liftX (GetString act ''Mode'' False)) (\<lambda>txt.
     bindX (case txt of
              None \<Rightarrow> retX 0
            | Some txt \<Rightarrow>
                if txt = ''DefaultMode'' then retX 0 else if txt = ''RepeatedStartMode'' then retX 1
                else if txt = ''BurstMode'' then retX 2
                else thenX (errorX (''Invalid I2C mode:'' @ quoted ''%s'') 1 [XStr txt])
                       (RETURN_ASSERT Parse_XmlError ''Wrong enum'')) (\<lambda>mode.
     bindX (liftX (GetUInt8 act ''BlockCount'' False)) (\<lambda>blockCount.
     bindX (needX (GetUInt8 act ''Address'' True) Parse_XmlError missing) (\<lambda>address.
     bindX (liftX (GetUInt8 act ''Length'' False)) (\<lambda>len.
     bindX (liftX (GetUInt16 act ''Timeout'' False)) (\<lambda>timeout.
     bindX (needX (GetPayload act ''Payload'' HEADER_OFFSET True) Parse_XmlError missing)
       (\<lambda>(payload, payloadLength).
     let blockCount = (case blockCount of None \<Rightarrow> 0 | Some n \<Rightarrow> n);
         len = (case len of None \<Rightarrow> 0 | Some n \<Rightarrow> n);
         timeout = (case timeout of None \<Rightarrow> 100 | Some t \<Rightarrow> t);
         len = (if len = 0 then payloadLength else len)
     in thenX (need_fill slot)
        (bindX (valX (put_header [0x0F, 0x00, mode, blockCount, address, len, MISC_HB timeout, MISC_LB timeout]
                        payload)) (\<lambda>p.
         retX (port_script 0x6C4 (payloadLength + HEADER_OFFSET) p pause))))))))))"

definition ParseScriptPortRead :: "mxml_node_t \<Rightarrow> bool \<Rightarrow> u16 \<Rightarrow> (NsScript, xst) xp" where
  "ParseScriptPortRead act slot pause =
     bindX (needX (GetUInt8 act ''Address'' True) Parse_XmlError missing) (\<lambda>address.
     bindX (needX (GetUInt8 act ''Length'' True) Parse_XmlError missing) (\<lambda>len.
     bindX (liftX (GetUInt16 act ''Timeout'' False)) (\<lambda>timeout.
     let timeout = (case timeout of None \<Rightarrow> 100 | Some t \<Rightarrow> t)
     in thenX (need_fill slot)
        (thenX (need_memory 6)
        (retX (port_script 0x6C3 6 [0x0F, 0x00, address, len, MISC_HB timeout, MISC_LB timeout] pause))))))"

definition ParseScriptPause :: "mxml_node_t \<Rightarrow> (u16, xst) xp" where
  "ParseScriptPause act = needX (GetUInt16 act ''WaitTime'' True) Parse_XmlError missing"

section \<open>Scripts\<close>

definition ALL_SCRIPTS_NO_PAUSE :: "string list" where
  "ALL_SCRIPTS_NO_PAUSE = [''MsgSend'', ''GPIOPortCreate'', ''GPIOPortPinMode'', ''GPIOPinState'',
     ''I2CPortCreate'', ''I2CPortWrite'', ''I2CPortRead'']"

definition ALL_SCRIPTS :: "string list" where
  "ALL_SCRIPTS = [''MsgSend'', ''Pause'', ''GPIOPortCreate'', ''GPIOPortPinMode'', ''GPIOPinState'',
     ''I2CPortCreate'', ''I2CPortWrite'', ''I2CPortRead'']"

definition script_action ::
  "string \<Rightarrow> (mxml_node_t \<Rightarrow> bool \<Rightarrow> u16 \<Rightarrow> (NsScript, xst) xp) option" where
  "script_action name = map_of [(''MsgSend'', ParseScriptMsgSend),
     (''GPIOPortCreate'', ParseScriptGpioPortCreate), (''GPIOPortPinMode'', ParseScriptGpioPinMode),
     (''GPIOPinState'', ParseScriptGpioPinState), (''I2CPortCreate'', ParseScriptPortCreate),
     (''I2CPortWrite'', ParseScriptPortWrite), (''I2CPortRead'', ParseScriptPortRead)] name"

text \<open>One action: the array so far, the index of the next element, the pause collected.\<close>

definition script_step :: "cursor \<Rightarrow> NsScript list \<times> nat \<times> u16 \<Rightarrow> (NsScript list \<times> nat \<times> u16, xst) xp" where
  "script_step c a = (case a of (script, actCnt, pause) \<Rightarrow>
     let act = hd c; txt = elem_name act
     in case script_action txt of
          Some parse \<Rightarrow>
            bindX (parse act (actCnt < length script) pause) (\<lambda>scr.
            retX (script[actCnt := scr], Suc actCnt, 0))
        | None \<Rightarrow>
            if txt = ''Pause'' then bindX (ParseScriptPause act) (\<lambda>pause. retX (script, actCnt, pause))
            else thenX (errorX (''Unknown script action:'' @ quoted ''%s'') 1 [XStr txt])
                   (RETURN_ASSERT Parse_XmlError ''Wrong enum''))"

text \<open>One entry of the list of scripts that nodes ask for; tells whether the script was wanted.\<close>

definition script_target :: "string \<Rightarrow> NsScript list \<Rightarrow> u32 \<Rightarrow> nat \<Rightarrow> bool \<Rightarrow> (bool, xst) xp" where
  "script_target txt script actCnt i found =
     bindX (getX (\<lambda>s. xs_scripts s ! i)) (\<lambda>sc.
     bindX (if sc_singleShot sc then retX True else valX (name_strcmp txt (sc_scriptName sc))) (\<lambda>match.
     if \<not> match then retX found else
     (case sc_node sc of
        None \<Rightarrow> stopX Parse_MemoryError
      | Some nod \<Rightarrow>
          bindX (getX (\<lambda>s. nod < length (v_nodes (xs_val s)))) (\<lambda>inside.
          thenX (valX (if inside then Inr () else Inl OutOfBounds))
          (thenX (updX (upd_val (\<lambda>v. v\<lparr>v_nodes := (v_nodes v)[nod := (v_nodes v ! nod)
                    \<lparr>xn_script := Some script, xn_script_size := actCnt\<rparr>]\<rparr>)))
          (thenX (updX (\<lambda>s. s\<lparr>xs_scripts := (xs_scripts s)[i := sc\<lparr>sc_inUse := True\<rparr>]\<rparr>))
          (retX True)))))))"

definition ParseScript :: "mxml_node_t \<Rightarrow> (unit, xst) xp" where
  "ParseScript scr =
     bindX (needX (GetCountArray (child scr) ALL_SCRIPTS_NO_PAUSE True) Parse_XmlError
              ''Script without any action'') (\<lambda>actCnt.
     bindX (needX (MCalloc (unat actCnt) 1) Parse_MemoryError ''calloc returned NULL'') (\<lambda>_.
     bindX (needX (\<lambda>s. (GetElementArray (child scr) ALL_SCRIPTS False, s)) Parse_XmlError
              ''Script without any action'') (\<lambda>(_, act).
     bindX (foldX script_step (siblings (is_one_of ALL_SCRIPTS) act)
              (replicate (unat actCnt) zero_script, 0, 0)) (\<lambda>(script, cnt, _).
     bindX (needX (GetString scr ''Name'' True) Parse_XmlError missing) (\<lambda>txt.
     bindX (getX (\<lambda>s. length (xs_scripts s))) (\<lambda>n.
     bindX (foldX (script_target txt script (of_nat cnt)) [0..<n] False) (\<lambda>found.
     if found then retX ()
     else thenX (errorX (''Script defined:'' @ quoted ''%s'' @ '', which was never referenced'') 1 [XStr txt])
            (RETURN_ASSERT Parse_XmlError ''Unused script''))))))))"

text \<open>The node of a script that is wanted but not defined, for the message.\<close>

definition script_node_address :: "XNode list \<Rightarrow> UcsXmlScript \<Rightarrow> u16 result" where
  "script_node_address nodes sc = (case sc_node sc of
     None \<Rightarrow> Inl NullDeref
   | Some i \<Rightarrow> if i < length nodes
       then (case xn_signature (nodes ! i) of None \<Rightarrow> Inl NullDeref | Some a \<Rightarrow> Inr a)
       else Inl OutOfBounds)"

definition script_used :: "UcsXmlScript \<Rightarrow> bool \<Rightarrow> (bool, xst) xp" where
  "script_used sc found =
     (if sc_inUse sc then retX found else
      bindX (getX (\<lambda>s. v_nodes (xs_val s))) (\<lambda>nodes.
      bindX (valX (script_node_address nodes sc)) (\<lambda>a.
      thenX (errorX (''Script not defined:'' @ quoted ''%s'' @ '', used by node=0x%X'') 1
               [XStr (sc_scriptName sc), XInt (uint a)])
      (retX False))))"

definition ParseAllScripts :: "cursor \<Rightarrow> bool \<Rightarrow> (unit, xst) xp" where
  "ParseAllScripts tree checkReference =
     bindX (liftX (GetElement tree ''Script'' True False)) (\<lambda>sub.
     case sub of
       None \<Rightarrow> retX ()
     | Some sub \<Rightarrow>
         thenX (forX (\<lambda>c. abortX (ParseScript (hd c)) ''Aborting further parsing, because scripts failed'')
                  (sub # siblings (is_named ''Script'') (tl sub)))
         (bindX (getX xs_scripts) (\<lambda>scripts.
          bindX (if checkReference then foldX script_used scripts True else retX True) (\<lambda>found.
          if found then retX () else RETURN_ASSERT Parse_XmlError ''Script not found''))))"

end
