(* ===== verification/Xml_Nodes.thy ===== *)
theory Xml_Nodes
  imports Xml_State
begin

text \<open>
  Nodes, connections and sockets: \<open>ParseNode\<close>, \<open>ParseConnection\<close> and \<open>ParseSocket\<close> of
  libraries/ucs-xml/UcsXml.c, with \<open>AddRoute\<close> and \<open>AddScript\<close>.

  \<open>ParseSocket\<close> is recursive: a splitter or combiner parses the network sockets inside it, and
  the socket that completes a combiner parses those waiting. Its first parameter bounds the
  depth; three levels are enough, as is proved below. The results of the inner calls are
  tested with \<open>!\<close>, which is never true for a \<open>ParseResult_t\<close>, so that they are not used.
\<close>

section \<open>Creating into a variable\<close>

text \<open>\<open>if (!Get...(&x, &p)) RETURN_ASSERT(result, reason);\<close>\<close>

definition createX ::
  "(xst \<Rightarrow> (nat option \<times> bool) \<times> xst) \<Rightarrow> (ptr \<Rightarrow> xst \<Rightarrow> xst) \<Rightarrow> string \<Rightarrow> (unit, xst) xp" where
  "createX m assign reason =
     bindX (liftX m) (\<lambda>(out, ok).
     thenX (case out of None \<Rightarrow> retX () | Some i \<Rightarrow> updX (assign (Ref i)))
       (if ok then retX () else RETURN_ASSERT Parse_XmlError reason))"

definition need_memory_error :: "(xst \<Rightarrow> 'a option \<times> xst) \<Rightarrow> ('a, xst) xp" where
  "need_memory_error m = needX m Parse_MemoryError ''calloc returned NULL''"

definition need_attr :: "(xst \<Rightarrow> 'a option \<times> xst) \<Rightarrow> ('a, xst) xp" where
  "need_attr m = needX m Parse_XmlError ''Missing mandatory attribute''"

definition add_job :: "ptr \<Rightarrow> (unit, xst) xp" where
  "add_job p = needX (AddJob p) Parse_XmlError ''Failed to add job''"

text \<open>An optional truth value: true, false, 1 or 0.\<close>

definition truth_value :: "string \<Rightarrow> bool option" where
  "truth_value txt = map_of [(''true'', True), (''1'', True), (''false'', False), (''0'', False)] txt"

section \<open>Nodes\<close>

definition ALL_PORTS :: "string list" where
  "ALL_PORTS = [''MediaLBPort'', ''USBPort'', ''StreamPort'', ''RMCKPort'']"

definition AddScript :: "UcsXmlScript \<Rightarrow> xst \<Rightarrow> xst" where
  "AddScript script s = s\<lparr>xs_scripts := xs_scripts s @ [script]\<rparr>"

definition AddRoute :: "UcsXmlRoute \<Rightarrow> xst \<Rightarrow> xst" where
  "AddRoute route s = s\<lparr>xs_routes := xs_routes s @ [route]\<rparr>"

text \<open>Writing to the current node, \<open>priv->nodeData.nod\<close>.\<close>

definition set_nod :: "(XNode \<Rightarrow> XNode) \<Rightarrow> (unit, xst) xp" where
  "set_nod f =
     bindX (getX (\<lambda>s. nd_nod (xs_node s))) (\<lambda>i.
     bindX (getX (\<lambda>s. length (v_nodes (xs_val s)))) (\<lambda>n.
     if i < n then updX (upd_val (\<lambda>v. v\<lparr>v_nodes := (v_nodes v)[i := f (v_nodes v ! i)]\<rparr>))
     else valX (Inl OutOfBounds)))"

definition ParsePort :: "cursor \<Rightarrow> (unit, xst) xp" where
  "ParsePort c =
     (let port = hd c; txt = elem_name port in
      if txt = ''MediaLBPort'' then
        bindX (need_attr (GetString port ''ClockConfig'' True)) (\<lambda>clockConfig.
        createX (GetMlbPort clockConfig) (\<lambda>p. upd_node (\<lambda>n. n\<lparr>nd_mlbPort := p\<rparr>))
          ''Can not get MLB Port properties'')
      else if txt = ''USBPort'' then
        bindX (need_attr (GetString port ''PhysicalLayer'' True)) (\<lambda>physicalLayer.
        bindX (need_attr (GetString port ''DeviceInterfaces'' True)) (\<lambda>deviceInterfaces.
        bindX (need_attr (GetString port ''StreamingIfEpInCount'' True)) (\<lambda>streamInCount.
        bindX (need_attr (GetString port ''StreamingIfEpOutCount'' True)) (\<lambda>streamOutCount.
        createX (GetUsbPort physicalLayer deviceInterfaces streamInCount streamOutCount)
          (\<lambda>p. upd_node (\<lambda>n. n\<lparr>nd_usbPort := p\<rparr>)) ''Missing mandatory attribute''))))
      else if txt = ''StreamPort'' then
        bindX (need_attr (GetString port ''ClockConfig'' True)) (\<lambda>clockConfig.
        bindX (need_attr (GetString port ''DataAlignment'' True)) (\<lambda>dataAlignment.
        thenX (createX (GetStrmPort 0 clockConfig dataAlignment)
                 (\<lambda>p. upd_node (\<lambda>n. n\<lparr>nd_strmPortA := p\<rparr>)) ''Missing mandatory attribute'')
              (createX (GetStrmPort 1 clockConfig dataAlignment)
                 (\<lambda>p. upd_node (\<lambda>n. n\<lparr>nd_strmPortB := p\<rparr>)) ''Missing mandatory attribute'')))
      else if txt = ''RMCKPort'' then
        bindX (need_attr (GetUInt16 port ''Divisor'' True)) (\<lambda>divisor.
        createX (GetRmckPort divisor) (\<lambda>p. upd_node (\<lambda>n. n\<lparr>nd_rmckPort := p\<rparr>)) ''Missing mandatory attribute'')
      else thenX (errorX (''Unknown Port:'' @ quoted ''%s'') 1 [XStr txt])
             (RETURN_ASSERT Parse_XmlError ''Internal error''))"

definition ParseNode :: "mxml_node_t \<Rightarrow> (unit, xst) xp" where
  "ParseNode node =
     bindX (need_memory_error (MCalloc 1 1)) (\<lambda>_.
     thenX (set_nod (\<lambda>n. n\<lparr>xn_signature := Some 0\<rparr>))
     (bindX (need_attr (GetUInt16 node ''Address'' True)) (\<lambda>address.
     thenX (set_nod (\<lambda>n. n\<lparr>xn_signature := Some address\<rparr>))
     (bindX (liftX (GetString node ''FallbackRoot'' False)) (\<lambda>txt.
     thenX (case txt of
              None \<Rightarrow> retX ()
            | Some txt \<Rightarrow> (case truth_value txt of
                None \<Rightarrow> RETURN_ASSERT Parse_XmlError ''Wrong enum''
              | Some b \<Rightarrow> set_nod (\<lambda>n. n\<lparr>xn_remote_attach_disabled := b\<rparr>)))
     (bindX (liftX (GetString node ''Script'' False)) (\<lambda>txt.
     thenX (case txt of
              None \<Rightarrow> retX ()
            | Some txt \<Rightarrow>
                bindX (need_memory_error (MCalloc 1 1)) (\<lambda>_.
                updX (\<lambda>s. AddScript \<lparr>sc_singleShot = False, sc_inUse = False,
                   sc_scriptName = strncpy_name txt, sc_node = Some (nd_nod (xs_node s))\<rparr> s)))
     (case GetElementArray (child node) ALL_PORTS False of
        None \<Rightarrow> retX ()
      | Some (_, port) \<Rightarrow> forX ParsePort (siblings (is_one_of ALL_PORTS) port)))))))))"

section \<open>Connections\<close>

definition ParseConnection :: "mxml_node_t \<Rightarrow> string \<Rightarrow> (unit, xst) xp" where
  "ParseConnection node conType =
     bindX (needX (GetDataType conType) Parse_XmlError ''Can not get data type'') (\<lambda>dataType.
     thenX (updX (upd_con (\<lambda>c. c\<lparr>cd_dataType := dataType\<rparr>)))
     (case dataType of
        SYNC_DATA \<Rightarrow>
          bindX (liftX (GetString node ''MuteMode'' False)) (\<lambda>txt.
          case txt of
            None \<Rightarrow> updX (upd_con (\<lambda>c. c\<lparr>cd_muteMode := Some UCS_SYNC_MUTE_MODE_NO_MUTING\<rparr>))
          | Some txt \<Rightarrow>
              if txt = ''NoMuting''
              then updX (upd_con (\<lambda>c. c\<lparr>cd_muteMode := Some UCS_SYNC_MUTE_MODE_NO_MUTING\<rparr>))
              else if txt = ''MuteSignal''
              then updX (upd_con (\<lambda>c. c\<lparr>cd_muteMode := Some UCS_SYNC_MUTE_MODE_MUTE_SIGNAL\<rparr>))
              else thenX (errorX (''ParseConnection: MuteMode='' @ quoted ''%s'' @ '' not implemented'') 1 [XStr txt])
                     (RETURN_ASSERT Parse_XmlError ''Wrong enum''))
      | AV_PACKETIZED \<Rightarrow>
          bindX (liftX (GetUInt16 node ''IsocPacketSize'' False)) (\<lambda>size.
          case size of
            None \<Rightarrow> updX (upd_con (\<lambda>c. c\<lparr>cd_isocPacketSize := Some UCS_ISOC_PCKT_SIZE_188\<rparr>))
          | Some n \<Rightarrow> (case isoc_size n of
              None \<Rightarrow> thenX (errorX (''ParseConnection: %s='' @ quoted ''%d'' @ '' not implemented'') 2
                               [XStr ''IsocPacketSize'', XInt (uint n)])
                        (RETURN_ASSERT Parse_XmlError ''Wrong enum'')
            | Some t \<Rightarrow> updX (upd_con (\<lambda>c. c\<lparr>cd_isocPacketSize := Some t\<rparr>))))
      | _ \<Rightarrow> thenX (errorX (''ParseConnection: Datatype='' @ quoted ''%s'' @ '' not implemented'') 1 [XStr conType])
               (RETURN_ASSERT Parse_XmlError ''Wrong enum'')))"

section \<open>Sockets\<close>

text \<open>Where \<open>targetSock\<close> points to: the input or the output socket, or the input of the splitter.\<close>

definition set_socket :: "bool \<Rightarrow> ptr \<Rightarrow> xst \<Rightarrow> xst" where
  "set_socket isSource p =
     upd_con (\<lambda>c. if isSource then c\<lparr>cd_inSocket := p\<rparr> else c\<lparr>cd_outSocket := p\<rparr>)"

definition get_socket :: "bool \<Rightarrow> xst \<Rightarrow> ptr" where
  "get_socket isSource s = (if isSource then cd_inSocket (xs_con s) else cd_outSocket (xs_con s))"

definition set_splitter_in :: "ptr \<Rightarrow> ptr \<Rightarrow> xst \<Rightarrow> xst" where
  "set_splitter_in spl p s = (case spl of
     Ref i \<Rightarrow> (case xs_res s ! i of OSplitter c \<Rightarrow> set_obj i (OSplitter (c\<lparr>spl_socket_in := p\<rparr>)) s | _ \<Rightarrow> s)
   | _ \<Rightarrow> s)"

definition set_combiner_port :: "ptr \<Rightarrow> ptr \<Rightarrow> xst \<Rightarrow> xst" where
  "set_combiner_port cmb p s = (case cmb of
     Ref i \<Rightarrow> (case xs_res s ! i of OCombiner c \<Rightarrow> set_obj i (OCombiner (c\<lparr>cmb_port_socket := p\<rparr>)) s | _ \<Rightarrow> s)
   | _ \<Rightarrow> s)"

definition get_splitter_in :: "ptr \<Rightarrow> xst \<Rightarrow> ptr" where
  "get_splitter_in spl s = (case spl of
     Ref i \<Rightarrow> (case xs_res s ! i of OSplitter c \<Rightarrow> spl_socket_in c | _ \<Rightarrow> Null) | _ \<Rightarrow> Null)"

definition NetworkSocketCase :: "mxml_node_t \<Rightarrow> bool \<Rightarrow> (unit, xst) xp" where
  "NetworkSocketCase soc isSource =
     bindX (getX xs_con) (\<lambda>con.
     let useSplitter = (cd_combiner con = Null \<and> cd_splitter con \<noteq> Null);
         assign = (\<lambda>p. if useSplitter then set_splitter_in (cd_splitter con) p else set_socket isSource p)
     in thenX (whenX (cd_combiner con \<noteq> Null) (add_job (cd_combiner con)))
     (bindX (need_attr (GetUInt16 soc ''Bandwidth'' True)) (\<lambda>bandwidth.
     bindX (liftX (GetUInt16 soc ''ConnectionLabelNormal'' False)) (\<lambda>label.
     thenX (case label of
              Some l \<Rightarrow> updX (upd_con (\<lambda>c. c\<lparr>cd_labelNormal := l\<rparr>))
            | None \<Rightarrow>
                bindX (needX (GetString soc ''Route'' False) Parse_XmlError
                         ''Missing mandatory attribute, no route and no connection labels provided'') (\<lambda>route.
                updX (upd_con (\<lambda>c. c\<lparr>cd_routeName := Some route\<rparr>))))
     (bindX (liftX (GetUInt16 soc ''ConnectionLabelFallback'' False)) (\<lambda>label.
     thenX (case label of None \<Rightarrow> retX () | Some l \<Rightarrow> updX (upd_con (\<lambda>c. c\<lparr>cd_labelFallback := l\<rparr>)))
     (bindX (liftX (GetString soc ''IsActive'' False)) (\<lambda>txt.
     thenX (case txt of
              None \<Rightarrow> updX (upd_con (\<lambda>c. c\<lparr>cd_isDeactivated := False\<rparr>))
            | Some txt \<Rightarrow> (case truth_value txt of
                None \<Rightarrow> RETURN_ASSERT Parse_XmlError ''Wrong enum''
              | Some b \<Rightarrow> updX (upd_con (\<lambda>c. c\<lparr>cd_isDeactivated := \<not> b\<rparr>))))
     (bindX (liftX (GetUInt16 soc ''RouteId'' False)) (\<lambda>rid.
     thenX (updX (upd_con (\<lambda>c. c\<lparr>cd_routeId := (case rid of None \<Rightarrow> 0xFFFF | Some r \<Rightarrow> r)\<rparr>)))
     (thenX (whenX (cd_syncOffsetNeeded con)
              (bindX (need_attr (GetUInt16 soc ''Offset'' True)) (\<lambda>off.
               updX (upd_con (\<lambda>c. c\<lparr>cd_syncOffset := off\<rparr>)))))
     (thenX (createX (GetNetworkSocket isSource (cd_dataType con) bandwidth) assign ''Can not get Network Socket'')
     (bindX (getX (if useSplitter then get_splitter_in (cd_splitter con) else get_socket isSource)) (\<lambda>new.
     thenX (add_job new)
           (whenX (cd_splitter con \<noteq> Null) (add_job (cd_splitter con)))))))))))))))))"

text \<open>The port of the node, created with default values when the configuration has none.\<close>

definition port_or_default ::
  "(NodeData_t \<Rightarrow> ptr) \<Rightarrow> (xst \<Rightarrow> (nat option \<times> bool) \<times> xst) \<Rightarrow> (ptr \<Rightarrow> NodeData_t \<Rightarrow> NodeData_t)
     \<Rightarrow> string \<Rightarrow> (unit, xst) xp" where
  "port_or_default get m put reason =
     bindX (getX (\<lambda>s. get (xs_node s))) (\<lambda>p.
     if p \<noteq> Null then retX () else createX m (\<lambda>p. upd_node (put p)) reason)"

definition UsbSocketCase :: "mxml_node_t \<Rightarrow> bool \<Rightarrow> (unit, xst) xp" where
  "UsbSocketCase soc isSource =
     thenX (port_or_default nd_usbPort GetUsbPortDefaultCreated (\<lambda>p n. n\<lparr>nd_usbPort := p\<rparr>)
              ''Can not get default created USB port'')
     (bindX (getX (\<lambda>s. nd_usbPort (xs_node s))) (\<lambda>port.
     thenX (add_job port)
     (bindX (need_attr (GetString soc ''EndpointAddress'' True)) (\<lambda>endpointAddress.
     bindX (need_attr (GetString soc ''FramesPerTransaction'' True)) (\<lambda>framesPerTrans.
     bindX (getX (\<lambda>s. cd_dataType (xs_con s))) (\<lambda>dataType.
     thenX (createX (GetUsbSocket isSource dataType endpointAddress framesPerTrans port) (set_socket isSource)
              ''Can not get USB socket'')
     (bindX (getX (get_socket isSource)) add_job)))))))"

definition MlbSocketCase :: "mxml_node_t \<Rightarrow> bool \<Rightarrow> (unit, xst) xp" where
  "MlbSocketCase soc isSource =
     thenX (port_or_default nd_mlbPort GetMlbPortDefaultCreated (\<lambda>p n. n\<lparr>nd_mlbPort := p\<rparr>)
              ''Can not get default created MLB port'')
     (bindX (getX (\<lambda>s. nd_mlbPort (xs_node s))) (\<lambda>port.
     thenX (add_job port)
     (bindX (need_attr (GetUInt16 soc ''Bandwidth'' True)) (\<lambda>bandwidth.
     bindX (need_attr (GetString soc ''ChannelAddress'' True)) (\<lambda>channelAddress.
     bindX (getX (\<lambda>s. cd_dataType (xs_con s))) (\<lambda>dataType.
     thenX (createX (GetMlbSocket isSource dataType bandwidth channelAddress port) (set_socket isSource)
              ''Missing mandatory attribute'')
     (bindX (getX (get_socket isSource)) add_job)))))))"

definition StrmSocketCase :: "mxml_node_t \<Rightarrow> bool \<Rightarrow> (unit, xst) xp" where
  "StrmSocketCase soc isSource =
     thenX (port_or_default nd_strmPortA (GetStrmPortDefaultCreated 0) (\<lambda>p n. n\<lparr>nd_strmPortA := p\<rparr>)
              ''Can not get default created stream port A'')
     (thenX (port_or_default nd_strmPortB (GetStrmPortDefaultCreated 1) (\<lambda>p n. n\<lparr>nd_strmPortB := p\<rparr>)
              ''Can not get default created stream port B'')
     (bindX (getX (\<lambda>s. (nd_strmPortA (xs_node s), nd_strmPortB (xs_node s)))) (\<lambda>(portA, portB).
     thenX (add_job portA)
     (thenX (add_job portB)
     (bindX (need_attr (GetUInt16 soc ''Bandwidth'' True)) (\<lambda>bandwidth.
     bindX (need_attr (GetString soc ''StreamPinID'' True)) (\<lambda>streamPin.
     bindX (getX (\<lambda>s. cd_dataType (xs_con s))) (\<lambda>dataType.
     thenX (createX (GetStrmSocket isSource dataType bandwidth streamPin portA portB) (set_socket isSource)
              ''Can not get stream socket'')
     (bindX (getX (get_socket isSource)) add_job)))))))))"

text \<open>A call with a copy of the job list; its result is not used.\<close>

definition with_job_copy :: "(unit, xst) xp \<Rightarrow> (unit, xst) xp" where
  "with_job_copy m =
     bindX (getX (\<lambda>s. cd_jobList (xs_con s))) (\<lambda>jobs.
     bindX (liftX (DeepCopyJobList jobs)) (\<lambda>copy.
     thenX (updX (upd_con (\<lambda>c. c\<lparr>cd_jobList := copy\<rparr>)))
     (thenX (ignoreX m)
     (updX (upd_con (\<lambda>c. c\<lparr>cd_jobList := jobs\<rparr>))))))"

definition inner_sockets :: "mxml_node_t \<Rightarrow> string \<Rightarrow> (cursor, xst) xp" where
  "inner_sockets soc reason =
     needX (GetElement (child soc) ''NetworkSocket'' False True) Parse_XmlError reason"

definition SplitterCase ::
  "(mxml_node_t \<Rightarrow> bool \<Rightarrow> (unit, xst) xp) \<Rightarrow> mxml_node_t \<Rightarrow> bool \<Rightarrow> (unit, xst) xp" where
  "SplitterCase parse_network soc isSource =
     thenX (updX (upd_con (\<lambda>c. c\<lparr>cd_syncOffsetNeeded := True\<rparr>)))
     (bindX (need_attr (GetUInt16 soc ''BytesPerFrame'' True)) (\<lambda>bytesPerFrame.
      if isSource then
        thenX (createX (GetSplitter bytesPerFrame Wild) (\<lambda>p. upd_con (\<lambda>c. c\<lparr>cd_splitter := p\<rparr>))
                 ''Can not get Splitter'')
        (thenX (updX (upd_con (\<lambda>c. c\<lparr>cd_inSocket := cd_splitter c\<rparr>)))
        (bindX (inner_sockets soc ''Missing mandatory attribute'') (\<lambda>c.
         ignoreX (parse_network (hd c) True))))
      else
        bindX (getX (\<lambda>s. cd_inSocket (xs_con s))) (\<lambda>inSoc.
        if inSoc = Null then RETURN_ASSERT Parse_XmlError ''Wrong usage of Splitter'' else
        thenX (createX (GetSplitter bytesPerFrame inSoc) (\<lambda>p. upd_con (\<lambda>c. c\<lparr>cd_inSocket := p\<rparr>))
                 ''Can not get Splitter'')
        (thenX (bindX (getX (\<lambda>s. cd_inSocket (xs_con s))) add_job)
        (bindX (inner_sockets soc ''Missing mandatory attribute'') (\<lambda>c.
         thenX (forX (\<lambda>c. with_job_copy (parse_network (hd c) False)) (siblings (is_named ''NetworkSocket'') c))
               (stopX Parse_Success)))))))"

definition CombinerCase :: "mxml_node_t \<Rightarrow> bool \<Rightarrow> (unit, xst) xp" where
  "CombinerCase soc isSource =
     (if \<not> isSource
      then thenX (errorX ''Combiner can not be used as output socket'' 0 [])
             (RETURN_ASSERT Parse_XmlError ''Wrong usage of Combiner'')
      else bindX (need_attr (GetUInt16 soc ''BytesPerFrame'' True)) (\<lambda>bytesPerFrame.
        thenX (createX (GetCombiner bytesPerFrame Wild) (\<lambda>p. upd_con (\<lambda>c. c\<lparr>cd_combiner := p\<rparr>))
                 ''Can not get Combiner'')
        (thenX (updX (upd_con (\<lambda>c. c\<lparr>cd_syncOffsetNeeded := True\<rparr>)))
        (bindX (inner_sockets soc ''No Network Socket inside Combiner'') (\<lambda>c.
         updX (upd_con (\<lambda>d. d\<lparr>cd_pendingCombinerSockets := c\<rparr>)))))))"

text \<open>Handle pending combiner tasks.\<close>

definition pending_combiner :: "(mxml_node_t \<Rightarrow> bool \<Rightarrow> (unit, xst) xp) \<Rightarrow> (unit, xst) xp" where
  "pending_combiner parse_network =
     bindX (getX xs_con) (\<lambda>con.
     if cd_outSocket con \<noteq> Null \<and> cd_combiner con \<noteq> Null \<and> cd_pendingCombinerSockets con \<noteq> [] then
       thenX (updX (upd_con (\<lambda>c. c\<lparr>cd_pendingCombinerSockets := []\<rparr>)))
       (thenX (updX (set_combiner_port (cd_combiner con) (cd_outSocket con)))
       (thenX (updX (upd_con (\<lambda>c. c\<lparr>cd_outSocket := cd_combiner c\<rparr>)))
       (thenX (forX (\<lambda>c. with_job_copy (parse_network (hd c) True))
                 (siblings (is_named ''NetworkSocket'') (cd_pendingCombinerSockets con)))
              (stopX Parse_Success))))
     else retX ())"

definition connection_object :: "ConnectionData_t \<Rightarrow> (unit, xst) xp" where
  "connection_object con = (case cd_dataType con of
     SYNC_DATA \<Rightarrow>
       bindX (need_memory_error (new_obj (OSyncCon \<lparr>syc_in = Null, syc_out = Null, syc_mute = None, syc_offset = 0\<rparr>)))
         (\<lambda>i. thenX (add_job (Ref i))
            (updX (set_obj i (OSyncCon \<lparr>syc_in = cd_inSocket con, syc_out = cd_outSocket con,
                                         syc_mute = cd_muteMode con, syc_offset = cd_syncOffset con\<rparr>))))
   | AV_PACKETIZED \<Rightarrow>
       bindX (need_memory_error (new_obj (OAvpCon \<lparr>avc_in = Null, avc_out = Null, avc_isoc = None\<rparr>)))
         (\<lambda>i. thenX (add_job (Ref i))
            (updX (set_obj i (OAvpCon \<lparr>avc_in = cd_inSocket con, avc_out = cd_outSocket con,
                                        avc_isoc = cd_isocPacketSize con\<rparr>))))
   | t \<Rightarrow> thenX (errorX ''Could not connect sockets, data type not implemented: %d'' 1 [XInt (data_type_number t)])
            (RETURN_ASSERT Parse_XmlError ''Wrong enum''))"

definition is_network :: "xobj \<Rightarrow> bool" where
  "is_network obj = (case obj of ONetworkSocket _ \<Rightarrow> True | _ \<Rightarrow> False)"

definition is_splitter :: "xobj \<Rightarrow> bool" where
  "is_splitter obj = (case obj of OSplitter _ \<Rightarrow> True | _ \<Rightarrow> False)"

text \<open>Connect the input and the output socket once both are created: an endpoint and its route entry.\<close>

definition connect_sockets :: "(unit, xst) xp" where
  "connect_sockets =
     bindX (getX xs_con) (\<lambda>con.
     if cd_inSocket con = Null \<or> cd_outSocket con = Null then retX () else
     thenX (connection_object con)
     (bindX (need_memory_error (MCalloc 1 1)) (\<lambda>_.
     bindX (getX xs_res) (\<lambda>store.
     bindX (valX (derefX store (cd_inSocket con))) (\<lambda>inObj.
     bindX (valX (derefX store (cd_outSocket con))) (\<lambda>outObj.
     let networkIsInput = (is_network inObj \<or> is_splitter inObj);
         networkIsOutput = is_network outObj
     in if \<not> networkIsInput \<and> \<not> networkIsOutput
        then thenX (errorX ''At least one Network socket required per connection'' 0 [])
               (RETURN_ASSERT Parse_XmlError ''Wrong usage of connection'')
        else
     bindX (getX (\<lambda>s. (cd_jobList (xs_con s), nd_nod (xs_node s)))) (\<lambda>(jobs, nod).
     bindX (needX (GetJobList jobs) Parse_MemoryError ''Got empty job list'') (\<lambda>jobs.
     thenX (bindX (need_memory_error (MCalloc 1 1)) (\<lambda>_. retX ()))
     (let ep = \<lparr>ep_type = (if networkIsOutput then UCS_RM_EP_SOURCE else UCS_RM_EP_SINK),
                ep_jobs = Some jobs, ep_node = nod\<rparr>;
          label = (if cd_routeName con = None then cd_labelNormal con else 0)
      in if cd_routeName con = None \<and> label = 0
         then RETURN_ASSERT Parse_XmlError ''No route name and no connection label specified''
         else updX (AddRoute \<lparr>xr_isTalker = networkIsOutput, xr_isActive = \<not> cd_isDeactivated con,
                xr_routeId = cd_routeId con,
                xr_routeName = (case cd_routeName con of None \<Rightarrow> [] | Some n \<Rightarrow> strncpy_name n),
                xr_labelNormal = label, xr_labelFallback = cd_labelFallback con, xr_ep = ep\<rparr>))))))))))"

fun ParseSocket :: "nat \<Rightarrow> mxml_node_t \<Rightarrow> bool \<Rightarrow> MSocketType_t \<Rightarrow> (unit, xst) xp" where
  "ParseSocket 0 soc isSource socketType = valX (Inl Diverges)"
| "ParseSocket (Suc depth) soc isSource socketType =
     (let parse_network = (\<lambda>n src. ParseSocket depth n src MSocket_NETWORK)
      in thenX (case socketType of
           MSocket_NETWORK \<Rightarrow> NetworkSocketCase soc isSource
         | MSocket_USB \<Rightarrow> UsbSocketCase soc isSource
         | MSocket_MLB \<Rightarrow> MlbSocketCase soc isSource
         | MSocket_STRM \<Rightarrow> StrmSocketCase soc isSource
         | MSocket_SPLITTER \<Rightarrow> SplitterCase parse_network soc isSource
         | MSocket_COMBINER \<Rightarrow> CombinerCase soc isSource)
       (thenX (pending_combiner parse_network) connect_sockets))"

end
