(* ===== verification/Xml_Routes.thy ===== *)
theory Xml_Routes
  imports Xml_Nodes
begin

text \<open>
  Routes: \<open>ParseRoutes\<close> of libraries/ucs-xml/UcsXml.c with \<open>GetDefaultCreatedRoute\<close> and
  \<open>GetDefaultCreatedEndpoint\<close> of UcsXml_Private.c. The code first counts the routes, then
  allocates them, then fills them in with the same two passes: pairs of a talker and a listener
  with the same route name, then the connection labels.
\<close>

section \<open>Counting\<close>

definition ROUTE_INVALID_ID :: u16 where "ROUTE_INVALID_ID = 0xFFFF"

definition names_match :: "string \<Rightarrow> string \<Rightarrow> bool result" where
  "names_match a b =
     bindR (name_nonempty a) (\<lambda>x. if \<not> x then Inr False else
     bindR (name_nonempty b) (\<lambda>y. Inr (y \<and> a = b)))"

definition named_pair :: "UcsXmlRoute list \<Rightarrow> nat \<Rightarrow> nat \<Rightarrow> bool result" where
  "named_pair rs i j =
     (if i \<noteq> j \<and> \<not> xr_isTalker (rs ! j) then names_match (xr_routeName (rs ! i)) (xr_routeName (rs ! j))
      else Inr False)"

definition count_named :: "UcsXmlRoute list \<Rightarrow> u16 result" where
  "count_named rs =
     foldR (\<lambda>i n. if \<not> xr_isTalker (rs ! i) then Inr n else
       foldR (\<lambda>j n. bindR (named_pair rs i j) (\<lambda>m. Inr (if m then n + 1 else n))) [0..<length rs] n)
     [0..<length rs] 0"

definition count_labels :: "UcsXmlRoute list \<Rightarrow> u16 \<Rightarrow> u16" where
  "count_labels rs n =
     fold (\<lambda>r n. let n = (if xr_labelNormal r \<noteq> 0 then n + 1 else n)
                 in if xr_labelFallback r \<noteq> 0 then n + 1 else n) rs n"

section \<open>Filling\<close>

definition zero_route :: XRmRoute where
  "zero_route = \<lparr>rt_source = None, rt_sink = None, rt_active = False, rt_id = 0, rt_fallback = False,
     rt_label = 0\<rparr>"

text \<open>The first identifier that is set, else the next automatic one.\<close>

definition route_id_of :: "u16 list \<Rightarrow> (u16, xst) xp" where
  "route_id_of ids = (case filter (\<lambda>i. i \<noteq> ROUTE_INVALID_ID) ids of
     i # _ \<Rightarrow> retX i
   | [] \<Rightarrow> bindX (getX xs_autoRouteId) (\<lambda>i.
       thenX (updX (\<lambda>s. s\<lparr>xs_autoRouteId := i + 1\<rparr>)) (retX i)))"

text \<open>\<open>&ucs->pRoutes[ucs->routesSize++]\<close> and writing to it.\<close>

definition next_route :: "(nat, xst) xp" where
  "next_route =
     bindX (getX (\<lambda>s. v_routesSize (xs_val s))) (\<lambda>n.
     thenX (updX (upd_val (\<lambda>v. v\<lparr>v_routesSize := n + 1\<rparr>))) (retX (unat n)))"

definition put_route :: "nat \<Rightarrow> XRmRoute \<Rightarrow> (unit, xst) xp" where
  "put_route i r =
     bindX (getX (\<lambda>s. length (v_routes (xs_val s)))) (\<lambda>n.
     if i < n then updX (upd_val (\<lambda>v. v\<lparr>v_routes := (v_routes v)[i := r]\<rparr>)) else valX (Inl OutOfBounds))"

definition fill_named :: "u16 \<Rightarrow> UcsXmlRoute \<Rightarrow> UcsXmlRoute \<Rightarrow> (unit, xst) xp" where
  "fill_named routeAmount source sink =
     bindX (getX (\<lambda>s. v_routesSize (xs_val s))) (\<lambda>size.
     if size \<ge> routeAmount then RETURN_ASSERT Parse_MemoryError ''Internal routing error'' else
     bindX next_route (\<lambda>i.
     bindX (route_id_of [xr_routeId sink, xr_routeId source]) (\<lambda>rid.
     put_route i (zero_route\<lparr>rt_source := Some (xr_ep source), rt_sink := Some (xr_ep sink),
       rt_active := xr_isActive sink \<and> xr_isActive source, rt_id := rid\<rparr>))))"

definition GetDefaultCreatedEndpoint :: "bool \<Rightarrow> 'z xmem_scheme \<Rightarrow> XEndPoint option \<times> 'z xmem_scheme" where
  "GetDefaultCreatedEndpoint networkIsOutput s = (case MCalloc 1 1 s of
     (None, s) \<Rightarrow> (None, ASSERT_FALSE ''(null)'' ''NULL pointer'' s)
   | (Some _, s) \<Rightarrow> (Some \<lparr>ep_type = (if networkIsOutput then UCS_RM_EP_DC_SINK else UCS_RM_EP_DC_SOURCE),
       ep_jobs = None, ep_node = 0\<rparr>, s))"

text \<open>The new route, with its place; \<open>False\<close> when the array is full or memory is short.\<close>

definition GetDefaultCreatedRoute :: "u16 \<Rightarrow> XEndPoint \<Rightarrow> bool \<Rightarrow> ((nat \<times> XRmRoute) option, xst) xp" where
  "GetDefaultCreatedRoute routeAmount ep isTalker =
     bindX (getX (\<lambda>s. v_routesSize (xs_val s))) (\<lambda>size.
     if size \<ge> routeAmount
     then thenX (updX (ASSERT_FALSE ''param->ucs->routesSize >= param->routeAmount'' ''Internal routing error''))
            (retX None)
     else bindX next_route (\<lambda>i.
       bindX (liftX (GetDefaultCreatedEndpoint isTalker)) (\<lambda>dc.
       case dc of
         None \<Rightarrow> thenX (updX (ASSERT_FALSE ''GetDefaultCreatedEndpoint''
                    ''Could not create default created endpoint'')) (retX None)
       | Some dc \<Rightarrow> retX (Some (i, if isTalker
           then zero_route\<lparr>rt_source := Some ep, rt_sink := Some dc\<rparr>
           else zero_route\<lparr>rt_sink := Some ep, rt_source := Some dc\<rparr>)))))"

definition fill_label :: "u16 \<Rightarrow> UcsXmlRoute \<Rightarrow> bool \<Rightarrow> u16 \<Rightarrow> (unit, xst) xp" where
  "fill_label routeAmount source fallback label =
     (if label = 0 then retX () else
      bindX (GetDefaultCreatedRoute routeAmount (xr_ep source) (xr_isTalker source)) (\<lambda>dc.
      case dc of
        None \<Rightarrow> RETURN_ASSERT Parse_MemoryError ''Internal routing error''
      | Some (i, r) \<Rightarrow>
          bindX (route_id_of [xr_routeId source]) (\<lambda>rid.
          put_route i (r\<lparr>rt_fallback := fallback, rt_label := label, rt_active := xr_isActive source,
                         rt_id := rid\<rparr>))))"

definition ParseRoutes :: "(unit, xst) xp" where
  "ParseRoutes =
     bindX (getX xs_routes) (\<lambda>rs.
     bindX (valX (count_named rs)) (\<lambda>n.
     let routeAmount = count_labels rs n in
     if routeAmount = 0 then retX () else
     thenX (bindX (need_memory_error (MCalloc (unat routeAmount) 1)) (\<lambda>_.
            updX (upd_val (\<lambda>v. v\<lparr>v_routes := replicate (unat routeAmount) zero_route\<rparr>))))
     (thenX (forX (\<lambda>i. whenX (xr_isTalker (rs ! i))
               (forX (\<lambda>j. bindX (valX (named_pair rs i j)) (\<lambda>m.
                  whenX m (fill_named routeAmount (rs ! i) (rs ! j)))) [0..<length rs])) [0..<length rs])
     (forX (\<lambda>r. thenX (fill_label routeAmount r False (xr_labelNormal r))
                      (fill_label routeAmount r True (xr_labelFallback r))) rs))))"

end
