(* ===== verification/Xml_Drivers.thy ===== *)
theory Xml_Drivers
  imports Xml_Nodes
begin

text \<open>
  Driver links: \<open>StoreDriverInfo\<close>, \<open>ParseDriver\<close> and what they use, of
  libraries/ucs-xml/UcsXml.c. The list of driver informations is the state's list; an entry is
  addressed by its place.
\<close>

section \<open>Recording the link of a connection\<close>

definition MAX_CHANNEL_NAME_LENGTH :: nat where "MAX_CHANNEL_NAME_LENGTH = 8"

definition zero_driver :: DriverInformation_t where
  "zero_driver = \<lparr>di_linkName = [], di_phy = DriverPhyUnknown, di_nodeAddress = 0,
     di_driverType = Driver_LinuxCdev, dv_channelName = [], dv_aimName = [], dv_dataType = None,
     dv_direction = None, dv_numBuffers = 0, dv_bufferSize = 0, dv_subBufferSize = 0,
     dv_packetsPerXact = None, dv_amountOfChannels = 0, dv_resolutionInBit = 0\<rparr>"

text \<open>The member \<open>drvInfo\<close> of a list cell is set behind a second allocation; a failed one is not noticed.\<close>

definition AddDriverInfo :: "DriverInformation_t \<Rightarrow> xst \<Rightarrow> bool \<times> xst" where
  "AddDriverInfo drvInfo s = (case MCalloc 1 1 s of
     (None, s) \<Rightarrow> (False, s)
   | (Some _, s) \<Rightarrow> (True, s\<lparr>xs_drivers := xs_drivers s @ [drvInfo]\<rparr>))"

text \<open>The local variables of the function: channel name, layer, sizes and direction.\<close>

record link =
  lk_channel :: string
  lk_phy :: DriverPhysicalLayer_t
  lk_sub :: u16
  lk_packets :: "u16 option"
  lk_direction :: "DriverCfgDirection_t option"

definition usb_link :: "UsbSocket \<Rightarrow> link \<Rightarrow> link" where
  "usb_link u l = l\<lparr>lk_packets := Some (uss_frames_per_transfer u),
     lk_channel := snprintf MAX_CHANNEL_NAME_LENGTH (''ep'' @ fmt_X 2 (unat (uss_end_point_addr u))),
     lk_phy := DriverPhyUsb\<rparr>"

definition mlb_link :: "MlbSocket \<Rightarrow> link \<Rightarrow> link" where
  "mlb_link m l = l\<lparr>
     lk_channel := snprintf MAX_CHANNEL_NAME_LENGTH (''ca'' @ dec_digits (unat (mls_channel_address m))),
     lk_phy := DriverPhyMlb\<rparr>"

text \<open>The socket behind a splitter or a combiner.\<close>

definition peripheral_link :: "xobj \<Rightarrow> link \<Rightarrow> link" where
  "peripheral_link obj l = (case obj of
     OUsbSocket u \<Rightarrow> usb_link u l | OMlbSocket m \<Rightarrow> mlb_link m l | _ \<Rightarrow> l)"

text \<open>Its number belongs to the library; the message gets the name.\<close>

definition type_name :: "xobj \<Rightarrow> string" where
  "type_name obj = (case obj of
     ONetworkSocket _ \<Rightarrow> ''UCS_XRM_RC_TYPE_NW_SOCKET'' | OUsbPort _ \<Rightarrow> ''UCS_XRM_RC_TYPE_USB_PORT''
   | ODcPort _ \<Rightarrow> ''UCS_XRM_RC_TYPE_DC_PORT'' | OUsbSocket _ \<Rightarrow> ''UCS_XRM_RC_TYPE_USB_SOCKET''
   | OMlbPort _ \<Rightarrow> ''UCS_XRM_RC_TYPE_MLB_PORT'' | OMlbSocket _ \<Rightarrow> ''UCS_XRM_RC_TYPE_MLB_SOCKET''
   | OStrmPort _ \<Rightarrow> ''UCS_XRM_RC_TYPE_STRM_PORT'' | OStrmSocket _ \<Rightarrow> ''UCS_XRM_RC_TYPE_STRM_SOCKET''
   | ORmckPort _ \<Rightarrow> ''UCS_XRM_RC_TYPE_RMCK_PORT'' | OSplitter _ \<Rightarrow> ''UCS_XRM_RC_TYPE_SPLITTER''
   | OCombiner _ \<Rightarrow> ''UCS_XRM_RC_TYPE_COMBINER'' | OSyncCon _ \<Rightarrow> ''UCS_XRM_RC_TYPE_SYNC_CON''
   | OAvpCon _ \<Rightarrow> ''UCS_XRM_RC_TYPE_AVP_CON'')"

definition in_socket_link :: "xobj list \<Rightarrow> xobj \<Rightarrow> link \<Rightarrow> (link, xst) xp" where
  "in_socket_link store obj l = (case obj of
     ONetworkSocket n \<Rightarrow>
       retX (l\<lparr>lk_sub := nws_bandwidth n, lk_direction := Some DriverCfgDirection_Rx\<rparr>)
   | OMlbSocket m \<Rightarrow>
       retX (mlb_link m (l\<lparr>lk_direction := Some DriverCfgDirection_Tx, lk_sub := mls_bandwidth m\<rparr>))
   | OUsbSocket u \<Rightarrow> retX (usb_link u (l\<lparr>lk_direction := Some DriverCfgDirection_Tx\<rparr>))
   | OStrmSocket _ \<Rightarrow> retX (l\<lparr>lk_direction := Some DriverCfgDirection_Tx\<rparr>)
   | OSplitter c \<Rightarrow>
       bindX (valX (derefX store (spl_socket_in c))) (\<lambda>inner.
       retX (peripheral_link inner
         (l\<lparr>lk_sub := spl_bytes_per_frame c, lk_direction := Some DriverCfgDirection_Tx\<rparr>)))
   | _ \<Rightarrow> thenX (errorX ''StoreDriverInfo: Unsupported Resource as inSocket=0x%X'' 1 [XStr (type_name obj)])
            (RETURN_ASSERT Parse_XmlError ''Wrong enum''))"

definition out_socket_link :: "xobj list \<Rightarrow> xobj \<Rightarrow> link \<Rightarrow> (link, xst) xp" where
  "out_socket_link store obj l = (case obj of
     ONetworkSocket n \<Rightarrow> retX (if lk_sub l = 0 then l\<lparr>lk_sub := nws_bandwidth n\<rparr> else l)
   | OMlbSocket m \<Rightarrow> retX (mlb_link m (l\<lparr>lk_sub := mls_bandwidth m\<rparr>))
   | OUsbSocket u \<Rightarrow> retX (usb_link u l)
   | OStrmSocket _ \<Rightarrow> retX l
   | OCombiner c \<Rightarrow>
       bindX (valX (derefX store (cmb_port_socket c))) (\<lambda>inner.
       retX (peripheral_link inner (l\<lparr>lk_sub := cmb_bytes_per_frame c\<rparr>)))
   | _ \<Rightarrow> thenX (errorX ''StoreDriverInfo: Unsupported Resource as outSocket=0x%X'' 1 [XStr (type_name obj)])
            (RETURN_ASSERT Parse_XmlError ''Wrong enum''))"

text \<open>\<open>priv->nodeData.nod->signature_ptr->node_address\<close>\<close>

definition node_signature :: "xst \<Rightarrow> u16 result" where
  "node_signature s =
     (if nd_nod (xs_node s) < length (v_nodes (xs_val s))
      then (case xn_signature (v_nodes (xs_val s) ! nd_nod (xs_node s)) of
              None \<Rightarrow> Inl NullDeref | Some a \<Rightarrow> Inr a)
      else Inl OutOfBounds)"

definition socket_not_set :: "string \<Rightarrow> string \<Rightarrow> (link, xst) xp" where
  "socket_not_set format driverLink =
     bindX (getX node_signature) (\<lambda>a. bindX (valX a) (\<lambda>a.
     thenX (errorX format 2 [XInt (uint a), XStr driverLink])
       (RETURN_ASSERT Parse_XmlError ''Not enough info to fill driver structure'')))"

definition cfg_data_type :: "MDataType_t \<Rightarrow> DriverCfgDataType_t option" where
  "cfg_data_type t = (case t of
     SYNC_DATA \<Rightarrow> Some DriverCfgDataType_Sync | CONTROL_DATA \<Rightarrow> Some DriverCfgDataType_Control
   | AV_PACKETIZED \<Rightarrow> Some DriverCfgDataType_Isoc | _ \<Rightarrow> None)"

definition isoc_bytes :: "IsocSize \<Rightarrow> u16" where
  "isoc_bytes t = (case t of UCS_ISOC_PCKT_SIZE_188 \<Rightarrow> 188 | UCS_ISOC_PCKT_SIZE_196 \<Rightarrow> 196
     | UCS_ISOC_PCKT_SIZE_206 \<Rightarrow> 206)"

definition isoc_link :: "DriverCfgDataType_t \<Rightarrow> IsocSize option \<Rightarrow> link \<Rightarrow> (link, xst) xp" where
  "isoc_link t isoc l =
     (if t \<noteq> DriverCfgDataType_Isoc then retX l else
      case isoc of
        Some n \<Rightarrow> retX (l\<lparr>lk_sub := isoc_bytes n\<rparr>)
      | None \<Rightarrow> thenX (errorX ''StoreDriverInfo: Non supported isoc packet size=%d'' 1 [])
                  (RETURN_ASSERT Parse_XmlError ''Wrong enum''))"

definition StoreDriverInfo :: "string \<Rightarrow> (unit, xst) xp" where
  "StoreDriverInfo driverLink =
     bindX (need_memory_error (MCalloc 1 1)) (\<lambda>_.
     bindX (need_memory_error (MCalloc MAX_CHANNEL_NAME_LENGTH 1)) (\<lambda>_.
     bindX (liftX (AddDriverInfo (zero_driver\<lparr>di_linkName := driverLink\<rparr>))) (\<lambda>added.
     bindX (getX xs_con) (\<lambda>con.
     bindX (getX xs_res) (\<lambda>store.
     bindX (case cfg_data_type (cd_dataType con) of
              Some t \<Rightarrow> retX t
            | None \<Rightarrow> thenX (errorX ''StoreDriverInfo: Unsupported Data Type=0x%X'' 1
                               [XInt (data_type_number (cd_dataType con))])
                        (RETURN_ASSERT Parse_XmlError ''Wrong enum'')) (\<lambda>t.
     bindX (if cd_inSocket con = Null
            then socket_not_set ''Driver Configuration:In Socket was not set on node=0x%X, route=%s'' driverLink
            else bindX (valX (derefX store (cd_inSocket con))) (\<lambda>obj.
              in_socket_link store obj \<lparr>lk_channel = [], lk_phy = DriverPhyUnknown, lk_sub = 0,
                lk_packets = None, lk_direction = None\<rparr>)) (\<lambda>l.
     bindX (isoc_link t (cd_isocPacketSize con) l) (\<lambda>l.
     bindX (if cd_outSocket con = Null
            then socket_not_set ''Driver Configuration:Out Socket was not set on node=0x%X, route=%s'' driverLink
            else bindX (valX (derefX store (cd_outSocket con))) (\<lambda>obj. out_socket_link store obj l)) (\<lambda>l.
     bindX (getX node_signature) (\<lambda>a. bindX (valX a) (\<lambda>a.
     whenX added (updX (\<lambda>s. s\<lparr>xs_drivers := (xs_drivers s)[length (xs_drivers s) - 1 :=
       zero_driver\<lparr>di_linkName := driverLink, di_phy := lk_phy l, di_nodeAddress := a,
         dv_channelName := lk_channel l, dv_dataType := Some t, dv_direction := lk_direction l,
         dv_subBufferSize := lk_sub l, dv_packetsPerXact := lk_packets l\<rparr>]\<rparr>)))))))))))))"

section \<open>Filling in the drivers\<close>

definition ALL_DRIVERS :: "string list" where
  "ALL_DRIVERS = [''Alsa'', ''Cdev'', ''V4l2'']"

definition buffer_attrs :: "mxml_node_t \<Rightarrow> DriverInformation_t \<Rightarrow> (DriverInformation_t, xst) xp" where
  "buffer_attrs driver d =
     bindX (need_attr (GetString driver ''Name'' True)) (\<lambda>aimName.
     bindX (need_attr (GetUInt16 driver ''BufferSize'' True)) (\<lambda>bufferSize.
     bindX (need_attr (GetUInt16 driver ''BufferCount'' True)) (\<lambda>numBuffers.
     retX (d\<lparr>dv_aimName := aimName, dv_bufferSize := bufferSize, dv_numBuffers := numBuffers\<rparr>))))"

definition alsa_resolution :: "string \<Rightarrow> u8 option" where
  "alsa_resolution txt = map_of [(''8bit'', 8), (''16bit'', 16), (''24bit'', 24), (''32bit'', 32)] txt"

definition driver_attrs :: "mxml_node_t \<Rightarrow> DriverInformation_t \<Rightarrow> (DriverInformation_t, xst) xp" where
  "driver_attrs driver d =
     (let driverType = elem_name driver in
      if driverType = ''Cdev'' then buffer_attrs driver (d\<lparr>di_driverType := Driver_LinuxCdev\<rparr>)
      else if driverType = ''V4l2'' then buffer_attrs driver (d\<lparr>di_driverType := Driver_LinuxV4l2\<rparr>)
      else if driverType = ''Alsa'' then
        bindX (buffer_attrs driver (d\<lparr>di_driverType := Driver_LinuxAlsa\<rparr>)) (\<lambda>d.
        bindX (need_attr (GetUInt8 driver ''AudioChannelCount'' True)) (\<lambda>channels.
        bindX (need_attr (GetString driver ''AudioChannelResolution'' True)) (\<lambda>resolution.
        case alsa_resolution resolution of
          Some r \<Rightarrow> retX (d\<lparr>dv_amountOfChannels := channels, dv_resolutionInBit := r\<rparr>)
        | None \<Rightarrow> thenX (errorX (''Invalid ALSA resolution '' @ quoted ''%s'') 1 [XStr resolution])
                    (RETURN_ASSERT Parse_XmlError ''Wrong enum''))))
      else thenX (errorX ''Invalid Driver Type'' 0 []) (RETURN_ASSERT Parse_XmlError ''Wrong enum''))"

text \<open>
  One entry of the list against all drivers of the element: the first changes the entry, each
  further one a copy of its predecessor, linked behind it.
\<close>

definition driver_step ::
  "cursor \<Rightarrow> DriverInformation_t list \<times> DriverInformation_t
     \<Rightarrow> (DriverInformation_t list \<times> DriverInformation_t, xst) xp" where
  "driver_step c a = (case a of (entries, d) \<Rightarrow>
     thenX (if entries = [] then retX ()
            else bindX (liftX (MCalloc 1 1)) (\<lambda>copyList.
              bindX (liftX (MCalloc 1 1)) (\<lambda>copyInfo.
              if copyList = None \<or> copyInfo = None
              then RETURN_ASSERT Parse_MemoryError ''calloc returned NULL'' else retX ())))
     (bindX (driver_attrs (hd c) d) (\<lambda>d. retX (entries @ [d], d))))"

definition match_driver ::
  "string \<Rightarrow> mxml_node_t \<Rightarrow> DriverInformation_t \<Rightarrow> DriverInformation_t list \<times> bool
     \<Rightarrow> (DriverInformation_t list \<times> bool, xst) xp" where
  "match_driver driverLink drv d a = (case a of (done_before, found) \<Rightarrow>
     case (if driverLink = di_linkName d then GetElementArray (child drv) ALL_DRIVERS False else None) of
       None \<Rightarrow> retX (done_before @ [d], found)
     | Some (_, driver) \<Rightarrow>
         bindX (foldX driver_step (siblings (is_one_of ALL_DRIVERS) driver) ([], d)) (\<lambda>(entries, _).
         retX (done_before @ entries, True)))"

text \<open>The list is written back when all entries are done; a failure ends the whole parse.\<close>

definition ParseDriver :: "mxml_node_t \<Rightarrow> (unit, xst) xp" where
  "ParseDriver drv =
     bindX (getX xs_drivers) (\<lambda>ds.
     if ds = [] then stopX Parse_XmlError else
     bindX (liftX (GetString drv ''Name'' True)) (\<lambda>link. case link of
       None \<Rightarrow> stopX Parse_XmlError
     | Some driverLink \<Rightarrow>
         bindX (foldX (match_driver driverLink drv) ds ([], False)) (\<lambda>(ds', found).
         thenX (updX (\<lambda>s. s\<lparr>xs_drivers := ds'\<rparr>))
         (if found then retX ()
          else thenX (errorX (''Did not find driver info for '' @ quoted ''%s'') 1 [XStr driverLink])
                 (RETURN_ASSERT Parse_XmlError ''No driver info'')))))"

definition GetDrvInfCount :: "DriverInformation_t list \<Rightarrow> u16" where
  "GetDrvInfCount drvInfLst = of_nat (length drvInfLst)"

text \<open>The array is NULL when it could not be allocated, which is not tested.\<close>

definition FillDriverArray :: "nat option \<Rightarrow> u16 \<Rightarrow> DriverInformation_t list \<Rightarrow> DriverInformation_t list result" where
  "FillDriverArray ppDriver amount ds = (case ppDriver of
     None \<Rightarrow> Inl NullDeref
   | Some _ \<Rightarrow> if length ds \<le> unat amount then Inr ds else Inl OutOfBounds)"

end
