(* ===== verification/Xml_Parse.thy ===== *)
theory Xml_Parse
  imports Xml_Scripts Xml_Routes Xml_Drivers
begin

text \<open>
  The whole parse: \<open>ParseAll\<close>, \<open>UcsXml_Parse\<close> and \<open>UcsXml_ParseScript\<close> of
  libraries/ucs-xml/UcsXml.c, with the release of everything after a failure.

  \<open>mxmlLoadString\<close> is the parameter \<open>load\<close>: the document of a text, with its first element and
  what follows it, or nothing. Reading the text from a file is left out.
\<close>

section \<open>Configurations\<close>

definition ALL_CONNECTIONS :: "string list" where
  "ALL_CONNECTIONS = [''SyncConnection'', ''AVPConnection'', ''DFPhaseConnection'', ''QoSConnection'',
     ''IPCConnection'']"

definition ALL_SOCKETS :: "string list" where
  "ALL_SOCKETS = [''NetworkSocket'', ''USBSocket'', ''MediaLBSocket'', ''StreamSocket'', ''Splitter'', ''Combiner'']"

text \<open>Deep enough for a socket in a splitter that completes a combiner.\<close>

definition SOCKET_DEPTH :: nat where "SOCKET_DEPTH = 3"

definition parse_socket :: "cursor \<Rightarrow> (unit, xst) xp" where
  "parse_socket c =
     bindX (needX (GetSocketType (elem_name (hd c))) Parse_XmlError ''Could not get socket type'') (\<lambda>socType.
     bindX (getX (\<lambda>s. cd_sockCnt (xs_con s))) (\<lambda>n.
     thenX (callX (ParseSocket SOCKET_DEPTH (hd c) (n = 0) socType))
           (updX (upd_con (\<lambda>d. d\<lparr>cd_sockCnt := cd_sockCnt d + 1\<rparr>)))))"

definition parse_connection :: "cursor \<Rightarrow> (unit, xst) xp" where
  "parse_connection c =
     (let con = hd c in
      thenX (updX (upd_con (\<lambda>_. zero_con_data)))
      (bindX (getX (\<lambda>s. nd_rmckPort (xs_node s))) (\<lambda>rmckPort.
      thenX (whenX (rmckPort \<noteq> Null) (bindX (liftX (AddJob rmckPort)) (\<lambda>_. retX ())))
      (thenX (callX (ParseConnection con (elem_name con)))
      (bindX (needX (\<lambda>s. (GetElementArray (child con) ALL_SOCKETS False, s)) Parse_XmlError
                ''No Sockets defined'') (\<lambda>(_, soc).
      thenX (forX parse_socket (siblings (is_one_of ALL_SOCKETS) soc))
      (bindX (liftX (GetString con ''Driver'' False)) (\<lambda>driverLink.
      case driverLink of None \<Rightarrow> retX () | Some l \<Rightarrow> callX (StoreDriverInfo l)))))))))"

definition parse_node :: "cursor \<Rightarrow> (unit, xst) xp" where
  "parse_node c =
     (let sub = hd c in
      thenX (updX (\<lambda>s. s\<lparr>xs_node := zero_node_data (unat (v_nodSize (xs_val s)))\<rparr>))
      (thenX (callX (ParseNode sub))
      (thenX (case GetElementArray (child sub) ALL_CONNECTIONS False of
                None \<Rightarrow> retX ()
              | Some (_, con) \<Rightarrow> forX parse_connection (siblings (is_one_of ALL_CONNECTIONS) con))
      (updX (upd_val (\<lambda>v. v\<lparr>v_nodSize := v_nodSize v + 1\<rparr>))))))"

definition zero_xnode :: XNode where
  "zero_xnode = \<lparr>xn_signature = None, xn_remote_attach_disabled = False, xn_script = None, xn_script_size = 0\<rparr>"

definition parse_drivers :: "cursor \<Rightarrow> (unit, xst) xp" where
  "parse_drivers tree =
     bindX (liftX (GetElement tree ''Driver'' True False)) (\<lambda>sub. case sub of
       None \<Rightarrow> retX ()
     | Some c \<Rightarrow>
         forX (\<lambda>c. abortX (ParseDriver (hd c)) ''Aborting further parsing, because drivers failed'')
           (c # siblings (is_named ''Driver'') (tl c)))"

definition fill_drivers :: "(unit, xst) xp" where
  "fill_drivers =
     bindX (getX xs_drivers) (\<lambda>ds.
     let amount = GetDrvInfCount ds in
     thenX (updX (upd_val (\<lambda>v. v\<lparr>v_driverSize := amount\<rparr>)))
     (if amount = 0 then retX () else
      bindX (liftX (MCalloc (unat amount) 1)) (\<lambda>ppDriver.
      bindX (valX (FillDriverArray ppDriver amount ds)) (\<lambda>a.
      updX (upd_val (\<lambda>v. v\<lparr>v_drivers := a\<rparr>))))))"

definition ParseAll :: "cursor \<Rightarrow> (unit, xst) xp" where
  "ParseAll tree =
     thenX (updX (\<lambda>s. s\<lparr>xs_autoRouteId := 0x8000\<rparr>))
     (bindX (needX (GetCount tree ''Node'' True) Parse_XmlError ''No node defined'') (\<lambda>nodeCount.
     bindX (need_memory_error (MCalloc (unat nodeCount) 1)) (\<lambda>_.
     thenX (updX (upd_val (\<lambda>v. v\<lparr>v_nodes := replicate (unat nodeCount) zero_xnode\<rparr>)))
     (bindX (need_attr (GetUInt16 (hd tree) ''AsyncBandwidth'' True)) (\<lambda>packetBw.
     thenX (updX (upd_val (\<lambda>v. v\<lparr>v_packetBw := packetBw\<rparr>)))
     (bindX (liftX (GetUInt16 (hd tree) ''ProxyBandwidth'' False)) (\<lambda>proxyBw.
     thenX (case proxyBw of None \<Rightarrow> retX () | Some w \<Rightarrow> updX (upd_val (\<lambda>v. v\<lparr>v_proxyBw := w\<rparr>)))
     (bindX (need_attr (GetElement tree ''Node'' True True)) (\<lambda>c.
     thenX (forX parse_node (c # siblings (is_named ''Node'') (tl c)))
     (thenX (abortX ParseRoutes ''Aborting further parsing, because nodes failed'')
     (thenX (abortX (ParseAllScripts tree True) ''Aborting further parsing, because scripts failed'')
     (thenX (parse_drivers tree)
     fill_drivers))))))))))))"

section \<open>The public functions\<close>

definition zero_val :: UcsXmlVal_t where
  "zero_val = \<lparr>v_packetBw = 0, v_proxyBw = 0, v_routes = [], v_routesSize = 0, v_nodes = [], v_nodSize = 0,
     v_drivers = [], v_driverSize = 0\<rparr>"

definition start_state :: "xst \<Rightarrow> xst" where
  "start_state s = s\<lparr>obj_head := None, obj_cells := [], xs_res := [], xs_autoRouteId := 0, xs_routes := [],
     xs_scripts := [], xs_drivers := [], xs_node := zero_node_data 0, xs_con := zero_con_data,
     xs_val := zero_val\<rparr>"

text \<open>
  A value is given by its block and that of its internal data; its contents are in the state.
  Without internal data nothing is released.
\<close>

definition FreeVal :: "nat \<Rightarrow> nat option \<Rightarrow> xst \<Rightarrow> xst result" where
  "FreeVal val priv s = (case priv of
     None \<Rightarrow> Inr s
   | Some p \<Rightarrow> bindR (FreeObjList s) (\<lambda>s. bindR (free p s) (free val)))"

definition parse_error :: "ParseResult_t \<Rightarrow> xst \<Rightarrow> xst" where
  "parse_error r = (if r = Parse_MemoryError
     then UcsXml_CB_OnError ''XML memory error, aborting..'' 0 []
     else UcsXml_CB_OnError ''XML parsing error, aborting..'' 0 [])"

definition run_parse :: "(unit, xst) xp \<Rightarrow> xst \<Rightarrow> (ParseResult_t \<times> xst) result" where
  "run_parse m s =
     bindR (m s) (\<lambda>(r, s). Inr (case r of Inl e \<Rightarrow> e | Inr _ \<Rightarrow> Parse_Success, s))"

definition UcsXml_Parse ::
  "(string \<Rightarrow> cursor option) \<Rightarrow> string \<Rightarrow> xst \<Rightarrow> ((nat \<times> nat) option \<times> xst) result" where
  "UcsXml_Parse load xmlString s =
     (let s = start_state s in
      case load xmlString of
        None \<Rightarrow> Inr (None, parse_error Parse_MemoryError
          (UcsXml_CB_OnError ''XML is not parsable, double check that is well formed!'' 0 [] s))
      | Some tree \<Rightarrow> (case GetElement tree ''Unicens'' True True s of
          (None, s) \<Rightarrow> Inr (None, parse_error Parse_MemoryError s)
        | (Some tree, s) \<Rightarrow> (case calloc s of
            (None, s) \<Rightarrow> Inr (None, parse_error Parse_MemoryError s)
          | (Some val, s) \<Rightarrow> (case calloc s of
              (None, s) \<Rightarrow> bindR (FreeVal val None (parse_error Parse_MemoryError s)) (\<lambda>s. Inr (None, s))
            | (Some priv, s) \<Rightarrow>
                bindR (run_parse (ParseAll tree) s) (\<lambda>(r, s).
                if r = Parse_Success then Inr (Some (val, priv), s)
                else bindR (FreeVal val (Some priv) (parse_error r s)) (\<lambda>s. Inr (None, s)))))))"

text \<open>
  The script goes to a node that is a local variable. After a failure \<open>FreeValScript\<close> releases
  the internal data, and then it is released once more.
\<close>

definition FreeValScript :: "nat \<Rightarrow> nat option \<Rightarrow> xst \<Rightarrow> xst result" where
  "FreeValScript script priv s = FreeVal script priv s"

definition UcsXml_ParseScript ::
  "(string \<Rightarrow> cursor option) \<Rightarrow> string \<Rightarrow> xst \<Rightarrow> ((nat \<times> nat) option \<times> xst) result" where
  "UcsXml_ParseScript load xmlString s =
     (let s = (start_state s)\<lparr>xs_scripts := [\<lparr>sc_singleShot = True, sc_inUse = False, sc_scriptName = [],
                sc_node = Some 0\<rparr>], xs_val := zero_val\<lparr>v_nodes := [zero_xnode]\<rparr>\<rparr> in
      case load xmlString of
        None \<Rightarrow> Inr (None, parse_error Parse_MemoryError s)
      | Some tree \<Rightarrow> (case GetElement tree ''Unicens'' True True s of
          (None, s) \<Rightarrow> Inr (None, parse_error Parse_MemoryError s)
        | (Some tree, s) \<Rightarrow> (case GetElement tree ''Script'' True True s of
            (None, s) \<Rightarrow> Inr (None, parse_error Parse_MemoryError s)
          | (Some tree, s) \<Rightarrow> (case calloc s of
              (None, s) \<Rightarrow> Inr (None, parse_error Parse_MemoryError s)
            | (Some script, s) \<Rightarrow> (case calloc s of
                (None, s) \<Rightarrow>
                  bindR (FreeValScript script None (parse_error Parse_MemoryError s)) (\<lambda>s. Inr (None, s))
              | (Some priv, s) \<Rightarrow>
                  bindR (run_parse (ParseScript (hd tree)) s) (\<lambda>(r, s).
                  if r = Parse_Success then Inr (Some (script, priv), s)
                  else bindR (FreeValScript script (Some priv) (parse_error r s)) (\<lambda>s.
                       bindR (free priv s) (\<lambda>s. Inr (None, s)))))))))"

end
