(* ===== verification/Xml_Partial.thy ===== *)
theory Xml_Partial
  imports Xml_Parse
begin

text \<open>
  What holds of a parser run that ends, whatever the document: \<open>postX m s Q E\<close> is like
  \<open>okX\<close>, but allows undefined behaviour other than a wrong \<open>free\<close>. The locale \<open>parse_inv\<close> is
  the contract between the allocator and the parser functions: an invariant of the memory that
  allocating keeps is kept by all of them; \<open>script_inv\<close> adds the copy that \<open>GetPayload\<close> makes.
\<close>

section \<open>Partial correctness\<close>

definition postX ::
  "('a, 's) xp \<Rightarrow> 's \<Rightarrow> ('a \<Rightarrow> 's \<Rightarrow> bool) \<Rightarrow> (ParseResult_t \<Rightarrow> 's \<Rightarrow> bool) \<Rightarrow> bool" where
  "postX m s Q E = (case m s of
     Inl f \<Rightarrow> f \<noteq> BadFree
   | Inr (r, s) \<Rightarrow> (case r of Inl e \<Rightarrow> E e s | Inr x \<Rightarrow> Q x s))"

lemma postX_retX [simp]: "postX (retX x) s Q E = Q x s"
  by (simp add: postX_def retX_def)

lemma postX_stopX [simp]: "postX (stopX r) s Q E = E r s"
  by (simp add: postX_def stopX_def)

lemma postX_bindX [simp]: "postX (bindX m f) s Q E = postX m s (\<lambda>x s. postX (f x) s Q E) E"
proof (cases "m s")
  case (Inr p)
  then show ?thesis by (cases p; cases "fst p") (simp_all add: postX_def bindX_def)
qed (simp add: postX_def bindX_def)

lemma postX_thenX [simp]: "postX (thenX m n) s Q E = postX m s (\<lambda>_ s. postX n s Q E) E"
  by (simp add: thenX_def)

lemma postX_updX [simp]: "postX (updX g) s Q E = Q () (g s)"
  by (simp add: postX_def updX_def)

lemma postX_getX [simp]: "postX (getX g) s Q E = Q (g s) s"
  by (simp add: postX_def getX_def)

lemma postX_liftX: "postX (liftX m) s Q E = Q (fst (m s)) (snd (m s))"
  by (simp add: postX_def liftX_def split: prod.splits)

lemma postX_valX [simp]: "postX (valX r) s Q E = (case r of Inl f \<Rightarrow> f \<noteq> BadFree | Inr x \<Rightarrow> Q x s)"
  by (cases r) (simp_all add: postX_def valX_def)

lemma postX_errorX [simp]: "postX (errorX f n a) s Q E = Q () (UcsXml_CB_OnError f n a s)"
  by (simp add: errorX_def)

lemma postX_RETURN_ASSERT [simp]: "postX (RETURN_ASSERT r reason) s Q E =
   E r (UcsXml_CB_OnError (''Assertion in file=%s, line=%d reason='' @ quoted ''%s'') 3 [XStr reason] s)"
  by (simp add: RETURN_ASSERT_def)

lemma postX_whenX [simp]: "postX (whenX b m) s Q E = (if b then postX m s Q E else Q () s)"
  by (simp add: whenX_def)

lemma postX_cases_end:
  "postX (callX m) s Q E = postX m s (\<lambda>_. Q ()) (\<lambda>e. if e = Parse_Success then Q () else E e)"
  "postX (ignoreX m) s Q E = postX m s (\<lambda>_. Q ()) (\<lambda>_. Q ())"
  "postX (result_of m) s Q' E = postX m s (\<lambda>_. Q' Parse_Success) (\<lambda>e. Q' e)"
proof -
  have parts: P if "\<And>f. m s = Inl f \<Longrightarrow> P" "\<And>e t. m s = Inr (Inl e, t) \<Longrightarrow> P" "\<And>t. m s = Inr (Inr (), t) \<Longrightarrow> P" for P
  proof (cases "m s")
    case (Inr p)
    with that show P by (cases p; cases "fst p") simp_all
  qed (rule that)
  show "postX (callX m) s Q E = postX m s (\<lambda>_. Q ()) (\<lambda>e. if e = Parse_Success then Q () else E e)"
    by (rule parts) (simp_all add: postX_def callX_def)
  show "postX (ignoreX m) s Q E = postX m s (\<lambda>_. Q ()) (\<lambda>_. Q ())"
    by (rule parts) (simp_all add: postX_def ignoreX_def)
  show "postX (result_of m) s Q' E = postX m s (\<lambda>_. Q' Parse_Success) (\<lambda>e. Q' e)"
    by (rule parts) (simp_all add: postX_def result_of_def)
qed

lemma postX_mono:
  "postX m s Q E \<Longrightarrow> (\<And>x s. Q x s \<Longrightarrow> Q' x s) \<Longrightarrow> (\<And>e s. E e s \<Longrightarrow> E' e s) \<Longrightarrow> postX m s Q' E'"
  by (cases "m s") (auto simp: postX_def split: sum.splits)

section \<open>Invariants\<close>

definition keepsX :: "('s \<Rightarrow> bool) \<Rightarrow> ('a, 's) xp \<Rightarrow> bool" where
  "keepsX I m \<longleftrightarrow> (\<forall>s. I s \<longrightarrow> postX m s (\<lambda>_. I) (\<lambda>_. I))"

named_theorems keeps \<open>a computation keeps the invariant\<close>

lemma keepsX_basic [keeps]:
  "keepsX I (retX x)" "keepsX I (stopX r)" "keepsX I (getX g)"
  by (simp_all add: keepsX_def)

lemma keepsX_bindX [keeps]: "keepsX I m \<Longrightarrow> (\<And>x. keepsX I (f x)) \<Longrightarrow> keepsX I (bindX m f)"
  by (auto simp: keepsX_def elim!: postX_mono)

lemma keepsX_thenX [keeps]: "keepsX I m \<Longrightarrow> keepsX I n \<Longrightarrow> keepsX I (thenX m n)"
  by (simp add: thenX_def keepsX_bindX)

lemma keepsX_updX: "(\<And>s. I s \<Longrightarrow> I (g s)) \<Longrightarrow> keepsX I (updX g)"
  by (simp add: keepsX_def)

lemma keepsX_updX_if [keeps]:
  "keepsX I (updX f) \<Longrightarrow> keepsX I (updX g) \<Longrightarrow> keepsX I (updX (if b then f else g))"
  by simp

lemma keepsX_liftX: "(\<And>s. I s \<Longrightarrow> I (snd (m s))) \<Longrightarrow> keepsX I (liftX m)"
  by (simp add: keepsX_def postX_liftX)

lemma keepsX_valX [keeps]: "r \<noteq> Inl BadFree \<Longrightarrow> keepsX I (valX r)"
  by (auto simp: keepsX_def split: sum.splits)

lemma keepsX_calls [keeps]:
  "keepsX I m \<Longrightarrow> keepsX I (callX m)" "keepsX I m \<Longrightarrow> keepsX I (ignoreX m)"
  "keepsX I m \<Longrightarrow> keepsX I (result_of m)" "keepsX I m \<Longrightarrow> keepsX I (whenX b m)"
  by (auto simp: keepsX_def postX_cases_end elim!: postX_mono split: if_splits)

lemma keepsX_forX [keeps]:
  assumes "\<And>x. x \<in> set xs \<Longrightarrow> keepsX I (f x)"
  shows "keepsX I (forX f xs)"
  using assms by (induction xs) (auto intro!: keeps)

lemma keepsX_foldX [keeps]:
  assumes "\<And>x a. x \<in> set xs \<Longrightarrow> keepsX I (f x a)"
  shows "keepsX I (foldX f xs a)"
  using assms by (induction xs arbitrary: a) (auto intro!: keeps)

lemma keepsX_if [keeps]: "(b \<Longrightarrow> keepsX I m) \<Longrightarrow> (\<not> b \<Longrightarrow> keepsX I n) \<Longrightarrow> keepsX I (if b then m else n)"
  by simp

lemma keepsX_option [keeps]:
  "keepsX I m \<Longrightarrow> (\<And>v. x = Some v \<Longrightarrow> keepsX I (f v)) \<Longrightarrow> keepsX I (case x of None \<Rightarrow> m | Some v \<Rightarrow> f v)"
  by (cases x) simp_all

lemma keepsX_prod [keeps]:
  "(\<And>a b. keepsX I (f a b)) \<Longrightarrow> keepsX I (case p of (a, b) \<Rightarrow> f a b)"
  by (cases p) simp

section \<open>The contract\<close>

locale parse_inv =
  fixes I :: "xst \<Rightarrow> bool"
  assumes same_memory: "I s \<Longrightarrow> live s' = live s \<Longrightarrow> calloc_ok s' = calloc_ok s \<Longrightarrow>
      calloc_calls s' = calloc_calls s \<Longrightarrow> obj_head s' = obj_head s \<Longrightarrow> obj_cells s' = obj_cells s \<Longrightarrow> I s'"
    and MCalloc: "I s \<Longrightarrow> I (snd (MCalloc n k s))"

locale script_inv = parse_inv +
  assumes GetPayload: "I s \<Longrightarrow> I (snd (GetPayload e name off m s))"

section \<open>Every parser function keeps the invariant\<close>

lemma log_is_update: "\<exists>es. UcsXml_CB_OnError f n a s = s\<lparr>xs_errors := es\<rparr>" "\<exists>es. s = s\<lparr>xs_errors := es\<rparr>"
  by (auto simp: UcsXml_CB_OnError_def intro: exI [of _ "xs_errors s"])

lemma logs_only_integer: "logs_only (get_integer limit e k m)"
  unfolding logs_only_def
proof
  fix s :: "'z xlog_scheme"
  show "\<exists>es. snd (get_integer limit e k m s) = s\<lparr>xs_errors := es\<rparr>"
    by (cases "map_of (elem_attrs e) k") (simp_all add: get_integer_def GetString_def Let_def log_is_update)
qed

lemma logs_only_numbers [simp]: "logs_only (GetUInt16 e k m)" "logs_only (GetUInt8 e k m)"
  using logs_only_integer by (simp_all add: logs_only_def GetUInt16_def GetUInt8_def split_beta)

context parse_inv
begin

lemma log: "I s \<Longrightarrow> I (UcsXml_CB_OnError f n a s)"
  by (erule same_memory) (simp_all add: UcsXml_CB_OnError_def)

lemma logs: "logs_only m \<Longrightarrow> I s \<Longrightarrow> I (snd (m s))"
  unfolding logs_only_def by (erule allE [of _ s], elim exE) (auto elim!: same_memory)

lemma keeps_log [keeps]: "keepsX I (errorX f n a)" "keepsX I (RETURN_ASSERT r reason)"
  by (auto simp: keepsX_def intro: log)

lemma keeps_frame:
  assumes "\<And>s. live (g s) = live s" "\<And>s. calloc_ok (g s) = calloc_ok s"
    "\<And>s. calloc_calls (g s) = calloc_calls s" "\<And>s. obj_head (g s) = obj_head s"
    "\<And>s. obj_cells (g s) = obj_cells s"
  shows "keepsX I (updX g)"
  using assms by (intro keepsX_updX) (erule same_memory)

lemma keeps_needX: "(\<And>s. I s \<Longrightarrow> I (snd (m s))) \<Longrightarrow> keepsX I (needX m r reason)"
  unfolding needX_def by (intro keeps keepsX_liftX)

lemma keeps_need_memory_error [keeps]:
  "(\<And>s. I s \<Longrightarrow> I (snd (m s))) \<Longrightarrow> keepsX I (need_memory_error m)"
  by (simp add: need_memory_error_def keeps_needX)

text \<open>Allocating functions.\<close>

lemma new_obj: "I s \<Longrightarrow> I (snd (new_obj obj s))"
  using MCalloc [of s 1 1] by (auto simp: new_obj_def split: prod.splits option.splits elim: same_memory)

lemma ASSERT_FALSE: "I s \<Longrightarrow> I (ASSERT_FALSE f p s)"
  by (simp add: ASSERT_FALSE_def log)

lemma create: "I s \<Longrightarrow> I (snd (create obj c s))"
  using new_obj [of s obj] by (auto simp: create_def split: prod.splits option.splits intro: ASSERT_FALSE)

lemma AddJob: "I s \<Longrightarrow> I (snd (AddJob job s))"
  using MCalloc [of s 1 1] by (auto simp: AddJob_def split: prod.splits option.splits elim: same_memory)

lemma GetJobList: "I s \<Longrightarrow> I (snd (GetJobList jobs s))"
  using MCalloc [of s "length jobs + 1" 1]
  by (auto simp: GetJobList_def calloc_NULL_def split: prod.splits option.splits intro: log)

lemma alloc_cells: "I s \<Longrightarrow> I (snd (alloc_cells n s))"
proof (induction n arbitrary: s)
  case (Suc n)
  obtain c t where m: "MCalloc 1 1 s = (c, t)" by (cases "MCalloc 1 1 s")
  with MCalloc [OF Suc.prems, of 1 1] have "I t" by simp
  with m Suc.IH [of t] show ?case by (cases c) (simp_all add: calloc_NULL_def log)
qed simp

lemma DeepCopyJobList: "I s \<Longrightarrow> I (snd (DeepCopyJobList jobs s))"
  using alloc_cells [of s "length jobs"] by (auto simp: DeepCopyJobList_def split: prod.splits)

lemma AddDriverInfo: "I s \<Longrightarrow> I (snd (AddDriverInfo d s))"
  using MCalloc [of s 1 1] by (auto simp: AddDriverInfo_def split: prod.splits option.splits elim: same_memory)

lemma GetDefaultCreatedEndpoint: "I s \<Longrightarrow> I (snd (GetDefaultCreatedEndpoint d s))"
  using MCalloc [of s 1 1]
  by (auto simp: GetDefaultCreatedEndpoint_def split: prod.splits option.splits intro: ASSERT_FALSE)

lemma objects:
  assumes "I s"
  shows "I (snd (GetNetworkSocket d t w s))" "I (snd (GetUsbPort a b c e s))"
    "I (snd (GetUsbPortDefaultCreated s))" "I (snd (GetUsbSocket d t a b p s))"
    "I (snd (GetMlbPort a s))" "I (snd (GetMlbPortDefaultCreated s))" "I (snd (GetMlbSocket d t w a p s))"
    "I (snd (GetStrmPort i a b s))" "I (snd (GetStrmPortDefaultCreated i s))" "I (snd (GetRmckPort w s))"
    "I (snd (GetStrmSocket d t w a p q s))" "I (snd (GetSplitter w p s))" "I (snd (GetCombiner w p s))"
    "I (snd (GetSyncCon a o1 p q s))" "I (snd (GetAvpCon o1 p q s))"
  using create [OF assms]
  by (simp_all add: GetNetworkSocket_def GetUsbPort_def GetUsbPortDefaultCreated_def GetUsbSocket_def
      GetMlbPort_def GetMlbPortDefaultCreated_def GetMlbSocket_def GetStrmPort_def
      GetStrmPortDefaultCreated_def GetRmckPort_def GetStrmSocket_def GetSplitter_def GetCombiner_def
      GetSyncCon_def GetAvpCon_def Let_def split: option.splits prod.splits)

lemmas allocations = MCalloc new_obj create AddJob GetJobList DeepCopyJobList AddDriverInfo
  GetDefaultCreatedEndpoint objects

lemma keeps_createX [keeps]:
  assumes "\<And>s. I s \<Longrightarrow> I (snd (m s))" "\<And>p. keepsX I (updX (assign p))"
  shows "keepsX I (createX m assign reason)"
  unfolding createX_def by (intro keeps keepsX_liftX assms)

lemma keeps_add_job [keeps]: "keepsX I (add_job p)"
  unfolding add_job_def by (intro keeps_needX AddJob)

end

lemma faults_no_release [simp]:
  "derefX store p \<noteq> Inl BadFree" "name_strcmp a b \<noteq> Inl BadFree" "name_nonempty a \<noteq> Inl BadFree"
  "put_header h pl \<noteq> Inl BadFree" "script_node_address ns sc \<noteq> Inl BadFree"
  "node_signature s \<noteq> Inl BadFree" "FillDriverArray pd n ds \<noteq> Inl BadFree"
  by (auto simp: derefX_def name_strcmp_def name_nonempty_def put_header_def script_node_address_def
      node_signature_def FillDriverArray_def split: ptr.splits option.splits)

lemma bindR_fault: "bindR r f = Inl e \<longleftrightarrow> r = Inl e \<or> (\<exists>x. r = Inr x \<and> f x = Inl e)"
  by (cases r) simp_all

lemma foldR_no_release: "(\<And>x a. f x a \<noteq> Inl BadFree) \<Longrightarrow> foldR f xs a \<noteq> Inl BadFree"
  by (induction xs arbitrary: a) (simp_all add: bindR_fault)

lemma named_pair_no_release [simp]: "named_pair rs i j \<noteq> Inl BadFree"
  by (simp add: named_pair_def names_match_def bindR_fault)

lemma count_named_no_release [simp]: "count_named rs \<noteq> Inl BadFree"
proof -
  have inner: "foldR (\<lambda>j n. bindR (named_pair rs i j) (\<lambda>m. Inr (if m then n + 1 else n))) js n \<noteq> Inl BadFree"
    for i js and n :: u16
    by (rule foldR_no_release) (simp add: bindR_fault)
  show ?thesis unfolding count_named_def by (rule foldR_no_release) (simp add: inner)
qed

context parse_inv
begin

lemma keeps_updates [keeps]:
  "keepsX I (updX (\<lambda>s. upd_con (f s) s))" "keepsX I (updX (\<lambda>s. upd_node (g s) s))" "keepsX I (updX (\<lambda>s. upd_val (h s) s))"
  "keepsX I (updX (\<lambda>s. s\<lparr>xs_autoRouteId := a s\<rparr>))" "keepsX I (updX (\<lambda>s. s\<lparr>xs_node := n s\<rparr>))"
  "keepsX I (updX (\<lambda>s. s\<lparr>xs_drivers := d s\<rparr>))" "keepsX I (updX (\<lambda>s. s\<lparr>xs_scripts := c s\<rparr>))"
  "keepsX I (updX (set_obj i obj))" "keepsX I (updX (set_socket b p))"
  "keepsX I (updX (set_splitter_in q p))" "keepsX I (updX (set_combiner_port q p))"
  "keepsX I (updX (AddRoute r))" "keepsX I (updX (\<lambda>s. AddScript (scr s) s))"
  "keepsX I (updX (ASSERT_FALSE m t))" "keepsX I (updX calloc_NULL)"
  by (rule keeps_frame; simp add: set_obj_def set_socket_def set_splitter_in_def set_combiner_port_def
      AddRoute_def AddScript_def ASSERT_FALSE_def calloc_NULL_def UcsXml_CB_OnError_def
      split: ptr.splits xobj.splits)+

lemma keeps_logs [keeps]:
  "logs_only m \<Longrightarrow> keepsX I (liftX m)" "logs_only m \<Longrightarrow> keepsX I (needX m r reason)"
  "logs_only m \<Longrightarrow> keepsX I (need_attr m)"
  unfolding need_attr_def by (intro keeps_needX keepsX_liftX; erule (1) logs)+

lemma keeps_pure [keeps]: "keepsX I (needX (\<lambda>s. (x, s)) r reason)"
  by (intro keeps_needX) simp

lemma keeps_memory [keeps]:
  "keepsX I (liftX (MCalloc n k))" "keepsX I (needX (MCalloc n k) r reason)"
  "keepsX I (liftX (AddJob p))" "keepsX I (liftX (DeepCopyJobList jobs))"
  "keepsX I (needX (GetJobList jobs) r reason)" "keepsX I (liftX (AddDriverInfo d))"
  "keepsX I (liftX (GetDefaultCreatedEndpoint d0))"
  by (intro keeps_needX keepsX_liftX allocations; assumption)+

end

context parse_inv
begin

lemma keeps_port_or_default [keeps]:
  "(\<And>s. I s \<Longrightarrow> I (snd (m s))) \<Longrightarrow> keepsX I (port_or_default get m put reason)"
  unfolding port_or_default_def by (intro keeps)

lemma keeps_ParsePort [keeps]: "keepsX I (ParsePort c)"
  unfolding ParsePort_def Let_def by (intro keeps objects logs_only_get logs_only_numbers)

lemma keeps_set_nod [keeps]: "keepsX I (set_nod f)"
  unfolding set_nod_def by (intro keeps) simp

lemma keeps_ParseNode [keeps]: "keepsX I (ParseNode node)"
  unfolding ParseNode_def by (intro keeps allocations logs_only_get logs_only_numbers)

lemma keeps_ParseConnection [keeps]: "keepsX I (ParseConnection node t)"
  unfolding ParseConnection_def
  by (intro keeps logs_only_get logs_only_numbers; split MDataType_t.split; intro conjI impI keeps logs_only_get logs_only_numbers)

lemma keeps_NetworkSocketCase [keeps]: "keepsX I (NetworkSocketCase soc b)"
  unfolding NetworkSocketCase_def Let_def by (intro keeps objects logs_only_get logs_only_numbers)

lemma keeps_UsbSocketCase [keeps]: "keepsX I (UsbSocketCase soc b)"
  unfolding UsbSocketCase_def by (intro keeps objects logs_only_get logs_only_numbers)

lemma keeps_MlbSocketCase [keeps]: "keepsX I (MlbSocketCase soc b)"
  unfolding MlbSocketCase_def by (intro keeps objects logs_only_get logs_only_numbers)

lemma keeps_StrmSocketCase [keeps]: "keepsX I (StrmSocketCase soc b)"
  unfolding StrmSocketCase_def by (intro keeps objects logs_only_get logs_only_numbers)

lemma keeps_with_job_copy [keeps]: "keepsX I m \<Longrightarrow> keepsX I (with_job_copy m)"
  unfolding with_job_copy_def by (intro keeps)

lemma keeps_SplitterCase [keeps]:
  "(\<And>n b. keepsX I (f n b)) \<Longrightarrow> keepsX I (SplitterCase f soc b)"
  unfolding SplitterCase_def inner_sockets_def by (intro keeps objects logs_only_get logs_only_numbers)

lemma keeps_CombinerCase [keeps]: "keepsX I (CombinerCase soc b)"
  unfolding CombinerCase_def inner_sockets_def by (intro keeps objects logs_only_get logs_only_numbers)

lemma keeps_pending_combiner [keeps]:
  "(\<And>n b. keepsX I (f n b)) \<Longrightarrow> keepsX I (pending_combiner f)"
  unfolding pending_combiner_def by (intro keeps)

lemma keeps_connection_object [keeps]: "keepsX I (connection_object con)"
  unfolding connection_object_def
  by (split MDataType_t.split; intro conjI impI keeps new_obj)

lemma keeps_connect_sockets [keeps]: "keepsX I connect_sockets"
  unfolding connect_sockets_def Let_def by (intro keeps allocations) simp_all

lemma keeps_ParseSocket [keeps]: "keepsX I (ParseSocket depth soc b t)"
proof (induction depth arbitrary: soc b t)
  case (Suc depth)
  then show ?case
    by (cases t; simp only: ParseSocket.simps Let_def MSocketType_t.case; intro keeps; assumption)
qed (simp add: keepsX_valX)

end

context parse_inv
begin

lemma keeps_route_id_of [keeps]: "keepsX I (route_id_of ids)"
  unfolding route_id_of_def by (split list.split) (auto intro!: keeps)

lemma keeps_fill_named [keeps]: "keepsX I (fill_named n a b)"
  unfolding fill_named_def next_route_def put_route_def by (intro keeps) simp

lemma keeps_GetDefaultCreatedRoute [keeps]: "keepsX I (GetDefaultCreatedRoute n ep t)"
  unfolding GetDefaultCreatedRoute_def next_route_def by (intro keeps)

lemma keeps_fill_label [keeps]: "keepsX I (fill_label n r fallback l)"
  unfolding fill_label_def put_route_def by (intro keeps) simp

lemma keeps_ParseRoutes [keeps]: "keepsX I ParseRoutes"
  unfolding ParseRoutes_def Let_def by (intro keeps MCalloc) simp_all

lemma keeps_signature:
  "(\<And>a. keepsX I (f a)) \<Longrightarrow> keepsX I (bindX (getX node_signature) (\<lambda>a. bindX (valX a) f))"
  by (simp add: keepsX_def split: sum.splits) (metis faults_no_release(6))

lemma keeps_StoreDriverInfo [keeps]: "keepsX I (StoreDriverInfo l)"
proof -
  have inner: "keepsX I (in_socket_link store obj k)" "keepsX I (out_socket_link store obj k)"
    "keepsX I (socket_not_set f l)" "keepsX I (isoc_link t n k)" for store obj k f t n
    unfolding in_socket_link_def out_socket_link_def socket_not_set_def isoc_link_def
    by (split xobj.split, intro conjI allI impI keeps faults_no_release)+ (intro keeps_signature keeps)+
  show ?thesis
    unfolding StoreDriverInfo_def by (intro keeps_signature keeps inner MCalloc faults_no_release)
qed

lemma keeps_ParseDriver [keeps]: "keepsX I (ParseDriver drv)"
  unfolding ParseDriver_def match_driver_def driver_step_def driver_attrs_def buffer_attrs_def Let_def
  by (intro keeps logs_only_get logs_only_numbers)

lemma keeps_parse_drivers [keeps]: "keepsX I (parse_drivers tree)"
  unfolding parse_drivers_def abortX_def by (intro keeps logs_only_get logs_only_numbers)

lemma keeps_fill_drivers [keeps]: "keepsX I fill_drivers"
  unfolding fill_drivers_def Let_def by (intro keeps) simp

lemma keeps_parse_node [keeps]: "keepsX I (parse_node c)"
  unfolding parse_node_def parse_connection_def parse_socket_def Let_def
  by (intro keeps logs_only_get logs_only_numbers)

end

text \<open>\<open>ParseAll\<close> up to the scripts, and what comes after them.\<close>

definition scripts_keep :: "(xst \<Rightarrow> bool) \<Rightarrow> cursor \<Rightarrow> bool" where
  "scripts_keep I tree \<longleftrightarrow> mxmlFindElement tree ''Script'' = [] \<or> (\<forall>c. keepsX I (ParseScript (hd c)))"

context parse_inv
begin

lemma keeps_ParseAllScripts:
  assumes "scripts_keep I tree"
  shows "keepsX I (ParseAllScripts tree check)"
  using assms unfolding scripts_keep_def
proof
  assume "mxmlFindElement tree ''Script'' = []"
  then show ?thesis
    by (simp add: keepsX_def ParseAllScripts_def GetElement_def as_pointer_def postX_liftX)
next
  assume "\<forall>c. keepsX I (ParseScript (hd c))"
  then show ?thesis
    unfolding ParseAllScripts_def script_used_def abortX_def
    by (intro keeps logs_only_get faults_no_release) blast
qed

lemma keeps_ParseAll: "scripts_keep I tree \<Longrightarrow> keepsX I (ParseAll tree)"
  unfolding ParseAll_def abortX_def
  by (intro keeps MCalloc keeps_ParseAllScripts logs_only_get logs_only_numbers)

end

context script_inv
begin

lemma keeps_payload [keeps]: "keepsX I (needX (GetPayload e name off m) r reason)"
  by (intro keeps_needX GetPayload)

lemma keeps_fill [keeps]:
  "keepsX I (FillScriptInitialValues slot)" "keepsX I (need_fill slot)" "keepsX I (need_memory n)"
  unfolding need_fill_def FillScriptInitialValues_def need_memory_def by (intro keeps; simp)+

lemma keeps_action: "script_action name = Some parse \<Longrightarrow> keepsX I (parse act slot pause)"
  unfolding script_action_def
  by (auto split: if_splits)
    (unfold ParseScriptMsgSend_def ParseScriptGpioPortCreate_def ParseScriptGpioPinMode_def
      ParseScriptGpioPinState_def ParseScriptPortCreate_def ParseScriptPortWrite_def ParseScriptPortRead_def Let_def,
     (intro keeps logs_only_get logs_only_numbers faults_no_release)+)

lemma keeps_ParseScript [keeps]: "keepsX I (ParseScript scr)"
  unfolding ParseScript_def script_step_def script_target_def ParseScriptPause_def Let_def
  by (intro keeps keeps_action logs_only_get logs_only_numbers faults_no_release) simp_all

lemma keeps_ParseAll_scripts: "keepsX I (ParseAll tree)"
  by (rule keeps_ParseAll) (simp add: scripts_keep_def keeps)

end

end
