(* ===== verification/Xml_Props.thy ===== *)
theory Xml_Props
  imports Xml_Parse
begin

text \<open>
  Properties of the whole parse: what is released after a failure, which documents are
  rejected, and which results an accepted one has.
\<close>

section \<open>Releasing\<close>

lemma free_result: "free b s = Inr (s\<lparr>live := live s - {b}\<rparr>) \<or> free b s = Inl BadFree"
  by (simp add: free_def)

lemma FreeObjList_result: "(\<exists>s'. FreeObjList s = Inr s') \<or> FreeObjList s = Inl BadFree"
proof -
  have cell: "(\<exists>s'. free_cell c s = Inr s') \<or> free_cell c s = Inl BadFree" for c and s :: "'a xmem_scheme"
    by (simp add: free_cell_def free_def)
  have cells: "(\<exists>s'. foldR free_cell cs s = Inr s') \<or> foldR free_cell cs s = Inl BadFree"
    for cs and s :: "'a xmem_scheme"
  proof (induction cs arbitrary: s)
    case (Cons c cs)
    from cell [of c s] show ?case
    proof (elim disjE exE)
      fix s' assume "free_cell c s = Inr s'"
      then show ?thesis using Cons.IH [of s'] by simp
    qed simp
  qed simp
  show ?thesis
    using cells by (auto simp: FreeObjList_def free_def split: option.splits)
qed

lemma FreeVal_twice: "bindR (FreeVal v (Some p) s) (free p) = Inl BadFree"
proof -
  have "bindR (bindR (free p t) (free v)) (free p) = Inl BadFree" for t :: xst
    by (simp add: free_def)
  then show ?thesis
    using FreeObjList_result [of s] by (auto simp: FreeVal_def bindR_assoc)
qed

text \<open>
  C36: A script that does not parse corrupts the heap. Whenever \<open>UcsXml_ParseScript\<close> finds a
  script in the text and that script is rejected, for whatever reason, the internal data are
  released twice.
\<close>

theorem parse_script_double_free:
  assumes "load text = Some doc" and "mxmlFindElement doc ''Unicens'' = unicens" and "unicens \<noteq> []"
    and "mxmlFindElement unicens ''Script'' = script" and "script \<noteq> []"
    and "calloc_ok s (calloc_calls s)" and "calloc_ok s (Suc (calloc_calls s))"
    and rejected: "\<forall>t. \<exists>r t'. run_parse (ParseScript (hd script)) t = Inr (r, t') \<and> r \<noteq> Parse_Success"
  shows "UcsXml_ParseScript load text s = Inl BadFree"
proof -
  have "doc \<noteq> []" using assms(2,3) by (auto simp: mxmlFindElement_def)
  have "bindR (run_parse (ParseScript (hd script)) t) (\<lambda>(r, s).
          if r = Parse_Success then Inr (Some (v, p), s)
          else bindR (FreeValScript v (Some p) (parse_error r s)) (\<lambda>s. bindR (free p s) (\<lambda>s. Inr (None, s))))
        = Inl BadFree" for t v p
  proof -
    obtain r t' where r: "run_parse (ParseScript (hd script)) t = Inr (r, t')" "r \<noteq> Parse_Success"
      using rejected by blast
    have "bindR (bindR (FreeVal v (Some p) (parse_error r t')) (free p)) (\<lambda>s. Inr (None :: (nat \<times> nat) option, s))
        = Inl BadFree"
      by (simp add: FreeVal_twice)
    then show ?thesis using r by (simp add: FreeValScript_def bindR_assoc)
  qed
  then show ?thesis
    using assms(1-7) \<open>doc \<noteq> []\<close>
    by (simp add: UcsXml_ParseScript_def GetElement_def as_pointer_def calloc_def Let_def start_state_def)
qed

definition empty_state :: xst where
  "empty_state = \<lparr>xs_errors = [], calloc_ok = (\<lambda>_. True), calloc_calls = 0, live = {}, obj_head = None,
     obj_cells = [], xs_res = [], xs_autoRouteId = 0, xs_routes = [], xs_scripts = [], xs_drivers = [],
     xs_node = zero_node_data 0, xs_con = zero_con_data, xs_val = zero_val\<rparr>"

definition xml_header :: "cursor \<Rightarrow> cursor" where
  "xml_header root = [Element ''?xml version=\"1.0\"?'' [] root]"

theorem parse_script_double_free_witness:
  "UcsXml_ParseScript (\<lambda>_. Some (xml_header [Element ''Unicens'' [] [Element ''Script'' [] []]])) [] empty_state
     = Inl BadFree"
proof (rule parse_script_double_free)
  let ?u = "[Element ''Unicens'' [] [Element ''Script'' [] []]]"
  show "mxmlFindElement (xml_header ?u) ''Unicens'' = ?u" "mxmlFindElement ?u ''Script'' = [Element ''Script'' [] []]"
    by (simp_all add: xml_header_def mxmlFindElement_eq)
  show "\<forall>t. \<exists>r t'. run_parse (ParseScript (hd [Element ''Script'' [] []])) t = Inr (r, t') \<and> r \<noteq> Parse_Success"
    by (auto simp: run_parse_def ParseScript_def bindX_def needX_def liftX_def GetCountArray_def
        RETURN_ASSERT_def thenX_def errorX_def updX_def stopX_def)
qed (simp_all add: empty_state_def)

text \<open>
  Only a document with an outer element before its root is accepted. The search for the
  root looks below the first node of the document, so that a document that begins with its
  \<open>Unicens\<close> element, with no declaration before it, is rejected, and the error
  reported is one of memory.
\<close>

theorem root_element_first:
  assumes "load text = Some (n # later)" and "first_named ''Unicens'' (preorder (child n)) = []"
  shows "UcsXml_Parse load text s =
     Inr (None, UcsXml_CB_OnError ''XML memory error, aborting..'' 0 [] (start_state s))"
proof -
  have "mxmlFindElement (n # later) ''Unicens'' = []"
    using assms(2) by (simp add: mxmlFindElement_eq find_in_child find_preorder)
  then show ?thesis
    using assms(1) by (simp add: UcsXml_Parse_def GetElement_def as_pointer_def parse_error_def)
qed

theorem root_element_first_witness:
  "UcsXml_Parse (\<lambda>_. Some [Element ''Unicens'' [(''AsyncBandwidth'', ''0'')] [Element ''Node'' [(''Address'', ''0x200'')] []]]) []
     empty_state = Inr (None, UcsXml_CB_OnError ''XML memory error, aborting..'' 0 [] (start_state empty_state))"
  by (rule root_element_first [where later = "[]"], rule refl) (simp add: first_named_def)

end
