(* ===== verification/Xml_Release.thy ===== *)
theory Xml_Release
  imports Xml_Partial Xml_Props
begin

text \<open>
  What \<open>UcsXml_Parse\<close> leaves allocated: the memory invariant of Xml_Memory is an instance
  of the contract of Xml_Partial, so that it holds after the parse of any document, and the
  release of the object list leaves what was allocated before.
\<close>

section \<open>The invariant\<close>

text \<open>Beside the blocks of the object list and \<open>others\<close>, copies of texts are live that \<open>GetPayload\<close> made.\<close>

definition mem_upto :: "nat set set \<Rightarrow> nat set \<Rightarrow> 'z xmem_scheme \<Rightarrow> bool" where
  "mem_upto C others s \<longleftrightarrow> (\<exists>copies \<in> C. mem_ok (others \<union> copies) s)"

interpretation xml_memory: parse_inv "mem_upto C others" for C others
proof
  fix s s' :: xst
  assume "mem_upto C others s" "live s' = live s" "calloc_calls s' = calloc_calls s"
    "obj_head s' = obj_head s" "obj_cells s' = obj_cells s"
  then show "mem_upto C others s'"
    unfolding mem_upto_def using mem_ok_cong by metis
next
  fix s :: xst and n k
  assume "mem_upto C others s"
  then show "mem_upto C others (snd (MCalloc n k s))"
    unfolding mem_upto_def using MCalloc_ok by blast
qed

lemma payload_loop_logs: "\<exists>es. snd (payload_loop l off ts p n s) = s\<lparr>xs_errors := es\<rparr>"
  by (induction ts arbitrary: p n) (simp_all add: log_is_update)

lemma mem_ok_calloc:
  assumes "mem_ok others s" "calloc s = (Some b, t)"
  shows "b \<notin> others" "mem_ok (insert b others) t"
proof -
  from assms(2) have t: "b = calloc_calls s" "t = s\<lparr>calloc_calls := Suc b, live := insert b (live s)\<rparr>"
    by (auto simp: calloc_def Let_def split: if_splits)
  have "b \<notin> live s" using assms(1) t(1) by (meson less_irrefl mem_ok_def)
  moreover have "\<forall>x \<in> live s. x < Suc b" using assms(1) t(1) by (meson less_SucI mem_ok_def)
  moreover have "owned t = owned s" by (simp add: t(2) owned_def)
  moreover have "live s = others \<union> set (owned s)" "others \<inter> set (owned s) = {}" "distinct (owned s)"
    "obj_head s = None \<longrightarrow> obj_cells s = []"
    using assms(1) by (simp_all add: mem_ok_def)
  ultimately show "b \<notin> others" "mem_ok (insert b others) t"
    unfolding mem_ok_def t(2) by simp_all
qed

lemma mem_ok_calloc_fails:
  assumes "mem_ok others s" "calloc s = (None, t)"
  shows "mem_ok others t"
proof -
  from assms(2) have "t = s\<lparr>calloc_calls := Suc (calloc_calls s)\<rparr>"
    by (auto simp: calloc_def Let_def split: if_splits)
  then show ?thesis using assms(1) by (auto simp: mem_ok_def owned_def less_SucI)
qed

lemma mem_ok_drop: "mem_ok (insert b others) s \<Longrightarrow> b \<notin> others \<Longrightarrow> mem_ok others (s\<lparr>live := live s - {b}\<rparr>)"
  by (auto simp: mem_ok_def owned_def)

lemma mem_ok_errors: "mem_ok others (s\<lparr>xs_errors := es\<rparr>) = mem_ok others s"
  by (rule mem_ok_cong) simp_all

lemma GetPayload_mem:
  assumes "mem_ok others s"
  shows "\<exists>c. mem_ok (others \<union> c) (snd (GetPayload e name off m s))"
proof -
  obtain v0 t where g: "GetString e name m s = (v0, t)" by (cases "GetString e name m s")
  have "logs_only (GetString e name m :: 'a xmem_scheme \<Rightarrow> _)" by simp
  then obtain es where "t = s\<lparr>xs_errors := es\<rparr>" unfolding logs_only_def using g by (metis snd_conv)
  then have t: "mem_ok others t" using assms by (simp add: mem_ok_errors)
  have same: "\<exists>c. mem_ok (others \<union> c) u" if "mem_ok others u" for u :: "'a xmem_scheme"
    using that by (intro exI [of _ "{}"]) simp
  show ?thesis
  proof (cases "v0 = None \<or> v0 = Some []")
    case True
    then show ?thesis using same [OF t] by (auto simp: GetPayload_def g)
  next
    case False
    then obtain w where w: "v0 = Some w" "w \<noteq> []" by auto
    obtain b u where b: "calloc t = (b, u)" by (cases "calloc t")
    show ?thesis
    proof (cases b)
      case None
      then show ?thesis
        using b w same [OF mem_ok_calloc_fails [OF t]] by (simp add: GetPayload_def g)
    next
      case (Some c)
      note fresh = mem_ok_calloc [OF t b [unfolded Some]]
      let ?n = "unat off + Suc (length w) div 3"
      obtain p v where p: "MCalloc ?n 1 u = (p, v)" by (cases "MCalloc ?n 1 u")
      have v: "mem_ok (insert c others) v" using MCalloc_ok [OF fresh(2), of ?n 1] p by simp
      obtain r x where loop: "payload_loop (Suc (length w) div 3) (unat off) (tokens w) (replicate ?n 0) 0 v = (r, x)"
        by (metis surj_pair)
      then obtain fs where "x = v\<lparr>xs_errors := fs\<rparr>" using payload_loop_logs by (metis snd_conv)
      then have x: "mem_ok (insert c others) x" using v by (simp add: mem_ok_errors)
      note drop = same [OF mem_ok_drop [OF v fresh(1)]] same [OF mem_ok_drop [OF x fresh(1)]]
      have "\<exists>d. mem_ok (others \<union> d) x" using x by (intro exI [of _ "{c}"]) simp
      then show ?thesis
        using w b Some p loop drop
        by (cases p; cases r) (auto simp: GetPayload_def g Let_def)
    qed
  qed
qed

interpretation xml_scripts: script_inv "mem_upto UNIV others" for others
proof
  fix s :: xst and e name off m
  assume "mem_upto UNIV others s"
  then obtain c where "mem_ok (others \<union> c) s" by (auto simp: mem_upto_def)
  from GetPayload_mem [OF this, of e name off m] show "mem_upto UNIV others (snd (GetPayload e name off m s))"
    unfolding mem_upto_def Un_assoc by blast
qed

section \<open>What a parse leaves\<close>

lemma FreeVal_okR:
  assumes "mem_ok others s" "p \<in> others" "v \<in> others" "p \<noteq> v"
  shows "okR (FreeVal v (Some p) s) (\<lambda>s'. live s' = others - {p, v})"
proof -
  have "okR (FreeObjList s) (\<lambda>s'. live s' = others)" by (rule FreeObjList_okR [OF assms(1)])
  then show ?thesis using assms(2-4) by (cases "FreeObjList s") (auto simp: FreeVal_def free_def)
qed

text \<open>The blocks before the parse were all handed out by earlier calls.\<close>

definition heap_ok :: "'z xmem_scheme \<Rightarrow> bool" where
  "heap_ok s \<longleftrightarrow> (\<forall>b \<in> live s. b < calloc_calls s)"

definition left_by :: "nat set set \<Rightarrow> 'z xmem_scheme \<Rightarrow> 'y xmem_scheme \<Rightarrow> bool" where
  "left_by C s s' \<longleftrightarrow> (\<exists>c \<in> C. live s' = live s \<union> (c - {calloc_calls s, Suc (calloc_calls s)}))"

definition parse_outcome :: "nat set set \<Rightarrow> xst \<Rightarrow> ((nat \<times> nat) option \<times> xst) result \<Rightarrow> bool" where
  "parse_outcome C s r = (case r of
     Inl f \<Rightarrow> f \<noteq> BadFree
   | Inr (None, s') \<Rightarrow> left_by C s s' \<or>
       \<not> calloc_ok s (Suc (calloc_calls s)) \<and> live s' = insert (calloc_calls s) (live s)
   | Inr (Some (v, p), s') \<Rightarrow> okR (FreeVal v (Some p) s') (left_by C s))"

lemma parse_error_memory [simp]:
  "mem_ok others (parse_error r s) = mem_ok others s" "live (parse_error r s) = live s"
  by (simp_all add: parse_error_def, simp add: UcsXml_CB_OnError_def)

lemma run_parse_keeps:
  assumes "keepsX I m" "I s"
  shows "(\<exists>r t. run_parse m s = Inr (r, t) \<and> I t) \<or> (\<exists>f. run_parse m s = Inl f \<and> f \<noteq> BadFree)"
proof -
  have "postX m s (\<lambda>_. I) (\<lambda>_. I)" using assms by (simp add: keepsX_def)
  then show ?thesis by (auto simp: postX_def run_parse_def split: sum.splits)
qed

lemma FreeVal_left_by:
  assumes "mem_upto C ({calloc_calls s, Suc (calloc_calls s)} \<union> live s) t" "heap_ok s"
  shows "okR (FreeVal (calloc_calls s) (Some (Suc (calloc_calls s))) t) (left_by C s)"
proof -
  let ?b = "calloc_calls s"
  obtain c where c: "c \<in> C" "mem_ok ({?b, Suc ?b} \<union> live s \<union> c) t" using assms(1) by (auto simp: mem_upto_def)
  have "?b \<notin> live s" "Suc ?b \<notin> live s" using assms(2) by (auto simp: heap_ok_def)
  then have "{?b, Suc ?b} \<union> live s \<union> c - {Suc ?b, ?b} = live s \<union> (c - {?b, Suc ?b})" by auto
  then have "okR (FreeVal ?b (Some (Suc ?b)) t) (\<lambda>s'. live s' = live s \<union> (c - {?b, Suc ?b}))"
    using FreeVal_okR [OF c(2), of "Suc ?b" ?b] by simp
  then show ?thesis
    using c(1) by (cases "FreeVal ?b (Some (Suc ?b)) t") (auto simp: left_by_def)
qed

lemma parse_outcome_after:
  assumes "keepsX (mem_upto C ({calloc_calls s, Suc (calloc_calls s)} \<union> live s)) m" "heap_ok s"
    and "mem_ok ({calloc_calls s, Suc (calloc_calls s)} \<union> live s) t" "{} \<in> C"
  shows "parse_outcome C s (bindR (run_parse m t) (\<lambda>(r, t).
     if r = Parse_Success then Inr (Some (calloc_calls s, Suc (calloc_calls s)), t)
     else bindR (FreeVal (calloc_calls s) (Some (Suc (calloc_calls s))) (parse_error r t)) (\<lambda>t. Inr (None, t))))"
proof -
  let ?O = "{calloc_calls s, Suc (calloc_calls s)} \<union> live s"
  have "mem_upto C ?O t" unfolding mem_upto_def using assms(3,4) by (intro bexI [of _ "{}"]) simp_all
  from run_parse_keeps [OF assms(1) this] show ?thesis
  proof (elim disjE exE conjE)
    fix r u assume r: "run_parse m t = Inr (r, u)" "mem_upto C ?O u"
    then have "mem_upto C ?O (parse_error r u)" by (simp add: mem_upto_def)
    note free = FreeVal_left_by [OF this assms(2)] FreeVal_left_by [OF r(2) assms(2)]
    show ?thesis
    proof (cases "r = Parse_Success")
      case True
      then show ?thesis using r free by (simp add: parse_outcome_def)
    next
      case False
      then show ?thesis
        using r free
        by (cases "FreeVal (calloc_calls s) (Some (Suc (calloc_calls s))) (parse_error r u)")
          (simp_all add: parse_outcome_def)
    qed
  qed (simp add: parse_outcome_def)
qed

lemma UcsXml_Parse_outcome:
  assumes "heap_ok s" "{} \<in> C"
    and "\<And>doc. load input = Some doc \<Longrightarrow>
      keepsX (mem_upto C ({calloc_calls s, Suc (calloc_calls s)} \<union> live s)) (ParseAll (mxmlFindElement doc ''Unicens''))"
  shows "parse_outcome C s (UcsXml_Parse load input s)"
proof -
  let ?b = "calloc_calls s"
  have unchanged: "parse_outcome C s (Inr (None, t))" if "live t = live s" for t
    using that assms(2) by (auto simp: parse_outcome_def left_by_def intro!: bexI [of _ "{}"])
  have start [simp]: "live (start_state s) = live s" "calloc_calls (start_state s) = ?b"
    "calloc_ok (start_state s) = calloc_ok s" "obj_head (start_state s) = None" "obj_cells (start_state s) = []"
    by (simp_all add: start_state_def)
  have log [simp]: "live (UcsXml_CB_OnError f n a t) = live t" for f n a and t :: xst
    by (simp add: UcsXml_CB_OnError_def)
  let ?t = "(start_state s)\<lparr>calloc_calls := Suc (Suc ?b), live := insert (Suc ?b) (insert ?b (live s))\<rparr>"
  have ok: "mem_ok ({?b, Suc ?b} \<union> live s) ?t"
    using assms(1) by (auto simp: mem_ok_def owned_def heap_ok_def)
  show ?thesis
  proof (cases "load input")
    case None
    then show ?thesis by (simp add: UcsXml_Parse_def unchanged)
  next
    case (Some doc)
    show ?thesis
    proof (cases "doc = [] \<or> mxmlFindElement doc ''Unicens'' = []")
      case True
      then show ?thesis
        using Some by (elim disjE; simp add: UcsXml_Parse_def GetElement_def as_pointer_def Let_def unchanged)
    next
      case False
      then have get: "GetElement doc ''Unicens'' True True u = (Some (mxmlFindElement doc ''Unicens''), u)" for u :: xst
        by (simp add: GetElement_def as_pointer_def)
      consider "\<not> calloc_ok s ?b" | "calloc_ok s ?b" "\<not> calloc_ok s (Suc ?b)" | "calloc_ok s ?b" "calloc_ok s (Suc ?b)"
        by blast
      then show ?thesis
      proof cases
        case 3
        then show ?thesis
          using parse_outcome_after [OF assms(3) [OF Some] assms(1) ok assms(2)]
          by (simp add: UcsXml_Parse_def Some get calloc_def Let_def)
      next
        case 2
        then show ?thesis
          by (simp add: UcsXml_Parse_def Some get calloc_def Let_def FreeVal_def parse_outcome_def)
      qed (simp add: UcsXml_Parse_def Some get calloc_def Let_def unchanged)
    qed
  qed
qed

section \<open>The properties\<close>


definition node_doc :: "cursor \<Rightarrow> cursor" where
  "node_doc rest = xml_header [Element ''Unicens'' [(''AsyncBandwidth'', ''0'')]
     (Element ''Node'' [(''Address'', ''0x200'')] [] # rest)]"

definition used_state :: xst where
  "used_state = empty_state\<lparr>calloc_calls := 1, live := {0}\<rparr>"




end
