(* ===== verification/Xml_Route_Props.thy ===== *)
theory Xml_Route_Props
  imports Xml_Props
begin

text \<open>
  What \<open>ParseRoutes\<close> computes: the routes as a list comprehension over the route entries of all
  connections, numbered from left to right.
\<close>

section \<open>The routes of a list of entries\<close>

text \<open>A route without its identifier, and the identifier if the configuration gives one.\<close>

type_synonym template = "XRmRoute \<times> u16 option"

definition chosen_id :: "u16 list \<Rightarrow> u16 option" where
  "chosen_id ids = (case filter (\<lambda>i. i \<noteq> ROUTE_INVALID_ID) ids of [] \<Rightarrow> None | i # _ \<Rightarrow> Some i)"

definition linked :: "UcsXmlRoute \<Rightarrow> UcsXmlRoute \<Rightarrow> bool" where
  "linked source sink \<longleftrightarrow> xr_isTalker source \<and> \<not> xr_isTalker sink \<and>
     xr_routeName source \<noteq> [] \<and> xr_routeName source = xr_routeName sink"

definition named_template :: "UcsXmlRoute \<Rightarrow> UcsXmlRoute \<Rightarrow> template" where
  "named_template source sink =
     (zero_route\<lparr>rt_source := Some (xr_ep source), rt_sink := Some (xr_ep sink),
        rt_active := xr_isActive sink \<and> xr_isActive source\<rparr>,
      chosen_id [xr_routeId sink, xr_routeId source])"

definition dc_endpoint :: "bool \<Rightarrow> XEndPoint" where
  "dc_endpoint isTalker = \<lparr>ep_type = (if isTalker then UCS_RM_EP_DC_SINK else UCS_RM_EP_DC_SOURCE),
     ep_jobs = None, ep_node = 0\<rparr>"

definition label_template :: "UcsXmlRoute \<Rightarrow> bool \<Rightarrow> u16 \<Rightarrow> template list" where
  "label_template r fallback label = (if label = 0 then [] else
     [((if xr_isTalker r
        then zero_route\<lparr>rt_source := Some (xr_ep r), rt_sink := Some (dc_endpoint True)\<rparr>
        else zero_route\<lparr>rt_sink := Some (xr_ep r), rt_source := Some (dc_endpoint False)\<rparr>)
       \<lparr>rt_fallback := fallback, rt_label := label, rt_active := xr_isActive r\<rparr>,
      chosen_id [xr_routeId r])])"

definition named_templates :: "UcsXmlRoute list \<Rightarrow> template list" where
  "named_templates rs = [named_template source sink. source \<leftarrow> rs, sink \<leftarrow> rs, linked source sink]"

definition label_templates :: "UcsXmlRoute list \<Rightarrow> template list" where
  "label_templates rs = concat (map (\<lambda>r. label_template r False (xr_labelNormal r) @
     label_template r True (xr_labelFallback r)) rs)"

definition route_templates :: "UcsXmlRoute list \<Rightarrow> template list" where
  "route_templates rs = named_templates rs @ label_templates rs"

fun numbered :: "u16 \<Rightarrow> template list \<Rightarrow> XRmRoute list" where
  "numbered a [] = []"
| "numbered a ((r, Some i) # ts) = r\<lparr>rt_id := i\<rparr> # numbered a ts"
| "numbered a ((r, None) # ts) = r\<lparr>rt_id := a\<rparr> # numbered (a + 1) ts"

fun next_auto :: "u16 \<Rightarrow> template list \<Rightarrow> u16" where
  "next_auto a [] = a"
| "next_auto a ((r, Some i) # ts) = next_auto a ts"
| "next_auto a ((r, None) # ts) = next_auto (a + 1) ts"

lemma numbered_append: "numbered a (ts @ us) = numbered a ts @ numbered (next_auto a ts) us"
  by (induction a ts rule: numbered.induct) simp_all

lemma next_auto_append: "next_auto a (ts @ us) = next_auto (next_auto a ts) us"
  by (induction a ts rule: numbered.induct) simp_all

lemma length_numbered [simp]: "length (numbered a ts) = length ts"
  by (induction a ts rule: numbered.induct) simp_all

section \<open>Counting\<close>

definition names_ok :: "UcsXmlRoute list \<Rightarrow> bool" where
  "names_ok rs \<longleftrightarrow> (\<forall>r \<in> set rs. length (xr_routeName r) < NAME_LEN)"

lemma named_pair_eq:
  assumes "names_ok rs" "i < length rs" "j < length rs" "xr_isTalker (rs ! i)"
  shows "named_pair rs i j = Inr (linked (rs ! i) (rs ! j))"
proof -
  have "length (xr_routeName (rs ! i)) \<noteq> NAME_LEN" "length (xr_routeName (rs ! j)) \<noteq> NAME_LEN"
    using assms(1-3) unfolding names_ok_def by (metis less_irrefl nth_mem)+
  then show ?thesis
    using assms(4) by (auto simp: named_pair_def names_match_def name_nonempty_def linked_def)
qed

lemma foldR_count:
  fixes g :: "'x \<Rightarrow> nat" and n :: "'w :: len word"
  assumes "\<And>x n. x \<in> set xs \<Longrightarrow> f x n = Inr (n + of_nat (g x))"
  shows "foldR f xs n = Inr (n + of_nat (sum_list (map g xs)))"
  using assms by (induction xs arbitrary: n) (simp_all add: ac_simps)

definition linked_count :: "UcsXmlRoute list \<Rightarrow> nat \<Rightarrow> nat" where
  "linked_count rs i = sum_list (map (\<lambda>j. if linked (rs ! i) (rs ! j) then 1 else 0) [0..<length rs])"

lemma count_named_eq:
  assumes "names_ok rs"
  shows "count_named rs = Inr (of_nat (length (named_templates rs)))"
proof -
  have inner: "(if \<not> xr_isTalker (rs ! i) then Inr n else
       foldR (\<lambda>j n. bindR (named_pair rs i j) (\<lambda>m. Inr (if m then n + 1 else n))) [0..<length rs] n)
     = Inr (n + of_nat (linked_count rs i))" if "i < length rs" for i and n :: u16
  proof (cases "xr_isTalker (rs ! i)")
    case True
    then show ?thesis
      unfolding linked_count_def
      by (simp, intro foldR_count) (simp add: named_pair_eq [OF assms that])
  next
    case False
    then show ?thesis by (simp add: linked_count_def linked_def)
  qed
  have "count_named rs = Inr (0 + of_nat (sum_list (map (linked_count rs) [0..<length rs])))"
    unfolding count_named_def by (intro foldR_count) (use inner in auto)
  moreover have "sum_list (map (linked_count rs) [0..<length rs]) = length (named_templates rs)"
  proof -
    have idx: "map f rs = map (\<lambda>i. f (rs ! i)) [0..<length rs]" for f :: "UcsXmlRoute \<Rightarrow> 'a"
      by (rule nth_equalityI) simp_all
    have "length (named_templates rs) =
        sum_list (map (\<lambda>s. sum_list (map (\<lambda>k. if linked s k then 1 else 0) rs)) rs)"
      by (simp add: named_templates_def length_concat comp_def if_distrib [of length] cong: if_cong)
    then show ?thesis by (simp add: idx linked_count_def [abs_def])
  qed
  ultimately show ?thesis by simp
qed

lemma count_labels_eq: "count_labels rs n = n + of_nat (length (label_templates rs))"
  by (induction rs arbitrary: n)
    (simp_all add: count_labels_def label_templates_def label_template_def Let_def ac_simps)

section \<open>Filling\<close>

text \<open>A state of the passes: some routes of \<open>all\<close> are filled in, \<open>rest\<close> are still to come.\<close>

definition filling :: "u16 \<Rightarrow> template list \<Rightarrow> template list \<Rightarrow> xst \<Rightarrow> bool" where
  "filling a all rest s \<longleftrightarrow> (\<exists>before. all = before @ rest \<and>
     v_routes (xs_val s) = numbered a before @ replicate (length rest) zero_route \<and>
     v_routesSize (xs_val s) = of_nat (length before) \<and>
     xs_autoRouteId s = next_auto a before)"

lemma okX_forX_rest:
  assumes "I (concat (map g xs) @ rest) s"
    and "\<And>x rest s. x \<in> set xs \<Longrightarrow> I (g x @ rest) s \<Longrightarrow> okX (f x) s (\<lambda>_. I rest) E"
  shows "okX (forX f xs) s (\<lambda>_. I rest) E"
  using assms
proof (induction xs arbitrary: s)
  case Nil
  then show ?case by simp
next
  case (Cons x xs)
  have "okX (f x) s (\<lambda>_. I (concat (map g xs) @ rest)) E" using Cons.prems by simp
  then have "okX (f x) s (\<lambda>_ s. okX (forX f xs) s (\<lambda>_. I rest) E) E"
    by (rule okX_mono) (use Cons in auto)
  then show ?case by simp
qed

lemma MCalloc_frame [simp]:
  "xs_val (snd (MCalloc n k s)) = xs_val s" "xs_autoRouteId (snd (MCalloc n k s)) = xs_autoRouteId s"
  "xs_routes (snd (MCalloc n k s)) = xs_routes s"
  by (auto simp: MCalloc_def calloc_def Let_def split: option.splits)

lemma filling_frame:
  "xs_val s' = xs_val s \<Longrightarrow> xs_autoRouteId s' = xs_autoRouteId s \<Longrightarrow> filling a all rest s' = filling a all rest s"
  by (simp add: filling_def)

lemma okX_route_id_of: "okX (route_id_of ids) s Q E =
   (case chosen_id ids of Some i \<Rightarrow> Q i s
    | None \<Rightarrow> Q (xs_autoRouteId s) (s\<lparr>xs_autoRouteId := xs_autoRouteId s + 1\<rparr>))"
  by (simp add: route_id_of_def chosen_id_def split: list.splits)

lemma okX_next_route: "okX next_route s Q E =
   Q (unat (v_routesSize (xs_val s))) (upd_val (\<lambda>v. v\<lparr>v_routesSize := v_routesSize (xs_val s) + 1\<rparr>) s)"
  by (simp add: next_route_def)

lemma okX_put_route: "okX (put_route i r) s Q E =
   (i < length (v_routes (xs_val s)) \<and> Q () (upd_val (\<lambda>v. v\<lparr>v_routes := (v_routes v)[i := r]\<rparr>) s))"
  by (simp add: put_route_def)

text \<open>Room in the array, and what one more route makes of the state.\<close>

lemma filling_room:
  assumes "filling a all (t # rest) s" "length all < 2 ^ 16"
  shows "v_routesSize (xs_val s) < of_nat (length all)"
    and "unat (v_routesSize (xs_val s)) < length (v_routes (xs_val s))"
proof -
  obtain before where b: "all = before @ t # rest" "v_routesSize (xs_val s) = of_nat (length before)"
    "length (v_routes (xs_val s)) = length all"
    using assms(1) by (auto simp: filling_def)
  have u: "unat (of_nat (length all) :: u16) = length all"
    using assms(2) by (simp add: unat_of_nat)
  have before: "length before < length all" using b(1) by simp
  with assms(2) have v: "unat (of_nat (length before) :: u16) = length before"
    by (simp add: unat_of_nat)
  show "v_routesSize (xs_val s) < of_nat (length all)"
    using u v before by (simp add: b(2) word_less_nat_alt)
  show "unat (v_routesSize (xs_val s)) < length (v_routes (xs_val s))"
    using v before by (simp add: b(2,3))
qed

lemma filling_step:
  assumes "filling a all ((r, choice) # rest) s" "length all < 2 ^ 16"
    and "xs_val s' = (xs_val s)\<lparr>v_routesSize := v_routesSize (xs_val s) + 1,
           v_routes := (v_routes (xs_val s))[unat (v_routesSize (xs_val s)) :=
             r\<lparr>rt_id := (case choice of Some i \<Rightarrow> i | None \<Rightarrow> xs_autoRouteId s)\<rparr>]\<rparr>"
    and "xs_autoRouteId s' = (case choice of Some i \<Rightarrow> xs_autoRouteId s | None \<Rightarrow> xs_autoRouteId s + 1)"
  shows "filling a all rest s'"
proof -
  obtain before where b: "all = before @ (r, choice) # rest"
    "v_routes (xs_val s) = numbered a before @ replicate (Suc (length rest)) zero_route"
    "v_routesSize (xs_val s) = of_nat (length before)" "xs_autoRouteId s = next_auto a before"
    using assms(1) by (auto simp: filling_def)
  have u: "unat (of_nat (length before) :: u16) = length before"
    using assms(2) b(1) by (simp add: unat_of_nat)
  show ?thesis
    unfolding filling_def
  proof (intro exI [of _ "before @ [(r, choice)]"] conjI)
    show "all = (before @ [(r, choice)]) @ rest" using b(1) by simp
  qed (use assms(3,4) b u in \<open>cases choice; simp add: numbered_append next_auto_append list_update_append\<close>)+
qed

section \<open>The passes\<close>

text \<open>An early return only happens when an allocation has failed.\<close>

definition memory_error :: "ParseResult_t \<Rightarrow> 'z xmem_scheme \<Rightarrow> bool" where
  "memory_error e s \<longleftrightarrow> e = Parse_MemoryError \<and> (\<exists>n. \<not> calloc_ok s n)"

lemma MCalloc_fails:
  "calloc_ok (snd (MCalloc n k s)) = calloc_ok s"
  "fst (MCalloc n k s) = None \<Longrightarrow> 0 < n \<Longrightarrow> 0 < k \<Longrightarrow> \<exists>b. \<not> calloc_ok s b"
  by (auto simp: MCalloc_def calloc_def Let_def split: option.splits if_splits)

lemma okX_fill_named:
  assumes "filling a all (named_template source sink # rest) s" "length all < 2 ^ 16"
  shows "okX (fill_named (of_nat (length all)) source sink) s (\<lambda>_. filling a all rest) memory_error"
proof -
  note room = filling_room [OF assms]
  note step = filling_step [OF assms(1) [unfolded named_template_def] assms(2)]
  show ?thesis
    using room
    by (simp add: fill_named_def okX_next_route okX_route_id_of okX_put_route not_le
        split: option.splits)
      (auto intro!: step)
qed

lemma ASSERT_FALSE_frame [simp]:
  "calloc_ok (ASSERT_FALSE f p s) = calloc_ok s" "calloc_ok (UcsXml_CB_OnError h n b s) = calloc_ok s"
  "xs_val (ASSERT_FALSE f p s) = xs_val s" "xs_autoRouteId (ASSERT_FALSE f p s) = xs_autoRouteId s"
  by (simp_all add: ASSERT_FALSE_def UcsXml_CB_OnError_def)

lemma GetDefaultCreatedEndpoint_frame:
  "xs_val (snd (GetDefaultCreatedEndpoint d s)) = xs_val s"
  "xs_autoRouteId (snd (GetDefaultCreatedEndpoint d s)) = xs_autoRouteId s"
  "fst (GetDefaultCreatedEndpoint d s) = Some e \<Longrightarrow> e = dc_endpoint d"
  "fst (GetDefaultCreatedEndpoint d s) = None \<Longrightarrow>
     \<exists>n. \<not> calloc_ok (snd (GetDefaultCreatedEndpoint d s)) n"
proof -
  obtain c t where m: "MCalloc 1 1 s = (c, t)" by (cases "MCalloc 1 1 s")
  then have "xs_val t = xs_val s" "xs_autoRouteId t = xs_autoRouteId s" by (metis MCalloc_frame snd_conv)+
  moreover have "c = None \<Longrightarrow> \<exists>n. \<not> calloc_ok t n"
    using MCalloc_fails [of 1 1 s] m by simp
  ultimately show "xs_val (snd (GetDefaultCreatedEndpoint d s)) = xs_val s"
    "xs_autoRouteId (snd (GetDefaultCreatedEndpoint d s)) = xs_autoRouteId s"
    "fst (GetDefaultCreatedEndpoint d s) = Some e \<Longrightarrow> e = dc_endpoint d"
    "fst (GetDefaultCreatedEndpoint d s) = None \<Longrightarrow>
       \<exists>n. \<not> calloc_ok (snd (GetDefaultCreatedEndpoint d s)) n"
    using m by (auto simp: GetDefaultCreatedEndpoint_def dc_endpoint_def split: option.splits)
qed

lemma okX_fill_label:
  assumes "filling a all (label_template r fallback label @ rest) s" "length all < 2 ^ 16"
  shows "okX (fill_label (of_nat (length all)) r fallback label) s (\<lambda>_. filling a all rest) memory_error"
proof (cases "label = 0")
  case True
  then show ?thesis using assms by (simp add: fill_label_def label_template_def)
next
  case False
  note a1 = assms(1) [unfolded label_template_def, simplified False if_False append.simps]
  note room = filling_room [OF a1 assms(2)]
  note step = filling_step [OF a1 assms(2)]
  show ?thesis
    using False room
    by (simp add: fill_label_def GetDefaultCreatedRoute_def okX_liftX okX_next_route okX_route_id_of
        okX_put_route not_le GetDefaultCreatedEndpoint_frame split: option.splits)
      (auto intro!: step dest!: GetDefaultCreatedEndpoint_frame(3,4)
        simp: GetDefaultCreatedEndpoint_frame memory_error_def)
qed

lemma index_map: "map f rs = map (\<lambda>i. f (rs ! i)) [0..<length rs]"
  by (rule nth_equalityI) simp_all

lemma concat_nils [simp]: "concat (map (\<lambda>x. []) xs) = []"
  by (induction xs) simp_all

text \<open>The pairs by their places, as the loops go through them.\<close>

lemma named_templates_index:
  "named_templates rs = concat (map (\<lambda>i. concat (map (\<lambda>j.
     if linked (rs ! i) (rs ! j) then [named_template (rs ! i) (rs ! j)] else [])
       [0..<length rs])) [0..<length rs])"
  unfolding named_templates_def
  by (subst (1) index_map, subst (2) index_map) (simp add: comp_def)

lemma okX_named_passes:
  assumes "names_ok rs" "length all < 2 ^ 16" "filling a all (named_templates rs @ rest) s"
  shows "okX (forX (\<lambda>i. whenX (xr_isTalker (rs ! i))
               (forX (\<lambda>j. bindX (valX (named_pair rs i j)) (\<lambda>m.
                  whenX m (fill_named (of_nat (length all)) (rs ! i) (rs ! j)))) [0..<length rs]))
               [0..<length rs]) s (\<lambda>_. filling a all rest) memory_error"
proof (rule okX_forX_rest)
  show "filling a all (concat (map (\<lambda>i. concat (map (\<lambda>j.
     if linked (rs ! i) (rs ! j) then [named_template (rs ! i) (rs ! j)] else [])
       [0..<length rs])) [0..<length rs]) @ rest) s"
    using assms(3) unfolding named_templates_index .
next
  fix i rest and s :: xst
  assume i: "i \<in> set [0..<length rs]"
    and inv: "filling a all (concat (map (\<lambda>j.
       if linked (rs ! i) (rs ! j) then [named_template (rs ! i) (rs ! j)] else []) [0..<length rs]) @ rest) s"
  show "okX (whenX (xr_isTalker (rs ! i)) (forX (\<lambda>j. bindX (valX (named_pair rs i j)) (\<lambda>m.
          whenX m (fill_named (of_nat (length all)) (rs ! i) (rs ! j)))) [0..<length rs])) s
          (\<lambda>_. filling a all rest) memory_error"
  proof (cases "xr_isTalker (rs ! i)")
    case False
    then have "\<And>j. \<not> linked (rs ! i) (rs ! j)" by (simp add: linked_def)
    with inv False show ?thesis by simp
  next
    case True
    have "okX (forX (\<lambda>j. bindX (valX (named_pair rs i j)) (\<lambda>m.
          whenX m (fill_named (of_nat (length all)) (rs ! i) (rs ! j)))) [0..<length rs]) s
          (\<lambda>_. filling a all rest) memory_error"
      using inv
      by (rule okX_forX_rest)
        (use i True in \<open>auto simp: named_pair_eq [OF assms(1)] intro!: okX_fill_named [OF _ assms(2)]\<close>)
    with True show ?thesis by simp
  qed
qed

lemma okX_label_passes:
  assumes "length all < 2 ^ 16" "filling a all (label_templates rs @ rest) s"
  shows "okX (forX (\<lambda>r. thenX (fill_label (of_nat (length all)) r False (xr_labelNormal r))
                      (fill_label (of_nat (length all)) r True (xr_labelFallback r))) rs) s
           (\<lambda>_. filling a all rest) memory_error"
  using assms(2) unfolding label_templates_def
  by (rule okX_forX_rest)
    (auto intro!: okX_mono [OF okX_fill_label [OF _ assms(1)]] okX_fill_label [OF _ assms(1)])

lemma okX_passes:
  assumes "names_ok rs" "length ts < 2 ^ 16" "ts = route_templates rs"
    "xs_autoRouteId s = a" "v_routes (xs_val s) = replicate (length ts) zero_route"
    "v_routesSize (xs_val s) = 0"
  shows "okX (forX (\<lambda>i. whenX (xr_isTalker (rs ! i))
               (forX (\<lambda>j. bindX (valX (named_pair rs i j)) (\<lambda>m.
                  whenX m (fill_named (of_nat (length ts)) (rs ! i) (rs ! j)))) [0..<length rs])) [0..<length rs])
     s (\<lambda>_ s. okX (forX (\<lambda>r. thenX (fill_label (of_nat (length ts)) r False (xr_labelNormal r))
                      (fill_label (of_nat (length ts)) r True (xr_labelFallback r))) rs) s
          (\<lambda>_ s'. v_routes (xs_val s') = numbered a ts \<and> v_routesSize (xs_val s') = of_nat (length ts))
          memory_error) memory_error"
proof -
  have "filling a ts (named_templates rs @ label_templates rs) s"
    unfolding filling_def
    by (intro exI [of _ "[]"]) (use assms in \<open>simp add: route_templates_def\<close>)
  note named = okX_named_passes [OF assms(1,2) this]
  have "okX (forX (\<lambda>r. thenX (fill_label (of_nat (length ts)) r False (xr_labelNormal r))
                      (fill_label (of_nat (length ts)) r True (xr_labelFallback r))) rs) t
          (\<lambda>_ s'. v_routes (xs_val s') = numbered a ts \<and> v_routesSize (xs_val s') = of_nat (length ts))
          memory_error" if "filling a ts (label_templates rs) t" for t
    by (rule okX_mono [OF okX_label_passes [OF assms(2), where rest = "[]" and a = a and rs = rs]])
      (use that in \<open>auto simp: filling_def\<close>)
  then show ?thesis by (intro okX_mono [OF named]) auto
qed

lemma okX_ParseRoutes:
  assumes "names_ok (xs_routes s)" "length (route_templates (xs_routes s)) < 2 ^ 16"
    "v_routesSize (xs_val s) = 0" "v_routes (xs_val s) = []"
  shows "okX ParseRoutes s
     (\<lambda>_ s'. v_routes (xs_val s') = numbered (xs_autoRouteId s) (route_templates (xs_routes s)) \<and>
        v_routesSize (xs_val s') = of_nat (length (route_templates (xs_routes s)))) memory_error"
proof -
  obtain rs where rs: "xs_routes s = rs" by simp
  obtain ts where ts: "ts = route_templates rs" by simp
  have amount: "count_labels rs (of_nat (length (named_templates rs))) = (of_nat (length ts) :: u16)"
    by (simp add: count_labels_eq ts route_templates_def)
  have len: "unat (of_nat (length ts) :: u16) = length ts"
    using assms(2) by (simp add: unat_of_nat ts rs)
  then have zero: "(of_nat (length ts) :: u16) = 0 \<longleftrightarrow> ts = []" by (metis length_0_conv unat_eq_zero)
  show ?thesis
  proof (cases "ts = []")
    case True
    then show ?thesis
      using assms(3,4) by (simp add: ParseRoutes_def rs count_named_eq [OF assms(1) [unfolded rs]] amount
          flip: ts)
  next
    case False
    note parts = okX_passes [where a = "xs_autoRouteId s", OF assms(1) [unfolded rs] assms(2) [unfolded rs, folded ts] ts]
    obtain c t where m: "MCalloc (length ts) 1 s = (c, t)" by (cases "MCalloc (length ts) 1 s")
    then have t: "xs_val t = xs_val s" "xs_autoRouteId t = xs_autoRouteId s" "calloc_ok t = calloc_ok s"
      by (metis MCalloc_frame MCalloc_fails snd_conv)+
    have none: "c = None \<Longrightarrow> \<exists>b. \<not> calloc_ok s b"
      using MCalloc_fails(2) [of "length ts" 1 s] m False by simp
    show ?thesis
      using False m t none parts assms(3)
      by (cases c) (simp_all add: ParseRoutes_def rs count_named_eq [OF assms(1) [unfolded rs]] amount len zero
          need_memory_error_def needX_def okX_liftX memory_error_def del: forX.simps One_nat_def flip: ts)
  qed
qed

section \<open>The property\<close>

text \<open>
  C14: \<open>ParseRoutes\<close> builds exactly the routes of the configuration: one for every talker and
  listener with the same route name, in the order of the talkers and then of the listeners, and
  after these one for every connection label. A route without an identifier of its own gets the next
  automatic one, in this order. The count that the array was allocated for is the number of routes
  filled in, so nothing is written outside it, and the pass only fails when memory is short.
\<close>

theorem routes_as_comprehension:
  assumes "\<forall>r \<in> set (xs_routes s). length (xr_routeName r) < NAME_LEN"
    and "length (named_templates (xs_routes s) @ label_templates (xs_routes s)) < 2 ^ 16"
    and "v_routesSize (xs_val s) = 0" and "v_routes (xs_val s) = []"
  shows "okX ParseRoutes s
     (\<lambda>_ s'. v_routes (xs_val s') = numbered (xs_autoRouteId s)
          (named_templates (xs_routes s) @ label_templates (xs_routes s)) \<and>
        unat (v_routesSize (xs_val s')) = length (v_routes (xs_val s')))
     (\<lambda>e s'. e = Parse_MemoryError \<and> (\<exists>n. \<not> calloc_ok s' n))"
  by (rule okX_mono [OF okX_ParseRoutes])
    (use assms in \<open>auto simp: names_ok_def route_templates_def memory_error_def unat_of_nat
       simp del: length_append\<close>)

definition sample_route :: "bool \<Rightarrow> string \<Rightarrow> u16 \<Rightarrow> UcsXmlRoute" where
  "sample_route talker name label = \<lparr>xr_isTalker = talker, xr_isActive = True, xr_routeId = 0xFFFF,
     xr_routeName = name, xr_labelNormal = label, xr_labelFallback = 0,
     xr_ep = \<lparr>ep_type = (if talker then UCS_RM_EP_SOURCE else UCS_RM_EP_SINK), ep_jobs = None, ep_node = 0\<rparr>\<rparr>"

definition sample_routes :: "UcsXmlRoute list" where
  "sample_routes = [sample_route True ''in'' 0, sample_route False ''in'' 0, sample_route False [] 0x84]"

theorem routes_as_comprehension_witness:
  "okX ParseRoutes (empty_state\<lparr>xs_routes := sample_routes, xs_autoRouteId := 0x8000\<rparr>)
     (\<lambda>_ s'. map rt_id (v_routes (xs_val s')) = [0x8000, 0x8001] \<and>
        map rt_label (v_routes (xs_val s')) = [0, 0x84]) (\<lambda>e _. e = Parse_MemoryError)"
proof -
  let ?s = "empty_state\<lparr>xs_routes := sample_routes, xs_autoRouteId := 0x8000\<rparr>"
  have "named_templates sample_routes @ label_templates sample_routes =
      [named_template (sample_routes ! 0) (sample_routes ! 1), hd (label_template (sample_routes ! 2) False 0x84)]"
    by (simp add: sample_routes_def sample_route_def named_templates_def label_templates_def label_template_def
        linked_def)
  note ts = this [unfolded label_template_def named_template_def]
  have "okX ParseRoutes ?s
     (\<lambda>_ s'. v_routes (xs_val s') = numbered (xs_autoRouteId ?s)
          (named_templates (xs_routes ?s) @ label_templates (xs_routes ?s)) \<and>
        unat (v_routesSize (xs_val s')) = length (v_routes (xs_val s')))
     (\<lambda>e s'. e = Parse_MemoryError \<and> (\<exists>n. \<not> calloc_ok s' n))"
    by (rule routes_as_comprehension)
      (use ts in \<open>simp_all add: empty_state_def zero_val_def\<close>,
       simp add: sample_routes_def sample_route_def NAME_LEN_def)
  then show ?thesis
    by (rule okX_mono)
      (use ts in \<open>auto simp: sample_routes_def sample_route_def chosen_id_def ROUTE_INVALID_ID_def zero_route_def
          empty_state_def\<close>)
qed

end
