(* ===== verification/Xml_Safe.thy ===== *)
theory Xml_Safe
  imports Xml_Release Xml_Route_Props
begin

text \<open>
  Freedom from undefined behaviour: the calls of the parser are safe when what they call is, and
  the allocator and the messages leave alone what is read of the document. The locale
  \<open>doc_inv\<close> is the counterpart of \<open>parse_inv\<close>: the contract of an invariant that does not depend
  on the allocator and the messages, which every allocating or reporting function keeps.
\<close>

section \<open>Safe computations\<close>

lemma safeX_callX [safe]: "safeX I m anything \<Longrightarrow> safeX I (callX m) anything"
  by (auto simp: safeX_def elim!: okX_mono)

lemma safeX_ignoreX [safe]: "safeX I m anything \<Longrightarrow> safeX I (ignoreX m) anything"
  by (auto simp: safeX_def elim!: okX_mono)

lemma safeX_result_of [safe]: "safeX I m anything \<Longrightarrow> safeX I (result_of m) anything"
  by (auto simp: safeX_def elim!: okX_mono)

section \<open>The contract\<close>

text \<open>What the allocator and the messages leave alone.\<close>

definition same_doc :: "xst \<Rightarrow> xst \<Rightarrow> bool" where
  "same_doc s s' \<longleftrightarrow> xs_res s' = xs_res s \<and> xs_autoRouteId s' = xs_autoRouteId s \<and> xs_routes s' = xs_routes s \<and>
     xs_scripts s' = xs_scripts s \<and> xs_drivers s' = xs_drivers s \<and> xs_node s' = xs_node s \<and>
     xs_con s' = xs_con s \<and> xs_val s' = xs_val s"

lemma same_doc_refl [simp]: "same_doc s s"
  by (simp add: same_doc_def)

lemma same_doc_trans: "same_doc s t \<Longrightarrow> same_doc t u \<Longrightarrow> same_doc s u"
  by (simp add: same_doc_def)

lemma same_doc_log [simp]: "same_doc s (UcsXml_CB_OnError f n a s)" "same_doc s (ASSERT_FALSE f p s)"
  "same_doc s (calloc_NULL s)"
  by (simp_all add: same_doc_def UcsXml_CB_OnError_def ASSERT_FALSE_def calloc_NULL_def)

lemma same_doc_logs: "logs_only m \<Longrightarrow> same_doc s (snd (m s))"
  unfolding logs_only_def by (erule allE [of _ s]) (auto simp: same_doc_def)

lemma same_doc_MCalloc: "same_doc s (snd (MCalloc n k s))"
  by (auto simp: same_doc_def MCalloc_def calloc_def Let_def split: option.splits)

locale doc_inv =
  fixes I :: "xst \<Rightarrow> bool"
  assumes same_doc: "I s \<Longrightarrow> same_doc s s' \<Longrightarrow> I s'"

lemma same_doc_alloc_cells: "same_doc s (snd (alloc_cells n s))"
proof (induction n arbitrary: s)
  case (Suc n)
  obtain c t where m: "MCalloc 1 1 s = (c, t)" by (cases "MCalloc 1 1 s")
  with same_doc_MCalloc [of s 1 1] have "same_doc s t" by simp
  with m Suc.IH [of t] show ?case
    by (cases c) (auto intro: same_doc_trans)
qed simp

lemma same_doc_jobs:
  "same_doc s (snd (GetJobList jobs s))" "same_doc s (snd (DeepCopyJobList jobs s))"
proof -
  obtain c t where m: "MCalloc (length jobs + 1) 1 s = (c, t)" by (cases "MCalloc (length jobs + 1) 1 s")
  with same_doc_MCalloc [of s "length jobs + 1" 1] have "same_doc s t" by simp
  with m show "same_doc s (snd (GetJobList jobs s))"
    by (cases c) (auto simp: GetJobList_def intro: same_doc_trans)
  show "same_doc s (snd (DeepCopyJobList jobs s))"
    using same_doc_alloc_cells [of s "length jobs"] by (auto simp: DeepCopyJobList_def split: prod.splits)
qed

lemma same_doc_calloc: "same_doc s (snd (calloc s))"
  by (simp add: same_doc_def calloc_def Let_def)

lemma GetPayload_keeps:
  fixes J :: "xst \<Rightarrow> bool"
  assumes "J s" and log: "\<And>s es. J s \<Longrightarrow> J (s\<lparr>xs_errors := es\<rparr>)" and calloc: "\<And>s. J s \<Longrightarrow> J (snd (calloc s))"
    and MCalloc: "\<And>s n k. J s \<Longrightarrow> J (snd (MCalloc n k s))" and drop: "\<And>s l. J s \<Longrightarrow> J (s\<lparr>live := l\<rparr>)"
  shows "J (snd (GetPayload e name off m s))"
proof -
  obtain v0 t where g: "GetString e name m s = (v0, t)" by (cases "GetString e name m s")
  have "logs_only (GetString e name m :: xst \<Rightarrow> _)" by simp
  then obtain es where "t = s\<lparr>xs_errors := es\<rparr>" unfolding logs_only_def using g by (metis snd_conv)
  then have t: "J t" using assms(1) by (simp add: log)
  show ?thesis
  proof (cases "v0 = None \<or> v0 = Some []")
    case True
    then show ?thesis using t by (auto simp: GetPayload_def g)
  next
    case False
    then obtain w where w: "v0 = Some w" "w \<noteq> []" by auto
    obtain b u where b: "calloc t = (b, u)" by (cases "calloc t")
    have u: "J u" using calloc [OF t] b by simp
    let ?n = "unat off + Suc (length w) div 3"
    obtain p v where p: "MCalloc ?n 1 u = (p, v)" by (cases "MCalloc ?n 1 u")
    have v: "J v" using MCalloc [OF u, of ?n 1] p by simp
    obtain r x where loop: "payload_loop (Suc (length w) div 3) (unat off) (tokens w) (replicate ?n 0) 0 v = (r, x)"
      by (metis surj_pair)
    have x: "J x" using payload_loop_logs [of "Suc (length w) div 3" "unat off" "tokens w" "replicate ?n 0" 0 v] loop
      by (auto simp: log [OF v])
    show ?thesis
      using w b u p v loop x
      by (cases b; cases p; cases r) (auto simp: GetPayload_def g Let_def intro: drop)
  qed
qed

lemma same_doc_GetPayload: "same_doc s (snd (GetPayload e name off m s))"
proof (rule GetPayload_keeps [where J = "same_doc s"])
  fix t n k assume t: "same_doc s t"
  show "same_doc s (snd (calloc t))" "same_doc s (snd (MCalloc n k t))"
    using t same_doc_calloc [of t] same_doc_MCalloc [of t n k] by (auto intro: same_doc_trans)
qed (simp_all add: same_doc_def)

text \<open>Whether allocations succeed never changes.\<close>

interpretation xml_alloc: script_inv "\<lambda>s. calloc_ok s = f" for f
proof
  fix s :: xst and n k assume "calloc_ok s = f"
  then show "calloc_ok (snd (MCalloc n k s)) = f" by (simp add: MCalloc_fails)
next
  fix s :: xst and e name off m assume "calloc_ok s = f"
  then show "calloc_ok (snd (GetPayload e name off m s)) = f"
    by (rule GetPayload_keeps) (simp_all add: MCalloc_fails, simp add: calloc_def Let_def)
qed simp

lemma payload_loop_length: "payload_loop l off ts p n s = (Some (q, k), s') \<Longrightarrow> length q = length p"
  by (induction ts arbitrary: p n) (auto split: if_splits)

text \<open>A payload that is not empty has room for the header.\<close>

lemma GetPayload_room:
  assumes "fst (GetPayload e name off m s) = Some (p, k)" "map_of (elem_attrs e) name \<noteq> Some []"
  shows "\<exists>q. p = Some q \<and> unat off \<le> length q"
  using assms
  by (auto simp: GetPayload_def GetString_def Let_def split: option.splits prod.splits if_splits
      dest!: payload_loop_length)

section \<open>Functions that only allocate and report\<close>

text \<open>The actions whose payload must not be empty.\<close>

definition payload_ok :: "mxml_node_t \<Rightarrow> bool" where
  "payload_ok act \<longleftrightarrow>
     (is_named ''GPIOPortPinMode'' act \<longrightarrow> map_of (elem_attrs act) ''PinConfiguration'' \<noteq> Some []) \<and>
     (is_named ''I2CPortWrite'' act \<longrightarrow> map_of (elem_attrs act) ''Payload'' \<noteq> Some [])"

lemma put_header_ok: "length h \<le> length q \<Longrightarrow> okR (put_header h (Some q)) anything"
  by (simp add: put_header_def)

context doc_inv
begin

lemma safe_log [safe]: "safeX I (errorX f n a) anything" "safeX I (RETURN_ASSERT r reason) P"
  by (auto simp: safeX_def intro: same_doc)

lemma safe_lift: "(\<And>s. same_doc s (snd (m s))) \<Longrightarrow> (\<And>s x. fst (m s) = x \<Longrightarrow> P x) \<Longrightarrow> safeX I (liftX m) P"
  by (rule safeX_liftX) (auto intro: same_doc)

lemma safe_needX:
  assumes "\<And>s. same_doc s (snd (m s))" "\<And>s x. fst (m s) = Some x \<Longrightarrow> P x"
  shows "safeX I (needX m r reason) P"
  unfolding needX_def
  by (rule safeX_bind [OF safe_lift [where P = "\<lambda>x. \<forall>v. x = Some v \<longrightarrow> P v"]])
    (use assms in \<open>auto intro!: safe\<close>)

lemma safe_logs [safe]:
  "logs_only m \<Longrightarrow> safeX I (liftX m) anything" "logs_only m \<Longrightarrow> safeX I (needX m r reason) anything"
  "logs_only m \<Longrightarrow> safeX I (need_attr m) anything"
  unfolding need_attr_def by (intro safe_needX safe_lift same_doc_logs; simp)+

lemma safe_memory [safe]:
  "safeX I (liftX (MCalloc n k)) anything" "safeX I (needX (MCalloc n k) r reason) anything"
  "safeX I (need_memory_error (MCalloc n k)) anything"
  "safeX I (needX (GetJobList jobs) r reason) anything" "safeX I (liftX (DeepCopyJobList jobs)) anything"
  "safeX I (updX calloc_NULL) anything"
  unfolding need_memory_error_def
  by (intro safe_needX safe_lift safeX_updX same_doc_MCalloc same_doc_jobs; auto intro: same_doc)+

lemma safe_pure: "(\<And>y. x = Some y \<Longrightarrow> P y) \<Longrightarrow> safeX I (needX (\<lambda>s. (x, s)) r reason) P"
  by (rule safe_needX) simp_all

lemma safe_payload [safe]: "safeX I (needX (GetPayload e name off m) r reason) anything"
  by (rule safe_needX [OF same_doc_GetPayload]) simp

lemma safe_header:
  assumes "map_of (elem_attrs e) name \<noteq> Some []" "unat off = length h" "\<And>p k. safeX I (f p k) P"
  shows "safeX I (bindX (needX (GetPayload e name off m) r reason)
     (\<lambda>(payload, k). bindX (valX (put_header h payload)) (\<lambda>p. f p k))) P"
proof (rule safeX_bind)
  let ?Q = "\<lambda>(p, k :: u8). \<exists>q. p = Some q \<and> unat off \<le> length (q :: u8 list)"
  show "safeX I (needX (GetPayload e name off m) r reason) ?Q"
    by (rule safe_needX [OF same_doc_GetPayload]) (use GetPayload_room [OF _ assms(1)] in auto)
  show "safeX I ((\<lambda>(payload, k). bindX (valX (put_header h payload)) (\<lambda>p. f p k)) x) P" if "?Q x" for x
    using that assms(2,3)
    by (auto intro!: safeX_bindX safeX_valX put_header_ok split: prod.splits)
qed

lemma safe_fill [safe]: "safeX I (FillScriptInitialValues True) anything" "safeX I (need_fill True) anything"
  "safeX I (need_memory n) anything"
  unfolding need_fill_def FillScriptInitialValues_def need_memory_def
  by (intro safe safeX_valX; simp)+

end

context doc_inv
begin

text \<open>Every action is safe when there is an element of the script for it.\<close>

lemma safe_action:
  assumes "script_action (elem_name act) = Some parse" "payload_ok act" "act \<noteq> Other"
  shows "safeX I (parse act True pause) anything"
proof -
  have nam: "elem_name act = n \<Longrightarrow> is_named n act" for n using assms(3) by (cases act) simp_all
  have "safeX I (ParseScriptMsgSend act True pause) anything"
    unfolding ParseScriptMsgSend_def by (intro safe logs_only_get logs_only_numbers) simp
  moreover have "safeX I (ParseScriptGpioPortCreate act True pause) anything"
    "safeX I (ParseScriptGpioPinState act True pause) anything" "safeX I (ParseScriptPortCreate act True pause) anything"
    "safeX I (ParseScriptPortRead act True pause) anything"
    unfolding ParseScriptGpioPortCreate_def ParseScriptGpioPinState_def ParseScriptPortCreate_def
      ParseScriptPortRead_def Let_def
    by (intro safe logs_only_get logs_only_numbers; simp)+
  moreover have "safeX I (ParseScriptGpioPinMode act True pause) anything" if "elem_name act = ''GPIOPortPinMode''"
    unfolding ParseScriptGpioPinMode_def
    by (intro safe_header safe) (use assms(2) nam [OF that] in \<open>simp_all add: payload_ok_def PORT_HANDLE_OFFSET_def\<close>)
  moreover have "safeX I (ParseScriptPortWrite act True pause) anything" if "elem_name act = ''I2CPortWrite''"
  proof -
    have tail: "safeX I (bindX (needX (GetPayload act ''Payload'' HEADER_OFFSET True) r t) (\<lambda>(payload, payloadLength).
        thenX (need_fill True) (bindX (valX (put_header (h payloadLength) payload)) (\<lambda>p. g p payloadLength)))) anything"
      if "\<And>k. length (h k) = 8" "\<And>p k. safeX I (g p k) anything" for r t g and h :: "u8 \<Rightarrow> u8 list"
    proof (rule safeX_bind)
      let ?Q = "\<lambda>(p, k :: u8). \<exists>q. p = Some q \<and> unat HEADER_OFFSET \<le> length (q :: u8 list)"
      show "safeX I (needX (GetPayload act ''Payload'' HEADER_OFFSET True) r t) ?Q"
        by (rule safe_needX [OF same_doc_GetPayload])
          (use GetPayload_room assms(2) nam [OF \<open>elem_name act = ''I2CPortWrite''\<close>] in \<open>auto simp: payload_ok_def\<close>)
    qed (use that in \<open>auto intro!: safe safeX_valX put_header_ok simp: HEADER_OFFSET_def split: prod.splits\<close>)
    show ?thesis
      unfolding ParseScriptPortWrite_def Let_def
      by (intro safe tail logs_only_get logs_only_numbers) simp_all
  qed
  ultimately show ?thesis
    using assms(1) by (auto simp: script_action_def split: if_splits)
qed

end

end
