(* ===== verification/Xml_Script_Props.thy ===== *)
theory Xml_Script_Props
  imports Xml_Safe
begin

text \<open>
  Scripts: the array of messages is allocated for the actions behind the first child, so that a
  script whose first child is an action never fits; all other scripts fit, and go to exactly the
  nodes that asked for them. The last section composes the payload parser with the layout of an
  I2C write.
\<close>

section \<open>Counting the actions\<close>

abbreviation is_action :: "mxml_node_t \<Rightarrow> bool" where
  "is_action \<equiv> is_one_of ALL_SCRIPTS_NO_PAUSE"

definition actions :: "cursor list \<Rightarrow> nat" where
  "actions cs = length (filter (\<lambda>c. is_action (hd c)) cs)"

lemma action_is_step: "is_action n \<Longrightarrow> is_one_of ALL_SCRIPTS n"
  by (auto simp: is_one_of_def ALL_SCRIPTS_NO_PAUSE_def ALL_SCRIPTS_def split: mxml_node_t.splits)

lemma actions_siblings: "actions (siblings (is_one_of ALL_SCRIPTS) c) = length (siblings is_action c)"
  by (induction c) (auto simp: actions_def dest: action_is_step)

lemma script_action_iff: "is_one_of ALL_SCRIPTS n \<Longrightarrow> is_action n \<longleftrightarrow> script_action (elem_name n) \<noteq> None"
  by (auto simp: is_one_of_def ALL_SCRIPTS_NO_PAUSE_def ALL_SCRIPTS_def script_action_def split: mxml_node_t.splits)

lemma script_pause: "is_one_of ALL_SCRIPTS n \<Longrightarrow> \<not> is_action n \<Longrightarrow> elem_name n = ''Pause''"
  by (auto simp: is_one_of_def ALL_SCRIPTS_NO_PAUSE_def ALL_SCRIPTS_def split: mxml_node_t.splits)

section \<open>A script that does not fit\<close>

text \<open>What is true of the value of a computation that ends normally.\<close>

definition endsX :: "('a, 's) xp \<Rightarrow> ('a \<Rightarrow> bool) \<Rightarrow> bool" where
  "endsX m P \<longleftrightarrow> (\<forall>s x s'. m s = Inr (Inr x, s') \<longrightarrow> P x)"

lemma endsX_weaken: "endsX m P \<Longrightarrow> (\<And>x. P x \<Longrightarrow> Q x) \<Longrightarrow> endsX m Q"
  by (auto simp: endsX_def)

lemma endsX_bindX: "endsX m P \<Longrightarrow> (\<And>x. P x \<Longrightarrow> endsX (f x) Q) \<Longrightarrow> endsX (bindX m f) Q"
  by (fastforce simp: endsX_def bindX_def bindR_def split: sum.splits prod.splits)

lemma endsX_second: "(\<And>x. endsX (f x) Q) \<Longrightarrow> endsX (bindX m f) Q"
  by (rule endsX_bindX [where P = "\<lambda>_. True"]) (simp_all add: endsX_def)

lemma endsX_then_second: "endsX n Q \<Longrightarrow> endsX (thenX m n) Q"
  unfolding thenX_def by (rule endsX_second)

lemma endsX_retX: "P x \<Longrightarrow> endsX (retX x) P"
  by (simp add: endsX_def retX_def)

lemma endsX_foldX:
  "P a \<Longrightarrow> (\<And>x a. x \<in> set xs \<Longrightarrow> P a \<Longrightarrow> endsX (f x a) P) \<Longrightarrow> endsX (foldX f xs a) P"
  by (induction xs arbitrary: a) (auto intro: endsX_retX endsX_bindX)

text \<open>Every action writes to its element before it ends.\<close>

lemma endsX_fill: "endsX (FillScriptInitialValues slot) (\<lambda>_. slot)" "endsX (need_fill slot) (\<lambda>_. slot)"
proof -
  show fill: "endsX (FillScriptInitialValues slot) (\<lambda>_. slot)"
    unfolding FillScriptInitialValues_def thenX_def
    by (intro endsX_second endsX_bindX [where P = "\<lambda>_. slot"]) (auto simp: endsX_def valX_def)
  show "endsX (need_fill slot) (\<lambda>_. slot)"
    unfolding need_fill_def by (rule endsX_bindX [OF fill]) (simp add: endsX_def)
qed

lemma endsX_then_fill: "endsX (thenX (need_fill slot) m) (\<lambda>_. slot)"
  unfolding thenX_def by (rule endsX_bindX [OF endsX_fill(2)]) (simp add: endsX_def)

lemma action_needs_slot: "script_action nam = Some parse \<Longrightarrow> endsX (parse act slot pause) (\<lambda>_. slot)"
proof -
  have "endsX (ParseScriptMsgSend act slot pause) (\<lambda>_. slot)"
    unfolding ParseScriptMsgSend_def by (rule endsX_bindX [OF endsX_fill(1)]) (simp add: endsX_def)
  moreover have "endsX (ParseScriptGpioPortCreate act slot pause) (\<lambda>_. slot)"
    "endsX (ParseScriptGpioPinMode act slot pause) (\<lambda>_. slot)"
    "endsX (ParseScriptGpioPinState act slot pause) (\<lambda>_. slot)"
    "endsX (ParseScriptPortCreate act slot pause) (\<lambda>_. slot)"
    unfolding ParseScriptGpioPortCreate_def ParseScriptGpioPinMode_def ParseScriptGpioPinState_def
      ParseScriptPortCreate_def by (rule endsX_then_fill)+
  moreover have "endsX (ParseScriptPortWrite act slot pause) (\<lambda>_. slot)"
    unfolding ParseScriptPortWrite_def Let_def split_beta by (intro endsX_second endsX_then_fill)
  moreover have "endsX (ParseScriptPortRead act slot pause) (\<lambda>_. slot)"
    unfolding ParseScriptPortRead_def Let_def by (intro endsX_second endsX_then_fill)
  ultimately show "script_action nam = Some parse \<Longrightarrow> endsX (parse act slot pause) (\<lambda>_. slot)"
    by (auto simp: script_action_def split: if_splits)
qed

lemma endsX_steps:
  assumes "\<forall>c \<in> set cs. is_one_of ALL_SCRIPTS (hd c)" "k \<le> length script"
  shows "endsX (foldX script_step cs (script, k, pause))
     (\<lambda>(script', k', _). length script' = length script \<and> k' = k + actions cs \<and> k' \<le> length script)"
  using assms
proof (induction cs arbitrary: script k pause)
  case Nil
  then show ?case by (simp add: actions_def endsX_retX)
next
  case (Cons c cs)
  let ?k = "if is_action (hd c) then Suc k else k"
  have "endsX (script_step c (script, k, pause))
      (\<lambda>(script', k', _). length script' = length script \<and> k' = ?k \<and> k' \<le> length script)"
  proof (cases "is_action (hd c)")
    case True
    then obtain parse where parse: "script_action (elem_name (hd c)) = Some parse"
      using Cons.prems(1) script_action_iff by force
    then show ?thesis
      using True unfolding script_step_def
      by (simp add: Let_def, intro endsX_bindX [OF action_needs_slot [OF parse]]) (auto intro: endsX_retX)
  next
    case False
    then have pause: "elem_name (hd c) = ''Pause''" using Cons.prems(1) by (intro script_pause) simp_all
    then have none: "script_action (elem_name (hd c)) = None" by (simp add: script_action_def)
    show ?thesis
      using Cons.prems(2) False
      by (simp add: script_step_def none pause del: prod.case_distrib, simp add: none [unfolded pause],
          intro endsX_second endsX_retX) simp
  qed
  then show ?case
    unfolding foldX.simps
  proof (rule endsX_bindX)
    fix a :: "NsScript list \<times> nat \<times> u16"
    assume "case a of (script', k', _) \<Rightarrow> length script' = length script \<and> k' = ?k \<and> k' \<le> length script"
    then obtain script' :: "NsScript list" and pause' where a: "a = (script', ?k, pause')" "length script' = length script" "?k \<le> length script"
      by (cases a) auto
    have "?k + actions cs = k + actions (c # cs)" by (simp add: actions_def)
    with Cons.IH [of ?k script' pause'] Cons.prems(1) a
    show "endsX (foldX script_step cs a) (\<lambda>(script', k', _). length script' = length script \<and>
        k' = k + actions (c # cs) \<and> k' \<le> length script)" by simp
  qed
qed

lemma endsX_GetCountArray:
  "endsX (liftX (GetCountArray (n # ns) names mandatory))
     (\<lambda>x. x = None \<or> x = Some (word_of_nat (length (siblings (is_one_of names) ns))))"
  by (auto simp: endsX_def liftX_def GetCountArray_def Let_def)

lemma endsX_stop: "endsX (RETURN_ASSERT r reason) P"
  by (simp add: endsX_def RETURN_ASSERT_def thenX_def bindX_def stopX_def errorX_def updX_def)

text \<open>
  A script whose first child is an action, with no white space before it, is never parsed with
  success, on whatever state: the array has one element for every action but that one, since
  \<open>GetCountArray\<close> begins to count behind the first child, while the actions are
  read from the first child on. The last action is written behind the end of the array.
\<close>

theorem first_action_overflows:
  assumes "child scr = first # rest" and "is_one_of ALL_SCRIPTS_NO_PAUSE first" and "length rest < 2 ^ 32"
  shows "ParseScript scr s \<noteq> Inr (Inr (), s')"
proof -
  have steps: "siblings (is_one_of ALL_SCRIPTS) (first # rest) =
      (first # rest) # siblings (is_one_of ALL_SCRIPTS) rest"
    using action_is_step [OF assms(2)] by simp
  have "length (siblings is_action rest) \<le> length rest"
    by (induction rest) auto
  then have len: "unat (word_of_nat (length (siblings is_action rest)) :: u32) = length (siblings is_action rest)"
    using assms(3) by (simp add: unat_of_nat)
  have heads: "\<forall>c \<in> set (siblings (is_one_of ALL_SCRIPTS) (first # rest)). is_one_of ALL_SCRIPTS (hd c)"
    using siblings_head by fastforce
  have many: "actions (siblings (is_one_of ALL_SCRIPTS) (first # rest)) = Suc (length (siblings is_action rest))"
    using assms(2) unfolding actions_siblings by simp
  have "endsX (ParseScript scr) (\<lambda>_. False)"
  proof -
    have count: "endsX (needX (GetCountArray (first # rest) ALL_SCRIPTS_NO_PAUSE True) r t)
        (\<lambda>n. unat n = length (siblings is_action rest))" for r t
      unfolding needX_def
      by (rule endsX_bindX [OF endsX_GetCountArray]) (use len in \<open>auto split: option.splits intro: endsX_retX endsX_stop\<close>)
    have first: "endsX (needX (\<lambda>s. (GetElementArray (first # rest) ALL_SCRIPTS False, s)) r t)
        (\<lambda>p. snd p = first # rest)" for r t
      using action_is_step [OF assms(2)]
      by (auto simp: needX_def endsX_def bindX_def liftX_def GetElementArray_def retX_def)
    show ?thesis
      unfolding ParseScript_def assms(1)
    proof (rule endsX_bindX [OF count], rule endsX_second, rule endsX_bindX [OF first])
      fix n :: u32 and p :: "string \<times> cursor"
      assume "unat n = length (siblings is_action rest)" "snd p = first # rest"
      then have "endsX (foldX script_step (siblings (is_one_of ALL_SCRIPTS) (snd p))
          (replicate (unat n) zero_script, 0, 0)) (\<lambda>_. False)"
        unfolding \<open>snd p = first # rest\<close> using many
        by - (rule endsX_weaken [OF endsX_steps [OF heads, of 0 "replicate (unat n) zero_script" 0]],
          auto simp del: siblings.simps)
      then show "endsX (case p of (_, act) \<Rightarrow>
          bindX (foldX script_step (siblings (is_one_of ALL_SCRIPTS) act)
              (replicate (unat n) zero_script, 0, 0)) (\<lambda>(script, cnt, _).
     bindX (needX (GetString scr ''Name'' True) Parse_XmlError missing) (\<lambda>txt.
     bindX (getX (\<lambda>s. length (xs_scripts s))) (\<lambda>n.
     bindX (foldX (script_target txt script (of_nat cnt)) [0..<n] False) (\<lambda>found.
     if found then retX ()
     else thenX (errorX (''Script defined:'' @ quoted ''%s'' @ '', which was never referenced'') 1 [XStr txt])
            (RETURN_ASSERT Parse_XmlError ''Unused script'')))))) (\<lambda>_. False)"
        by (cases p) (simp, erule endsX_bindX, simp)
    qed
  qed
  then show ?thesis by (simp add: endsX_def)
qed

definition dense_script :: mxml_node_t where
  "dense_script = Element ''Script'' [(''Name'', ''s'')]
     [Element ''I2CPortCreate'' [(''Speed'', ''FastMode'')] [], Element ''GPIOPortCreate'' [(''DebounceTime'', ''20'')] []]"

theorem first_action_overflows_witness:
  "ParseScript dense_script empty_state \<noteq> Inr (Inr (), empty_state) \<and>
     (case ParseScript dense_script empty_state of Inl f \<Rightarrow> f = OutOfBounds | Inr _ \<Rightarrow> False)"
proof
  show "ParseScript dense_script empty_state \<noteq> Inr (Inr (), empty_state)"
    by (rule first_action_overflows [where first = "Element ''I2CPortCreate'' [(''Speed'', ''FastMode'')] []"
          and rest = "[Element ''GPIOPortCreate'' [(''DebounceTime'', ''20'')] []]"])
      (simp_all add: dense_script_def is_one_of_def ALL_SCRIPTS_NO_PAUSE_def)
  show "case ParseScript dense_script empty_state of Inl f \<Rightarrow> f = OutOfBounds | Inr _ \<Rightarrow> False"
    by code_simp
qed

section \<open>A script that fits\<close>

interpretation unchanged: doc_inv "same_doc s" for s
  by unfold_locales (rule same_doc_trans)

definition script_fits :: "mxml_node_t \<Rightarrow> bool" where
  "script_fits scr \<longleftrightarrow> \<not> is_action (hd (child scr)) \<and> length (child scr) < 2 ^ 32 \<and>
     (\<forall>act \<in> set (child scr). payload_ok act)"

definition refs_ok :: "xst \<Rightarrow> bool" where
  "refs_ok s \<longleftrightarrow> (\<forall>sc \<in> set (xs_scripts s). length (sc_scriptName sc) < NAME_LEN \<and>
     (\<exists>k. sc_node sc = Some k \<and> k < length (v_nodes (xs_val s))))"

definition wants :: "string \<Rightarrow> UcsXmlScript \<Rightarrow> bool" where
  "wants nam sc \<longleftrightarrow> sc_singleShot sc \<or> sc_scriptName sc = nam"

text \<open>The nodes that a list of references gives a script to.\<close>

definition given :: "string \<Rightarrow> NsScript list \<Rightarrow> u32 \<Rightarrow> UcsXmlScript list \<Rightarrow> XNode list \<Rightarrow> XNode list" where
  "given nam script cnt scs nds = map (\<lambda>(k, nod). if \<exists>sc \<in> set scs. wants nam sc \<and> sc_node sc = Some k
       then nod\<lparr>xn_script := Some script, xn_script_size := cnt\<rparr> else nod) (enumerate 0 nds)"

definition marked :: "string \<Rightarrow> UcsXmlScript \<Rightarrow> UcsXmlScript" where
  "marked nam sc = (if wants nam sc then sc\<lparr>sc_inUse := True\<rparr> else sc)"

lemma length_given [simp]: "length (given nam script cnt scs nds) = length nds"
  by (simp add: given_def)

lemma nth_given: "k < length nds \<Longrightarrow> given nam script cnt scs nds ! k =
   (if \<exists>sc \<in> set scs. wants nam sc \<and> sc_node sc = Some k
    then (nds ! k)\<lparr>xn_script := Some script, xn_script_size := cnt\<rparr> else nds ! k)"
  by (simp add: given_def nth_enumerate_eq)

lemma given_snoc:
  assumes "sc_node sc = Some k" "k < length nds"
  shows "given nam script cnt (scs @ [sc]) nds =
    (if wants nam sc
     then (given nam script cnt scs nds)
       [k := (given nam script cnt scs nds ! k)\<lparr>xn_script := Some script, xn_script_size := cnt\<rparr>]
     else given nam script cnt scs nds)"
  by (rule nth_equalityI) (use assms in \<open>auto simp: nth_given nth_list_update\<close>)

text \<open>The loop over the references, after the first \<open>i\<close> of them.\<close>

definition targeting ::
  "string \<Rightarrow> NsScript list \<Rightarrow> u32 \<Rightarrow> xst \<Rightarrow> nat \<Rightarrow> bool \<Rightarrow> xst \<Rightarrow> bool" where
  "targeting nam script cnt s i found t \<longleftrightarrow>
     xs_scripts t = map (marked nam) (take i (xs_scripts s)) @ drop i (xs_scripts s) \<and>
     xs_val t = (xs_val s)\<lparr>v_nodes := given nam script cnt (take i (xs_scripts s)) (v_nodes (xs_val s))\<rparr> \<and>
     xs_drivers t = xs_drivers s \<and> found = (\<exists>sc \<in> set (take i (xs_scripts s)). wants nam sc)"

lemma okX_script_target:
  assumes "targeting nam script cnt s i found t" "refs_ok s" "i < length (xs_scripts s)"
  shows "okX (script_target nam script cnt i found) t (targeting nam script cnt s (Suc i)) (\<lambda>_ _. False)"
proof -
  let ?sc = "xs_scripts s ! i"
  obtain k where k: "sc_node ?sc = Some k" "k < length (v_nodes (xs_val s))" "length (sc_scriptName ?sc) < NAME_LEN"
    using assms(2,3) nth_mem unfolding refs_ok_def by blast
  have now: "xs_scripts t ! i = ?sc"
    using assms(1,3) by (simp add: targeting_def nth_append)
  have match: "name_strcmp nam (sc_scriptName ?sc) = Inr (nam = sc_scriptName ?sc)"
    using k(3) by (simp add: name_strcmp_def)
  have step: "take (Suc i) (xs_scripts s) = take i (xs_scripts s) @ [?sc]"
    using assms(3) by (simp add: take_Suc_conv_app_nth)
  have rest: "drop i (xs_scripts s) = ?sc # drop (Suc i) (xs_scripts s)"
    using assms(3) by (simp add: Cons_nth_drop_Suc)
  have upd: "(xs_scripts t)[i := x] = map (marked nam) (take i (xs_scripts s)) @ x # drop (Suc i) (xs_scripts s)"
    "xs_scripts t = map (marked nam) (take i (xs_scripts s)) @ ?sc # drop (Suc i) (xs_scripts s)" for x
    using assms(1,3) by (simp_all add: targeting_def rest list_update_append)
  have t: "xs_val t = (xs_val s)\<lparr>v_nodes := given nam script cnt (take i (xs_scripts s)) (v_nodes (xs_val s))\<rparr>"
    "found = (\<exists>sc \<in> set (take i (xs_scripts s)). wants nam sc)" "xs_drivers t = xs_drivers s"
    using assms(1) by (simp_all add: targeting_def)
  show ?thesis
  proof (cases "wants nam ?sc")
    case True
    have "targeting nam script cnt s (Suc i) True
        (upd_val (\<lambda>v. v\<lparr>v_nodes := (v_nodes v)[k := (v_nodes v ! k)\<lparr>xn_script := Some script, xn_script_size := cnt\<rparr>]\<rparr>) t
           \<lparr>xs_scripts := (xs_scripts t)[i := ?sc\<lparr>sc_inUse := True\<rparr>]\<rparr>)"
      using True k by (simp add: targeting_def step given_snoc marked_def upd(1) t(1,3))
    then show ?thesis
      using True k now match by (cases "sc_singleShot ?sc") (simp_all add: script_target_def t(1) wants_def)
  next
    case False
    have "targeting nam script cnt s (Suc i) found t"
      using False k by (simp add: targeting_def step given_snoc marked_def upd(2) t)
    then show ?thesis
      using False now match by (auto simp: script_target_def wants_def)
  qed
qed

lemma okX_foldX_upto:
  assumes "\<And>i a s. i < n \<Longrightarrow> J i a s \<Longrightarrow> okX (f i a) s (J (Suc i)) E" "J 0 a s"
  shows "okX (foldX f [0..<n] a) s (J n) E"
proof -
  have "okX (foldX f [m..<n] b) t (J n) E" if "J m b t" "m \<le> n" for m b t
    using that
  proof (induction "n - m" arbitrary: m b t)
    case (Suc k)
    then have m: "m < n" "[m..<n] = m # [Suc m..<n]" by (simp_all add: upt_conv_Cons)
    have "okX (f m b) t (\<lambda>b t. okX (foldX f [Suc m..<n] b) t (J n) E) E"
      by (rule okX_mono [OF assms(1) [OF m(1)]]) (use Suc m in auto)
    then show ?case by (simp add: m(2))
  qed simp
  then show ?thesis using assms(2) by blast
qed

text \<open>The actions fill the array.\<close>

context doc_inv
begin

lemma safe_steps:
  assumes "\<forall>c \<in> set cs. is_one_of ALL_SCRIPTS (hd c) \<and> payload_ok (hd c)" "k + actions cs \<le> length script"
  shows "safeX I (foldX script_step cs (script, k, pause))
     (\<lambda>(script', k', _). length script' = length script \<and> k' = k + actions cs)"
  using assms
proof (induction cs arbitrary: script k pause)
  case Nil
  then show ?case by (simp add: actions_def safeX_retX)
next
  case (Cons c cs)
  let ?k = "if is_action (hd c) then Suc k else k"
  have "safeX I (script_step c (script, k, pause)) (\<lambda>(script', k', _). length script' = length script \<and> k' = ?k)"
  proof (cases "is_action (hd c)")
    case True
    then obtain parse where parse: "script_action (elem_name (hd c)) = Some parse"
      using Cons.prems(1) script_action_iff by force
    moreover have "k < length script" using Cons.prems(2) True by (simp add: actions_def)
    moreover have "hd c \<noteq> Other" using True by (auto simp: is_one_of_def)
    ultimately show ?thesis
      using True Cons.prems(1) by (auto simp: script_step_def Let_def intro!: safe safe_action)
  next
    case False
    then have pause: "elem_name (hd c) = ''Pause''" using Cons.prems(1) by (intro script_pause) simp_all
    then have none: "script_action (elem_name (hd c)) = None" by (simp add: script_action_def)
    show ?thesis
      using False by (simp add: script_step_def none pause, simp add: none [unfolded pause] ParseScriptPause_def)
        (intro safe logs_only_numbers; simp)
  qed
  then show ?case
    unfolding foldX.simps
  proof (rule safeX_bind)
    fix a :: "NsScript list \<times> nat \<times> u16"
    assume "case a of (script', k', _) \<Rightarrow> length script' = length script \<and> k' = ?k"
    then obtain script' :: "NsScript list" and pause' where a: "a = (script', ?k, pause')" "length script' = length script"
      by (cases a) auto
    have "?k + actions cs = k + actions (c # cs)" by (simp add: actions_def)
    with Cons.IH [of ?k script' pause'] Cons.prems a
    show "safeX I (foldX script_step cs a) (\<lambda>(script', k', _). length script' = length script \<and>
        k' = k + actions (c # cs))" by simp
  qed
qed

end

lemma okX_bind_safe:
  assumes "safeX I m P" "I s" "\<And>x t. P x \<Longrightarrow> I t \<Longrightarrow> okX (f x) t Q (\<lambda>_ _. True)"
  shows "okX (bindX m f) s Q (\<lambda>_ _. True)"
  unfolding okX_bindX by (rule okX_mono [OF safeXD [OF assms(1,2)]]) (use assms(3) in auto)

lemma targeting_start: "same_doc s t \<Longrightarrow> targeting nam script cnt s 0 False t"
proof -
  have "given nam script cnt [] nds = nds" for nds by (rule nth_equalityI) (simp_all add: nth_given)
  then show "same_doc s t \<Longrightarrow> targeting nam script cnt s 0 False t" by (simp add: targeting_def same_doc_def)
qed

lemma siblings_tl: "\<not> p (hd c) \<Longrightarrow> siblings p (tl c) = siblings p c"
  by (cases c) simp_all

lemma length_siblings: "length (siblings p c) \<le> length c"
  by (induction c) auto

lemma GetElementArray_siblings:
  "GetElementArray c names False = Some y \<Longrightarrow> siblings (is_one_of names) (snd y) = siblings (is_one_of names) c"
proof (cases "dropWhile (\<lambda>n. \<not> is_one_of names n) c")
  case (Cons n ns)
  then have "is_one_of names n" using hd_dropWhile [of "\<lambda>n. \<not> is_one_of names n" c] by simp
  moreover assume "GetElementArray c names False = Some y"
  ultimately show ?thesis
    using Cons by (subst (2) siblings_step) (auto simp: GetElementArray_def)
qed (simp add: GetElementArray_def del: dropWhile_eq_Nil_conv)

lemma siblings_member: "d \<in> set (siblings p c) \<Longrightarrow> hd d \<in> set c \<and> p (hd d)"
  by (induction c) (auto split: if_splits)

text \<open>What the parse of a script leaves.\<close>

definition script_installed :: "mxml_node_t \<Rightarrow> xst \<Rightarrow> xst \<Rightarrow> bool" where
  "script_installed scr s t \<longleftrightarrow> (\<exists>nam script. map_of (elem_attrs scr) ''Name'' = Some nam \<and>
     length script = length (siblings is_action (child scr)) \<and>
     (\<exists>sc \<in> set (xs_scripts s). wants nam sc) \<and> xs_drivers t = xs_drivers s \<and> xs_scripts t = map (marked nam) (xs_scripts s) \<and>
     xs_val t = (xs_val s)\<lparr>v_nodes := given nam script (of_nat (length script)) (xs_scripts s) (v_nodes (xs_val s))\<rparr>)"

lemma okX_ParseScript:
  assumes "refs_ok s" "child scr \<noteq> [] \<longrightarrow> script_fits scr"
  shows "okX (ParseScript scr) s (\<lambda>_. script_installed scr s) (\<lambda>_ _. True)"
proof (cases "child scr = []")
  case True
  then show ?thesis by (simp add: ParseScript_def needX_def okX_liftX GetCountArray_def)
next
  case False
  let ?c = "child scr" and ?n = "length (siblings is_action (child scr))"
  from False assms(2) have fits: "\<not> is_action (hd ?c)" "length ?c < 2 ^ 32" "\<forall>act \<in> set ?c. payload_ok act"
    by (simp_all add: script_fits_def)
  have "unat (word_of_nat ?n :: u32) = ?n"
    using fits(2) length_siblings [of is_action ?c] by (simp add: unat_of_nat)
  then have count: "safeX (same_doc s) (needX (GetCountArray ?c ALL_SCRIPTS_NO_PAUSE True) r t) (\<lambda>n. unat n = ?n)" for r t
    by (intro unchanged.safe_needX same_doc_logs logs_only_get)
      (auto simp: GetCountArray_def Let_def siblings_tl fits(1) split: if_splits)
  have first: "safeX (same_doc s) (needX (\<lambda>s. (GetElementArray ?c ALL_SCRIPTS False, s)) r t)
      (\<lambda>p. siblings (is_one_of ALL_SCRIPTS) (snd p) = siblings (is_one_of ALL_SCRIPTS) ?c)" for r t
    by (rule unchanged.safe_pure) (rule GetElementArray_siblings)
  have nam: "safeX (same_doc s) (needX (GetString scr ''Name'' True) r t) (\<lambda>x. map_of (elem_attrs scr) ''Name'' = Some x)"
    for r t
    by (intro unchanged.safe_needX same_doc_logs logs_only_get) (auto simp: GetString_def split: option.splits)
  have heads: "\<forall>c \<in> set (siblings (is_one_of ALL_SCRIPTS) ?c). is_one_of ALL_SCRIPTS (hd c) \<and> payload_ok (hd c)"
    using fits(3) by (auto dest: siblings_member)
  have steps: "safeX (same_doc s) (foldX script_step (siblings (is_one_of ALL_SCRIPTS) ?c)
       (replicate ?n zero_script, 0, 0)) (\<lambda>(script, k, _). length script = ?n \<and> k = ?n)"
    using unchanged.safe_steps [OF heads, of 0 "replicate ?n zero_script"] by (simp add: actions_siblings)
  have targets: "okX (foldX (script_target nam script (of_nat ?n)) [0..<length (xs_scripts t)] False) t
      (targeting nam script (of_nat ?n) s (length (xs_scripts s))) (\<lambda>_ _. True)"
    if "same_doc s t" for nam script t
  proof -
    have "length (xs_scripts t) = length (xs_scripts s)" using that by (simp add: same_doc_def)
    then show ?thesis
      using okX_foldX_upto [where f = "script_target nam script (of_nat ?n)" and J = "targeting nam script (of_nat ?n) s",
          OF _ targeting_start [OF that]]
      by (auto intro: okX_mono [OF okX_script_target [OF _ assms(1)]])
  qed
  show ?thesis
    unfolding ParseScript_def
    apply (rule okX_bind_safe [OF count same_doc_refl])
    apply (rule okX_bind_safe [OF unchanged.safe_memory(2)], assumption)
    apply (rule okX_bind_safe [OF first], assumption)
    apply (case_tac xb, simp only: prod.case snd_conv)
    apply (rule okX_bind_safe [OF steps], assumption)
    apply (case_tac xc, simp only: prod.case, elim conjE)
    apply (rule okX_bind_safe [OF nam], assumption)
    apply (simp only: okX_bindX okX_getX)
    apply (rule okX_mono [OF targets], assumption)
    apply (auto simp: targeting_def script_installed_def)
    done
qed


definition good_script :: mxml_node_t where
  "good_script = Element ''Script'' [(''Name'', ''s'')]
     [Other, Element ''I2CPortCreate'' [(''Speed'', ''FastMode'')] [], Element ''Pause'' [(''WaitTime'', ''100'')] [],
      Element ''I2CPortWrite'' [(''Address'', ''0x20''), (''Payload'', ''01 FF'')] []]"

definition script_state :: xst where
  "script_state = empty_state\<lparr>xs_scripts := [\<lparr>sc_singleShot = False, sc_inUse = False, sc_scriptName = ''s'',
     sc_node = Some 1\<rparr>], xs_val := zero_val\<lparr>v_nodes := [zero_xnode, zero_xnode]\<rparr>\<rparr>"


section \<open>An I2C write\<close>

lemma fill_succeeds:
  assumes "\<forall>n. calloc_ok s n"
  shows "okX (need_fill True) s (\<lambda>_ t. \<forall>n. calloc_ok t n) (\<lambda>_ _. False)"
proof -
  have some: "fst (MCalloc 1 1 t) \<noteq> None \<and> (\<forall>n. calloc_ok (snd (MCalloc 1 1 t)) n)" if "\<forall>n. calloc_ok t n" for t :: xst
    using that MCalloc_fails(2) [of 1 1 t] by (auto simp: MCalloc_fails(1))
  show ?thesis
    using some [OF assms] some [of "snd (MCalloc 1 1 s)"]
    by (auto simp: need_fill_def FillScriptInitialValues_def okX_liftX)
qed

definition i2c_mode :: "string \<Rightarrow> u8 option" where
  "i2c_mode m = map_of [(''DefaultMode'', 0), (''RepeatedStartMode'', 1), (''BurstMode'', 2)] m"

lemma GetUInt8_printed:
  assumes "n \<le> 0xFF" "map_of (elem_attrs e) key = Some (dec_digits n) \<or> map_of (elem_attrs e) key = Some (''0x'' @ hex_digits n)"
  shows "GetUInt8 e key m s = (Some (of_nat n), s)"
  using assms get_integer_printed [of n e key _ "0xFF" m s] by (auto simp: GetUInt8_def)

text \<open>
  The message of an I2C write. An \<open>I2CPortWrite\<close> element with a mode, an address and a payload
  written as bytes becomes the I2CPortWrite request of the device: port handle
  0x0F00, mode, no block count, address, the length of the payload, the timeout 100 in
  big-endian order, then exactly the bytes of the payload.
\<close>

theorem i2c_write_message:
  assumes "map_of (elem_attrs act) ''Mode'' = Some txt" and "i2c_mode txt = Some mode"
    and "map_of (elem_attrs act) ''Address'' = Some (''0x'' @ hex_digits address)" and "address \<le> 0xFF"
    and "map_of (elem_attrs act) ''Payload'' = Some (hex_text bs)" and "bs \<noteq> []" and "length bs < 256"
    and "\<forall>key \<in> {''BlockCount'', ''Length'', ''Timeout''}. map_of (elem_attrs act) key = None"
    and "\<forall>n. calloc_ok s n"
  shows "okX (ParseScriptPortWrite act True pause) s
     (\<lambda>x _. x = port_script 0x6C4 (of_nat (length bs + 8))
        ([0x0F, 0x00, mode, 0, of_nat address, of_nat (length bs), 0, 100] @ bs) pause) (\<lambda>_ _. False)"
proof -
  have none: "GetUInt8 act ''BlockCount'' False t = (None, t)" "GetUInt8 act ''Length'' False t = (None, t)"
    "GetUInt16 act ''Timeout'' False t = (None, t)" for t :: xst
    using assms(8) by (simp_all add: GetUInt8_def GetUInt16_def get_integer_def GetString_def)
  have addr: "GetUInt8 act ''Address'' True t = (Some (of_nat address), t)" for t :: xst
    using assms(3,4) by (intro GetUInt8_printed) simp_all
  obtain t where t: "GetPayload act ''Payload'' 8 True s = (Some (Some (replicate (unat (8 :: u8)) 0 @ bs), of_nat (length bs)), t)"
    using GetPayload_hex [OF assms(6,5,9), of 8 True] by auto
  then have "calloc_ok t = calloc_ok s"
    using xml_alloc.GetPayload [of s "calloc_ok s" act "''Payload''" 8 True] by simp
  then have alloc: "\<forall>n. calloc_ok t n" using assms(9) by simp
  have "unat (of_nat (length bs) :: u8) = length bs" using assms(7) by (simp add: unat_of_nat)
  then have len: "(of_nat (length bs) :: u8) \<noteq> 0" using assms(6) by auto
  have mode: "map_of [(''DefaultMode'', 0 :: u8), (''RepeatedStartMode'', 1), (''BurstMode'', 2)] txt = Some mode"
    using assms(2) by (simp add: i2c_mode_def)
  have choice: "okX (if txt = ''DefaultMode'' then retX 0 else if txt = ''RepeatedStartMode'' then retX 1
      else if txt = ''BurstMode'' then retX 2 else m) t Q E = Q mode t" for m t Q E
    using mode by (auto split: if_splits)
  show ?thesis
    unfolding ParseScriptPortWrite_def
    by (simp add: okX_liftX GetString_def assms(1) choice none addr needX_def HEADER_OFFSET_def t Let_def len put_header_def
        del: okX_if, rule okX_mono [OF fill_succeeds [OF alloc]]) (simp_all add: MISC_HB_def MISC_LB_def)
qed

theorem i2c_write_message_witness:
  "okX (ParseScriptPortWrite (Element ''I2CPortWrite''
        [(''Mode'', ''BurstMode''), (''Address'', ''0x20''), (''Payload'', ''0F A0'')] []) True 50) empty_state
     (\<lambda>x _. x = port_script 0x6C4 10 [0x0F, 0x00, 2, 0, 0x20, 2, 0, 100, 0x0F, 0xA0] 50) (\<lambda>_ _. False)"
proof -
  have "hex_text [0x0F, 0xA0] = ''0F A0''" "hex_digits 0x20 = ''20''"
    by (simp_all add: fmt_X_def pad_zero_def hex_digits.simps hex_digit_def)
  then show ?thesis
    using i2c_write_message [of "Element ''I2CPortWrite''
        [(''Mode'', ''BurstMode''), (''Address'', ''0x20''), (''Payload'', ''0F A0'')] []" "''BurstMode''" 2 "0x20"
        "[0x0F, 0xA0]" empty_state 50]
    by (simp add: i2c_mode_def empty_state_def)
qed

end
