(* ===== verification/Xml_Node_Safe.thy ===== *)
theory Xml_Node_Safe
  imports Xml_Script_Props
begin

text \<open>
  Nodes, connections and sockets are parsed with defined behaviour on documents that keep to a
  few limits: the limits, an invariant of the parser's data, and every function's preservation
  of it. Three levels of the recursion of \<open>ParseSocket\<close> are enough.
\<close>

section \<open>Documents\<close>

text \<open>
  No element has a \<open>Driver\<close> attribute, the names that are copied into arrays fit, and every script
  fits into its array.
\<close>

definition attrs_fit :: "mxml_node_t \<Rightarrow> bool" where
  "attrs_fit n \<longleftrightarrow> n = Other \<or> map_of (elem_attrs n) ''Driver'' = None \<and>
     (\<forall>key \<in> {''Route'', ''Script''}. \<forall>v. map_of (elem_attrs n) key = Some v \<longrightarrow> length v < NAME_LEN) \<and>
     (elem_name n = ''Script'' \<and> elem_children n \<noteq> [] \<longrightarrow> script_fits n)"

fun doc_fits :: "mxml_node_t \<Rightarrow> bool" where
  "doc_fits Other \<longleftrightarrow> True"
| "doc_fits (Element nam attrs cs) \<longleftrightarrow> attrs_fit (Element nam attrs cs) \<and> list_all doc_fits cs"

abbreviation docs_fit :: "cursor \<Rightarrow> bool" where
  "docs_fit c \<equiv> list_all doc_fits c"

lemma doc_fits_child: "doc_fits n \<Longrightarrow> docs_fit (child n)"
  by (cases n) simp_all

lemma doc_fits_attrs: "doc_fits n \<Longrightarrow> attrs_fit n"
  by (cases n) (simp_all add: attrs_fit_def)

text \<open>A cursor at an element.\<close>

definition at_elem :: "cursor \<Rightarrow> bool" where
  "at_elem c \<longleftrightarrow> c \<noteq> [] \<and> hd c \<noteq> Other \<and> docs_fit c"

lemma at_elemD: "at_elem c \<Longrightarrow> doc_fits (hd c)" "at_elem c \<Longrightarrow> hd c \<noteq> Other" "at_elem c \<Longrightarrow> docs_fit c"
  by (cases c; simp add: at_elem_def)+

lemma not_Other: "is_named nam n \<Longrightarrow> n \<noteq> Other" "is_one_of names n \<Longrightarrow> n \<noteq> Other"
  by (auto simp: is_one_of_def)

lemma siblings_fit:
  "docs_fit c \<Longrightarrow> d \<in> set (siblings (is_named nam) c) \<Longrightarrow> at_elem d"
  "docs_fit c \<Longrightarrow> d \<in> set (siblings (is_one_of names) c) \<Longrightarrow> at_elem d"
  by (induction c) (auto simp: at_elem_def dest: not_Other split: if_splits)

lemma find_fits:
  "docs_fit c \<Longrightarrow> docs_fit (find_below nam c)" "doc_fits n \<Longrightarrow> docs_fit (find_in nam n)"
  by (induction nam c and nam n rule: find_below_find_in.induct) (auto split: list.splits)

lemma find_named:
  "find_below nam c = n # ns \<Longrightarrow> is_named nam n" "find_in nam e = n # ns \<Longrightarrow> is_named nam n"
  by (induction nam c and nam e rule: find_below_find_in.induct) (auto split: list.splits if_splits)

lemma mxmlFindElement_fits: "docs_fit c \<Longrightarrow> mxmlFindElement c nam = n # ns \<Longrightarrow> at_elem (n # ns)"
  using find_fits(2) [of "hd c" nam] by (cases c) (auto simp: mxmlFindElement_eq at_elem_def dest: find_named)

lemma dropWhile_fits:
  "docs_fit c \<Longrightarrow> dropWhile (\<lambda>n. \<not> is_named nam n) c = n # ns \<Longrightarrow> at_elem (n # ns)"
  "docs_fit c \<Longrightarrow> dropWhile (\<lambda>n. \<not> is_one_of names n) c = n # ns \<Longrightarrow> at_elem (n # ns)"
  by (induction c) (auto simp: at_elem_def dest: not_Other split: if_splits)

lemma GetElement_fits: "docs_fit c \<Longrightarrow> fst (GetElement c nam deep m s) = Some d \<Longrightarrow> at_elem d"
  using dropWhile_fits(1) [of "tl c" nam] mxmlFindElement_fits [of c nam]
  by (cases c; cases "mxmlFindElement c nam")
    (auto simp: GetElement_def as_pointer_def split: if_splits list.splits)

lemma GetElementArray_fits: "docs_fit c \<Longrightarrow> GetElementArray c names b = Some (nam, d) \<Longrightarrow> at_elem d"
  using dropWhile_fits(2) [of c names] dropWhile_fits(2) [of "tl c" names]
  by (cases c) (auto simp: GetElementArray_def split: if_splits list.splits)

section \<open>The invariant\<close>

fun valid_ptr :: "nat \<Rightarrow> ptr \<Rightarrow> bool" where
  "valid_ptr n Null \<longleftrightarrow> True"
| "valid_ptr n (Ref i) \<longleftrightarrow> i < n"
| "valid_ptr n Wild \<longleftrightarrow> False"

definition sockets_ok :: "bool \<Rightarrow> xst \<Rightarrow> bool" where
  "sockets_ok q s \<longleftrightarrow> valid_ptr (length (xs_res s)) (cd_inSocket (xs_con s)) \<and> valid_ptr (length (xs_res s)) (cd_outSocket (xs_con s)) \<and>
     valid_ptr (length (xs_res s)) (cd_combiner (xs_con s)) \<and> valid_ptr (length (xs_res s)) (cd_splitter (xs_con s)) \<and>
     (\<forall>v. cd_routeName (xs_con s) = Some v \<longrightarrow> length v < NAME_LEN) \<and>
     docs_fit (cd_pendingCombinerSockets (xs_con s)) \<and>
     (q \<longrightarrow> cd_pendingCombinerSockets (xs_con s) = [])"

text \<open>A node that has its address, and what refers to nodes.\<close>

definition node_ok :: "xst \<Rightarrow> nat \<Rightarrow> bool" where
  "node_ok s k \<longleftrightarrow> k < length (v_nodes (xs_val s)) \<and> xn_signature (v_nodes (xs_val s) ! k) \<noteq> None"

definition refs_fit :: "xst \<Rightarrow> bool" where
  "refs_fit s \<longleftrightarrow> (\<forall>sc \<in> set (xs_scripts s). length (sc_scriptName sc) < NAME_LEN \<and>
     (\<exists>k. sc_node sc = Some k \<and> node_ok s k))"

definition routes_fit :: "xst \<Rightarrow> bool" where
  "routes_fit s \<longleftrightarrow> (\<forall>r \<in> set (xs_routes s). length (xr_routeName r) < NAME_LEN \<and> node_ok s (ep_node (xr_ep r)))"

definition lists_ok :: "xst \<Rightarrow> bool" where
  "lists_ok s \<longleftrightarrow> refs_fit s \<and> routes_fit s \<and> xs_drivers s = [] \<and> v_routes (xs_val s) = [] \<and> v_routesSize (xs_val s) = 0"

text \<open>While a node is parsed; with \<open>q\<close>, no sockets of a combiner are waiting.\<close>

definition in_node :: "bool \<Rightarrow> nat \<Rightarrow> nat \<Rightarrow> xst \<Rightarrow> bool" where
  "in_node q n i s \<longleftrightarrow> lists_ok s \<and> sockets_ok q s \<and> nd_nod (xs_node s) = i \<and> node_ok s i \<and>
     length (v_nodes (xs_val s)) = n \<and> v_nodSize (xs_val s) = of_nat i \<and>
     (\<forall>k < i. node_ok s k)"

lemmas in_node_defs = in_node_def lists_ok_def sockets_ok_def refs_fit_def routes_fit_def node_ok_def

interpretation node: doc_inv "in_node q n i" for q n i
  by unfold_locales (clarsimp simp: in_node_defs same_doc_def)

section \<open>Allocating objects\<close>

definition creates :: "(xst \<Rightarrow> (nat option \<times> bool) \<times> xst) \<Rightarrow> bool" where
  "creates m \<longleftrightarrow> (\<exists>obj c. m = create obj c)"

lemma creates_objects [simp]:
  "creates (GetNetworkSocket d t w)" "creates (GetUsbPort a b c e)" "creates GetUsbPortDefaultCreated"
  "creates (GetUsbSocket d t a b p)" "creates (GetMlbPort a)" "creates GetMlbPortDefaultCreated"
  "creates (GetMlbSocket d t w a p)" "creates (GetStrmPort j a b)" "creates (GetStrmPortDefaultCreated j)"
  "creates (GetRmckPort w)" "creates (GetSplitter w p)" "creates (GetCombiner w p)"
  "creates (GetSyncCon a o1 p q)" "creates (GetAvpCon o1 p q)"
  unfolding creates_def GetNetworkSocket_def GetUsbPort_def GetUsbPortDefaultCreated_def GetUsbSocket_def
      GetMlbPort_def GetMlbPortDefaultCreated_def GetMlbSocket_def GetStrmPort_def
      GetStrmPortDefaultCreated_def GetRmckPort_def GetSplitter_def GetCombiner_def
      GetSyncCon_def GetAvpCon_def Let_def by blast+

lemma creates_stream [simp]: "creates (GetStrmSocket d t w a p q)"
  by (simp add: creates_def GetStrmSocket_def Let_def split: option.split prod.split) blast

text \<open>A new object is in the store, and nothing else changes.\<close>

definition appended :: "xst \<Rightarrow> xst \<Rightarrow> bool" where
  "appended s t \<longleftrightarrow> (\<exists>obj. xs_res t = xs_res s @ [obj]) \<and> same_doc s (t\<lparr>xs_res := xs_res s\<rparr>)"

lemma new_obj_cases:
  "case fst (new_obj obj s) of None \<Rightarrow> same_doc s (snd (new_obj obj s))
   | Some p \<Rightarrow> p = length (xs_res s) \<and> appended s (snd (new_obj obj s))"
proof -
  obtain c t where m: "MCalloc 1 1 s = (c, t)" by (cases "MCalloc 1 1 s")
  with same_doc_MCalloc [of s 1 1] have "same_doc s t" by simp
  with m show ?thesis by (cases c) (auto simp: new_obj_def appended_def same_doc_def)
qed

lemma appended_log: "appended s t \<Longrightarrow> appended s (ASSERT_FALSE f p t)"
  by (simp add: appended_def ASSERT_FALSE_def UcsXml_CB_OnError_def same_doc_def)

lemma create_cases:
  "case fst (fst (create obj c s)) of None \<Rightarrow> same_doc s (snd (create obj c s))
   | Some p \<Rightarrow> p = length (xs_res s) \<and> appended s (snd (create obj c s))"
proof -
  obtain r t where m: "new_obj obj s = (r, t)" by (cases "new_obj obj s")
  show ?thesis
    using new_obj_cases [where obj = obj and s = s] m
    by (cases r; cases c) (auto simp: create_def appended_log intro: same_doc_trans)
qed

lemma valid_ptr_mono: "n \<le> k \<Longrightarrow> valid_ptr n p \<Longrightarrow> valid_ptr k p"
  by (cases p) simp_all

lemma in_node_appended:
  assumes "in_node q n i s" "appended s t"
  shows "in_node q n i t"
proof -
  have len: "length (xs_res s) \<le> length (xs_res t)" using assms(2) by (auto simp: appended_def)
  have same: "xs_routes t = xs_routes s" "xs_scripts t = xs_scripts s" "xs_drivers t = xs_drivers s"
    "xs_node t = xs_node s" "xs_con t = xs_con s" "xs_val t = xs_val s"
    using assms(2) by (simp_all add: appended_def same_doc_def)
  have "node_ok t = node_ok s" by (intro ext) (simp add: node_ok_def same)
  then show ?thesis
    using assms(1) valid_ptr_mono [OF len]
    by (simp add: in_node_def lists_ok_def refs_fit_def routes_fit_def sockets_ok_def same)
qed

lemma safe_createX:
  assumes "creates m" "\<And>p s. in_node q n i s \<Longrightarrow> p < length (xs_res s) \<Longrightarrow> in_node q n i (assign (Ref p) s)"
  shows "safeX (in_node q n i) (createX m assign reason) anything"
  unfolding safeX_def
proof (intro allI impI)
  fix s assume s: "in_node q n i s"
  obtain obj c where m: "m = create obj c" using assms(1) by (auto simp: creates_def)
  obtain p ok t where r: "create obj c s = ((p, ok), t)" by (metis surj_pair)
  have t: "in_node q n i t"
    using create_cases [where obj = obj and c = c and s = s] r s
    by (cases p) (auto intro: node.same_doc in_node_appended)
  have "in_node q n i (assign (Ref a) t)" if "p = Some a" for a
    using create_cases [where obj = obj and c = c and s = s] r s that by (intro assms(2) t) (auto simp: appended_def)
  then show "okX (createX m assign reason) s (\<lambda>x s. True \<and> in_node q n i s) (\<lambda>_. in_node q n i)"
    using t r m by (cases p) (auto simp: createX_def okX_liftX intro: node.same_doc)
qed

section \<open>Updates\<close>

lemma safe_updates [safe]:
  "safeX (in_node q n i) (updX (upd_con (\<lambda>c. c\<lparr>cd_dataType := dt\<rparr>))) anything"
  "safeX (in_node q n i) (updX (upd_con (\<lambda>c. c\<lparr>cd_muteMode := mm\<rparr>))) anything"
  "safeX (in_node q n i) (updX (upd_con (\<lambda>c. c\<lparr>cd_isocPacketSize := ip\<rparr>))) anything"
  "safeX (in_node q n i) (updX (upd_con (\<lambda>c. c\<lparr>cd_labelNormal := w\<rparr>))) anything"
  "safeX (in_node q n i) (updX (upd_con (\<lambda>c. c\<lparr>cd_labelFallback := w\<rparr>))) anything"
  "safeX (in_node q n i) (updX (upd_con (\<lambda>c. c\<lparr>cd_isDeactivated := b\<rparr>))) anything"
  "safeX (in_node q n i) (updX (upd_con (\<lambda>c. c\<lparr>cd_routeId := w\<rparr>))) anything"
  "safeX (in_node q n i) (updX (upd_con (\<lambda>c. c\<lparr>cd_syncOffset := w\<rparr>))) anything"
  "safeX (in_node q n i) (updX (upd_con (\<lambda>c. c\<lparr>cd_syncOffsetNeeded := b\<rparr>))) anything"
  "safeX (in_node q n i) (updX (upd_con (\<lambda>c. c\<lparr>cd_sockCnt := cd_sockCnt c + 1\<rparr>))) anything"
  "safeX (in_node q n i) (updX (upd_con (\<lambda>c. c\<lparr>cd_jobList := jobs\<rparr>))) anything"
  "safeX (in_node q n i) (updX (upd_con (\<lambda>c. c\<lparr>cd_inSocket := cd_splitter c\<rparr>))) anything"
  "safeX (in_node q n i) (updX (upd_con (\<lambda>c. c\<lparr>cd_outSocket := cd_combiner c\<rparr>))) anything"
  "safeX (in_node q n i) (updX (upd_con (\<lambda>c. c\<lparr>cd_pendingCombinerSockets := []\<rparr>))) anything"
  "safeX (in_node q n i) (updX (upd_con (\<lambda>_. zero_con_data))) anything"
  "safeX (in_node q n i) (updX (set_obj j obj)) anything"
  by (rule safeX_updX, clarsimp simp: in_node_defs zero_con_data_def set_obj_def)+

lemma safe_upd_fits:
  "length v < NAME_LEN \<Longrightarrow> safeX (in_node q n i) (updX (upd_con (\<lambda>c. c\<lparr>cd_routeName := Some v\<rparr>))) anything"
  "docs_fit d \<Longrightarrow> safeX (in_node False n i) (updX (upd_con (\<lambda>c. c\<lparr>cd_pendingCombinerSockets := d\<rparr>))) anything"
  by (rule safeX_updX, clarsimp simp: in_node_defs)+

lemma set_obj_in_node: "in_node q n i (set_obj j obj s) = in_node q n i s"
  by (simp add: in_node_defs set_obj_def)

lemma set_inner_in_node [simp]:
  "in_node q n i (set_splitter_in q0 p s) = in_node q n i s" "in_node q n i (set_combiner_port q0 p s) = in_node q n i s"
  by (simp_all add: set_splitter_in_def set_combiner_port_def set_obj_in_node split: ptr.split xobj.split)

lemma safe_set_combiner [safe]: "safeX (in_node q n i) (updX (set_combiner_port q0 p)) anything"
  by (rule safeX_updX) simp

lemma set_socket_in_node: "in_node q n i s \<Longrightarrow> p < length (xs_res s) \<Longrightarrow> in_node q n i (set_socket b (Ref p) s)"
  by (clarsimp simp: in_node_defs set_socket_def)

lemma upd_con_in_node:
  assumes "in_node q n i s" "p < length (xs_res s)"
  shows "in_node q n i (upd_con (\<lambda>c. c\<lparr>cd_splitter := Ref p\<rparr>) s)" "in_node q n i (upd_con (\<lambda>c. c\<lparr>cd_combiner := Ref p\<rparr>) s)"
    "in_node q n i (upd_con (\<lambda>c. c\<lparr>cd_inSocket := Ref p\<rparr>) s)"
  using assms by (clarsimp simp: in_node_defs)+

lemma upd_node_in_node [simp]:
  assumes "in_node q n i s"
  shows "in_node q n i (upd_node (\<lambda>m. m\<lparr>nd_usbPort := p\<rparr>) s)" "in_node q n i (upd_node (\<lambda>m. m\<lparr>nd_mlbPort := p\<rparr>) s)"
    "in_node q n i (upd_node (\<lambda>m. m\<lparr>nd_strmPortA := p\<rparr>) s)" "in_node q n i (upd_node (\<lambda>m. m\<lparr>nd_strmPortB := p\<rparr>) s)"
    "in_node q n i (upd_node (\<lambda>m. m\<lparr>nd_rmckPort := p\<rparr>) s)"
  using assms by (clarsimp simp: in_node_defs)+

lemma AddJob_in_node: "in_node q n i s \<Longrightarrow> in_node q n i (snd (AddJob p s))"
proof -
  assume s: "in_node q n i s"
  obtain c t where m: "MCalloc 1 1 s = (c, t)" by (cases "MCalloc 1 1 s")
  with same_doc_MCalloc [of s 1 1] have "in_node q n i t" using node.same_doc [OF s] by simp
  with m s show ?thesis by (cases c) (auto simp: AddJob_def in_node_defs)
qed

lemma safe_add_job [safe]: "safeX (in_node q n i) (add_job p) anything" "safeX (in_node q n i) (liftX (AddJob p)) anything"
proof -
  show lift: "safeX (in_node q n i) (liftX (AddJob p)) anything"
    by (rule safeX_liftX) (simp add: AddJob_in_node)
  show "safeX (in_node q n i) (add_job p) anything"
    unfolding add_job_def needX_def by (rule safeX_bindX [OF lift]) (intro safe TrueI)
qed

lemma safe_new_obj: "safeX (in_node q n i) (need_memory_error (new_obj obj)) anything"
proof -
  have "in_node q n i s \<Longrightarrow> in_node q n i (snd (new_obj obj s))" for s
    using new_obj_cases [where obj = obj and s = s]
    by (cases "fst (new_obj obj s)") (auto intro: node.same_doc in_node_appended)
  then have lift: "safeX (in_node q n i) (liftX (new_obj obj)) anything" by (intro safeX_liftX) simp
  show ?thesis unfolding need_memory_error_def needX_def by (rule safeX_bindX [OF lift]) (intro safe TrueI)
qed

section \<open>Nodes and connections\<close>

lemma safe_fits:
  assumes "doc_fits e" "e \<noteq> Other"
  shows "safeX (in_node q n i) (needX (GetString e ''Route'' m) r t) (\<lambda>v. length v < NAME_LEN)"
    "safeX (in_node q n i) (liftX (GetString e ''Script'' m)) (\<lambda>x. \<forall>v. x = Some v \<longrightarrow> length v < NAME_LEN)"
    "safeX (in_node q n i) (liftX (GetString e ''Driver'' m)) (\<lambda>x. x = None)"
  using doc_fits_attrs [OF assms(1)] assms(2)
  by (intro node.safe_needX node.safe_lift same_doc_logs logs_only_get;
      auto simp: GetString_def attrs_fit_def split: option.splits)+

lemma safe_ParsePort [safe]: "safeX (in_node q n i) (ParsePort c) anything"
  unfolding ParsePort_def Let_def
  by (intro safe safe_createX creates_objects upd_node_in_node logs_only_get logs_only_numbers; assumption?)

lemma safe_set_nod [safe]:
  assumes "\<And>x. xn_signature x \<noteq> None \<Longrightarrow> xn_signature (f x) \<noteq> None"
  shows "safeX (in_node q n i) (set_nod f) anything"
proof -
  have "in_node q n i (upd_val (\<lambda>v. v\<lparr>v_nodes := (v_nodes v)[i := f (v_nodes v ! i)]\<rparr>) s)" if "in_node q n i s" for s
  proof -
    have "node_ok s k \<Longrightarrow> node_ok (upd_val (\<lambda>v. v\<lparr>v_nodes := (v_nodes v)[i := f (v_nodes v ! i)]\<rparr>) s) k" for k
      using assms by (cases "k = i") (auto simp: node_ok_def)
    with that show ?thesis
      by (fastforce simp: in_node_def lists_ok_def sockets_ok_def refs_fit_def routes_fit_def)
  qed
  then show ?thesis
    by (auto simp: set_nod_def safeX_def in_node_def node_ok_def)
qed

lemma safe_ParseConnection [safe]: "safeX (in_node q n i) (ParseConnection e t) anything"
  unfolding ParseConnection_def
  by (intro safe logs_only_get logs_only_numbers; split MDataType_t.split; intro conjI impI safe logs_only_get logs_only_numbers)

text \<open>Between two nodes, and at the begin of the next one.\<close>

definition between :: "nat \<Rightarrow> nat \<Rightarrow> xst \<Rightarrow> bool" where
  "between n i s \<longleftrightarrow> lists_ok s \<and> sockets_ok False s \<and> length (v_nodes (xs_val s)) = n \<and>
     v_nodSize (xs_val s) = of_nat i \<and> (\<forall>k < i. node_ok s k)"

lemma in_node_between: "in_node False n i s \<longleftrightarrow> between n i s \<and> nd_nod (xs_node s) = i \<and> node_ok s i"
  by (auto simp: in_node_def between_def)

definition new_node :: "nat \<Rightarrow> nat \<Rightarrow> xst \<Rightarrow> bool" where
  "new_node n i s \<longleftrightarrow> between n i s \<and> nd_nod (xs_node s) = i \<and> i < n"

lemmas between_defs = between_def lists_ok_def sockets_ok_def refs_fit_def routes_fit_def node_ok_def

interpretation fresh: doc_inv "new_node n i" for n i
  by unfold_locales (clarsimp simp: new_node_def between_defs same_doc_def)

interpretation rest: doc_inv "between n i" for n i
  by unfold_locales (clarsimp simp: between_defs same_doc_def)

lemma okX_signature:
  assumes "new_node n i s"
  shows "okX (set_nod (\<lambda>x. x\<lparr>xn_signature := Some a\<rparr>)) s (\<lambda>_. in_node False n i) (\<lambda>_ _. False)"
proof -
  let ?t = "upd_val (\<lambda>v. v\<lparr>v_nodes := (v_nodes v)[i := (v_nodes v ! i)\<lparr>xn_signature := Some a\<rparr>]\<rparr>) s"
  have keep: "node_ok s k \<Longrightarrow> node_ok ?t k" for k by (cases "k = i") (auto simp: node_ok_def)
  have "node_ok ?t i" using assms by (auto simp: new_node_def between_def node_ok_def)
  moreover have "between n i ?t"
    using assms keep by (fastforce simp: new_node_def between_def lists_ok_def sockets_ok_def refs_fit_def routes_fit_def)
  ultimately show ?thesis
    using assms by (auto simp: set_nod_def in_node_between new_node_def between_def)
qed

lemma AddScript_in_node:
  assumes "in_node q n i s" "length v < NAME_LEN"
  shows "in_node q n i (AddScript \<lparr>sc_singleShot = a, sc_inUse = b, sc_scriptName = strncpy_name v,
     sc_node = Some (nd_nod (xs_node s))\<rparr> s)"
  using assms by (clarsimp simp: AddScript_def in_node_defs strncpy_name_def)

lemma okX_ParseNode:
  assumes "new_node n i s" "doc_fits e" "e \<noteq> Other"
  shows "okX (ParseNode e) s (\<lambda>_. in_node False n i) (\<lambda>r t. r = Parse_Success \<longrightarrow> in_node False n i t)"
proof -
  obtain c t where m: "MCalloc 1 1 s = (c, t)" by (cases "MCalloc 1 1 s")
  with same_doc_MCalloc [of s 1 1] have t: "new_node n i t" using fresh.same_doc [OF assms(1)] by simp
  have tail: "safeX (in_node False n i)
     (bindX (need_attr (GetUInt16 e ''Address'' True)) (\<lambda>address.
     thenX (set_nod (\<lambda>n. n\<lparr>xn_signature := Some address\<rparr>))
     (bindX (liftX (GetString e ''FallbackRoot'' False)) (\<lambda>txt.
     thenX (case txt of
              None \<Rightarrow> retX ()
            | Some txt \<Rightarrow> (case truth_value txt of
                None \<Rightarrow> RETURN_ASSERT Parse_XmlError ''Wrong enum''
              | Some b \<Rightarrow> set_nod (\<lambda>n. n\<lparr>xn_remote_attach_disabled := b\<rparr>)))
     (bindX (liftX (GetString e ''Script'' False)) (\<lambda>txt.
     thenX (case txt of
              None \<Rightarrow> retX ()
            | Some txt \<Rightarrow>
                bindX (need_memory_error (MCalloc 1 1)) (\<lambda>_.
                updX (\<lambda>s. AddScript \<lparr>sc_singleShot = False, sc_inUse = False,
                   sc_scriptName = strncpy_name txt, sc_node = Some (nd_nod (xs_node s))\<rparr> s)))
     (case GetElementArray (child e) ALL_PORTS False of
        None \<Rightarrow> retX ()
      | Some (_, port) \<Rightarrow> forX ParsePort (siblings (is_one_of ALL_PORTS) port)))))))) anything"
    by (intro safeX_bind [OF safe_fits(2) [OF assms(2,3)]] safe safeX_updX AddScript_in_node
        logs_only_get logs_only_numbers) simp_all
  show ?thesis
    unfolding ParseNode_def
    using m by (cases c) (auto simp: need_memory_error_def needX_def okX_liftX simp del: One_nat_def okX_thenX
        intro!: okX_thenX [THEN iffD2] okX_mono [OF okX_signature [OF t]] okX_mono [OF safeXD [OF tail]])
qed

section \<open>Sockets\<close>

lemma assign_in_node:
  assumes "in_node q n i s" "p < length (xs_res s)"
  shows "in_node q n i ((if b then set_splitter_in spl (Ref p) else set_socket c (Ref p)) s)"
  using assms by (simp add: set_socket_in_node)

lemma safe_NetworkSocketCase:
  assumes "doc_fits soc" "soc \<noteq> Other"
  shows "safeX (in_node q n i) (NetworkSocketCase soc b) anything"
  unfolding NetworkSocketCase_def Let_def
  by (intro safeX_bind [OF safe_fits(1) [OF assms]] safe safe_createX creates_objects safe_upd_fits(1)
      assign_in_node logs_only_get logs_only_numbers) simp_all

lemma safe_port_or_default [safe]:
  assumes "creates m" "\<And>p s. in_node q n i s \<Longrightarrow> in_node q n i (upd_node (put p) s)"
  shows "safeX (in_node q n i) (port_or_default get m put reason) anything"
  unfolding port_or_default_def by (intro safe safe_createX assms) simp_all

lemma safe_UsbSocketCase [safe]: "safeX (in_node q n i) (UsbSocketCase soc b) anything"
  unfolding UsbSocketCase_def
  by (intro safe safe_createX creates_objects set_socket_in_node upd_node_in_node logs_only_get logs_only_numbers; assumption?)

lemma safe_MlbSocketCase [safe]: "safeX (in_node q n i) (MlbSocketCase soc b) anything"
  unfolding MlbSocketCase_def
  by (intro safe safe_createX creates_objects set_socket_in_node upd_node_in_node logs_only_get logs_only_numbers; assumption?)

lemma safe_StrmSocketCase [safe]: "safeX (in_node q n i) (StrmSocketCase soc b) anything"
  unfolding StrmSocketCase_def
  by (intro safe safe_createX creates_objects creates_stream set_socket_in_node upd_node_in_node logs_only_get
      logs_only_numbers; assumption?)

lemma safe_with_job_copy: "safeX (in_node q n i) m anything \<Longrightarrow> safeX (in_node q n i) (with_job_copy m) anything"
  unfolding with_job_copy_def by (intro safe)

lemma safe_inner_sockets:
  assumes "doc_fits soc"
  shows "safeX (in_node q n i) (inner_sockets soc reason) at_elem"
  unfolding inner_sockets_def
  by (intro node.safe_needX same_doc_logs logs_only_get) (auto dest: GetElement_fits [OF doc_fits_child [OF assms]])

text \<open>A parser of network sockets that is safe on elements of the document.\<close>

definition safe_network :: "bool \<Rightarrow> nat \<Rightarrow> nat \<Rightarrow> (mxml_node_t \<Rightarrow> bool \<Rightarrow> (unit, xst) xp) \<Rightarrow> bool" where
  "safe_network q n i f \<longleftrightarrow> (\<forall>soc b. doc_fits soc \<longrightarrow> soc \<noteq> Other \<longrightarrow> safeX (in_node q n i) (f soc b) anything)"

lemma safe_networkD: "safe_network q n i f \<Longrightarrow> at_elem c \<Longrightarrow> safeX (in_node q n i) (f (hd c) b) anything"
  by (simp add: safe_network_def at_elemD)

lemma siblings_at_elem: "at_elem c \<Longrightarrow> d \<in> set (siblings (is_named nam) c) \<Longrightarrow> at_elem d"
  using siblings_fit(1) at_elemD(3) by blast

lemma safe_SplitterCase:
  assumes "doc_fits soc" "safe_network q n i f"
  shows "safeX (in_node q n i) (SplitterCase f soc b) anything"
  unfolding SplitterCase_def
  by (intro safeX_bind [OF safe_inner_sockets [OF assms(1)]] safe safe_createX creates_objects upd_con_in_node
      safe_with_job_copy safe_networkD [OF assms(2)] logs_only_numbers; (assumption | erule (1) siblings_at_elem)?)

lemma safe_CombinerCase:
  assumes "doc_fits soc"
  shows "safeX (in_node False n i) (CombinerCase soc b) anything"
  unfolding CombinerCase_def
  by (intro safeX_bind [OF safe_inner_sockets [OF assms(1)]] safe safe_createX creates_objects upd_con_in_node
      safe_upd_fits(2) logs_only_numbers; (assumption | erule at_elemD)?)

lemma in_node_True: "in_node True n i s \<Longrightarrow> in_node q n i s"
  by (simp add: in_node_def sockets_ok_def)

text \<open>Without waiting sockets nothing happens, whatever parses the sockets.\<close>

lemma safe_pending_none: "safeX (in_node True n i) (pending_combiner f) anything"
  by (auto simp: safeX_def pending_combiner_def in_node_def sockets_ok_def)

lemma safe_pending_combiner:
  assumes "safe_network True n i f"
  shows "safeX (in_node False n i) (pending_combiner f) anything"
  unfolding safeX_def
proof (intro allI impI)
  fix s assume s: "in_node False n i s"
  define con where "con = xs_con s"
  have fit: "docs_fit (cd_pendingCombinerSockets con)"
    using s by (simp add: in_node_def sockets_ok_def con_def)
  have cleared: "in_node True n i (upd_con (\<lambda>c. c\<lparr>cd_pendingCombinerSockets := []\<rparr>) s)"
    using s by (clarsimp simp: in_node_defs)
  have rest: "safeX (in_node True n i)
     (thenX (updX (set_combiner_port (cd_combiner con) (cd_outSocket con)))
     (thenX (updX (upd_con (\<lambda>c. c\<lparr>cd_outSocket := cd_combiner c\<rparr>)))
     (thenX (forX (\<lambda>c. with_job_copy (f (hd c) True))
                 (siblings (is_named ''NetworkSocket'') (cd_pendingCombinerSockets con)))
              (stopX Parse_Success)))) anything"
    by (intro safe safe_with_job_copy safe_networkD [OF assms] siblings_fit(1) [OF fit])
  note after = okX_mono [OF safeXD [OF rest cleared]]
  show "okX (pending_combiner f) s (\<lambda>x s. True \<and> in_node False n i s) (\<lambda>_. in_node False n i)"
  proof (cases "cd_outSocket con \<noteq> Null \<and> cd_combiner con \<noteq> Null \<and> cd_pendingCombinerSockets con \<noteq> []")
    case True
    show ?thesis
      unfolding pending_combiner_def okX_bindX okX_getX con_def [symmetric] if_P [OF True]
      by (subst okX_thenX, subst okX_updX, rule after) (simp_all add: in_node_True)
  next
    case False
    then show ?thesis
      unfolding pending_combiner_def okX_bindX okX_getX con_def [symmetric] if_not_P [OF False] by (simp add: s)
  qed
qed

section \<open>Connecting\<close>

text \<open>Two pointers that were taken from the connection stay valid.\<close>

definition holding :: "bool \<Rightarrow> nat \<Rightarrow> nat \<Rightarrow> ptr \<Rightarrow> ptr \<Rightarrow> xst \<Rightarrow> bool" where
  "holding q n i a b s \<longleftrightarrow> in_node q n i s \<and> valid_ptr (length (xs_res s)) a \<and> valid_ptr (length (xs_res s)) b"

interpretation held: doc_inv "holding q n i a b" for q n i a b
  by unfold_locales (auto simp: holding_def intro: node.same_doc, simp_all add: same_doc_def)

lemma holding_grows:
  assumes "holding q n i a b s" "in_node q n i t" "length (xs_res s) \<le> length (xs_res t)"
  shows "holding q n i a b t"
  using assms valid_ptr_mono [OF assms(3)] by (simp add: holding_def)

lemma held_add_job: "safeX (holding q n i a b) (add_job p) anything"
proof -
  have "holding q n i a b (snd (AddJob p s))" if "holding q n i a b s" for s
  proof (rule holding_grows [OF that])
    obtain c t where m: "MCalloc 1 1 s = (c, t)" by (cases "MCalloc 1 1 s")
    with same_doc_MCalloc [of s 1 1] have "xs_res t = xs_res s" by (simp add: same_doc_def)
    with m show "length (xs_res s) \<le> length (xs_res (snd (AddJob p s)))"
      by (auto simp: AddJob_def split: option.splits)
  qed (use that in \<open>simp add: holding_def AddJob_in_node\<close>)
  then have lift: "safeX (holding q n i a b) (liftX (AddJob p)) anything" by (intro safeX_liftX) simp
  show ?thesis unfolding add_job_def needX_def by (rule safeX_bindX [OF lift]) (intro safe TrueI)
qed

lemma held_new_obj: "safeX (holding q n i a b) (need_memory_error (new_obj obj)) anything"
proof -
  have "holding q n i a b (snd (new_obj obj s))" if "holding q n i a b s" for s
  proof (cases "fst (new_obj obj s)")
    case None
    then show ?thesis using new_obj_cases [where obj = obj and s = s] held.same_doc [OF that] by simp
  next
    case (Some p)
    then have "appended s (snd (new_obj obj s))" using new_obj_cases [where obj = obj and s = s] by simp
    moreover have "in_node q n i s" using that by (simp add: holding_def)
    ultimately show ?thesis
      by (intro holding_grows [OF that in_node_appended]) (auto simp: appended_def)
  qed
  then have lift: "safeX (holding q n i a b) (liftX (new_obj obj)) anything" by (intro safeX_liftX) simp
  show ?thesis unfolding need_memory_error_def needX_def by (rule safeX_bindX [OF lift]) (intro safe TrueI)
qed

lemma held_set_obj: "safeX (holding q n i a b) (updX (set_obj j obj)) anything"
proof (rule safeX_updX)
  fix s assume "holding q n i a b s"
  moreover have "length (xs_res (set_obj j obj s)) = length (xs_res s)" by (simp add: set_obj_def)
  ultimately show "holding q n i a b (set_obj j obj s)" by (simp add: holding_def set_obj_in_node)
qed

lemma held_connection_object: "safeX (holding q n i a b) (connection_object con) anything"
  unfolding connection_object_def
  by (cases "cd_dataType con"; simp only: MDataType_t.case;
      intro safeX_bindX [OF held_new_obj] safeX_thenX held_add_job held_set_obj held.safe_log)

lemma held_deref:
  assumes "a \<noteq> Null" "b \<noteq> Null" "\<And>x y. safeX (holding q n i a b) (f x y) P"
  shows "safeX (holding q n i a b)
     (bindX (getX xs_res) (\<lambda>store. bindX (valX (derefX store a)) (\<lambda>x. bindX (valX (derefX store b)) (\<lambda>y. f x y)))) P"
proof -
  have deref: "p \<noteq> Null \<Longrightarrow> valid_ptr (length store) p \<Longrightarrow> \<exists>x. derefX store p = Inr x" for p store
    by (cases p) (auto simp: derefX_def)
  show ?thesis
    using assms(3) deref [OF assms(1)] deref [OF assms(2)]
    by (fastforce simp: safeX_def holding_def)
qed

lemma AddRoute_in_node:
  assumes "in_node q n i s" "length (xr_routeName r) < NAME_LEN" "ep_node (xr_ep r) = i"
  shows "in_node q n i (AddRoute r s)"
  using assms by (clarsimp simp: AddRoute_def in_node_defs)

lemma held_AddRoute:
  assumes "length (xr_routeName r) < NAME_LEN" "ep_node (xr_ep r) = i"
  shows "safeX (holding q n i a b) (updX (AddRoute r)) anything"
proof (rule safeX_updX)
  fix s assume "holding q n i a b s"
  moreover have "xs_res (AddRoute r s) = xs_res s" by (simp add: AddRoute_def)
  ultimately show "holding q n i a b (AddRoute r s)" using assms by (simp add: holding_def AddRoute_in_node)
qed

lemma route_name_fits:
  "\<forall>v. nm = Some v \<longrightarrow> length v < NAME_LEN \<Longrightarrow>
   length (case nm of None \<Rightarrow> [] | Some v \<Rightarrow> strncpy_name v) < NAME_LEN"
  by (cases nm) (simp_all add: strncpy_name_def NAME_LEN_def)

lemma safe_connect_sockets [safe]: "safeX (in_node q n i) connect_sockets anything"
  unfolding safeX_def
proof (intro allI impI)
  fix s assume s: "in_node q n i s"
  obtain con where con: "xs_con s = con" by simp
  let ?a = "cd_inSocket con" and ?b = "cd_outSocket con"
  have start: "holding q n i ?a ?b s" "\<forall>v. cd_routeName con = Some v \<longrightarrow> length v < NAME_LEN"
    using s con by (auto simp: holding_def in_node_def sockets_ok_def)
  have nod: "safeX (holding q n i ?a ?b) (getX (\<lambda>s. (cd_jobList (xs_con s), nd_nod (xs_node s)))) (\<lambda>p. snd p = i)"
    by (rule safeX_get) (simp add: holding_def in_node_def)
  show "okX connect_sockets s (\<lambda>x s. True \<and> in_node q n i s) (\<lambda>_. in_node q n i)"
  proof (cases "?a = Null \<or> ?b = Null")
    case True
    then show ?thesis using s by (simp add: connect_sockets_def con)
  next
    case False
    then have null: "?a \<noteq> Null" "?b \<noteq> Null" by simp_all
    show ?thesis
      unfolding connect_sockets_def okX_bindX [of "getX xs_con"] okX_getX con if_not_P [OF False] Let_def
      by (rule okX_mono [OF safeXD [where I = "holding q n i ?a ?b" and P = anything, OF _ start(1)]],
        rule safeX_thenX [OF held_connection_object], rule safeX_bindX [OF held.safe_memory(3)],
        rule held_deref [OF null], rule safeX_if, intro held.safe_log safe, rule safeX_bind [OF nod], rule safeX_prod,
        intro held.safe_memory(3,4) safe held_AddRoute)
        (auto simp: route_name_fits [OF start(2)] holding_def)
  qed
qed

section \<open>The depth of the recursion\<close>

text \<open>A network socket needs one level, and one more for the sockets a combiner has waiting.\<close>

lemma safe_network_1: "safe_network True n i (\<lambda>e b. ParseSocket (Suc d) e b MSocket_NETWORK)"
  unfolding safe_network_def
  by (auto simp: Let_def intro!: safeX_thenX safe_NetworkSocketCase safe_pending_none safe_connect_sockets)

lemma safe_network_2: "safe_network False n i (\<lambda>e b. ParseSocket (Suc (Suc d)) e b MSocket_NETWORK)"
  unfolding safe_network_def ParseSocket.simps(2) [of "Suc d"] Let_def MSocketType_t.case
  by (intro allI impI safeX_thenX safe_NetworkSocketCase safe_pending_combiner safe_network_1 safe_connect_sockets)

lemma safe_ParseSocket:
  assumes "doc_fits soc" "soc \<noteq> Other"
  shows "safeX (in_node False n i) (ParseSocket (Suc (Suc (Suc d))) soc b t) anything"
  unfolding ParseSocket.simps(2) [of "Suc (Suc d)"] Let_def
  by (cases t; simp only: MSocketType_t.case;
      intro safeX_thenX safe_NetworkSocketCase [OF assms] safe_UsbSocketCase safe_MlbSocketCase safe_StrmSocketCase
        safe_SplitterCase [OF assms(1)] safe_CombinerCase [OF assms(1)] safe_pending_combiner safe_network_1
        safe_network_2 safe_connect_sockets)

section \<open>Nodes\<close>

lemma safe_parse_socket: "at_elem c \<Longrightarrow> safeX (in_node False n i) (parse_socket c) anything"
  unfolding parse_socket_def SOCKET_DEPTH_def numeral_3_eq_3
  by (intro safe safe_ParseSocket at_elemD logs_only_get; assumption)

lemma safe_GetElementArray:
  assumes "docs_fit c"
  shows "safeX (in_node q n i) (needX (\<lambda>s. (GetElementArray c names b, s)) r t) (\<lambda>p. at_elem (snd p))"
  by (rule node.safe_pure) (use GetElementArray_fits [OF assms] in force)

lemma safe_parse_connection: "at_elem c \<Longrightarrow> safeX (in_node False n i) (parse_connection c) anything"
proof -
  assume c: "at_elem c"
  note driver = safe_fits(3) [OF at_elemD(1,2) [OF c]]
  note array = safe_GetElementArray [OF doc_fits_child [OF at_elemD(1) [OF c]]]
  show ?thesis
    unfolding parse_connection_def Let_def
    by (intro safeX_bind [OF driver] safeX_bind [OF array] safe safe_parse_socket siblings_fit(2) logs_only_get)
      (auto dest: at_elemD)
qed

lemma okX_parse_node:
  assumes "between n i s" "at_elem c" "i < n" "n < 2 ^ 16"
  shows "okX (parse_node c) s (\<lambda>_. between n (Suc i)) (\<lambda>_ _. True)"
proof -
  have i: "unat (of_nat i :: u16) = i" using assms(3,4) by (simp add: unat_of_nat)
  have start: "new_node n i (s\<lparr>xs_node := zero_node_data i\<rparr>)"
    using assms(1,3) by (clarsimp simp: new_node_def between_defs zero_node_data_def)
  have size: "v_nodSize (xs_val s) = of_nat i" using assms(1) by (simp add: between_def)
  have cons: "safeX (in_node False n i) (case GetElementArray (child (hd c)) ALL_CONNECTIONS False of
                None \<Rightarrow> retX ()
              | Some (_, con) \<Rightarrow> forX parse_connection (siblings (is_one_of ALL_CONNECTIONS) con)) anything"
    using GetElementArray_fits [OF doc_fits_child [OF at_elemD(1) [OF assms(2)]], of ALL_CONNECTIONS False]
    by (auto intro!: safe safe_parse_connection siblings_fit(2) dest: at_elemD(3))
  have finish: "between n (Suc i) (upd_val (\<lambda>v. v\<lparr>v_nodSize := v_nodSize v + 1\<rparr>) t)" if "in_node False n i t" for t
    using that unfolding in_node_between
    by (clarsimp simp: between_defs less_Suc_eq)
  show ?thesis
    unfolding parse_node_def Let_def
    by (auto simp: size i intro!: okX_mono [OF okX_ParseNode [OF start at_elemD(1,2) [OF assms(2)]]]
        okX_mono [OF safeXD [OF cons]] finish)
qed

end
