(* ===== verification/Xml_Parse_Safe.thy ===== *)
theory Xml_Parse_Safe
  imports Xml_Node_Safe
begin

text \<open>
  The whole parse is safe on documents that keep to a few limits: routes, scripts and drivers
  after the nodes, and the composition up to \<open>UcsXml_Parse\<close> with its release of everything.
\<close>

section \<open>No early return is a success\<close>

definition failsX :: "('a, 's) xp \<Rightarrow> bool" where
  "failsX m \<longleftrightarrow> (\<forall>s s'. m s \<noteq> Inr (Inl Parse_Success, s'))"

named_theorems fails \<open>an early return is a failure\<close>

lemma fails_basic [fails]:
  "failsX (retX x)" "failsX (updX u)" "failsX (getX g)" "failsX (liftX m)" "failsX (valX r)"
  "failsX (errorX f n a)" "failsX (result_of k)"
  by (auto simp: failsX_def retX_def updX_def getX_def liftX_def valX_def errorX_def result_of_def bindR_def
      split: prod.splits sum.splits)

lemma fails_stopX [fails]: "r \<noteq> Parse_Success \<Longrightarrow> failsX (stopX r)"
  by (simp add: failsX_def stopX_def)

lemma fails_bindX [fails]: "failsX m \<Longrightarrow> (\<And>x. failsX (f x)) \<Longrightarrow> failsX (bindX m f)"
  by (fastforce simp: failsX_def bindX_def bindR_def split: sum.splits prod.splits)

lemma fails_thenX [fails]: "failsX m \<Longrightarrow> failsX n \<Longrightarrow> failsX (thenX m n)"
  by (simp add: thenX_def fails_bindX)

lemma fails_RETURN_ASSERT [fails]: "r \<noteq> Parse_Success \<Longrightarrow> failsX (RETURN_ASSERT r t)"
  unfolding RETURN_ASSERT_def by (intro fails)

lemma fails_cases [fails]:
  "(b \<Longrightarrow> failsX m) \<Longrightarrow> (\<not> b \<Longrightarrow> failsX n) \<Longrightarrow> failsX (if b then m else n)"
  "failsX m \<Longrightarrow> (\<And>v. x = Some v \<Longrightarrow> failsX (f v)) \<Longrightarrow> failsX (case x of None \<Rightarrow> m | Some v \<Rightarrow> f v)"
  "(\<And>a b. failsX (g a b)) \<Longrightarrow> failsX (case p of (a, b) \<Rightarrow> g a b)"
  by (cases b; cases x; cases p; simp)+

lemma fails_needX [fails]: "r \<noteq> Parse_Success \<Longrightarrow> failsX (needX m r t)"
  unfolding needX_def by (intro fails)

lemma fails_foldX [fails]: "(\<And>x a. failsX (f x a)) \<Longrightarrow> failsX (foldX f xs a)"
  by (induction xs arbitrary: a) (auto intro!: fails)

lemma fails_action: "script_action nam = Some parse \<Longrightarrow> failsX (parse act slot pause)"
  unfolding script_action_def
  by (auto split: if_splits)
    (unfold ParseScriptMsgSend_def ParseScriptGpioPortCreate_def ParseScriptGpioPinMode_def
      ParseScriptGpioPinState_def ParseScriptPortCreate_def ParseScriptPortWrite_def ParseScriptPortRead_def
      need_fill_def FillScriptInitialValues_def need_memory_def Let_def, (intro fails; simp)+)

lemma fails_ParseScript: "failsX (ParseScript scr)"
  unfolding ParseScript_def script_step_def script_target_def ParseScriptPause_def Let_def
  by (intro fails fails_action) simp_all

lemma fails_forX [fails]: "(\<And>x. failsX (f x)) \<Longrightarrow> failsX (forX f xs)"
  by (induction xs) (auto intro!: fails)

lemma fails_abortX [fails]: "failsX (abortX m t)"
  unfolding abortX_def by (intro fails)

lemma fails_ParseAllScripts: "failsX (ParseAllScripts tree check)"
  unfolding ParseAllScripts_def script_used_def by (intro fails) simp_all

lemma okX_fails: "okX m s Q (\<lambda>_ _. True) \<Longrightarrow> failsX m \<Longrightarrow> okX m s Q (\<lambda>e _. e \<noteq> Parse_Success)"
  by (cases "m s") (auto simp: okX_def failsX_def split: sum.splits)

section \<open>Routes\<close>

text \<open>The end of a route at the network is one of its nodes; what is created by default has no node.\<close>

definition endpoint_ok :: "xst \<Rightarrow> XEndPoint option \<Rightarrow> bool" where
  "endpoint_ok s e \<longleftrightarrow> (case e of None \<Rightarrow> False
     | Some e \<Rightarrow> ep_type e \<in> {UCS_RM_EP_SOURCE, UCS_RM_EP_SINK} \<longrightarrow> node_ok s (ep_node e))"

definition route_ok :: "xst \<Rightarrow> XRmRoute \<Rightarrow> bool" where
  "route_ok s r \<longleftrightarrow> endpoint_ok s (rt_source r) \<and> endpoint_ok s (rt_sink r)"

definition routing :: "xst \<Rightarrow> u16 \<Rightarrow> xst \<Rightarrow> bool" where
  "routing s0 amount s \<longleftrightarrow> xs_scripts s = xs_scripts s0 \<and> xs_drivers s = xs_drivers s0 \<and>
     v_nodes (xs_val s) = v_nodes (xs_val s0) \<and> v_nodSize (xs_val s) = v_nodSize (xs_val s0) \<and>
     length (v_routes (xs_val s)) = unat amount \<and>
     (\<forall>j < unat (v_routesSize (xs_val s)). route_ok s0 (v_routes (xs_val s) ! j))"

lemma routing_cong:
  "routing s0 amount s \<Longrightarrow> xs_scripts t = xs_scripts s \<Longrightarrow> xs_drivers t = xs_drivers s \<Longrightarrow> xs_val t = xs_val s \<Longrightarrow>
     routing s0 amount t"
  by (simp add: routing_def)

lemma routing_step:
  assumes "routing s0 amount s" "v_routesSize (xs_val s) < amount" "route_ok s0 r"
    and "xs_scripts t = xs_scripts s" "xs_drivers t = xs_drivers s"
    and "xs_val t = (xs_val s)\<lparr>v_routesSize := v_routesSize (xs_val s) + 1,
           v_routes := (v_routes (xs_val s))[unat (v_routesSize (xs_val s)) := r]\<rparr>"
  shows "routing s0 amount t"
proof -
  have small: "unat (v_routesSize (xs_val s)) < unat amount" using assms(2) by (simp add: word_less_nat_alt)
  moreover have "unat amount < 2 ^ 16" by (rule less_le_trans [OF unsigned_less]) simp
  ultimately have "unat (v_routesSize (xs_val s) + 1) = Suc (unat (v_routesSize (xs_val s)))"
    by (simp add: unat_word_ariths)
  then show ?thesis
    using assms small by (auto simp: routing_def less_Suc_eq)
qed

lemma routing_room:
  "routing s0 amount s \<Longrightarrow> v_routesSize (xs_val s) < amount \<Longrightarrow>
     unat (v_routesSize (xs_val s)) < length (v_routes (xs_val s))"
  by (simp add: routing_def word_less_nat_alt)

lemma safe_fill_named:
  assumes "endpoint_ok s0 (Some (xr_ep a))" "endpoint_ok s0 (Some (xr_ep b))" "routing s0 amount s"
  shows "okX (fill_named amount a b) s (\<lambda>_. routing s0 amount) (\<lambda>e _. e = Parse_MemoryError)"
  using routing_room [OF assms(3)] assms
  by (simp add: fill_named_def okX_next_route okX_route_id_of okX_put_route not_le split: option.splits)
    (auto intro!: routing_step [OF assms(3)] simp: route_ok_def)

lemma same_doc_default: "same_doc s (snd (GetDefaultCreatedEndpoint d s))"
proof -
  obtain c t where m: "MCalloc 1 1 s = (c, t)" by (cases "MCalloc 1 1 s")
  with same_doc_MCalloc [of s 1 1] have "same_doc s t" by simp
  with m show ?thesis by (cases c) (auto simp: GetDefaultCreatedEndpoint_def intro: same_doc_trans)
qed

lemma safe_fill_label:
  assumes "endpoint_ok s0 (Some (xr_ep a))" "routing s0 amount s"
  shows "okX (fill_label amount a fallback label) s (\<lambda>_. routing s0 amount) (\<lambda>e _. e = Parse_MemoryError)"
proof -
  have dc: "endpoint_ok s0 (Some (dc_endpoint d))" for d by (simp add: endpoint_ok_def dc_endpoint_def)
  have frame: "xs_scripts (snd (GetDefaultCreatedEndpoint d t)) = xs_scripts t"
    "xs_drivers (snd (GetDefaultCreatedEndpoint d t)) = xs_drivers t" for d and t :: xst
    using same_doc_default [of t d] by (simp_all add: same_doc_def)
  show ?thesis
    using routing_room [OF assms(2)] assms
    by (simp add: fill_label_def GetDefaultCreatedRoute_def okX_liftX okX_next_route okX_route_id_of
        okX_put_route not_le GetDefaultCreatedEndpoint_frame split: option.splits)
      (auto intro!: routing_step [OF assms(2)] dest!: GetDefaultCreatedEndpoint_frame(3)
        simp: GetDefaultCreatedEndpoint_frame frame route_ok_def dc)
qed

lemma named_pair_safe: "names_ok rs \<Longrightarrow> i < length rs \<Longrightarrow> j < length rs \<Longrightarrow> \<exists>b. named_pair rs i j = Inr b"
proof -
  assume "names_ok rs" "i < length rs" "j < length rs"
  then have "length (xr_routeName (rs ! i)) \<noteq> NAME_LEN" "length (xr_routeName (rs ! j)) \<noteq> NAME_LEN"
    unfolding names_ok_def by (metis less_irrefl nth_mem)+
  then have "named_pair rs i j = Inr (i \<noteq> j \<and> \<not> xr_isTalker (rs ! j) \<and> xr_routeName (rs ! i) \<noteq> [] \<and>
      xr_routeName (rs ! i) = xr_routeName (rs ! j))"
    by (auto simp: named_pair_def names_match_def name_nonempty_def)
  then show ?thesis by blast
qed

text \<open>However many routes there are, the array is not left: a count that wraps around ends in an error.\<close>

lemma okX_ParseRoutes_safe:
  assumes "names_ok (xs_routes s)" "\<forall>r \<in> set (xs_routes s). endpoint_ok s (Some (xr_ep r))"
    "v_routesSize (xs_val s) = 0" "v_routes (xs_val s) = []"
  shows "okX ParseRoutes s (\<lambda>_ t. \<exists>amount. routing s amount t) (\<lambda>e _. e = Parse_MemoryError)"
proof -
  obtain rs where rs: "xs_routes s = rs" by simp
  obtain amount where amount: "count_labels rs (of_nat (length (named_templates rs))) = amount" by simp
  have count: "count_named rs = Inr (of_nat (length (named_templates rs)))"
    using count_named_eq assms(1) rs by simp
  have ep: "i < length rs \<Longrightarrow> endpoint_ok s (Some (xr_ep (rs ! i)))" for i
    using assms(2) rs by simp
  have named: "okX (forX (\<lambda>i. whenX (xr_isTalker (rs ! i))
               (forX (\<lambda>j. bindX (valX (named_pair rs i j)) (\<lambda>m.
                  whenX m (fill_named amount (rs ! i) (rs ! j)))) [0..<length rs])) [0..<length rs])
     t (\<lambda>_. routing s amount) (\<lambda>e _. e = Parse_MemoryError)" if "routing s amount t" for t
    using that
  proof (rule okX_forX)
    fix i u assume i: "i \<in> set [0..<length rs]" and u: "routing s amount u"
    have "okX (forX (\<lambda>j. bindX (valX (named_pair rs i j)) (\<lambda>m.
        whenX m (fill_named amount (rs ! i) (rs ! j)))) [0..<length rs]) u (\<lambda>_. routing s amount) (\<lambda>e _. e = Parse_MemoryError)"
      using u
    proof (rule okX_forX)
      fix j v assume j: "j \<in> set [0..<length rs]" and v: "routing s amount v"
      obtain b where "named_pair rs i j = Inr b" using named_pair_safe [of rs i j] assms(1) rs i j by auto
      then show "okX (bindX (valX (named_pair rs i j)) (\<lambda>m. whenX m (fill_named amount (rs ! i) (rs ! j)))) v
          (\<lambda>_. routing s amount) (\<lambda>e _. e = Parse_MemoryError)"
        using i j v by (auto intro!: safe_fill_named ep)
    qed
    then show "okX (whenX (xr_isTalker (rs ! i)) (forX (\<lambda>j. bindX (valX (named_pair rs i j)) (\<lambda>m.
        whenX m (fill_named amount (rs ! i) (rs ! j)))) [0..<length rs])) u (\<lambda>_. routing s amount) (\<lambda>e _. e = Parse_MemoryError)"
      using u by simp
  qed
  have labels: "okX (forX (\<lambda>r. thenX (fill_label amount r False (xr_labelNormal r))
                      (fill_label amount r True (xr_labelFallback r))) rs) t
     (\<lambda>_. routing s amount) (\<lambda>e _. e = Parse_MemoryError)" if "routing s amount t" for t
    using that
    by (rule okX_forX) (use assms(2) rs in \<open>auto intro!: okX_mono [OF safe_fill_label] safe_fill_label\<close>)
  show ?thesis
  proof (cases "amount = 0")
    case True
    then show ?thesis
      using assms(3,4) by (auto simp: ParseRoutes_def rs count amount routing_def intro!: exI [of _ 0])
  next
    case False
    obtain c t where m: "MCalloc (unat amount) 1 s = (c, t)" by (cases "MCalloc (unat amount) 1 s")
    then have "same_doc s t" using same_doc_MCalloc [of s "unat amount" 1] by simp
    then have "routing s amount (upd_val (\<lambda>v. v\<lparr>v_routes := replicate (unat amount) zero_route\<rparr>) t)"
      using assms(3) by (simp add: routing_def same_doc_def)
    from named [OF this] show ?thesis
      using False m
      by (cases c) (auto simp: ParseRoutes_def rs count amount need_memory_error_def needX_def okX_liftX
          simp del: forX.simps One_nat_def elim!: okX_mono intro!: okX_mono [OF labels])
  qed
qed

section \<open>Scripts and drivers\<close>

text \<open>After the routes.\<close>

definition finished :: "nat \<Rightarrow> xst \<Rightarrow> bool" where
  "finished n s \<longleftrightarrow> refs_fit s \<and> xs_drivers s = [] \<and> length (v_nodes (xs_val s)) = n \<and>
     v_nodSize (xs_val s) = of_nat n \<and> (\<forall>k < n. node_ok s k) \<and>
     (\<forall>j < unat (v_routesSize (xs_val s)). route_ok s (v_routes (xs_val s) ! j))"

lemma ok_nodes:
  assumes "\<And>k. node_ok t k = node_ok s k"
  shows "route_ok t r = route_ok s r" "endpoint_ok t e = endpoint_ok s e"
  using assms by (simp_all add: route_ok_def endpoint_ok_def split: option.split)

interpretation after_routes: doc_inv "finished n" for n
proof
  fix s t assume s: "finished n s" "same_doc s t"
  then have same: "node_ok t k = node_ok s k" for k by (simp add: node_ok_def same_doc_def)
  with s show "finished n t" by (simp add: finished_def refs_fit_def ok_nodes [OF same] same_doc_def)
qed

lemma finished_installed:
  assumes "finished n s" "script_installed scr s t"
  shows "finished n t"
proof -
  obtain nam script where i: "xs_drivers t = xs_drivers s" "xs_scripts t = map (marked nam) (xs_scripts s)"
    "xs_val t = (xs_val s)\<lparr>v_nodes := given nam script (of_nat (length script)) (xs_scripts s) (v_nodes (xs_val s))\<rparr>"
    using assms(2) by (auto simp: script_installed_def)
  have same: "node_ok t k = node_ok s k" for k
    by (auto simp: node_ok_def i(3) nth_given split: if_splits)
  moreover have "route_ok t r = route_ok s r" for r by (rule ok_nodes [OF same])
  moreover have "refs_fit t" using assms(1) same
    by (auto simp: finished_def refs_fit_def i(2) marked_def)
  ultimately show ?thesis using assms(1) by (simp add: finished_def i(1,3))
qed

lemma okX_one_script:
  assumes "finished n s" "at_elem c" "elem_name (hd c) = ''Script''"
  shows "okX (abortX (ParseScript (hd c)) reason) s (\<lambda>_. finished n) (\<lambda>_ _. True)"
proof -
  have "refs_ok s" using assms(1) unfolding refs_ok_def finished_def refs_fit_def node_ok_def by blast
  moreover have "child (hd c) \<noteq> [] \<longrightarrow> script_fits (hd c)"
    using doc_fits_attrs [OF at_elemD(1) [OF assms(2)]] at_elemD(2) [OF assms(2)] assms(3)
    by (cases "hd c") (auto simp: attrs_fit_def)
  ultimately have "okX (ParseScript (hd c)) s (\<lambda>_. script_installed (hd c) s) (\<lambda>e _. e \<noteq> Parse_Success)"
    by (intro okX_fails fails_ParseScript okX_ParseScript)
  then show ?thesis
    unfolding abortX_def okX_bindX okX_result_of
    by (rule okX_mono) (auto intro: finished_installed [OF assms(1)])
qed

lemma mxmlFindElement_named: "mxmlFindElement c nam = d # ds \<Longrightarrow> is_named nam d"
  by (cases c) (auto simp: mxmlFindElement_eq dest: find_named)

lemma GetElement_named: "fst (GetElement c nam deep m s) = Some d \<Longrightarrow> is_named nam (hd d)"
proof (cases deep)
  case True
  moreover assume "fst (GetElement c nam deep m s) = Some d"
  ultimately show ?thesis
    by (cases d) (auto simp: GetElement_def as_pointer_def dest: mxmlFindElement_named split: if_splits)
next
  case False
  moreover assume "fst (GetElement c nam deep m s) = Some d"
  ultimately have "dropWhile (\<lambda>n. \<not> is_named nam n) (tl c) = d \<and> d \<noteq> []"
    by (auto simp: GetElement_def split: if_splits list.splits)
  then show ?thesis using hd_dropWhile [of "\<lambda>n. \<not> is_named nam n" "tl c"] by simp
qed

lemma is_named_elem: "is_named nam n \<Longrightarrow> elem_name n = nam"
  by (cases n) simp_all

lemma same_named:
  assumes "at_elem sub" "is_named nam (hd sub)" "c \<in> set (sub # siblings (is_named nam) (tl sub))"
  shows "at_elem c \<and> elem_name (hd c) = nam"
proof -
  have "docs_fit (tl sub)" using at_elemD(3) [OF assms(1)] by (cases sub) simp_all
  then show ?thesis
    using assms siblings_fit(1) [of "tl sub" c nam] siblings_head [of c "is_named nam" "tl sub"] is_named_elem
    by auto
qed

lemma okX_script_used:
  assumes "finished n s" "\<forall>sc \<in> set scripts. \<exists>k. sc_node sc = Some k \<and> k < n"
  shows "okX (foldX script_used scripts True) s (\<lambda>_. finished n) (\<lambda>_ _. True)"
  using assms(1)
proof (rule okX_foldX [where I = "\<lambda>_. finished n"])
  fix sc b t assume sc: "sc \<in> set scripts" and t: "finished n t"
  then obtain k where k: "sc_node sc = Some k" "k < n" using assms(2) by blast
  then obtain a where "script_node_address (v_nodes (xs_val t)) sc = Inr a"
    using t by (auto simp: script_node_address_def finished_def node_ok_def)
  then show "okX (script_used sc b) t (\<lambda>_. finished n) (\<lambda>_ _. True)"
    using t by (auto simp: script_used_def intro: after_routes.same_doc)
qed

lemma okX_ParseAllScripts:
  assumes "docs_fit tree" "finished n s"
  shows "okX (ParseAllScripts tree True) s (\<lambda>_. finished n) (\<lambda>_ _. True)"
proof -
  have get: "safeX (finished n) (liftX (GetElement tree ''Script'' True False))
      (\<lambda>x. \<forall>sub. x = Some sub \<longrightarrow> at_elem sub \<and> is_named ''Script'' (hd sub))"
    by (intro after_routes.safe_lift same_doc_logs logs_only_get)
      (auto dest: GetElement_fits [OF assms(1)] GetElement_named)
  have each: "okX (forX (\<lambda>c. abortX (ParseScript (hd c)) ''Aborting further parsing, because scripts failed'')
       (sub # siblings (is_named ''Script'') (tl sub))) t (\<lambda>_. finished n) (\<lambda>_ _. True)"
    if "at_elem sub" "is_named ''Script'' (hd sub)" "finished n t" for sub t
    using that(3)
    by (rule okX_forX) (use same_named [OF that(1,2)] in \<open>auto intro!: okX_one_script simp del: list.set\<close>)
  have final: "okX (bindX (getX xs_scripts) (\<lambda>scripts.
          bindX (if True then foldX script_used scripts True else retX True) (\<lambda>found.
          if found then retX () else RETURN_ASSERT Parse_XmlError ''Script not found''))) t (\<lambda>_. finished n) (\<lambda>_ _. True)"
    if "finished n t" for t
  proof -
    have "\<forall>sc \<in> set (xs_scripts t). \<exists>k. sc_node sc = Some k \<and> k < n"
      using that by (auto simp: finished_def refs_fit_def node_ok_def)
    then show ?thesis by (auto intro!: okX_mono [OF okX_script_used [OF that]])
  qed
  show ?thesis
    unfolding ParseAllScripts_def
  proof (rule okX_bind_safe [OF get assms(2)])
    fix x t assume x: "\<forall>sub. x = Some sub \<longrightarrow> at_elem sub \<and> is_named ''Script'' (hd sub)" and t: "finished n t"
    then show "okX (case x of None \<Rightarrow> retX () | Some sub \<Rightarrow>
         thenX (forX (\<lambda>c. abortX (ParseScript (hd c)) ''Aborting further parsing, because scripts failed'')
                  (sub # siblings (is_named ''Script'') (tl sub)))
         (bindX (getX xs_scripts) (\<lambda>scripts.
          bindX (if True then foldX script_used scripts True else retX True) (\<lambda>found.
          if found then retX () else RETURN_ASSERT Parse_XmlError ''Script not found''))))
        t (\<lambda>_. finished n) (\<lambda>_ _. True)"
      by (cases x) (simp, simp only: option.case okX_thenX,
          rule okX_mono [OF each], simp_all only: final simp_thms)
  qed
qed

text \<open>Without driver links every driver element ends the parse.\<close>

lemma okX_drivers:
  assumes "finished n s"
  shows "okX (thenX (parse_drivers tree) fill_drivers) s (\<lambda>_. finished n) (\<lambda>_ _. True)"
proof -
  have none: "safeX (finished n) (getX xs_drivers) (\<lambda>ds. ds = [])"
    by (rule safeX_get) (simp add: finished_def)
  have "safeX (finished n) (ParseDriver drv) anything" for drv
    unfolding ParseDriver_def by (rule safeX_bind [OF none]) (auto intro: safe)
  then have "safeX (finished n) (parse_drivers tree) anything"
    unfolding parse_drivers_def abortX_def by (intro safe logs_only_get) simp_all
  moreover have "finished n (upd_val (\<lambda>v. v\<lparr>v_driverSize := w\<rparr>) t)" if "finished n t" for w t
  proof -
    have same: "node_ok (upd_val (\<lambda>v. v\<lparr>v_driverSize := w\<rparr>) t) k = node_ok t k" for k by (simp add: node_ok_def)
    show ?thesis using that by (simp add: finished_def refs_fit_def ok_nodes [OF same] same)
  qed
  then have "safeX (finished n) fill_drivers anything"
    unfolding fill_drivers_def Let_def
    by (intro safeX_bind [OF none] safeX_thenX safeX_updX) (auto simp: GetDrvInfCount_def intro: safe)
  ultimately have "safeX (finished n) (thenX (parse_drivers tree) fill_drivers) anything" by (rule safeX_thenX)
  from safeXD [OF this assms] show ?thesis by (rule okX_mono) simp_all
qed

section \<open>The whole parse\<close>

definition initial :: "xst \<Rightarrow> bool" where
  "initial s \<longleftrightarrow> xs_scripts s = [] \<and> xs_routes s = [] \<and> xs_drivers s = [] \<and> v_routes (xs_val s) = [] \<and>
     v_routesSize (xs_val s) = 0 \<and> v_nodSize (xs_val s) = 0 \<and> sockets_ok False s"

interpretation before: doc_inv initial
  by unfold_locales (clarsimp simp: initial_def sockets_ok_def same_doc_def)

lemma initial_start: "initial (start_state s)"
  by (simp add: initial_def start_state_def zero_val_def sockets_ok_def zero_con_data_def)

definition node_elements :: "cursor \<Rightarrow> cursor list" where
  "node_elements tree = (case mxmlFindElement tree ''Node'' of
     [] \<Rightarrow> [] | n # ns \<Rightarrow> (n # ns) # siblings (is_named ''Node'') ns)"

lemma okX_forX_index:
  assumes "J 0 s" "\<And>k s. k < length xs \<Longrightarrow> J k s \<Longrightarrow> okX (f (xs ! k)) s (\<lambda>_. J (Suc k)) E"
  shows "okX (forX f xs) s (\<lambda>_. J (length xs)) E"
  using assms
proof (induction xs arbitrary: J s)
  case (Cons x xs)
  have "okX (f x) s (\<lambda>_. J (Suc 0)) E" using Cons.prems(2) [of 0] Cons.prems(1) by simp
  moreover have "okX (forX f xs) t (\<lambda>_. J (length (x # xs))) E" if "J (Suc 0) t" for t
    using Cons.IH [of "\<lambda>k. J (Suc k)" t] Cons.prems(2) [of "Suc _"] that by simp
  ultimately show ?case by (auto elim: okX_mono)
qed simp

lemma routing_finished:
  assumes "between n n s" "routing s amount t"
  shows "finished n t"
proof -
  have same: "node_ok t k = node_ok s k" for k using assms(2) by (simp add: node_ok_def routing_def)
  show ?thesis
    using assms by (auto simp: finished_def ok_nodes [OF same] same refs_fit_def routing_def between_def lists_ok_def)
qed

lemma okX_after_nodes:
  assumes "between n n s" "docs_fit tree"
  shows "okX (thenX (abortX ParseRoutes r1) (thenX (abortX (ParseAllScripts tree True) r2)
     (thenX (parse_drivers tree) fill_drivers))) s (\<lambda>_. finished n) (\<lambda>_ _. True)"
proof -
  have "names_ok (xs_routes s)" "\<forall>r \<in> set (xs_routes s). endpoint_ok s (Some (xr_ep r))"
    using assms(1) by (auto simp: between_def lists_ok_def routes_fit_def names_ok_def endpoint_ok_def)
  moreover have "v_routesSize (xs_val s) = 0" "v_routes (xs_val s) = []"
    using assms(1) by (auto simp: between_def lists_ok_def)
  ultimately have routes: "okX ParseRoutes s (\<lambda>_. finished n) (\<lambda>e _. e = Parse_MemoryError)"
    by (intro okX_mono [OF okX_ParseRoutes_safe]) (auto intro: routing_finished [OF assms(1)])
  have scripts: "okX (abortX (ParseAllScripts tree True) r2) t (\<lambda>_. finished n) (\<lambda>_ _. True)" if "finished n t" for t
    using okX_fails [OF okX_ParseAllScripts [OF assms(2) that] fails_ParseAllScripts]
    by (auto simp: abortX_def elim!: okX_mono)
  show ?thesis
    unfolding okX_thenX
    by (rule okX_mono [where Q = "\<lambda>_. finished n" and E = "\<lambda>_ _. True"])
      (auto simp: abortX_def [of ParseRoutes] intro!: okX_mono [OF routes] okX_mono [OF scripts] okX_drivers [unfolded okX_thenX])
qed

lemma between_start:
  assumes "initial s" "length nds = n"
  shows "between n 0 (upd_val (\<lambda>v. v\<lparr>v_nodes := nds\<rparr>) s)"
  using assms by (simp add: initial_def between_def lists_ok_def refs_fit_def routes_fit_def sockets_ok_def)

lemma between_values:
  assumes "between n i s"
  shows "between n i (upd_val (\<lambda>v. v\<lparr>v_packetBw := w\<rparr>) s)" "between n i (upd_val (\<lambda>v. v\<lparr>v_proxyBw := w\<rparr>) s)"
  using assms by (clarsimp simp: between_defs)+

lemma okX_ParseAll:
  assumes "docs_fit tree" "initial s" "length (node_elements tree) < 2 ^ 16"
  shows "okX (ParseAll tree) s (\<lambda>_. finished (length (node_elements tree))) (\<lambda>_ _. True)"
proof -
  let ?n = "length (node_elements tree)"
  have u: "unat (word_of_nat ?n :: u32) = ?n" using assms(3) by (simp add: unat_of_nat)
  have start: "initial (s\<lparr>xs_autoRouteId := 0x8000\<rparr>)"
    using assms(2) by (simp add: initial_def sockets_ok_def)
  have count: "safeX initial (needX (GetCount tree ''Node'' True) r t) (\<lambda>w. unat w = ?n)" for r t
    by (intro before.safe_needX same_doc_logs logs_only_get)
      (use u in \<open>auto simp: GetCount_def GetElement_def as_pointer_def node_elements_def Let_def
         split: if_splits list.splits\<close>)
  have first: "safeX (between ?n 0) (need_attr (GetElement tree ''Node'' True True))
      (\<lambda>c. c # siblings (is_named ''Node'') (tl c) = node_elements tree)"
    unfolding need_attr_def
    by (intro rest.safe_needX same_doc_logs logs_only_get)
      (auto simp: GetElement_def as_pointer_def node_elements_def split: if_splits list.splits)
  have elems: "at_elem (node_elements tree ! k)" if "k < ?n" for k
  proof (cases "mxmlFindElement tree ''Node''")
    case (Cons d ds)
    then have "node_elements tree ! k \<in> set ((d # ds) # siblings (is_named ''Node'') ds)"
      using that nth_mem [OF that] by (simp add: node_elements_def)
    then show ?thesis
      using same_named [OF mxmlFindElement_fits [OF assms(1) Cons], of "''Node''" "node_elements tree ! k"]
        mxmlFindElement_named [OF Cons] by simp
  qed (use that in \<open>simp add: node_elements_def\<close>)
  have loop: "okX (forX parse_node (node_elements tree)) t (\<lambda>_. between ?n ?n) (\<lambda>_ _. True)" if "between ?n 0 t" for t
    using that by (rule okX_forX_index) (use okX_parse_node [OF _ elems _ assms(3)] in blast)
  show ?thesis
    unfolding ParseAll_def
    apply (subst okX_thenX, subst okX_updX)
    apply (rule okX_bind_safe [OF count start])
    apply (rule okX_bind_safe [OF before.safe_memory(3)], assumption)
    apply (subst okX_thenX, subst okX_updX)
    apply (rule okX_bind_safe [where I = "between ?n 0", OF rest.safe_logs(3)])
      apply simp
     apply (rule between_start, assumption, simp)
    apply (subst okX_thenX, subst okX_updX)
    apply (rule okX_bind_safe [where I = "between ?n 0", OF rest.safe_logs(1)])
      apply simp
     apply (erule between_values)
    apply (subst okX_thenX, rule okX_mono [where Q = "\<lambda>_. between ?n 0" and E = "\<lambda>_ _. True"])
      apply (auto split: option.split intro: between_values)[1]
     apply (rule okX_bind_safe [OF first], assumption)
     apply (simp only: okX_thenX [where m = "forX _ _"])
     apply (rule okX_mono [OF loop], assumption)
      apply (erule okX_after_nodes [OF _ assms(1)])
     apply simp_all
    done
qed

text \<open>
  A document keeps to the limits: no driver links, names of fewer than 32 characters, scripts that
  begin with no action and have a payload where a header is put before it, and fewer
  than 65536 nodes.
\<close>

definition within_limits :: "cursor \<Rightarrow> bool" where
  "within_limits doc \<longleftrightarrow> list_all doc_fits doc \<and>
     length (node_elements (mxmlFindElement doc ''Unicens'')) < 2 ^ 16"

lemma docs_fit_find: "docs_fit doc \<Longrightarrow> docs_fit (mxmlFindElement doc nam)"
  using mxmlFindElement_fits [of doc nam] at_elemD(3) by (cases "mxmlFindElement doc nam") fastforce+

lemma bindR_FreeVal: "bindR (FreeVal v p s) f = Inl e \<Longrightarrow> (\<And>t. f t \<noteq> Inl e) \<Longrightarrow> e = BadFree"
proof -
  assume b: "bindR (FreeVal v p s) f = Inl e" "\<And>t. f t \<noteq> Inl e"
  then have "FreeVal v p s = Inl e" by (auto simp: bindR_fault)
  then show ?thesis
    using FreeObjList_result [of s]
    by (auto simp: FreeVal_def bindR_fault free_def split: option.splits if_splits)
qed

lemma run_parse_okX:
  assumes "okX m s (\<lambda>_. P) (\<lambda>_ _. True)" "failsX m"
  shows "\<exists>r t. run_parse m s = Inr (r, t) \<and> (r = Parse_Success \<longrightarrow> P t)"
proof (cases "m s")
  case (Inr p)
  then show ?thesis
    using assms by (cases p; cases "fst p") (auto simp: okX_def run_parse_def failsX_def)
qed (use assms in \<open>simp add: okX_def\<close>)

lemma fails_need [fails]: "failsX (need_attr m)" "failsX (need_memory_error k)" "failsX (callX c)"
proof -
  show "failsX (need_attr m)" "failsX (need_memory_error k)"
    unfolding need_attr_def need_memory_error_def by (intro fails; simp)+
  show "failsX (callX c)"
    by (auto simp: failsX_def callX_def bindR_def split: sum.splits prod.splits if_splits)
qed

lemma fails_parse_node: "failsX (parse_node c)"
  unfolding parse_node_def parse_connection_def parse_socket_def whenX_def Let_def
  by (intro fails) simp_all

lemma fails_ParseAll: "failsX (ParseAll tree)"
  unfolding ParseAll_def parse_drivers_def fill_drivers_def Let_def
  by (intro fails fails_parse_node) simp_all

text \<open>What a value promises, and the outcomes of the public function.\<close>

definition config_ok :: "xst \<Rightarrow> bool" where
  "config_ok t \<longleftrightarrow> (\<forall>k < length (v_nodes (xs_val t)). xn_signature (v_nodes (xs_val t) ! k) \<noteq> None) \<and>
     unat (v_nodSize (xs_val t)) = length (v_nodes (xs_val t)) \<and>
     (\<forall>j < unat (v_routesSize (xs_val t)). route_ok t (v_routes (xs_val t) ! j))"

lemma finished_config: "finished n t \<Longrightarrow> n < 2 ^ 16 \<Longrightarrow> config_ok t"
  by (auto simp: finished_def config_ok_def node_ok_def unat_of_nat)

definition fine :: "((nat \<times> nat) option \<times> xst) result \<Rightarrow> bool" where
  "fine r \<longleftrightarrow> (case r of Inl f \<Rightarrow> f = BadFree | Inr (v, t) \<Rightarrow> v \<noteq> None \<longrightarrow> config_ok t)"

lemma fine_error: "fine (Inr (None, t))" "fine (bindR (FreeVal v p u) (\<lambda>s. Inr (None, s)))"
proof -
  show "fine (Inr (None, t))" by (simp add: fine_def)
  show "fine (bindR (FreeVal v p u) (\<lambda>s. Inr (None, s)))"
  proof (cases "bindR (FreeVal v p u) (\<lambda>s. Inr (None :: (nat \<times> nat) option, s))")
    case (Inl f)
    then have "f = BadFree" by (rule bindR_FreeVal) simp
    then show ?thesis using Inl by (simp add: fine_def)
  next
    case (Inr q)
    then have "fst q = None" by (cases "FreeVal v p u") auto
    then show ?thesis using Inr by (cases q) (simp add: fine_def)
  qed
qed

lemma UcsXml_Parse_fine:
  assumes "\<And>doc. load input = Some doc \<Longrightarrow> within_limits doc"
  shows "fine (UcsXml_Parse load input s)"
proof (cases "load input")
  case None
  then show ?thesis by (simp add: UcsXml_Parse_def fine_error)
next
  case (Some doc)
  have doc: "docs_fit doc" "length (node_elements (mxmlFindElement doc ''Unicens'')) < 2 ^ 16"
    using assms [OF Some] by (simp_all add: within_limits_def)
  show ?thesis
  proof (cases "doc = [] \<or> mxmlFindElement doc ''Unicens'' = []")
    case True
    then show ?thesis
      using Some by (elim disjE; simp add: UcsXml_Parse_def GetElement_def as_pointer_def Let_def fine_error)
  next
    case False
    then have get: "GetElement doc ''Unicens'' True True u = (Some (mxmlFindElement doc ''Unicens''), u)" for u :: xst
      by (simp add: GetElement_def as_pointer_def)
    obtain b u where b: "calloc (start_state s) = (b, u)" by (cases "calloc (start_state s)")
    obtain c w where c: "calloc u = (c, w)" by (cases "calloc u")
    have "same_doc (start_state s) w"
      using same_doc_trans same_doc_calloc [of "start_state s"] same_doc_calloc [of u] b c by auto
    then have "initial w" by (rule before.same_doc [OF initial_start])
    from run_parse_okX [OF okX_ParseAll [OF docs_fit_find [OF doc(1)] this doc(2)] fails_ParseAll]
    obtain r t where r: "run_parse (ParseAll (mxmlFindElement doc ''Unicens'')) w = Inr (r, t)"
      "r = Parse_Success \<longrightarrow> config_ok t"
      using finished_config [OF _ doc(2)] by blast
    show ?thesis
    proof (cases "b = None \<or> c = None")
      case True
      then show ?thesis
        using b c by (cases b; cases c) (simp_all add: UcsXml_Parse_def Some get Let_def fine_error)
    next
      case False
      then show ?thesis
        using b c r by (cases "r = Parse_Success")
          (auto simp: UcsXml_Parse_def Some get Let_def fine_error, simp add: fine_def)
    qed
  qed
qed

lemma UcsXml_Parse_defined:
  assumes "\<forall>b \<in> live s. b < calloc_calls s" and "\<forall>doc. load input = Some doc \<longrightarrow> within_limits doc"
  shows "\<exists>r t. UcsXml_Parse load input s = Inr (r, t) \<and> (r \<noteq> None \<longrightarrow>
     (\<forall>k < length (v_nodes (xs_val t)). xn_signature (v_nodes (xs_val t) ! k) \<noteq> None) \<and>
     unat (v_nodSize (xs_val t)) = length (v_nodes (xs_val t)) \<and>
     (\<forall>j < unat (v_routesSize (xs_val t)). route_ok t (v_routes (xs_val t) ! j)))"
proof -
  have "UcsXml_Parse load input s \<noteq> Inl BadFree"
    using UcsXml_Parse_outcome [of s UNIV load input] xml_scripts.keeps_ParseAll_scripts assms(1)
    by (auto simp: heap_ok_def parse_outcome_def)
  moreover have "fine (UcsXml_Parse load input s)"
    using assms(2) by (intro UcsXml_Parse_fine) simp
  ultimately show ?thesis
    unfolding fine_def config_ok_def [symmetric] by (auto split: sum.splits prod.splits)
qed


definition sample_doc :: cursor where
  "sample_doc = xml_header [Element ''Unicens'' [(''AsyncBandwidth'', ''80'')] [Other,
     Element ''Node'' [(''Address'', ''0x200''), (''Script'', ''s'')] [Other,
       Element ''SyncConnection'' [] [
         Element ''NetworkSocket'' [(''Route'', ''mic''), (''Bandwidth'', ''4'')] [],
         Element ''MediaLBSocket'' [(''ChannelAddress'', ''10''), (''Bandwidth'', ''4'')] []]],
     Element ''Node'' [(''Address'', ''0x270'')] [
       Element ''SyncConnection'' [] [
         Element ''USBSocket'' [(''EndpointAddress'', ''0x01''), (''FramesPerTransaction'', ''256'')] [],
         Element ''NetworkSocket'' [(''Route'', ''mic''), (''Bandwidth'', ''4'')] []]],
     good_script]]"


end
