(* ===== verification/Xml_Nested_Props.thy ===== *)
theory Xml_Nested_Props
  imports Xml_Parse_Safe
begin

text \<open>
  Sockets inside a splitter: their errors are lost, since the result of the inner call, where
  success is 0, is tested with \<open>!\<close>.
\<close>

lemma create_succeeds:
  fixes s :: xst
  assumes "\<forall>n. calloc_ok s n"
  shows "\<exists>t. create obj None s = ((Some (length (xs_res s)), True), t) \<and> xs_res t = xs_res s @ [obj] \<and>
    xs_con t = xs_con s \<and> xs_node t = xs_node s"
proof -
  obtain c t where m: "MCalloc 1 1 s = (c, t)" by (cases "MCalloc 1 1 s")
  moreover have "c \<noteq> None" using MCalloc_fails(2) [of 1 1 s] assms m by auto
  moreover have "same_doc s t" using same_doc_MCalloc [of s 1 1] m by simp
  ultimately show ?thesis by (auto simp: create_def new_obj_def same_doc_def)
qed

text \<open>
  An error in the socket inside an input splitter is not noticed. When the network socket of
  the splitter has no bandwidth, the error is reported, but the splitter is taken as parsed
  without error, as the input of the connection, and its own input stays an indeterminate
  pointer.
\<close>

theorem splitter_input_indeterminate:
  assumes "map_of (elem_attrs soc) ''BytesPerFrame'' = Some (dec_digits bytes)" and "bytes \<le> 0xFFFF"
    and "child soc = first # rest" and "dropWhile (\<lambda>n. \<not> is_named ''NetworkSocket'' n) rest = inner # later"
    and "map_of (elem_attrs inner) ''Bandwidth'' = None"
    and "cd_combiner (xs_con s) = Null" and "\<forall>n. calloc_ok s n"
  shows "okX (SplitterCase (\<lambda>n b. ParseSocket (Suc d) n b MSocket_NETWORK) soc True) s
     (\<lambda>_ t. \<exists>i w. cd_inSocket (xs_con t) = Ref i \<and> cd_splitter (xs_con t) = Ref i \<and>
        xs_res t ! i = OSplitter \<lparr>spl_port_handle = 0x0D00, spl_bytes_per_frame = w, spl_socket_in = Wild\<rparr> \<and>
        i < length (xs_res t) \<and> xs_errors t \<noteq> []) (\<lambda>_ _. False)"
proof -
  have bpf: "GetUInt16 soc ''BytesPerFrame'' True t = (Some (of_nat bytes), t)" for t :: xst
    using get_integer_printed [of bytes soc "''BytesPerFrame''" "dec_digits bytes" "0xFFFF" True t] assms(1,2)
    by (simp add: GetUInt16_def)
  have bw: "\<exists>es. GetUInt16 inner ''Bandwidth'' True t = (None, t\<lparr>xs_errors := es\<rparr>) \<and> es \<noteq> []" for t :: xst
    by (rule exI [of _ "xs_errors t @ [(''Can not find attribute='' @ quoted ''%s'' @ '' from element <%s>'', 2,
        [XStr ''Bandwidth'', XStr (elem_name inner)])]"])
      (use assms(5) in \<open>simp add: GetUInt16_def get_integer_def GetString_def UcsXml_CB_OnError_def\<close>)
  let ?s = "upd_con (\<lambda>c. c\<lparr>cd_syncOffsetNeeded := True\<rparr>) s"
  let ?obj = "OSplitter \<lparr>spl_port_handle = 0x0D00, spl_bytes_per_frame = of_nat bytes, spl_socket_in = Wild\<rparr>"
  obtain t where t: "create ?obj None ?s = ((Some (length (xs_res s)), True), t)" "xs_res t = xs_res s @ [?obj]"
    "xs_con t = xs_con ?s"
    using create_succeeds [of ?s ?obj] assms(7) by auto
  from bw obtain es where es: "\<And>u :: xst. GetUInt16 inner ''Bandwidth'' True u = (None, u\<lparr>xs_errors := es u\<rparr>) \<and> es u \<noteq> []"
    by metis
  show ?thesis
    using assms(3,4,6) t
    by (simp add: SplitterCase_def need_attr_def needX_def bpf okX_liftX createX_def GetSplitter_def inner_sockets_def
        GetElement_def Let_def NetworkSocketCase_def es UcsXml_CB_OnError_def del: dropWhile_eq_Nil_conv)
qed

definition bad_splitter :: mxml_node_t where
  "bad_splitter = Element ''Splitter'' [(''BytesPerFrame'', ''8'')] [Other, Element ''NetworkSocket'' [(''Route'', ''r'')] []]"

text \<open>With a driver link, the pointer is read; here only the offset of the inner socket is missing.\<close>

definition wild_doc :: cursor where
  "wild_doc = xml_header [Element ''Unicens'' [(''AsyncBandwidth'', ''80'')] [
     Element ''Node'' [(''Address'', ''0x200'')] [
       Element ''SyncConnection'' [(''Driver'', ''d'')] [
         Element ''Splitter'' [(''BytesPerFrame'', ''8'')] [Other,
           Element ''NetworkSocket'' [(''Route'', ''r''), (''Bandwidth'', ''4'')] []],
         Element ''MediaLBSocket'' [(''ChannelAddress'', ''10''), (''Bandwidth'', ''4'')] []]]]]"

theorem splitter_input_indeterminate_witness:
  "okX (SplitterCase (\<lambda>n b. ParseSocket 1 n b MSocket_NETWORK) bad_splitter True) empty_state
     (\<lambda>_ t. xs_errors t \<noteq> []) (\<lambda>_ _. False) \<and>
   (case UcsXml_Parse (\<lambda>_. Some wild_doc) [] empty_state of Inl f \<Rightarrow> f = WildDeref | Inr _ \<Rightarrow> False)"
proof
  have "dec_digits 8 = ''8''" by (simp add: dec_digits.simps hex_digit_def)
  then show "okX (SplitterCase (\<lambda>n b. ParseSocket 1 n b MSocket_NETWORK) bad_splitter True) empty_state
      (\<lambda>_ t. xs_errors t \<noteq> []) (\<lambda>_ _. False)"
    using splitter_input_indeterminate [of bad_splitter 8 Other "[Element ''NetworkSocket'' [(''Route'', ''r'')] []]"
        "Element ''NetworkSocket'' [(''Route'', ''r'')] []" "[]" empty_state 0]
    by (simp add: bad_splitter_def empty_state_def zero_con_data_def) (auto elim: okX_mono)
  show "case UcsXml_Parse (\<lambda>_. Some wild_doc) [] empty_state of Inl f \<Rightarrow> f = WildDeref | Inr _ \<Rightarrow> False"
    by code_simp
qed

end
