(* ===== verification/Mxml_Node.thy ===== *)
theory Mxml_Node
  imports Control
begin

text \<open>
  Nodes of mini-XML and the pointers between them: libraries/mxml/mxml-node.c and the attributes
  of mxml-attr.c. A \<open>mxml_node_t *\<close> is NULL or an address of the heap; a freed address stays
  unused, and following a pointer to it is a fault. The strings of a node are values, NULL when
  their copy could not be allocated; whether the n-th allocation succeeds is \<open>malloc_ok\<close>.

  Numbers as node values (\<open>MXML_REAL\<close>) and custom data are left out: the loader makes elements and
  text only, as it is called without callbacks.
\<close>

section \<open>Heap\<close>

datatype mxml_value_t =
    VElement "string option" "(string \<times> string option) list"
  | VInteger int
  | VOpaque "string option"
  | VText bool "string option"

record mxml_node =
  n_next :: "nat option"
  n_prev :: "nat option"
  n_parent :: "nat option"
  n_child :: "nat option"
  n_last_child :: "nat option"
  n_value :: mxml_value_t
  n_ref_count :: int

record mheap =
  mx_nodes :: "mxml_node option list"
  malloc_ok :: "nat \<Rightarrow> bool"
  malloc_calls :: nat

definition node_at :: "nat option \<Rightarrow> mxml_node option list \<Rightarrow> mxml_node result" where
  "node_at p h = (case p of
     None \<Rightarrow> Inl NullDeref
   | Some a \<Rightarrow> if a < length h then (case h ! a of None \<Rightarrow> Inl WildDeref | Some n \<Rightarrow> Inr n) else Inl WildDeref)"

definition put_node :: "nat option \<Rightarrow> mxml_node option \<Rightarrow> 'z mheap_scheme \<Rightarrow> 'z mheap_scheme" where
  "put_node p n s = s\<lparr>mx_nodes := (mx_nodes s)[the p := n]\<rparr>"

definition get_node :: "nat option \<Rightarrow> ('e, mxml_node, 'z mheap_scheme) xe" where
  "get_node p = bindX (getX mx_nodes) (\<lambda>h. valX (node_at p h))"

definition set_node :: "nat option \<Rightarrow> (mxml_node \<Rightarrow> mxml_node) \<Rightarrow> ('e, unit, 'z mheap_scheme) xe" where
  "set_node p f = bindX (get_node p) (\<lambda>n. updX (put_node p (Some (f n))))"

text \<open>\<open>malloc\<close>, \<open>calloc\<close>, \<open>realloc\<close>: whether the call succeeds; \<open>strdup\<close>: the copy or NULL.\<close>

definition allocate :: "'z mheap_scheme \<Rightarrow> bool \<times> 'z mheap_scheme" where
  "allocate s = (malloc_ok s (malloc_calls s), s\<lparr>malloc_calls := malloc_calls s + 1\<rparr>)"

definition strdup :: "string \<Rightarrow> 'z mheap_scheme \<Rightarrow> string option \<times> 'z mheap_scheme" where
  "strdup txt s = (case allocate s of (ok, s) \<Rightarrow> (if ok then Some txt else None, s))"

section \<open>Linking\<close>

definition mxmlRemove :: "nat option \<Rightarrow> ('e, unit, 'z mheap_scheme) xe" where
  "mxmlRemove node =
     (if node = None then retX () else
      bindX (get_node node) (\<lambda>n.
      if n_parent n = None then retX () else
      thenX (if n_prev n \<noteq> None then set_node (n_prev n) (\<lambda>m. m\<lparr>n_next := n_next n\<rparr>)
             else set_node (n_parent n) (\<lambda>m. m\<lparr>n_child := n_next n\<rparr>))
      (thenX (if n_next n \<noteq> None then set_node (n_next n) (\<lambda>m. m\<lparr>n_prev := n_prev n\<rparr>)
              else set_node (n_parent n) (\<lambda>m. m\<lparr>n_last_child := n_prev n\<rparr>))
      (set_node node (\<lambda>m. m\<lparr>n_parent := None, n_prev := None, n_next := None\<rparr>)))))"

datatype add_where = MXML_ADD_BEFORE | MXML_ADD_AFTER

text \<open>\<open>!child || child == edge || child->parent != parent\<close>\<close>

definition at_edge :: "nat option \<Rightarrow> nat option \<Rightarrow> nat option \<Rightarrow> ('e, bool, 'z mheap_scheme) xe" where
  "at_edge chld edge parent =
     (if chld = None \<or> chld = edge then retX True
      else bindX (get_node chld) (\<lambda>c. retX (n_parent c \<noteq> parent)))"

definition add_before :: "nat option \<Rightarrow> nat option \<Rightarrow> nat option \<Rightarrow> ('e, unit, 'z mheap_scheme) xe" where
  "add_before parent chld node =
     bindX (get_node parent) (\<lambda>p.
     bindX (at_edge chld (n_child p) parent) (\<lambda>first.
     if first then
       thenX (set_node node (\<lambda>n. n\<lparr>n_next := n_child p\<rparr>))
       (thenX (if n_child p \<noteq> None then set_node (n_child p) (\<lambda>c. c\<lparr>n_prev := node\<rparr>)
               else set_node parent (\<lambda>p. p\<lparr>n_last_child := node\<rparr>))
       (set_node parent (\<lambda>p. p\<lparr>n_child := node\<rparr>)))
     else
       bindX (get_node chld) (\<lambda>c.
       thenX (set_node node (\<lambda>n. n\<lparr>n_next := chld, n_prev := n_prev c\<rparr>))
       (thenX (if n_prev c \<noteq> None then set_node (n_prev c) (\<lambda>b. b\<lparr>n_next := node\<rparr>)
               else set_node parent (\<lambda>p. p\<lparr>n_child := node\<rparr>))
       (set_node chld (\<lambda>c. c\<lparr>n_prev := node\<rparr>))))))"

definition add_after :: "nat option \<Rightarrow> nat option \<Rightarrow> nat option \<Rightarrow> ('e, unit, 'z mheap_scheme) xe" where
  "add_after parent chld node =
     bindX (get_node parent) (\<lambda>p.
     bindX (at_edge chld (n_last_child p) parent) (\<lambda>final.
     if final then
       thenX (set_node node (\<lambda>n. n\<lparr>n_parent := parent, n_prev := n_last_child p\<rparr>))
       (thenX (if n_last_child p \<noteq> None then set_node (n_last_child p) (\<lambda>c. c\<lparr>n_next := node\<rparr>)
               else set_node parent (\<lambda>p. p\<lparr>n_child := node\<rparr>))
       (set_node parent (\<lambda>p. p\<lparr>n_last_child := node\<rparr>)))
     else
       bindX (get_node chld) (\<lambda>c.
       thenX (set_node node (\<lambda>n. n\<lparr>n_prev := chld, n_next := n_next c\<rparr>))
       (thenX (if n_next c \<noteq> None then set_node (n_next c) (\<lambda>b. b\<lparr>n_prev := node\<rparr>)
               else set_node parent (\<lambda>p. p\<lparr>n_last_child := node\<rparr>))
       (set_node chld (\<lambda>c. c\<lparr>n_next := node\<rparr>))))))"

definition mxmlAdd ::
  "nat option \<Rightarrow> add_where \<Rightarrow> nat option \<Rightarrow> nat option \<Rightarrow> ('e, unit, 'z mheap_scheme) xe" where
  "mxmlAdd parent place chld node =
     (if parent = None \<or> node = None then retX () else
      bindX (get_node node) (\<lambda>n.
      thenX (whenX (n_parent n \<noteq> None) (mxmlRemove node))
      (thenX (set_node node (\<lambda>n. n\<lparr>n_parent := parent\<rparr>))
      (case place of
         MXML_ADD_BEFORE \<Rightarrow> add_before parent chld node
       | MXML_ADD_AFTER \<Rightarrow> add_after parent chld node))))"

section \<open>Making nodes\<close>

definition mxml_new :: "nat option \<Rightarrow> mxml_value_t \<Rightarrow> ('e, nat option, 'z mheap_scheme) xe" where
  "mxml_new parent v =
     bindX (liftX allocate) (\<lambda>ok. if \<not> ok then retX None else
     bindX (getX (\<lambda>s. length (mx_nodes s))) (\<lambda>a.
     thenX (updX (\<lambda>s. s\<lparr>mx_nodes := mx_nodes s @ [Some \<lparr>n_next = None, n_prev = None, n_parent = None,
              n_child = None, n_last_child = None, n_value = v, n_ref_count = 1\<rparr>]\<rparr>))
     (thenX (whenX (parent \<noteq> None) (mxmlAdd parent MXML_ADD_AFTER None (Some a)))
     (retX (Some a)))))"

text \<open>A new node gets its value behind the creation.\<close>

definition with_value ::
  "('e, nat option, 'z mheap_scheme) xe \<Rightarrow> ('e, mxml_value_t, 'z mheap_scheme) xe
     \<Rightarrow> ('e, nat option, 'z mheap_scheme) xe" where
  "with_value m v =
     bindX m (\<lambda>node. if node = None then retX None else
     bindX v (\<lambda>v. thenX (set_node node (\<lambda>n. n\<lparr>n_value := v\<rparr>)) (retX node)))"

definition mxmlNewElement :: "nat option \<Rightarrow> string \<Rightarrow> ('e, nat option, 'z mheap_scheme) xe" where
  "mxmlNewElement parent name =
     with_value (mxml_new parent (VElement None []))
       (bindX (liftX (strdup name)) (\<lambda>c. retX (VElement c [])))"

definition mxmlNewCDATA :: "nat option \<Rightarrow> string \<Rightarrow> ('e, nat option, 'z mheap_scheme) xe" where
  "mxmlNewCDATA parent data =
     with_value (mxml_new parent (VElement None []))
       (bindX (liftX (strdup (''![CDATA['' @ data @ '']]''))) (\<lambda>c. retX (VElement c [])))"

definition mxmlNewInteger :: "nat option \<Rightarrow> int \<Rightarrow> ('e, nat option, 'z mheap_scheme) xe" where
  "mxmlNewInteger parent i = with_value (mxml_new parent (VInteger 0)) (retX (VInteger i))"

definition mxmlNewOpaque :: "nat option \<Rightarrow> string \<Rightarrow> ('e, nat option, 'z mheap_scheme) xe" where
  "mxmlNewOpaque parent opaque =
     with_value (mxml_new parent (VOpaque None)) (bindX (liftX (strdup opaque)) (\<lambda>c. retX (VOpaque c)))"

definition mxmlNewText :: "nat option \<Rightarrow> bool \<Rightarrow> string \<Rightarrow> ('e, nat option, 'z mheap_scheme) xe" where
  "mxmlNewText parent whitespace txt =
     with_value (mxml_new parent (VText False None))
       (bindX (liftX (strdup txt)) (\<lambda>c. retX (VText whitespace c)))"

section \<open>Releasing nodes\<close>

text \<open>Without the children and without removing the node from its parent.\<close>

definition mxml_free :: "nat option \<Rightarrow> ('e, unit, 'z mheap_scheme) xe" where
  "mxml_free node = bindX (get_node node) (\<lambda>_. updX (put_node node None))"

text \<open>
  One round of the loop of \<open>mxmlDelete\<close>, for the node \<open>node\<close>: go down as long as there are children,
  detaching them; else on to the next sibling, or past the parent, and release the node.
\<close>

definition delete_step :: "nat option \<Rightarrow> nat option \<Rightarrow> ('e, nat option + unit, 'z mheap_scheme) xe" where
  "delete_step node current =
     (if current = None then retX (Inr ()) else
      bindX (get_node current) (\<lambda>c.
      if n_child c \<noteq> None
      then thenX (set_node current (\<lambda>c. c\<lparr>n_child := None\<rparr>)) (retX (Inl (n_child c)))
      else
        bindX (if n_next c \<noteq> None then retX (n_next c)
               else if n_parent c = node then retX None
               else bindX (get_node (n_parent c)) (\<lambda>temp.
                 if n_next temp \<noteq> None then retX (n_next temp)
                 else retX (if n_parent temp = node then None else n_parent temp))) (\<lambda>next.
        thenX (mxml_free current) (retX (Inl next)))))"

text \<open>Every node is gone down from and released at most once.\<close>

definition mxmlDelete :: "nat option \<Rightarrow> ('e, unit, 'z mheap_scheme) xe" where
  "mxmlDelete node =
     (if node = None then retX () else
      thenX (mxmlRemove node)
      (bindX (get_node node) (\<lambda>n.
      bindX (getX (\<lambda>s. 2 * length (mx_nodes s) + 1)) (\<lambda>rounds.
      thenX (loopX rounds (delete_step node) (n_child n))
      (mxml_free node)))))"

definition mxmlRetain :: "nat option \<Rightarrow> ('e, int, 'z mheap_scheme) xe" where
  "mxmlRetain node =
     (if node = None then retX (-1) else
      thenX (set_node node (\<lambda>n. n\<lparr>n_ref_count := n_ref_count n + 1\<rparr>))
      (bindX (get_node node) (\<lambda>n. retX (n_ref_count n))))"

definition mxmlRelease :: "nat option \<Rightarrow> ('e, int, 'z mheap_scheme) xe" where
  "mxmlRelease node =
     (if node = None then retX (-1) else
      thenX (set_node node (\<lambda>n. n\<lparr>n_ref_count := n_ref_count n - 1\<rparr>))
      (bindX (get_node node) (\<lambda>n.
      if n_ref_count n \<le> 0 then thenX (mxmlDelete node) (retX 0) else retX (n_ref_count n))))"

section \<open>Attributes\<close>

definition mxmlElementGetAttr :: "nat option \<Rightarrow> string \<Rightarrow> ('e, string option, 'z mheap_scheme) xe" where
  "mxmlElementGetAttr node name =
     (if node = None then retX None else
      bindX (get_node node) (\<lambda>n. case n_value n of
        VElement _ attrs \<Rightarrow> retX (case map_of attrs name of None \<Rightarrow> None | Some v \<Rightarrow> v)
      | _ \<Rightarrow> retX None))"

fun replace_attr :: "string \<Rightarrow> string option \<Rightarrow> (string \<times> string option) list \<Rightarrow> (string \<times> string option) list" where
  "replace_attr name v [] = []"
| "replace_attr name v ((k, w) # attrs) = (if k = name then (k, v) # attrs else (k, w) # replace_attr name v attrs)"

text \<open>Whether the value was taken over; else the caller releases it.\<close>

definition mxml_set_attr :: "nat option \<Rightarrow> string \<Rightarrow> string option \<Rightarrow> ('e, bool, 'z mheap_scheme) xe" where
  "mxml_set_attr node name v =
     bindX (get_node node) (\<lambda>n. case n_value n of
       VElement e attrs \<Rightarrow>
         if map_of attrs name \<noteq> None
         then thenX (set_node node (\<lambda>n. n\<lparr>n_value := VElement e (replace_attr name v attrs)\<rparr>)) (retX True)
         else
           bindX (liftX allocate) (\<lambda>ok. if \<not> ok then retX False else
           bindX (liftX (strdup name)) (\<lambda>c. case c of
             None \<Rightarrow> retX False
           | Some c \<Rightarrow> thenX (set_node node (\<lambda>n. n\<lparr>n_value := VElement e (attrs @ [(c, v)])\<rparr>)) (retX True)))
     | _ \<Rightarrow> retX False)"

definition mxmlElementSetAttr :: "nat option \<Rightarrow> string \<Rightarrow> string option \<Rightarrow> ('e, unit, 'z mheap_scheme) xe" where
  "mxmlElementSetAttr node name v =
     (if node = None then retX () else
      bindX (get_node node) (\<lambda>n. case n_value n of
        VElement _ _ \<Rightarrow>
          bindX (case v of None \<Rightarrow> retX None | Some v \<Rightarrow> liftX (strdup v)) (\<lambda>c.
          bindX (mxml_set_attr node name c) (\<lambda>_. retX ()))
      | _ \<Rightarrow> retX ()))"

end
