(* ===== verification/Mxml_Tree.thy ===== *)
theory Mxml_Tree
  imports Mxml_Node
begin

text \<open>
  The trees that linked nodes represent. \<open>tree_at h parent prev next t\<close> says that the heap holds the
  tree \<open>t\<close>, whose nodes are marked with their addresses, linked to the given surroundings. Every
  operation of mxml-node.c is described by what it does to that tree; how much of a tree
  \<open>mxmlDelete\<close> releases is described exactly.
\<close>

section \<open>Trees in the heap\<close>

datatype atree = ANode (addr: nat) (node_value: mxml_value_t) (kids: "atree list")

definition first_or :: "nat option \<Rightarrow> atree list \<Rightarrow> nat option" where
  "first_or d ts = (case ts of [] \<Rightarrow> d | t # _ \<Rightarrow> Some (addr t))"

definition last_or :: "nat option \<Rightarrow> atree list \<Rightarrow> nat option" where
  "last_or d ts = (if ts = [] then d else Some (addr (last ts)))"

fun addrs :: "atree \<Rightarrow> nat list" where
  "addrs (ANode a v cs) = a # concat (map addrs cs)"

fun subtrees :: "atree \<Rightarrow> atree list" where
  "subtrees (ANode a v cs) = ANode a v cs # concat (map subtrees cs)"

abbreviation forest_addrs :: "atree list \<Rightarrow> nat list" where
  "forest_addrs ts \<equiv> concat (map addrs ts)"

fun tree_at :: "mxml_node option list \<Rightarrow> nat option \<Rightarrow> nat option \<Rightarrow> nat option \<Rightarrow> atree \<Rightarrow> bool"
  and trees_at :: "mxml_node option list \<Rightarrow> nat option \<Rightarrow> nat option \<Rightarrow> nat option \<Rightarrow> atree list \<Rightarrow> bool" where
  "tree_at h parent prev nxt (ANode a v cs) \<longleftrightarrow>
     node_at (Some a) h = Inr \<lparr>n_next = nxt, n_prev = prev, n_parent = parent, n_child = first_or None cs,
       n_last_child = last_or None cs, n_value = v, n_ref_count = 1\<rparr> \<and> trees_at h (Some a) None None cs"
| "trees_at h parent prev nxt [] \<longleftrightarrow> True"
| "trees_at h parent prev nxt (t # ts) \<longleftrightarrow>
     tree_at h parent prev (first_or nxt ts) t \<and> trees_at h parent (Some (addr t)) nxt ts"

text \<open>The tree with other children below one node.\<close>

fun kids_map :: "nat \<Rightarrow> (atree list \<Rightarrow> atree list) \<Rightarrow> atree \<Rightarrow> atree" where
  "kids_map p f (ANode a v cs) = ANode a v (if a = p then f cs else map (kids_map p f) cs)"

definition add_kid :: "nat \<Rightarrow> atree \<Rightarrow> atree \<Rightarrow> atree" where
  "add_kid p t = kids_map p (\<lambda>cs. cs @ [t])"

definition without :: "nat \<Rightarrow> nat \<Rightarrow> atree \<Rightarrow> atree" where
  "without p a = kids_map p (filter (\<lambda>c. addr c \<noteq> a))"

subsection \<open>Links\<close>

lemma first_last_or [simp]:
  "first_or d [] = d" "first_or d (t # ts) = Some (addr t)" "last_or d [] = d"
  "last_or d (ts @ [t]) = Some (addr t)" "last_or d [t] = Some (addr t)"
  by (simp_all add: first_or_def last_or_def)

lemma first_or_append [simp]: "first_or d (ts @ us) = first_or (first_or d us) ts"
  by (cases ts) simp_all

lemma last_or_append [simp]: "last_or d (ts @ us) = last_or (last_or d ts) us"
  by (simp add: last_or_def)

lemma last_or_Cons: "last_or d (t # ts) = last_or (Some (addr t)) ts"
  by (simp add: last_or_def)

lemma trees_at_append [simp]:
  "trees_at h parent prev nxt (ts @ us) \<longleftrightarrow>
     trees_at h parent prev (first_or nxt us) ts \<and> trees_at h parent (last_or prev ts) nxt us"
  by (induction ts arbitrary: prev) (auto simp: last_or_Cons)

lemma addr_in_addrs [simp]: "addr t \<in> set (addrs t)"
  by (cases t) simp

lemma addr_kids_map [simp]: "addr (kids_map p f t) = addr t"
  by (cases t) simp

lemma first_last_or_map:
  "first_or d (map (kids_map p f) ts) = first_or d ts" "last_or d (map (kids_map p f) ts) = last_or d ts"
  by (cases ts; simp add: last_or_def last_map)+

lemma subtrees_addrs: "S \<in> set (subtrees t) \<Longrightarrow> set (addrs S) \<subseteq> set (addrs t)"
  by (induction t) auto

lemma addr_subtrees: "p \<in> set (addrs t) \<Longrightarrow> \<exists>v cs. ANode p v cs \<in> set (subtrees t)"
  by (induction t) fastforce

lemma subtrees_refl [simp]: "t \<in> set (subtrees t)"
  by (cases t) simp

lemma tree_at_frame:
  "(\<And>a. a \<in> set (addrs t) \<Longrightarrow> node_at (Some a) h' = node_at (Some a) h) \<Longrightarrow>
     tree_at h' parent prev nxt t = tree_at h parent prev nxt t"
  "(\<And>a. a \<in> set (forest_addrs ts) \<Longrightarrow> node_at (Some a) h' = node_at (Some a) h) \<Longrightarrow>
     trees_at h' parent prev nxt ts = trees_at h parent prev nxt ts"
  by (induction h parent prev nxt t and h parent prev nxt ts rule: tree_at_trees_at.induct) auto

text \<open>A tree whose root is linked anew.\<close>

lemma tree_at_relink:
  assumes "tree_at h parent prev nxt t" "distinct (addrs t)"
    and "\<And>a. a \<in> set (addrs t) \<Longrightarrow> a \<noteq> addr t \<Longrightarrow> node_at (Some a) h' = node_at (Some a) h"
    and "\<And>n. node_at (Some (addr t)) h = Inr n \<Longrightarrow>
      node_at (Some (addr t)) h' = Inr (n\<lparr>n_next := nxt', n_prev := prev', n_parent := parent'\<rparr>)"
  shows "tree_at h' parent' prev' nxt' t"
proof (cases t)
  case (ANode a v cs)
  have "trees_at h' (Some a) None None cs = trees_at h (Some a) None None cs"
    using assms(2,3) by (intro tree_at_frame) (auto simp: ANode)
  then show ?thesis using assms(1,4) by (simp add: ANode)
qed

lemma kids_map_other [simp]: "p \<notin> set (addrs t) \<Longrightarrow> kids_map p f t = t"
  by (induction t) (auto intro!: map_idI)

lemma trees_at_member:
  "trees_at h parent prev nxt ts \<Longrightarrow> t \<in> set ts \<Longrightarrow> \<exists>prev nxt. tree_at h parent prev nxt t"
  by (induction ts arbitrary: prev) auto

lemma tree_at_addr: "tree_at h parent prev nxt t \<Longrightarrow> a \<in> set (addrs t) \<Longrightarrow> \<exists>n. node_at (Some a) h = Inr n"
  "trees_at h parent prev nxt ts \<Longrightarrow> a \<in> set (forest_addrs ts) \<Longrightarrow> \<exists>n. node_at (Some a) h = Inr n"
  by (induction h parent prev nxt t and h parent prev nxt ts rule: tree_at_trees_at.induct) auto

lemma distinct_forest_member: "distinct (forest_addrs ts) \<Longrightarrow> t \<in> set ts \<Longrightarrow> distinct (addrs t)"
  by (induction ts) auto

lemma distinct_forest_split:
  assumes "distinct (forest_addrs ts)" "t \<in> set ts" "u \<in> set ts" "a \<in> set (addrs t)" "a \<in> set (addrs u)"
  shows "t = u"
  using assms by (induction ts) auto

lemma trees_at_map:
  assumes "\<And>t prev nxt. t \<in> set ts \<Longrightarrow> tree_at h parent prev nxt t \<Longrightarrow> tree_at h' parent prev nxt (g t)"
    and "\<And>t. addr (g t) = addr t"
  shows "trees_at h parent prev nxt ts \<Longrightarrow> trees_at h' parent prev nxt (map g ts)"
  using assms(1)
proof (induction ts arbitrary: prev)
  case Nil
  then show ?case by simp
next
  case (Cons t ts)
  have "first_or nxt (map g ts) = first_or nxt ts" using assms(2) by (cases ts) simp_all
  then show ?case using Cons assms(2) by simp
qed

text \<open>The children of one node are linked anew and the rest of the tree stays.\<close>

lemma tree_at_kids_map:
  assumes "tree_at h parent prev nxt T" "distinct (addrs T)" "ANode p v cs \<in> set (subtrees T)"
    and frame: "\<And>a. a \<in> set (addrs T) \<Longrightarrow> a \<notin> set (addrs (ANode p v cs)) \<Longrightarrow> node_at (Some a) h' = node_at (Some a) h"
    and p: "\<And>n. node_at (Some p) h = Inr n \<Longrightarrow>
      node_at (Some p) h' = Inr (n\<lparr>n_child := first_or None (f cs), n_last_child := last_or None (f cs)\<rparr>)"
    and kids: "trees_at h' (Some p) None None (f cs)"
  shows "tree_at h' parent prev nxt (kids_map p f T)"
  using assms(1-3) frame
proof (induction T arbitrary: parent prev nxt)
  case (ANode a w ds)
  show ?case
  proof (cases "ANode p v cs = ANode a w ds")
    case True
    then show ?thesis using ANode.prems(1) p kids by auto
  next
    case False
    then obtain d where d: "d \<in> set ds" "ANode p v cs \<in> set (subtrees d)" using ANode.prems(3) by auto
    have sub: "set (addrs (ANode p v cs)) \<subseteq> set (addrs d)" by (rule subtrees_addrs [OF d(2)])
    then have "p \<in> set (addrs d)" by auto
    then have ne: "a \<noteq> p" using ANode.prems(2) d(1) by auto
    have kid: "tree_at h' (Some a) prev nxt (kids_map p f t)" if t: "t \<in> set ds" "tree_at h (Some a) prev nxt t" for t prev nxt
    proof (cases "t = d")
      case True
      show ?thesis
        using True t d ANode.prems(2) by (intro ANode.IH ANode.prems(4)) (auto intro: distinct_forest_member)
    next
      case False
      have apart: "x \<notin> set (addrs d)" if "x \<in> set (addrs t)" for x
        using distinct_forest_split [of ds t d x] ANode.prems(2) t(1) d(1) False that by auto
      have "kids_map p f t = t" using apart \<open>p \<in> set (addrs d)\<close> by (intro kids_map_other) blast
      moreover have "tree_at h' (Some a) prev nxt t = tree_at h (Some a) prev nxt t"
        using apart sub t(1) by (intro tree_at_frame ANode.prems(4)) auto
      ultimately show ?thesis using t(2) by simp
    qed
    have "trees_at h' (Some a) None None (map (kids_map p f) ds)"
      using ANode.prems(1) by (intro trees_at_map [OF kid]) auto
    moreover have "node_at (Some a) h' = node_at (Some a) h"
      using sub d(1) ANode.prems(2) by (intro ANode.prems(4)) auto
    ultimately show ?thesis using ANode.prems(1) ne by (simp add: first_last_or_map)
  qed
qed

section \<open>Reading and writing nodes\<close>

lemma okX_get_node [simp]: "okX (get_node p) s Q E = okR (node_at p (mx_nodes s)) (\<lambda>n. Q n s)"
  by (simp add: get_node_def)

lemma okX_set_node [simp]: "okX (set_node p f) s Q E =
     okR (node_at p (mx_nodes s)) (\<lambda>n. Q () (put_node p (Some (f n)) s))"
  by (simp add: set_node_def)

lemma node_at_live: "node_at (Some a) h = Inr n \<longleftrightarrow> a < length h \<and> h ! a = Some n"
  by (auto simp: node_at_def split: option.splits)

lemma node_at_put [simp]: "node_at (Some a) (mx_nodes s) = Inr m \<Longrightarrow>
     node_at (Some b) (mx_nodes (put_node (Some a) n s)) =
       (if b = a then (case n of None \<Rightarrow> Inl WildDeref | Some n \<Rightarrow> Inr n) else node_at (Some b) (mx_nodes s))"
  by (auto simp: put_node_def node_at_def split: option.splits)

lemma put_node_fields [simp]: "malloc_ok (put_node p n s) = malloc_ok s" "malloc_calls (put_node p n s) = malloc_calls s"
  "length (mx_nodes (put_node p n s)) = length (mx_nodes s)"
  by (simp_all add: put_node_def)

section \<open>A new last child\<close>

text \<open>The tree in the heap of a state; its addresses are distinct.\<close>

definition holds_tree :: "'z mheap_scheme \<Rightarrow> atree \<Rightarrow> bool" where
  "holds_tree s T \<longleftrightarrow> tree_at (mx_nodes s) None None None T \<and> distinct (addrs T)"

definition fresh_node :: "mxml_value_t \<Rightarrow> mxml_node" where
  "fresh_node v = \<lparr>n_next = None, n_prev = None, n_parent = None, n_child = None, n_last_child = None,
     n_value = v, n_ref_count = 1\<rparr>"

lemma tree_at_root: "tree_at h parent prev nxt t \<Longrightarrow> \<exists>n. node_at (Some (addr t)) h = Inr n \<and> n_parent n = parent \<and>
   n_prev n = prev \<and> n_next n = nxt \<and> n_child n = first_or None (kids t) \<and> n_last_child n = last_or None (kids t) \<and>
   n_value n = node_value t \<and> n_ref_count n = 1"
  by (cases t) auto

lemma trees_at_frame_last:
  assumes "trees_at h parent prev nxt (ts @ [l])" "distinct (forest_addrs (ts @ [l]))"
    and "\<And>a. a \<in> set (forest_addrs (ts @ [l])) \<Longrightarrow> a \<noteq> addr l \<Longrightarrow> node_at (Some a) h' = node_at (Some a) h"
    and "\<And>n. node_at (Some (addr l)) h = Inr n \<Longrightarrow> node_at (Some (addr l)) h' = Inr (n\<lparr>n_next := nxt'\<rparr>)"
  shows "trees_at h' parent prev nxt' (ts @ [l])"
proof -
  have l: "tree_at h parent (last_or prev ts) nxt l" using assms(1) by simp
  have "addr l \<notin> set (forest_addrs ts)" using assms(2) addr_in_addrs [of l] by (auto simp del: addr_in_addrs)
  then have "trees_at h' parent prev (Some (addr l)) ts = trees_at h parent prev (Some (addr l)) ts"
    using assms(3) by (intro tree_at_frame) auto
  moreover have "tree_at h' parent (last_or prev ts) nxt' l"
  proof (rule tree_at_relink [OF l])
    show "distinct (addrs l)" using assms(2) by simp
    fix n assume n: "node_at (Some (addr l)) h = Inr n"
    have "n_parent n = parent" "n_prev n = last_or prev ts" using tree_at_root [OF l] n by auto
    then show "node_at (Some (addr l)) h' =
        Inr (n\<lparr>n_next := nxt', n_prev := last_or prev ts, n_parent := parent\<rparr>)"
      using assms(4) [OF n] by simp
  qed (use assms(3) in auto)
  ultimately show ?thesis using assms(1) by simp
qed

lemma tree_at_subtree:
  "tree_at h parent prev nxt T \<Longrightarrow> S \<in> set (subtrees T) \<Longrightarrow> \<exists>parent prev nxt. tree_at h parent prev nxt S"
proof (induction T arbitrary: parent prev nxt)
  case (ANode a v cs)
  show ?case
  proof (cases "S = ANode a v cs")
    case True
    then show ?thesis using ANode.prems(1) by blast
  next
    case False
    then obtain c where c: "c \<in> set cs" "S \<in> set (subtrees c)" using ANode.prems(2) by auto
    obtain prev nxt where "tree_at h (Some a) prev nxt c"
      using trees_at_member [OF _ c(1)] ANode.prems(1) by fastforce
    then show ?thesis by (rule ANode.IH [OF c(1) _ c(2)])
  qed
qed

lemma distinct_subtree: "distinct (addrs T) \<Longrightarrow> S \<in> set (subtrees T) \<Longrightarrow> distinct (addrs S)"
  by (induction T) (auto dest: distinct_forest_member)

lemma tree_at_add_kid:
  assumes T: "tree_at h parent prev nxt T" "distinct (addrs T)" and S: "ANode p w cs \<in> set (subtrees T)"
    and a: "a \<notin> set (addrs T)"
      "node_at (Some a) h' = Inr ((fresh_node v)\<lparr>n_parent := Some p, n_prev := last_or None cs\<rparr>)"
    and p: "\<And>n. node_at (Some p) h = Inr n \<Longrightarrow>
      node_at (Some p) h' = Inr (n\<lparr>n_child := first_or (Some a) cs, n_last_child := Some a\<rparr>)"
    and l: "\<And>n. cs \<noteq> [] \<Longrightarrow> node_at (Some (addr (last cs))) h = Inr n \<Longrightarrow>
      node_at (Some (addr (last cs))) h' = Inr (n\<lparr>n_next := Some a\<rparr>)"
    and frame: "\<And>x. x \<in> set (addrs T) \<Longrightarrow> x \<noteq> p \<Longrightarrow> \<not> (cs \<noteq> [] \<and> x = addr (last cs)) \<Longrightarrow>
      node_at (Some x) h' = node_at (Some x) h"
  shows "tree_at h' parent prev nxt (add_kid p (ANode a v []) T)"
  unfolding add_kid_def
proof (rule tree_at_kids_map [OF T S])
  have sub: "set (addrs (ANode p w cs)) \<subseteq> set (addrs T)" by (rule subtrees_addrs [OF S])
  have dS: "distinct (addrs (ANode p w cs))" by (rule distinct_subtree [OF T(2) S])
  have cs: "trees_at h (Some p) None None cs" using tree_at_subtree [OF T(1) S] by auto
  show "node_at (Some x) h' = node_at (Some x) h" if "x \<in> set (addrs T)" "x \<notin> set (addrs (ANode p w cs))" for x
  proof (rule frame [OF that(1)])
    show "x \<noteq> p" using that(2) by auto
    show "\<not> (cs \<noteq> [] \<and> x = addr (last cs))"
    proof
      assume "cs \<noteq> [] \<and> x = addr (last cs)"
      then have "x \<in> set (forest_addrs cs)" by (auto intro!: bexI [of _ "last cs"])
      with that(2) show False by simp
    qed
  qed
  show "node_at (Some p) h' = Inr (n\<lparr>n_child := first_or None (cs @ [ANode a v []]),
      n_last_child := last_or None (cs @ [ANode a v []])\<rparr>)" if "node_at (Some p) h = Inr n" for n
    using p [OF that] by simp
  have "trees_at h' (Some p) None (Some a) cs"
  proof (cases cs rule: rev_cases)
    case (snoc ds c)
    show ?thesis unfolding snoc
    proof (rule trees_at_frame_last)
      show "trees_at h (Some p) None None (ds @ [c])" "distinct (forest_addrs (ds @ [c]))"
        using cs dS by (simp_all add: snoc)
      show "node_at (Some x) h' = node_at (Some x) h" if "x \<in> set (forest_addrs (ds @ [c]))" "x \<noteq> addr c" for x
        using that sub dS by (intro frame) (auto simp: snoc)
      show "node_at (Some (addr c)) h' = Inr (n\<lparr>n_next := Some a\<rparr>)" if "node_at (Some (addr c)) h = Inr n" for n
        using l that by (simp add: snoc)
    qed
  qed simp
  then show "trees_at h' (Some p) None None (cs @ [ANode a v []])"
    using a(2) by (simp add: fresh_node_def)
qed

lemma kids_map_others [simp]: "p \<notin> set (forest_addrs ts) \<Longrightarrow> map (kids_map p f) ts = ts"
  by (auto intro!: map_idI kids_map_other)

lemma set_addrs_add_kid [simp]:
  "set (addrs (add_kid p t T)) = set (addrs T) \<union> (if p \<in> set (addrs T) then set (addrs t) else {})"
  unfolding add_kid_def by (induction T) (auto split: if_splits)

lemma distinct_add_kid:
  assumes "distinct (addrs T)" "distinct (addrs t)" "set (addrs t) \<inter> set (addrs T) = {}"
  shows "distinct (addrs (add_kid p t T))"
  using assms(1,3)
proof (induction T)
  case (ANode a v cs)
  have kids: "distinct (forest_addrs (map (kids_map p (\<lambda>cs. cs @ [t])) ds))"
    if "distinct (forest_addrs ds)" "set ds \<subseteq> set cs" for ds
    using that
  proof (induction ds)
    case (Cons d ds)
    have d: "distinct (addrs (add_kid p t d))" using ANode Cons.prems by (intro ANode.IH) auto
    show ?case
    proof (cases "p \<in> set (addrs d)")
      case True
      then have "p \<notin> set (forest_addrs ds)" using Cons.prems(1) by auto
      then have "map (kids_map p (\<lambda>cs. cs @ [t])) ds = ds" by simp
      moreover have "set (addrs t) \<inter> set (forest_addrs ds) = {}" using ANode.prems(2) Cons.prems(2) by auto
      ultimately show ?thesis
        using d Cons.prems(1) True set_addrs_add_kid [of p t d] by (auto simp: add_kid_def)
    next
      case False
      then have "set (forest_addrs (map (kids_map p (\<lambda>cs. cs @ [t])) ds)) \<subseteq> set (forest_addrs ds) \<union> set (addrs t)"
        using set_addrs_add_kid [of p t] by (auto simp: add_kid_def split: if_splits)
      moreover have "set (addrs t) \<inter> set (addrs d) = {}" using ANode.prems(2) Cons.prems(2) by auto
      moreover have "set (addrs d) \<inter> set (forest_addrs ds) = {}" using Cons.prems(1) by auto
      ultimately have "set (addrs d) \<inter> set (forest_addrs (map (kids_map p (\<lambda>cs. cs @ [t])) ds)) = {}" by blast
      then show ?thesis using False Cons by simp
    qed
  qed simp
  have "a \<notin> set (addrs t)" using ANode.prems(2) by auto
  then show ?case
    using ANode.prems assms(2) kids [of cs] set_addrs_add_kid [of p t]
    by (auto simp: add_kid_def split: if_splits)
qed

text \<open>Only nodes of a set are written.\<close>

definition relinked :: "nat set \<Rightarrow> 'z mheap_scheme \<Rightarrow> 'z mheap_scheme \<Rightarrow> bool" where
  "relinked A s s' \<longleftrightarrow> (\<exists>h. s' = s\<lparr>mx_nodes := h\<rparr>) \<and> length (mx_nodes s') = length (mx_nodes s) \<and>
     (\<forall>x. x \<notin> A \<longrightarrow> node_at (Some x) (mx_nodes s') = node_at (Some x) (mx_nodes s))"

lemma relinked_refl [simp]: "relinked A s s"
proof -
  have "s = s\<lparr>mx_nodes := mx_nodes s\<rparr>" by simp
  then show ?thesis unfolding relinked_def by blast
qed

lemma relinked_put:
  assumes "relinked A s s'" "b \<in> A" "node_at (Some b) (mx_nodes s') = Inr m"
  shows "relinked A s (put_node (Some b) n s')"
proof -
  have "\<exists>h. put_node (Some b) n s' = s\<lparr>mx_nodes := h\<rparr>"
    using assms(1) by (auto simp: relinked_def put_node_def)
  then show ?thesis using assms node_at_put [OF assms(3)] by (auto simp: relinked_def)
qed

lemma relinked_trans: "relinked A s s' \<Longrightarrow> relinked B s' s'' \<Longrightarrow> relinked (A \<union> B) s s''"
  by (auto simp: relinked_def)

lemma relinked_mono: "relinked A s s' \<Longrightarrow> A \<subseteq> B \<Longrightarrow> relinked B s s'"
  by (auto simp: relinked_def)

lemma last_in_forest: "cs \<noteq> [] \<Longrightarrow> addr (last cs) \<in> set (forest_addrs cs)"
  by (auto intro!: bexI [of _ "last cs"])

text \<open>\<open>mxmlAdd(parent, MXML_ADD_AFTER, MXML_ADD_TO_PARENT, node)\<close> for a node that is not linked yet.\<close>

lemma okX_mxmlAdd_new:
  assumes "holds_tree s T" "p \<in> set (addrs T)" "a \<notin> set (addrs T)"
    and new: "node_at (Some a) (mx_nodes s) = Inr (fresh_node v)"
  shows "okX (mxmlAdd (Some p) MXML_ADD_AFTER None (Some a)) s
     (\<lambda>_ s'. holds_tree s' (add_kid p (ANode a v []) T) \<and> relinked (insert a (set (addrs T))) s s') E"
proof -
  let ?h = "mx_nodes s"
  have T: "tree_at ?h None None None T" "distinct (addrs T)" using assms(1) by (simp_all add: holds_tree_def)
  obtain w cs where S: "ANode p w cs \<in> set (subtrees T)" using addr_subtrees [OF assms(2)] by blast
  have sub: "set (addrs (ANode p w cs)) \<subseteq> set (addrs T)" by (rule subtrees_addrs [OF S])
  have dS: "distinct (addrs (ANode p w cs))" by (rule distinct_subtree [OF T(2) S])
  obtain n where n: "node_at (Some p) ?h = Inr n" "n_child n = first_or None cs" "n_last_child n = last_or None cs"
    using tree_at_subtree [OF T(1) S] by auto
  have ap: "a \<noteq> p" using assms(2,3) by auto
  have dist: "distinct (addrs (add_kid p (ANode a v []) T))"
    using T(2) assms(3) by (intro distinct_add_kid) auto
  note add = tree_at_add_kid [OF T S assms(3), where v = v]
  show ?thesis
  proof (cases cs rule: rev_cases)
    case Nil
    show ?thesis
      unfolding mxmlAdd_def add_after_def at_edge_def holds_tree_def
      using ap new n dist assms(2,3)
      by (simp add: Nil fresh_node_def)
        (auto simp: Nil fresh_node_def intro!: add relinked_put split: if_splits)
  next
    case (snoc ds c)
    have c: "addr c \<in> set (addrs T)" "addr c \<noteq> p" "addr c \<noteq> a"
      using sub dS last_in_forest [of cs] assms(3) by (auto simp: snoc simp del: addr_in_addrs)
    obtain m where m: "node_at (Some (addr c)) ?h = Inr m" using tree_at_addr(1) [OF T(1) c(1)] by blast
    show ?thesis
      unfolding mxmlAdd_def add_after_def at_edge_def holds_tree_def
      using ap new n dist assms(2,3) c m
      by (simp add: snoc fresh_node_def)
        (auto simp: snoc fresh_node_def intro!: add relinked_put split: if_splits)
  qed
qed

section \<open>Values\<close>

fun set_value :: "nat \<Rightarrow> mxml_value_t \<Rightarrow> atree \<Rightarrow> atree" where
  "set_value p w (ANode a v cs) = ANode a (if a = p then w else v) (map (set_value p w) cs)"

lemma addr_set_value [simp]: "addr (set_value p w t) = addr t"
  by (cases t) simp

lemma addrs_set_value [simp]: "addrs (set_value p w t) = addrs t"
  by (induction t) (simp add: comp_def cong: map_cong)

lemma set_value_other [simp]: "p \<notin> set (addrs t) \<Longrightarrow> set_value p w t = t"
  by (induction t) (auto intro!: map_idI)

lemma set_value_others [simp]: "p \<notin> set (forest_addrs ts) \<Longrightarrow> map (set_value p w) ts = ts"
  by (auto intro!: map_idI set_value_other)

lemma first_last_or_set_value:
  "first_or d (map (set_value p w) ts) = first_or d ts" "last_or d (map (set_value p w) ts) = last_or d ts"
  by (cases ts; simp add: last_or_def last_map)+

lemma tree_at_set_value:
  assumes "tree_at h parent prev nxt t" "distinct (addrs t)"
    and "\<And>n. node_at (Some p) h = Inr n \<Longrightarrow> node_at (Some p) h' = Inr (n\<lparr>n_value := w\<rparr>)"
    and "\<And>a. a \<noteq> p \<Longrightarrow> a \<in> set (addrs t) \<Longrightarrow> node_at (Some a) h' = node_at (Some a) h"
  shows "tree_at h' parent prev nxt (set_value p w t)"
  using assms(1,2,4)
proof (induction t arbitrary: parent prev nxt)
  case (ANode a v cs)
  have "trees_at h' (Some a) None None (map (set_value p w) cs)"
  proof (rule trees_at_map)
    fix t prev nxt assume t: "t \<in> set cs" "tree_at h (Some a) prev nxt t"
    show "tree_at h' (Some a) prev nxt (set_value p w t)"
      using t ANode.prems(2) by (intro ANode.IH ANode.prems(3)) (auto intro: distinct_forest_member)
  qed (use ANode.prems(1) in auto)
  moreover have "node_at (Some a) h' = node_at (Some a) h" if "a \<noteq> p"
    using that by (intro ANode.prems(3)) auto
  ultimately show ?case
    using ANode.prems(1) assms(3) by (auto simp: first_last_or_set_value)
qed

lemma set_value_add_kid:
  assumes "a \<notin> set (addrs T)"
  shows "set_value a w (add_kid p (ANode a v []) T) = add_kid p (ANode a w []) T"
  using assms unfolding add_kid_def
proof (induction T)
  case (ANode b u cs)
  then have "map (set_value a w) cs = cs" by (intro set_value_others) auto
  then show ?case using ANode by auto
qed

section \<open>New nodes\<close>

text \<open>Only the nodes and the number of allocations change.\<close>

definition heap_step :: "'z mheap_scheme \<Rightarrow> 'z mheap_scheme \<Rightarrow> bool" where
  "heap_step s s' \<longleftrightarrow> mheap.more s' = mheap.more s \<and> malloc_ok s' = malloc_ok s"

lemma heap_step_refl [simp]: "heap_step s s"
  by (simp add: heap_step_def)

lemma heap_step_trans: "heap_step s t \<Longrightarrow> heap_step t u \<Longrightarrow> heap_step s u"
  by (simp add: heap_step_def)

lemma heap_step_update [simp]:
  "heap_step s (t\<lparr>mx_nodes := h\<rparr>) = heap_step s t" "heap_step s (t\<lparr>malloc_calls := m\<rparr>) = heap_step s t"
  "heap_step s (put_node p n t) = heap_step s t" "heap_step (t\<lparr>mx_nodes := h\<rparr>) s = heap_step t s"
  "heap_step (t\<lparr>malloc_calls := m\<rparr>) s = heap_step t s"
  by (simp_all add: heap_step_def put_node_def)

lemma relinked_step: "relinked A s t \<Longrightarrow> heap_step s t"
  by (auto simp: relinked_def)

lemma heap_step_malloc: "heap_step s t \<Longrightarrow> malloc_ok t = malloc_ok s"
  by (simp add: heap_step_def)

lemma okX_allocate [simp]: "okX (liftX allocate) s Q E =
     Q (malloc_ok s (malloc_calls s)) (s\<lparr>malloc_calls := malloc_calls s + 1\<rparr>)"
  by (simp add: okX_liftX allocate_def)

lemma okX_strdup [simp]: "okX (liftX (strdup txt)) s Q E =
     Q (if malloc_ok s (malloc_calls s) then Some txt else None) (s\<lparr>malloc_calls := malloc_calls s + 1\<rparr>)"
  by (simp add: okX_liftX strdup_def allocate_def)

text \<open>The state with a node more that is not linked.\<close>

lemma tree_at_bound: "holds_tree s T \<Longrightarrow> a \<in> set (addrs T) \<Longrightarrow> a < length (mx_nodes s)"
  using tree_at_addr(1) [of "mx_nodes s" None None None T a] by (auto simp: holds_tree_def node_at_live)

lemma node_at_append [simp]:
  "a < length h \<Longrightarrow> node_at (Some a) (h @ [n]) = node_at (Some a) h"
  "node_at (Some (length h)) (h @ [Some m]) = Inr m"
  by (auto simp: node_at_def nth_append)

lemma holds_tree_append:
  assumes "holds_tree s T" "mx_nodes s' = mx_nodes s @ [n]"
  shows "holds_tree s' T"
  using assms tree_at_bound [OF assms(1)] tree_at_frame(1) [of T "mx_nodes s'" "mx_nodes s" None None None]
  by (simp add: holds_tree_def)

lemma holds_tree_cong: "mx_nodes s' = mx_nodes s \<Longrightarrow> holds_tree s' T = holds_tree s T"
  by (simp add: holds_tree_def)

lemma okX_mxml_new_child:
  assumes "holds_tree s T" "p \<in> set (addrs T)"
  shows "okX (mxml_new (Some p) v) s (\<lambda>r s'. heap_step s s' \<and>
     (r = None \<and> holds_tree s' T \<and> \<not> malloc_ok s (malloc_calls s) \<or> r = Some (length (mx_nodes s)) \<and>
       holds_tree s' (add_kid p (ANode (length (mx_nodes s)) v []) T) \<and> malloc_ok s (malloc_calls s))) E"
proof (cases "malloc_ok s (malloc_calls s)")
  case True
  let ?a = "length (mx_nodes s)"
  let ?s = "s\<lparr>malloc_calls := malloc_calls s + 1, mx_nodes := mx_nodes s @ [Some (fresh_node v)]\<rparr>"
  have a: "?a \<notin> set (addrs T)" using tree_at_bound [OF assms(1)] by blast
  have s: "holds_tree ?s T" by (rule holds_tree_append [OF assms(1)]) simp
  have "okX (mxmlAdd (Some p) MXML_ADD_AFTER None (Some ?a)) ?s
     (\<lambda>_ s'. holds_tree s' (add_kid p (ANode ?a v []) T) \<and> relinked (insert ?a (set (addrs T))) ?s s') E"
    by (rule okX_mxmlAdd_new [OF s assms(2) a]) simp
  then show ?thesis
    using True unfolding mxml_new_def
    by (auto simp: fresh_node_def [symmetric] elim!: okX_mono dest: relinked_step)
next
  case False
  then show ?thesis
    using assms(1) unfolding mxml_new_def by (simp add: holds_tree_def)
qed

lemma okX_set_value:
  assumes "holds_tree s T" "a \<in> set (addrs T)"
  shows "okX (set_node (Some a) (\<lambda>n. n\<lparr>n_value := w\<rparr>)) s (\<lambda>_ s'. heap_step s s' \<and> holds_tree s' (set_value a w T)) E"
proof -
  obtain n where n: "node_at (Some a) (mx_nodes s) = Inr n"
    using tree_at_addr(1) [of _ None None None T a] assms by (auto simp: holds_tree_def)
  then show ?thesis
    using assms(1) by (auto simp: holds_tree_def intro: tree_at_set_value)
qed

definition memory_short :: "'z mheap_scheme \<Rightarrow> bool" where
  "memory_short s \<longleftrightarrow> (\<exists>n. \<not> malloc_ok s n)"

lemma memory_short_step: "heap_step s t \<Longrightarrow> memory_short t = memory_short s"
  by (simp add: heap_step_def memory_short_def)

text \<open>A new node without children below \<open>p\<close>, or none when memory is short; \<open>V\<close> says which values it can have.\<close>

definition new_child :: "'z mheap_scheme \<Rightarrow> nat \<Rightarrow> atree \<Rightarrow> (mxml_value_t \<Rightarrow> bool) \<Rightarrow> nat option \<Rightarrow> 'z mheap_scheme \<Rightarrow> bool" where
  "new_child s p T V r s' \<longleftrightarrow> heap_step s s' \<and>
     (r = None \<and> holds_tree s' T \<and> memory_short s \<or>
      (\<exists>w. r = Some (length (mx_nodes s)) \<and> V w \<and> holds_tree s' (add_kid p (ANode (length (mx_nodes s)) w []) T)))"

lemma okX_with_value_child:
  assumes "holds_tree s T" "p \<in> set (addrs T)"
    and v: "\<And>s'. heap_step s s' \<Longrightarrow> okX v s' (\<lambda>w t. V w \<and> heap_step s t \<and> mx_nodes t = mx_nodes s') E"
  shows "okX (with_value (mxml_new (Some p) w0) v) s (\<lambda>r s'. new_child s p T V r s') E"
  unfolding with_value_def okX_bindX
proof (rule okX_mono [OF okX_mxml_new_child [OF assms(1,2), where v = w0]], goal_cases)
  case (1 r t)
  let ?a = "length (mx_nodes s)"
  show ?case
  proof (cases r)
    case None
    then show ?thesis using 1 by (auto simp: new_child_def memory_short_def)
  next
    case (Some a)
    then have t: "heap_step s t" "a = ?a" "holds_tree t (add_kid p (ANode ?a w0 []) T)" using 1 by auto
    have a: "?a \<notin> set (addrs T)" using tree_at_bound [OF assms(1)] by blast
    have "okX v t (\<lambda>w u. okX (set_node (Some ?a) (\<lambda>n. n\<lparr>n_value := w\<rparr>)) u (\<lambda>_ s'. new_child s p T V (Some ?a) s') E) E"
    proof (rule okX_mono [OF v [OF t(1)]])
      fix w u assume w: "V w \<and> heap_step s u \<and> mx_nodes u = mx_nodes t"
      then have "holds_tree u (add_kid p (ANode ?a w0 []) T)" using t(3) holds_tree_cong by blast
      then show "okX (set_node (Some ?a) (\<lambda>n. n\<lparr>n_value := w\<rparr>)) u (\<lambda>_ s'. new_child s p T V (Some ?a) s') E"
        by (rule okX_mono [OF okX_set_value [where w = w]])
          (use w a assms(2) in \<open>auto simp: new_child_def set_value_add_kid intro: heap_step_trans\<close>)
    qed simp
    then show ?thesis by (simp add: Some t(2))
  qed
qed simp

lemma okX_mxmlNewElement_child:
  assumes "holds_tree s T" "p \<in> set (addrs T)"
  shows "okX (mxmlNewElement (Some p) name) s (\<lambda>r s'. new_child s p T
     (\<lambda>w. w = VElement (Some name) [] \<or> memory_short s \<and> w = VElement None []) r s') E"
  unfolding mxmlNewElement_def
  by (rule okX_with_value_child [OF assms]) (auto simp: memory_short_def heap_step_def)

lemma okX_mxmlNewText_child:
  assumes "holds_tree s T" "p \<in> set (addrs T)"
  shows "okX (mxmlNewText (Some p) ws txt) s (\<lambda>r s'. new_child s p T
     (\<lambda>w. w = VText ws (Some txt) \<or> memory_short s \<and> w = VText ws None) r s') E"
  unfolding mxmlNewText_def
  by (rule okX_with_value_child [OF assms]) (auto simp: memory_short_def heap_step_def)

text \<open>Without a parent the node is a tree of its own, and another tree stays.\<close>

definition new_root :: "'z mheap_scheme \<Rightarrow> atree option \<Rightarrow> (mxml_value_t \<Rightarrow> bool) \<Rightarrow> nat option \<Rightarrow> 'z mheap_scheme \<Rightarrow> bool" where
  "new_root s T V r s' \<longleftrightarrow> heap_step s s' \<and> (\<forall>t. T = Some t \<longrightarrow> holds_tree s' t) \<and>
     (r = None \<and> memory_short s \<or>
      (\<exists>w. r = Some (length (mx_nodes s)) \<and> V w \<and> holds_tree s' (ANode (length (mx_nodes s)) w [])))"

lemma holds_tree_fresh:
  "mx_nodes t = mx_nodes s @ [Some (fresh_node w)] \<Longrightarrow> holds_tree t (ANode (length (mx_nodes s)) w [])"
  by (simp add: holds_tree_def) (simp add: fresh_node_def)

lemma okX_with_value_root:
  assumes "\<And>t. T = Some t \<Longrightarrow> holds_tree s t"
    and v: "\<And>s'. heap_step s s' \<Longrightarrow> okX v s' (\<lambda>w t. V w \<and> heap_step s t \<and> mx_nodes t = mx_nodes s') E"
  shows "okX (with_value (mxml_new None w0) v) s (\<lambda>r s'. new_root s T V r s') E"
proof (cases "malloc_ok s (malloc_calls s)")
  case True
  let ?a = "length (mx_nodes s)"
  let ?s = "s\<lparr>malloc_calls := malloc_calls s + 1, mx_nodes := mx_nodes s @ [Some (fresh_node w0)]\<rparr>"
  have "okX v ?s (\<lambda>w u. okX (set_node (Some ?a) (\<lambda>n. n\<lparr>n_value := w\<rparr>)) u (\<lambda>_ s'. new_root s T V (Some ?a) s') E) E"
  proof (rule okX_mono [OF v])
    fix w u assume w: "V w \<and> heap_step s u \<and> mx_nodes u = mx_nodes ?s"
    have old: "holds_tree (put_node (Some ?a) n u) t" if "T = Some t" for t n
    proof (rule holds_tree_append [OF assms(1) [OF that]])
      show "mx_nodes (put_node (Some ?a) n u) = mx_nodes s @ [n]" using w by (simp add: put_node_def)
    qed
    have new: "holds_tree (put_node (Some ?a) (Some ((fresh_node w0)\<lparr>n_value := w\<rparr>)) u) (ANode ?a w [])"
      using w by (intro holds_tree_fresh) (simp add: put_node_def fresh_node_def)
    show "okX (set_node (Some ?a) (\<lambda>n. n\<lparr>n_value := w\<rparr>)) u (\<lambda>_ s'. new_root s T V (Some ?a) s') E"
      using w old new by (auto simp: new_root_def)
  qed simp_all
  then show ?thesis
    using True by (simp add: with_value_def mxml_new_def fresh_node_def)
next
  case False
  then show ?thesis
    using assms(1) by (auto simp: with_value_def mxml_new_def new_root_def memory_short_def holds_tree_def)
qed

lemma okX_mxmlNewElement_root:
  assumes "\<And>t. T = Some t \<Longrightarrow> holds_tree s t"
  shows "okX (mxmlNewElement None name) s (\<lambda>r s'. new_root s T
     (\<lambda>w. w = VElement (Some name) [] \<or> memory_short s \<and> w = VElement None []) r s') E"
  unfolding mxmlNewElement_def
  by (rule okX_with_value_root [OF assms]) (auto simp: memory_short_def heap_step_def)

lemma okX_mxmlNewText_root:
  assumes "\<And>t. T = Some t \<Longrightarrow> holds_tree s t"
  shows "okX (mxmlNewText None ws txt) s (\<lambda>r s'. new_root s T
     (\<lambda>w. w = VText ws (Some txt) \<or> memory_short s \<and> w = VText ws None) r s') E"
  unfolding mxmlNewText_def
  by (rule okX_with_value_root [OF assms]) (auto simp: memory_short_def heap_step_def)

section \<open>Removing a node\<close>

text \<open>Linking in a list of children: what follows \<open>t\<close>'s removal.\<close>

lemma trees_at_relink_first:
  assumes "trees_at h parent prev nxt ts" "distinct (forest_addrs ts)"
    and "\<And>x. x \<in> set (forest_addrs ts) \<Longrightarrow> ts \<noteq> [] \<and> x = addr (hd ts) \<or> node_at (Some x) h' = node_at (Some x) h"
    and "\<And>n. ts \<noteq> [] \<Longrightarrow> node_at (Some (addr (hd ts))) h = Inr n \<Longrightarrow>
      node_at (Some (addr (hd ts))) h' = Inr (n\<lparr>n_prev := prev'\<rparr>)"
  shows "trees_at h' parent prev' nxt ts"
proof (cases ts)
  case (Cons t us)
  have t: "tree_at h parent prev (first_or nxt us) t" using assms(1) by (simp add: Cons)
  have "addr t \<notin> set (forest_addrs us)" using assms(2) addr_in_addrs [of t] by (auto simp: Cons simp del: addr_in_addrs)
  then have us: "trees_at h' parent (Some (addr t)) nxt us = trees_at h parent (Some (addr t)) nxt us"
    using assms(3) by (intro tree_at_frame) (auto simp: Cons)
  have "tree_at h' parent prev' (first_or nxt us) t"
  proof (rule tree_at_relink [OF t])
    show "distinct (addrs t)" using assms(2) by (simp add: Cons)
    show "node_at (Some a) h' = node_at (Some a) h" if "a \<in> set (addrs t)" "a \<noteq> addr t" for a
      using assms(3) [of a] that by (auto simp: Cons)
    fix n assume n: "node_at (Some (addr t)) h = Inr n"
    have "n_next n = first_or nxt us" "n_parent n = parent" using tree_at_root [OF t] n by auto
    then show "node_at (Some (addr t)) h' =
        Inr (n\<lparr>n_next := first_or nxt us, n_prev := prev', n_parent := parent\<rparr>)"
      using assms(4) [of n] n by (simp add: Cons)
  qed
  then show ?thesis using us assms(1) by (simp add: Cons)
qed simp

lemma trees_at_relink_last:
  assumes "trees_at h parent prev nxt ts" "distinct (forest_addrs ts)"
    and "\<And>x. x \<in> set (forest_addrs ts) \<Longrightarrow> ts \<noteq> [] \<and> x = addr (last ts) \<or> node_at (Some x) h' = node_at (Some x) h"
    and "\<And>n. ts \<noteq> [] \<Longrightarrow> node_at (Some (addr (last ts))) h = Inr n \<Longrightarrow>
      node_at (Some (addr (last ts))) h' = Inr (n\<lparr>n_next := nxt'\<rparr>)"
  shows "trees_at h' parent prev nxt' ts"
proof (cases ts rule: rev_cases)
  case (snoc us t)
  show ?thesis unfolding snoc
    by (rule trees_at_frame_last [OF assms(1,2) [unfolded snoc]])
      (use assms(3,4) in \<open>auto simp: snoc\<close>)
qed simp

lemma distinct_kids_map:
  assumes "distinct (addrs T)" "ANode p w cs \<in> set (subtrees T)"
    and f: "distinct (forest_addrs (f cs))" "set (forest_addrs (f cs)) \<subseteq> set (forest_addrs cs)"
  shows "distinct (addrs (kids_map p f T)) \<and> set (addrs (kids_map p f T)) \<subseteq> set (addrs T)"
  using assms(1,2)
proof (induction T)
  case (ANode a v ds)
  show ?case
  proof (cases "ANode p w cs = ANode a v ds")
    case True
    then show ?thesis using f ANode.prems(1) by auto
  next
    case False
    then obtain d where d: "d \<in> set ds" "ANode p w cs \<in> set (subtrees d)" using ANode.prems(2) by auto
    then have pd: "p \<in> set (addrs d)" using subtrees_addrs by fastforce
    then have ne: "a \<noteq> p" using ANode.prems(1) d(1) by auto
    have IH: "distinct (addrs (kids_map p f d))" "set (addrs (kids_map p f d)) \<subseteq> set (addrs d)"
      using ANode.IH [OF d(1) _ d(2)] ANode.prems(1) d(1) by (auto intro: distinct_forest_member)
    obtain xs ys where ds: "ds = xs @ d # ys" using split_list [OF d(1)] by blast
    have others: "map (kids_map p f) xs = xs" "map (kids_map p f) ys = ys"
      using ANode.prems(1) pd by (auto simp: ds intro!: kids_map_others)
    have "map (kids_map p f) ds = xs @ kids_map p f d # ys" using others by (simp add: ds)
    then have e: "forest_addrs (map (kids_map p f) ds) = forest_addrs xs @ addrs (kids_map p f d) @ forest_addrs ys"
      by (simp only: map_append list.map concat_append concat.simps)
    have "distinct (a # forest_addrs xs @ addrs (kids_map p f d) @ forest_addrs ys)"
      using IH ANode.prems(1) by (auto simp: ds)
    moreover have "set (forest_addrs xs @ addrs (kids_map p f d) @ forest_addrs ys) \<subseteq> set (forest_addrs ds)"
      using IH(2) by (auto simp: ds)
    ultimately show ?thesis using ne e by (auto simp del: map_map)
  qed
qed

lemma trees_at_without:
  assumes kids: "trees_at h (Some p) None None (as @ t # bs)" and d: "distinct (forest_addrs (as @ t # bs))"
    and frame: "\<And>x. x \<in> set (forest_addrs (as @ bs)) \<Longrightarrow>
      as \<noteq> [] \<and> x = addr (last as) \<or> bs \<noteq> [] \<and> x = addr (hd bs) \<or> node_at (Some x) h' = node_at (Some x) h"
    and l: "\<And>n. as \<noteq> [] \<Longrightarrow> node_at (Some (addr (last as))) h = Inr n \<Longrightarrow>
      node_at (Some (addr (last as))) h' = Inr (n\<lparr>n_next := first_or None bs\<rparr>)"
    and f: "\<And>n. bs \<noteq> [] \<Longrightarrow> node_at (Some (addr (hd bs))) h = Inr n \<Longrightarrow>
      node_at (Some (addr (hd bs))) h' = Inr (n\<lparr>n_prev := last_or None as\<rparr>)"
  shows "trees_at h' (Some p) None None (as @ bs)"
proof -
  have "trees_at h' (Some p) None (first_or None bs) as"
  proof (rule trees_at_relink_last [where h = h and nxt = "Some (addr t)"])
    fix x assume x: "x \<in> set (forest_addrs as)"
    have "bs \<noteq> [] \<Longrightarrow> addr (hd bs) \<in> set (forest_addrs bs)" by (cases bs) auto
    then show "as \<noteq> [] \<and> x = addr (last as) \<or> node_at (Some x) h' = node_at (Some x) h"
      using frame [of x] x d by auto
  qed (use kids d l in auto)
  moreover have "trees_at h' (Some p) (last_or None as) None bs"
  proof (rule trees_at_relink_first [where h = h and prev = "Some (addr t)"])
    fix x assume x: "x \<in> set (forest_addrs bs)"
    then show "bs \<noteq> [] \<and> x = addr (hd bs) \<or> node_at (Some x) h' = node_at (Some x) h"
      using frame [of x] last_in_forest [of as] d by auto
  qed (use kids d f in \<open>auto simp: last_or_Cons\<close>)
  ultimately show ?thesis by simp
qed

text \<open>\<open>as\<close> before and \<open>bs\<close> after the node \<open>t\<close> among the children of \<open>p\<close>.\<close>

lemma holds_tree_removed:
  assumes T: "tree_at h None None None T" "distinct (addrs T)" and S: "ANode p w (as @ t # bs) \<in> set (subtrees T)"
    and p: "\<And>n. node_at (Some p) h = Inr n \<Longrightarrow> node_at (Some p) (mx_nodes s') =
      Inr (n\<lparr>n_child := first_or None (as @ bs), n_last_child := last_or None (as @ bs)\<rparr>)"
    and t': "\<And>n. node_at (Some (addr t)) h = Inr n \<Longrightarrow>
      node_at (Some (addr t)) (mx_nodes s') = Inr (n\<lparr>n_next := None, n_prev := None, n_parent := None\<rparr>)"
    and l: "\<And>n. as \<noteq> [] \<Longrightarrow> node_at (Some (addr (last as))) h = Inr n \<Longrightarrow>
      node_at (Some (addr (last as))) (mx_nodes s') = Inr (n\<lparr>n_next := first_or None bs\<rparr>)"
    and f: "\<And>n. bs \<noteq> [] \<Longrightarrow> node_at (Some (addr (hd bs))) h = Inr n \<Longrightarrow>
      node_at (Some (addr (hd bs))) (mx_nodes s') = Inr (n\<lparr>n_prev := last_or None as\<rparr>)"
    and frame: "\<And>x. x \<in> set (addrs T) \<Longrightarrow> x \<noteq> p \<Longrightarrow> x \<noteq> addr t \<Longrightarrow> \<not> (as \<noteq> [] \<and> x = addr (last as)) \<Longrightarrow>
      \<not> (bs \<noteq> [] \<and> x = addr (hd bs)) \<Longrightarrow> node_at (Some x) (mx_nodes s') = node_at (Some x) h"
  shows "holds_tree s' (kids_map p (\<lambda>_. as @ bs) T)" "holds_tree s' t"
proof -
  have sub: "set (addrs (ANode p w (as @ t # bs))) \<subseteq> set (addrs T)" by (rule subtrees_addrs [OF S])
  have dS: "distinct (addrs (ANode p w (as @ t # bs)))" by (rule distinct_subtree [OF T(2) S])
  have kids: "trees_at h (Some p) None None (as @ t # bs)" using tree_at_subtree [OF T(1) S] by auto
  then have t: "tree_at h (Some p) (last_or None as) (first_or None bs) t" by simp
  have la: "as \<noteq> [] \<Longrightarrow> addr (last as) \<in> set (forest_addrs as)" using last_in_forest by blast
  have hb: "bs \<noteq> [] \<Longrightarrow> addr (hd bs) \<in> set (forest_addrs bs)" by (cases bs) auto
  have "tree_at (mx_nodes s') None None None (kids_map p (\<lambda>_. as @ bs) T)"
  proof (rule tree_at_kids_map [OF T S])
    show "node_at (Some a) (mx_nodes s') = node_at (Some a) h"
      if "a \<in> set (addrs T)" "a \<notin> set (addrs (ANode p w (as @ t # bs)))" for a
      using that la hb by (intro frame) auto
    show "trees_at (mx_nodes s') (Some p) None None (as @ bs)"
    proof (rule trees_at_without [OF kids _ _ l f])
      fix x assume x: "x \<in> set (forest_addrs (as @ bs))"
      have "x \<in> set (addrs T)" "x \<noteq> p" "x \<noteq> addr t" using x sub dS addr_in_addrs [of t] by (auto simp del: addr_in_addrs)
      then show "as \<noteq> [] \<and> x = addr (last as) \<or> bs \<noteq> [] \<and> x = addr (hd bs) \<or>
        node_at (Some x) (mx_nodes s') = node_at (Some x) h" using frame [of x] by blast
    qed (use dS in auto)
  qed (use p in auto)
  moreover have "distinct (forest_addrs (as @ bs))" "set (forest_addrs (as @ bs)) \<subseteq> set (forest_addrs (as @ t # bs))"
    using dS by auto
  ultimately show "holds_tree s' (kids_map p (\<lambda>_. as @ bs) T)"
    using distinct_kids_map [OF T(2) S, of "\<lambda>_. as @ bs"] by (simp add: holds_tree_def)
  have "tree_at (mx_nodes s') None None None t"
  proof (rule tree_at_relink [OF t])
    show "node_at (Some a) (mx_nodes s') = node_at (Some a) h" if "a \<in> set (addrs t)" "a \<noteq> addr t" for a
      using that sub dS la hb by (intro frame) auto
  qed (use dS t' in auto)
  then show "holds_tree s' t" using dS by (simp add: holds_tree_def)
qed

lemma okX_mxmlRemove:
  assumes "holds_tree s T" and S: "ANode p w (as @ t # bs) \<in> set (subtrees T)"
  shows "okX (mxmlRemove (Some (addr t))) s (\<lambda>_ s'. holds_tree s' (kids_map p (\<lambda>_. as @ bs) T) \<and> holds_tree s' t \<and>
     relinked (set (addrs T)) s s') E"
proof -
  let ?h = "mx_nodes s"
  have T: "tree_at ?h None None None T" "distinct (addrs T)" using assms(1) by (simp_all add: holds_tree_def)
  have sub: "set (addrs (ANode p w (as @ t # bs))) \<subseteq> set (addrs T)" by (rule subtrees_addrs [OF S])
  have dS: "distinct (addrs (ANode p w (as @ t # bs)))" by (rule distinct_subtree [OF T(2) S])
  obtain n where n: "node_at (Some p) ?h = Inr n" "n_child n = first_or None (as @ t # bs)"
      "n_last_child n = last_or None (as @ t # bs)"
    and kids: "trees_at ?h (Some p) None None (as @ t # bs)"
    using tree_at_subtree [OF T(1) S] by auto
  obtain m where m: "node_at (Some (addr t)) ?h = Inr m" "n_parent m = Some p" "n_prev m = last_or None as"
      "n_next m = first_or None bs"
    using tree_at_root [of ?h "Some p" _ _ t] kids by fastforce
  have pt: "p \<noteq> addr t" "p \<in> set (addrs T)" "addr t \<in> set (addrs T)" using sub dS by auto
  have a: "as \<noteq> [] \<Longrightarrow> addr (last as) \<in> set (addrs T)" "as \<noteq> [] \<Longrightarrow> addr (last as) \<noteq> p"
    "as \<noteq> [] \<Longrightarrow> addr (last as) \<noteq> addr t"
    using last_in_forest [of as] sub dS addr_in_addrs [of t] by (auto simp del: addr_in_addrs)
  have hb: "bs \<noteq> [] \<Longrightarrow> addr (hd bs) \<in> set (forest_addrs bs)" by (cases bs) auto
  have "set (addrs t) \<inter> set (forest_addrs bs) = {}" using dS by auto
  then have "addr t \<notin> set (forest_addrs bs)" using addr_in_addrs [of t] by blast
  then have b: "bs \<noteq> [] \<Longrightarrow> addr (hd bs) \<in> set (addrs T)" "bs \<noteq> [] \<Longrightarrow> addr (hd bs) \<noteq> p"
    "bs \<noteq> [] \<Longrightarrow> addr (hd bs) \<noteq> addr t" "bs \<noteq> [] \<Longrightarrow> as \<noteq> [] \<Longrightarrow> addr (hd bs) \<noteq> addr (last as)"
    using hb sub dS last_in_forest [of as] by auto
  obtain k where k: "as \<noteq> [] \<Longrightarrow> node_at (Some (addr (last as))) ?h = Inr k"
    using a(1) tree_at_addr(1) [OF T(1)] by blast
  obtain l where l: "bs \<noteq> [] \<Longrightarrow> node_at (Some (addr (hd bs))) ?h = Inr l"
    using b(1) tree_at_addr(1) [OF T(1)] by blast
  have first: "first_or d us = (if us = [] then d else Some (addr (hd us)))" for d us by (cases us) simp_all
  define Q where "Q s' \<longleftrightarrow> (holds_tree s' (kids_map p (\<lambda>_. as @ bs) T) \<and> holds_tree s' t)" for s' :: "'a mheap_scheme"
  have "okX (mxmlRemove (Some (addr t))) s (\<lambda>_ s'. Q s' \<and> relinked (set (addrs T)) s s') E"
    unfolding mxmlRemove_def using m n pt a b k l
    by (cases "as = []"; cases "bs = []")
      (simp_all add: first last_or_def, (intro conjI relinked_put relinked_refl, unfold Q_def,
        intro conjI holds_tree_removed [OF T S];
        auto simp: first last_or_def intro!: mxml_node.equality split: if_splits)+)
  then show ?thesis by (simp add: Q_def)
qed

end
