(* ===== verification/Mxml_Delete.thy ===== *)
theory Mxml_Delete
  imports Mxml_Tree
begin

text \<open>
  What \<open>mxmlDelete\<close> of libraries/mxml/mxml-node.c releases. The loop goes down to the children of a
  node, detaching them, and comes back to release the node, but only behind a last child that was
  itself passed over: from a last child that is released it goes on to the next sibling of the
  parent or to the grandparent. The nodes it passes over are lost.
\<close>

section \<open>Which nodes are released\<close>

fun skipped :: "atree \<Rightarrow> bool" and last_released :: "atree list \<Rightarrow> bool" where
  "skipped (ANode a v cs) = last_released cs"
| "last_released [] = False"
| "last_released [t] = (\<not> skipped t)"
| "last_released (t # u # ts) = last_released (u # ts)"

fun released :: "atree \<Rightarrow> nat list" where
  "released (ANode a v cs) = (if last_released cs then [] else [a]) @ concat (map released cs)"

lemma released_addrs: "set (released t) \<subseteq> set (addrs t)"
  by (induction t) auto

section \<open>One round\<close>

lemma loopX_step: "f b s = Inr (Inr (Inl b'), s') \<Longrightarrow> loopX (Suc n) f b s = loopX n f b' s'"
  by (simp add: bindX_def)

lemmas run_step = bindX_def thenX_def retX_def getX_def updX_def valX_def get_node_def set_node_def

lemma delete_step_down:
  assumes "node_at (Some a) (mx_nodes s) = Inr n" "n_child n = Some c"
  shows "delete_step r (Some a) s = Inr (Inr (Inl (Some c)), put_node (Some a) (Some (n\<lparr>n_child := None\<rparr>)) s)"
  using assms by (simp add: delete_step_def run_step)

text \<open>Where the loop goes on behind a node that was passed over, and behind the last of some siblings.\<close>

definition after_up :: "nat \<Rightarrow> mxml_node \<Rightarrow> nat option" where
  "after_up r n = (if n_next n \<noteq> None then n_next n else if n_parent n = Some r then None else n_parent n)"

definition leave :: "nat \<Rightarrow> nat \<Rightarrow> mxml_node \<Rightarrow> nat option \<Rightarrow> bool \<Rightarrow> nat option" where
  "leave r x nx nxt rel =
     (if nxt \<noteq> None then nxt else if x = r then None else if rel then after_up r nx else Some x)"

lemma delete_step_leaf:
  assumes "node_at (Some a) (mx_nodes s) = Inr n" "n_child n = None" "n_parent n = Some x"
    and "node_at (Some x) (mx_nodes s) = Inr nx"
  shows "delete_step (Some r) (Some a) s = Inr (Inr (Inl (leave r x nx (n_next n) True)), put_node (Some a) None s)"
  using assms by (auto simp: delete_step_def run_step mxml_free_def leave_def after_up_def)

section \<open>All rounds\<close>

text \<open>The nodes of \<open>X\<close> were detached from their children and those of \<open>F\<close> released.\<close>

definition swept :: "nat set \<Rightarrow> nat set \<Rightarrow> 'z mheap_scheme \<Rightarrow> 'z mheap_scheme \<Rightarrow> bool" where
  "swept X F s s' \<longleftrightarrow> heap_step s s' \<and> malloc_calls s' = malloc_calls s \<and> length (mx_nodes s') = length (mx_nodes s) \<and>
     (\<forall>x. node_at (Some x) (mx_nodes s') =
       (if x \<in> F then Inl WildDeref
        else if x \<in> X then bindR (node_at (Some x) (mx_nodes s)) (\<lambda>n. Inr (n\<lparr>n_child := None\<rparr>))
        else node_at (Some x) (mx_nodes s)))"

lemma swept_refl: "swept {} {} s s"
  by (simp add: swept_def)

lemma node_at_Inl: "node_at (Some x) h = Inl e \<Longrightarrow> e = WildDeref"
  by (auto simp: node_at_def split: if_splits option.splits)

lemma swept_trans:
  assumes "swept X F s t" "swept Y G t u"
  shows "swept (X \<union> Y) (F \<union> G) s u"
proof -
  have "node_at (Some x) (mx_nodes u) =
     (if x \<in> F \<union> G then Inl WildDeref
      else if x \<in> X \<union> Y then bindR (node_at (Some x) (mx_nodes s)) (\<lambda>n. Inr (n\<lparr>n_child := None\<rparr>))
      else node_at (Some x) (mx_nodes s))" for x
    using assms by (cases "node_at (Some x) (mx_nodes s)") (auto simp: swept_def)
  then show ?thesis using assms by (auto simp: swept_def intro: heap_step_trans)
qed

lemma swept_detach:
  "node_at (Some a) (mx_nodes s) = Inr n \<Longrightarrow> swept {a} {} s (put_node (Some a) (Some (n\<lparr>n_child := None\<rparr>)) s)"
  by (auto simp: swept_def)

lemma swept_release:
  "node_at (Some a) (mx_nodes s) = Inr n \<Longrightarrow> swept {a} {a} s (put_node (Some a) None s)"
  by (auto simp: swept_def)

lemma swept_other: "swept X F s t \<Longrightarrow> F \<subseteq> X \<Longrightarrow> x \<notin> X \<Longrightarrow> node_at (Some x) (mx_nodes t) = node_at (Some x) (mx_nodes s)"
  by (auto simp: swept_def)

lemma tree_forest_induct [case_names Node Nil Single More]:
  assumes "\<And>a v cs. PS cs \<Longrightarrow> P (ANode a v cs)" and "PS []" and "\<And>t. P t \<Longrightarrow> PS [t]"
    and "\<And>t u ts. P t \<Longrightarrow> PS (u # ts) \<Longrightarrow> PS (t # u # ts)"
  shows "P t" "PS ts"
proof -
  have "P t" "PS ts" for h :: "mxml_node option list" and parent prev nxt :: "nat option"
  proof (induction h parent prev nxt t and h parent prev nxt ts rule: tree_at_trees_at.induct)
    case (3 h parent prev nxt t ts)
    then show ?case using assms(3,4) by (cases ts) auto
  qed (use assms in auto)
  then show "P t" "PS ts" by auto
qed

text \<open>From the first of some siblings \<open>ts\<close> below the node \<open>x\<close>; the rounds are at most two for each node.\<close>

lemma delete_tree:
  fixes s :: "'z mheap_scheme"
  shows "tree_at h (Some x) prev nxt t \<Longrightarrow> mx_nodes s = h \<Longrightarrow> distinct (addrs t) \<Longrightarrow> node_at (Some x) h = Inr nx \<Longrightarrow>
    x \<notin> set (addrs t) \<Longrightarrow> r \<notin> set (addrs t) \<Longrightarrow>
    \<exists>k s'. k \<le> 2 * length (addrs t) \<and> swept (set (addrs t)) (set (released t)) s s' \<and>
      (\<forall>m. (loopX (k + m) (delete_step (Some r)) (Some (addr t)) s :: (('e + unit) \<times> 'z mheap_scheme) result) =
         loopX m (delete_step (Some r)) (leave r x nx nxt (\<not> skipped t)) s')"
    (is "_ \<Longrightarrow> _ \<Longrightarrow> _ \<Longrightarrow> _ \<Longrightarrow> _ \<Longrightarrow> _ \<Longrightarrow> ?P x t nxt nx s")
  and "trees_at h (Some x) prev nxt ts \<Longrightarrow> mx_nodes s = h \<Longrightarrow> ts \<noteq> [] \<Longrightarrow> distinct (forest_addrs ts) \<Longrightarrow>
    node_at (Some x) h = Inr nx \<Longrightarrow> x \<notin> set (forest_addrs ts) \<Longrightarrow> r \<notin> set (forest_addrs ts) \<Longrightarrow>
    \<exists>k s'. k \<le> 2 * length (forest_addrs ts) \<and>
      swept (set (forest_addrs ts)) (set (concat (map released ts))) s s' \<and>
      (\<forall>m. (loopX (k + m) (delete_step (Some r)) (Some (addr (hd ts))) s :: (('e + unit) \<times> 'z mheap_scheme) result) =
         loopX m (delete_step (Some r)) (leave r x nx nxt (last_released ts)) s')"
    (is "_ \<Longrightarrow> _ \<Longrightarrow> _ \<Longrightarrow> _ \<Longrightarrow> _ \<Longrightarrow> _ \<Longrightarrow> _ \<Longrightarrow> ?PS x ts nxt nx s")
proof (induction t and ts arbitrary: h x prev nxt nx s and h x prev nxt nx s rule: tree_forest_induct)
  case (Node a v cs)
  let ?step = "delete_step (Some r) :: nat option \<Rightarrow> ('e, nat option + unit, 'z mheap_scheme) xe"
  obtain n where n: "node_at (Some a) (mx_nodes s) = Inr n" "n_parent n = Some x" "n_next n = nxt"
      "n_child n = first_or None cs" and cs: "trees_at h (Some a) None None cs"
    using Node.prems(1,2) by auto
  have ax: "a \<noteq> x" "a \<noteq> r" using Node.prems by auto
  show ?case
  proof (cases cs)
    case Nil
    have "?step (Some a) s = Inr (Inr (Inl (leave r x nx nxt True)), put_node (Some a) None s)"
      using delete_step_leaf [of a s n x nx r] n Node.prems(2,4) by (simp add: Nil)
    then have "loopX (1 + m) ?step (Some a) s = loopX m ?step (leave r x nx nxt True) (put_node (Some a) None s)" for m
      by (simp add: loopX_step del: loopX.simps)
    then show ?thesis
      using swept_release [OF n(1)]
      by (intro exI [of _ 1] exI [of _ "put_node (Some a) None s"]) (simp add: Nil)
  next
    case (Cons c cs')
    let ?n = "n\<lparr>n_child := None\<rparr>"
    let ?s = "put_node (Some a) (Some ?n) s"
    have step1: "loopX (Suc m) ?step (Some a) s = loopX m ?step (Some (addr c)) ?s" for m
      by (rule loopX_step, rule delete_step_down) (use n in \<open>simp_all add: Cons\<close>)
    have at: "node_at (Some y) (mx_nodes ?s) = (if y = a then Inr ?n else node_at (Some y) (mx_nodes s))" for y
      using n(1) by simp
    have "trees_at (mx_nodes ?s) (Some a) None None cs"
    proof -
      have "trees_at (mx_nodes ?s) (Some a) None None cs = trees_at h (Some a) None None cs"
        using Node.prems(2,3) at by (intro tree_at_frame) auto
      then show ?thesis using cs by simp
    qed
    then obtain k t where k: "k \<le> 2 * length (forest_addrs cs)"
        "swept (set (forest_addrs cs)) (set (concat (map released cs))) ?s t"
        "\<forall>m. loopX (k + m) ?step (Some (addr c)) ?s = loopX m ?step (leave r a ?n None (last_released cs)) t"
      using Node.IH [of "mx_nodes ?s" a None None ?s ?n] Node.prems at ax by (auto simp: Cons)
    have frame: "node_at (Some y) (mx_nodes t) = node_at (Some y) (mx_nodes ?s)" if "y \<notin> set (forest_addrs cs)" for y
      using swept_other [OF k(2) _ that] released_addrs by (metis (no_types, lifting) UN_mono set_concat set_map image_image order_refl)
    have a': "a \<notin> set (forest_addrs cs)" using Node.prems(3) by auto
    show ?thesis
    proof (cases "last_released cs")
      case True
      have "leave r a ?n None True = leave r x nx nxt False"
        using n(2,3) ax by (simp add: leave_def after_up_def)
      then have "loopX (Suc k + m) ?step (Some a) s = loopX m ?step (leave r x nx nxt False) t" for m
        using step1 [of "k + m"] k(3) True by simp
      moreover have "swept (set (addrs (ANode a v cs))) (set (released (ANode a v cs))) s t"
        using swept_trans [OF swept_detach [OF n(1)] k(2)] True by simp
      ultimately show ?thesis using k(1) True
        by (intro exI [of _ "Suc k"] exI [of _ t]) simp
    next
      case False
      have at': "node_at (Some a) (mx_nodes t) = Inr ?n" "node_at (Some x) (mx_nodes t) = Inr nx"
        using frame [OF a'] frame [of x] at Node.prems(2,4,5) ax by auto
      have "?step (Some a) t = Inr (Inr (Inl (leave r x nx nxt True)), put_node (Some a) None t)"
        using delete_step_leaf [of a t ?n x nx r] at' n(2,3) by simp
      then have "loopX (Suc m) ?step (Some a) t = loopX m ?step (leave r x nx nxt True) (put_node (Some a) None t)" for m
        by (rule loopX_step)
      moreover have "leave r a ?n None False = Some a" using ax by (simp add: leave_def)
      ultimately have "loopX (Suc (k + Suc 0) + m) ?step (Some a) s =
          loopX m ?step (leave r x nx nxt True) (put_node (Some a) None t)" for m
        using step1 [of "k + Suc m"] k(3) [rule_format, of "Suc m"] False by (simp del: loopX.simps)
      moreover have "swept (set (addrs (ANode a v cs))) (set (released (ANode a v cs))) s (put_node (Some a) None t)"
        using swept_trans [OF swept_trans [OF swept_detach [OF n(1)] k(2)] swept_release [OF at'(1)]] False
        by (simp add: Un_commute insert_absorb)
      ultimately show ?thesis using k(1) False
        by (intro exI [of _ "Suc (k + Suc 0)"] exI [of _ "put_node (Some a) None t"]) simp
    qed
  qed
next
  case Nil
  then show ?case by simp
next
  case (Single t)
  then show ?case by auto
next
  case (More t u ts)
  let ?step = "delete_step (Some r) :: nat option \<Rightarrow> ('e, nat option + unit, 'z mheap_scheme) xe"
  obtain k t' where k: "k \<le> 2 * length (addrs t)" "swept (set (addrs t)) (set (released t)) s t'"
      "\<forall>m. loopX (k + m) ?step (Some (addr t)) s = loopX m ?step (leave r x nx (Some (addr u)) (\<not> skipped t)) t'"
    using More.IH(1) [of h x prev "Some (addr u)" s nx] More.prems by auto
  have frame: "node_at (Some y) (mx_nodes t') = node_at (Some y) h" if "y \<notin> set (addrs t)" for y
    using swept_other [OF k(2) released_addrs that] More.prems(2) by simp
  have "trees_at (mx_nodes t') (Some x) (Some (addr t)) nxt (u # ts) = trees_at h (Some x) (Some (addr t)) nxt (u # ts)"
    using More.prems(4) by (intro tree_at_frame frame) auto
  then obtain j t'' where j: "j \<le> 2 * length (forest_addrs (u # ts))"
      "swept (set (forest_addrs (u # ts))) (set (concat (map released (u # ts)))) t' t''"
      "\<forall>m. loopX (j + m) ?step (Some (addr u)) t' = loopX m ?step (leave r x nx nxt (last_released (u # ts))) t''"
    using More.IH(2) [of "mx_nodes t'" x "Some (addr t)" nxt t' nx] More.prems frame [of x] by auto
  have "loopX (k + j + m) ?step (Some (addr t)) s = loopX m ?step (leave r x nx nxt (last_released (u # ts))) t''" for m
    using k(3) [rule_format, of "j + m"] j(3) by (simp add: leave_def add.assoc)
  moreover have "swept (set (forest_addrs (t # u # ts))) (set (concat (map released (t # u # ts)))) s t''"
    using swept_trans [OF k(2) j(2)] by simp
  ultimately show ?case using k(1) j(1)
    by (intro exI [of _ "k + j"] exI [of _ t'']) simp
qed

section \<open>The whole deletion\<close>

lemma okX_run: "m s = n t \<Longrightarrow> okX n t Q E \<Longrightarrow> okX m s Q E"
  by (simp add: okX_def)

definition deleted :: "atree \<Rightarrow> nat list" where
  "deleted T = addr T # concat (map released (kids T))"

lemma length_addrs:
  assumes "holds_tree s T"
  shows "length (addrs T) \<le> length (mx_nodes s)"
proof -
  have "set (addrs T) \<subseteq> {..<length (mx_nodes s)}" using tree_at_bound [OF assms] by auto
  then have "card (set (addrs T)) \<le> length (mx_nodes s)"
    using card_mono [of "{..<length (mx_nodes s)}"] by fastforce
  then show ?thesis using assms by (simp add: holds_tree_def distinct_card)
qed

lemma okX_mxmlDelete:
  fixes E :: "'e \<Rightarrow> 'z mheap_scheme \<Rightarrow> bool"
  assumes "holds_tree s T"
  shows "okX (mxmlDelete (Some (addr T))) s (\<lambda>_ s'. swept (set (addrs T)) (set (deleted T)) s s') E"
proof (cases T)
  case (ANode a v cs)
  let ?h = "mx_nodes s"
  have T: "tree_at ?h None None None T" "distinct (addrs T)" using assms by (simp_all add: holds_tree_def)
  obtain n where n: "node_at (Some a) ?h = Inr n" "n_parent n = None" "n_child n = first_or None cs"
    using T(1) by (auto simp: ANode)
  have a: "a \<notin> set (forest_addrs cs)" using T(2) by (auto simp: ANode)
  let ?F = "set (concat (map released cs))"
  let ?step = "delete_step (Some a) :: nat option \<Rightarrow> ('e, nat option + unit, 'z mheap_scheme) xe"
  have loop: "okX (loopX (2 * length ?h + 1) ?step (first_or None cs)) s
      (\<lambda>_ t. swept (set (forest_addrs cs)) ?F s t) E"
  proof (cases cs)
    case Nil
    then show ?thesis by (simp add: delete_step_def swept_refl)
  next
    case (Cons c ds)
    have "trees_at ?h (Some a) None None cs" using T(1) by (simp add: ANode)
    then obtain k t where k: "k \<le> 2 * length (forest_addrs cs)" "swept (set (forest_addrs cs)) ?F s t"
        "\<forall>m. loopX (k + m) ?step (Some (addr (hd cs))) s =
           loopX m ?step (leave a a n None (last_released cs)) t"
      using delete_tree(2) [of ?h a None None cs s n a] T(2) n(1) a by (auto simp: ANode Cons)
    have len: "k \<le> 2 * length ?h" using k(1) length_addrs [OF assms] by (simp add: ANode)
    have "loopX (2 * length ?h + 1) ?step (first_or None cs) s = loopX (Suc (2 * length ?h - k)) ?step None t"
      using k(3) [rule_format, of "Suc (2 * length ?h - k)"] len by (simp add: leave_def Cons del: loopX.simps)
    moreover have "okX (loopX (Suc (2 * length ?h - k)) ?step None) t
        (\<lambda>_ t. swept (set (forest_addrs cs)) ?F s t) E"
      using k(2) by (simp add: delete_step_def)
    ultimately show ?thesis by (rule okX_run)
  qed
  have "okX (mxml_free (Some a)) t (\<lambda>_ s'. swept (set (addrs T)) (set (deleted T)) s s') E"
    if t: "swept (set (forest_addrs cs)) ?F s t" for t
  proof -
    have "?F \<subseteq> set (forest_addrs cs)" using released_addrs by fastforce
    then have at: "node_at (Some a) (mx_nodes t) = Inr n" using swept_other [OF t _ a] n(1) by simp
    show ?thesis
      using swept_trans [OF t swept_release [OF at]] at
      by (simp add: mxml_free_def deleted_def ANode Un_commute insert_absorb)
  qed
  then show ?thesis
    using loop n by (auto simp: mxmlDelete_def mxmlRemove_def ANode elim!: okX_mono)
qed

lemma released_iff:
  "distinct (addrs t) \<Longrightarrow> x \<in> set (addrs t) \<Longrightarrow>
     x \<in> set (released t) \<longleftrightarrow> \<not> (\<exists>S \<in> set (subtrees t). addr S = x \<and> skipped S)"
proof (induction t)
  case (ANode a v cs)
  have own: "addr S \<in> set (addrs c)" if "S \<in> set (subtrees c)" for S c
    using subtrees_addrs [OF that] by auto
  show ?case
  proof (cases "x = a")
    case True
    then have "x \<notin> set (forest_addrs cs)" using ANode.prems(1) by auto
    then have "x \<notin> set (released c)" "S \<in> set (subtrees c) \<Longrightarrow> addr S \<noteq> x" if "c \<in> set cs" for c S
      using that released_addrs own by fastforce+
    then show ?thesis using True by auto
  next
    case False
    then obtain c where c: "c \<in> set cs" "x \<in> set (addrs c)" using ANode.prems(2) by auto
    have "d = c" if "d \<in> set cs" "x \<in> set (addrs d)" for d
      using distinct_forest_split [of cs d c x] that c ANode.prems(1) by auto
    then have others: "d = c" if "d \<in> set cs" "x \<in> set (released d) \<or> (\<exists>S \<in> set (subtrees d). addr S = x)" for d
      using that released_addrs own by blast
    have "distinct (addrs c)" using ANode.prems(1) c(1) by (auto intro: distinct_forest_member)
    then have r: "x \<in> set (released c) \<longleftrightarrow> \<not> (\<exists>S \<in> set (subtrees c). addr S = x \<and> skipped S)"
      using ANode.IH c by blast
    have "x \<in> set (released (ANode a v cs)) \<longleftrightarrow> (\<exists>d \<in> set cs. x \<in> set (released d))"
      using False by auto
    then have r1: "x \<in> set (released (ANode a v cs)) \<longleftrightarrow> x \<in> set (released c)"
      using c(1) others by blast
    have "(\<exists>S \<in> set (subtrees (ANode a v cs)). addr S = x \<and> skipped S) \<longleftrightarrow>
        (\<exists>d \<in> set cs. \<exists>S \<in> set (subtrees d). addr S = x \<and> skipped S)"
      using False by auto
    then have r2: "(\<exists>S \<in> set (subtrees (ANode a v cs)). addr S = x \<and> skipped S) \<longleftrightarrow>
        (\<exists>S \<in> set (subtrees c). addr S = x \<and> skipped S)"
      using c(1) others by blast
    from r r1 r2 show ?thesis by blast
  qed
qed

end
