(* ===== verification/Mxml_Entity.thy ===== *)
theory Mxml_Entity
  imports C_Strtol
begin

text \<open>
  Character entities: libraries/mxml/mxml-entity.c. The program adds no callbacks, so that the only
  one is \<open>_mxml_entity_cb\<close>, a binary search in a table of names.
\<close>

section \<open>Comparing strings\<close>

text \<open>\<open>strcmp\<close>: the order of the first bytes that differ; only the sign of the value is specified.\<close>

fun strcmp :: "string \<Rightarrow> string \<Rightarrow> int" where
  "strcmp [] [] = 0"
| "strcmp (a # as) [] = int (of_char a) + 1"
| "strcmp [] (b # bs) = - int (of_char b) - 1"
| "strcmp (a # as) (b # bs) = (if a = b then strcmp as bs else int (of_char a) - int (of_char b))"

lemma of_char_eq: "(of_char a :: nat) = of_char b \<longleftrightarrow> a = b"
  by simp

lemma strcmp_0 [simp]: "strcmp a b = 0 \<longleftrightarrow> a = b"
  by (induction a b rule: strcmp.induct) auto

lemma strcmp_trans: "strcmp a b < 0 \<Longrightarrow> strcmp b c < 0 \<Longrightarrow> strcmp a c < 0"
proof (induction a b arbitrary: c rule: strcmp.induct)
  case (2 a as)
  then show ?case by simp
next
  case (3 b bs)
  then show ?case by (cases c) auto
next
  case (4 a as b bs)
  show ?case
  proof (cases c)
    case Nil
    then show ?thesis using "4.prems" by simp
  next
    case (Cons d ds)
    then show ?thesis using 4 by (auto split: if_splits)
  qed
qed simp

lemma strcmp_flip: "0 < strcmp a b \<longleftrightarrow> strcmp b a < 0"
  by (induction a b rule: strcmp.induct) auto

section \<open>The table\<close>

definition entities :: "(string \<times> int) list" where
  "entities = [
    (''AElig'', 198), (''Aacute'', 193), (''Acirc'', 194), (''Agrave'', 192), (''Alpha'', 913),
    (''Aring'', 197), (''Atilde'', 195), (''Auml'', 196), (''Beta'', 914), (''Ccedil'', 199),
    (''Chi'', 935), (''Dagger'', 8225), (''Delta'', 916), (''Dstrok'', 208), (''ETH'', 208),
    (''Eacute'', 201), (''Ecirc'', 202), (''Egrave'', 200), (''Epsilon'', 917), (''Eta'', 919),
    (''Euml'', 203), (''Gamma'', 915), (''Iacute'', 205), (''Icirc'', 206), (''Igrave'', 204),
    (''Iota'', 921), (''Iuml'', 207), (''Kappa'', 922), (''Lambda'', 923), (''Mu'', 924),
    (''Ntilde'', 209), (''Nu'', 925), (''OElig'', 338), (''Oacute'', 211), (''Ocirc'', 212),
    (''Ograve'', 210), (''Omega'', 937), (''Omicron'', 927), (''Oslash'', 216), (''Otilde'', 213),
    (''Ouml'', 214), (''Phi'', 934), (''Pi'', 928), (''Prime'', 8243), (''Psi'', 936), (''Rho'', 929),
    (''Scaron'', 352), (''Sigma'', 931), (''THORN'', 222), (''Tau'', 932), (''Theta'', 920),
    (''Uacute'', 218), (''Ucirc'', 219), (''Ugrave'', 217), (''Upsilon'', 933), (''Uuml'', 220),
    (''Xi'', 926), (''Yacute'', 221), (''Yuml'', 376), (''Zeta'', 918), (''aacute'', 225),
    (''acirc'', 226), (''acute'', 180), (''aelig'', 230), (''agrave'', 224), (''alefsym'', 8501),
    (''alpha'', 945), (''amp'', 38), (''and'', 8743), (''ang'', 8736), (''apos'', 39), (''aring'', 229),
    (''asymp'', 8776), (''atilde'', 227), (''auml'', 228), (''bdquo'', 8222), (''beta'', 946),
    (''brkbar'', 166), (''brvbar'', 166), (''bull'', 8226), (''cap'', 8745), (''ccedil'', 231),
    (''cedil'', 184), (''cent'', 162), (''chi'', 967), (''circ'', 710), (''clubs'', 9827),
    (''cong'', 8773), (''copy'', 169), (''crarr'', 8629), (''cup'', 8746), (''curren'', 164),
    (''dArr'', 8659), (''dagger'', 8224), (''darr'', 8595), (''deg'', 176), (''delta'', 948),
    (''diams'', 9830), (''die'', 168), (''divide'', 247), (''eacute'', 233), (''ecirc'', 234),
    (''egrave'', 232), (''empty'', 8709), (''emsp'', 8195), (''ensp'', 8194), (''epsilon'', 949),
    (''equiv'', 8801), (''eta'', 951), (''eth'', 240), (''euml'', 235), (''euro'', 8364),
    (''exist'', 8707), (''fnof'', 402), (''forall'', 8704), (''frac12'', 189), (''frac14'', 188),
    (''frac34'', 190), (''frasl'', 8260), (''gamma'', 947), (''ge'', 8805), (''gt'', 62), (''hArr'', 8660),
    (''harr'', 8596), (''hearts'', 9829), (''hellip'', 8230), (''hibar'', 175), (''iacute'', 237),
    (''icirc'', 238), (''iexcl'', 161), (''igrave'', 236), (''image'', 8465), (''infin'', 8734),
    (''int'', 8747), (''iota'', 953), (''iquest'', 191), (''isin'', 8712), (''iuml'', 239),
    (''kappa'', 954), (''lArr'', 8656), (''lambda'', 955), (''lang'', 9001), (''laquo'', 171),
    (''larr'', 8592), (''lceil'', 8968), (''ldquo'', 8220), (''le'', 8804), (''lfloor'', 8970),
    (''lowast'', 8727), (''loz'', 9674), (''lrm'', 8206), (''lsaquo'', 8249), (''lsquo'', 8216),
    (''lt'', 60), (''macr'', 175), (''mdash'', 8212), (''micro'', 181), (''middot'', 183),
    (''minus'', 8722), (''mu'', 956), (''nabla'', 8711), (''nbsp'', 160), (''ndash'', 8211),
    (''ne'', 8800), (''ni'', 8715), (''not'', 172), (''notin'', 8713), (''nsub'', 8836), (''ntilde'', 241),
    (''nu'', 957), (''oacute'', 243), (''ocirc'', 244), (''oelig'', 339), (''ograve'', 242),
    (''oline'', 8254), (''omega'', 969), (''omicron'', 959), (''oplus'', 8853), (''or'', 8744),
    (''ordf'', 170), (''ordm'', 186), (''oslash'', 248), (''otilde'', 245), (''otimes'', 8855),
    (''ouml'', 246), (''para'', 182), (''part'', 8706), (''permil'', 8240), (''perp'', 8869),
    (''phi'', 966), (''pi'', 960), (''piv'', 982), (''plusmn'', 177), (''pound'', 163), (''prime'', 8242),
    (''prod'', 8719), (''prop'', 8733), (''psi'', 968), (''quot'', 34), (''rArr'', 8658),
    (''radic'', 8730), (''rang'', 9002), (''raquo'', 187), (''rarr'', 8594), (''rceil'', 8969),
    (''rdquo'', 8221), (''real'', 8476), (''reg'', 174), (''rfloor'', 8971), (''rho'', 961),
    (''rlm'', 8207), (''rsaquo'', 8250), (''rsquo'', 8217), (''sbquo'', 8218), (''scaron'', 353),
    (''sdot'', 8901), (''sect'', 167), (''shy'', 173), (''sigma'', 963), (''sigmaf'', 962),
    (''sim'', 8764), (''spades'', 9824), (''sub'', 8834), (''sube'', 8838), (''sum'', 8721),
    (''sup'', 8835), (''sup1'', 185), (''sup2'', 178), (''sup3'', 179), (''supe'', 8839), (''szlig'', 223),
    (''tau'', 964), (''there4'', 8756), (''theta'', 952), (''thetasym'', 977), (''thinsp'', 8201),
    (''thorn'', 254), (''tilde'', 732), (''times'', 215), (''trade'', 8482), (''uArr'', 8657),
    (''uacute'', 250), (''uarr'', 8593), (''ucirc'', 251), (''ugrave'', 249), (''uml'', 168),
    (''upsih'', 978), (''upsilon'', 965), (''uuml'', 252), (''weierp'', 8472), (''xi'', 958),
    (''yacute'', 253), (''yen'', 165), (''yuml'', 255), (''zeta'', 950), (''zwj'', 8205), (''zwnj'', 8204)]"

function entity_search :: "string \<Rightarrow> nat \<Rightarrow> nat \<Rightarrow> int" where
  "entity_search name first final =
     (if final - first > 1 then
        (let current = (first + final) div 2; diff = strcmp name (fst (entities ! current))
         in if diff = 0 then snd (entities ! current)
            else if diff < 0 then entity_search name first current
            else entity_search name current final)
      else if strcmp name (fst (entities ! first)) = 0 then snd (entities ! first)
      else if strcmp name (fst (entities ! final)) = 0 then snd (entities ! final)
      else -1)"
  by pat_completeness auto
termination
  by (relation "measure (\<lambda>(name, first, final). final - first)") auto

declare entity_search.simps [simp del]

definition mxml_entity_cb :: "string \<Rightarrow> int" where
  "mxml_entity_cb name = entity_search name 0 (length entities - 1)"

text \<open>The loop over the callbacks, of which there is one.\<close>

definition mxmlEntityGetValue :: "string \<Rightarrow> int" where
  "mxmlEntityGetValue name = (let ch = mxml_entity_cb name in if ch \<ge> 0 then ch else -1)"

text \<open>The characters that must be written as entities.\<close>

definition mxmlEntityGetName :: "int \<Rightarrow> string option" where
  "mxmlEntityGetName val =
     (if val = 38 then Some ''amp'' else if val = 60 then Some ''lt'' else if val = 62 then Some ''gt''
      else if val = 34 then Some ''quot'' else None)"

section \<open>The search finds what the table has\<close>

definition before :: "string \<times> int \<Rightarrow> string \<times> int \<Rightarrow> bool" where
  "before e f \<longleftrightarrow> strcmp (fst e) (fst f) < 0"

lemma entities_sorted: "sorted_wrt before entities"
proof -
  have "transp before" by (rule transpI) (auto simp: before_def intro: strcmp_trans)
  then show ?thesis
    unfolding entities_def by (simp only: sorted_wrt2 [of before] sorted_wrt1) (simp add: before_def)
qed

lemma strcmp_self [simp]: "strcmp a a = 0"
  by (simp only: strcmp_0)

lemma entities_not_Nil [simp]: "entities \<noteq> []"
  by (simp add: entities_def)

lemma strcmp_entities:
  assumes "i < length entities" "j < length entities"
  shows "strcmp (fst (entities ! i)) (fst (entities ! j)) < 0 \<longleftrightarrow> i < j"
proof -
  have less: "a < b \<Longrightarrow> b < length entities \<Longrightarrow> strcmp (fst (entities ! a)) (fst (entities ! b)) < 0" for a b
    using sorted_wrt_nth_less [OF entities_sorted] by (simp add: before_def)
  show ?thesis
    using less [of i j] less [of j i] assms strcmp_flip [of "fst (entities ! i)" "fst (entities ! j)"]
    by (cases i j rule: linorder_cases) auto
qed

lemma entity_search_found:
  assumes "first \<le> i" "i \<le> final" "final < length entities" "fst (entities ! i) = name"
  shows "entity_search name first final = snd (entities ! i)"
  using assms
proof (induction name first final rule: entity_search.induct)
  case (1 name first final)
  let ?mid = "(first + final) div 2"
  have eq: "j = i" if "j < length entities" "strcmp name (fst (entities ! j)) = 0" for j
    using strcmp_entities [of i j] strcmp_entities [of j i] that 1 by (cases i j rule: linorder_cases) auto
  show ?case
  proof (cases "final - first > 1")
    case True
    then have mid: "first < ?mid" "?mid < final" by auto
    have less: "strcmp name (fst (entities ! ?mid)) < 0 \<longleftrightarrow> i < ?mid"
      using strcmp_entities [of i ?mid] "1.prems" mid by auto
    consider "strcmp name (fst (entities ! ?mid)) = 0" | "i < ?mid" "strcmp name (fst (entities ! ?mid)) < 0"
      | "?mid \<le> i" "0 < strcmp name (fst (entities ! ?mid))" using less by linarith
    then show ?thesis
    proof cases
      case 1
      then show ?thesis using eq [of ?mid] True "1.prems" mid by (subst entity_search.simps) (auto simp: Let_def)
    next
      case 2
      then show ?thesis using "1.IH"(1) [OF True refl refl] "1.prems" mid True
        by (subst entity_search.simps) (auto simp: Let_def)
    next
      case 3
      then show ?thesis using "1.IH"(2) [OF True refl refl] "1.prems" mid True
        by (subst entity_search.simps) (auto simp: Let_def)
    qed
  next
    case False
    then have "i = first \<or> i = final" using "1.prems" by linarith
    then show ?thesis using False eq [of first] eq [of final] "1.prems"
      by (subst entity_search.simps) auto
  qed
qed

lemma entity_search_missing:
  assumes "first \<le> final" "final < length entities" "name \<notin> set (map fst entities)"
  shows "entity_search name first final = -1"
  using assms
proof (induction name first final rule: entity_search.induct)
  case (1 name first final)
  let ?mid = "(first + final) div 2"
  have ne: "strcmp name (fst (entities ! j)) \<noteq> 0" if "j < length entities" for j
  proof
    assume "strcmp name (fst (entities ! j)) = 0"
    moreover have "fst (entities ! j) \<in> set (map fst entities)" using that by simp
    ultimately show False using "1.prems"(3) by simp
  qed
  show ?case
  proof (cases "final - first > 1")
    case True
    then have mid: "first < ?mid" "?mid < final" by auto
    then show ?thesis using "1.IH" [OF True refl refl] "1.prems" True ne [of ?mid]
      by (subst entity_search.simps) (auto simp: Let_def)
  next
    case False
    then show ?thesis using ne [of first] ne [of final] "1.prems" by (subst entity_search.simps) auto
  qed
qed

lemma entities_nonneg: "list_all (\<lambda>e. 0 \<le> snd e) entities"
  by (simp add: entities_def)

lemma mxmlEntityGetValue_eq:
  "mxmlEntityGetValue name = (case map_of entities name of None \<Rightarrow> -1 | Some v \<Rightarrow> v)"
proof (cases "map_of entities name")
  case None
  then have "entity_search name 0 (length entities - 1) = -1"
    by (intro entity_search_missing) (auto simp: map_of_eq_None_iff)
  then show ?thesis using None by (simp add: mxmlEntityGetValue_def mxml_entity_cb_def Let_def)
next
  case (Some v)
  then obtain i where i: "i < length entities" "entities ! i = (name, v)"
    by (metis map_of_SomeD in_set_conv_nth)
  then have "entity_search name 0 (length entities - 1) = v"
    using entity_search_found [of 0 i "length entities - 1" name] by auto
  moreover have "0 \<le> v" using entities_nonneg i by (metis list_all_length snd_conv)
  ultimately show ?thesis using Some by (simp add: mxmlEntityGetValue_def mxml_entity_cb_def Let_def)
qed

end
