(* ===== verification/Mxml_Load.thy ===== *)
theory Mxml_Load
  imports Mxml_Delete Mxml_Entity
begin

text \<open>
  Loading a document from a string: libraries/mxml/mxml-file.c as libraries/ucs-xml/UcsXml.c calls
  it, \<open>mxmlLoadString(NULL, text, MXML_NO_CALLBACK)\<close>: no top node, no callbacks, so that values are
  ignored up to the first element and are text behind it.

  The local variables of a function that its error exit uses are members of the state. Messages
  of \<open>mxml_error\<close> have no effect, as the program sets no error callback.
\<close>

unbundle bit_operations_syntax

section \<open>State\<close>

datatype encoding = ENCODE_UTF8 | ENCODE_UTF16BE | ENCODE_UTF16LE

datatype value_type = MXML_IGNORE | MXML_TEXT

text \<open>A buffer: what is written up to its pointer, its size, and whether it is allocated.\<close>

record buf =
  b_chars :: string
  b_size :: nat
  b_alive :: bool

text \<open>\<open>in_text\<close> is the text from the current position to its terminating NUL.\<close>

record mx_state = mheap +
  in_text :: string
  in_encoding :: encoding
  ld_buffer :: buf
  ld_first :: "nat option"
  ld_parent :: "nat option"
  ld_type :: value_type
  ld_whitespace :: bool
  pe_name :: buf
  pe_value :: buf

definition EOF :: int where "EOF = -1"

definition mxml_bad_char :: "int \<Rightarrow> bool" where
  "mxml_bad_char ch \<longleftrightarrow> ch < 32 \<and> ch \<noteq> 10 \<and> ch \<noteq> 13 \<and> ch \<noteq> 9"

definition mxml_isspace :: "int \<Rightarrow> bool" where
  "mxml_isspace ch \<longleftrightarrow> ch = 32 \<or> ch = 9 \<or> ch = 13 \<or> ch = 10"

text \<open>A loop that reads characters: at most one round for each that is left, and one more.\<close>

definition readX :: "('b \<Rightarrow> ('e, 'b + 'c, mx_state) xe) \<Rightarrow> 'b \<Rightarrow> ('e, 'c, mx_state) xe" where
  "readX f b = bindX (getX (\<lambda>s. Suc (length (in_text s)))) (\<lambda>n. loopX n f b)"

section \<open>Reading characters\<close>

definition peek :: "nat \<Rightarrow> ('e, int, mx_state) xe" where
  "peek k = bindX (getX in_text) (\<lambda>t. valX (if k < length t then Inr (int (of_char (t ! k))) else Inl OutOfBounds))"

definition skip :: "nat \<Rightarrow> ('e, unit, mx_state) xe" where
  "skip k = updX (\<lambda>s. s\<lparr>in_text := drop k (in_text s)\<rparr>)"

definition change_encoding :: "encoding \<Rightarrow> ('e, unit, mx_state) xe" where
  "change_encoding e = thenX (updX (\<lambda>s. s\<lparr>in_encoding := e\<rparr>)) (skip 1)"

text \<open>\<open>Inl\<close> is the recursive call.\<close>

definition utf8_char :: "int \<Rightarrow> ('e, unit + int, mx_state) xe" where
  "utf8_char ch =
     (if ch AND 0x80 = 0 then retX (Inr (if mxml_bad_char ch then EOF else ch))
      else if ch = 0xfe then
        bindX (peek 0) (\<lambda>b. if b \<noteq> 0xff then retX (Inr EOF)
          else thenX (change_encoding ENCODE_UTF16BE) (retX (Inl ())))
      else if ch = 0xff then
        bindX (peek 0) (\<lambda>b. if b \<noteq> 0xfe then retX (Inr EOF)
          else thenX (change_encoding ENCODE_UTF16LE) (retX (Inl ())))
      else if ch AND 0xe0 = 0xc0 then
        bindX (peek 0) (\<lambda>b. if b AND 0xc0 \<noteq> 0x80 then retX (Inr EOF) else
          let ch = push_bit 6 (ch AND 0x1f) OR (b AND 0x3f)
          in thenX (skip 1) (retX (Inr (if ch < 0x80 then EOF else ch))))
      else if ch AND 0xf0 = 0xe0 then
        bindX (peek 0) (\<lambda>b. if b AND 0xc0 \<noteq> 0x80 then retX (Inr EOF) else
        bindX (peek 1) (\<lambda>c. if c AND 0xc0 \<noteq> 0x80 then retX (Inr EOF) else
          let ch = push_bit 6 (push_bit 6 (ch AND 0x0f) OR (b AND 0x3f)) OR (c AND 0x3f)
          in thenX (skip 2) (retX (if ch < 0x800 then Inr EOF else if ch = 0xfeff then Inl () else Inr ch))))
      else if ch AND 0xf8 = 0xf0 then
        bindX (peek 0) (\<lambda>b. if b AND 0xc0 \<noteq> 0x80 then retX (Inr EOF) else
        bindX (peek 1) (\<lambda>c. if c AND 0xc0 \<noteq> 0x80 then retX (Inr EOF) else
        bindX (peek 2) (\<lambda>d. if d AND 0xc0 \<noteq> 0x80 then retX (Inr EOF) else
          let ch = push_bit 6 (push_bit 6 (push_bit 6 (ch AND 0x07) OR (b AND 0x3f)) OR (c AND 0x3f)) OR (d AND 0x3f)
          in thenX (skip 3) (retX (Inr (if ch < 0x10000 then EOF else ch))))))
      else retX (Inr EOF))"

definition from_surrogates :: "int \<Rightarrow> int \<Rightarrow> int" where
  "from_surrogates ch lch =
     (if lch < 0xdc00 \<or> lch \<ge> 0xdfff then EOF
      else (push_bit 10 (ch AND 0x3ff) OR (lch AND 0x3ff)) + 0x10000)"

definition utf16be_char :: "int \<Rightarrow> ('e, unit + int, mx_state) xe" where
  "utf16be_char ch =
     bindX (peek 0) (\<lambda>b.
     let ch = push_bit 8 ch OR b in
     thenX (skip 1)
     (if mxml_bad_char ch then retX (Inr EOF)
      else if ch \<ge> 0xd800 \<and> ch \<le> 0xdbff then
        bindX (peek 0) (\<lambda>b. if b = 0 then retX (Inr EOF) else
        bindX (peek 1) (\<lambda>c.
          thenX (skip 2) (retX (Inr (from_surrogates ch (push_bit 8 b OR c))))))
      else retX (Inr ch)))"

text \<open>At the end of the text, two zero bytes, the pointer goes back to where it was, \<open>t\<close>.\<close>

definition utf16le_char :: "string \<Rightarrow> int \<Rightarrow> ('e, unit + int, mx_state) xe" where
  "utf16le_char t ch =
     bindX (peek 0) (\<lambda>b.
     let ch = ch OR push_bit 8 b in
     if ch = 0 then thenX (updX (\<lambda>s. s\<lparr>in_text := t\<rparr>)) (retX (Inr EOF)) else
     thenX (skip 1)
     (if mxml_bad_char ch then retX (Inr EOF)
      else if ch \<ge> 0xd800 \<and> ch \<le> 0xdbff then
        bindX (peek 1) (\<lambda>c. if c = 0 then retX (Inr EOF) else
        bindX (peek 0) (\<lambda>b.
          thenX (skip 2) (retX (Inr (from_surrogates ch (push_bit 8 c OR b))))))
      else retX (Inr ch)))"

definition string_getc_round :: "unit \<Rightarrow> ('e, unit + int, mx_state) xe" where
  "string_getc_round _ =
     bindX (peek 0) (\<lambda>ch.
     bindX (getX in_encoding) (\<lambda>e.
     if \<not> (ch \<noteq> 0 \<or> e = ENCODE_UTF16LE) then retX (Inr EOF) else
     bindX (getX in_text) (\<lambda>t.
     thenX (skip 1)
     (case e of
        ENCODE_UTF8 \<Rightarrow> utf8_char ch
      | ENCODE_UTF16BE \<Rightarrow> utf16be_char ch
      | ENCODE_UTF16LE \<Rightarrow> utf16le_char t ch))))"

definition mxml_string_getc :: "('e, int, mx_state) xe" where
  "mxml_string_getc = readX string_getc_round ()"

section \<open>Buffers\<close>

definition put_byte :: "int \<Rightarrow> buf \<Rightarrow> buf result" where
  "put_byte c b = (if length (b_chars b) < b_size b then Inr (b\<lparr>b_chars := b_chars b @ [char_of c]\<rparr>)
     else Inl OutOfBounds)"

definition utf8_bytes :: "int \<Rightarrow> int list" where
  "utf8_bytes ch =
     (if ch < 0x80 then [ch]
      else if ch < 0x800 then [0xc0 OR drop_bit 6 ch, 0x80 OR (ch AND 0x3f)]
      else if ch < 0x10000 then
        [0xe0 OR drop_bit 12 ch, 0x80 OR (drop_bit 6 ch AND 0x3f), 0x80 OR (ch AND 0x3f)]
      else [0xf0 OR drop_bit 18 ch, 0x80 OR (drop_bit 12 ch AND 0x3f), 0x80 OR (drop_bit 6 ch AND 0x3f),
        0x80 OR (ch AND 0x3f)])"

text \<open>\<open>False\<close> is the return value -1: \<open>realloc\<close> failed and the buffer has been released.\<close>

definition mxml_add_char :: "int \<Rightarrow> buf \<Rightarrow> ('e, bool \<times> buf, 'z mheap_scheme) xe" where
  "mxml_add_char ch b =
     (let bytes = utf8_bytes ch;
          put = (\<lambda>b. bindX (valX (foldR put_byte bytes b)) (\<lambda>b. retX (True, b)))
      in if length (b_chars b) + 4 \<ge> b_size b then
           let b = b\<lparr>b_size := (if b_size b < 1024 then b_size b * 2 else b_size b + 1024)\<rparr>
           in bindX (liftX allocate) (\<lambda>ok. if ok then put b else retX (False, b\<lparr>b_alive := False\<rparr>))
         else put b)"

text \<open>Adding to a buffer of the state; a failure is \<open>goto error\<close>.\<close>

definition add_to ::
  "(mx_state \<Rightarrow> buf) \<Rightarrow> ((buf \<Rightarrow> buf) \<Rightarrow> mx_state \<Rightarrow> mx_state) \<Rightarrow> int \<Rightarrow> (unit, unit, mx_state) xe" where
  "add_to get upd ch =
     bindX (getX get) (\<lambda>b.
     bindX (mxml_add_char ch b) (\<lambda>(ok, b).
     thenX (updX (upd (\<lambda>_. b))) (if ok then retX () else stopX ())))"

definition start_with :: "((buf \<Rightarrow> buf) \<Rightarrow> mx_state \<Rightarrow> mx_state) \<Rightarrow> int list \<Rightarrow> ('e, unit, mx_state) xe" where
  "start_with upd bytes = updX (upd (\<lambda>b. b\<lparr>b_chars := map char_of bytes\<rparr>))"

text \<open>\<open>*ptr = 0\<close>, and the string the buffer then holds.\<close>

definition terminated :: "(mx_state \<Rightarrow> buf) \<Rightarrow> ('e, string, mx_state) xe" where
  "terminated get =
     bindX (getX get) (\<lambda>b.
     if length (b_chars b) < b_size b then retX (takeWhile (\<lambda>c. c \<noteq> CHR 0x00) (b_chars b))
     else valX (Inl OutOfBounds))"

definition new_buf :: "nat \<Rightarrow> buf" where
  "new_buf n = \<lparr>b_chars = [], b_size = n, b_alive = True\<rparr>"

definition free_buf :: "(mx_state \<Rightarrow> buf) \<Rightarrow> ((buf \<Rightarrow> buf) \<Rightarrow> mx_state \<Rightarrow> mx_state) \<Rightarrow> ('e, unit, mx_state) xe" where
  "free_buf get upd =
     bindX (getX get) (\<lambda>b.
     thenX (valX (if b_alive b then Inr () else Inl BadFree)) (updX (upd (\<lambda>b. b\<lparr>b_alive := False\<rparr>))))"

abbreviation "add_buffer \<equiv> add_to ld_buffer ld_buffer_update"
abbreviation "add_name \<equiv> add_to pe_name pe_name_update"
abbreviation "add_value \<equiv> add_to pe_value pe_value_update"

section \<open>Entities\<close>

definition isalnum :: "int \<Rightarrow> bool" where
  "isalnum ch \<longleftrightarrow> 48 \<le> ch \<and> ch \<le> 57 \<or> 65 \<le> ch \<and> ch \<le> 90 \<or> 97 \<le> ch \<and> ch \<le> 122"

definition entity_round :: "string \<Rightarrow> ('e, string + string \<times> int, mx_state) xe" where
  "entity_round entity =
     bindX mxml_string_getc (\<lambda>ch.
     retX (if ch = EOF \<or> ch > 126 \<or> \<not> isalnum ch \<and> ch \<noteq> 35 then Inr (entity, ch)
           else if length entity < 63 then Inl (entity @ [char_of ch])
           else Inr (entity, ch)))"

definition entity_value :: "string \<Rightarrow> int" where
  "entity_value entity =
     (if take 1 entity = ''#'' then
        signed_take_bit 31 (if take 1 (drop 1 entity) = ''x'' then strtol 16 (drop 2 entity)
          else strtol 10 (drop 1 entity))
      else mxmlEntityGetValue entity)"

definition mxml_get_entity :: "('e, int, mx_state) xe" where
  "mxml_get_entity =
     bindX (readX entity_round []) (\<lambda>(entity, ch).
     retX (if ch \<noteq> 59 then EOF
           else let ch = entity_value entity in if mxml_bad_char ch then EOF else ch))"

text \<open>\<open>if (ch == '&') if ((ch = mxml_get_entity(...)) == EOF) goto error;\<close>\<close>

definition entity_or :: "int \<Rightarrow> (unit, int, mx_state) xe" where
  "entity_or ch =
     (if ch = 38 then bindX mxml_get_entity (\<lambda>ch. if ch = EOF then stopX () else retX ch) else retX ch)"

section \<open>Attributes\<close>

definition quoted_name_round :: "int \<Rightarrow> unit \<Rightarrow> (unit, unit + int, mx_state) xe" where
  "quoted_name_round quote _ =
     bindX mxml_string_getc (\<lambda>ch. if ch = EOF then retX (Inr EOF) else
     bindX (entity_or ch) (\<lambda>ch.
     thenX (add_name ch) (retX (if ch = quote then Inr ch else Inl ()))))"

definition name_round :: "unit \<Rightarrow> (unit, unit + int, mx_state) xe" where
  "name_round _ =
     bindX mxml_string_getc (\<lambda>ch.
     if ch = EOF \<or> mxml_isspace ch \<or> ch = 61 \<or> ch = 47 \<or> ch = 62 \<or> ch = 63 then retX (Inr ch) else
     bindX (entity_or ch) (\<lambda>ch. thenX (add_name ch) (retX (Inl ()))))"

definition attr_name :: "int \<Rightarrow> (unit, int, mx_state) xe" where
  "attr_name ch =
     thenX (start_with pe_name_update [ch])
     (if ch = 34 \<or> ch = 39 then readX (quoted_name_round ch) () else readX name_round ())"

definition quoted_value_round :: "int \<Rightarrow> unit \<Rightarrow> (unit, unit + int, mx_state) xe" where
  "quoted_value_round quote _ =
     bindX mxml_string_getc (\<lambda>ch. if ch = EOF \<or> ch = quote then retX (Inr ch) else
     bindX (entity_or ch) (\<lambda>ch. thenX (add_value ch) (retX (Inl ()))))"

definition value_round :: "unit \<Rightarrow> (unit, unit + int, mx_state) xe" where
  "value_round _ =
     bindX mxml_string_getc (\<lambda>ch.
     if ch = EOF \<or> mxml_isspace ch \<or> ch = 61 \<or> ch = 47 \<or> ch = 62 then retX (Inr ch) else
     bindX (entity_or ch) (\<lambda>ch. thenX (add_value ch) (retX (Inl ()))))"

definition attr_value :: "int \<Rightarrow> (unit, int, mx_state) xe" where
  "attr_value ch =
     (if ch = 39 \<or> ch = 34 then thenX (start_with pe_value_update []) (readX (quoted_value_round ch) ())
      else thenX (start_with pe_value_update [ch]) (readX value_round ()))"

text \<open>\<open>while (ch != EOF && mxml_isspace(ch)) ch = getc();\<close>\<close>

definition skip_space :: "int \<Rightarrow> ('e, int, mx_state) xe" where
  "skip_space = readX (\<lambda>ch. if ch \<noteq> EOF \<and> mxml_isspace ch then bindX mxml_string_getc (\<lambda>ch. retX (Inl ch))
     else retX (Inr ch))"

definition attr_round :: "nat option \<Rightarrow> unit \<Rightarrow> (unit, unit + int, mx_state) xe" where
  "attr_round node _ =
     bindX mxml_string_getc (\<lambda>ch.
     if ch = EOF then retX (Inr EOF)
     else if mxml_isspace ch then retX (Inl ())
     else if ch = 47 \<or> ch = 63 then
       bindX mxml_string_getc (\<lambda>quote. if quote \<noteq> 62 then stopX () else retX (Inr ch))
     else if ch = 60 then stopX ()
     else if ch = 62 then retX (Inr ch)
     else
     bindX (attr_name ch) (\<lambda>ch.
     bindX (terminated pe_name) (\<lambda>name.
     bindX (mxmlElementGetAttr node name) (\<lambda>old. if old \<noteq> None then stopX () else
     bindX (skip_space ch) (\<lambda>ch. if ch \<noteq> 61 then stopX () else
     bindX (bindX mxml_string_getc skip_space) (\<lambda>ch. if ch = EOF then stopX () else
     bindX (attr_value ch) (\<lambda>ch.
     bindX (terminated pe_value) (\<lambda>v.
     thenX (mxmlElementSetAttr node name (Some v))
     (if ch = 47 \<or> ch = 63 then
        bindX mxml_string_getc (\<lambda>quote. retX (Inr (if quote \<noteq> 62 then EOF else ch)))
      else retX (if ch = 62 then Inr ch else Inl ()))))))))))"

text \<open>The error exit gives back \<open>EOF\<close>; both exits release the two buffers.\<close>

definition or_EOF :: "(unit, int, mx_state) xe \<Rightarrow> ('e, int, mx_state) xe" where
  "or_EOF m s = bindR (m s) (\<lambda>(r, s). Inr (Inr (case r of Inl _ \<Rightarrow> EOF | Inr ch \<Rightarrow> ch), s))"

definition mxml_parse_element :: "nat option \<Rightarrow> ('e, int, mx_state) xe" where
  "mxml_parse_element node =
     bindX (liftX allocate) (\<lambda>ok. if \<not> ok then retX EOF else
     thenX (updX (pe_name_update (\<lambda>_. new_buf 64)))
     (bindX (liftX allocate) (\<lambda>ok. if \<not> ok then thenX (free_buf pe_name pe_name_update) (retX EOF) else
     thenX (updX (pe_value_update (\<lambda>_. new_buf 64)))
     (bindX (or_EOF (readX (attr_round node) ())) (\<lambda>ch.
     thenX (free_buf pe_name pe_name_update)
     (thenX (free_buf pe_value pe_value_update)
     (retX ch)))))))"

section \<open>The loader\<close>

text \<open>\<open>if (node && !first) first = node;\<close>\<close>

definition note_first :: "nat option \<Rightarrow> (unit, unit, mx_state) xe" where
  "note_first node = updX (\<lambda>s. if ld_first s = None then s\<lparr>ld_first := node\<rparr> else s)"

definition buffer_used :: "(unit, nat, mx_state) xe" where
  "buffer_used = getX (\<lambda>s. length (b_chars (ld_buffer s)))"

text \<open>The text before a tag or white space is a value node.\<close>

definition end_value :: "int \<Rightarrow> (unit, unit, mx_state) xe" where
  "end_value ch =
     bindX (terminated ld_buffer) (\<lambda>buffer.
     bindX (getX ld_type) (\<lambda>type. bindX (getX ld_parent) (\<lambda>parent. bindX (getX ld_whitespace) (\<lambda>ws.
     bindX (case type of MXML_TEXT \<Rightarrow> mxmlNewText parent ws buffer | MXML_IGNORE \<Rightarrow> retX None) (\<lambda>node.
     thenX (start_with ld_buffer_update [])
     (thenX (updX (\<lambda>s. s\<lparr>ld_whitespace := mxml_isspace ch \<and> type = MXML_TEXT\<rparr>))
     (if node = None \<and> type \<noteq> MXML_IGNORE then stopX () else note_first node)))))))"

definition value_before :: "int \<Rightarrow> (unit, unit, mx_state) xe" where
  "value_before ch =
     bindX buffer_used (\<lambda>n. bindX (getX ld_type) (\<lambda>type.
     if (ch = 60 \<or> mxml_isspace ch) \<and> n > 0 then end_value ch
     else whenX (mxml_isspace ch \<and> type = MXML_TEXT) (updX (\<lambda>s. s\<lparr>ld_whitespace := True\<rparr>))))"

text \<open>White space alone before a tag is a text node, too.\<close>

definition lone_whitespace :: "int \<Rightarrow> (unit, unit, mx_state) xe" where
  "lone_whitespace ch =
     bindX (getX ld_type) (\<lambda>type. bindX (getX ld_whitespace) (\<lambda>ws. bindX (getX ld_parent) (\<lambda>parent.
     whenX (ch = 60 \<and> ws \<and> type = MXML_TEXT)
       (thenX (whenX (parent \<noteq> None) (bindX (mxmlNewText parent ws '''') note_first))
       (updX (\<lambda>s. s\<lparr>ld_whitespace := False\<rparr>))))))"

section \<open>Tags\<close>

definition tag_round :: "unit \<Rightarrow> (unit, unit + int, mx_state) xe" where
  "tag_round _ =
     bindX mxml_string_getc (\<lambda>ch.
     bindX buffer_used (\<lambda>n.
     if ch = EOF \<or> mxml_isspace ch \<or> ch = 62 \<or> ch = 47 \<and> n > 0 then retX (Inr ch)
     else if ch = 60 then stopX ()
     else if ch = 38 then
       bindX mxml_get_entity (\<lambda>ch. if ch = EOF then stopX () else thenX (add_buffer ch) (retX (Inl ())))
     else if ch < 48 \<and> ch \<noteq> 33 \<and> ch \<noteq> 45 \<and> ch \<noteq> 46 \<and> ch \<noteq> 47 then stopX ()
     else thenX (add_buffer ch)
       (bindX (getX (\<lambda>s. b_chars (ld_buffer s))) (\<lambda>buffer.
       retX (if buffer = ''?'' \<or> buffer = ''!--'' \<or> buffer = ''![CDATA['' then Inr ch else Inl ())))))"

text \<open>Reading on to the end of a tag that is kept as the name of one element.\<close>

definition gather_round :: "(string \<Rightarrow> bool) \<Rightarrow> unit \<Rightarrow> (unit, unit + int, mx_state) xe" where
  "gather_round ends _ =
     bindX mxml_string_getc (\<lambda>ch. if ch = EOF then retX (Inr ch) else
     bindX (getX (\<lambda>s. b_chars (ld_buffer s))) (\<lambda>buffer.
     if ch = 62 \<and> ends buffer then retX (Inr ch) else thenX (add_buffer ch) (retX (Inl ()))))"

definition ends_comment :: "string \<Rightarrow> bool" where
  "ends_comment b \<longleftrightarrow> length b > 4 \<and> b ! (length b - 3) \<noteq> CHR ''-'' \<and> b ! (length b - 2) = CHR ''-'' \<and>
     b ! (length b - 1) = CHR ''-''"

definition ends_cdata :: "string \<Rightarrow> bool" where
  "ends_cdata b \<longleftrightarrow> drop (length b - 2) b = '']]''"

definition ends_directive :: "string \<Rightarrow> bool" where
  "ends_directive b \<longleftrightarrow> b \<noteq> [] \<and> last b = CHR ''?''"

definition declaration_round :: "int \<Rightarrow> (unit, int + int, mx_state) xe" where
  "declaration_round ch =
     (if ch = 62 then retX (Inr ch) else
      bindX (entity_or ch) (\<lambda>ch.
      thenX (add_buffer ch)
      (bindX mxml_string_getc (\<lambda>ch. retX (if ch = EOF then Inr ch else Inl ch)))))"

text \<open>The element with the gathered name; there can be only one root.\<close>

definition gathered_element :: "(unit, nat option, mx_state) xe" where
  "gathered_element =
     bindX (terminated ld_buffer) (\<lambda>buffer.
     bindX (getX ld_parent) (\<lambda>parent. bindX (getX ld_first) (\<lambda>first.
     if parent = None \<and> first \<noteq> None then stopX () else mxmlNewElement parent buffer)))"

definition enter :: "nat option \<Rightarrow> (unit, unit, mx_state) xe" where
  "enter node = updX (\<lambda>s. s\<lparr>ld_parent := node, ld_type := MXML_TEXT\<rparr>)"

text \<open>\<open>False\<close> leaves the main loop, in all the kinds of tags.\<close>

definition comment_tag :: "(unit, bool, mx_state) xe" where
  "comment_tag =
     bindX (readX (gather_round ends_comment) ()) (\<lambda>ch. if ch \<noteq> 62 then stopX () else
     bindX gathered_element (\<lambda>node. if node = None then retX False else
     thenX (note_first node) (retX True)))"

definition cdata_tag :: "(unit, bool, mx_state) xe" where
  "cdata_tag =
     bindX (readX (gather_round ends_cdata) ()) (\<lambda>ch. if ch \<noteq> 62 then stopX () else
     bindX gathered_element (\<lambda>node. if node = None then stopX () else
     thenX (note_first node) (retX True)))"

definition enter_root :: "nat option \<Rightarrow> (unit, bool, mx_state) xe" where
  "enter_root node =
     (if node = None then stopX () else
      thenX (note_first node)
      (bindX (getX ld_parent) (\<lambda>parent.
      thenX (whenX (parent = None) (enter node)) (retX True))))"

definition directive_tag :: "(unit, bool, mx_state) xe" where
  "directive_tag =
     bindX (readX (gather_round ends_directive) ()) (\<lambda>ch. if ch \<noteq> 62 then stopX () else
     bindX gathered_element enter_root)"

definition declaration_tag :: "int \<Rightarrow> (unit, bool, mx_state) xe" where
  "declaration_tag ch =
     bindX (readX declaration_round ch) (\<lambda>ch. if ch \<noteq> 62 then stopX () else
     bindX gathered_element enter_root)"

definition element_name :: "nat option \<Rightarrow> ('e, string, mx_state) xe" where
  "element_name node =
     bindX (get_node node) (\<lambda>n. valX (case n_value n of VElement (Some e) _ \<Rightarrow> Inr e | _ \<Rightarrow> Inl NullDeref))"

definition close_tag :: "string \<Rightarrow> int \<Rightarrow> (unit, bool, mx_state) xe" where
  "close_tag buffer ch =
     bindX (getX ld_parent) (\<lambda>parent. if parent = None then stopX () else
     bindX (element_name parent) (\<lambda>name. if drop 1 buffer \<noteq> name then stopX () else
     bindX (readX (\<lambda>ch. if ch \<noteq> 62 \<and> ch \<noteq> EOF then bindX mxml_string_getc (\<lambda>ch. retX (Inl ch))
       else retX (Inr ch)) ch) (\<lambda>_.
     bindX (get_node parent) (\<lambda>n.
     thenX (updX (\<lambda>s. s\<lparr>ld_parent := n_parent n\<rparr>)) (retX True)))))"

definition open_tag :: "string \<Rightarrow> int \<Rightarrow> (unit, bool, mx_state) xe" where
  "open_tag buffer ch =
     bindX (getX ld_parent) (\<lambda>parent. bindX (getX ld_first) (\<lambda>first.
     if parent = None \<and> first \<noteq> None then stopX () else
     bindX (mxmlNewElement parent buffer) (\<lambda>node. if node = None then stopX () else
     bindX (if mxml_isspace ch then
              bindX (mxml_parse_element node) (\<lambda>ch. if ch = EOF then stopX () else retX ch)
            else if ch = 47 then
              bindX mxml_string_getc (\<lambda>ch. if ch \<noteq> 62 then thenX (mxmlDelete node) (stopX ()) else retX 47)
            else retX ch) (\<lambda>ch.
     thenX (note_first node)
     (if ch = EOF then retX False
      else thenX (whenX (ch \<noteq> 47) (enter node)) (retX True))))))"

definition read_tag :: "(unit, bool, mx_state) xe" where
  "read_tag =
     thenX (start_with ld_buffer_update [])
     (bindX (readX tag_round ()) (\<lambda>ch.
     bindX (terminated ld_buffer) (\<lambda>buffer.
     bindX (if buffer = ''!--'' then comment_tag
            else if buffer = ''![CDATA['' then cdata_tag
            else if take 1 buffer = ''?'' then directive_tag
            else if take 1 buffer = ''!'' then declaration_tag ch
            else if take 1 buffer = ''/'' then close_tag buffer ch
            else open_tag buffer ch) (\<lambda>go_on.
     thenX (whenX go_on (start_with ld_buffer_update [])) (retX go_on)))))"

section \<open>The main loop\<close>

definition load_round :: "unit \<Rightarrow> (unit, unit + unit, mx_state) xe" where
  "load_round _ =
     bindX mxml_string_getc (\<lambda>ch. if ch = EOF then retX (Inr ()) else
     thenX (value_before ch)
     (thenX (lone_whitespace ch)
     (if ch = 60 then bindX read_tag (\<lambda>go_on. retX (if go_on then Inl () else Inr ()))
      else if ch = 38 then
        bindX mxml_get_entity (\<lambda>ch. if ch = EOF then stopX () else thenX (add_buffer ch) (retX (Inl ())))
      else thenX (whenX (\<not> mxml_isspace ch) (add_buffer ch)) (retX (Inl ())))))"

text \<open>From the node that is still open up to the root.\<close>

definition climb_round :: "nat option \<Rightarrow> ('e, nat option + nat option, mx_state) xe" where
  "climb_round parent =
     bindX (get_node parent) (\<lambda>n. retX (if n_parent n \<noteq> None then Inl (n_parent n) else Inr parent))"

definition load_end :: "('e, nat option, mx_state) xe" where
  "load_end =
     thenX (free_buf ld_buffer ld_buffer_update)
     (bindX (getX ld_parent) (\<lambda>node. bindX (getX ld_first) (\<lambda>first.
     if node = None then retX first else
     bindX (getX (\<lambda>s. length (mx_nodes s))) (\<lambda>n.
     bindX (loopX n climb_round node) (\<lambda>parent.
     if node \<noteq> parent then thenX (mxmlDelete first) (retX None) else retX parent)))))"

definition load_error :: "('e, nat option, mx_state) xe" where
  "load_error =
     bindX (getX ld_first) (\<lambda>first.
     thenX (mxmlDelete first) (thenX (free_buf ld_buffer ld_buffer_update) (retX None)))"

definition catchX :: "(unit, 'a, 's) xe \<Rightarrow> ('a \<Rightarrow> ('e, 'b, 's) xe) \<Rightarrow> ('e, 'b, 's) xe \<Rightarrow> ('e, 'b, 's) xe" where
  "catchX m f h s = bindR (m s) (\<lambda>(r, s). case r of Inl _ \<Rightarrow> h s | Inr x \<Rightarrow> f x s)"

definition mxml_load_data :: "('e, nat option, mx_state) xe" where
  "mxml_load_data =
     bindX (liftX allocate) (\<lambda>ok. if \<not> ok then retX None else
     thenX (updX (\<lambda>s. s\<lparr>ld_buffer := new_buf 64, ld_parent := None, ld_first := None, ld_whitespace := False,
              in_encoding := ENCODE_UTF8, ld_type := MXML_IGNORE\<rparr>))
     (catchX (readX load_round ()) (\<lambda>_. load_end) load_error))"

text \<open>Only the nodes and the allocator of the state matter, and the text, without its end.\<close>

definition start_text :: "string \<Rightarrow> (nat \<Rightarrow> bool) \<Rightarrow> mx_state" where
  "start_text txt ok = \<lparr>mx_nodes = [], malloc_ok = ok, malloc_calls = 0, in_text = txt @ [CHR 0x00],
     in_encoding = ENCODE_UTF8, ld_buffer = new_buf 0, ld_first = None, ld_parent = None,
     ld_type = MXML_IGNORE, ld_whitespace = False, pe_name = new_buf 0, pe_value = new_buf 0\<rparr>"

definition mxmlLoadString :: "string \<Rightarrow> (nat \<Rightarrow> bool) \<Rightarrow> (nat option \<times> mx_state) result" where
  "mxmlLoadString txt ok =
     bindR (mxml_load_data (start_text txt ok)) (\<lambda>(r, s).
     Inr (case r of Inl () \<Rightarrow> None | Inr node \<Rightarrow> node, s))"

end
