(* ===== verification/Mxml_Safe.thy ===== *)
theory Mxml_Safe
  imports Mxml_Load
begin

text \<open>
  The loader on texts in UTF-8 with enough memory: it has defined behaviour, ends, and what it
  returns is the root of a tree of elements and texts. \<open>reads I m D\<close> says that a computation keeps
  the invariant \<open>I\<close>, never moves back in the text, and has consumed \<open>D x\<close> characters when it returns
  \<open>x\<close>; a loop whose rounds consume a character ends. The locales \<open>reader\<close> and \<open>attr_reader\<close> say what
  an invariant must bear so that the functions that read a tag and its attributes keep it.
\<close>

section \<open>Computations that read on\<close>

abbreviation left_of :: "mx_state \<Rightarrow> nat" where
  "left_of s \<equiv> length (in_text s)"

definition reads :: "(mx_state \<Rightarrow> bool) \<Rightarrow> ('e, 'a, mx_state) xe \<Rightarrow> ('a \<Rightarrow> nat) \<Rightarrow> bool" where
  "reads I m D \<longleftrightarrow> (\<forall>s. I s \<longrightarrow> okX m s (\<lambda>x t. I t \<and> left_of t + D x \<le> left_of s) (\<lambda>_ t. I t \<and> left_of t \<le> left_of s))"

abbreviation any_way :: "'a \<Rightarrow> nat" where
  "any_way \<equiv> \<lambda>_. 0"

named_theorems reads_rules \<open>a computation reads on\<close>

lemma readsD: "reads I m D \<Longrightarrow> I s \<Longrightarrow>
    okX m s (\<lambda>x t. I t \<and> left_of t + D x \<le> left_of s) (\<lambda>_ t. I t \<and> left_of t \<le> left_of s)"
  by (simp add: reads_def)

lemma readsI: "(\<And>s. I s \<Longrightarrow> okX m s (\<lambda>x t. I t \<and> left_of t + D x \<le> left_of s) (\<lambda>_ t. I t \<and> left_of t \<le> left_of s))
    \<Longrightarrow> reads I m D"
  by (simp add: reads_def)

lemma reads_weaken: "reads I m D \<Longrightarrow> (\<And>x. D' x \<le> D x) \<Longrightarrow> reads I m D'"
  unfolding reads_def
proof (intro allI impI)
  fix s assume m: "\<forall>s. I s \<longrightarrow> okX m s (\<lambda>x t. I t \<and> left_of t + D x \<le> left_of s) (\<lambda>_ t. I t \<and> left_of t \<le> left_of s)"
    and D: "\<And>x. D' x \<le> D x" and s: "I s"
  show "okX m s (\<lambda>x t. I t \<and> left_of t + D' x \<le> left_of s) (\<lambda>_ t. I t \<and> left_of t \<le> left_of s)"
    using m s by (auto elim!: okX_mono intro: le_trans [OF add_left_mono [OF D]])
qed

lemma reads_retX [reads_rules]: "D x = 0 \<Longrightarrow> reads I (retX x) D"
  by (simp add: reads_def)

lemma reads_stopX [reads_rules]: "reads I (stopX e) D"
  by (simp add: reads_def)

lemma reads_bindX:
  assumes "reads I m D1" "\<And>x. reads I (f x) (\<lambda>y. D y - D1 x)"
  shows "reads I (bindX m f) D"
  unfolding reads_def
proof (intro allI impI)
  fix s assume "I s"
  have "okX (f x) t (\<lambda>y u. I u \<and> left_of u + D y \<le> left_of s) (\<lambda>_ u. I u \<and> left_of u \<le> left_of s)"
    if "I t \<and> left_of t + D1 x \<le> left_of s" for x t
    by (rule okX_mono [OF readsD [OF assms(2)]]) (use that in auto)
  then show "okX (bindX m f) s (\<lambda>x t. I t \<and> left_of t + D x \<le> left_of s) (\<lambda>_ t. I t \<and> left_of t \<le> left_of s)"
    using readsD [OF assms(1) \<open>I s\<close>] by (auto elim!: okX_mono)
qed

lemma reads_bind0 [reads_rules]: "reads I m any_way \<Longrightarrow> (\<And>x. reads I (f x) D) \<Longrightarrow> reads I (bindX m f) D"
  by (rule reads_bindX) auto

lemma reads_thenX [reads_rules]: "reads I m any_way \<Longrightarrow> reads I n D \<Longrightarrow> reads I (thenX m n) D"
  unfolding thenX_def by (rule reads_bind0)

lemma reads_getX [reads_rules]: "(\<And>x. D x = 0) \<Longrightarrow> reads I (getX g) D"
  by (simp add: reads_def)

lemma reads_whenX [reads_rules]: "(\<And>x. D x = 0) \<Longrightarrow> (b \<Longrightarrow> reads I m any_way) \<Longrightarrow> reads I (whenX b m) D"
  by (auto simp: reads_def)

lemma reads_updX: "(\<And>x. D x = 0) \<Longrightarrow> (\<And>s. I s \<Longrightarrow> I (g s) \<and> in_text (g s) = in_text s) \<Longrightarrow> reads I (updX g) D"
  by (simp add: reads_def)

lemma reads_option [reads_rules]:
  "(x = None \<Longrightarrow> reads I m D) \<Longrightarrow> (\<And>v. x = Some v \<Longrightarrow> reads I (f v) D) \<Longrightarrow>
     reads I (case x of None \<Rightarrow> m | Some v \<Rightarrow> f v) D"
  by (cases x) simp_all

lemma reads_if [reads_rules]: "(b \<Longrightarrow> reads I m D) \<Longrightarrow> (\<not> b \<Longrightarrow> reads I n D) \<Longrightarrow> reads I (if b then m else n) D"
  by simp

lemma reads_let [reads_rules]: "(\<And>x. x = a \<Longrightarrow> reads I (f x) D) \<Longrightarrow> reads I (let x = a in f x) D"
  by simp

lemma reads_prod [reads_rules]: "(\<And>a b. reads I (f a b) D) \<Longrightarrow> reads I (case p of (a, b) \<Rightarrow> f a b) D"
  by (cases p) simp

text \<open>The rounds of a loop consume; leaving it may not.\<close>

definition round_way :: "'b + 'c \<Rightarrow> nat" where
  "round_way r = (case r of Inl _ \<Rightarrow> 1 | Inr _ \<Rightarrow> 0)"

lemma round_way_simps [simp]: "round_way (Inl b) = 1" "round_way (Inr c) = 0"
  by (simp_all add: round_way_def)

lemma okX_loopX:
  fixes M :: "'b \<Rightarrow> 's \<Rightarrow> nat"
  assumes "I b s" "M b s < n"
    and round: "\<And>b s. I b s \<Longrightarrow> okX (f b) s (\<lambda>r t. case r of Inl c \<Rightarrow> I c t \<and> M c t < M b s | Inr c \<Rightarrow> Q c t) E"
  shows "okX (loopX n f b) s Q E"
  using assms(1,2)
proof (induction n arbitrary: b s)
  case (Suc n)
  show ?case
    unfolding loopX.simps okX_bindX
    by (rule okX_mono [OF round [OF Suc.prems(1)]]) (use Suc in \<open>auto split: sum.splits\<close>)
qed simp

lemma okX_readX_by:
  assumes "I b s" "\<And>b s. I b s \<Longrightarrow> M b s \<le> left_of s"
    and "\<And>b s. I b s \<Longrightarrow> okX (f b) s (\<lambda>r t. case r of Inl c \<Rightarrow> I c t \<and> M c t < M b s | Inr c \<Rightarrow> Q c t) E"
  shows "okX (readX f b) s Q E"
  unfolding readX_def okX_bindX okX_getX
  by (rule okX_loopX [of I _ _ M, OF assms(1) _ assms(3)]) (simp_all add: assms(1,2) less_Suc_eq_le)

lemmas okX_readX = okX_readX_by [of _ _ _ "\<lambda>_. left_of", OF _ order_refl]

lemma reads_readX [reads_rules]:
  assumes "\<And>x. D x = 0" "\<And>b. reads I (f b) round_way"
  shows "reads I (readX f b) D"
  unfolding reads_def assms(1)
proof (intro allI impI)
  fix s assume "I s"
  have "okX (readX f b) s (\<lambda>x t. I t \<and> left_of t \<le> left_of s) (\<lambda>_ t. I t \<and> left_of t \<le> left_of s)"
  proof (rule okX_readX [where I = "\<lambda>_ t. I t \<and> left_of t \<le> left_of s"])
    fix b t assume t: "I t \<and> left_of t \<le> left_of s"
    then show "okX (f b) t (\<lambda>r u. case r of Inl b \<Rightarrow> (I u \<and> left_of u \<le> left_of s) \<and> left_of u < left_of t
        | Inr c \<Rightarrow> I u \<and> left_of u \<le> left_of s) (\<lambda>_ u. I u \<and> left_of u \<le> left_of s)"
      by (intro okX_mono [OF readsD [OF assms(2)]]) (auto split: sum.splits)
  qed (use \<open>I s\<close> in simp)
  then show "okX (readX f b) s (\<lambda>x t. I t \<and> left_of t + 0 \<le> left_of s) (\<lambda>_ t. I t \<and> left_of t \<le> left_of s)"
    by simp
qed

lemma okX_ifI: "(b \<Longrightarrow> okX m s Q E) \<Longrightarrow> (\<not> b \<Longrightarrow> okX n s Q E) \<Longrightarrow> okX (if b then m else n) s Q E"
  by simp

section \<open>Reading characters\<close>

text \<open>What is left of a text in UTF-8: no byte order marks of UTF-16, and the NUL at the end.\<close>

definition text_ok :: "string \<Rightarrow> bool" where
  "text_ok t \<longleftrightarrow> t \<noteq> [] \<and> last t = CHR 0x00 \<and> CHR 0xFE \<notin> set t \<and> CHR 0xFF \<notin> set t"

definition getc_way :: "int \<Rightarrow> nat" where
  "getc_way ch = (if ch = EOF then 0 else 1)"

lemma text_ok_drop: "text_ok t \<Longrightarrow> k < length t \<Longrightarrow> text_ok (drop k t)"
  by (auto simp: text_ok_def dest: in_set_dropD)

text \<open>A byte that is no NUL is not the last one.\<close>

lemma text_ok_more: "text_ok t \<Longrightarrow> k < length t \<Longrightarrow> t ! k \<noteq> CHR 0x00 \<Longrightarrow> Suc k < length t"
  by (cases "Suc k = length t") (auto simp: text_ok_def last_conv_nth dest!: sym [of "Suc k"])

definition buf_ok :: "buf \<Rightarrow> bool" where
  "buf_ok b \<longleftrightarrow> b_alive b \<and> length (b_chars b) < b_size b \<and> 64 \<le> b_size b"

locale reader =
  fixes I :: "mx_state \<Rightarrow> bool"
  assumes utf8: "I s \<Longrightarrow> in_encoding s = ENCODE_UTF8 \<and> text_ok (in_text s)"
    and move: "I s \<Longrightarrow> text_ok t \<Longrightarrow> I (s\<lparr>in_text := t\<rparr>)"
    and memory: "I s \<Longrightarrow> malloc_ok s n"
    and alloc: "I s \<Longrightarrow> I (s\<lparr>malloc_calls := n\<rparr>)"
    and buffer: "I s \<Longrightarrow> buf_ok (ld_buffer s)"
    and set_buffer: "I s \<Longrightarrow> buf_ok b \<Longrightarrow> I (s\<lparr>ld_buffer := b\<rparr>)"
begin

lemma after_drop: "I s \<Longrightarrow> k < left_of s \<Longrightarrow> I (s\<lparr>in_text := drop k (in_text s)\<rparr>)"
  by (intro move text_ok_drop) (use utf8 in auto)

text \<open>A byte of a character behind the first one is not the end of the text.\<close>

lemma okX_peek_more:
  assumes "I s" "k < left_of s" "Q (Inr EOF) s" and more: "\<And>b. Suc k < left_of s \<Longrightarrow> okX (f b) s Q E"
  shows "okX (bindX (peek k) (\<lambda>b. if b AND 0xc0 \<noteq> 0x80 then retX (Inr EOF) else f b)) s Q E"
proof -
  have "text_ok (in_text s)" using utf8 [OF assms(1)] by simp
  then have "Suc k < left_of s" if "int (of_char (in_text s ! k)) AND 0xc0 = 0x80"
    using that by (intro text_ok_more assms(2)) auto
  then show ?thesis using assms(2,3) more by (simp add: peek_def)
qed

lemma okX_skip_more:
  assumes "I s" "0 < k" "k < left_of s" "\<And>t. I t \<and> left_of t < left_of s \<Longrightarrow> Q r t"
  shows "okX (thenX (skip k) (retX r)) s Q E"
  using assms(2,3) after_drop [OF assms(1,3)] by (auto simp: skip_def intro!: assms(4))

lemma okX_utf8_char:
  assumes "I s" "ch \<noteq> 0xfe" "ch \<noteq> 0xff"
  shows "okX (utf8_char ch) s (\<lambda>r t. I t \<and> left_of t \<le> left_of s \<and> (r = Inl () \<longrightarrow> left_of t < left_of s))
     (\<lambda>_ t. I t \<and> left_of t \<le> left_of s)"
proof -
  have "0 < left_of s" using utf8 [OF assms(1)] by (simp add: text_ok_def)
  then show ?thesis
    using assms(2,3) unfolding utf8_char_def Let_def
    by (intro okX_ifI okX_peek_more [OF assms(1)] okX_skip_more [OF assms(1)]) (simp_all add: assms(1) split: if_splits)
qed

lemma char_code: "int (of_char c) = 0xfe \<Longrightarrow> c = CHR 0xFE" "int (of_char c) = 0xff \<Longrightarrow> c = CHR 0xFF"
  using of_char_eq_iff [of c "CHR 0xFE", where ?'a = nat] of_char_eq_iff [of c "CHR 0xFF", where ?'a = nat]
  by (simp_all del: of_char_eq_iff)

lemma okX_string_getc_round:
  assumes "I s"
  shows "okX (string_getc_round u) s (\<lambda>r t. I t \<and> (case r of Inl _ \<Rightarrow> left_of t < left_of s
      | Inr ch \<Rightarrow> left_of t + getc_way ch \<le> left_of s)) (\<lambda>_ t. I t \<and> left_of t \<le> left_of s)"
proof -
  let ?t = "in_text s" and ?ch = "int (of_char (in_text s ! 0))"
  have t: "text_ok ?t" "in_encoding s = ENCODE_UTF8" using utf8 [OF assms] by simp_all
  have len: "0 < length ?t" using t by (simp add: text_ok_def)
  have in_t: "?t ! 0 \<in> set ?t" using len by simp
  show ?thesis
  proof (cases "?ch = 0")
    case True
    then show ?thesis using assms len t by (simp add: string_getc_round_def peek_def getc_way_def)
  next
    case False
    then have more: "Suc 0 < length ?t" using len by (intro text_ok_more [OF t(1)]) auto
    have no: "?ch \<noteq> 0xfe" "?ch \<noteq> 0xff"
      using t(1) in_t char_code [of "?t ! 0"] unfolding text_ok_def by metis+
    let ?s = "s\<lparr>in_text := drop (Suc 0) ?t\<rparr>"
    have s: "I ?s" by (rule after_drop [OF assms more])
    have "okX (utf8_char ?ch) ?s (\<lambda>r t. I t \<and> (case r of Inl _ \<Rightarrow> left_of t < left_of s
      | Inr ch \<Rightarrow> left_of t + getc_way ch \<le> left_of s)) (\<lambda>_ t. I t \<and> left_of t \<le> left_of s)"
      by (rule okX_mono [OF okX_utf8_char [OF s no]]) (use more in \<open>auto simp: getc_way_def split: sum.splits\<close>)
    then show ?thesis using False len t by (simp add: string_getc_round_def peek_def skip_def)
  qed
qed

lemma reads_getc: "reads I mxml_string_getc getc_way"
  unfolding mxml_string_getc_def
proof (rule readsI)
  fix s :: mx_state assume s: "I s"
  show "okX (readX string_getc_round ()) s (\<lambda>ch t. I t \<and> left_of t + getc_way ch \<le> left_of s)
      (\<lambda>_ t. I t \<and> left_of t \<le> left_of s)"
  proof (rule okX_readX [where I = "\<lambda>_ t. I t \<and> left_of t \<le> left_of s"])
    fix t :: mx_state and b assume t: "I t \<and> left_of t \<le> left_of s"
    then have "I t" by simp
    from okX_string_getc_round [OF this]
    show "okX (string_getc_round b) t (\<lambda>r u. case r of Inl b \<Rightarrow> (I u \<and> left_of u \<le> left_of s) \<and> left_of u < left_of t
        | Inr ch \<Rightarrow> I u \<and> left_of u + getc_way ch \<le> left_of s) (\<lambda>_ u. I u \<and> left_of u \<le> left_of s)"
      by (rule okX_mono) (use t in \<open>auto split: sum.splits\<close>)
  qed (use s in simp)
qed

text \<open>The first character that is read moves on, unless it is the end.\<close>

lemma reads_getc_bind [reads_rules]:
  assumes "reads I (f EOF) D" "\<And>ch. ch \<noteq> EOF \<Longrightarrow> reads I (f ch) (\<lambda>y. D y - 1)"
  shows "reads I (bindX mxml_string_getc f) D"
proof (rule reads_bindX [OF reads_getc])
  show "reads I (f ch) (\<lambda>y. D y - getc_way ch)" for ch
    using assms by (cases "ch = EOF") (simp_all add: getc_way_def)
qed

lemma reads_entity [reads_rules]: "D = any_way \<Longrightarrow> reads I mxml_get_entity D"
  unfolding mxml_get_entity_def entity_round_def by (rule reads_rules | simp)+

lemma reads_entity_or [reads_rules]: "D = any_way \<Longrightarrow> reads I (entity_or ch) D"
  unfolding entity_or_def by (rule reads_rules | simp)+

text \<open>A buffer with room for one more byte gets a character of at most four.\<close>

lemma length_utf8_bytes: "length (utf8_bytes ch) \<le> 4"
  by (simp add: utf8_bytes_def)

lemma put_bytes:
  "length (b_chars b) + length bs \<le> b_size b \<Longrightarrow>
     \<exists>cs. foldR put_byte bs b = Inr (b\<lparr>b_chars := cs\<rparr>) \<and> length cs = length (b_chars b) + length bs"
proof (induction bs arbitrary: b)
  case (Cons c bs)
  then show ?case
    using Cons.IH [of "b\<lparr>b_chars := b_chars b @ [char_of c]\<rparr>"] by (auto simp: put_byte_def)
next
  case Nil
  then show ?case by (intro exI [of _ "b_chars b"]) simp
qed

lemma okX_add_char:
  assumes "I s" "buf_ok b"
  shows "okX (mxml_add_char ch b) s (\<lambda>(ok, b) t. ok \<and> buf_ok b \<and> I t \<and> in_text t = in_text s) E"
proof -
  define c where "c = (if length (b_chars b) + 4 \<ge> b_size b
    then b\<lparr>b_size := (if b_size b < 1024 then b_size b * 2 else b_size b + 1024)\<rparr> else b)"
  have c: "length (b_chars c) + 4 < b_size c" "b_alive c" "64 \<le> b_size c"
    using assms(2) by (auto simp: c_def buf_ok_def)
  then obtain cs where "foldR put_byte (utf8_bytes ch) c = Inr (c\<lparr>b_chars := cs\<rparr>)"
      "length cs = length (b_chars c) + length (utf8_bytes ch)"
    using put_bytes [of c "utf8_bytes ch"] length_utf8_bytes [of ch] by auto
  then have "\<exists>d. foldR put_byte (utf8_bytes ch) c = Inr d \<and> buf_ok d"
    using c length_utf8_bytes [of ch] by (auto simp: buf_ok_def)
  then show ?thesis
    using assms(1) memory [OF assms(1)] alloc [OF assms(1)]
    by (auto simp: mxml_add_char_def c_def Let_def split: if_splits)
qed

lemma reads_add_to:
  assumes "\<And>s. I s \<Longrightarrow> buf_ok (get s)" "\<And>s b. I s \<Longrightarrow> buf_ok b \<Longrightarrow> I (upd (\<lambda>_. b) s)"
    "\<And>f s. in_text (upd f s) = in_text s" "D = any_way"
  shows "reads I (add_to get upd ch) D"
proof (rule readsI)
  fix s assume s: "I s"
  show "okX (add_to get upd ch) s (\<lambda>x t. I t \<and> left_of t + D x \<le> left_of s) (\<lambda>_ t. I t \<and> left_of t \<le> left_of s)"
    unfolding add_to_def okX_bindX okX_getX
    by (rule okX_mono [OF okX_add_char [OF s assms(1) [OF s]]]) (use assms(2-4) in auto)
qed

lemma reads_start_with:
  assumes "\<And>s b. I s \<Longrightarrow> buf_ok b \<Longrightarrow> I (upd (\<lambda>_. b) s)" "\<And>s. I s \<Longrightarrow> buf_ok (get s)"
    "\<And>f s. in_text (upd f s) = in_text s" "\<And>f s. upd f s = upd (\<lambda>_. f (get s)) s" "D = any_way"
    "length bs < 64"
  shows "reads I (start_with upd bs) D"
  unfolding start_with_def
proof (rule reads_updX)
  fix s assume s: "I s"
  have "buf_ok ((get s)\<lparr>b_chars := map char_of bs\<rparr>)" using assms(2) [OF s] assms(6) by (simp add: buf_ok_def)
  then have "I (upd (\<lambda>_. (get s)\<lparr>b_chars := map char_of bs\<rparr>) s)" using s by (intro assms(1))
  then show "I (upd (\<lambda>b. b\<lparr>b_chars := map char_of bs\<rparr>) s) \<and>
      in_text (upd (\<lambda>b. b\<lparr>b_chars := map char_of bs\<rparr>) s) = in_text s"
    using assms(3) assms(4) [of "\<lambda>b. b\<lparr>b_chars := map char_of bs\<rparr>" s] by simp
qed (simp add: assms(5))

lemma reads_terminated: "(\<And>s. I s \<Longrightarrow> buf_ok (get s)) \<Longrightarrow> D = any_way \<Longrightarrow> reads I (terminated get) D"
  by (rule readsI) (simp add: terminated_def buf_ok_def)

lemma reads_add_buffer [reads_rules]: "D = any_way \<Longrightarrow> reads I (add_buffer ch) D"
  by (rule reads_add_to) (auto intro: buffer set_buffer)

lemma reads_start_buffer [reads_rules]: "D = any_way \<Longrightarrow> reads I (start_with ld_buffer_update []) D"
  by (rule reads_start_with [where get = ld_buffer]) (auto intro: buffer set_buffer)

lemma reads_buffer [reads_rules]: "D = any_way \<Longrightarrow> reads I (terminated ld_buffer) D"
  by (rule reads_terminated) (auto intro: buffer)

text \<open>The loops that ask for the next character at the end of a round: they take one more round at the end.\<close>

lemma reads_until:
  assumes "D = any_way" "\<And>s. I s \<Longrightarrow> 0 < left_of s" "\<not> go EOF"
  shows "reads I (readX (\<lambda>ch. if go ch then bindX mxml_string_getc (\<lambda>ch. retX (Inl ch)) else retX (Inr ch)) ch) D"
proof (rule readsI)
  fix s :: mx_state assume s: "I s"
  let ?M = "\<lambda>ch t. if ch = EOF then 0 else left_of t"
  let ?f = "\<lambda>ch. if go ch then bindX mxml_string_getc (\<lambda>ch. retX (Inl ch)) else retX (Inr ch)"
  have "okX (readX ?f ch) s (\<lambda>x t. I t \<and> left_of t \<le> left_of s) (\<lambda>_ t. I t \<and> left_of t \<le> left_of s)"
  proof (rule okX_readX_by [where I = "\<lambda>_ t. I t \<and> left_of t \<le> left_of s" and M = ?M])
    fix b t assume t: "I t \<and> left_of t \<le> left_of s"
    show "okX (?f b) t (\<lambda>r u. case r of Inl c \<Rightarrow> (I u \<and> left_of u \<le> left_of s) \<and> ?M c u < ?M b t
        | Inr c \<Rightarrow> I u \<and> left_of u \<le> left_of s) (\<lambda>_ u. I u \<and> left_of u \<le> left_of s)"
    proof (rule okX_ifI, unfold okX_bindX)
      assume b: "go b"
      show "okX mxml_string_getc t (\<lambda>x u. okX (retX (Inl x)) u (\<lambda>r u. case r of
          Inl c \<Rightarrow> (I u \<and> left_of u \<le> left_of s) \<and> ?M c u < ?M b t
          | Inr c \<Rightarrow> I u \<and> left_of u \<le> left_of s) (\<lambda>_ u. I u \<and> left_of u \<le> left_of s))
          (\<lambda>_ u. I u \<and> left_of u \<le> left_of s)"
        by (rule okX_mono [OF readsD [OF reads_getc]])
          (use t b assms(2,3) in \<open>auto simp: getc_way_def split: if_splits\<close>)
    qed (use t in simp)
  qed (use s in auto)
  then show "okX (readX ?f ch) s (\<lambda>x t. I t \<and> left_of t + D x \<le> left_of s) (\<lambda>_ t. I t \<and> left_of t \<le> left_of s)"
    using assms(1) by simp
qed

lemma some_left: "I s \<Longrightarrow> in_text s \<noteq> []"
  using utf8 by (auto simp: text_ok_def)

lemma reads_skip_space [reads_rules]: "D = any_way \<Longrightarrow> reads I (skip_space ch) D"
  unfolding skip_space_def by (rule reads_until) (auto dest: some_left)

lemma reads_to_bracket [reads_rules]:
  "D = any_way \<Longrightarrow> reads I (readX (\<lambda>ch. if ch \<noteq> 62 \<and> ch \<noteq> EOF then bindX mxml_string_getc (\<lambda>ch. retX (Inl ch))
     else retX (Inr ch)) ch) D"
  by (rule reads_until) (auto dest: some_left)

lemma reads_tag_round [reads_rules]: "D = round_way \<Longrightarrow> reads I (tag_round u) D"
  unfolding tag_round_def buffer_used_def by (rule reads_rules | simp)+

lemma reads_gather_round [reads_rules]: "D = round_way \<Longrightarrow> reads I (gather_round ends u) D"
  unfolding gather_round_def by (rule reads_rules | simp)+

lemma reads_declaration_round [reads_rules]: "D = round_way \<Longrightarrow> reads I (declaration_round ch) D"
  unfolding declaration_round_def by (rule reads_rules | simp)+

end

section \<open>Reading attributes\<close>

locale attr_reader = reader +
  fixes node :: "nat option"
  assumes name_buffer: "I s \<Longrightarrow> buf_ok (pe_name s)" and value_buffer: "I s \<Longrightarrow> buf_ok (pe_value s)"
    and set_name: "I s \<Longrightarrow> buf_ok b \<Longrightarrow> I (s\<lparr>pe_name := b\<rparr>)"
    and set_value: "I s \<Longrightarrow> buf_ok b \<Longrightarrow> I (s\<lparr>pe_value := b\<rparr>)"
    and get_attr: "reads I (mxmlElementGetAttr node name :: (unit, string option, mx_state) xe) any_way"
    and set_attr: "reads I (mxmlElementSetAttr node name (Some v) :: (unit, unit, mx_state) xe) any_way"
begin

lemma reads_add_name [reads_rules]: "D = any_way \<Longrightarrow> reads I (add_name ch) D"
  by (rule reads_add_to) (auto intro: name_buffer set_name)

lemma reads_add_value [reads_rules]: "D = any_way \<Longrightarrow> reads I (add_value ch) D"
  by (rule reads_add_to) (auto intro: value_buffer set_value)

lemma reads_start_name [reads_rules]: "D = any_way \<Longrightarrow> length bs < 64 \<Longrightarrow> reads I (start_with pe_name_update bs) D"
  by (rule reads_start_with [where get = pe_name]) (auto intro: name_buffer set_name)

lemma reads_start_value [reads_rules]: "D = any_way \<Longrightarrow> length bs < 64 \<Longrightarrow> reads I (start_with pe_value_update bs) D"
  by (rule reads_start_with [where get = pe_value]) (auto intro: value_buffer set_value)

lemma reads_name [reads_rules]: "D = any_way \<Longrightarrow> reads I (terminated pe_name) D"
  by (rule reads_terminated) (auto intro: name_buffer)

lemma reads_value [reads_rules]: "D = any_way \<Longrightarrow> reads I (terminated pe_value) D"
  by (rule reads_terminated) (auto intro: value_buffer)

lemma reads_get_attr [reads_rules]:
  "D = any_way \<Longrightarrow> reads I (mxmlElementGetAttr node name :: (unit, string option, mx_state) xe) D"
  using get_attr by simp

lemma reads_set_attr [reads_rules]:
  "D = any_way \<Longrightarrow> reads I (mxmlElementSetAttr node name (Some v) :: (unit, unit, mx_state) xe) D"
  using set_attr by simp

lemma reads_attr_name [reads_rules]: "D = any_way \<Longrightarrow> reads I (attr_name ch) D"
  unfolding attr_name_def quoted_name_round_def name_round_def by (rule reads_rules | simp)+

lemma reads_attr_value [reads_rules]: "D = any_way \<Longrightarrow> reads I (attr_value ch) D"
  unfolding attr_value_def quoted_value_round_def value_round_def by (rule reads_rules | simp)+

lemma reads_attr_round [reads_rules]: "D = round_way \<Longrightarrow> reads I (attr_round node u) D"
  unfolding attr_round_def by (rule reads_rules | simp)+

end

end
