(* ===== verification/Mxml_Load_Safe.thy ===== *)
theory Mxml_Load_Safe
  imports Mxml_Safe
begin

text \<open>
  The loader keeps a tree of named elements and texts: the invariant of its main loop, the functions
  that make, enter, leave and release nodes, and the interpretations of \<open>reader\<close> and
  \<open>attr_reader\<close> on the states of the loader.
\<close>

section \<open>Trees of elements and texts\<close>

definition element_value :: "mxml_value_t \<Rightarrow> bool" where
  "element_value v = (case v of
     VElement (Some e) attrs \<Rightarrow> distinct (map fst attrs) \<and> None \<notin> snd ` set attrs
   | _ \<Rightarrow> False)"

definition text_value :: "mxml_value_t \<Rightarrow> bool" where
  "text_value v = (case v of VText _ (Some _) \<Rightarrow> True | _ \<Rightarrow> False)"

fun typed :: "atree \<Rightarrow> bool" where
  "typed (ANode a v cs) \<longleftrightarrow> (element_value v \<or> text_value v \<and> cs = []) \<and> (\<forall>c \<in> set cs. typed c)"

text \<open>The nodes that are no elements.\<close>

fun others :: "atree \<Rightarrow> nat list" where
  "others (ANode a v cs) = (if element_value v then [] else [a]) @ concat (map others cs)"

definition element_in :: "atree \<Rightarrow> nat \<Rightarrow> bool" where
  "element_in T p \<longleftrightarrow> p \<in> set (addrs T) \<and> p \<notin> set (others T)"

lemma element_text_values [simp]:
  "element_value (VElement (Some e) attrs) \<longleftrightarrow> distinct (map fst attrs) \<and> None \<notin> snd ` set attrs"
  "text_value (VText ws (Some x))"
  by (simp_all add: element_value_def text_value_def)

lemma element_value_cases:
  assumes "element_value v"
  obtains e attrs where "v = VElement (Some e) attrs" "distinct (map fst attrs)" "None \<notin> snd ` set attrs"
  using assms by (auto simp: element_value_def split: mxml_value_t.splits option.splits)

lemma others_addrs: "set (others t) \<subseteq> set (addrs t)"
  by (induction t) auto

lemma others_add_kid: "set (others (add_kid p t T)) \<subseteq> set (others T) \<union> set (others t)"
  unfolding add_kid_def
proof (induction T)
  case (ANode b v cs)
  have "x \<in> set (others c) \<or> x \<in> set (others t)"
    if "c \<in> set cs" "x \<in> set (others (kids_map p (\<lambda>cs. cs @ [t]) c))" for c x
    using ANode.IH [OF that(1)] that(2) by blast
  then show ?case by (fastforce split: if_splits)
qed

lemma others_set_value: "element_value w \<Longrightarrow> set (others (set_value a w T)) \<subseteq> set (others T)"
  by (induction T) auto

lemma element_in_add_kid:
  "element_in T q \<Longrightarrow> a \<notin> set (addrs T) \<Longrightarrow> element_in (add_kid p (ANode a w []) T) q"
  using others_add_kid [of p "ANode a w []" T] by (auto simp: element_in_def split: if_splits)

lemma element_in_new_kid:
  "p \<in> set (addrs T) \<Longrightarrow> a \<notin> set (addrs T) \<Longrightarrow> element_value w \<Longrightarrow> element_in (add_kid p (ANode a w []) T) a"
  using others_add_kid [of p "ANode a w []" T] others_addrs [of T] by (auto simp: element_in_def)

lemma element_in_set_value: "element_in T q \<Longrightarrow> element_value w \<Longrightarrow> element_in (set_value a w T) q"
  using others_set_value [of w a T] by (auto simp: element_in_def)

lemma typed_add_kid: "typed T \<Longrightarrow> p \<notin> set (others T) \<Longrightarrow> typed t \<Longrightarrow> typed (add_kid p t T)"
  unfolding add_kid_def by (induction T) (auto split: if_splits)

lemma typed_set_value: "typed T \<Longrightarrow> element_value w \<Longrightarrow> typed (set_value a w T)"
  by (induction T) auto

lemma subtree_value: "ANode a v cs \<in> set (subtrees T) \<Longrightarrow> a \<notin> set (others T) \<Longrightarrow> element_value v"
  by (induction T) (auto split: if_splits)

lemma element_node:
  assumes "holds_tree s T" "element_in T a"
  obtains n e attrs where "node_at (Some a) (mx_nodes s) = Inr n" "n_value n = VElement (Some e) attrs"
    "distinct (map fst attrs)" "None \<notin> snd ` set attrs"
proof -
  obtain v cs where v: "ANode a v cs \<in> set (subtrees T)"
    using addr_subtrees [of a T] assms(2) by (auto simp: element_in_def)
  then have "element_value v" using subtree_value assms(2) by (auto simp: element_in_def)
  then obtain e attrs where e: "v = VElement (Some e) attrs" "distinct (map fst attrs)" "None \<notin> snd ` set attrs"
    by (rule element_value_cases)
  show ?thesis
    using tree_at_subtree [OF _ v] assms(1) e that by (fastforce simp: holds_tree_def)
qed

text \<open>The parent of a node is an element.\<close>

lemma parent_element:
  assumes "tree_at h parent prev nxt T" "distinct (addrs T)" "typed T" "a \<in> set (addrs T)"
    "node_at (Some a) h = Inr n"
  shows "a = addr T \<and> n_parent n = parent \<or> (\<exists>p. n_parent n = Some p \<and> element_in T p)"
  using assms
proof (induction T arbitrary: parent prev nxt)
  case (ANode b v cs)
  show ?case
  proof (cases "a = b")
    case True
    then show ?thesis using ANode.prems by auto
  next
    case False
    then obtain c where c: "c \<in> set cs" "a \<in> set (addrs c)" using ANode.prems by auto
    obtain prev nxt where t: "tree_at h (Some b) prev nxt c"
      using trees_at_member [OF _ c(1)] ANode.prems(1) by fastforce
    have dc: "distinct (addrs c)" "typed c"
      using ANode.prems c(1) by (auto intro: distinct_forest_member)
    from ANode.IH [OF c(1) t dc c(2) ANode.prems(5)] show ?thesis
    proof
      assume "a = addr c \<and> n_parent n = Some b"
      moreover have "element_value v" using ANode.prems(3) c(1) by auto
      moreover have "b \<notin> set (others d)" if "d \<in> set cs" for d
        using that ANode.prems(2) others_addrs by fastforce
      ultimately show ?thesis by (auto simp: element_in_def)
    next
      assume "\<exists>p. n_parent n = Some p \<and> element_in c p"
      then obtain p where p: "n_parent n = Some p" "p \<in> set (addrs c)" "p \<notin> set (others c)"
        by (auto simp: element_in_def)
      have "p \<notin> set (others d)" if "d \<in> set cs" for d
        using distinct_forest_split [of cs d c p] that c(1) p(2,3) ANode.prems(2) others_addrs by fastforce
      moreover have "p \<noteq> b" using ANode.prems(2) c(1) p(2) by auto
      ultimately have "element_in (ANode b v cs) p" using c(1) p(2) by (auto simp: element_in_def)
      then show ?thesis using p(1) by blast
    qed
  qed
qed


section \<open>Invariants of the loader\<close>

definition reading :: "mx_state \<Rightarrow> bool" where
  "reading s \<longleftrightarrow> in_encoding s = ENCODE_UTF8 \<and> text_ok (in_text s) \<and> \<not> memory_short s \<and> buf_ok (ld_buffer s)"

definition doc_tree :: "mx_state \<Rightarrow> atree \<Rightarrow> bool" where
  "doc_tree s T \<longleftrightarrow> holds_tree s T \<and> typed T \<and> element_in T (addr T)"

definition started :: "mx_state \<Rightarrow> bool" where
  "started s \<longleftrightarrow> ld_first s \<noteq> None"

text \<open>The open element is one of the tree; before the first one, there is none.\<close>

definition inside :: "mx_state \<Rightarrow> atree \<Rightarrow> bool" where
  "inside s T \<longleftrightarrow> ld_first s = Some (addr T) \<and> (\<forall>p. ld_parent s = Some p \<longrightarrow> element_in T p)"

definition outside :: "mx_state \<Rightarrow> bool" where
  "outside s \<longleftrightarrow> ld_first s = None \<and> ld_parent s = None \<and> ld_type s = MXML_IGNORE"

definition load_inv :: "mx_state \<Rightarrow> bool" where
  "load_inv s \<longleftrightarrow> reading s \<and> (outside s \<or> (\<exists>T. doc_tree s T \<and> inside s T))"

text \<open>A new element \<open>a\<close>, which is the root of a tree that the loader does not have yet, or in its tree.\<close>

definition element_inv :: "nat \<Rightarrow> mx_state \<Rightarrow> bool" where
  "element_inv a s \<longleftrightarrow> reading s \<and>
     (\<exists>T. doc_tree s T \<and> element_in T a \<and> (inside s T \<or> outside s \<and> addr T = a))"

definition attr_inv :: "nat \<Rightarrow> mx_state \<Rightarrow> bool" where
  "attr_inv a s \<longleftrightarrow> element_inv a s \<and> buf_ok (pe_name s) \<and> buf_ok (pe_value s)"

text \<open>The same without children and attributes.\<close>

definition new_inv :: "nat \<Rightarrow> mx_state \<Rightarrow> bool" where
  "new_inv a s \<longleftrightarrow> reading s \<and> (\<exists>w. element_value w \<and>
     (outside s \<and> holds_tree s (ANode a w []) \<or>
      (\<exists>T p. typed T \<and> element_in T (addr T) \<and> inside s T \<and> ld_parent s = Some p \<and> a \<notin> set (addrs T) \<and>
        distinct (addrs T) \<and> holds_tree s (add_kid p (ANode a w []) T))))"

lemmas inv_defs = load_inv_def element_inv_def attr_inv_def new_inv_def doc_tree_def inside_def outside_def
  reading_def memory_short_def

lemma holds_tree_updates [simp]:
  fixes s :: mx_state
  shows "holds_tree (s\<lparr>in_text := t\<rparr>) T = holds_tree s T" "holds_tree (s\<lparr>malloc_calls := n\<rparr>) T = holds_tree s T"
    "holds_tree (s\<lparr>ld_buffer := b\<rparr>) T = holds_tree s T" "holds_tree (s\<lparr>pe_name := b\<rparr>) T = holds_tree s T"
    "holds_tree (s\<lparr>pe_value := b\<rparr>) T = holds_tree s T" "holds_tree (s\<lparr>ld_first := p\<rparr>) T = holds_tree s T"
    "holds_tree (s\<lparr>ld_parent := p\<rparr>) T = holds_tree s T" "holds_tree (s\<lparr>ld_type := ty\<rparr>) T = holds_tree s T"
    "holds_tree (s\<lparr>ld_whitespace := w\<rparr>) T = holds_tree s T"
  by (simp_all add: holds_tree_def)

interpretation loader: reader load_inv
  by unfold_locales (auto simp: inv_defs)

interpretation fresh: reader "new_inv a" for a
  by unfold_locales (auto simp: inv_defs)

lemma element_root:
  "element_value w \<Longrightarrow> element_in (ANode a w []) a"
  by (simp add: element_in_def)

text \<open>What the operations on nodes leave alone.\<close>

lemma heap_step_fields:
  fixes s t :: mx_state
  assumes "heap_step s t"
  shows "in_text t = in_text s" "in_encoding t = in_encoding s" "ld_buffer t = ld_buffer s"
    "ld_first t = ld_first s" "ld_parent t = ld_parent s" "ld_type t = ld_type s"
    "ld_whitespace t = ld_whitespace s" "pe_name t = pe_name s" "pe_value t = pe_value s"
  using assms by (cases s, cases t, simp add: heap_step_def)+

lemma heap_step_inv:
  fixes s t :: mx_state
  assumes "heap_step s t"
  shows "reading t = reading s" "inside t T = inside s T" "outside t = outside s" "started t = started s"
  using memory_short_step [OF assms]
  by (simp_all add: reading_def inside_def outside_def started_def heap_step_fields [OF assms])

lemma new_inv_element: "new_inv a s \<Longrightarrow> element_inv a s"
  unfolding new_inv_def
proof (elim conjE exE disjE)
  fix w assume "reading s" "element_value w" "outside s" "holds_tree s (ANode a w [])"
  then show "element_inv a s"
    unfolding element_inv_def doc_tree_def using element_root
    by (intro conjI exI [of _ "ANode a w []"]) auto
next
  fix w T p
  assume *: "reading s" "element_value w" "typed T" "element_in T (addr T)" "inside s T" "ld_parent s = Some p"
    "a \<notin> set (addrs T)" "holds_tree s (add_kid p (ANode a w []) T)"
  let ?T = "add_kid p (ANode a w []) T"
  have p: "element_in T p" using * by (simp add: inside_def)
  then have "p \<in> set (addrs T)" "p \<notin> set (others T)" by (simp_all add: element_in_def)
  then have "typed ?T" "element_in ?T a" using * by (auto intro: typed_add_kid element_in_new_kid)
  moreover have "addr ?T = addr T" by (simp add: add_kid_def)
  moreover have "element_in ?T q" if "element_in T q" for q using * that by (intro element_in_add_kid)
  ultimately show "element_inv a s"
    using * unfolding element_inv_def doc_tree_def inside_def by (intro conjI exI [of _ ?T]) auto
qed

lemma element_inv_load: "element_inv a s \<Longrightarrow> load_inv s"
  by (auto simp: element_inv_def load_inv_def)


section \<open>Attributes\<close>

lemma okX_element_value:
  assumes "doc_tree s T" "element_in T a" "element_value w"
  shows "okX (set_node (Some a) (\<lambda>n. n\<lparr>n_value := w\<rparr>)) s
     (\<lambda>_ t. heap_step s t \<and> doc_tree t (set_value a w T) \<and> (\<forall>q. element_in T q \<longrightarrow> element_in (set_value a w T) q)) E"
proof -
  have T: "holds_tree s T" "a \<in> set (addrs T)" using assms by (simp_all add: doc_tree_def element_in_def)
  have "typed (set_value a w T)" "\<And>q. element_in T q \<Longrightarrow> element_in (set_value a w T) q"
    using assms typed_set_value element_in_set_value by (simp_all add: doc_tree_def)
  then show ?thesis
    using assms(1) by (intro okX_mono [OF okX_set_value [OF T]]) (auto simp: doc_tree_def)
qed

lemma okX_attr_value:
  assumes "attr_inv a s" "element_value w"
  shows "okX (set_node (Some a) (\<lambda>n. n\<lparr>n_value := w\<rparr>)) s (\<lambda>_ t. attr_inv a t \<and> in_text t = in_text s) E"
proof -
  obtain T where T: "doc_tree s T" "element_in T a" "inside s T \<or> outside s \<and> addr T = a" "reading s"
    using assms(1) by (auto simp: attr_inv_def element_inv_def)
  let ?U = "set_value a w T"
  show ?thesis
  proof (rule okX_mono [OF okX_element_value [OF T(1,2) assms(2)]])
    fix t assume t: "heap_step s t \<and> doc_tree t ?U \<and> (\<forall>q. element_in T q \<longrightarrow> element_in ?U q)"
    have "inside s ?U \<or> outside s \<and> addr ?U = a" using T(3) t by (auto simp: inside_def)
    moreover have "element_in ?U a" using T(2) t by blast
    ultimately have "element_inv a t"
      using T(4) t by (auto simp: element_inv_def heap_step_inv [of s t])
    then show "attr_inv a t \<and> in_text t = in_text s"
      using assms(1) t by (auto simp: attr_inv_def heap_step_fields [of s t])
  qed simp
qed

lemma attr_inv_node:
  assumes "attr_inv a s"
  obtains n e attrs where "node_at (Some a) (mx_nodes s) = Inr n" "n_value n = VElement (Some e) attrs"
    "distinct (map fst attrs)" "None \<notin> snd ` set attrs"
proof -
  obtain T where "holds_tree s T" "element_in T a"
    using assms by (auto simp: attr_inv_def element_inv_def doc_tree_def)
  then show ?thesis by (rule element_node) (rule that)
qed

lemma reads_GetAttr: "reads (attr_inv a) (mxmlElementGetAttr (Some a) name) any_way"
proof (rule readsI)
  fix s assume s: "attr_inv a s"
  from s show "okX (mxmlElementGetAttr (Some a) name) s
      (\<lambda>x t. attr_inv a t \<and> left_of t + 0 \<le> left_of s) (\<lambda>_ t. attr_inv a t \<and> left_of t \<le> left_of s)"
    by (rule attr_inv_node) (simp add: mxmlElementGetAttr_def s)
qed

lemma replace_attr_names: "map fst (replace_attr name v attrs) = map fst attrs"
  by (induction attrs) auto

lemma replace_attr_values: "p \<in> set (replace_attr name v attrs) \<Longrightarrow> snd p = v \<or> p \<in> set attrs"
  by (induction attrs) (auto split: if_splits)

lemma replaced_element:
  assumes "distinct (map fst attrs)" "None \<notin> snd ` set attrs"
  shows "element_value (VElement (Some e) (replace_attr name (Some v) attrs))"
proof -
  have "None \<notin> snd ` set (replace_attr name (Some v) attrs)"
    using replace_attr_values [of _ name "Some v" attrs] assms(2) by force
  then show ?thesis using assms(1) by (simp add: replace_attr_names)
qed

lemma appended_element:
  "distinct (map fst attrs) \<Longrightarrow> None \<notin> snd ` set attrs \<Longrightarrow> map_of attrs name = None \<Longrightarrow>
     element_value (VElement (Some e) (attrs @ [(name, Some v)]))"
  by (auto simp: map_of_eq_None_iff)

lemma attr_inv_malloc: "attr_inv a s \<Longrightarrow> attr_inv a (s\<lparr>malloc_calls := n\<rparr>)"
  by (auto simp: inv_defs)

lemma attr_inv_memory: "attr_inv a s \<Longrightarrow> malloc_ok s n"
  by (auto simp: inv_defs)

lemma reads_SetAttr: "reads (attr_inv a) (mxmlElementSetAttr (Some a) name (Some v)) any_way"
proof (rule readsI)
  fix s assume s: "attr_inv a s"
  from s obtain n e attrs where n: "node_at (Some a) (mx_nodes s) = Inr n" "n_value n = VElement (Some e) attrs"
    "distinct (map fst attrs)" "None \<notin> snd ` set attrs" by (rule attr_inv_node)
  have set: "okX (set_node (Some a) (\<lambda>n. n\<lparr>n_value := w\<rparr>)) (s\<lparr>malloc_calls := k\<rparr>)
      (\<lambda>_ t. attr_inv a t \<and> left_of t \<le> left_of s) (\<lambda>_ t. attr_inv a t \<and> left_of t \<le> left_of s)"
    if "element_value w" for w k
    by (rule okX_mono [OF okX_attr_value [OF attr_inv_malloc [OF s] that]]) simp_all
  show "okX (mxmlElementSetAttr (Some a) name (Some v)) s
      (\<lambda>x t. attr_inv a t \<and> left_of t + 0 \<le> left_of s) (\<lambda>_ t. attr_inv a t \<and> left_of t \<le> left_of s)"
  proof (cases "map_of attrs name")
    case None
    show ?thesis
      using n None set [OF appended_element [OF n(3,4) None]] attr_inv_memory [OF s]
      by (simp add: mxmlElementSetAttr_def mxml_set_attr_def del: okX_set_node element_text_values)
  next
    case (Some w)
    show ?thesis
      using n Some set [OF replaced_element [OF n(3,4)]] attr_inv_memory [OF s]
      by (simp add: mxmlElementSetAttr_def mxml_set_attr_def del: okX_set_node element_text_values)
  qed
qed

interpretation attrs: attr_reader "attr_inv a" "Some a" for a
proof unfold_locales
  show "reads (attr_inv a) (mxmlElementGetAttr (Some a) name :: (unit, string option, mx_state) xe) any_way" for name
    by (rule reads_GetAttr)
  show "reads (attr_inv a) (mxmlElementSetAttr (Some a) name (Some v) :: (unit, unit, mx_state) xe) any_way" for name v
    by (rule reads_SetAttr)
qed (auto simp: inv_defs)

section \<open>New nodes\<close>

lemma okX_new_element:
  assumes "load_inv s" "ld_parent s = None \<Longrightarrow> ld_first s = None"
  shows "okX (mxmlNewElement (ld_parent s) name) s (\<lambda>r t. \<exists>a. r = Some a \<and> new_inv a t \<and> in_text t = in_text s) E"
proof (cases "ld_parent s")
  case None
  then have "outside s" "reading s" using assms by (auto simp: load_inv_def inside_def)
  moreover have "\<not> memory_short s" using \<open>reading s\<close> by (simp add: reading_def)
  ultimately show ?thesis
    unfolding None
    by (intro okX_mono [OF okX_mxmlNewElement_root [where T = None]])
      (auto simp: new_root_def new_inv_def heap_step_inv heap_step_fields intro!: exI [of _ "VElement (Some name) []"])
next
  case (Some p)
  then obtain T where T: "doc_tree s T" "inside s T" and r: "reading s"
    using assms(1) by (auto simp: load_inv_def outside_def)
  have p: "element_in T p" using T(2) Some by (simp add: inside_def)
  have h: "holds_tree s T" "p \<in> set (addrs T)" using T(1) p by (simp_all add: doc_tree_def element_in_def)
  let ?a = "length (mx_nodes s)"
  have a: "?a \<notin> set (addrs T)" using tree_at_bound [OF h(1)] by blast
  have m: "\<not> memory_short s" using r by (simp add: reading_def)
  show ?thesis
    unfolding Some
  proof (rule okX_mono [OF okX_mxmlNewElement_child [OF h]])
    fix r' t
    assume "new_child s p T (\<lambda>w. w = VElement (Some name) [] \<or> memory_short s \<and> w = VElement None []) r' t"
    then have t: "heap_step s t" "r' = Some ?a" "holds_tree t (add_kid p (ANode ?a (VElement (Some name) []) []) T)"
      using m by (auto simp: new_child_def)
    have "new_inv ?a t"
      unfolding new_inv_def heap_step_inv [OF t(1)] heap_step_fields [OF t(1)]
      using r t(3) T p a Some
      by (intro conjI exI [of _ "VElement (Some name) []"] disjI2 exI [of _ T] exI [of _ p])
        (auto simp: doc_tree_def holds_tree_def)
    then show "\<exists>a. r' = Some a \<and> new_inv a t \<and> in_text t = in_text s"
      using t by (simp add: heap_step_fields)
  qed simp
qed

text \<open>A text is a child of the open element, or is lost behind the end of the root.\<close>

lemma okX_new_text:
  assumes "load_inv s" "ld_type s = MXML_TEXT"
  shows "okX (mxmlNewText (ld_parent s) ws txt) s
    (\<lambda>r t. r \<noteq> None \<and> load_inv t \<and> heap_step s t) E"
proof -
  obtain T where T: "doc_tree s T" "inside s T" and r: "reading s"
    using assms by (auto simp: load_inv_def outside_def)
  have m: "\<not> memory_short s" using r by (simp add: reading_def)
  show ?thesis
  proof (cases "ld_parent s")
    case None
    show ?thesis
      unfolding None
      by (rule okX_mono [OF okX_mxmlNewText_root [where T = "Some T"]])
        (use T r m in \<open>auto simp: doc_tree_def new_root_def load_inv_def heap_step_inv\<close>)
  next
    case (Some p)
    have p: "element_in T p" using T(2) Some by (simp add: inside_def)
    have h: "holds_tree s T" "p \<in> set (addrs T)" using T(1) p by (simp_all add: doc_tree_def element_in_def)
    let ?a = "length (mx_nodes s)"
    have a: "?a \<notin> set (addrs T)" using tree_at_bound [OF h(1)] by blast
    show ?thesis
      unfolding Some
    proof (rule okX_mono [OF okX_mxmlNewText_child [OF h]])
      fix r' t
      assume "new_child s p T (\<lambda>w. w = VText ws (Some txt) \<or> memory_short s \<and> w = VText ws None) r' t"
      then have t: "heap_step s t" "r' = Some ?a" "holds_tree t (add_kid p (ANode ?a (VText ws (Some txt)) []) T)"
        using m by (auto simp: new_child_def)
      let ?U = "add_kid p (ANode ?a (VText ws (Some txt)) []) T"
      have "addr ?U = addr T" by (simp add: add_kid_def)
      moreover have "typed ?U" using T(1) p by (intro typed_add_kid) (auto simp: doc_tree_def element_in_def)
      moreover have "element_in ?U q" if "element_in T q" for q using that a by (rule element_in_add_kid)
      ultimately have "doc_tree t ?U" "inside t ?U"
        using T t(3) by (auto simp: doc_tree_def inside_def heap_step_fields [OF t(1)])
      then have "load_inv t" using r heap_step_inv(1) [OF t(1)] by (auto simp: load_inv_def)
      then show "r' \<noteq> None \<and> load_inv t \<and> heap_step s t" using t by simp
    qed simp
  qed
qed

section \<open>Deleting a new element\<close>

lemma kids_map_add_kid:
  "ANode p v cs \<in> set (subtrees T) \<Longrightarrow> distinct (addrs T) \<Longrightarrow> kids_map p (\<lambda>_. cs) (add_kid p t T) = T"
  unfolding add_kid_def
proof (induction T)
  case (ANode a w ds)
  show ?case
  proof (cases "ANode p v cs = ANode a w ds")
    case True
    then show ?thesis by simp
  next
    case False
    then obtain d where d: "d \<in> set ds" "ANode p v cs \<in> set (subtrees d)" using ANode.prems(1) by auto
    then have pd: "p \<in> set (addrs d)" using subtrees_addrs by fastforce
    then have ne: "a \<noteq> p" using ANode.prems(2) d(1) by auto
    have "kids_map p (\<lambda>_. cs) (kids_map p (\<lambda>cs. cs @ [t]) c) = c" if c: "c \<in> set ds" for c
    proof (cases "c = d")
      case True
      then show ?thesis using ANode.IH [OF d(1) d(2)] ANode.prems(2) d(1) by (auto intro: distinct_forest_member)
    next
      case False
      then have "p \<notin> set (addrs c)" using distinct_forest_split [of ds c d p] ANode.prems(2) c d(1) pd by auto
      then show ?thesis by simp
    qed
    then show ?thesis using ne by (simp add: comp_def map_idI)
  qed
qed

lemma subtrees_add_kid:
  "ANode p v cs \<in> set (subtrees T) \<Longrightarrow> distinct (addrs T) \<Longrightarrow>
     ANode p v (cs @ [t]) \<in> set (subtrees (add_kid p t T))"
  unfolding add_kid_def
proof (induction T)
  case (ANode a w ds)
  show ?case
  proof (cases "ANode p v cs = ANode a w ds")
    case True
    then show ?thesis by simp
  next
    case False
    then obtain d where d: "d \<in> set ds" "ANode p v cs \<in> set (subtrees d)" using ANode.prems(1) by auto
    then have "p \<in> set (addrs d)" using subtrees_addrs by fastforce
    then have "a \<noteq> p" using ANode.prems(2) d(1) by auto
    moreover have "ANode p v (cs @ [t]) \<in> set (subtrees (kids_map p (\<lambda>cs. cs @ [t]) d))"
      using ANode.IH [OF d] ANode.prems(2) d(1) by (auto intro: distinct_forest_member)
    ultimately show ?thesis using d(1) by auto
  qed
qed

lemma okX_mxmlDelete_child:
  assumes "okX (mxmlRemove (Some a)) s
    (\<lambda>_ t. okX (mxmlDelete (Some a)) t Q E \<and> (\<exists>n. node_at (Some a) (mx_nodes t) = Inr n \<and> n_parent n = None)) E"
  shows "okX (mxmlDelete (Some a)) s Q E"
proof -
  have "\<exists>R. \<forall>u. okX (mxmlDelete (Some a)) u Q E = okX (mxmlRemove (Some a)) u (\<lambda>_. R) E"
    by (simp only: mxmlDelete_def option.simps if_False okX_thenX) blast
  then obtain R where del: "\<And>u. okX (mxmlDelete (Some a)) u Q E = okX (mxmlRemove (Some a)) u (\<lambda>_. R) E"
    by blast
  have "R t" if "okX (mxmlDelete (Some a)) t Q E" "node_at (Some a) (mx_nodes t) = Inr n"
    "n_parent n = None" for t n
    using that(1) unfolding del by (simp add: mxmlRemove_def that(2,3))
  then show ?thesis
    unfolding del [of s] by (intro okX_mono [OF assms]) blast+
qed

lemma okX_delete_new:
  assumes "new_inv a s"
  shows "okX (mxmlDelete (Some a)) s (\<lambda>_ t. load_inv t \<and> in_text t = in_text s) E"
proof -
  obtain w where w: "element_value w" and r: "reading s" and c:
     "outside s \<and> holds_tree s (ANode a w []) \<or>
      (\<exists>T p. typed T \<and> element_in T (addr T) \<and> inside s T \<and> ld_parent s = Some p \<and> a \<notin> set (addrs T) \<and>
        distinct (addrs T) \<and> holds_tree s (add_kid p (ANode a w []) T))"
    using assms by (auto simp: new_inv_def)
  have del: "okX (mxmlDelete (Some a)) t (\<lambda>_ u. swept {a} {a} t u) E" if "holds_tree t (ANode a w [])"
    for t :: mx_state
    using okX_mxmlDelete [OF that, of E] by (simp add: deleted_def)
  show ?thesis
    using c
  proof (elim disjE exE conjE)
    assume "outside s" "holds_tree s (ANode a w [])"
    then show ?thesis
      using r by (intro okX_mono [OF del]) (auto simp: swept_def load_inv_def heap_step_inv heap_step_fields)
  next
    fix T p
    assume T: "typed T" "element_in T (addr T)" "inside s T" "ld_parent s = Some p" "a \<notin> set (addrs T)"
      "distinct (addrs T)" "holds_tree s (add_kid p (ANode a w []) T)"
    obtain v cs where S: "ANode p v cs \<in> set (subtrees T)"
      using addr_subtrees [of p T] T(3,4) by (auto simp: inside_def element_in_def)
    let ?U = "add_kid p (ANode a w []) T"
    have SU: "ANode p v (cs @ ANode a w [] # []) \<in> set (subtrees ?U)" using subtrees_add_kid [OF S T(6)] by simp
    have again: "kids_map p (\<lambda>_. cs) ?U = T" using kids_map_add_kid [OF S T(6)] by simp
    have kept: "load_inv u \<and> in_text u = in_text s"
      if t: "holds_tree t T" "heap_step s t" and u: "swept {a} {a} t u" for t u
    proof -
      have tu: "heap_step t u" using u by (simp add: swept_def)
      have su: "heap_step s u" by (rule heap_step_trans [OF t(2) tu])
      have "node_at (Some x) (mx_nodes u) = node_at (Some x) (mx_nodes t)" if "x \<in> set (addrs T)" for x
        using that T(5) by (intro swept_other [OF u]) auto
      then have "holds_tree u T" using t(1) tree_at_frame(1) [of T "mx_nodes u" "mx_nodes t"] by (simp add: holds_tree_def)
      then have "load_inv u"
        using T(1-3) r by (auto simp: load_inv_def doc_tree_def heap_step_inv [OF su])
      then show ?thesis using heap_step_fields(1) [OF su] by simp
    qed
    show ?thesis
    proof (rule okX_mxmlDelete_child, rule okX_mono)
      show "okX (mxmlRemove (Some a)) s (\<lambda>_ t. holds_tree t T \<and> holds_tree t (ANode a w []) \<and>
          relinked (set (addrs ?U)) s t) E"
        using okX_mxmlRemove [OF T(7) SU, of E] by (simp add: again del: set_addrs_add_kid)
    next
      fix t assume t: "holds_tree t T \<and> holds_tree t (ANode a w []) \<and> relinked (set (addrs ?U)) s t"
      then have "okX (mxmlDelete (Some a)) t (\<lambda>_ u. load_inv u \<and> in_text u = in_text s) E"
        by (intro okX_mono [OF del]) (auto dest: kept relinked_step)
      moreover have "\<exists>n. node_at (Some a) (mx_nodes t) = Inr n \<and> n_parent n = None"
        using t by (simp add: holds_tree_def)
      ultimately show "okX (mxmlDelete (Some a)) t (\<lambda>_ u. load_inv u \<and> in_text u = in_text s) E \<and>
          (\<exists>n. node_at (Some a) (mx_nodes t) = Inr n \<and> n_parent n = None)" by blast
    qed
  qed
qed

section \<open>Values\<close>

lemma same_first: "ld_first s = None \<Longrightarrow> s\<lparr>ld_first := None\<rparr> = s"
  by simp

lemma load_inv_whitespace [simp]: "load_inv (s\<lparr>ld_whitespace := w\<rparr>) = load_inv s"
  by (simp add: inv_defs)

lemma load_inv_buffer: "load_inv s \<Longrightarrow> load_inv (ld_buffer_update (b_chars_update (\<lambda>_. [])) s)"
  by (auto simp: inv_defs buf_ok_def holds_tree_def)

lemma buffer_fits: "load_inv s \<Longrightarrow> length (b_chars (ld_buffer s)) < b_size (ld_buffer s)"
  by (auto simp: inv_defs buf_ok_def)

lemma load_inv_text: "load_inv s \<Longrightarrow> ld_type s = MXML_TEXT \<Longrightarrow> ld_first s \<noteq> None"
  by (auto simp: inv_defs)

lemma okX_text:
  assumes "load_inv s" "ld_type s = MXML_TEXT"
  shows "okX (mxmlNewText (ld_parent s) ws x) s (\<lambda>r t. (\<exists>a. r = Some a) \<and> load_inv t \<and> (\<exists>f. ld_first t = Some f) \<and>
     in_text t = in_text s) (\<lambda>_ _. False)"
  by (rule okX_mono [OF okX_new_text [OF assms, where E = "\<lambda>_ _. False"]])
    (use load_inv_text [OF assms] in \<open>auto simp: heap_step_fields(1,4)\<close>)

lemma reads_end_value: "reads load_inv (end_value ch) any_way"
proof (rule readsI)
  fix s assume s: "load_inv s"
  show "okX (end_value ch) s (\<lambda>x t. load_inv t \<and> left_of t + 0 \<le> left_of s) (\<lambda>_ t. load_inv t \<and> left_of t \<le> left_of s)"
  proof (cases "ld_type s")
    case MXML_IGNORE
    then show ?thesis
      using buffer_fits [OF s] load_inv_buffer [OF s]
      by (simp add: end_value_def terminated_def start_with_def note_first_def same_first)
  next
    case MXML_TEXT
    then show ?thesis
      unfolding end_value_def terminated_def start_with_def note_first_def
      using buffer_fits [OF s]
      by (simp, intro okX_mono [OF okX_text [OF s MXML_TEXT]]) (auto intro: load_inv_buffer)
  qed
qed

lemma reads_value_before: "reads load_inv (value_before ch) any_way"
  unfolding value_before_def buffer_used_def
  by (rule reads_rules reads_end_value reads_updX | simp)+

lemma reads_lone_whitespace: "reads load_inv (lone_whitespace ch) any_way"
proof (rule readsI)
  fix s assume s: "load_inv s"
  show "okX (lone_whitespace ch) s (\<lambda>x t. load_inv t \<and> left_of t + 0 \<le> left_of s) (\<lambda>_ t. load_inv t \<and> left_of t \<le> left_of s)"
  proof (cases "ld_type s")
    case MXML_IGNORE
    then show ?thesis using s by (simp add: lone_whitespace_def)
  next
    case MXML_TEXT
    have "okX (bindX (mxmlNewText (ld_parent s) ws '''') note_first) s
        (\<lambda>_ t. load_inv t \<and> left_of t \<le> left_of s) (\<lambda>_ t. load_inv t \<and> left_of t \<le> left_of s)" for ws
      unfolding okX_bindX by (rule okX_mono [OF okX_text [OF s MXML_TEXT]]) (auto simp: note_first_def)
    then show ?thesis
      using s by (simp add: lone_whitespace_def)
  qed
qed

section \<open>Tags that are kept as one element\<close>

lemma okX_note_first:
  assumes "element_inv a s"
  shows "okX (note_first (Some a)) s (\<lambda>_ t. element_inv a t \<and> ld_first t \<noteq> None \<and> in_text t = in_text s) E"
proof -
  obtain T where T: "reading s" "doc_tree s T" "element_in T a" "inside s T \<or> outside s \<and> addr T = a"
    using assms by (auto simp: element_inv_def)
  show ?thesis
  proof (cases "ld_first s")
    case None
    then have "addr T = a" "outside s" using T(4) by (auto simp: inside_def)
    then have "element_inv a (s\<lparr>ld_first := Some a\<rparr>)"
      using T(1-3) unfolding element_inv_def
      by (intro conjI exI [of _ T]) (auto simp: reading_def memory_short_def doc_tree_def inside_def outside_def)
    then show ?thesis using None by (simp add: note_first_def)
  next
    case (Some f)
    then show ?thesis using assms by (simp add: note_first_def)
  qed
qed

lemma element_inv_enter: "element_inv a s \<Longrightarrow> ld_first s \<noteq> None \<Longrightarrow> load_inv (s\<lparr>ld_parent := Some a, ld_type := MXML_TEXT\<rparr>)"
  unfolding element_inv_def load_inv_def
  by (auto simp: reading_def memory_short_def doc_tree_def inside_def outside_def)

lemma reads_gathered:
  assumes "\<And>a s. element_inv a s \<Longrightarrow>
    okX (f (Some a)) s (\<lambda>_ t. load_inv t \<and> left_of t \<le> left_of s) (\<lambda>_ t. load_inv t \<and> left_of t \<le> left_of s)"
  shows "reads load_inv (bindX gathered_element f) any_way"
proof (rule readsI)
  fix s assume s: "load_inv s"
  have "okX gathered_element s (\<lambda>r t. \<exists>a. r = Some a \<and> element_inv a t \<and> in_text t = in_text s)
      (\<lambda>_ t. load_inv t \<and> left_of t \<le> left_of s)"
    using s buffer_fits [OF s]
    by (auto simp: gathered_element_def terminated_def new_inv_element intro!: okX_mono [OF okX_new_element [OF s, where E = "\<lambda>_ _. False"]])
  then show "okX (bindX gathered_element f) s (\<lambda>x t. load_inv t \<and> left_of t + any_way x \<le> left_of s)
      (\<lambda>_ t. load_inv t \<and> left_of t \<le> left_of s)"
    unfolding okX_bindX
  proof (rule okX_mono)
    fix r t assume "\<exists>a. r = Some a \<and> element_inv a t \<and> in_text t = in_text s"
    then obtain a where "r = Some a" "element_inv a t" "in_text t = in_text s" by blast
    then show "okX (f r) t (\<lambda>x t. load_inv t \<and> left_of t + any_way x \<le> left_of s)
        (\<lambda>_ t. load_inv t \<and> left_of t \<le> left_of s)"
      using assms [of a t] by simp
  qed
qed

lemma okX_enter_root:
  assumes "element_inv a s"
  shows "okX (enter_root (Some a)) s (\<lambda>_ t. load_inv t \<and> left_of t \<le> left_of s) (\<lambda>_ t. load_inv t \<and> left_of t \<le> left_of s)"
  by (auto simp: enter_root_def enter_def element_inv_load element_inv_enter intro!: okX_mono [OF okX_note_first [OF assms, where E = "\<lambda>_ _. False"]])

lemma okX_keep:
  assumes "element_inv a s"
  shows "okX (thenX (note_first (Some a)) (retX x)) s (\<lambda>_ t. load_inv t \<and> left_of t \<le> left_of s)
    (\<lambda>_ t. load_inv t \<and> left_of t \<le> left_of s)"
  by (auto simp: element_inv_load intro!: okX_mono [OF okX_note_first [OF assms, where E = "\<lambda>_ _. False"]])

lemma reads_comment_tag: "reads load_inv comment_tag any_way"
  unfolding comment_tag_def
  by (rule reads_gathered reads_rules okX_keep | simp only: option.simps if_False | simp)+

lemma reads_cdata_tag: "reads load_inv cdata_tag any_way"
  unfolding cdata_tag_def
  by (rule reads_gathered reads_rules okX_keep | simp only: option.simps if_False | simp)+

lemma reads_directive_tag: "reads load_inv directive_tag any_way"
  unfolding directive_tag_def
  by (rule reads_gathered reads_rules okX_enter_root | simp)+

lemma reads_declaration_tag: "reads load_inv (declaration_tag ch) any_way"
  unfolding declaration_tag_def
  by (rule reads_gathered reads_rules okX_enter_root | simp)+

section \<open>Elements\<close>

text \<open>While the open element is being closed.\<close>

definition closing_inv :: "nat \<Rightarrow> mx_state \<Rightarrow> bool" where
  "closing_inv p s \<longleftrightarrow> load_inv s \<and> ld_parent s = Some p"

interpretation closing: reader "closing_inv p" for p
  by unfold_locales (auto simp: closing_inv_def inv_defs)

lemma closing_node:
  assumes "closing_inv p s"
  obtains n e attrs where "node_at (Some p) (mx_nodes s) = Inr n" "n_value n = VElement (Some e) attrs"
    "load_inv (s\<lparr>ld_parent := n_parent n\<rparr>)"
proof -
  obtain T where T: "doc_tree s T" "inside s T" "element_in T p" "reading s"
    using assms by (auto simp: closing_inv_def load_inv_def outside_def inside_def)
  have h: "holds_tree s T" using T(1) by (simp add: doc_tree_def)
  obtain n e attrs where n: "node_at (Some p) (mx_nodes s) = Inr n" "n_value n = VElement (Some e) attrs"
    by (rule element_node [OF h T(3)])
  have "p = addr T \<and> n_parent n = None \<or> (\<exists>q. n_parent n = Some q \<and> element_in T q)"
    using parent_element [of "mx_nodes s" None None None T p n] T(1,3) n(1)
    by (simp add: doc_tree_def holds_tree_def element_in_def)
  then have "load_inv (s\<lparr>ld_parent := n_parent n\<rparr>)"
    using T unfolding load_inv_def
    by (intro conjI disjI2 exI [of _ T]) (auto simp: reading_def memory_short_def doc_tree_def inside_def)
  then show ?thesis using n that by blast
qed

lemma reads_close_tag: "reads load_inv (close_tag buffer ch) any_way"
proof (rule readsI)
  fix s assume s: "load_inv s"
  show "okX (close_tag buffer ch) s (\<lambda>x t. load_inv t \<and> left_of t + 0 \<le> left_of s) (\<lambda>_ t. load_inv t \<and> left_of t \<le> left_of s)"
  proof (cases "ld_parent s")
    case None
    then show ?thesis using s by (simp add: close_tag_def)
  next
    case (Some p)
    then have p: "closing_inv p s" using s by (simp add: closing_inv_def)
    obtain n e attrs where n: "node_at (Some p) (mx_nodes s) = Inr n" "n_value n = VElement (Some e) attrs"
      using closing_node [OF p] by blast
    have last: "okX (bindX (get_node (Some p)) (\<lambda>n. thenX (updX (\<lambda>s. s\<lparr>ld_parent := n_parent n\<rparr>)) (retX True))) t
        (\<lambda>x u. load_inv u \<and> left_of u + 0 \<le> left_of s) (\<lambda>_ u. load_inv u \<and> left_of u \<le> left_of s)"
      if t: "closing_inv p t" "left_of t \<le> left_of s" for t
    proof -
      obtain m f as where "node_at (Some p) (mx_nodes t) = Inr m" "load_inv (t\<lparr>ld_parent := n_parent m\<rparr>)"
        using closing_node [OF t(1)] by metis
      then show ?thesis using t(2) by simp
    qed
    have rest: "okX (bindX (readX (\<lambda>ch. if ch \<noteq> 62 \<and> ch \<noteq> EOF then bindX mxml_string_getc (\<lambda>ch. retX (Inl ch))
       else retX (Inr ch)) ch) (\<lambda>_. bindX (get_node (Some p)) (\<lambda>n. thenX (updX (\<lambda>s. s\<lparr>ld_parent := n_parent n\<rparr>)) (retX True)))) s
        (\<lambda>x u. load_inv u \<and> left_of u + 0 \<le> left_of s) (\<lambda>_ u. load_inv u \<and> left_of u \<le> left_of s)"
      unfolding okX_bindX [of "readX f x" for f x]
      by (rule okX_mono [OF readsD [OF closing.reads_to_bracket [OF refl] p]])
        (use last in \<open>auto simp: closing_inv_def simp del: okX_bindX\<close>)
    show ?thesis
    proof (cases "drop 1 buffer = e")
      case True
      then show ?thesis using Some n rest by (simp add: close_tag_def element_name_def)
    next
      case False
      then show ?thesis using Some n s by (simp add: close_tag_def element_name_def)
    qed
  qed
qed

lemma okX_or_EOF: "okX m s Q (\<lambda>_. Q EOF) \<Longrightarrow> okX (or_EOF m) s Q E"
  by (cases "m s") (auto simp: okX_def or_EOF_def split: sum.splits)

lemma okX_free_names:
  "attr_inv a u \<Longrightarrow> left_of u \<le> n \<Longrightarrow> okX (free_buf pe_name pe_name_update) u (\<lambda>_ u.
     okX (free_buf pe_value pe_value_update) u (\<lambda>_ u. element_inv a u \<and> left_of u \<le> n) E) E"
  by (auto simp: free_buf_def inv_defs buf_ok_def holds_tree_def)

lemma reads_parse_element: "reads (element_inv a) (mxml_parse_element (Some a)) any_way"
proof (rule readsI)
  fix s assume s: "element_inv a s"
  let ?t = "s\<lparr>pe_name := new_buf 64, malloc_calls := malloc_calls s + 2, pe_value := new_buf 64\<rparr>"
  have t: "attr_inv a ?t" using s by (auto simp: inv_defs buf_ok_def new_buf_def)
  have m: "malloc_ok s n" for n using s by (auto simp: inv_defs)
  have round: "reads (attr_inv a) (readX (attr_round (Some a)) ()) any_way"
    by (rule reads_readX) (auto intro: attrs.reads_attr_round)
  have body: "okX (or_EOF (readX (attr_round (Some a)) ())) ?t (\<lambda>ch u. attr_inv a u \<and> left_of u + 0 \<le> left_of ?t)
      (\<lambda>_ _. False)"
    by (rule okX_or_EOF, rule okX_mono [OF readsD [OF round t]]) auto
  have "okX (bindX (or_EOF (readX (attr_round (Some a)) ())) (\<lambda>ch. thenX (free_buf pe_name pe_name_update)
      (thenX (free_buf pe_value pe_value_update) (retX ch)))) ?t
      (\<lambda>x t. element_inv a t \<and> left_of t \<le> left_of s) (\<lambda>_ t. element_inv a t \<and> left_of t \<le> left_of s)"
    unfolding okX_bindX okX_thenX okX_retX by (rule okX_mono [OF body]) (auto intro: okX_free_names)
  then show "okX (mxml_parse_element (Some a)) s
      (\<lambda>x t. element_inv a t \<and> left_of t + 0 \<le> left_of s) (\<lambda>_ t. element_inv a t \<and> left_of t \<le> left_of s)"
    using m by (simp add: mxml_parse_element_def numeral_2_eq_2)
qed

lemma okX_new_getc:
  assumes "new_inv a s"
  shows "okX (bindX mxml_string_getc (\<lambda>ch. if ch \<noteq> 62 then thenX (mxmlDelete (Some a)) (stopX ()) else retX 47)) s
    (\<lambda>_ t. element_inv a t \<and> left_of t \<le> left_of s) (\<lambda>_ t. load_inv t \<and> left_of t \<le> left_of s)"
  unfolding okX_bindX
proof (rule okX_mono [OF readsD [OF fresh.reads_getc assms]])
  fix ch t assume t: "new_inv a t \<and> left_of t + getc_way ch \<le> left_of s"
  show "okX (if ch \<noteq> 62 then thenX (mxmlDelete (Some a)) (stopX ()) else retX 47) t
      (\<lambda>_ t. element_inv a t \<and> left_of t \<le> left_of s) (\<lambda>_ t. load_inv t \<and> left_of t \<le> left_of s)"
  proof (cases "ch = 62")
    case False
    have "okX (thenX (mxmlDelete (Some a)) (stopX ())) t
        (\<lambda>_ t. element_inv a t \<and> left_of t \<le> left_of s) (\<lambda>_ t. load_inv t \<and> left_of t \<le> left_of s)"
      unfolding okX_thenX okX_stopX
      by (rule okX_mono [OF okX_delete_new [where E = "\<lambda>_ _. False"]]) (use t in auto)
    then show ?thesis using False by simp
  qed (use t in \<open>simp add: new_inv_element\<close>)
qed (auto intro: element_inv_load new_inv_element)

lemma okX_element_read:
  assumes "new_inv a s"
  shows "okX (if mxml_isspace ch then bindX (mxml_parse_element (Some a)) (\<lambda>ch. if ch = EOF then stopX () else retX ch)
      else if ch = 47 then bindX mxml_string_getc (\<lambda>ch. if ch \<noteq> 62 then thenX (mxmlDelete (Some a)) (stopX ()) else retX 47)
      else retX ch) s
    (\<lambda>_ t. element_inv a t \<and> left_of t \<le> left_of s) (\<lambda>_ t. load_inv t \<and> left_of t \<le> left_of s)"
proof (intro okX_ifI okX_new_getc [OF assms])
  have e: "element_inv a s" by (rule new_inv_element [OF assms])
  show "okX (bindX (mxml_parse_element (Some a)) (\<lambda>ch. if ch = EOF then stopX () else retX ch)) s
    (\<lambda>_ t. element_inv a t \<and> left_of t \<le> left_of s) (\<lambda>_ t. load_inv t \<and> left_of t \<le> left_of s)"
    unfolding okX_bindX
    by (rule okX_mono [OF readsD [OF reads_parse_element e]]) (auto intro: element_inv_load)
qed (use new_inv_element [OF assms] in simp)

lemma okX_open_end:
  assumes "element_inv a s"
  shows "okX (thenX (note_first (Some a)) (if ch = EOF then retX False
      else thenX (whenX (ch \<noteq> 47) (enter (Some a))) (retX True))) s
    (\<lambda>_ t. load_inv t \<and> left_of t \<le> left_of s) (\<lambda>_ t. load_inv t \<and> left_of t \<le> left_of s)"
  unfolding okX_thenX
  by (rule okX_mono [OF okX_note_first [OF assms, where E = "\<lambda>_ _. False"]])
    (auto simp: enter_def element_inv_load element_inv_enter)

lemma reads_open_tag: "reads load_inv (open_tag buffer ch) any_way"
proof (rule readsI)
  fix s assume s: "load_inv s"
  let ?Q = "\<lambda>x t. load_inv t \<and> left_of t \<le> left_of s"
  define F where "F = (\<lambda>node. bindX (if mxml_isspace ch then bindX (mxml_parse_element node) (\<lambda>ch. if ch = EOF then stopX () else retX ch)
        else if ch = 47 then bindX mxml_string_getc (\<lambda>ch. if ch \<noteq> 62 then thenX (mxmlDelete node) (stopX ()) else retX 47)
        else retX ch)
      (\<lambda>ch. thenX (note_first node) (if ch = EOF then retX False
        else thenX (whenX (ch \<noteq> 47) (enter node)) (retX True))))"
  have tag: "open_tag buffer ch = bindX (getX ld_parent) (\<lambda>parent. bindX (getX ld_first) (\<lambda>first.
     if parent = None \<and> first \<noteq> None then stopX () else
     bindX (mxmlNewElement parent buffer) (\<lambda>node. if node = None then stopX () else F node)))"
    by (simp only: open_tag_def F_def)
  have rest: "okX (F (Some a)) t ?Q (\<lambda>_. ?Q ())" if "new_inv a t" "in_text t = in_text s" for a t
    unfolding F_def okX_bindX [of "if b then m else n" for b m n]
  proof (rule okX_mono [OF okX_element_read [OF that(1)]])
    fix x u assume "element_inv a u \<and> left_of u \<le> left_of t"
    then show "okX (thenX (note_first (Some a)) (if x = EOF then retX False
        else thenX (whenX (x \<noteq> 47) (enter (Some a))) (retX True))) u ?Q (\<lambda>_. ?Q ())"
      using that(2) by (intro okX_mono [OF okX_open_end]) auto
  qed (use that(2) in simp)
  have new: "okX (mxmlNewElement (ld_parent s) buffer) s (\<lambda>r t. \<exists>a. r = Some a \<and> okX (F (Some a)) t ?Q (\<lambda>_. ?Q ()))
      (\<lambda>_ _. False)" if "ld_parent s = None \<Longrightarrow> ld_first s = None"
    by (rule okX_mono [OF okX_new_element [OF s that, where E = "\<lambda>_ _. False"]]) (auto simp: rest)
  show "okX (open_tag buffer ch) s (\<lambda>x t. load_inv t \<and> left_of t + 0 \<le> left_of s) (\<lambda>_ t. load_inv t \<and> left_of t \<le> left_of s)"
  proof (cases "ld_parent s = None \<and> ld_first s \<noteq> None")
    case True
    then show ?thesis using s by (simp add: tag)
  next
    case False
    have "okX (mxmlNewElement (ld_parent s) buffer) s (\<lambda>r t. okX (if r = None then stopX () else F r) t ?Q (\<lambda>_. ?Q ()))
        (\<lambda>_. ?Q ())"
      by (rule okX_mono [OF new]) (use False in auto)
    then show ?thesis
      using False by (simp only: tag okX_bindX okX_getX if_False add_0_right)
  qed
qed

lemma reads_read_tag: "reads load_inv read_tag any_way"
  unfolding read_tag_def
  by (rule reads_rules reads_comment_tag reads_cdata_tag reads_directive_tag reads_declaration_tag reads_close_tag
      reads_open_tag | simp)+

lemma reads_load_round: "reads load_inv (load_round u) round_way"
  unfolding load_round_def
  by (rule reads_rules reads_value_before reads_lone_whitespace reads_read_tag | simp)+

section \<open>The end of the text\<close>

text \<open>From a node of a tree up to the root.\<close>

lemma climb_tree:
  fixes s :: mx_state
  assumes "tree_at (mx_nodes s) parent prev nxt T" "a \<in> set (addrs T)"
  shows "\<exists>k < length (addrs T). \<forall>m.
    (loopX (k + m) climb_round (Some a) s :: (('e + nat option) \<times> mx_state) result) = loopX m climb_round (Some (addr T)) s"
  using assms
proof (induction T arbitrary: parent prev nxt)
  case (ANode b v cs)
  let ?step = "climb_round :: nat option \<Rightarrow> ('e, nat option + nat option, mx_state) xe"
  show ?case
  proof (cases "a = b")
    case True
    then show ?thesis by (intro exI [of _ 0]) simp
  next
    case False
    then obtain c where c: "c \<in> set cs" "a \<in> set (addrs c)" using ANode.prems(2) by auto
    obtain prev nxt where t: "tree_at (mx_nodes s) (Some b) prev nxt c"
      using trees_at_member [OF _ c(1)] ANode.prems(1) by fastforce
    obtain k where k: "k < length (addrs c)" "\<And>m. loopX (k + m) ?step (Some a) s = loopX m ?step (Some (addr c)) s"
      using ANode.IH [OF c(1) t c(2)] by blast
    obtain n where "node_at (Some (addr c)) (mx_nodes s) = Inr n" "n_parent n = Some b"
      using tree_at_root [OF t] by blast
    then have up: "?step (Some (addr c)) s = Inr (Inr (Inl (Some b)), s)"
      by (simp add: climb_round_def run_step)
    have "length (addrs c) \<le> length (forest_addrs cs)"
      using c(1) by (simp add: length_concat member_le_sum_list comp_def)
    then have len: "Suc k < length (addrs (ANode b v cs))" using k(1) by simp
    have "loopX (Suc k + m) ?step (Some a) s = loopX m ?step (Some b) s" for m
      using k(2) [of "Suc m"] loopX_step [of ?step, OF up] by simp
    then show ?thesis using len by auto
  qed
qed

lemma okX_climb:
  fixes s :: mx_state and E :: "'e \<Rightarrow> mx_state \<Rightarrow> bool"
  assumes "holds_tree s T" "a \<in> set (addrs T)"
  shows "okX (loopX (length (mx_nodes s)) climb_round (Some a)) s (\<lambda>r t. r = Some (addr T) \<and> t = s) E"
proof -
  let ?step = "climb_round :: nat option \<Rightarrow> ('e, nat option + nat option, mx_state) xe"
  have T: "tree_at (mx_nodes s) None None None T" using assms(1) by (simp add: holds_tree_def)
  obtain k where k: "k < length (addrs T)"
      "\<forall>m. loopX (k + m) ?step (Some a) s = loopX m ?step (Some (addr T)) s"
    using climb_tree [OF T assms(2), where 'e = 'e] by blast
  define m where "m = length (mx_nodes s) - k - 1"
  have len: "length (mx_nodes s) = k + Suc m" using k(1) length_addrs [OF assms(1)] by (simp add: m_def)
  obtain n where "node_at (Some (addr T)) (mx_nodes s) = Inr n" "n_parent n = None"
    using tree_at_root [OF T] by blast
  then have "okX (loopX (Suc m) ?step (Some (addr T))) s (\<lambda>r t. r = Some (addr T) \<and> t = s) E"
    by (simp add: climb_round_def)
  then show ?thesis
    unfolding len okX_def k(2) [rule_format] .
qed

definition loaded :: "nat option \<Rightarrow> mx_state \<Rightarrow> bool" where
  "loaded r s \<longleftrightarrow> r = None \<or> (\<exists>T. r = Some (addr T) \<and> doc_tree s T)"

lemma okX_delete_first:
  assumes "load_inv s"
  shows "okX (mxmlDelete (ld_first s)) s (\<lambda>_ t. heap_step s t) E"
proof (cases "ld_first s")
  case None
  then show ?thesis by (simp add: mxmlDelete_def)
next
  case (Some a)
  then obtain T where T: "holds_tree s T" "ld_first s = Some (addr T)"
    using assms by (auto simp: load_inv_def outside_def inside_def doc_tree_def)
  show ?thesis
    unfolding T(2) by (rule okX_mono [OF okX_mxmlDelete [OF T(1), where E = E]]) (auto simp: swept_def)
qed

lemma free_buffer: "load_inv s \<Longrightarrow> b_alive (ld_buffer s)"
  by (auto simp: load_inv_def reading_def buf_ok_def)

lemma okX_load_error:
  assumes "load_inv s"
  shows "okX load_error s (\<lambda>r t. loaded r t) E"
  using free_buffer [OF assms]
  by (auto simp: load_error_def free_buf_def loaded_def heap_step_fields
      intro!: okX_mono [OF okX_delete_first [OF assms, where E = E]])

lemma okX_load_end:
  assumes "load_inv s"
  shows "okX load_end s (\<lambda>r t. loaded r t) E"
proof -
  let ?s = "ld_buffer_update (b_alive_update (\<lambda>_. False)) s"
  have del: "okX (mxmlDelete (ld_first s)) ?s (\<lambda>_ _. True) E"
  proof (cases "ld_first s")
    case (Some a)
    then obtain T where T: "holds_tree ?s T" "ld_first s = Some (addr T)"
      using assms by (auto simp: load_inv_def outside_def inside_def doc_tree_def holds_tree_def)
    show ?thesis unfolding T(2) by (rule okX_mono [OF okX_mxmlDelete [OF T(1), where E = E]]) auto
  qed (simp add: mxmlDelete_def)
  show ?thesis
  proof (cases "ld_parent s")
    case None
    then have "loaded (ld_first s) ?s"
      using assms by (auto simp: load_inv_def outside_def inside_def loaded_def doc_tree_def holds_tree_def)
    then show ?thesis using None free_buffer [OF assms] by (simp add: load_end_def free_buf_def)
  next
    case (Some p)
    then obtain T where T: "doc_tree ?s T" "p \<in> set (addrs T)" "ld_first s = Some (addr T)"
      using assms by (auto simp: load_inv_def outside_def inside_def doc_tree_def holds_tree_def element_in_def)
    have h: "holds_tree ?s T" using T(1) by (simp add: doc_tree_def)
    have "okX (loopX (length (mx_nodes ?s)) climb_round (Some p)) ?s (\<lambda>r t.
        (Some p \<noteq> r \<longrightarrow> okX (mxmlDelete (ld_first s)) t (\<lambda>_. loaded None) E) \<and> (Some p = r \<longrightarrow> loaded r t)) E"
      by (rule okX_mono [OF okX_climb [OF h T(2), where E = E]])
        (use T(1) in \<open>auto simp: loaded_def intro!: okX_mono [OF del]\<close>)
    then show ?thesis
      using free_buffer [OF assms] Some by (simp add: load_end_def free_buf_def)
  qed
qed

lemma okX_catchX: "okX m s (\<lambda>x t. okX (f x) t Q E) (\<lambda>_ t. okX h t Q E) \<Longrightarrow> okX (catchX m f h) s Q E"
  by (cases "m s") (auto simp: okX_def catchX_def split: sum.splits)

lemma okX_load_data:
  assumes "text_ok (in_text s)" "\<not> memory_short s"
  shows "okX mxml_load_data s (\<lambda>r t. loaded r t) E"
proof -
  let ?s = "s\<lparr>malloc_calls := Suc (malloc_calls s), ld_buffer := new_buf 64, ld_parent := None, ld_first := None,
     ld_whitespace := False, in_encoding := ENCODE_UTF8, ld_type := MXML_IGNORE\<rparr>"
  have s: "load_inv ?s" using assms by (auto simp: inv_defs buf_ok_def new_buf_def)
  have rounds: "reads load_inv (readX load_round ()) any_way"
    by (rule reads_readX) (simp_all add: reads_load_round)
  have "okX (catchX (readX load_round ()) (\<lambda>_. load_end) load_error) ?s (\<lambda>r t. loaded r t) E"
    by (rule okX_catchX, rule okX_mono [OF readsD [OF rounds s]]) (auto intro: okX_load_end okX_load_error)
  then show ?thesis
    using assms(2) by (simp add: mxml_load_data_def memory_short_def)
qed

lemma okR_mxmlLoadString:
  assumes "CHR 0xFE \<notin> set txt" "CHR 0xFF \<notin> set txt" "\<And>n. ok n"
  shows "okR (mxmlLoadString txt ok) (\<lambda>(r, s). loaded r s)"
proof -
  have "okX (mxml_load_data :: (unit, nat option, mx_state) xe) (start_text txt ok) (\<lambda>r t. loaded r t) (\<lambda>_ _. False)"
    by (rule okX_load_data) (use assms in \<open>auto simp: start_text_def text_ok_def memory_short_def\<close>)
  then show ?thesis
    by (cases "mxml_load_data (start_text txt ok) :: ((unit + nat option) \<times> mx_state) result")
      (auto simp: mxmlLoadString_def okX_def split: sum.splits)
qed

end
