(* ===== verification/Mxml_Doc.thy ===== *)
theory Mxml_Doc
  imports Mxml_Load_Safe Xml_Tree
begin

text \<open>
  The document that the loader hands to the parser of the configuration: the linked nodes of a
  tree as the cursor that Xml_Tree moves in.
\<close>

text \<open>
  The document a pointer stands for, as the parser moves in it: by \<open>child\<close> and \<open>next\<close>. Text nodes
  are \<open>Other\<close>. The number bounds the nodes.
\<close>

fun heap_doc :: "nat \<Rightarrow> mxml_node option list \<Rightarrow> nat option \<Rightarrow> cursor" where
  "heap_doc 0 h p = []"
| "heap_doc (Suc n) h p = (case node_at p h of
     Inl _ \<Rightarrow> []
   | Inr m \<Rightarrow> (case n_value m of
         VElement (Some e) attrs \<Rightarrow> Element e (map (map_prod id the) attrs) (heap_doc n h (n_child m))
       | _ \<Rightarrow> Other) # heap_doc n h (n_next m))"

fun tree_doc :: "atree \<Rightarrow> mxml_node_t" where
  "tree_doc (ANode a v cs) = (case v of
     VElement (Some e) attrs \<Rightarrow> Element e (map (map_prod id the) attrs) (map tree_doc cs)
   | _ \<Rightarrow> Other)"

lemma heap_doc_None [simp]: "heap_doc n h None = []"
  by (cases n) (simp_all add: node_at_def)

lemma heap_doc_tree:
  "tree_at h parent prev nxt t \<Longrightarrow> length (addrs t) + m \<le> Suc n \<Longrightarrow>
     (\<And>k. m \<le> k \<Longrightarrow> heap_doc k h nxt = later) \<Longrightarrow> heap_doc (Suc n) h (Some (addr t)) = tree_doc t # later"
  "trees_at h parent prev nxt ts \<Longrightarrow> length (forest_addrs ts) + m \<le> n \<Longrightarrow>
     (\<And>k. m \<le> k \<Longrightarrow> heap_doc k h nxt = later) \<Longrightarrow> heap_doc n h (first_or nxt ts) = map tree_doc ts @ later"
proof (induction h parent prev nxt t and h parent prev nxt ts arbitrary: n m later and n m later
    rule: tree_at_trees_at.induct)
  case (1 h parent prev nxt a v cs)
  have "heap_doc n h (first_or None cs) = map tree_doc cs @ []"
    using 1 by (intro "1.IH" [where m = 0]) auto
  moreover have "heap_doc n h nxt = later" using 1 by auto
  ultimately show ?case using 1 by (auto split: mxml_value_t.splits option.splits)
next
  case (3 h parent prev nxt t ts)
  have "0 < length (addrs t)" by (cases t) simp
  then obtain k where n: "n = Suc k" using 3 by (cases n) auto
  have "heap_doc n h (Some (addr t)) = tree_doc t # (map tree_doc ts @ later)"
    unfolding n by (rule "3.IH"(1) [where m = "length (forest_addrs ts) + m"]) (use 3 n in auto)
  then show ?case by simp
qed simp

definition mxml_load :: "(nat \<Rightarrow> bool) \<Rightarrow> string \<Rightarrow> cursor option" where
  "mxml_load ok txt = (case mxmlLoadString txt ok of
     Inr (Some a, s) \<Rightarrow> Some (heap_doc (length (mx_nodes s)) (mx_nodes s) (Some a))
   | _ \<Rightarrow> None)"

lemma holds_tree_doc: "holds_tree s T \<Longrightarrow> heap_doc (length (mx_nodes s)) (mx_nodes s) (Some (addr T)) = [tree_doc T]"
  using heap_doc_tree(2) [of "mx_nodes s" None None None "[T]" 0 _ "[]"] length_addrs [of s T]
  by (simp add: holds_tree_def)

end
