(* ===== verification/Mxml_Follow.thy ===== *)
theory Mxml_Follow
  imports Mxml_Doc
begin

text \<open>
  Following the loader through a text: what is known of a state is a \<open>view\<close>, and each lemma
  takes it across one step of the loader, a character, a name, an attribute, a start tag.
\<close>

section \<open>One round after the other\<close>

lemma okX_loopX_more:
  "okX (loopX n f b) s Q E \<Longrightarrow> n \<le> m \<Longrightarrow> okX (loopX m f b) s Q E"
proof (induction n arbitrary: m b s)
  case (Suc n)
  obtain k where m: "m = Suc k" "n \<le> k" using Suc.prems(2) by (cases m) auto
  have "okX (f b) s (\<lambda>r t. okX (case r of Inl b \<Rightarrow> loopX n f b | Inr c \<Rightarrow> retX c) t Q E) E"
    using Suc.prems(1) by simp
  then have "okX (f b) s (\<lambda>r t. okX (case r of Inl b \<Rightarrow> loopX k f b | Inr c \<Rightarrow> retX c) t Q E) E"
    by (rule okX_mono) (use Suc.IH m(2) in \<open>auto split: sum.splits\<close>)
  then show ?case by (simp add: m(1))
qed simp

lemma okX_readX_round:
  assumes "okX (f b) s (\<lambda>r t. case r of Inl c \<Rightarrow> left_of t < left_of s \<and> okX (readX f c) t Q E | Inr c \<Rightarrow> Q c t) E"
  shows "okX (readX f b) s Q E"
proof -
  have "okX (f b) s (\<lambda>r t. okX (case r of Inl b \<Rightarrow> loopX (left_of s) f b | Inr c \<Rightarrow> retX c) t Q E) E"
    by (rule okX_mono [OF assms])
      (auto simp: readX_def split: sum.splits elim!: okX_loopX_more simp del: loopX.simps)
  then show ?thesis by (simp add: readX_def)
qed

section \<open>Characters\<close>

abbreviation code :: "char \<Rightarrow> int" where
  "code c \<equiv> int (of_char c)"

definition plain :: "char \<Rightarrow> bool" where
  "plain c \<longleftrightarrow> 32 \<le> code c \<and> code c < 127 \<or> code c = 10"

lemma plain_bits: "plain c \<Longrightarrow> code c AND 0x80 = 0"
proof -
  assume "plain c"
  then have "take_bit 7 (code c) = code c" by (intro take_bit_int_eq_self) (auto simp: plain_def)
  then have "code c AND 0x80 = (code c AND mask 7) AND 0x80" by (simp flip: take_bit_eq_mask)
  also have "\<dots> = 0" by (simp add: mask_eq_exp_minus_1 and.assoc)
  finally show ?thesis .
qed

lemma okX_getc:
  assumes "in_encoding s = ENCODE_UTF8" "in_text s = c # cs" "plain c"
  shows "okX mxml_string_getc s Q E \<longleftrightarrow> Q (code c) (s\<lparr>in_text := cs\<rparr>)"
proof -
  have c: "code c \<noteq> 0" "\<not> mxml_bad_char (code c)" using assms(3) by (auto simp: plain_def mxml_bad_char_def)
  show ?thesis
    using assms(1,2) c plain_bits [OF assms(3)]
    by (simp add: mxml_string_getc_def readX_def string_getc_round_def peek_def skip_def utf8_char_def)
qed

lemma okX_getc_end:
  assumes "in_encoding s = ENCODE_UTF8" "in_text s = CHR 0x00 # cs"
  shows "okX mxml_string_getc s Q E \<longleftrightarrow> Q EOF s"
  using assms by (simp add: mxml_string_getc_def readX_def string_getc_round_def peek_def)

section \<open>What is known of a state\<close>

text \<open>The buffers of \<open>mxml_parse_element\<close> matter only inside of it.\<close>

record view =
  w_tree :: "atree option"
  w_first :: "nat option"
  w_parent :: "nat option"
  w_type :: value_type
  w_buffer :: string
  w_name :: "string option"
  w_value :: "string option"
  w_space :: bool
  w_text :: string

definition holds_chars :: "buf \<Rightarrow> string option \<Rightarrow> bool" where
  "holds_chars b cs \<longleftrightarrow> (\<forall>x. cs = Some x \<longrightarrow> buf_ok b \<and> b_chars b = x)"

definition sees :: "view \<Rightarrow> mx_state \<Rightarrow> bool" where
  "sees v s \<longleftrightarrow> in_encoding s = ENCODE_UTF8 \<and> \<not> memory_short s \<and> in_text s = w_text v \<and>
     (\<forall>T. w_tree v = Some T \<longrightarrow> holds_tree s T) \<and> ld_first s = w_first v \<and> ld_parent s = w_parent v \<and>
     ld_type s = w_type v \<and> ld_whitespace s = w_space v \<and> holds_chars (ld_buffer s) (Some (w_buffer v)) \<and>
     holds_chars (pe_name s) (w_name v) \<and> holds_chars (pe_value s) (w_value v)"

lemma sees_fields:
  assumes "sees v s"
  shows "in_text s = w_text v" "ld_first s = w_first v" "ld_parent s = w_parent v" "ld_type s = w_type v"
    "ld_whitespace s = w_space v" "b_chars (ld_buffer s) = w_buffer v" "in_encoding s = ENCODE_UTF8" "malloc_ok s n"
    "length (w_buffer v) < b_size (ld_buffer s)"
  using assms by (auto simp: sees_def holds_chars_def memory_short_def buf_ok_def)

lemma see_char:
  assumes "sees v s" "w_text v = c # cs" "plain c" "\<And>t. sees (v\<lparr>w_text := cs\<rparr>) t \<Longrightarrow> Q (code c) t"
  shows "okX mxml_string_getc s Q E"
proof -
  have "sees (v\<lparr>w_text := cs\<rparr>) (s\<lparr>in_text := cs\<rparr>)" using assms(1) by (simp add: sees_def memory_short_def)
  moreover have "in_text s = c # cs" using assms(1,2) by (simp add: sees_def)
  ultimately show ?thesis
    using assms(3,4) okX_getc [of s c cs Q E] sees_fields(7) [OF assms(1)] by simp
qed

lemma see_round:
  assumes "sees v s"
    and "okX (f b) s (\<lambda>r t. case r of Inl c \<Rightarrow> left_of t < length (w_text v) \<and> okX (readX f c) t Q E | Inr c \<Rightarrow> Q c t) E"
  shows "okX (readX f b) s Q E"
  by (rule okX_readX_round) (use assms(2) in \<open>simp only: sees_fields(1) [OF assms(1)]\<close>)

lemma code_byte [simp]: "char_of (code c) = c"
  by (metis char_of_char char_of_nat of_char_of of_nat_of_char)

lemma add_plain:
  assumes "plain c" "buf_ok b" "\<And>n. malloc_ok s n"
    and "\<And>n d. buf_ok d \<Longrightarrow> b_chars d = b_chars b @ [c] \<Longrightarrow> Q (True, d) (s\<lparr>malloc_calls := n\<rparr>)"
  shows "okX (mxml_add_char (code c) b) s Q E"
proof -
  have bytes: "utf8_bytes (code c) = [code c]" using assms(1) by (auto simp: plain_def utf8_bytes_def)
  show ?thesis
    using assms(2,3) assms(4) [of "b\<lparr>b_chars := b_chars b @ [c]\<rparr>" "malloc_calls s"]
      assms(4) [of "b\<lparr>b_size := k, b_chars := b_chars b @ [c]\<rparr>" n for k n]
    by (auto simp: mxml_add_char_def bytes put_byte_def buf_ok_def Let_def)
qed

lemma see_add:
  assumes "sees v s" "plain c" "buf_ok (get s)"
    and "\<And>n d. buf_ok d \<Longrightarrow> b_chars d = b_chars (get s) @ [c] \<Longrightarrow> sees v' (upd (\<lambda>_. d) (s\<lparr>malloc_calls := n\<rparr>))"
    and "\<And>t. sees v' t \<Longrightarrow> Q () t"
  shows "okX (add_to get upd (code c)) s Q E"
  unfolding add_to_def okX_bindX okX_getX
proof (rule add_plain [OF assms(2,3)])
  show "malloc_ok s n" for n by (rule sees_fields(8) [OF assms(1)])
  fix n d assume "buf_ok d" "b_chars d = b_chars (get s) @ [c]"
  then show "okX (case (True, d) of (ok, b) \<Rightarrow> thenX (updX (upd (\<lambda>_. b))) (if ok then retX () else stopX ()))
      (s\<lparr>malloc_calls := n\<rparr>) Q E"
    using assms(4,5) by simp
qed

lemma sees_buffers:
  assumes "sees v s"
  shows "buf_ok (ld_buffer s)" "w_name v = Some n \<Longrightarrow> buf_ok (pe_name s) \<and> b_chars (pe_name s) = n"
    "w_value v = Some x \<Longrightarrow> buf_ok (pe_value s) \<and> b_chars (pe_value s) = x"
  using assms by (auto simp: sees_def holds_chars_def)

lemma see_add_buffer:
  assumes "sees v s" "plain c" "\<And>t. sees (v\<lparr>w_buffer := w_buffer v @ [c]\<rparr>) t \<Longrightarrow> Q () t"
  shows "okX (add_buffer (code c)) s Q E"
  by (rule see_add [where get = ld_buffer and v' = "v\<lparr>w_buffer := w_buffer v @ [c]\<rparr>",
        OF assms(1,2) sees_buffers(1) [OF assms(1)]])
    (use assms(1,3) in \<open>auto simp: sees_def memory_short_def holds_chars_def\<close>)

lemma see_add_name:
  assumes "sees v s" "w_name v = Some n" "plain c" "\<And>t. sees (v\<lparr>w_name := Some (n @ [c])\<rparr>) t \<Longrightarrow> Q () t"
  shows "okX (add_name (code c)) s Q E"
  by (rule see_add [where get = pe_name and v' = "v\<lparr>w_name := Some (n @ [c])\<rparr>",
        OF assms(1,3) conjunct1 [OF sees_buffers(2) [OF assms(1,2)]]])
    (use assms(1,2,4) in \<open>auto simp: sees_def memory_short_def holds_chars_def\<close>)

lemma see_add_value:
  assumes "sees v s" "w_value v = Some n" "plain c" "\<And>t. sees (v\<lparr>w_value := Some (n @ [c])\<rparr>) t \<Longrightarrow> Q () t"
  shows "okX (add_value (code c)) s Q E"
  by (rule see_add [where get = pe_value and v' = "v\<lparr>w_value := Some (n @ [c])\<rparr>",
        OF assms(1,3) conjunct1 [OF sees_buffers(3) [OF assms(1,2)]]])
    (use assms(1,2,4) in \<open>auto simp: sees_def memory_short_def holds_chars_def\<close>)

lemma see_start_buffer:
  assumes "sees v s" "\<And>t. sees (v\<lparr>w_buffer := []\<rparr>) t \<Longrightarrow> Q () t"
  shows "okX (start_with ld_buffer_update []) s Q E"
proof -
  have "sees (v\<lparr>w_buffer := []\<rparr>) (ld_buffer_update (b_chars_update (\<lambda>_. [])) s)"
    using assms(1) by (auto simp: sees_def memory_short_def holds_chars_def buf_ok_def holds_tree_def)
  then show ?thesis using assms(2) by (simp add: start_with_def)
qed

text \<open>The name starts with its first character, the value is empty at first.\<close>

lemma see_start_name:
  assumes "sees v s" "w_name v \<noteq> None" "\<And>t. sees (v\<lparr>w_name := Some [c]\<rparr>) t \<Longrightarrow> Q () t"
  shows "okX (start_with pe_name_update [code c]) s Q E"
proof -
  have "sees (v\<lparr>w_name := Some [c]\<rparr>) (pe_name_update (b_chars_update (\<lambda>_. [c])) s)"
    using assms(1,2) by (auto simp: sees_def memory_short_def holds_chars_def buf_ok_def holds_tree_def)
  then show ?thesis using assms(3) by (simp add: start_with_def)
qed

lemma see_start_value:
  assumes "sees v s" "w_value v \<noteq> None" "\<And>t. sees (v\<lparr>w_value := Some []\<rparr>) t \<Longrightarrow> Q () t"
  shows "okX (start_with pe_value_update []) s Q E"
proof -
  have "sees (v\<lparr>w_value := Some []\<rparr>) (pe_value_update (b_chars_update (\<lambda>_. [])) s)"
    using assms(1,2) by (auto simp: sees_def memory_short_def holds_chars_def buf_ok_def holds_tree_def)
  then show ?thesis using assms(3) by (simp add: start_with_def)
qed

lemma plain_not_NUL: "plain c \<Longrightarrow> c \<noteq> CHR 0x00"
  by (rule notI) (simp add: plain_def)

lemma plain_string: "list_all plain x \<Longrightarrow> takeWhile (\<lambda>c. c \<noteq> CHR 0x00) x = x"
  by (simp add: list_all_iff plain_not_NUL)

lemma see_terminated:
  assumes "buf_ok (get s)" "list_all plain (b_chars (get s))" "Q (b_chars (get s)) s"
  shows "okX (terminated get) s Q E"
  using assms by (simp add: terminated_def buf_ok_def plain_string)

section \<open>Names of tags\<close>

definition name_char :: "char \<Rightarrow> bool" where
  "name_char c \<longleftrightarrow> isalnum (code c) \<or> c = CHR ''_''"

lemma name_char_code:
  assumes "name_char c"
  shows "plain c" "48 \<le> code c" "code c \<notin> {60, 61, 62, 63}" "c \<notin> {CHR ''?'', CHR ''!'', CHR ''/''}"
proof -
  have "code (CHR ''_'') = 95" by simp
  then have c: "isalnum (code c) \<or> code c = 95" using assms unfolding name_char_def by metis
  then show "plain c" "48 \<le> code c" "code c \<notin> {60, 61, 62, 63}"
    unfolding plain_def isalnum_def by (elim disjE; simp)+
  have "code c \<notin> {63, 33, 47}" using c unfolding isalnum_def by (elim disjE; simp)
  then show "c \<notin> {CHR ''?'', CHR ''!'', CHR ''/''}" by auto
qed

lemma see_tag_char:
  assumes "sees v s" "w_text v = x # cs" "name_char x \<or> x = CHR ''/'' \<and> w_buffer v = []"
    "hd (w_buffer v @ [x]) \<noteq> CHR ''?''" "hd (w_buffer v @ [x]) \<noteq> CHR ''!''"
    and go_on: "\<And>t. sees (v\<lparr>w_text := cs, w_buffer := w_buffer v @ [x]\<rparr>) t \<Longrightarrow> okX (readX tag_round ()) t Q E"
  shows "okX (readX tag_round u) s Q E"
proof (rule see_round [OF assms(1)])
  have x: "plain x" "code x \<noteq> EOF" "\<not> mxml_isspace (code x)" "code x \<noteq> 62" "code x \<noteq> 60" "code x \<noteq> 38"
      "code x = 47 \<longrightarrow> w_buffer v = []" "code x < 48 \<longrightarrow> code x = 47"
    using assms(3) name_char_code [of x] by (auto simp: plain_def EOF_def mxml_isspace_def)
  have b: "w_buffer v @ [x] \<noteq> ''?''" "w_buffer v @ [x] \<noteq> ''!--''" "w_buffer v @ [x] \<noteq> ''![CDATA[''"
    using assms(4,5) by auto
  show "okX (tag_round u) s (\<lambda>r t. case r of Inl c \<Rightarrow> left_of t < length (w_text v) \<and> okX (readX tag_round c) t Q E
      | Inr c \<Rightarrow> Q c t) E"
    unfolding tag_round_def [of u] okX_bindX
  proof (rule see_char [OF assms(1,2) x(1)])
    fix t assume t: "sees (v\<lparr>w_text := cs\<rparr>) t"
    let ?M = "\<lambda>n. if code x = EOF \<or> mxml_isspace (code x) \<or> code x = 62 \<or> code x = 47 \<and> n > 0 then retX (Inr (code x))
     else if code x = 60 then stopX ()
     else if code x = 38 then
       bindX mxml_get_entity (\<lambda>ch. if ch = EOF then stopX () else thenX (add_buffer ch) (retX (Inl ())))
     else if code x < 48 \<and> code x \<noteq> 33 \<and> code x \<noteq> 45 \<and> code x \<noteq> 46 \<and> code x \<noteq> 47 then stopX ()
     else thenX (add_buffer (code x))
       (bindX (getX (\<lambda>s. b_chars (ld_buffer s))) (\<lambda>buffer.
       retX (if buffer = ''?'' \<or> buffer = ''!--'' \<or> buffer = ''![CDATA['' then Inr (code x) else Inl ())))"
    have n: "b_chars (ld_buffer t) = w_buffer v" using sees_fields(6) [OF t] by simp
    let ?R = "\<lambda>r t. case r of Inl c \<Rightarrow> left_of t < length (w_text v) \<and> okX (readX tag_round c) t Q E | Inr c \<Rightarrow> Q c t"
    have add: "okX (add_buffer (code x)) t (\<lambda>_ t. b_chars (ld_buffer t) = w_buffer v @ [x] \<and> ?R (Inl ()) t) E"
    proof (rule see_add_buffer [OF t x(1)])
      fix u assume "sees (v\<lparr>w_text := cs, w_buffer := w_buffer (v\<lparr>w_text := cs\<rparr>) @ [x]\<rparr>) u"
      then have u: "sees (v\<lparr>w_text := cs, w_buffer := w_buffer v @ [x]\<rparr>) u" by simp
      show "b_chars (ld_buffer u) = w_buffer v @ [x] \<and> ?R (Inl ()) u"
        using sees_fields(1,6) [OF u] go_on [OF u] assms(2) by simp
    qed
    show "okX buffer_used t (\<lambda>n s. okX (?M n) s ?R E) E"
    proof -
      have c: "\<not> (code x = EOF \<or> mxml_isspace (code x) \<or> code x = 62 \<or> code x = 47 \<and> 0 < length (w_buffer v))"
        "(code x = 60) = False" "(code x = 38) = False"
        "\<not> (code x < 48 \<and> code x \<noteq> 33 \<and> code x \<noteq> 45 \<and> code x \<noteq> 46 \<and> code x \<noteq> 47)"
        using x by (blast, blast, blast, linarith)
      show ?thesis
        unfolding buffer_used_def okX_getX n
        by (simp only: c if_False okX_thenX okX_bindX okX_getX okX_retX, rule okX_mono [OF add])
          (simp_all only: b if_False simp_thms)
    qed
  qed
qed

lemma see_tag_end:
  assumes "sees v s" "w_text v = c # cs" "c = CHR '' '' \<or> c = CHR ''>'' \<or> c = CHR ''/'' \<and> w_buffer v \<noteq> []"
    and q: "\<And>t. sees (v\<lparr>w_text := cs\<rparr>) t \<Longrightarrow> Q (code c) t"
  shows "okX (readX tag_round u) s Q E"
proof (rule see_round [OF assms(1)])
  have c: "plain c" "mxml_isspace (code c) \<or> code c = 62 \<or> code c = 47 \<and> w_buffer v \<noteq> []"
    using assms(3) by (auto simp: plain_def mxml_isspace_def)
  show "okX (tag_round u) s (\<lambda>r t. case r of Inl c \<Rightarrow> left_of t < length (w_text v) \<and> okX (readX tag_round c) t Q E
      | Inr c \<Rightarrow> Q c t) E"
    unfolding tag_round_def [of u] okX_bindX buffer_used_def okX_getX
    by (rule see_char [OF assms(1,2) c(1)]) (use c(2) q in \<open>auto dest: sees_fields(6)\<close>)
qed

lemma same_buffer: "v\<lparr>w_text := cs, w_buffer := w_buffer v\<rparr> = v\<lparr>w_text := cs\<rparr>"
  by simp

lemma see_tag_name:
  assumes "sees v s" "w_text v = name @ c # cs" "list_all name_char name" "w_buffer v @ name = f # fs"
    "f \<notin> {CHR ''?'', CHR ''!''}" "c = CHR '' '' \<or> c = CHR ''>'' \<or> c = CHR ''/''"
    and q: "\<And>t. sees (v\<lparr>w_text := cs, w_buffer := w_buffer v @ name\<rparr>) t \<Longrightarrow> Q (code c) t"
  shows "okX (readX tag_round u) s Q E"
  using assms
proof (induction name arbitrary: v s u)
  case Nil
  have "Q (code c) t" if "sees (v\<lparr>w_text := cs\<rparr>) t" for t
    using Nil.prems(7) [of t] that by (simp add: same_buffer)
  with Nil.prems show ?case by - (rule see_tag_end [OF Nil.prems(1)], auto)
next
  case (Cons x name)
  show ?case
  proof (rule see_tag_char [of v s x "name @ c # cs"])
    have "hd (w_buffer v @ [x]) = f" using Cons.prems(4) by (cases "w_buffer v") auto
    then show "hd (w_buffer v @ [x]) \<noteq> CHR ''?''" "hd (w_buffer v @ [x]) \<noteq> CHR ''!''" using Cons.prems(5) by auto
    show "okX (readX tag_round ()) t Q E" if "sees (v\<lparr>w_text := name @ c # cs, w_buffer := w_buffer v @ [x]\<rparr>) t" for t
      by (rule Cons.IH [OF that]) (use Cons.prems in auto)
  qed (use Cons.prems in auto)
qed

section \<open>Attributes\<close>

definition value_char :: "char \<Rightarrow> bool" where
  "value_char c \<longleftrightarrow> plain c \<and> c \<noteq> CHR 0x22 \<and> c \<noteq> CHR ''&''"

lemma quote_code: "value_char c \<Longrightarrow> plain c \<and> code c \<noteq> 34 \<and> code c \<noteq> 38 \<and> code c \<noteq> EOF"
proof -
  assume c: "value_char c"
  have "code c = 34 \<Longrightarrow> c = CHR 0x22" "code c = 38 \<Longrightarrow> c = CHR ''&''"
    using of_char_eq_iff [of c "CHR 0x22", where ?'a = nat] of_char_eq_iff [of c "CHR ''&''", where ?'a = nat]
    by (simp_all del: of_char_eq_iff)
  then show ?thesis using c by (auto simp: value_char_def plain_def EOF_def)
qed

lemma see_value:
  assumes "sees v s" "w_value v = Some old" "w_text v = x @ CHR 0x22 # cs" "list_all value_char x"
    and q: "\<And>t. sees (v\<lparr>w_text := cs, w_value := Some (old @ x)\<rparr>) t \<Longrightarrow> Q 34 t"
  shows "okX (readX (quoted_value_round 34) u) s Q E"
  using assms
proof (induction x arbitrary: v s old u)
  case Nil
  have w: "w_text v = CHR 0x22 # cs" using Nil.prems(3) by simp
  moreover have same: "v\<lparr>w_text := cs, w_value := Some old\<rparr> = v\<lparr>w_text := cs\<rparr>" using Nil.prems(2) by simp
  moreover have "plain (CHR 0x22)" "code (CHR 0x22) = 34" by (simp_all add: plain_def)
  ultimately have q: "Q 34 t" if "sees (v\<lparr>w_text := cs\<rparr>) t" for t
    using Nil.prems(5) [unfolded append_Nil2 same] that by blast
  show ?case
  proof (rule see_round [OF Nil.prems(1)], unfold quoted_value_round_def [of _ u] okX_bindX, rule see_char [OF Nil.prems(1) w], goal_cases)
    case (2 t)
    then show ?case using q [of t] by simp
  qed (simp add: plain_def)
next
  case (Cons c x)
  have c: "plain c" "code c \<noteq> 34" "code c \<noteq> 38" "code c \<noteq> EOF" using Cons.prems(4) quote_code [of c] by auto
  have w: "w_text v = c # x @ CHR 0x22 # cs" using Cons.prems(3) by simp
  show ?case
  proof (rule see_round [OF Cons.prems(1)], unfold quoted_value_round_def [of _ u] okX_bindX,
      rule see_char [OF Cons.prems(1) w c(1)])
    fix t assume t: "sees (v\<lparr>w_text := x @ CHR 0x22 # cs\<rparr>) t"
    have "okX (add_value (code c)) t (\<lambda>_ t. left_of t < length (w_text v) \<and> okX (readX (quoted_value_round 34) ()) t Q E) E"
    proof (rule see_add_value [OF t _ c(1)])
      fix t assume t: "sees (v\<lparr>w_text := x @ CHR 0x22 # cs, w_value := Some (old @ [c])\<rparr>) t"
      show "left_of t < length (w_text v) \<and> okX (readX (quoted_value_round 34) ()) t Q E"
        using w sees_fields(1) [OF t] Cons.prems(4,5) by (auto intro!: Cons.IH [OF t])
    qed (use Cons.prems(2) in simp)
    then show "okX (if code c = EOF \<or> code c = 34 then retX (Inr (code c)) else
        bindX (entity_or (code c)) (\<lambda>ch. thenX (add_value ch) (retX (Inl ())))) t
        (\<lambda>r t. case r of Inl c \<Rightarrow> left_of t < length (w_text v) \<and> okX (readX (quoted_value_round 34) c) t Q E
          | Inr c \<Rightarrow> Q c t) E"
      using c(2-4) by (simp add: entity_or_def)
  qed
qed

lemma see_name_rest:
  assumes "sees v s" "w_name v = Some old" "w_text v = x @ CHR ''='' # cs" "list_all name_char x"
    and q: "\<And>t. sees (v\<lparr>w_text := cs, w_name := Some (old @ x)\<rparr>) t \<Longrightarrow> Q 61 t"
  shows "okX (readX name_round u) s Q E"
  using assms
proof (induction x arbitrary: v s old u)
  case Nil
  have w: "w_text v = CHR ''='' # cs" using Nil.prems(3) by simp
  moreover have same: "v\<lparr>w_text := cs, w_name := Some old\<rparr> = v\<lparr>w_text := cs\<rparr>" using Nil.prems(2) by simp
  moreover have "plain (CHR ''='')" "code (CHR ''='') = 61" by (simp_all add: plain_def)
  ultimately have q: "Q 61 t" if "sees (v\<lparr>w_text := cs\<rparr>) t" for t
    using Nil.prems(5) [unfolded append_Nil2 same] that by blast
  show ?case
  proof (rule see_round [OF Nil.prems(1)], unfold name_round_def [of u] okX_bindX, rule see_char [OF Nil.prems(1) w], goal_cases)
    case (2 t)
    then show ?case using q [of t] by simp
  qed (simp add: plain_def)
next
  case (Cons c x)
  have n: "name_char c" using Cons.prems(4) by simp
  have c: "\<not> (code c = EOF \<or> mxml_isspace (code c) \<or> code c = 61 \<or> code c = 47 \<or> code c = 62 \<or> code c = 63)" "code c \<noteq> 38"
    using name_char_code(2,3) [OF n] by (auto simp: EOF_def mxml_isspace_def)
  have w: "w_text v = c # x @ CHR ''='' # cs" using Cons.prems(3) by simp
  show ?case
  proof (rule see_round [OF Cons.prems(1)], unfold name_round_def [of u] okX_bindX,
      rule see_char [OF Cons.prems(1) w name_char_code(1) [OF n]])
    fix t assume t: "sees (v\<lparr>w_text := x @ CHR ''='' # cs\<rparr>) t"
    have "okX (add_name (code c)) t (\<lambda>_ t. left_of t < length (w_text v) \<and> okX (readX name_round ()) t Q E) E"
    proof (rule see_add_name [OF t _ name_char_code(1) [OF n]])
      fix t assume t: "sees (v\<lparr>w_text := x @ CHR ''='' # cs, w_name := Some (old @ [c])\<rparr>) t"
      show "left_of t < length (w_text v) \<and> okX (readX name_round ()) t Q E"
        using w sees_fields(1) [OF t] Cons.prems(4,5) by (auto intro!: Cons.IH [OF t])
    qed (use Cons.prems(2) in simp)
    then show "okX (if code c = EOF \<or> mxml_isspace (code c) \<or> code c = 61 \<or> code c = 47 \<or> code c = 62 \<or> code c = 63
        then retX (Inr (code c)) else bindX (entity_or (code c)) (\<lambda>ch. thenX (add_name ch) (retX (Inl ())))) t
        (\<lambda>r t. case r of Inl c \<Rightarrow> left_of t < length (w_text v) \<and> okX (readX name_round c) t Q E | Inr c \<Rightarrow> Q c t) E"
      using c(2) by (simp only: c(1) if_False entity_or_def okX_bindX okX_thenX okX_retX sum.case)
  qed
qed

text \<open>A tree with the attributes of the element \<open>a\<close> left open.\<close>

definition open_at :: "nat \<Rightarrow> string \<Rightarrow> ((string \<times> string option) list \<Rightarrow> atree) \<Rightarrow> bool" where
  "open_at a e F \<longleftrightarrow> (\<forall>as. (\<exists>cs. ANode a (VElement (Some e) as) cs \<in> set (subtrees (F as))) \<and>
     (\<forall>bs. set_value a (VElement (Some e) bs) (F as) = F bs))"

lemma held_value:
  assumes "holds_tree s T" "ANode a v cs \<in> set (subtrees T)"
  obtains n where "node_at (Some a) (mx_nodes s) = Inr n" "n_value n = v"
  using tree_at_subtree [OF _ assms(2), of "mx_nodes s"] assms(1) by (fastforce simp: holds_tree_def)

lemma see_get_attr:
  assumes "sees v s" "w_tree v = Some (F as)" "open_at a e F" "k \<notin> fst ` set as" "Q None s"
  shows "okX (mxmlElementGetAttr (Some a) k) s Q E"
proof -
  obtain cs where cs: "ANode a (VElement (Some e) as) cs \<in> set (subtrees (F as))" using assms(3) by (auto simp: open_at_def)
  have "holds_tree s (F as)" using assms(1,2) by (simp add: sees_def)
  then obtain n where "node_at (Some a) (mx_nodes s) = Inr n" "n_value n = VElement (Some e) as"
    using held_value [OF _ cs] by metis
  moreover have "map_of as k = None" using assms(4) by (simp add: map_of_eq_None_iff)
  ultimately show ?thesis using assms(5) by (simp add: mxmlElementGetAttr_def)
qed

lemma see_set_attr:
  assumes "sees v s" "w_tree v = Some (F as)" "open_at a e F" "k \<notin> fst ` set as"
    and q: "\<And>t. sees (v\<lparr>w_tree := Some (F (as @ [(k, Some x)]))\<rparr>) t \<Longrightarrow> Q () t"
  shows "okX (mxmlElementSetAttr (Some a) k (Some x)) s Q E"
proof -
  obtain cs where cs: "ANode a (VElement (Some e) as) cs \<in> set (subtrees (F as))"
    and set: "\<And>bs. set_value a (VElement (Some e) bs) (F as) = F bs" using assms(3) by (auto simp: open_at_def)
  have h: "holds_tree s (F as)" using assms(1,2) by (simp add: sees_def)
  then obtain n where n: "node_at (Some a) (mx_nodes s) = Inr n" "n_value n = VElement (Some e) as"
    using held_value [OF _ cs] by metis
  let ?s = "s\<lparr>malloc_calls := Suc (Suc (Suc (malloc_calls s)))\<rparr>"
  have a: "a \<in> set (addrs (F as))" using subtrees_addrs [OF cs] by auto
  have hs: "holds_tree ?s (F as)" using h by simp
  have "okX (set_node (Some a) (\<lambda>n. n\<lparr>n_value := VElement (Some e) (as @ [(k, Some x)])\<rparr>)) ?s Q E"
  proof (rule okX_mono [OF okX_set_value [OF hs a]])
    fix y t assume t: "heap_step ?s t \<and> holds_tree t (set_value a (VElement (Some e) (as @ [(k, Some x)])) (F as))"
    then have "heap_step s t" by simp
    then have "sees (v\<lparr>w_tree := Some (F (as @ [(k, Some x)]))\<rparr>) t"
      using assms(1) t memory_short_step [of s t] by (simp add: sees_def heap_step_fields [of s t] set)
    then show "Q y t" by (simp add: q)
  qed
  moreover have "map_of as k = None" using assms(4) by (simp add: map_of_eq_None_iff)
  ultimately show ?thesis
    using n sees_fields(8) [OF assms(1)]
    by (simp add: mxmlElementSetAttr_def mxml_set_attr_def del: okX_set_node)
qed

lemma okX_skip_none: "\<not> mxml_isspace ch \<Longrightarrow> okX (skip_space ch) s Q E = Q ch s"
  by (simp add: skip_space_def readX_def)

lemma sees_eq: "sees v t \<Longrightarrow> v = w \<Longrightarrow> sees w t"
  by simp

definition is_name :: "string \<Rightarrow> bool" where
  "is_name x \<longleftrightarrow> x \<noteq> [] \<and> list_all name_char x"

lemma name_plain: "list_all name_char x \<Longrightarrow> list_all plain x"
  by (auto simp: list_all_iff intro: name_char_code(1))

lemma value_plain: "list_all value_char x \<Longrightarrow> list_all plain x"
  by (auto simp: list_all_iff value_char_def)

lemma see_attr_name:
  assumes "sees v s" "w_name v \<noteq> None" "name_char c" "w_text v = k @ CHR ''='' # cs" "list_all name_char k"
    and q: "\<And>t. sees (v\<lparr>w_text := cs, w_name := Some (c # k)\<rparr>) t \<Longrightarrow> Q 61 t"
  shows "okX (attr_name (code c)) s Q E"
proof -
  have c: "\<not> (code c = 34 \<or> code c = 39)" using name_char_code(2) [OF assms(3)] by auto
  show ?thesis
    unfolding attr_name_def okX_thenX
  proof (rule see_start_name [OF assms(1,2)])
    fix t assume t: "sees (v\<lparr>w_name := Some [c]\<rparr>) t"
    have "okX (readX name_round ()) t Q E"
    proof (rule see_name_rest [OF t])
      fix u assume "sees (v\<lparr>w_name := Some [c], w_text := cs, w_name := Some ([c] @ k)\<rparr>) u"
      then have "sees (v\<lparr>w_text := cs, w_name := Some (c # k)\<rparr>) u" by (rule sees_eq) (cases v, simp)
      then show "Q 61 u" by (rule q)
    qed (use assms in simp_all)
    then show "okX (if code c = 34 \<or> code c = 39 then readX (quoted_name_round (code c)) () else readX name_round ()) t Q E"
      by (simp only: c if_False)
  qed
qed

lemma see_attr_value:
  assumes "sees v s" "w_value v \<noteq> None" "w_text v = x @ CHR 0x22 # cs" "list_all value_char x"
    and q: "\<And>t. sees (v\<lparr>w_text := cs, w_value := Some x\<rparr>) t \<Longrightarrow> Q 34 t"
  shows "okX (attr_value 34) s Q E"
proof -
  have "okX (start_with pe_value_update []) s (\<lambda>_ t. okX (readX (quoted_value_round 34) ()) t Q E) E"
  proof (rule see_start_value [OF assms(1,2)])
    fix t assume t: "sees (v\<lparr>w_value := Some []\<rparr>) t"
    show "okX (readX (quoted_value_round 34) ()) t Q E"
    proof (rule see_value [OF t])
      fix u assume "sees (v\<lparr>w_value := Some [], w_text := cs, w_value := Some ([] @ x)\<rparr>) u"
      then have "sees (v\<lparr>w_text := cs, w_value := Some x\<rparr>) u" by (rule sees_eq) (cases v, simp)
      then show "Q 34 u" by (rule q)
    qed (use assms in simp_all)
  qed
  then show ?thesis by (simp add: attr_value_def)
qed

lemma see_attr_name_end:
  assumes "sees v s" "w_name v = Some k" "list_all plain k" "Q k s"
  shows "okX (terminated pe_name) s Q E"
  by (rule see_terminated) (use sees_buffers(2) [OF assms(1,2)] assms(3,4) in auto)

lemma see_attr_value_end:
  assumes "sees v s" "w_value v = Some x" "list_all plain x" "Q x s"
  shows "okX (terminated pe_value) s Q E"
  by (rule see_terminated) (use sees_buffers(3) [OF assms(1,2)] assms(3,4) in auto)

text \<open>One attribute.\<close>

lemma see_attr:
  assumes "sees v s" "w_name v \<noteq> None" "w_value v \<noteq> None" "w_tree v = Some (F as)" "open_at a e F"
    and k: "is_name k" "k \<notin> fst ` set as" and x: "list_all value_char x"
    and w: "w_text v = k @ CHR ''='' # CHR 0x22 # x @ CHR 0x22 # cs"
    and q: "\<And>t. sees (v\<lparr>w_tree := Some (F (as @ [(k, Some x)])), w_name := Some k, w_value := Some x, w_text := cs\<rparr>) t \<Longrightarrow>
      okX (readX (attr_round (Some a)) ()) t Q E"
  shows "okX (readX (attr_round (Some a)) u) s Q E"
proof -
  obtain c k' where k': "k = c # k'" "name_char c" "list_all name_char k'" using k(1) by (cases k) (auto simp: is_name_def)
  have c: "(code c = EOF) = False" "mxml_isspace (code c) = False" "(code c = 47 \<or> code c = 63) = False" "(code c = 60) = False"
      "(code c = 62) = False"
    using name_char_code(2,3) [OF k'(2)] by (auto simp: EOF_def mxml_isspace_def)
  let ?rest = "k' @ CHR ''='' # CHR 0x22 # x @ CHR 0x22 # cs"
  let ?R = "\<lambda>r t. case r of Inl c \<Rightarrow> left_of t < length (w_text v) \<and> okX (readX (attr_round (Some a)) c) t Q E | Inr c \<Rightarrow> Q c t"
  let ?behind = "\<lambda>name ch v. thenX (mxmlElementSetAttr (Some a) name (Some v)) (if ch = 47 \<or> ch = 63 then
        bindX mxml_string_getc (\<lambda>quote. retX (Inr (if quote \<noteq> 62 then EOF else ch)))
      else retX (if ch = 62 then Inr ch else Inl ()))"
  let ?val = "\<lambda>name ch. bindX (attr_value ch) (\<lambda>ch. bindX (terminated pe_value) (?behind name ch))"
  have plains: "plain (CHR 0x22)" by (simp add: plain_def)
  let ?v1 = "v\<lparr>w_text := ?rest\<rparr>"
  let ?v2 = "v\<lparr>w_text := CHR 0x22 # x @ CHR 0x22 # cs, w_name := Some k\<rparr>"
  let ?v3 = "v\<lparr>w_name := Some k, w_text := x @ CHR 0x22 # cs\<rparr>"
  let ?v4 = "v\<lparr>w_text := cs, w_name := Some k, w_value := Some x\<rparr>"
  have last: "okX (?behind k 34 x) t ?R E" if t: "sees ?v4 t" for t
    unfolding okX_thenX
  proof (rule see_set_attr [OF t _ assms(5) k(2), of x], goal_cases)
    case (2 u)
    then have "sees (v\<lparr>w_tree := Some (F (as @ [(k, Some x)])), w_name := Some k, w_value := Some x, w_text := cs\<rparr>) u"
      by (rule sees_eq) (cases v, simp)
    then show ?case using q sees_fields(1) w by fastforce
  qed (use assms(4) in simp)
  have "okX (?val k 34) t ?R E" if t: "sees ?v3 t" for t
    unfolding okX_bindX
  proof (rule see_attr_value [OF t, where x = x and cs = cs], goal_cases)
    case (4 u)
    then have u: "sees ?v4 u" by (rule sees_eq) (cases v, simp)
    show ?case by (rule see_attr_value_end [OF u _ value_plain [OF x]]) (simp, rule last [OF u])
  qed (use assms(3) x in simp_all)
  then have val: "okX (bindX (bindX mxml_string_getc skip_space) (\<lambda>ch. if ch = EOF then stopX () else ?val k ch)) t ?R E"
    if t: "sees ?v2 t" for t
    unfolding okX_bindX [of "bindX m f" for m f] okX_bindX [of mxml_string_getc]
    by (intro see_char [OF t _ plains]) (auto simp: okX_skip_none mxml_isspace_def EOF_def simp del: okX_bindX elim!: sees_eq)
  have "okX (attr_name (code c)) t (\<lambda>ch t. okX (terminated pe_name) t (\<lambda>name t.
      okX (mxmlElementGetAttr (Some a) name) t (\<lambda>old t. okX (if old \<noteq> None then stopX () else
        bindX (skip_space ch) (\<lambda>ch. if ch \<noteq> 61 then stopX () else
        bindX (bindX mxml_string_getc skip_space) (\<lambda>ch. if ch = EOF then stopX () else ?val name ch))) t ?R E) E) E) E"
    if t: "sees ?v1 t" for t
  proof (rule see_attr_name [OF t, where k = k' and cs = "CHR 0x22 # x @ CHR 0x22 # cs"], goal_cases)
    case (5 u)
    then have u: "sees ?v2 u" by (rule sees_eq) (cases v, simp add: k'(1))
    have "okX (mxmlElementGetAttr (Some a) k) u (\<lambda>old t. okX (if old \<noteq> None then stopX () else
        bindX (skip_space 61) (\<lambda>ch. if ch \<noteq> 61 then stopX () else
        bindX (bindX mxml_string_getc skip_space) (\<lambda>ch. if ch = EOF then stopX () else ?val k ch))) t ?R E) E"
      by (rule see_get_attr [OF u _ assms(5) k(2)])
        (use assms(4) val [OF u] in \<open>simp_all add: okX_skip_none mxml_isspace_def del: okX_bindX add: okX_bindX [of "skip_space 61"]\<close>)
    then show ?case
      using name_plain k(1) by (intro see_attr_name_end [OF u]) (auto simp: is_name_def)
  qed (use assms(2) k' in simp_all)
  then show ?thesis
    by (intro see_round [OF assms(1)], unfold attr_round_def [of _ u] okX_bindX [of mxml_string_getc],
        intro see_char [OF assms(1) _ name_char_code(1) [OF k'(2)]])
      (simp_all only: k'(1) w append_Cons c if_False okX_bindX)
qed

fun print_attr :: "string \<times> string \<Rightarrow> string" where
  "print_attr (k, x) = CHR '' '' # k @ CHR ''='' # CHR 0x22 # x @ [CHR 0x22]"

lemma see_attr_space:
  assumes "sees v s" "w_text v = CHR '' '' # cs"
    and q: "\<And>t. sees (v\<lparr>w_text := cs\<rparr>) t \<Longrightarrow> okX (readX (attr_round a) ()) t Q E"
  shows "okX (readX (attr_round a) u) s Q E"
proof (rule see_round [OF assms(1)], unfold attr_round_def [of _ u] okX_bindX [of mxml_string_getc],
    rule see_char [OF assms(1,2)], goal_cases)
  case (2 t)
  then show ?case
    using q [OF 2] sees_fields(1) [OF 2] assms(2) by (simp add: EOF_def mxml_isspace_def)
qed (simp add: plain_def)

lemma see_attr_end:
  assumes "sees v s" "w_text v = CHR ''>'' # cs"
    and q: "\<And>t. sees (v\<lparr>w_text := cs\<rparr>) t \<Longrightarrow> Q 62 t"
  shows "okX (readX (attr_round a) u) s Q E"
proof (rule see_round [OF assms(1)], unfold attr_round_def [of _ u] okX_bindX [of mxml_string_getc],
    rule see_char [OF assms(1,2)], goal_cases)
  case (2 t)
  then show ?case using q [OF 2] by (simp add: EOF_def mxml_isspace_def)
qed (simp add: plain_def)

definition is_attr :: "string \<times> string \<Rightarrow> bool" where
  "is_attr a \<longleftrightarrow> is_name (fst a) \<and> list_all value_char (snd a)"

text \<open>All attributes and the end of the tag.\<close>

lemma see_attrs:
  assumes "sees v s" "w_name v \<noteq> None" "w_value v \<noteq> None" "w_tree v = Some (F as)" "open_at a e F"
    and "distinct (map fst as @ map fst bs)" "list_all is_attr bs"
    and "w_text v = concat (map print_attr bs) @ CHR ''>'' # cs"
    and q: "\<And>t N X. N \<noteq> None \<Longrightarrow> X \<noteq> None \<Longrightarrow>
      sees (v\<lparr>w_tree := Some (F (as @ map (map_prod id Some) bs)), w_name := N, w_value := X, w_text := cs\<rparr>) t \<Longrightarrow> Q 62 t"
  shows "okX (readX (attr_round (Some a)) u) s Q E"
  using assms
proof (induction bs arbitrary: v s u as)
  case Nil
  show ?case
  proof (rule see_attr_end [OF Nil.prems(1), where cs = cs], goal_cases)
    case (2 t)
    then show ?case
      by (intro Nil.prems(9) [OF Nil.prems(2,3)] sees_eq [OF 2]) (use Nil.prems(4) in \<open>cases v, simp\<close>)
  qed (use Nil.prems(8) in simp)
next
  case (Cons b bs)
  obtain k x where b: "b = (k, x)" by (cases b)
  let ?cs = "concat (map print_attr bs) @ CHR ''>'' # cs"
  have kx: "is_name k" "list_all value_char x" "k \<notin> fst ` set as" using Cons.prems(6,7) by (auto simp: b is_attr_def)
  show ?case
  proof (rule see_attr_space [OF Cons.prems(1)])
    show "w_text v = CHR '' '' # k @ CHR ''='' # CHR 0x22 # x @ CHR 0x22 # ?cs"
      using Cons.prems(8) by (simp add: b)
    fix t assume t: "sees (v\<lparr>w_text := k @ CHR ''='' # CHR 0x22 # x @ CHR 0x22 # ?cs\<rparr>) t"
    show "okX (readX (attr_round (Some a)) ()) t Q E"
    proof (rule see_attr [OF t, where F = F and as = as and k = k and x = x and cs = ?cs, OF _ _ _ Cons.prems(5) kx(1,3,2)], goal_cases)
      case (5 y)
      show ?case
      proof (rule Cons.IH [OF 5, where as = "as @ [(k, Some x)]"], goal_cases)
        case (8 z N X)
        show ?case by (rule Cons.prems(9) [OF 8(1,2) sees_eq [OF 8(3)]]) (cases v, simp add: b)
      qed (use Cons.prems in \<open>auto simp: b\<close>)
    qed (use Cons.prems in simp_all)
  qed
qed

lemma see_free:
  assumes "sees v s" "w_name v \<noteq> None" "w_value v \<noteq> None"
    and q: "\<And>t. sees (v\<lparr>w_name := None, w_value := None\<rparr>) t \<Longrightarrow> Q () t"
  shows "okX (thenX (free_buf pe_name pe_name_update) (free_buf pe_value pe_value_update)) s Q E"
proof -
  have "sees (v\<lparr>w_name := None, w_value := None\<rparr>)
      (pe_value_update (b_alive_update (\<lambda>_. False)) (pe_name_update (b_alive_update (\<lambda>_. False)) s))"
    using assms(1) by (auto simp: sees_def holds_chars_def memory_short_def holds_tree_def)
  moreover have "b_alive (pe_name s)" "b_alive (pe_value s)"
    using assms(1-3) by (auto simp: sees_def holds_chars_def buf_ok_def)
  ultimately show ?thesis using q by (simp add: free_buf_def)
qed

lemma see_parse_element:
  assumes "sees v s" "w_name v = None" "w_value v = None" "w_tree v = Some (F [])" "open_at a e F"
    and "distinct (map fst bs)" "list_all is_attr bs" "bs \<noteq> []"
    and "w_text v = tl (concat (map print_attr bs)) @ CHR ''>'' # cs"
    and q: "\<And>t. sees (v\<lparr>w_tree := Some (F (map (map_prod id Some) bs)), w_text := cs\<rparr>) t \<Longrightarrow> Q 62 t"
  shows "okX (mxml_parse_element (Some a)) s Q E"
proof -
  obtain k x bs' where bs: "bs = (k, x) # bs'" using assms(8) by (cases bs) auto
  let ?cs = "concat (map print_attr bs') @ CHR ''>'' # cs"
  let ?s = "s\<lparr>pe_name := new_buf 64, malloc_calls := Suc (Suc (malloc_calls s)), pe_value := new_buf 64\<rparr>"
  have s: "sees (v\<lparr>w_name := Some [], w_value := Some []\<rparr>) ?s"
    using assms(1) by (auto simp: sees_def holds_chars_def memory_short_def buf_ok_def new_buf_def)
  have kx: "is_name k" "list_all value_char x" using assms(7) by (auto simp: bs is_attr_def)
  have loop: "okX (readX (attr_round (Some a)) ()) ?s (\<lambda>ch t. ch = 62 \<and> (\<exists>N X. N \<noteq> None \<and> X \<noteq> None \<and>
      sees (v\<lparr>w_tree := Some (F (map (map_prod id Some) bs)), w_name := N, w_value := X, w_text := cs\<rparr>) t)) (\<lambda>_ _. False)"
  proof (rule see_attr [OF s, where F = F and as = "[]" and k = k and x = x and cs = ?cs, OF _ _ _ assms(5) kx(1) _ kx(2)], goal_cases)
    case (6 t)
    show ?case
    proof (rule see_attrs [OF 6, where F = F and as = "[(k, Some x)]" and bs = bs' and cs = cs, OF _ _ _ assms(5)], goal_cases)
      case (7 u N X)
      have "sees (v\<lparr>w_tree := Some (F (map (map_prod id Some) bs)), w_name := N, w_value := X, w_text := cs\<rparr>) u"
        by (rule sees_eq [OF 7(3)]) (cases v, simp add: bs)
      then show ?case using 7(1,2) by blast
    qed (use assms(6,7) in \<open>auto simp: bs\<close>)
  qed (use assms(4,9) in \<open>simp_all add: bs\<close>)
  have "okX (or_EOF (readX (attr_round (Some a)) ())) ?s (\<lambda>ch t. okX (thenX (free_buf pe_name pe_name_update)
      (free_buf pe_value pe_value_update)) t (\<lambda>_ t. Q ch t) E) E"
  proof (rule okX_or_EOF, rule okX_mono [OF loop], goal_cases)
    case (1 ch t)
    then obtain N X where N: "ch = 62" "N \<noteq> None" "X \<noteq> None"
      and t: "sees (v\<lparr>w_tree := Some (F (map (map_prod id Some) bs)), w_name := N, w_value := X, w_text := cs\<rparr>) t" by blast
    show ?case
    proof (rule see_free [OF t], goal_cases)
      case (3 u)
      have "sees (v\<lparr>w_tree := Some (F (map (map_prod id Some) bs)), w_text := cs\<rparr>) u"
        by (rule sees_eq [OF 3]) (use assms(2,3) in \<open>cases v, simp\<close>)
      then show ?case using q N(1) by simp
    qed (use N in simp_all)
  qed simp
  then show ?thesis
    using sees_fields(8) [OF assms(1)] by (simp add: mxml_parse_element_def)
qed

end
