(* ===== verification/Mxml_Roundtrip.thy ===== *)
theory Mxml_Roundtrip
  imports Mxml_Follow
begin

text \<open>
  The loader reads back what a document of elements is printed as: the tags that open and close an
  element in the tree, the white space between them, and the children of an element.
\<close>

section \<open>Elements in their surroundings\<close>

text \<open>A tree with the children of the element \<open>p\<close> left open, whose name and parent are given.\<close>

definition around :: "(atree list \<Rightarrow> atree) \<Rightarrow> nat \<Rightarrow> string \<Rightarrow> nat option \<Rightarrow> bool" where
  "around C p n par \<longleftrightarrow> (\<forall>Ks. (\<forall>K. add_kid p K (C Ks) = C (Ks @ [K])) \<and> p \<in> set (addrs (C Ks)) \<and>
     (\<forall>s :: mx_state. holds_tree s (C Ks) \<longrightarrow>
       (\<exists>m as. node_at (Some p) (mx_nodes s) = Inr m \<and> n_value m = VElement (Some n) as \<and> n_parent m = par)))"

lemma around_root: "around (\<lambda>Ks. ANode a (VElement (Some n) as) Ks) a n None"
  by (auto simp: around_def add_kid_def holds_tree_def)

lemma add_kid_twice:
  "a \<notin> set (addrs T) \<Longrightarrow> add_kid a K (add_kid q (ANode a v Ks) T) = add_kid q (ANode a v (Ks @ [K])) T"
  unfolding add_kid_def by (induction T) auto

lemma around_child:
  assumes "q \<in> set (addrs T)" "a \<notin> set (addrs T)" "distinct (addrs T)"
  shows "around (\<lambda>Ks. add_kid q (ANode a (VElement (Some n) as) Ks) T) a n (Some q)"
  unfolding around_def
proof (intro allI conjI impI)
  fix Ks K and s :: mx_state
  let ?t = "ANode a (VElement (Some n) as) Ks"
  show "add_kid a K (add_kid q ?t T) = add_kid q (ANode a (VElement (Some n) as) (Ks @ [K])) T"
    by (rule add_kid_twice [OF assms(2)])
  show "a \<in> set (addrs (add_kid q ?t T))" using assms(1) by simp
  assume h: "holds_tree s (add_kid q ?t T)"
  obtain w cs where S: "ANode q w cs \<in> set (subtrees T)" using addr_subtrees [OF assms(1)] by blast
  have "trees_at (mx_nodes s) (Some q) None None (cs @ [?t])"
    using tree_at_subtree [OF _ subtrees_add_kid [OF S assms(3), of ?t]] h by (fastforce simp: holds_tree_def)
  then have "tree_at (mx_nodes s) (Some q) (last_or None cs) None ?t" by simp
  then show "\<exists>m as. node_at (Some a) (mx_nodes s) = Inr m \<and> n_value m = VElement (Some n) as \<and> n_parent m = Some q"
    by auto
qed

lemma open_at_root: "open_at a e (\<lambda>as. ANode a (VElement (Some e) as) [])"
  by (auto simp: open_at_def)

lemma open_at_child:
  assumes "q \<in> set (addrs T)" "a \<notin> set (addrs T)" "distinct (addrs T)"
  shows "open_at a e (\<lambda>as. add_kid q (ANode a (VElement (Some e) as) []) T)"
proof -
  obtain w cs where S: "ANode q w cs \<in> set (subtrees T)" using addr_subtrees [OF assms(1)] by blast
  have "ANode a (VElement (Some e) as) [] \<in> set (subtrees (add_kid q (ANode a (VElement (Some e) as) []) T))" for as
  proof -
    let ?t = "ANode a (VElement (Some e) as) []"
    have "?t \<in> set (subtrees (ANode q w (cs @ [?t])))" by simp
    moreover have "set (subtrees U) \<subseteq> set (subtrees V)" if "U \<in> set (subtrees V)" for U V
      using that by (induction V) auto
    ultimately show ?thesis using subtrees_add_kid [OF S assms(3), of ?t] by blast
  qed
  then show ?thesis using set_value_add_kid [OF assms(2)] by (auto simp: open_at_def)
qed

section \<open>Making an element\<close>

definition makes ::
  "atree option \<Rightarrow> nat option \<Rightarrow> string \<Rightarrow> (nat \<Rightarrow> ((string \<times> string option) list \<Rightarrow> atree) \<Rightarrow> bool) \<Rightarrow> bool" where
  "makes U parent name G \<longleftrightarrow> (\<forall>v s. sees v s \<and> w_tree v = U \<and> w_parent v = parent \<longrightarrow>
     okX (mxmlNewElement parent name) s (\<lambda>r t. \<exists>a F. r = Some a \<and> open_at a name F \<and> G a F \<and>
       sees (v\<lparr>w_tree := Some (F [])\<rparr>) t) (\<lambda>(_ :: unit) _. False))"

lemma sees_step:
  assumes "sees v s" "heap_step s t" "holds_tree t U"
  shows "sees (v\<lparr>w_tree := Some U\<rparr>) t"
  using assms(1,3) memory_short_step [OF assms(2)] by (simp add: sees_def heap_step_fields [OF assms(2)])

lemma makes_root: "makes None None name (\<lambda>a F. F = (\<lambda>as. ANode a (VElement (Some name) as) []))"
  unfolding makes_def
proof (intro allI impI, elim conjE)
  fix v s assume s: "sees v s"
  have m: "\<not> memory_short s" using s by (simp add: sees_def)
  show "okX (mxmlNewElement None name) s (\<lambda>r t. \<exists>a F. r = Some a \<and> open_at a name F \<and>
      F = (\<lambda>as. ANode a (VElement (Some name) as) []) \<and> sees (v\<lparr>w_tree := Some (F [])\<rparr>) t) (\<lambda>(_ :: unit) _. False)"
    by (rule okX_mono [OF okX_mxmlNewElement_root [where T = None]])
      (use m in \<open>auto simp: new_root_def open_at_root intro: sees_step [OF s]\<close>)
qed

lemma makes_child:
  assumes "p \<in> set (addrs T)"
  shows "makes (Some T) (Some p) name (\<lambda>a F. F = (\<lambda>as. add_kid p (ANode a (VElement (Some name) as) []) T) \<and>
    a \<notin> set (addrs T) \<and> distinct (addrs T))"
  unfolding makes_def
proof (intro allI impI, elim conjE)
  fix v s assume s: "sees v s" "w_tree v = Some T"
  have m: "\<not> memory_short s" and h: "holds_tree s T" using s by (auto simp: sees_def)
  then have d: "distinct (addrs T)" by (simp add: holds_tree_def)
  let ?a = "length (mx_nodes s)"
  have a: "?a \<notin> set (addrs T)" using tree_at_bound [OF h] by blast
  show "okX (mxmlNewElement (Some p) name) s (\<lambda>r t. \<exists>a F. r = Some a \<and> open_at a name F \<and>
      (F = (\<lambda>as. add_kid p (ANode a (VElement (Some name) as) []) T) \<and> a \<notin> set (addrs T) \<and> distinct (addrs T)) \<and>
      sees (v\<lparr>w_tree := Some (F [])\<rparr>) t) (\<lambda>(_ :: unit) _. False)"
    by (rule okX_mono [OF okX_mxmlNewElement_child [OF h assms]])
      (use m a d open_at_child [OF assms a d] in \<open>auto simp: new_child_def intro: sees_step [OF s(1)]\<close>)
qed

section \<open>Tags\<close>

lemma see_note_first:
  assumes "sees v s" "\<And>t. sees (v\<lparr>w_first := (if w_first v = None then Some a else w_first v)\<rparr>) t \<Longrightarrow> Q () t"
  shows "okX (note_first (Some a)) s Q E"
proof -
  have "sees (v\<lparr>w_first := (if w_first v = None then Some a else w_first v)\<rparr>)
      (if ld_first s = None then s\<lparr>ld_first := Some a\<rparr> else s)"
    using assms(1) by (auto simp: sees_def memory_short_def)
  then show ?thesis using assms(2) by (simp add: note_first_def)
qed

lemma see_enter:
  assumes "sees v s" "\<And>t. sees (v\<lparr>w_parent := Some a, w_type := MXML_TEXT\<rparr>) t \<Longrightarrow> Q () t"
  shows "okX (enter (Some a)) s Q E"
proof -
  have "sees (v\<lparr>w_parent := Some a, w_type := MXML_TEXT\<rparr>) (s\<lparr>ld_parent := Some a, ld_type := MXML_TEXT\<rparr>)"
    using assms(1) by (auto simp: sees_def memory_short_def)
  then show ?thesis using assms(2) by (simp add: enter_def)
qed

abbreviation entered :: "view \<Rightarrow> atree \<Rightarrow> nat \<Rightarrow> string \<Rightarrow> view" where
  "entered v U a cs \<equiv> v\<lparr>w_tree := Some U, w_first := (if w_first v = None then Some a else w_first v), w_parent := Some a,
     w_type := MXML_TEXT, w_buffer := [], w_text := cs\<rparr>"

lemma see_open_end:
  assumes "sees v s" "w_tree v = Some U"
    and q: "\<And>t. sees (v\<lparr>w_first := (if w_first v = None then Some a else w_first v), w_parent := Some a, w_type := MXML_TEXT\<rparr>) t \<Longrightarrow> Q True t"
  shows "okX (thenX (note_first (Some a)) (if 62 = EOF then retX False
      else thenX (whenX (62 \<noteq> (47 :: int)) (enter (Some a))) (retX True))) s Q E"
proof -
  have "okX (note_first (Some a)) s (\<lambda>_ s. okX (enter (Some a)) s (\<lambda>_. Q True) E) E"
    by (intro see_note_first [OF assms(1)] see_enter q) simp
  then show ?thesis by (simp add: EOF_def)
qed

abbreviation opened :: "view \<Rightarrow> atree \<Rightarrow> nat \<Rightarrow> string \<Rightarrow> view" where
  "opened v U a cs \<equiv> v\<lparr>w_tree := Some U, w_text := cs, w_first := (if w_first v = None then Some a else w_first v),
     w_parent := Some a, w_type := MXML_TEXT\<rparr>"

lemma see_open_tag:
  fixes E :: "unit \<Rightarrow> mx_state \<Rightarrow> bool"
  assumes "sees v s" "w_tree v = U" "w_parent v = par" "par = None \<Longrightarrow> w_first v = None" "makes U par name G"
    and "w_name v = None" "w_value v = None" "distinct (map fst bs)" "list_all is_attr bs"
    and ch: "ch = (if bs = [] then 62 else 32)"
    and w: "w_text v = (if bs = [] then cs else tl (concat (map print_attr bs)) @ CHR ''>'' # cs)"
    and q: "\<And>t a F. G a F \<Longrightarrow> sees (opened v (F (map (map_prod id Some) bs)) a cs) t \<Longrightarrow> Q True t"
  shows "okX (open_tag name ch) s Q E"
proof -
  let ?as = "map (map_prod id Some) bs"
  let ?behind = "\<lambda>node ch. thenX (note_first node) (if ch = EOF then retX False
        else thenX (whenX (ch \<noteq> 47) (enter node)) (retX True))"
  have last: "okX (?behind (Some a) 62) t Q E" if "G a F" "sees (v\<lparr>w_tree := Some (F ?as), w_text := cs\<rparr>) t" for a F t
    by (rule see_open_end [OF that(2)], simp, rule q [OF that(1)], erule sees_eq) (cases v, simp)
  define R where "R = (\<lambda>node. bindX (if mxml_isspace ch then bindX (mxml_parse_element node) (\<lambda>ch. if ch = EOF then stopX () else retX ch)
        else if ch = 47 then bindX mxml_string_getc (\<lambda>ch. if ch \<noteq> 62 then thenX (mxmlDelete node) (stopX ()) else retX 47)
        else retX ch) (?behind node))"
  have rest: "okX (R (Some a)) t Q E" if G: "G a F" and o: "open_at a name F" and t: "sees (v\<lparr>w_tree := Some (F [])\<rparr>) t" for a F t
  proof (cases "bs = []")
    case True
    have "sees (v\<lparr>w_tree := Some (F ?as), w_text := cs\<rparr>) t"
      by (rule sees_eq [OF t]) (use w True in \<open>cases v, simp\<close>)
    then show ?thesis using last [OF G] ch True by (simp add: R_def mxml_isspace_def del: okX_thenX)
  next
    case False
    have "okX (mxml_parse_element (Some a)) t (\<lambda>ch t. ch = 62 \<and> okX (?behind (Some a) 62) t Q E) E"
    proof (rule see_parse_element [OF t, where F = F and bs = bs and cs = cs, OF _ _ _ o], goal_cases)
      case (8 u)
      have "sees (v\<lparr>w_tree := Some (F ?as), w_text := cs\<rparr>) u"
        by (rule sees_eq [OF 8]) (cases v, simp)
      then show ?case using last [OF G] by (simp add: EOF_def del: okX_thenX)
    qed (use assms False in simp_all)
    then show ?thesis
      using ch False by (simp add: R_def mxml_isspace_def del: okX_thenX) (erule okX_mono; simp add: EOF_def del: okX_thenX)
  qed
  have tag: "open_tag name ch = bindX (getX ld_parent) (\<lambda>parent. bindX (getX ld_first) (\<lambda>first.
     if parent = None \<and> first \<noteq> None then stopX () else
     bindX (mxmlNewElement parent name) (\<lambda>node. if node = None then stopX () else R node)))"
    by (simp only: open_tag_def R_def)
  have new: "okX (mxmlNewElement par name) s (\<lambda>r t. okX (if r = None then stopX () else R r) t Q E) E"
  proof (rule okX_mono)
    show "okX (mxmlNewElement par name) s (\<lambda>r t. \<exists>a F. r = Some a \<and> open_at a name F \<and> G a F \<and>
       sees (v\<lparr>w_tree := Some (F [])\<rparr>) t) (\<lambda>(_ :: unit) _. False)"
      using assms(1-3,5) by (simp add: makes_def)
  qed (use rest in auto)
  have "ld_parent s = par" "\<not> (par = None \<and> ld_first s \<noteq> None)"
    using sees_fields(2,3) [OF assms(1)] assms(3,4) by metis+
  then show ?thesis using new by (simp only: tag okX_bindX okX_getX if_False)
qed

lemma see_close_tag:
  assumes "sees v s" "w_tree v = Some (C Ks)" "around C p n par" "w_parent v = Some p"
    and q: "\<And>t. sees (v\<lparr>w_parent := par\<rparr>) t \<Longrightarrow> Q True t"
  shows "okX (close_tag (CHR ''/'' # n) 62) s Q E"
proof -
  have "holds_tree s (C Ks)" "ld_parent s = Some p" using assms(1,2,4) by (auto simp: sees_def)
  moreover obtain m as where "node_at (Some p) (mx_nodes s) = Inr m" "n_value m = VElement (Some n) as" "n_parent m = par"
    using assms(3) calculation(1) by (fastforce simp: around_def)
  moreover have "sees (v\<lparr>w_parent := par\<rparr>) (s\<lparr>ld_parent := par\<rparr>)"
    using assms(1) by (simp add: sees_def memory_short_def)
  ultimately show ?thesis using q by (simp add: close_tag_def element_name_def readX_def)
qed

lemma see_buffer:
  assumes "sees v s" "list_all plain (w_buffer v)" "Q (w_buffer v) s"
  shows "okX (terminated ld_buffer) s Q E"
  by (rule see_terminated) (use sees_buffers(1) [OF assms(1)] sees_fields(6) [OF assms(1)] assms(2,3) in auto)

lemma name_first: "is_name name \<Longrightarrow> \<exists>f fs. name = f # fs \<and> name_char f \<and> f \<notin> {CHR ''?'', CHR ''!'', CHR ''/''}"
  by (cases name) (auto simp: is_name_def dest: name_char_code(4))

definition tag_of :: "string \<Rightarrow> int \<Rightarrow> (unit, bool, mx_state) xe" where
  "tag_of buffer ch = (if buffer = ''!--'' then comment_tag
            else if buffer = ''![CDATA['' then cdata_tag
            else if take 1 buffer = ''?'' then directive_tag
            else if take 1 buffer = ''!'' then declaration_tag ch
            else if take 1 buffer = ''/'' then close_tag buffer ch
            else open_tag buffer ch)"

lemma tag_of_name: "is_name name \<Longrightarrow> tag_of name = open_tag name"
  using name_first [of name] by (auto simp: tag_of_def)

lemma tag_of_close: "tag_of (CHR ''/'' # n) = close_tag (CHR ''/'' # n)"
  by (auto simp: tag_of_def)

text \<open>A tag: its name, what it does, and the buffer is empty again.\<close>

lemma see_read_tag:
  assumes "sees v s" "w_text v = x @ c # cs" "x = f # fs" "f \<notin> {CHR ''?'', CHR ''!''}"
    "name_char f \<or> f = CHR ''/''" "list_all name_char fs" "c = CHR '' '' \<or> c = CHR ''>'' "
    and tag: "\<And>t. sees (v\<lparr>w_text := cs, w_buffer := x\<rparr>) t \<Longrightarrow>
      okX (tag_of x (code c)) t (\<lambda>go u. go \<and> (\<exists>w. sees w u \<and> P w)) E"
    and q: "\<And>t w. P w \<Longrightarrow> sees (w\<lparr>w_buffer := []\<rparr>) t \<Longrightarrow> Q True t"
  shows "okX read_tag s Q E"
proof -
  let ?rest = "\<lambda>ch. bindX (terminated ld_buffer) (\<lambda>buffer. bindX (tag_of buffer ch) (\<lambda>go_on.
     thenX (whenX go_on (start_with ld_buffer_update [])) (retX go_on)))"
  have rest: "okX (?rest (code c)) t Q E" if t: "sees (v\<lparr>w_text := cs, w_buffer := x\<rparr>) t" for t
  proof -
    have plains: "list_all plain x"
      using assms(5,6) name_char_code(1) by (auto simp: assms(3) list_all_iff plain_def)
    have "okX (tag_of x (code c)) t (\<lambda>go u. okX (thenX (whenX go (start_with ld_buffer_update [])) (retX go)) u Q E) E"
    proof (rule okX_mono [OF tag [OF t]])
      fix go u assume "go \<and> (\<exists>w. sees w u \<and> P w)"
      then obtain w where "go" "sees w u" "P w" by blast
      then show "okX (thenX (whenX go (start_with ld_buffer_update [])) (retX go)) u Q E"
        by simp (rule see_start_buffer, assumption, rule q)
    qed simp
    then show ?thesis
      unfolding okX_bindX [of "terminated ld_buffer"] okX_bindX [of "tag_of b ch" for b ch]
      by (intro see_buffer [OF t]) (use plains in simp_all)
  qed
  have "okX (start_with ld_buffer_update []) s (\<lambda>_ t. okX (readX tag_round ()) t (\<lambda>ch t. okX (?rest ch) t Q E) E) E"
  proof (rule see_start_buffer [OF assms(1)])
    fix t assume t: "sees (v\<lparr>w_buffer := []\<rparr>) t"
    show "okX (readX tag_round ()) t (\<lambda>ch t. okX (?rest ch) t Q E) E"
    proof (rule see_tag_char [OF t, of f "fs @ c # cs"], goal_cases)
      case (5 u)
      show ?case
      proof (rule see_tag_name [OF 5, of fs c cs f fs], goal_cases)
        case (6 y)
        have "sees (v\<lparr>w_text := cs, w_buffer := x\<rparr>) y" by (rule sees_eq [OF 6]) (cases v, simp add: assms(3))
        then show ?case by (rule rest)
      qed (use assms in auto)
    qed (use assms in auto)
  qed
  then show ?thesis by (simp add: read_tag_def tag_of_def)
qed

section \<open>Rounds of the main loop\<close>

text \<open>White space before a tag becomes a text node when the tag begins.\<close>

definition flushed :: "nat \<Rightarrow> view \<Rightarrow> view \<Rightarrow> bool" where
  "flushed p v w \<longleftrightarrow> \<not> w_space v \<and> w = v \<or> w_space v \<and> (\<exists>a T. w_tree v = Some T \<and>
     w = v\<lparr>w_tree := Some (add_kid p (ANode a (VText True (Some [])) []) T), w_space := False\<rparr>)"

lemma see_lone_whitespace:
  assumes "sees v s" "w_space v \<Longrightarrow> w_type v = MXML_TEXT \<and> w_parent v = Some p \<and> w_tree v = Some T \<and> p \<in> set (addrs T) \<and>
      w_first v \<noteq> None"
    and q: "\<And>w t. flushed p v w \<Longrightarrow> sees w t \<Longrightarrow> Q () t"
  shows "okX (lone_whitespace 60) s Q E"
proof (cases "w_space v")
  case False
  then have "Q () s" using q assms(1) by (simp add: flushed_def)
  then show ?thesis using False sees_fields(5) [OF assms(1)] by (simp add: lone_whitespace_def)
next
  case True
  then have v: "w_type v = MXML_TEXT" "w_parent v = Some p" "w_tree v = Some T" "p \<in> set (addrs T)" "w_first v \<noteq> None"
    using assms(2) by simp_all
  have h: "holds_tree s T" "\<not> memory_short s" using assms(1) v(3) by (auto simp: sees_def)
  let ?a = "length (mx_nodes s)"
  let ?U = "add_kid p (ANode ?a (VText True (Some [])) []) T"
  have "okX (mxmlNewText (Some p) True '''') s (\<lambda>r t. okX (note_first r) t (\<lambda>_ t. Q () (t\<lparr>ld_whitespace := False\<rparr>)) E) E"
  proof (rule okX_mono [OF okX_mxmlNewText_child [OF h(1) v(4)]])
    fix r t assume "new_child s p T (\<lambda>w. w = VText True (Some '''') \<or> memory_short s \<and> w = VText True None) r t"
    then have t: "heap_step s t" "holds_tree t ?U" using h(2) by (auto simp: new_child_def)
    have "sees (v\<lparr>w_tree := Some ?U\<rparr>) t" by (rule sees_step [OF assms(1) t])
    then have "sees (v\<lparr>w_tree := Some ?U, w_space := False\<rparr>) (t\<lparr>ld_whitespace := False\<rparr>)"
      by (simp add: sees_def memory_short_def)
    moreover have "flushed p v (v\<lparr>w_tree := Some ?U, w_space := False\<rparr>)" using True v(3) by (auto simp: flushed_def)
    moreover have "ld_first t \<noteq> None" using v(5) sees_fields(2) [OF assms(1)] heap_step_fields(4) [OF t(1)] by simp
    ultimately show "okX (note_first r) t (\<lambda>_ t. Q () (t\<lparr>ld_whitespace := False\<rparr>)) E" using q by (auto simp: note_first_def)
  qed simp
  then show ?thesis
    using sees_fields [OF assms(1)] v True by (simp add: lone_whitespace_def)
qed

lemma value_before_none:
  assumes "sees v s" "w_buffer v = []" "\<not> mxml_isspace ch"
  shows "okX (value_before ch) s Q E = Q () s"
  using sees_fields(6) [OF assms(1)] assms(2,3) by (simp add: value_before_def buffer_used_def)

lemma see_load_tag:
  assumes "sees v s" "w_text v = CHR ''<'' # cs" "w_buffer v = []"
    and "w_space v \<Longrightarrow> w_type v = MXML_TEXT \<and> w_parent v = Some p \<and> w_tree v = Some T \<and> p \<in> set (addrs T) \<and> w_first v \<noteq> None"
    and q: "\<And>w t. flushed p (v\<lparr>w_text := cs\<rparr>) w \<Longrightarrow> sees w t \<Longrightarrow>
      okX read_tag t (\<lambda>go y. go \<and> left_of y \<le> length cs \<and> okX (readX load_round ()) y Q E) E"
  shows "okX (readX load_round u) s Q E"
proof (rule see_round [OF assms(1)], unfold load_round_def [of u] okX_bindX [of mxml_string_getc],
    rule see_char [OF assms(1,2)], goal_cases)
  case (2 t)
  let ?R = "\<lambda>r t. case r of Inl c \<Rightarrow> left_of t < length (w_text v) \<and> okX (readX load_round c) t Q E | Inr c \<Rightarrow> Q c t"
  have "okX (lone_whitespace 60) t (\<lambda>_ t. okX read_tag t (\<lambda>go y. ?R (if go then Inl () else Inr ()) y) E) E"
  proof (rule see_lone_whitespace [OF 2, of p T], goal_cases)
    case (2 w y)
    show ?case by (rule okX_mono [OF q [OF 2]]) (use assms(2) in auto)
  qed (use assms(4) in simp_all)
  then show ?case
    using assms(3) by (simp add: EOF_def mxml_isspace_def value_before_none [OF 2])
qed (simp add: plain_def)

lemma see_load_space:
  assumes "sees v s" "w_text v = CHR 0x0A # cs" "w_buffer v = []" "w_type v = MXML_TEXT"
    and q: "\<And>t. sees (v\<lparr>w_text := cs, w_space := True\<rparr>) t \<Longrightarrow> okX (readX load_round ()) t Q E"
  shows "okX (readX load_round u) s Q E"
proof (rule see_round [OF assms(1)], unfold load_round_def [of u] okX_bindX [of mxml_string_getc],
    rule see_char [OF assms(1,2)], goal_cases)
  case (2 t)
  have "sees (v\<lparr>w_text := cs, w_space := True\<rparr>) (t\<lparr>ld_whitespace := True\<rparr>)"
    using 2 by (simp add: sees_def memory_short_def)
  then have "okX (readX load_round ()) (t\<lparr>ld_whitespace := True\<rparr>) Q E" by (rule q)
  then show ?case
    using sees_fields(1,4,6) [OF 2] assms(2-4)
    by (simp add: EOF_def mxml_isspace_def value_before_def lone_whitespace_def buffer_used_def)
qed (simp add: plain_def)

lemma see_load_end:
  assumes "sees v s" "w_text v = CHR 0x00 # cs" "Q () s"
  shows "okX (readX load_round u) s Q E"
proof (rule see_round [OF assms(1)])
  have c: "in_encoding s = ENCODE_UTF8" "in_text s = CHR 0x00 # cs"
    using sees_fields(1,7) [OF assms(1)] assms(2) by simp_all
  show "okX (load_round u) s (\<lambda>r t. case r of Inl c \<Rightarrow> left_of t < length (w_text v) \<and> okX (readX load_round c) t Q E
      | Inr c \<Rightarrow> Q c t) E"
    unfolding load_round_def [of u] okX_bindX [of mxml_string_getc] okX_getc_end [OF c] using assms(3) by simp
qed

section \<open>Documents\<close>

text \<open>Elements with their attributes; \<open>Other\<close> is a line break between them.\<close>

fun print_doc :: "mxml_node_t \<Rightarrow> string" where
  "print_doc (Element n attrs ks) = CHR ''<'' # n @ concat (map print_attr attrs) @ CHR ''>'' #
     concat (map print_doc ks) @ ''</'' @ n @ ''>''"
| "print_doc Other = [CHR 0x0A]"

fun spaced :: "cursor \<Rightarrow> bool" where
  "spaced [] = True"
| "spaced [k] = True"
| "spaced (k # l # ks) = ((k = Other \<longrightarrow> l \<noteq> Other) \<and> spaced (l # ks))"

fun plain_doc :: "mxml_node_t \<Rightarrow> bool" where
  "plain_doc (Element n attrs ks) \<longleftrightarrow> is_name n \<and> distinct (map fst attrs) \<and> list_all is_attr attrs \<and> spaced ks \<and>
     (\<forall>k \<in> set ks. plain_doc k)"
| "plain_doc Other = True"

text \<open>Inside of an element \<open>p\<close> of the tree.\<close>

definition within :: "view \<Rightarrow> atree \<Rightarrow> nat \<Rightarrow> bool" where
  "within v T p \<longleftrightarrow> w_tree v = Some T \<and> p \<in> set (addrs T) \<and> w_parent v = Some p \<and> w_first v \<noteq> None \<and>
     w_type v = MXML_TEXT \<and> w_buffer v = [] \<and> w_name v = None \<and> w_value v = None"

lemma flushed_within:
  assumes "flushed p (v\<lparr>w_text := cs\<rparr>) w" "within v (C Ks) p" "around C p n par"
  obtains L where "map tree_doc L = (if w_space v then [Other] else [])" "within w (C (Ks @ L)) p"
    "w = v\<lparr>w_text := cs, w_tree := Some (C (Ks @ L)), w_space := False\<rparr>"
proof (cases "w_space v")
  case False
  then have "w = v\<lparr>w_text := cs, w_tree := Some (C (Ks @ [])), w_space := False\<rparr>"
    using assms(1,2) by (cases v) (simp add: flushed_def within_def)
  moreover have "within w (C (Ks @ [])) p" using calculation assms(2) by (simp add: within_def)
  ultimately show ?thesis using that [of "[]"] False by simp
next
  case True
  then obtain a where w: "w = v\<lparr>w_text := cs, w_tree := Some (add_kid p (ANode a (VText True (Some [])) []) (C Ks)), w_space := False\<rparr>"
    using assms(1,2) by (auto simp: flushed_def within_def)
  let ?L = "[ANode a (VText True (Some [])) []]"
  have e: "add_kid p (ANode a (VText True (Some [])) []) (C Ks) = C (Ks @ ?L)" "p \<in> set (addrs (C (Ks @ ?L)))"
    using assms(3) by (auto simp: around_def)
  have "within w (C (Ks @ ?L)) p" using assms(2) e w by (simp add: within_def)
  then show ?thesis using that [of ?L] True w e by simp
qed

text \<open>The end of an element.\<close>

lemma see_end:
  fixes E :: "unit \<Rightarrow> mx_state \<Rightarrow> bool"
  assumes "sees v s" "within v (C Ks) p" "around C p n par" "is_name n" "w_text v = ''</'' @ n @ CHR ''>'' # cs"
    and q: "\<And>t L. map tree_doc L = (if w_space v then [Other] else []) \<Longrightarrow>
      sees (v\<lparr>w_tree := Some (C (Ks @ L)), w_parent := par, w_space := False, w_text := cs\<rparr>) t \<Longrightarrow>
      okX (readX load_round ()) t Q E"
  shows "okX (readX load_round u) s Q E"
proof (rule see_load_tag [OF assms(1), of "CHR ''/'' # n @ CHR ''>'' # cs" p "C Ks"], goal_cases)
  case (4 w t)
  obtain L where L: "map tree_doc L = (if w_space v then [Other] else [])" "within w (C (Ks @ L)) p"
    and w: "w = v\<lparr>w_text := CHR ''/'' # n @ CHR ''>'' # cs, w_tree := Some (C (Ks @ L)), w_space := False\<rparr>"
    using flushed_within [OF 4(1) assms(2,3)] by metis
  let ?P = "\<lambda>x. x = w\<lparr>w_text := cs, w_buffer := CHR ''/'' # n, w_parent := par\<rparr>"
  show ?case
  proof (rule see_read_tag [OF 4(2), of "CHR ''/'' # n" "CHR ''>''" cs "CHR ''/''" n ?P], goal_cases)
    case (7 y)
    have "okX (close_tag (CHR ''/'' # n) 62) y (\<lambda>go z. go \<and> (\<exists>x. sees x z \<and> ?P x)) E"
      by (rule see_close_tag [OF 7, of C "Ks @ L" p n par]) (use L(2) assms(3) w in \<open>auto simp: within_def\<close>)
    then show ?case by (simp add: tag_of_close)
  next
    case (8 y x)
    have "sees (v\<lparr>w_tree := Some (C (Ks @ L)), w_parent := par, w_space := False, w_text := cs\<rparr>) y"
      by (rule sees_eq [OF 8(2)]) (use 8(1) w assms(2) in \<open>cases v, simp add: within_def\<close>)
    then show ?case using q [OF L(1)] sees_fields(1) by fastforce
  qed (use assms(4) w in \<open>simp_all add: is_name_def\<close>)
qed (use assms(2,5) in \<open>simp_all add: within_def\<close>)

text \<open>From the start of an element, \<open>U\<close> the tree before it, to its first child.\<close>

lemma see_begin:
  fixes E :: "unit \<Rightarrow> mx_state \<Rightarrow> bool"
  assumes "sees v s" "w_tree v = U" "w_parent v = par" "par = None \<Longrightarrow> w_first v = None" "makes U par n G"
    and "w_name v = None" "w_value v = None" "plain_doc (Element n bs ks)"
    and w: "w_text v = tl (print_doc (Element n bs ks)) @ cs"
    and q: "\<And>t a F. G a F \<Longrightarrow> sees (v\<lparr>w_tree := Some (F (map (map_prod id Some) bs)),
        w_text := concat (map print_doc ks) @ ''</'' @ n @ CHR ''>'' # cs,
        w_first := (if w_first v = None then Some a else w_first v), w_parent := Some a, w_type := MXML_TEXT, w_buffer := []\<rparr>) t \<Longrightarrow>
      okX (readX load_round ()) t Q E"
  shows "okX read_tag s (\<lambda>go y. go \<and> left_of y \<le> length (w_text v) \<and> okX (readX load_round ()) y Q E) E"
proof -
  let ?rest = "concat (map print_doc ks) @ ''</'' @ n @ CHR ''>'' # cs"
  let ?as = "concat (map print_attr bs)"
  have n: "is_name n" and bs: "distinct (map fst bs)" "list_all is_attr bs" using assms(8) by simp_all
  obtain f fs where f: "n = f # fs" "name_char f" "f \<notin> {CHR ''?'', CHR ''!'', CHR ''/''}" using name_first [OF n] by blast
  define c cs' where "c = (if bs = [] then CHR ''>'' else CHR '' '')"
    and "cs' = (if bs = [] then ?rest else tl ?as @ CHR ''>'' # ?rest)"
  have t: "?as @ CHR ''>'' # ?rest = c # cs'" by (cases bs) (auto simp: c_def cs'_def)
  let ?P = "\<lambda>x. \<exists>a F. G a F \<and> x = opened (v\<lparr>w_text := cs', w_buffer := n\<rparr>) (F (map (map_prod id Some) bs)) a ?rest"
  show ?thesis
  proof (rule see_read_tag [OF assms(1), of n c cs' f fs ?P], goal_cases)
    case 1
    then show ?case using w t by simp
  next
    case (7 y)
    have "okX (open_tag n (code c)) y (\<lambda>go z. go \<and> (\<exists>x. sees x z \<and> ?P x)) E"
    proof (rule see_open_tag [OF 7, of U par n G bs "code c" ?rest], goal_cases)
      case (11 z a F)
      then show ?case by blast
    qed (use assms(2-7) bs in \<open>simp_all add: c_def cs'_def\<close>)
    then show ?case by (simp add: tag_of_name [OF n])
  next
    case (8 y x)
    then obtain a F where x: "G a F" "x = opened (v\<lparr>w_text := cs', w_buffer := n\<rparr>) (F (map (map_prod id Some) bs)) a ?rest"
      by blast
    have y: "sees (v\<lparr>w_tree := Some (F (map (map_prod id Some) bs)), w_text := ?rest,
        w_first := (if w_first v = None then Some a else w_first v), w_parent := Some a, w_type := MXML_TEXT, w_buffer := []\<rparr>) y"
      by (rule sees_eq [OF 8(2)]) (use x in \<open>cases v, simp\<close>)
    then show ?case using q [OF x(1) y] w sees_fields(1) [OF y] by simp
  qed (use f n in \<open>auto simp: is_name_def c_def\<close>)
qed

definition reads_element :: "mxml_node_t \<Rightarrow> (unit \<Rightarrow> mx_state \<Rightarrow> bool) \<Rightarrow> (unit \<Rightarrow> mx_state \<Rightarrow> bool) \<Rightarrow> bool" where
  "reads_element d Q E \<longleftrightarrow> (\<forall>w t T p cs. d \<noteq> Other \<longrightarrow> sees w t \<longrightarrow> within w T p \<longrightarrow> \<not> w_space w \<longrightarrow>
     w_text w = tl (print_doc d) @ cs \<longrightarrow>
     (\<forall>D y. tree_doc D = d \<longrightarrow> sees (w\<lparr>w_tree := Some (add_kid p D T), w_text := cs\<rparr>) y \<longrightarrow>
        okX (readX load_round ()) y Q E) \<longrightarrow>
     okX read_tag t (\<lambda>go y. go \<and> left_of y \<le> length (w_text w) \<and> okX (readX load_round ()) y Q E) E)"

lemma reads_elementD:
  assumes "reads_element d Q E" "d \<noteq> Other" "sees w t" "within w T p" "\<not> w_space w" "w_text w = tl (print_doc d) @ cs"
    "\<And>D y. tree_doc D = d \<Longrightarrow> sees (w\<lparr>w_tree := Some (add_kid p D T), w_text := cs\<rparr>) y \<Longrightarrow>
        okX (readX load_round ()) y Q E"
  shows "okX read_tag t (\<lambda>go y. go \<and> left_of y \<le> length (w_text w) \<and> okX (readX load_round ()) y Q E) E"
  using assms unfolding reads_element_def by blast

text \<open>White space at the end is still to be made a node.\<close>

definition pending :: "cursor \<Rightarrow> bool" where
  "pending ks \<longleftrightarrow> ks \<noteq> [] \<and> last ks = Other"

definition settled :: "cursor \<Rightarrow> cursor" where
  "settled ks = (if pending ks then butlast ks else ks)"

lemma settled_pending: "settled ks @ (if pending ks then [Other] else []) = ks"
  by (cases ks rule: rev_cases) (auto simp: settled_def pending_def)

lemma pending_Cons: "k \<noteq> Other \<Longrightarrow> pending (xs @ k # ks) = pending ks"
  by (auto simp: pending_def)

lemma settled_Cons: "k \<noteq> Other \<Longrightarrow> settled (xs @ k # ks) = xs @ k # settled ks"
  by (auto simp: settled_def pending_Cons butlast_append) (auto simp: pending_def)

lemma settled_space [simp]: "settled (if b then [Other] else []) = []" "pending (if b then [Other] else []) = b"
  by (simp_all add: settled_def pending_def)

lemma see_children:
  assumes "\<And>k. k \<in> set ks \<Longrightarrow> reads_element k Q E" "\<And>k. k \<in> set ks \<Longrightarrow> plain_doc k"
    and "sees v s" "within v (C Ks) a" "around C a n par" "spaced ((if w_space v then [Other] else []) @ ks)"
    and "w_text v = concat (map print_doc ks) @ cs"
    and q: "\<And>t L. map tree_doc L = settled ((if w_space v then [Other] else []) @ ks) \<Longrightarrow>
      sees (v\<lparr>w_tree := Some (C (Ks @ L)), w_space := pending ((if w_space v then [Other] else []) @ ks), w_text := cs\<rparr>) t \<Longrightarrow>
      okX (readX load_round ()) t Q E"
  shows "okX (readX load_round ()) s Q E"
  using assms
proof (induction ks arbitrary: v s Ks)
  case Nil
  have "sees (v\<lparr>w_tree := Some (C (Ks @ [])), w_space := w_space v, w_text := cs\<rparr>) s"
    by (rule sees_eq [OF Nil.prems(3)]) (use Nil.prems(4,7) in \<open>cases v, simp add: within_def\<close>)
  then show ?case using Nil.prems(8) [of "[]" s] by simp
next
  case (Cons k ks)
  let ?behind = "concat (map print_doc ks) @ cs"
  have IH: "okX (readX load_round ()) t Q E"
    if "sees w t" "within w (C Ls) a" "spaced ((if w_space w then [Other] else []) @ ks)" "w_text w = ?behind"
      "\<And>y L. map tree_doc L = settled ((if w_space w then [Other] else []) @ ks) \<Longrightarrow>
        sees (w\<lparr>w_tree := Some (C (Ls @ L)), w_space := pending ((if w_space w then [Other] else []) @ ks), w_text := cs\<rparr>) y \<Longrightarrow>
        okX (readX load_round ()) y Q E" for w t Ls
    by (rule Cons.IH [OF Cons.prems(1,2) that(1,2) Cons.prems(5) that(3,4,5)]) auto
  show ?case
  proof (cases "k = Other")
    case True
    then have ns: "\<not> w_space v" "spaced (Other # ks)" using Cons.prems(6) by (auto split: if_splits)
    show ?thesis
    proof (rule see_load_space [OF Cons.prems(3), of ?behind], goal_cases)
      case (4 t)
      show ?case
      proof (rule IH [OF 4, of Ks], goal_cases)
        case (4 y L)
        have "sees (v\<lparr>w_tree := Some (C (Ks @ L)), w_space := pending (Other # ks), w_text := cs\<rparr>) y"
          by (rule sees_eq [OF 4(2)]) (cases v, simp)
        then show ?case using Cons.prems(8) [of L y] 4(1) ns(1) True by simp
      qed (use Cons.prems(4) ns(2) in \<open>auto simp: within_def\<close>)
    qed (use Cons.prems(4,7) True in \<open>auto simp: within_def\<close>)
  next
    case False
    then obtain m bs ls where k: "k = Element m bs ls" by (cases k) auto
    have sp: "spaced ks" using Cons.prems(6) False by (cases ks) (auto split: if_splits)
    have lt: "print_doc k = CHR ''<'' # tl (print_doc k)" by (simp add: k)
    show ?thesis
    proof (rule see_load_tag [OF Cons.prems(3), of "tl (print_doc k) @ ?behind" a "C Ks"], goal_cases)
      case (4 w t)
      obtain L where L: "map tree_doc L = (if w_space v then [Other] else [])" "within w (C (Ks @ L)) a"
        and w: "w = v\<lparr>w_text := tl (print_doc k) @ ?behind, w_tree := Some (C (Ks @ L)), w_space := False\<rparr>"
        using flushed_within [OF 4(1) Cons.prems(4,5)] by metis
      have "okX read_tag t (\<lambda>go y. go \<and> left_of y \<le> length (w_text w) \<and> okX (readX load_round ()) y Q E) E"
      proof (rule reads_elementD [OF _ False 4(2) L(2)])
        show "reads_element k Q E" using Cons.prems(1) by simp
        show "\<not> w_space w" "w_text w = tl (print_doc k) @ ?behind" using w by simp_all
        fix D y assume D: "tree_doc D = k" and y: "sees (w\<lparr>w_tree := Some (add_kid a D (C (Ks @ L))), w_text := ?behind\<rparr>) y"
        show "okX (readX load_round ()) y Q E"
        proof -
          have e: "add_kid a D (C (Ks @ L)) = C (Ks @ L @ [D])" "a \<in> set (addrs (C (Ks @ L @ [D])))"
            using Cons.prems(5) by (auto simp: around_def)
          show ?thesis
          proof (rule IH [OF y, of "Ks @ L @ [D]"], goal_cases)
            case (4 z M)
            have "sees (v\<lparr>w_tree := Some (C (Ks @ L @ D # M)), w_space := pending ((if w_space v then [Other] else []) @ k # ks),
                w_text := cs\<rparr>) z"
              by (rule sees_eq [OF 4(2)]) (use pending_Cons [OF False] in \<open>cases v, simp add: w\<close>)
            moreover have "map tree_doc (L @ D # M) = settled ((if w_space v then [Other] else []) @ k # ks)"
              using 4(1) L(1) D w settled_Cons [OF False] by simp
            ultimately show ?case using Cons.prems(8) by blast
          qed (use L(2) e sp w in \<open>auto simp: within_def\<close>)
        qed
      qed
      then show ?case by (rule okX_mono) (use w in auto)
    qed (use Cons.prems(4,7) lt in \<open>auto simp: within_def\<close>)
  qed
qed

lemma see_kids:
  fixes E :: "unit \<Rightarrow> mx_state \<Rightarrow> bool"
  assumes "\<And>k. k \<in> set ks \<Longrightarrow> reads_element k Q E" "\<And>k. k \<in> set ks \<Longrightarrow> plain_doc k"
    and "sees v s" "within v (C Ks) a" "around C a n par" "is_name n" "spaced ((if w_space v then [Other] else []) @ ks)"
    and "w_text v = concat (map print_doc ks) @ ''</'' @ n @ CHR ''>'' # cs"
    and q: "\<And>t L. map tree_doc L = (if w_space v then [Other] else []) @ ks \<Longrightarrow>
      sees (v\<lparr>w_tree := Some (C (Ks @ L)), w_parent := par, w_space := False, w_text := cs\<rparr>) t \<Longrightarrow>
      okX (readX load_round ()) t Q E"
  shows "okX (readX load_round ()) s Q E"
proof (rule see_children [where C = C and Ks = Ks and ks = ks and a = a and n = n and par = par and
      cs = "''</'' @ n @ CHR ''>'' # cs", OF assms(1,2,3)], goal_cases)
  case (7 t L)
  show ?case
  proof (rule see_end [OF 7(2), of C "Ks @ L" a n par cs], goal_cases)
    case (5 y M)
    have "sees (v\<lparr>w_tree := Some (C (Ks @ L @ M)), w_parent := par, w_space := False, w_text := cs\<rparr>) y"
      by (rule sees_eq [OF 5(2)]) (cases v, simp)
    moreover have "map tree_doc (L @ M) = (if w_space v then [Other] else []) @ ks" 
      using 5(1) 7(1) settled_pending [of "(if w_space v then [Other] else []) @ ks"] by simp
    ultimately show ?case by (rule q [rotated])
  qed (use assms(4-6) in \<open>auto simp: within_def around_def\<close>)
qed (use assms(4-8) in auto)

lemma tree_doc_element: "map tree_doc L = ks \<Longrightarrow> tree_doc (ANode a (VElement (Some n) (map (map_prod id Some) bs)) L) = Element n bs ks"
  by (simp add: map_prod.comp comp_def flip: map_prod.identity) (simp add: map_prod_def case_prod_unfold)

lemma element_read: "plain_doc d \<Longrightarrow> reads_element d Q E"
proof (induction d)
  case (Element n bs ks)
  show ?case
    unfolding reads_element_def
  proof (intro allI impI)
    fix w t T p cs
    assume t: "sees w t" "within w T p" "\<not> w_space w" "w_text w = tl (print_doc (Element n bs ks)) @ cs"
      and q: "\<forall>D y. tree_doc D = Element n bs ks \<longrightarrow> sees (w\<lparr>w_tree := Some (add_kid p D T), w_text := cs\<rparr>) y \<longrightarrow>
        okX (readX load_round ()) y Q E"
    let ?as = "map (map_prod id Some) bs"
    have p: "p \<in> set (addrs T)" "w_tree w = Some T" "w_parent w = Some p" "w_name w = None" "w_value w = None"
      "w_first w \<noteq> None" "w_type w = MXML_TEXT" "w_buffer w = []"
      using t(2) by (simp_all add: within_def)
    show "okX read_tag t (\<lambda>go y. go \<and> left_of y \<le> length (w_text w) \<and> okX (readX load_round ()) y Q E) E"
    proof (rule see_begin [OF t(1) p(2,3) _ makes_child [OF p(1)] p(4,5) Element.prems t(4)], goal_cases)
      case (2 y a F)
      have a: "a \<notin> set (addrs T)" "distinct (addrs T)" and F: "F ?as = add_kid p (ANode a (VElement (Some n) ?as) []) T"
        using 2(1) by auto
      let ?C = "\<lambda>Ks. add_kid p (ANode a (VElement (Some n) ?as) Ks) T"
      show ?case
      proof (rule see_kids [where C = ?C and Ks = "[]" and ks = ks and a = a and n = n and par = "Some p" and cs = cs, OF _ _ 2(2)], goal_cases)
        case (8 z L)
        have "sees (w\<lparr>w_tree := Some (?C L), w_text := cs\<rparr>) z"
          by (rule sees_eq [OF 8(2)]) (use p t(3) in \<open>cases w, simp\<close>)
        moreover have "map tree_doc L = ks" using 8(1) t(3) by simp
        ultimately show ?case using q tree_doc_element [of L ks a n bs] by blast
      next
        case 3
        show ?case using p F a by (simp add: within_def)
      next
        case 4
        show ?case by (rule around_child [OF p(1) a])
      qed (use Element t(3) in auto)
    qed simp
  qed
qed (simp add: reads_element_def)

text \<open>The loader before the first character.\<close>

abbreviation first_view :: "string \<Rightarrow> view" where
  "first_view txt \<equiv> \<lparr>w_tree = None, w_first = None, w_parent = None, w_type = MXML_IGNORE, w_buffer = [], w_name = None,
     w_value = None, w_space = False, w_text = txt @ [CHR 0x00]\<rparr>"

lemma okX_load_from:
  fixes Q :: "unit \<Rightarrow> mx_state \<Rightarrow> bool" and R :: "nat option \<Rightarrow> mx_state \<Rightarrow> bool"
  assumes "\<And>k. ok k" "\<And>s. sees (first_view txt) s \<Longrightarrow> okX (readX load_round ()) s Q (\<lambda>_ _. False)"
    and "\<And>t. Q () t \<Longrightarrow> okX (load_end :: (unit, nat option, mx_state) xe) t R (\<lambda>_ _. False)"
  shows "okX (mxml_load_data :: (unit, nat option, mx_state) xe) (start_text txt ok) R (\<lambda>_ _. False)"
proof -
  let ?s = "start_text txt ok"
  let ?s0 = "?s\<lparr>malloc_calls := Suc (malloc_calls ?s), ld_buffer := new_buf 64, ld_parent := None, ld_first := None,
     ld_whitespace := False, in_encoding := ENCODE_UTF8, ld_type := MXML_IGNORE\<rparr>"
  have "sees (first_view txt) ?s0"
    using assms(1) by (simp add: sees_def holds_chars_def buf_ok_def new_buf_def start_text_def memory_short_def)
  then have "okX (catchX (readX load_round ()) (\<lambda>_. load_end) load_error :: (unit, nat option, mx_state) xe) ?s0 R
      (\<lambda>_ _. False)"
    by (intro okX_catchX okX_mono [OF assms(2)]) (auto intro: assms(3))
  then show ?thesis
    using assms(1) by (simp add: mxml_load_data_def start_text_def)
qed

lemma okX_load_print:
  assumes d: "plain_doc (Element n bs ks)" and "\<And>k. ok k"
  shows "okX (mxml_load_data :: (unit, nat option, mx_state) xe) (start_text (print_doc (Element n bs ks)) ok)
    (\<lambda>r t. \<exists>T. r = Some (addr T) \<and> holds_tree t T \<and> tree_doc T = Element n bs ks) (\<lambda>_ _. False)"
proof -
  let ?d = "Element n bs ks"
  let ?Q = "\<lambda>_ t. \<exists>T. ld_first t = Some (addr T) \<and> ld_parent t = None \<and> holds_tree t T \<and> tree_doc T = ?d \<and> b_alive (ld_buffer t)"
  let ?as = "map (map_prod id Some) bs"
  show ?thesis
  proof (rule okX_load_from [OF assms(2), of _ ?Q], goal_cases)
    case (1 s)
    let ?v = "first_view (print_doc ?d)"
    show ?case
    proof (rule see_load_tag [OF 1, of "tl (print_doc ?d) @ [CHR 0x00]" 0 "ANode 0 (VInteger 0) []"], goal_cases)
      case (4 w t)
      then have w: "w = ?v\<lparr>w_text := tl (print_doc ?d) @ [CHR 0x00]\<rparr>" by (simp add: flushed_def)
      have "okX read_tag t (\<lambda>go y. go \<and> left_of y \<le> length (w_text w) \<and> okX (readX load_round ()) y ?Q (\<lambda>_ _. False)) (\<lambda>_ _. False)"
      proof (rule see_begin [OF 4(2), of None None n _ bs ks "[CHR 0x00]", OF _ _ _ makes_root _ _ d], goal_cases)
        case (7 y a F)
        let ?C = "\<lambda>Ks. ANode a (VElement (Some n) ?as) Ks"
        show ?case
        proof (rule see_kids [where C = ?C and Ks = "[]" and ks = ks and a = a and n = n and par = None and cs = "[CHR 0x00]", OF _ _ 7(2)], goal_cases)
          case (1 k)
          then show ?case using d by (auto intro: element_read)
        next
          case (5)
          show ?case using d by simp
        next
          case (8 z L)
          have T: "tree_doc (?C L) = ?d" using tree_doc_element [of L ks a n bs] 8(1) w by simp
          have "?Q () z"
            using sees_fields(2,3) [OF 8(2)] sees_buffers(1) [OF 8(2)] 8(2) T w
            by (intro exI [of _ "?C L"]) (auto simp: sees_def buf_ok_def)
          then show ?case by (intro see_load_end [OF 8(2)]) simp_all
        qed (use d w 7(1) around_root in \<open>auto simp: within_def\<close>)
      qed (use w in simp_all)
      then show ?case by (rule okX_mono) (use w in auto)
    qed simp_all
  next
    case (2 t)
    then obtain T where "ld_first t = Some (addr T)" "ld_parent t = None" "holds_tree t T" "tree_doc T = ?d" "b_alive (ld_buffer t)"
      by blast
    then show ?case by (simp add: load_end_def free_buf_def holds_tree_def) blast
  qed
qed

lemma load_print:
  assumes "plain_doc d" "d \<noteq> Other" "\<And>k. ok k"
  shows "mxml_load ok (print_doc d) = Some [d]"
proof -
  obtain n bs ks where d: "d = Element n bs ks" using assms(2) by (cases d) auto
  show ?thesis
    using okX_load_print [of n bs ks ok] assms(1,3)
    by (cases "mxml_load_data (start_text (print_doc d) ok) :: ((unit + nat option) \<times> mx_state) result")
      (auto simp: d okX_def mxml_load_def mxmlLoadString_def holds_tree_doc split: sum.splits)
qed

section \<open>Files\<close>

text \<open>
  A file begins with the XML declaration, which becomes the root, open to the end. White space at
  the end of the file is lost.
\<close>

definition print_file :: "string \<Rightarrow> cursor \<Rightarrow> string" where
  "print_file h ks = ''<?'' @ h @ ''?>'' @ concat (map print_doc ks)"

definition file_doc :: "string \<Rightarrow> cursor \<Rightarrow> mxml_node_t" where
  "file_doc h ks = Element (CHR ''?'' # h @ ''?'') [] (settled ks)"

definition header_char :: "char \<Rightarrow> bool" where
  "header_char c \<longleftrightarrow> plain c \<and> c \<noteq> CHR ''>''"

definition plain_file :: "string \<Rightarrow> cursor \<Rightarrow> bool" where
  "plain_file h ks \<longleftrightarrow> list_all header_char h \<and> spaced ks \<and> list_all plain_doc ks"

lemma see_gather:
  assumes "sees v s" "w_text v = x @ CHR ''>'' # cs" "list_all header_char x" "ends (w_buffer v @ x)"
    and q: "\<And>t. sees (v\<lparr>w_text := cs, w_buffer := w_buffer v @ x\<rparr>) t \<Longrightarrow> Q 62 t"
  shows "okX (readX (gather_round ends) u) s Q E"
  using assms
proof (induction x arbitrary: v s u)
  case Nil
  have w: "w_text v = CHR ''>'' # cs" using Nil.prems(2) by simp
  have q: "Q 62 t" if "sees (v\<lparr>w_text := cs\<rparr>) t" for t
    by (rule Nil.prems(5), rule sees_eq [OF that]) (cases v, simp)
  show ?case
  proof (rule see_round [OF Nil.prems(1)], unfold gather_round_def [of _ u] okX_bindX, rule see_char [OF Nil.prems(1) w], goal_cases)
    case (2 t)
    then show ?case using q [of t] sees_fields(6) [OF 2] Nil.prems(4) by (simp add: EOF_def)
  qed (simp add: plain_def)
next
  case (Cons c x)
  have c: "plain c" "code c \<noteq> EOF" "code c \<noteq> 62"
    using Cons.prems(3) of_char_eq_iff [of c "CHR ''>''", where ?'a = nat]
    by (auto simp: header_char_def plain_def EOF_def simp del: of_char_eq_iff)
  have w: "w_text v = c # x @ CHR ''>'' # cs" using Cons.prems(2) by simp
  show ?case
  proof (rule see_round [OF Cons.prems(1)], unfold gather_round_def [of _ u] okX_bindX,
      rule see_char [OF Cons.prems(1) w c(1)], goal_cases)
    case (1 t)
    have "okX (add_buffer (code c)) t (\<lambda>_ t. left_of t < length (w_text v) \<and> okX (readX (gather_round ends) ()) t Q E) E"
    proof (rule see_add_buffer [OF 1 c(1)], goal_cases)
      case (1 y)
      have "okX (readX (gather_round ends) ()) y Q E"
      proof (rule Cons.IH [OF 1], goal_cases)
        case (4 z)
        show ?case by (rule Cons.prems(5), rule sees_eq [OF 4]) (cases v, simp)
      qed (use Cons.prems in simp_all)
      then show ?case using w sees_fields(1) [OF 1] by simp
    qed
    then show ?case using c(2,3) by simp
  qed
qed

lemma see_question:
  assumes "sees v s" "w_text v = CHR ''?'' # cs" "w_buffer v = []"
    and q: "\<And>t. sees (v\<lparr>w_text := cs, w_buffer := ''?''\<rparr>) t \<Longrightarrow> Q 63 t"
  shows "okX (readX tag_round u) s Q E"
proof (rule see_round [OF assms(1)], unfold tag_round_def [of u] okX_bindX [of mxml_string_getc],
    rule see_char [OF assms(1,2)], goal_cases)
  case (2 t)
  have "okX (add_buffer (code (CHR ''?''))) t (\<lambda>_ t. b_chars (ld_buffer t) = ''?'' \<and> Q 63 t) E"
  proof (rule see_add_buffer [OF 2], goal_cases)
    case (2 y)
    have y: "sees (v\<lparr>w_text := cs, w_buffer := ''?''\<rparr>) y" by (rule sees_eq [OF 2]) (use assms(3) in \<open>cases v, simp\<close>)
    then show ?case using q sees_fields(6) [OF y] by simp
  qed (simp add: plain_def)
  then have "okX (add_buffer 63) t (\<lambda>_ t. b_chars (ld_buffer t) = ''?'' \<and> Q 63 t) E" by simp
  then show ?case
    by (simp add: EOF_def mxml_isspace_def buffer_used_def) (erule okX_mono; simp)
qed (simp add: plain_def)

lemma see_directive:
  fixes E :: "unit \<Rightarrow> mx_state \<Rightarrow> bool"
  assumes "sees v s" "w_tree v = None" "w_parent v = None" "w_first v = None"
    and w: "w_text v = CHR ''?'' # h @ ''?>'' @ cs" and h: "list_all header_char h"
    and q: "\<And>t a. sees (v\<lparr>w_tree := Some (ANode a (VElement (Some (CHR ''?'' # h @ ''?'')) []) []), w_text := cs,
      w_first := Some a, w_parent := Some a, w_type := MXML_TEXT, w_buffer := []\<rparr>) t \<Longrightarrow> okX (readX load_round ()) t Q E"
  shows "okX read_tag s (\<lambda>go y. go \<and> left_of y \<le> length (w_text v) \<and> okX (readX load_round ()) y Q E) E"
proof -
  let ?n = "CHR ''?'' # h @ ''?''"
  let ?R = "\<lambda>go y. go \<and> left_of y \<le> length (w_text v) \<and> okX (readX load_round ()) y Q E"
  let ?after = "\<lambda>go. thenX (whenX go (start_with ld_buffer_update [])) (retX go)"
  let ?v1 = "v\<lparr>w_text := cs, w_buffer := ?n\<rparr>"
  have enter: "okX (enter_root (Some a)) t (\<lambda>go t. okX (?after go) t ?R E) E"
    if t: "sees (?v1\<lparr>w_tree := Some (ANode a (VElement (Some ?n) []) [])\<rparr>) t" for a t
  proof -
    have "okX (note_first (Some a)) t (\<lambda>_ t. ld_parent t = None \<and> okX (enter (Some a)) t (\<lambda>_ t. okX (?after True) t ?R E) E) E"
    proof (rule see_note_first [OF t], goal_cases)
      case (1 y)
      have "okX (enter (Some a)) y (\<lambda>_ t. okX (?after True) t ?R E) E"
      proof (rule see_enter [OF 1], goal_cases)
        case (1 z)
        have "okX (start_with ld_buffer_update []) z (\<lambda>_. ?R True) E"
        proof (rule see_start_buffer [OF 1], goal_cases)
          case (1 x)
          have x: "sees (v\<lparr>w_tree := Some (ANode a (VElement (Some ?n) []) []), w_text := cs,
              w_first := Some a, w_parent := Some a, w_type := MXML_TEXT, w_buffer := []\<rparr>) x"
            by (rule sees_eq [OF 1]) (use assms(4) in \<open>cases v, simp\<close>)
          then show ?case using q [OF x] sees_fields(1) [OF x] w by simp
        qed
        then show ?case by simp
      qed
      then show ?case using sees_fields(3) [OF 1] assms(3) by simp
    qed
    then show ?thesis by (simp add: enter_root_def) (erule okX_mono; simp)
  qed
  have gathered: "okX (bindX gathered_element enter_root) t (\<lambda>go t. okX (?after go) t ?R E) E" if t: "sees ?v1 t" for t
  proof -
    have "list_all plain ?n" using h by (auto simp: list_all_iff header_char_def plain_def)
    moreover have "okX (mxmlNewElement None ?n) t (\<lambda>r t. okX (enter_root r) t (\<lambda>go t. okX (?after go) t ?R E) E) E"
    proof (rule okX_mono)
      show "okX (mxmlNewElement None ?n) t (\<lambda>r u. \<exists>a F. r = Some a \<and> open_at a ?n F \<and>
          F = (\<lambda>as. ANode a (VElement (Some ?n) as) []) \<and> sees (?v1\<lparr>w_tree := Some (F [])\<rparr>) u) (\<lambda>(_ :: unit) _. False)"
        using makes_root [of ?n] t assms(2,3) by (simp add: makes_def)
    next
      fix r u assume "\<exists>a F. r = Some a \<and> open_at a ?n F \<and>
          F = (\<lambda>as. ANode a (VElement (Some ?n) as) []) \<and> sees (?v1\<lparr>w_tree := Some (F [])\<rparr>) u"
      then obtain a where "r = Some a" "sees (?v1\<lparr>w_tree := Some (ANode a (VElement (Some ?n) []) [])\<rparr>) u" by blast
      then show "okX (enter_root r) u (\<lambda>go t. okX (?after go) t ?R E) E" using enter by blast
    qed simp
    moreover have "ld_parent t = None" "ld_first t = None" using sees_fields(2,3) [OF t] assms(3,4) by simp_all
    ultimately show ?thesis
      unfolding gathered_element_def okX_bindX by (intro see_buffer [OF t]) simp_all
  qed
  have tag: "okX (directive_tag) t (\<lambda>go t. okX (?after go) t ?R E) E"
    if t: "sees (v\<lparr>w_text := h @ ''?>'' @ cs, w_buffer := ''?''\<rparr>) t" for t
    unfolding directive_tag_def okX_bindX [of "readX f x" for f x]
  proof (rule see_gather [OF t, of "h @ ''?''" cs], goal_cases)
    case (4 y)
    have "sees ?v1 y" by (rule sees_eq [OF 4]) (cases v, simp)
    then show ?case using gathered by simp
  qed (use h in \<open>simp_all add: header_char_def plain_def ends_directive_def\<close>)
  have "okX (start_with ld_buffer_update []) s (\<lambda>_ t. okX (readX tag_round ()) t (\<lambda>ch t. okX (terminated ld_buffer) t
      (\<lambda>buffer t. okX (tag_of buffer ch) t (\<lambda>go t. okX (?after go) t ?R E) E) E) E) E"
  proof (rule see_start_buffer [OF assms(1)])
    fix t assume t: "sees (v\<lparr>w_buffer := []\<rparr>) t"
    show "okX (readX tag_round ()) t (\<lambda>ch t. okX (terminated ld_buffer) t
      (\<lambda>buffer t. okX (tag_of buffer ch) t (\<lambda>go t. okX (?after go) t ?R E) E) E) E"
    proof (rule see_question [OF t, of "h @ ''?>'' @ cs"], goal_cases)
      case (3 y)
      have y: "sees (v\<lparr>w_text := h @ ''?>'' @ cs, w_buffer := ''?''\<rparr>) y" by (rule sees_eq [OF 3]) (cases v, simp)
      show ?case by (rule see_buffer [OF y]) (use tag [OF y] in \<open>simp_all add: tag_of_def plain_def\<close>)
    qed (use w in simp_all)
  qed
  then show ?thesis by (simp add: read_tag_def tag_of_def)
qed

lemma okX_load_file:
  assumes f: "plain_file h ks" and "\<And>k. ok k"
  shows "okX (mxml_load_data :: (unit, nat option, mx_state) xe) (start_text (print_file h ks) ok)
    (\<lambda>r t. \<exists>T. r = Some (addr T) \<and> holds_tree t T \<and> tree_doc T = file_doc h ks) (\<lambda>_ _. False)"
proof -
  let ?n = "CHR ''?'' # h @ ''?''"
  let ?Q = "\<lambda>_ t. \<exists>T. ld_first t = Some (addr T) \<and> ld_parent t = Some (addr T) \<and> holds_tree t T \<and>
    tree_doc T = file_doc h ks \<and> b_alive (ld_buffer t)"
  let ?cs = "concat (map print_doc ks) @ [CHR 0x00]"
  have hk: "list_all header_char h" "spaced ks" "\<And>k. k \<in> set ks \<Longrightarrow> plain_doc k"
    using f by (simp_all add: plain_file_def list_all_iff)
  show ?thesis
  proof (rule okX_load_from [OF assms(2), of _ ?Q], goal_cases)
    case (1 s)
    let ?v = "first_view (print_file h ks)"
    show ?case
    proof (rule see_load_tag [OF 1, of "CHR ''?'' # h @ ''?>'' @ ?cs" 0 "ANode 0 (VInteger 0) []"], goal_cases)
      case (4 w t)
      then have w: "w = ?v\<lparr>w_text := CHR ''?'' # h @ ''?>'' @ ?cs\<rparr>" by (simp add: flushed_def)
      have "okX read_tag t (\<lambda>go y. go \<and> left_of y \<le> length (w_text w) \<and> okX (readX load_round ()) y ?Q (\<lambda>_ _. False)) (\<lambda>_ _. False)"
      proof (rule see_directive [OF 4(2), of h ?cs], goal_cases)
        case (6 y a)
        let ?C = "\<lambda>Ks. ANode a (VElement (Some ?n) []) Ks"
        show ?case
        proof (rule see_children [where C = ?C and Ks = "[]" and ks = ks and a = a and n = ?n and par = None and
              cs = "[CHR 0x00]", OF _ hk(3) 6], goal_cases)
          case (7 z L)
          have "map tree_doc L = settled ks" using 7(1) w by simp
          then have T: "tree_doc (?C L) = file_doc h ks" by (simp add: file_doc_def)
          have "?Q () z"
            using sees_fields(2,3) [OF 7(2)] sees_buffers(1) [OF 7(2)] 7(2) T
            by (intro exI [of _ "?C L"]) (auto simp: sees_def buf_ok_def)
          then show ?case by (intro see_load_end [OF 7(2)]) simp_all
        qed (use hk w around_root in \<open>auto simp: within_def element_read\<close>)
      qed (use w hk in simp_all)
      then show ?case by (rule okX_mono) (use w in auto)
    qed (simp_all add: print_file_def)
  next
    case (2 t)
    then obtain T where T: "ld_first t = Some (addr T)" "ld_parent t = Some (addr T)" "holds_tree t T" "tree_doc T = file_doc h ks"
        "b_alive (ld_buffer t)" by blast
    let ?t = "ld_buffer_update (b_alive_update (\<lambda>_. False)) t"
    have h: "holds_tree ?t T" using T(3) by (simp add: holds_tree_def)
    have "okX (loopX (length (mx_nodes ?t)) climb_round (Some (addr T))) ?t (\<lambda>r u. r = Some (addr T) \<and> u = ?t)
        (\<lambda>(_ :: unit) _. False)"
      by (rule okX_climb [OF h]) simp
    then show ?case
      using T h by (simp add: load_end_def free_buf_def) (erule okX_mono; auto)
  qed
qed

lemma load_file:
  assumes "plain_file h ks" "\<And>k. ok k"
  shows "mxml_load ok (print_file h ks) = Some [file_doc h ks]"
  using okX_load_file [of h ks ok] assms
  by (cases "mxml_load_data (start_text (print_file h ks) ok) :: ((unit + nat option) \<times> mx_state) result")
    (auto simp: okX_def mxml_load_def mxmlLoadString_def holds_tree_doc split: sum.splits)

end
