(* ===== verification/Mxml_Props.thy ===== *)
theory Mxml_Props
  imports Mxml_Roundtrip Xml_Parse_Safe
begin

text \<open>
  What the loader and the node functions of mini-XML promise, where they break, and the parser of
  the configuration on top of the loader.
\<close>

section \<open>Loading\<close>

lemma mxmlLoadString_loaded:
  assumes "CHR 0xFE \<notin> set txt" "CHR 0xFF \<notin> set txt" "\<And>n. ok n"
  shows "\<exists>r s. mxmlLoadString txt ok = Inr (r, s) \<and> (r = None \<or> (\<exists>T. r = Some (addr T) \<and> holds_tree s T \<and> typed T \<and>
     element_in T (addr T) \<and> heap_doc (length (mx_nodes s)) (mx_nodes s) r = [tree_doc T]))"
proof -
  have "okR (mxmlLoadString txt ok) (\<lambda>(r, s). loaded r s)"
    by (rule okR_mxmlLoadString [OF assms])
  then obtain r s where l: "mxmlLoadString txt ok = Inr (r, s)" "loaded r s"
    by (cases "mxmlLoadString txt ok") auto
  then show ?thesis by (auto simp: loaded_def doc_tree_def holds_tree_doc)
qed

text \<open>
  C5: Whatever a text in UTF-8 looks like, well formed or not, the loader copes with it as long as
  memory lasts: it returns, with no access outside the text or its buffers, no pointer followed
  that is NULL or freed and nothing released twice. A document it returns is a tree of linked nodes
  in which every element has a name and attributes with distinct names and values, every
  other node is a text without children, and the root is an element.
\<close>

theorem document_typed:
  assumes "CHR 0xFE \<notin> set txt" "CHR 0xFF \<notin> set txt" "\<forall>n. ok n"
  shows "\<exists>r s. mxmlLoadString txt ok = Inr (r, s) \<and> (r = None \<or> (\<exists>T. r = Some (addr T) \<and> holds_tree s T \<and> typed T \<and>
     element_in T (addr T) \<and> heap_doc (length (mx_nodes s)) (mx_nodes s) r = [tree_doc T]))"
  using assms by (intro mxmlLoadString_loaded) auto

text \<open>A document with an entity, text and an element that ends at once; and one that is broken.\<close>

definition sample_text :: string where
  "sample_text = ''<Node a='7' b=\"x&amp;y\">1<Port/></Node>''"

theorem document_typed_witness:
  "(\<exists>r s. mxmlLoadString sample_text (\<lambda>_. True) = Inr (r, s)) \<and>
   mxml_load (\<lambda>_. True) sample_text = Some [Element ''Node'' [(''a'', ''7''), (''b'', ''x&y'')] [Other, Element ''Port'' [] []]] \<and>
   mxml_load (\<lambda>_. True) ''<Node a='7' a='8'/>'' = None"
proof (intro conjI)
  show "\<exists>r s. mxmlLoadString sample_text (\<lambda>_. True) = Inr (r, s)"
    using document_typed [of sample_text "\<lambda>_. True"] by (auto simp: sample_text_def)
qed (code_simp+)

text \<open>
  C6: Documents survive. A file that is printed from a declaration and elements with their
  attributes and the line breaks between them is read back as just that: the declaration is the
  root and has the elements and line breaks below it, but for a line break at the end of the file.
\<close>

theorem file_roundtrip:
  assumes "plain_file h ks" "\<forall>n. ok n"
  shows "mxml_load ok (print_file h ks) = Some [file_doc h ks]"
  using assms by (intro load_file) auto

definition config_nodes :: cursor where
  "config_nodes = [Other, Element ''Unicens'' [(''AsyncBandwidth'', ''80'')] [Other,
     Element ''Node'' [(''Address'', ''0x200'')] [Other,
       Element ''SyncConnection'' [] [
         Element ''NetworkSocket'' [(''Route'', ''mic''), (''Bandwidth'', ''4'')] [],
         Element ''MediaLBSocket'' [(''ChannelAddress'', ''10''), (''Bandwidth'', ''4'')] []]],
     Element ''Node'' [(''Address'', ''0x270'')] [
       Element ''SyncConnection'' [] [
         Element ''USBSocket'' [(''EndpointAddress'', ''0x01''), (''FramesPerTransaction'', ''256'')] [],
         Element ''NetworkSocket'' [(''Route'', ''mic''), (''Bandwidth'', ''4'')] []]], Other], Other]"

lemmas plain_text_defs = plain_file_def is_name_def is_attr_def name_char_def isalnum_def value_char_def
  header_char_def plain_def

lemma config_nodes_plain: "plain_file ''xml version=\"1.0\"'' config_nodes"
  by (simp add: config_nodes_def plain_text_defs)

theorem file_roundtrip_witness:
  "take 39 (print_file ''xml version=\"1.0\"'' config_nodes) = ''<?xml version=\"1.0\"?>\<newline><Unicens AsyncBan'' \<and>
   mxml_load (\<lambda>_. True) (print_file ''xml version=\"1.0\"'' config_nodes) =
     Some [Element ''?xml version=\"1.0\"?'' [] (butlast config_nodes)]"
proof
  show "take 39 (print_file ''xml version=\"1.0\"'' config_nodes) = ''<?xml version=\"1.0\"?>\<newline><Unicens AsyncBan''"
    by (simp add: print_file_def config_nodes_def)
  have "mxml_load (\<lambda>_. True) (print_file ''xml version=\"1.0\"'' config_nodes) =
      Some [file_doc ''xml version=\"1.0\"'' config_nodes]"
    by (rule file_roundtrip [OF config_nodes_plain]) simp
  then show "mxml_load (\<lambda>_. True) (print_file ''xml version=\"1.0\"'' config_nodes) =
     Some [Element ''?xml version=\"1.0\"?'' [] (butlast config_nodes)]"
    by (simp add: file_doc_def settled_def pending_def config_nodes_def)
qed

section \<open>Deleting a document\<close>

lemma okX_result:
  assumes "okX m s Q (\<lambda>_ _. False)"
  obtains x t where "m s = Inr (Inr x, t)" "Q x t"
proof (cases "m s")
  case (Inr p)
  then obtain r t where "m s = Inr (r, t)" by (cases p) simp
  then show ?thesis using assms that by (cases r) (auto simp: okX_def)
qed (use assms in \<open>simp add: okX_def\<close>)

lemma mxmlDelete_leaves:
  fixes s :: "'z mheap_scheme"
  assumes "holds_tree s T"
  shows "\<exists>t. mxmlDelete (Some (addr T)) s = (Inr (Inr (), t) :: ((unit + unit) \<times> 'z mheap_scheme) result) \<and>
    (\<forall>a. (\<exists>m. node_at (Some a) (mx_nodes t) = Inr m) \<longleftrightarrow> (\<exists>m. node_at (Some a) (mx_nodes s) = Inr m) \<and>
      (a \<in> set (addrs T) \<longrightarrow> (\<exists>S \<in> set (concat (map subtrees (kids T))). addr S = a \<and> skipped S)))"
proof -
  obtain r v cs where T: "T = ANode r v cs" by (cases T)
  have d: "distinct (addrs T)" using assms by (simp add: holds_tree_def)
  let ?m = "mxmlDelete (Some (addr T)) :: (unit, unit, 'z mheap_scheme) xe"
  have "okX ?m s (\<lambda>_ t. swept (set (addrs T)) (set (deleted T)) s t) (\<lambda>_ _. False)"
    by (rule okX_mxmlDelete [OF assms])
  then obtain t where t: "?m s = Inr (Inr (), t)" "swept (set (addrs T)) (set (deleted T)) s t"
    by (rule okX_result) simp
  have alive: "(\<exists>m. node_at (Some a) (mx_nodes t) = Inr m) \<longleftrightarrow>
      (\<exists>m. node_at (Some a) (mx_nodes s) = Inr m) \<and> a \<notin> set (deleted T)" for a
    using t(2) by (cases "node_at (Some a) (mx_nodes s)") (auto simp: swept_def)
  have kept: "a \<notin> set (deleted T) \<longleftrightarrow> (\<exists>S \<in> set (concat (map subtrees (kids T))). addr S = a \<and> skipped S)"
    if a: "a \<in> set (addrs T)" for a
  proof (cases "a = r")
    case True
    have "addr S \<noteq> r" if "c \<in> set cs" "S \<in> set (subtrees c)" for c S
      using subtrees_addrs [OF that(2)] addr_in_addrs [of S] that(1) d by (fastforce simp: T simp del: addr_in_addrs)
    then show ?thesis using True by (auto simp: T deleted_def)
  next
    case False
    then obtain c where c: "c \<in> set cs" "a \<in> set (addrs c)" using a by (auto simp: T)
    have only: "c' = c" if "c' \<in> set cs" "a \<in> set (addrs c')" for c'
      using distinct_forest_split [of cs c' c a] that c d by (auto simp: T)
    have "distinct (addrs c)" using d c(1) by (auto simp: T intro: distinct_forest_member)
    then have r: "a \<in> set (released c) \<longleftrightarrow> \<not> (\<exists>S \<in> set (subtrees c). addr S = a \<and> skipped S)"
      using c(2) by (rule released_iff)
    have 1: "a \<in> set (deleted T) \<longleftrightarrow> a \<in> set (released c)"
    proof
      assume "a \<in> set (deleted T)"
      then obtain c' where "c' \<in> set cs" "a \<in> set (released c')" using False by (auto simp: T deleted_def)
      then show "a \<in> set (released c)" using only released_addrs by blast
    qed (use c(1) in \<open>auto simp: T deleted_def\<close>)
    have "S \<in> set (subtrees c)" if "c' \<in> set cs" "S \<in> set (subtrees c')" "addr S = a" for c' S
      using only [OF that(1)] subtrees_addrs [OF that(2)] that(2,3) addr_in_addrs [of S] by blast
    then have 2: "(\<exists>S \<in> set (concat (map subtrees (kids T))). addr S = a \<and> skipped S) \<longleftrightarrow>
        (\<exists>S \<in> set (subtrees c). addr S = a \<and> skipped S)"
      unfolding T atree.sel set_concat set_map using c(1) by blast
    show ?thesis using r 1 2 by blast
  qed
  have "set (deleted T) \<subseteq> set (addrs T)" using released_addrs by (fastforce simp: T deleted_def)
  then have "a \<notin> set (deleted T) \<longleftrightarrow> (a \<in> set (addrs T) \<longrightarrow>
      (\<exists>S \<in> set (concat (map subtrees (kids T))). addr S = a \<and> skipped S))" for a
    using kept [of a] by (cases "a \<in> set (addrs T)") auto
  then show ?thesis
    using t(1) by (intro exI [of _ t] conjI allI) (assumption, simp only: alive)
qed

text \<open>
  C26: What \<open>mxmlDelete\<close> leaves behind. Deleting a document releases its nodes, and no others, but
  not all of them: every node below the root stays allocated for good that the walk passes over
  on its way up, that is each whose last child is no such node itself. Of an element in
  an element in the root, the outer one leaks.
\<close>

theorem delete_leaves_behind:
  fixes s :: "'z mheap_scheme"
  assumes "holds_tree s T"
  shows "\<exists>t. mxmlDelete (Some (addr T)) s = (Inr (Inr (), t) :: ((unit + unit) \<times> 'z mheap_scheme) result) \<and>
    (\<forall>a. (\<exists>m. node_at (Some a) (mx_nodes t) = Inr m) \<longleftrightarrow> (\<exists>m. node_at (Some a) (mx_nodes s) = Inr m) \<and>
      (a \<in> set (addrs T) \<longrightarrow> (\<exists>S \<in> set (concat (map subtrees (kids T))). addr S = a \<and> skipped S)))"
  by (rule mxmlDelete_leaves [OF assms])

text \<open>The root 0, its child 1 and the child 2 of that: after the deletion, 1 is left.\<close>

definition leaf_value :: mxml_value_t where
  "leaf_value = VElement (Some ''B'') []"

definition three_nodes :: mheap where
  "three_nodes = \<lparr>mx_nodes = [
     Some \<lparr>n_next = None, n_prev = None, n_parent = None, n_child = Some 1, n_last_child = Some 1, n_value = leaf_value, n_ref_count = 1\<rparr>,
     Some \<lparr>n_next = None, n_prev = None, n_parent = Some 0, n_child = Some 2, n_last_child = Some 2, n_value = leaf_value, n_ref_count = 1\<rparr>,
     Some \<lparr>n_next = None, n_prev = None, n_parent = Some 1, n_child = None, n_last_child = None, n_value = leaf_value, n_ref_count = 1\<rparr>],
     malloc_ok = (\<lambda>_. True), malloc_calls = 0\<rparr>"

theorem delete_leaves_behind_witness:
  "\<exists>t m. mxmlDelete (Some 0) three_nodes = (Inr (Inr (), t) :: ((unit + unit) \<times> mheap) result) \<and> node_at (Some 1) (mx_nodes t) = Inr m \<and>
     (\<forall>m. node_at (Some 2) (mx_nodes t) \<noteq> Inr m)"
proof -
  let ?T = "ANode 0 leaf_value [ANode 1 leaf_value [ANode 2 leaf_value []]]"
  have T: "holds_tree three_nodes ?T"
    by (simp add: holds_tree_def three_nodes_def node_at_def)
  have live: "\<exists>m. node_at (Some (Suc 0)) (mx_nodes three_nodes) = Inr m"
    by (simp add: three_nodes_def node_at_def)
  obtain t where t: "mxmlDelete (Some 0) three_nodes = (Inr (Inr (), t) :: ((unit + unit) \<times> mheap) result)"
    and left: "\<And>a. (\<exists>m. node_at (Some a) (mx_nodes t) = Inr m) \<longleftrightarrow> (\<exists>m. node_at (Some a) (mx_nodes three_nodes) = Inr m) \<and>
      (a \<in> {0, 1, 2} \<longrightarrow> a = 1)"
    using delete_leaves_behind [OF T] by auto
  show ?thesis using t left [of 1] left [of 2] live by auto
qed

section \<open>A tag that is too long for the memory\<close>

text \<open>A character is read and put in a buffer that has room for it.\<close>

definition filling :: "string \<Rightarrow> string \<Rightarrow> mx_state \<Rightarrow> bool" where
  "filling b txt s \<longleftrightarrow> in_encoding s = ENCODE_UTF8 \<and> in_text s = txt \<and> b_chars (ld_buffer s) = b \<and>
     b_size (ld_buffer s) = 64 \<and> b_alive (ld_buffer s) \<and> malloc_calls s = 1 \<and> \<not> malloc_ok s 1 \<and> ld_first s = None"

lemma filling_char:
  assumes "filling b (c # cs) s" "name_char c" "name_char (hd (b @ [c]))"
  shows "okX (tag_round u) s (\<lambda>r t. r = Inl () \<and> filling (b @ [c]) cs t \<and> length b < 60)
    (\<lambda>_ t. \<not> b_alive (ld_buffer t) \<and> ld_first t = None \<and> 60 \<le> length b)"
proof -
  note n = name_char_code [OF assms(2)]
  have s: "in_encoding s = ENCODE_UTF8" "in_text s = c # cs" "b_chars (ld_buffer s) = b" "b_size (ld_buffer s) = 64"
      "b_alive (ld_buffer s)" "malloc_calls s = 1" "\<not> malloc_ok s 1" "ld_first s = None"
    using assms(1) by (simp_all add: filling_def)
  have c: "\<not> (code c = EOF \<or> mxml_isspace (code c) \<or> code c = 62 \<or> code c = 47 \<and> 0 < length b)"
      "(code c = 60) = False" "(code c = 38) = False"
      "\<not> (code c < 48 \<and> code c \<noteq> 33 \<and> code c \<noteq> 45 \<and> code c \<noteq> 46 \<and> code c \<noteq> 47)"
    using n(2,3) by (auto simp: EOF_def mxml_isspace_def)
  have h: "b @ [c] \<noteq> ''?''" "b @ [c] \<noteq> ''!--''" "b @ [c] \<noteq> ''![CDATA[''"
    using assms(3) name_char_code(4) by fastforce+
  have bytes: "utf8_bytes (code c) = [code c]" using n(1) by (auto simp: plain_def utf8_bytes_def)
  show ?thesis
    unfolding tag_round_def okX_bindX okX_getc [OF s(1,2) n(1)] buffer_used_def okX_getX
    using c h s(3-8) by (auto simp: add_to_def mxml_add_char_def bytes put_byte_def Let_def filling_def s)
qed

lemma filling_name:
  assumes "filling b (xs @ cs) s" "list_all name_char (b @ xs)" "length b \<le> 60" "60 < length b + length xs" "length xs < n"
  shows "okX (loopX n tag_round u) s (\<lambda>_ _. False) (\<lambda>_ t. \<not> b_alive (ld_buffer t) \<and> ld_first t = None)"
  using assms
proof (induction xs arbitrary: b s n u)
  case (Cons x xs)
  obtain m where n: "n = Suc m" using Cons.prems(5) by (cases n) auto
  have x: "filling b (x # xs @ cs) s" "name_char x" "name_char (hd (b @ [x]))"
    using Cons.prems(1,2) by (cases b; simp)+
  show ?case
    unfolding n loopX.simps okX_bindX
  proof (rule okX_mono [OF filling_char [OF x]], goal_cases)
    case (1 r t)
    then show ?case using Cons.prems n by (auto intro!: Cons.IH)
  qed simp
qed simp

lemma long_name_error:
  assumes "list_all name_char name" "60 < length name" "ok 0" "\<not> ok 1"
  shows "okX (readX load_round ()) ((start_text (CHR ''<'' # name @ rest) ok)\<lparr>malloc_calls := Suc 0, ld_buffer := new_buf 64,
     ld_parent := None, ld_first := None, ld_whitespace := False, in_encoding := ENCODE_UTF8, ld_type := MXML_IGNORE\<rparr>)
     (\<lambda>_ _. False) (\<lambda>_ t. \<not> b_alive (ld_buffer t) \<and> ld_first t = None)"
    (is "okX _ ?s _ ?E")
proof (rule okX_readX_round)
  let ?t = "?s\<lparr>in_text := name @ rest @ [CHR 0x00]\<rparr>"
  have "okX (readX tag_round ()) ?t Q ?E" for Q
    unfolding readX_def okX_bindX okX_getX
    by (rule okX_mono [OF filling_name [of "[]" name "rest @ [CHR 0x00]"]])
      (use assms in \<open>auto simp: filling_def start_text_def new_buf_def\<close>)
  then have tag: "okX read_tag ?t Q ?E" for Q
    by (simp add: read_tag_def start_with_def new_buf_def start_text_def)
  have getc: "okX mxml_string_getc ?s Q E = Q (code (CHR ''<'')) ?t" for Q and E :: "unit \<Rightarrow> mx_state \<Rightarrow> bool"
    by (rule okX_getc) (simp_all add: start_text_def plain_def)
  show "okX (load_round ()) ?s (\<lambda>r t. case r of Inl c \<Rightarrow> left_of t < left_of ?s \<and> okX (readX load_round c) t (\<lambda>_ _. False) ?E
      | Inr c \<Rightarrow> False) ?E"
    unfolding load_round_def [of "()"] okX_bindX [of mxml_string_getc] getc
    using tag by (simp add: EOF_def mxml_isspace_def value_before_def lone_whitespace_def buffer_used_def new_buf_def start_text_def)
qed

lemma long_name_BadFree:
  assumes "list_all name_char name" "60 < length name" "ok 0" "\<not> ok 1"
  shows "mxmlLoadString (CHR ''<'' # name @ rest) ok = Inl BadFree"
proof -
  let ?s = "(start_text (CHR ''<'' # name @ rest) ok)\<lparr>malloc_calls := Suc 0, ld_buffer := new_buf 64,
     ld_parent := None, ld_first := None, ld_whitespace := False, in_encoding := ENCODE_UTF8, ld_type := MXML_IGNORE\<rparr>"
  obtain t where t: "readX load_round () ?s = Inr (Inl (), t)" "\<not> b_alive (ld_buffer t)" "ld_first t = None"
  proof (cases "readX load_round () ?s :: ((unit + unit) \<times> mx_state) result")
    case (Inr p)
    obtain r t where p: "p = (r, t)" by (cases p)
    show ?thesis
      using long_name_error [OF assms, of rest] Inr that by (cases r) (auto simp: okX_def p)
  qed (use long_name_error [OF assms, of rest] in \<open>simp add: okX_def\<close>)
  have "mxml_load_data (start_text (CHR ''<'' # name @ rest) ok) = (load_error t :: ((unit + nat option) \<times> mx_state) result)"
    using t(1) assms(3) by (simp add: mxml_load_data_def bindX_def thenX_def liftX_def allocate_def updX_def catchX_def start_text_def)
  moreover have "load_error t = (Inl BadFree :: ((unit + nat option) \<times> mx_state) result)"
    using t(2,3) by (simp add: load_error_def bindX_def thenX_def getX_def mxmlDelete_def retX_def free_buf_def valX_def)
  ultimately show ?thesis by (simp add: mxmlLoadString_def)
qed

text \<open>
  C34: The buffer of a tag is released twice. When a name of more than 60 characters needs more
  room and there is no memory, the function that adds the character releases the buffer, and so
  does the error exit of the loader.
\<close>

theorem long_name_double_free:
  assumes "list_all name_char name" "60 < length name" "ok 0" "\<not> ok 1"
  shows "mxmlLoadString (CHR ''<'' # name @ rest) ok = Inl BadFree"
  by (rule long_name_BadFree [OF assms])

theorem long_name_double_free_witness:
  "mxmlLoadString (CHR ''<'' # replicate 61 (CHR ''a'') @ ''>'') (\<lambda>n. n \<noteq> 1) = Inl BadFree"
  by (rule long_name_double_free) (simp_all add: name_char_def isalnum_def list_all_iff)

section \<open>Where the text ends in UTF-16\<close>

text \<open>The end of a text in UTF-16 is two zero bytes; a text with one, like any other string, is read past it.\<close>

lemma utf16_overread:
  assumes "ok 0"
  shows "mxmlLoadString [CHR 0xFF, CHR 0xFE] ok = Inl OutOfBounds"
  using assms
  by (simp add: mxmlLoadString_def mxml_load_data_def bindX_def thenX_def liftX_def allocate_def updX_def catchX_def
      start_text_def readX_def getX_def load_round_def mxml_string_getc_def string_getc_round_def peek_def valX_def retX_def
      skip_def utf8_char_def change_encoding_def utf16le_char_def)

text \<open>A name of the table of entities stands for its value, any other name for none.\<close>

lemma entity_lookup:
  "mxmlEntityGetValue name = (case map_of entities name of None \<Rightarrow> -1 | Some v \<Rightarrow> v)"
  by (rule mxmlEntityGetValue_eq)

section \<open>From the text of a file to the configuration\<close>

lemma UcsXml_Parse_of: "load txt = Some doc \<Longrightarrow> UcsXml_Parse load txt s = UcsXml_Parse (\<lambda>_. Some doc) [] s"
  by (simp add: UcsXml_Parse_def)

lemma UcsXml_Parse_unloaded: "load txt = None \<Longrightarrow> \<exists>t. UcsXml_Parse load txt s = Inr (None, t)"
  by (simp add: UcsXml_Parse_def Let_def)


lemma config_loaded: "mxml_load (\<lambda>_. True) (print_file ''xml version=\"1.0\"'' config_nodes) =
   Some [Element ''?xml version=\"1.0\"?'' [] (butlast config_nodes)]"
  using load_file [OF config_nodes_plain] by (simp add: file_doc_def settled_def pending_def config_nodes_def)


end
