(* ===== verification/Console.thy ===== *)
theory Console
  imports Prelude
begin

text \<open>
  Messages on the console: libraries/console/Console.c. What is printed goes to \<open>stderr\<close> for the
  priority of errors and to \<open>stdout\<close> otherwise; the model records the statement with its arguments,
  the text the C library makes of them is not part of it.
\<close>

datatype ConsolePrio_t = PRIO_LOW | PRIO_MEDIUM | PRIO_HIGH | PRIO_ERROR

definition prio_number :: "ConsolePrio_t \<Rightarrow> nat" where
  "prio_number p = (case p of PRIO_LOW \<Rightarrow> 0 | PRIO_MEDIUM \<Rightarrow> 1 | PRIO_HIGH \<Rightarrow> 2 | PRIO_ERROR \<Rightarrow> 0xFF)"

datatype 'a printed = Printed bool string "'a list"

text \<open>The static data \<open>data\<close>, and what has been printed.\<close>

record 'a LocalData_t =
  minPrio :: ConsolePrio_t
  contPrio :: ConsolePrio_t
  prints :: "'a printed list"

definition ConsoleSetPrio :: "ConsolePrio_t \<Rightarrow> 'a LocalData_t \<Rightarrow> 'a LocalData_t" where
  "ConsoleSetPrio prio d = d\<lparr>minPrio := prio\<rparr>"

definition ConsolePrintf :: "ConsolePrio_t \<Rightarrow> string option \<Rightarrow> 'a list \<Rightarrow> 'a LocalData_t \<Rightarrow> 'a LocalData_t" where
  "ConsolePrintf prio statement vargs d =
     (if prio_number prio < prio_number (minPrio d) \<or> statement = None then d
      else d\<lparr>prints := prints d @ [Printed (prio = PRIO_ERROR) (the statement) vargs]\<rparr>)"

definition ConsolePrintfStart :: "ConsolePrio_t \<Rightarrow> string option \<Rightarrow> 'a list \<Rightarrow> 'a LocalData_t \<Rightarrow> 'a LocalData_t" where
  "ConsolePrintfStart prio statement vargs d =
     (let d = d\<lparr>contPrio := prio\<rparr>
      in if prio_number (contPrio d) < prio_number (minPrio d) \<or> statement = None then d
         else d\<lparr>prints := prints d @ [Printed (prio = PRIO_ERROR) (the statement) vargs]\<rparr>)"

definition ConsolePrintfContinue :: "string option \<Rightarrow> 'a list \<Rightarrow> 'a LocalData_t \<Rightarrow> 'a LocalData_t" where
  "ConsolePrintfContinue statement vargs d =
     (if prio_number (contPrio d) < prio_number (minPrio d) \<or> statement = None then d
      else d\<lparr>prints := prints d @ [Printed (contPrio d = PRIO_ERROR) (the statement) vargs]\<rparr>)"

definition ConsolePrintfExit :: "string option \<Rightarrow> 'a list \<Rightarrow> 'a LocalData_t \<Rightarrow> 'a LocalData_t" where
  "ConsolePrintfExit statement vargs d =
     (if prio_number (contPrio d) < prio_number (minPrio d) \<or> statement = None then d
      else d\<lparr>prints := prints d @ [Printed (contPrio d = PRIO_ERROR) (the statement) vargs]\<rparr>)"

text \<open>
  A segmented print: its parts come out together, all of them or none, and in order, on the stream
  of the priority it was started with.
\<close>

definition print_segments ::
  "ConsolePrio_t \<Rightarrow> string \<times> 'a list \<Rightarrow> (string \<times> 'a list) list \<Rightarrow> string \<times> 'a list
    \<Rightarrow> 'a LocalData_t \<Rightarrow> 'a LocalData_t" where
  "print_segments prio start parts stop d =
     (let d = ConsolePrintfStart prio (Some (fst start)) (snd start) d;
          d = fold (\<lambda>(s, vargs). ConsolePrintfContinue (Some s) vargs) parts d
      in ConsolePrintfExit (Some (fst stop)) (snd stop) d)"

lemma continue_parts:
  "fold (\<lambda>(s, vargs). ConsolePrintfContinue (Some s) vargs) parts d =
     (if prio_number (contPrio d) < prio_number (minPrio d) then d
      else d\<lparr>prints := prints d @ map (\<lambda>(s, vargs). Printed (contPrio d = PRIO_ERROR) s vargs) parts\<rparr>)"
  by (induction parts arbitrary: d) (auto simp: ConsolePrintfContinue_def)

lemma print_segments_eq:
  "print_segments prio start parts stop d = d\<lparr>contPrio := prio, prints := prints d @
     (if prio_number prio < prio_number (minPrio d) then []
      else map (\<lambda>(s, vargs). Printed (prio = PRIO_ERROR) s vargs) (start # parts @ [stop]))\<rparr>"
  by (cases start, cases stop)
    (simp add: print_segments_def ConsolePrintfStart_def ConsolePrintfExit_def continue_parts Let_def)

end
