(* ===== verification/Cdev.thy ===== *)
theory Cdev
  imports C_Text
begin

text \<open>
  Character devices: libraries/cdev-handler/CdevHandler.c. The calls of the operating system are
  parameters: whether the n-th \<open>open\<close> succeeds and what the n-th \<open>write\<close> returns, which by its
  documentation is at most the number of bytes it was given (\<open>writes_ok\<close>). A file handle is the
  number of the call that opened it, and \<open>None\<close> is -1. The receive thread runs concurrently with the
  rest, in the step relation of the theory \<open>Threads\<close>; its operations on the data are here.
\<close>

section \<open>Arrays of characters\<close>

text \<open>
  \<open>strncpy\<close> into an array of \<open>n\<close> characters pads with zeros, and leaves out the terminating zero of
  a string that is too long; such an array is not a string, reading it leaves the array.
\<close>

definition strncpy :: "nat \<Rightarrow> string \<Rightarrow> string" where
  "strncpy n str = take n (str @ replicate n (CHR 0x00))"

definition c_string :: "string \<Rightarrow> string result" where
  "c_string arr = (if CHR 0x00 \<in> set arr then Inr (takeWhile (\<lambda>c. c \<noteq> CHR 0x00) arr) else Inl OutOfBounds)"

lemma c_string_strncpy:
  assumes "CHR 0x00 \<notin> set str"
  shows "c_string (strncpy n str) = (if length str < n then Inr str else Inl OutOfBounds)"
proof (cases "length str < n")
  case True
  then obtain k where n: "n = length str + Suc k" using less_imp_Suc_add by force
  have "strncpy n str = str @ CHR 0x00 # replicate k (CHR 0x00)"
    unfolding strncpy_def n take_append by (simp add: min_def)
  moreover have "takeWhile (\<lambda>c. c \<noteq> CHR 0x00) (str @ CHR 0x00 # replicate k (CHR 0x00)) = str"
    using assms by (induction str) auto
  ultimately show ?thesis using True by (simp add: c_string_def)
next
  case False
  then have "strncpy n str = take n str" by (simp add: strncpy_def)
  then show ?thesis using False assms by (auto simp: c_string_def dest: in_set_takeD)
qed

section \<open>Devices\<close>

datatype open_flags = O_RDONLY | O_WRONLY | O_RDWR

definition MAX_FILENAME_LEN :: nat where "MAX_FILENAME_LEN = 100"
definition RX_BUFFER :: nat where "RX_BUFFER = 64"

text \<open>The handle of the thread is left out; it is only stored.\<close>

record CdevData_t =
  allowThreadRun :: bool
  rxThreadRuns :: bool
  fileHandle :: "nat option"
  fileFlags :: open_flags
  fileName :: string
  rxBuffer :: "u8 list"
  rxLen :: u32
  rxSem :: nat

text \<open>
  What the process has done with files: the handles it has opened (the code never closes one), the
  calls of \<open>write\<close> and the bytes that were taken over, with the handle they went to.
\<close>

record files =
  open_calls :: nat
  open_handles :: "nat list"
  write_calls :: nat
  sent :: "(nat \<times> u8 list) list"

record os =
  open_ok :: "nat \<Rightarrow> bool"
  write_result :: "nat \<Rightarrow> nat \<Rightarrow> int"

definition writes_ok :: "os \<Rightarrow> bool" where
  "writes_ok os \<longleftrightarrow> (\<forall>n len. write_result os n len \<le> int len)"

definition CdevData_zero :: CdevData_t where
  "CdevData_zero = \<lparr>allowThreadRun = False, rxThreadRuns = False, fileHandle = Some 0, fileFlags = O_RDONLY,
     fileName = replicate MAX_FILENAME_LEN (CHR 0x00), rxBuffer = replicate RX_BUFFER 0, rxLen = 0, rxSem = 0\<rparr>"

text \<open>The string to copy is itself in an array, as the caller keeps it.\<close>

definition Cdev_Init :: "string option \<Rightarrow> bool \<Rightarrow> bool \<Rightarrow> CdevData_t \<Rightarrow> (bool \<times> CdevData_t) result" where
  "Cdev_Init name rd wr d =
     (case name of
        None \<Rightarrow> Inr (False, d)
      | Some arr \<Rightarrow>
          bindR (c_string arr) (\<lambda>str.
          let d = CdevData_zero\<lparr>fileName := strncpy MAX_FILENAME_LEN str, fileHandle := None, allowThreadRun := True\<rparr>
          in Inr (if rd \<and> wr then (True, d\<lparr>fileFlags := O_RDWR\<rparr>)
                  else if rd then (True, d\<lparr>fileFlags := O_RDONLY\<rparr>)
                  else if wr then (True, d\<lparr>fileFlags := O_WRONLY\<rparr>)
                  else (False, d))))"

text \<open>\<open>sem_init\<close> and \<open>pthread_create\<close> can fail, which the arguments tell.\<close>

definition Cdev_StartReading :: "bool \<Rightarrow> bool \<Rightarrow> CdevData_t \<Rightarrow> bool \<times> CdevData_t" where
  "Cdev_StartReading sem_ok thread_ok d =
     (if fileFlags d = O_WRONLY \<or> rxThreadRuns d \<or> \<not> sem_ok then (False, d)
      else (thread_ok, d\<lparr>rxSem := 0\<rparr>))"

text \<open>\<open>if (-1 == fileHandle) fileHandle = open(...)\<close>\<close>

definition open_device :: "os \<Rightarrow> CdevData_t \<times> files \<Rightarrow> (CdevData_t \<times> files) result" where
  "open_device os = (\<lambda>(d, f).
     if fileHandle d \<noteq> None then Inr (d, f) else
     bindR (c_string (fileName d)) (\<lambda>_.
     let n = open_calls f; f = f\<lparr>open_calls := n + 1\<rparr>
     in Inr (if open_ok os n then (d\<lparr>fileHandle := Some n\<rparr>, f\<lparr>open_handles := open_handles f @ [n]\<rparr>)
             else (d, f))))"

text \<open>The loop that writes; \<open>tot\<close> bytes are written already. Each round writes at least a byte.\<close>

fun write_loop ::
  "nat \<Rightarrow> os \<Rightarrow> u8 list \<Rightarrow> u32 \<Rightarrow> u32 \<Rightarrow> CdevData_t \<times> files \<Rightarrow> (bool \<times> CdevData_t \<times> files) result" where
  "write_loop 0 os pData len tot (d, f) = Inl Diverges"
| "write_loop (Suc k) os pData len tot (d, f) =
     (if \<not> tot < len then Inr (True, d, f)
      else if length pData < unat len then Inl OutOfBounds
      else
        let n = write_calls f; written = write_result os n (unat (len - tot));
            f = f\<lparr>write_calls := n + 1\<rparr>
        in if 0 \<ge> written then Inr (False, d\<lparr>fileHandle := None\<rparr>, f)
           else write_loop k os pData len (tot + of_int written)
             (d, f\<lparr>sent := sent f @ [(the (fileHandle d), take (nat written) (drop (unat tot) pData))]\<rparr>))"

definition Cdev_Write ::
  "os \<Rightarrow> u8 list option \<Rightarrow> u32 \<Rightarrow> CdevData_t \<times> files \<Rightarrow> (bool \<times> CdevData_t \<times> files) result" where
  "Cdev_Write os pData len = (\<lambda>(d, f).
     case pData of
       None \<Rightarrow> Inr (False, d, f)
     | Some bytes \<Rightarrow>
         if len = 0 \<or> fileFlags d = O_RDONLY then Inr (False, d, f) else
         bindR (open_device os (d, f)) (\<lambda>(d, f).
         if fileHandle d = None then Inr (False, d, f)
         else write_loop (Suc (unat len)) os bytes len 0 (d, f)))"

text \<open>
  \<open>0 == len\<close> tests the pointer, which the line above has found not to be NULL, and not the length.
\<close>

definition Cdev_GetRx :: "CdevData_t \<Rightarrow> (u8 list \<times> u32) option" where
  "Cdev_GetRx d = (if fileFlags d = O_WRONLY then None else Some (rxBuffer d, rxLen d))"

definition Cdev_PopRx :: "CdevData_t \<Rightarrow> bool \<times> CdevData_t" where
  "Cdev_PopRx d = (if fileFlags d = O_WRONLY then (False, d) else (True, d\<lparr>rxSem := rxSem d + 1\<rparr>))"

section \<open>Reasons of an error\<close>

definition GetErrnoString :: "int \<Rightarrow> string" where
  "GetErrnoString errno =
     (case map_of
       [(0, ''Nothing stored in errno''),
        (1, ''Operation not permitted''),
        (2, ''No such file or directory''),
        (3, ''No such process''),
        (4, ''Interrupted system call''),
        (5, ''I/O error''),
        (6, ''No such device or address''),
        (7, ''Argument list too long''),
        (8, ''Exec format error''),
        (9, ''Bad file number''),
        (10, ''No child processes''),
        (11, ''Try again''),
        (12, ''Out of memory''),
        (13, ''Permission denied''),
        (14, ''Bad address''),
        (15, ''Block device required''),
        (16, ''Device or resource busy''),
        (17, ''File exists''),
        (18, ''Cross-device link''),
        (19, ''No such device''),
        (20, ''Not a directory''),
        (21, ''Is a directory''),
        (22, ''Invalid argument''),
        (23, ''File table overflow''),
        (24, ''Too many open files''),
        (25, ''Not a typewriter''),
        (26, ''Text file busy''),
        (27, ''File too large''),
        (28, ''No space left on device''),
        (29, ''Illegal seek''),
        (30, ''Read-only file system''),
        (31, ''Too many links''),
        (32, ''Broken pipe''),
        (33, ''Math argument out of domain of func''),
        (34, ''Math result not representable'')] errno of
        Some reason \<Rightarrow> reason | None \<Rightarrow> ''Unknown'')"

section \<open>What a write transmits\<close>

definition sent_bytes :: "(nat \<times> u8 list) list \<Rightarrow> u8 list" where
  "sent_bytes parts = concat (map snd parts)"

lemma write_loop_parts:
  assumes "writes_ok os" "unat len \<le> length p" "tot \<le> len" "unat len - unat tot < k" "fileHandle d = Some h"
  shows "okR (write_loop k os p len tot (d, f)) (\<lambda>(ok, d', f'). \<exists>parts rest. sent f' = sent f @ parts \<and>
     fst ` set parts \<subseteq> {h} \<and> sent_bytes parts @ rest = drop (unat tot) (take (unat len) p) \<and> (ok \<longleftrightarrow> rest = []) \<and>
     d' = (if ok then d else d\<lparr>fileHandle := None\<rparr>) \<and> open_handles f' = open_handles f \<and> open_calls f' = open_calls f)"
  using assms
proof (induction k arbitrary: tot f)
  case (Suc k)
  let ?rest = "drop (unat tot) (take (unat len) p)"
  show ?case
  proof (cases "tot < len")
    case False
    then have "tot = len" using Suc.prems(3) by simp
    then show ?thesis by (auto intro!: exI [of _ "[]"] simp: sent_bytes_def)
  next
    case True
    let ?n = "write_calls f" and ?w = "write_result os (write_calls f) (unat (len - tot))"
    have lt: "unat tot < unat len" and sub: "unat (len - tot) = unat len - unat tot"
      using True Suc.prems(3) by (simp_all add: word_less_nat_alt unat_sub)
    have rest: "length ?rest = unat len - unat tot" using Suc.prems(2) by simp
    show ?thesis
    proof (cases "0 \<ge> ?w")
      case False
      have w: "nat ?w \<le> unat len - unat tot" "0 < nat ?w"
        using Suc.prems(1) False sub by (auto simp: writes_ok_def nat_le_iff)
      have small: "unat tot + nat ?w < 2 ^ 32"
        using w(1) lt unsigned_less [of len, where ?'a = nat] by simp
      have tot': "unat (tot + of_int ?w) = unat tot + nat ?w"
      proof -
        have "of_int ?w = (of_nat (nat ?w) :: u32)" using w(2) by simp
        then have "tot + of_int ?w = of_nat (unat tot + nat ?w)" by simp
        then show ?thesis using small by (simp only: unat_of_nat take_bit_eq_mod) simp
      qed
      let ?part = "take (nat ?w) (drop (unat tot) p)"
      let ?f = "f\<lparr>write_calls := ?n + 1, sent := sent f @ [(h, ?part)]\<rparr>"
      have le: "tot + of_int ?w \<le> len" and less: "unat len - unat (tot + of_int ?w) < k"
        using w lt Suc.prems(4) tot' by (simp_all add: word_le_nat_alt)
      have split: "?part @ drop (unat (tot + of_int ?w)) (take (unat len) p) = ?rest"
      proof -
        have a: "?part = take (nat ?w) ?rest" using w(1) by (simp add: drop_take min_def)
        have b: "drop (unat (tot + of_int ?w)) (take (unat len) p) = drop (nat ?w) ?rest"
          by (simp add: tot' add.commute)
        show ?thesis unfolding a b by (rule append_take_drop_id)
      qed
      have step: "write_loop (Suc k) os p len tot (d, f) = write_loop k os p len (tot + of_int ?w) (d, ?f)"
        using True False Suc.prems(2,5) by (simp add: Let_def)
      show ?thesis
        unfolding step
      proof (rule okR_mono [OF Suc.IH [OF Suc.prems(1,2) le less Suc.prems(5), of ?f]], goal_cases)
        case (1 x)
        obtain ok d' f' where x: "x = (ok, d', f')" by (cases x)
        from 1 [unfolded x prod.case] obtain parts rest where
          r: "sent f' = sent f @ (h, ?part) # parts" "fst ` set parts \<subseteq> {h}"
            "sent_bytes parts @ rest = drop (unat (tot + of_int ?w)) (take (unat len) p)" "ok \<longleftrightarrow> rest = []"
            "d' = (if ok then d else d\<lparr>fileHandle := None\<rparr>)" "open_handles f' = open_handles f" "open_calls f' = open_calls f"
          by auto
        have "sent_bytes ((h, ?part) # parts) @ rest = ?rest"
          using r(3) split by (simp add: sent_bytes_def)
        then show ?case
          unfolding x prod.case using r by (intro exI [of _ "(h, ?part) # parts"] exI [of _ rest]) simp
      qed
    qed (use True Suc.prems(2) lt in \<open>auto intro!: exI [of _ "[]"] simp: sent_bytes_def Let_def\<close>)
  qed
qed simp

text \<open>A device that is ready for use: its name is a string, and its handle one that was opened.\<close>

definition device_ok :: "CdevData_t \<times> files \<Rightarrow> bool" where
  "device_ok = (\<lambda>(d, f). CHR 0x00 \<in> set (fileName d) \<and> set_option (fileHandle d) \<subseteq> set (open_handles f))"

lemma open_device_ok:
  "device_ok (d, f) \<Longrightarrow> okR (open_device os (d, f)) (\<lambda>(d', f'). device_ok (d', f') \<and>
     d' = d\<lparr>fileHandle := fileHandle d'\<rparr> \<and> sent f' = sent f)"
  by (auto simp: device_ok_def open_device_def c_string_def Let_def)

text \<open>
  What a call with a message leaves: of the device only the handle has changed, and the parts that
  were taken over went to one open handle; \<open>rest\<close> is what is missing.
\<close>

definition transmitted :: "u8 list \<Rightarrow> CdevData_t \<times> files \<Rightarrow> bool \<times> CdevData_t \<times> files \<Rightarrow> bool" where
  "transmitted msg = (\<lambda>(d, f) (ok, d', f'). device_ok (d', f') \<and> d' = d\<lparr>fileHandle := fileHandle d'\<rparr> \<and>
     (\<exists>h parts rest. sent f' = sent f @ parts \<and> (parts \<noteq> [] \<longrightarrow> h \<in> set (open_handles f')) \<and>
        fst ` set parts \<subseteq> {h} \<and> sent_bytes parts @ rest = msg \<and> (ok \<longleftrightarrow> rest = [])))"

lemma Cdev_Write_transmitted:
  assumes "writes_ok os" "device_ok (d, f)" "unat len \<le> length p" "len \<noteq> 0" "fileFlags d \<noteq> O_RDONLY"
  shows "okR (Cdev_Write os (Some p) len (d, f)) (transmitted (take (unat len) p) (d, f))"
proof -
  let ?msg = "take (unat len) p"
  let ?go = "\<lambda>(d, f). if fileHandle d = None then Inr (False, d, f) else write_loop (Suc (unat len)) os p len 0 (d, f)"
  have "okR (?go (d', f')) (transmitted ?msg (d, f))"
    if o: "device_ok (d', f')" "d' = d\<lparr>fileHandle := fileHandle d'\<rparr>" "sent f' = sent f" for d' f'
  proof (cases "fileHandle d'")
    case None
    then show ?thesis
      using o assms(3,4) by (auto simp: transmitted_def sent_bytes_def unat_eq_zero intro!: exI [of _ "[]"])
  next
    case (Some h)
    have "okR (write_loop (Suc (unat len)) os p len 0 (d', f')) (\<lambda>(ok, d'', f''). \<exists>parts rest. sent f'' = sent f' @ parts \<and>
     fst ` set parts \<subseteq> {h} \<and> sent_bytes parts @ rest = drop (unat (0 :: u32)) ?msg \<and> (ok \<longleftrightarrow> rest = []) \<and>
     d'' = (if ok then d' else d'\<lparr>fileHandle := None\<rparr>) \<and> open_handles f'' = open_handles f' \<and> open_calls f'' = open_calls f')"
      by (rule write_loop_parts) (use assms Some in \<open>simp_all add: word_le_nat_alt\<close>)
    then have "okR (write_loop (Suc (unat len)) os p len 0 (d', f')) (transmitted ?msg (d, f))"
      by (rule okR_mono) (use o Some in \<open>fastforce simp: transmitted_def device_ok_def split: if_splits\<close>)
    then show ?thesis using Some by simp
  qed
  moreover have "Cdev_Write os (Some p) len (d, f) = bindR (open_device os (d, f)) ?go"
    using assms(4,5) by (simp add: Cdev_Write_def)
  ultimately show ?thesis
    by (simp only: okR_bindR) (rule okR_mono [OF open_device_ok [OF assms(2)]], blast)
qed


text \<open>A system that takes two bytes at a time, and a device that has just been initialised.\<close>

definition two_bytes :: os where
  "two_bytes = \<lparr>open_ok = (\<lambda>_. True), write_result = (\<lambda>_ n. int (min 2 n))\<rparr>"

definition no_files :: files where
  "no_files = \<lparr>open_calls = 0, open_handles = [], write_calls = 0, sent = []\<rparr>"

definition tx_device :: CdevData_t where
  "tx_device = CdevData_zero\<lparr>fileName := strncpy MAX_FILENAME_LEN ''/dev/inic-control-tx'', fileHandle := None,
     allowThreadRun := True, fileFlags := O_WRONLY\<rparr>"


section \<open>Handles that are lost\<close>

definition write_messages :: "os \<Rightarrow> u8 list list \<Rightarrow> CdevData_t \<times> files \<Rightarrow> (CdevData_t \<times> files) result" where
  "write_messages os = foldR (\<lambda>p s. bindR (Cdev_Write os (Some p) (of_nat (length p)) s) (\<lambda>(_, s). Inr s))"

lemma failing_write:
  assumes "open_ok os (open_calls f)" "write_result os (write_calls f) (length p) \<le> 0" "p \<noteq> []" "length p < 2 ^ 32"
    and "CHR 0x00 \<in> set (fileName d)" "fileFlags d \<noteq> O_RDONLY" "fileHandle d = None"
  shows "Cdev_Write os (Some p) (of_nat (length p)) (d, f) = Inr (False, d,
     f\<lparr>open_calls := Suc (open_calls f), open_handles := open_handles f @ [open_calls f], write_calls := Suc (write_calls f)\<rparr>)"
proof -
  have u: "unat (of_nat (length p) :: u32) = length p" using assms(4) by (simp add: unat_of_nat take_bit_eq_mod)
  then have n: "(of_nat (length p) :: u32) \<noteq> 0" using assms(3) by (metis length_0_conv unsigned_0)
  then have "0 < (of_nat (length p) :: u32)" by (simp add: word_gt_0)
  then show ?thesis
    using assms u n by (simp add: Cdev_Write_def open_device_def c_string_def Let_def)
qed

lemma failing_writes:
  assumes "\<forall>n. open_ok os n" "\<forall>n k. write_result os n k \<le> 0" "\<forall>p \<in> set msgs. p \<noteq> [] \<and> length p < 2 ^ 32"
    and "CHR 0x00 \<in> set (fileName d)" "fileFlags d \<noteq> O_RDONLY" "fileHandle d = None"
  shows "\<exists>f'. write_messages os msgs (d, f) = Inr (d, f') \<and>
     open_handles f' = open_handles f @ [open_calls f..<open_calls f + length msgs]"
  using assms(3)
proof (induction msgs arbitrary: f)
  case (Cons p msgs)
  let ?f = "f\<lparr>open_calls := Suc (open_calls f), open_handles := open_handles f @ [open_calls f], write_calls := Suc (write_calls f)\<rparr>"
  have "write_messages os (p # msgs) (d, f) = write_messages os msgs (d, ?f)"
    using failing_write [of os f p d] assms Cons.prems by (simp add: write_messages_def)
  moreover obtain f' where "write_messages os msgs (d, ?f) = Inr (d, f')"
      "open_handles f' = open_handles ?f @ [open_calls ?f..<open_calls ?f + length msgs]"
    using Cons.IH [of ?f] Cons.prems by auto
  moreover have "[open_calls f..<open_calls f + length (p # msgs)] = open_calls f # [open_calls ?f..<open_calls ?f + length msgs]"
    by (simp add: upt_conv_Cons del: upt_Suc)
  ultimately show ?case by simp
qed (simp add: write_messages_def)

text \<open>
  C29: A device that does not accept messages uses up the handles of the process. Each message that
  cannot be written opens the device again, and the handle of before is forgotten but not closed:
  after \<open>n\<close> messages there are \<open>n\<close> more open handles and none that the program knows.
\<close>

theorem failing_writes_leak:
  assumes "\<forall>n. open_ok os n" "\<forall>n k. write_result os n k \<le> 0" "\<forall>p \<in> set msgs. p \<noteq> [] \<and> length p < 2 ^ 32"
    and "CHR 0x00 \<in> set (fileName d)" "fileFlags d \<noteq> O_RDONLY" "fileHandle d = None"
  shows "\<exists>f'. write_messages os msgs (d, f) = Inr (d, f') \<and>
     open_handles f' = open_handles f @ [open_calls f..<open_calls f + length msgs]"
  by (rule failing_writes [OF assms])

theorem failing_writes_leak_witness:
  "\<exists>f'. write_messages \<lparr>open_ok = (\<lambda>_. True), write_result = (\<lambda>_ _. -1)\<rparr> [[1, 2], [3], [4, 5, 6]] (tx_device, no_files) =
     Inr (tx_device, f') \<and> open_handles f' = [0, 1, 2]"
  using failing_writes_leak [of "\<lparr>open_ok = (\<lambda>_. True), write_result = (\<lambda>_ _. -1)\<rparr>" "[[1, 2], [3], [4, 5, 6]]" tx_device no_files]
  by (auto simp: tx_device_def CdevData_zero_def strncpy_def MAX_FILENAME_LEN_def no_files_def upt_rec)

end
