(* ===== verification/Task.thy ===== *)
theory Task
  imports Control Console Cdev Ucsi_Api
begin

text \<open>
  The daemon's task: src/src/task-unicens.c. It owns the instance of the integration layer, answers
  the layer's callbacks, and passes messages between the layer and the two character devices.

  What the operating system answers is a parameter (\<open>task_os\<close>): the files of \<open>Cdev\<close>, the clock, and
  whether timers, semaphores and threads can be created. So are the configuration that
  \<open>UcsXml_ParseFile\<close> makes of a file, and the driver configurators. A semaphore is its
  count; a timer is the time it is set to, in seconds and nanoseconds, where zero is not armed.
  The callbacks of the layer are the entries of its trace; the task handles them in their order.
\<close>

section \<open>State\<close>

definition CDEV_PATH_LEN :: nat where "CDEV_PATH_LEN = 64"
definition CABLE_DIAGNOSYS_DELAY :: u32 where "CABLE_DIAGNOSYS_DELAY = 1000"

definition CONSOLE_BLUE :: string where "CONSOLE_BLUE = ESC # ''[0;36m''"

text \<open>What the task passes on of a parsed configuration or of the default configuration.\<close>

record network =
  packetBw :: u16
  proxyBw :: u16
  pRoutes :: "Ucs_Rm_Route_t list option"
  routesSize :: u16
  pNod :: "Ucs_Rm_Node_t list option"
  nodSize :: u16

record task_os = os +
  get_time :: "ucsi_out list \<Rightarrow> (nat \<times> nat) option"
  timer_ok :: bool
  service_sem_ok :: bool
  rx_sem_ok :: bool
  rx_thread_ok :: bool
  errno :: "files \<Rightarrow> int"
  parse_file :: "string \<Rightarrow> network option"
  default_config :: network
  mld_start :: "u8 \<Rightarrow> network \<Rightarrow> u16 \<Rightarrow> string option \<Rightarrow> bool"
  mld_cdevs :: "u8 \<Rightarrow> nat \<Rightarrow> (string \<times> string) option"

text \<open>
  The parameters of the task, and its static data \<open>m\<close>. The instance data, the static data of the
  printer and the trace are \<open>unicensData\<close>, which also holds the member \<open>promiscuousMode\<close>; the console
  and the files of the process are kept here, too.
\<close>

record TaskUnicens_t =
  tv_noRouteTable :: bool
  tv_lldTrace :: bool
  tv_promiscuousMode :: bool
  tv_debugLocalMsg :: bool
  tv_cfgFileName :: "string option"
  tv_drvVersion :: u8
  tv_drvLocalNodeAddr :: u16
  tv_drvFilter :: "string option"
  tv_controlRxCdev :: "string option"
  tv_controlTxCdev :: "string option"
  tv_programNodeCnt :: u8
  tv_programPersistent :: bool

record LocalVar_t =
  allowRun :: bool
  lldTrace :: bool
  noRouteTable :: bool
  cfg :: "network option"
  unicensData :: ucsi
  unicensRunning :: bool
  unicensTimeout :: bool
  unicensTrigger :: bool
  amsReceived :: bool
  unicensDataAvailable :: bool
  txErrorState :: bool
  cableDiagnosisTimer :: u32
  ucsTimer :: "nat \<times> nat"
  serviceSem :: nat
  ctrlTx :: CdevData_t
  ctrlRx :: CdevData_t
  controlRxCdev :: string
  controlTxCdev :: string
  programNodeCnt :: u8
  programPersistent :: bool
  console :: "msg_arg LocalData_t"
  fs :: files

definition say :: "ConsolePrio_t \<Rightarrow> string \<Rightarrow> msg_arg list \<Rightarrow> LocalVar_t \<Rightarrow> LocalVar_t" where
  "say prio fmt vargs m = m\<lparr>console := ConsolePrintf prio (Some fmt) vargs (console m)\<rparr>"

definition CRLF :: string where "CRLF = [CHR 0x0D, CHR 0x0A]"
definition LF :: string where "LF = [CHR 0x0A]"

section \<open>Clock, timer and semaphore\<close>

text \<open>\<open>clock_gettime\<close> at the time of the trace \<open>past\<close>; the product is computed in 64 bits and cut.\<close>

definition GetTicks :: "'z task_os_scheme \<Rightarrow> ucsi_out list \<Rightarrow> u32" where
  "GetTicks os past = (case get_time os past of
     None \<Rightarrow> 0
   | Some (tv_sec, tv_nsec) \<Rightarrow> of_nat (tv_sec * 1000 + tv_nsec div 1000000))"

definition UCSI_CB_OnGetTime :: "'z task_os_scheme \<Rightarrow> ucsi_out list \<Rightarrow> u16" where
  "UCSI_CB_OnGetTime os past = ucast (GetTicks os past)"

definition TimerSetTimeOut :: "u16 \<Rightarrow> LocalVar_t \<Rightarrow> LocalVar_t" where
  "TimerSetTimeOut timeout m =
     m\<lparr>ucsTimer := (unat timeout div 1000, unat timeout mod 1000 * 1000000)\<rparr>"

definition SemPost :: "LocalVar_t \<Rightarrow> LocalVar_t" where
  "SemPost m = m\<lparr>serviceSem := serviceSem m + 1\<rparr>"

text \<open>The function of the timer's thread: it sets the flag and then posts.\<close>

definition UcsTimerOnTimeout :: "LocalVar_t \<Rightarrow> LocalVar_t" where
  "UcsTimerOnTimeout m = SemPost (m\<lparr>unicensTimeout := True\<rparr>)"

definition Cdev_CB_OnDataAvailable :: "LocalVar_t \<Rightarrow> LocalVar_t" where
  "Cdev_CB_OnDataAvailable m = SemPost (m\<lparr>unicensDataAvailable := True\<rparr>)"

section \<open>Callbacks of the integration layer\<close>

definition hex_bytes :: "u8 list \<Rightarrow> (string \<times> msg_arg list) list" where
  "hex_bytes = map (\<lambda>b. (''%02X '', [MInt (uint b)]))"

text \<open>The trace of a message, when it is switched on.\<close>

definition lld_trace :: "string \<Rightarrow> u32 \<Rightarrow> u8 list \<Rightarrow> LocalVar_t \<Rightarrow> LocalVar_t" where
  "lld_trace start ticks bytes m =
     (if lldTrace m
      then m\<lparr>console := print_segments PRIO_HIGH (start, [MInt (uint ticks)]) (hex_bytes bytes)
               (RESETCOLOR @ LF, []) (console m)\<rparr>
      else m)"

definition UCSI_CB_OnNetworkState ::
  "'z task_os_scheme \<Rightarrow> ucsi_out list \<Rightarrow> bool \<Rightarrow> u16 \<Rightarrow> u8 \<Rightarrow> LocalVar_t \<Rightarrow> LocalVar_t" where
  "UCSI_CB_OnNetworkState os past isAvailable packetBandwidth amountOfNodes m =
     (let m = say PRIO_HIGH (YELLOW @ ''Network isAvailable=%s, packetBW=%d, nodeCount=%d'' @ RESETCOLOR @ CRLF)
                [MStr (if isAvailable then ''yes'' else ''no''), MInt (uint packetBandwidth), MInt (uint amountOfNodes)] m
      in m\<lparr>cableDiagnosisTimer := (if isAvailable then 0 else GetTicks os past + CABLE_DIAGNOSYS_DELAY)\<rparr>)"

text \<open>The text is put together in a buffer of 300 characters (\<open>vsnprintf\<close>) before it is printed.\<close>

definition UCSI_CB_OnUserMessage ::
  "UCSI_UserMessageUrgency_t \<Rightarrow> string \<Rightarrow> msg_arg list \<Rightarrow> LocalVar_t \<Rightarrow> LocalVar_t" where
  "UCSI_CB_OnUserMessage urgency fmt vargs =
     (let outbuf = MText 300 fmt vargs in case urgency of
        UCSI_MsgError \<Rightarrow> say PRIO_ERROR (RED @ ''%s'' @ RESETCOLOR @ CRLF) [outbuf]
      | UCSI_MsgUrgent \<Rightarrow> say PRIO_HIGH (YELLOW @ ''%s'' @ RESETCOLOR @ CRLF) [outbuf]
      | UCSI_MsgDebug \<Rightarrow> say PRIO_LOW (''%s'' @ CRLF) [outbuf])"

definition UCSI_CB_OnServiceRequired :: "LocalVar_t \<Rightarrow> LocalVar_t" where
  "UCSI_CB_OnServiceRequired m = SemPost (m\<lparr>unicensTrigger := True\<rparr>)"

text \<open>The outcome of the write decides whether an error is reported, once, or its end.\<close>

definition UCSI_CB_OnTxRequest ::
  "'z task_os_scheme \<Rightarrow> ucsi_out list \<Rightarrow> u8 list \<Rightarrow> LocalVar_t \<Rightarrow> LocalVar_t result" where
  "UCSI_CB_OnTxRequest os past pPayload m =
     (let m = lld_trace (CONSOLE_BLUE @ ''%08d: MSG_TX: '') (GetTicks os past) pPayload m
      in bindR (Cdev_Write (os.truncate os) (Some pPayload) (of_nat (length pPayload)) (ctrlTx m, fs m)) (\<lambda>(ok, d, f).
         let m = m\<lparr>ctrlTx := d, fs := f\<rparr>
         in if ok then
              if txErrorState m
              then bindR (c_string (controlTxCdev m)) (\<lambda>path.
                Inr (say PRIO_ERROR (GREEN @ ''CDEV TX (%s) opened'' @ RESETCOLOR @ CRLF) [MStr path]
                  (m\<lparr>txErrorState := False\<rparr>)))
              else Inr m
            else if \<not> txErrorState m
            then bindR (c_string (controlTxCdev m)) (\<lambda>path.
              Inr (say PRIO_ERROR (RED @ ''CDEV TX error (%s), reason='' @ quoted ''%s'' @ RESETCOLOR @ CRLF)
                [MStr path, MStr (GetErrnoString (errno os f))] (m\<lparr>txErrorState := True\<rparr>)))
            else Inr m))"

definition UCSI_CB_OnRouteResult :: "u16 \<Rightarrow> bool \<Rightarrow> u16 \<Rightarrow> LocalVar_t \<Rightarrow> LocalVar_t" where
  "UCSI_CB_OnRouteResult routeId isActive connectionLabel =
     say PRIO_MEDIUM ((if isActive then ''Route id=0x%X isActive=true ConLabel=0x%X''
         else ''Route id=0x%X isActive='' @ YELLOW @ ''false'' @ RESETCOLOR @ '' ConLabel=0x%X'') @ CRLF)
       [MInt (uint routeId), MInt (uint connectionLabel)]"

text \<open>The signature is printed line by line.\<close>

definition report_signature :: "Ucs_Signature_t \<Rightarrow> LocalVar_t \<Rightarrow> LocalVar_t" where
  "report_signature sg m =
     fold (\<lambda>(fmt, vargs). say PRIO_MEDIUM (fmt @ CRLF) vargs)
       [(GREEN @ replicate 45 (CHR ''*''), []), (''* NODE SIGNATURE:'', []), (''* Node Addr=0x%X'', [MInt (uint (node_address sg))]),
        (''* Group Addr=0x%X'', [MInt (uint (group_address sg))]),
        (''* MAC Addr=0x%04X%04X%04X'', [MInt (uint (mac_47_32 sg)), MInt (uint (mac_31_16 sg)), MInt (uint (mac_15_0 sg))]),
        (''* Node Pos Addr=0x%X'', [MInt (uint (node_pos_addr sg))]),
        (''* Diagosis Id=0x%X'', [MInt (uint (diagnosis_id sg))]),
        (''* Num Ports=%d'', [MInt (uint (num_ports sg))]), (''* Chip ID=0x%X'', [MInt (uint (chip_id sg))]),
        (''* Firmware=%d.%d.%d.%d'', [MInt (uint (fw_major sg)), MInt (uint (fw_minor sg)), MInt (uint (fw_release sg)),
           MInt (uint (fw_build sg))]),
        (''* CS=%d.%d.%d'', [MInt (uint (cs_major sg)), MInt (uint (cs_minor sg)), MInt (uint (cs_release sg))]),
        (replicate 45 (CHR ''*'') @ RESETCOLOR, [])] m"

fun task_callback ::
  "'z task_os_scheme \<Rightarrow> ucsi_out list \<Rightarrow> ucsi_out \<Rightarrow> LocalVar_t \<Rightarrow> LocalVar_t result" where
  "task_callback os past (Lib c) m = Inr m"
| "task_callback os past (CB_OnUserMessage u fmt vargs) m = Inr (UCSI_CB_OnUserMessage u fmt vargs m)"
| "task_callback os past (CB_OnCommandResult c ok a) m = Inr m"
| "task_callback os past CB_OnServiceRequired m = Inr (UCSI_CB_OnServiceRequired m)"
| "task_callback os past (CB_OnSetServiceTimer t) m = Inr (TimerSetTimeOut t m)"
| "task_callback os past CB_OnStart m = Inr (m\<lparr>unicensRunning := True\<rparr>)"
| "task_callback os past CB_OnStop m = Inr (m\<lparr>unicensRunning := False\<rparr>)"
| "task_callback os past CB_OnResetInic m = Inr m"
| "task_callback os past (CB_OnTxRequest bytes) m = UCSI_CB_OnTxRequest os past bytes m"
| "task_callback os past (CB_OnNetworkState av bw n) m = Inr (UCSI_CB_OnNetworkState os past av bw n m)"
| "task_callback os past (CB_OnPrintRouteTable str) m = Inr (say PRIO_HIGH (''%s'' @ CRLF) [MStr str] m)"
| "task_callback os past (CB_OnRouteResult r act l) m = Inr (UCSI_CB_OnRouteResult r act l m)"
| "task_callback os past (CB_OnGpioStateChange a pin high) m = Inr (say PRIO_HIGH
     (''GPIO state changed, nodeAddress=0x%X, gpioPinId=%d, isHighState=%s'' @ CRLF)
     [MInt (uint a), MInt (uint pin), MStr (if high then ''yes'' else ''no'')] m)"
| "task_callback os past (CB_OnMgrReport c sg n) m =
     Inr (if c = UCS_SUPV_REP_AVAILABLE then report_signature sg m else m)"
| "task_callback os past (CB_OnI2CRead ok a sl bytes n) m = Inr (if ok then m else
     say PRIO_ERROR (RED @ ''I2C read failed for node=0x%X slave=0x%X'' @ RESETCOLOR @ CRLF)
       [MInt (uint a), MInt (uint sl)] m)"
| "task_callback os past CB_OnAmsMessageReceived m = Inr (SemPost (m\<lparr>amsReceived := True\<rparr>))"
| "task_callback os past (CB_OnCableDiagnosisResult arr n) m =
     (if length arr < unat n then Inl OutOfBounds else
      Inr (m\<lparr>console := print_segments PRIO_HIGH (''Cable Diagnosis Result = { '', [])
        (map (\<lambda>i. (''[Pos %d]=0x%X '', [MInt (int i), MInt (uint (arr ! i))])) [0..<unat n])
        (''}'' @ CRLF, []) (console m)\<rparr>))"
| "task_callback os past (CB_I2CWriteResult ok md a sl p) m = Inr m"

fun task_callbacks ::
  "'z task_os_scheme \<Rightarrow> ucsi_out list \<Rightarrow> ucsi_out list \<Rightarrow> LocalVar_t \<Rightarrow> LocalVar_t result" where
  "task_callbacks os past [] m = Inr m"
| "task_callbacks os past (x # xs) m = bindR (task_callback os past x m) (task_callbacks os (past @ [x]) xs)"

text \<open>An operation of the layer with the callbacks it makes.\<close>

definition with_ucsi ::
  "'z task_os_scheme \<Rightarrow> (ucsi \<Rightarrow> ('a \<times> ucsi) result) \<Rightarrow> LocalVar_t \<Rightarrow> ('a \<times> LocalVar_t) result" where
  "with_ucsi os f m =
     (let past = trace (unicensData m) in
      bindR (f (unicensData m)) (\<lambda>(x, u).
      bindR (task_callbacks os past (drop (length past) (trace u)) (m\<lparr>unicensData := u\<rparr>)) (\<lambda>m. Inr (x, m))))"

definition do_ucsi :: "'z task_os_scheme \<Rightarrow> (ucsi \<Rightarrow> ucsi result) \<Rightarrow> LocalVar_t \<Rightarrow> LocalVar_t result" where
  "do_ucsi os f m = bindR (with_ucsi os (\<lambda>u. bindR (f u) (\<lambda>u. Inr ((), u))) m) (\<lambda>(_, m). Inr m)"

section \<open>Service\<close>

text \<open>The library sees the clock of the task.\<close>

definition task_lib :: "'z task_os_scheme \<Rightarrow> ucs_lib \<Rightarrow> ucs_lib" where
  "task_lib os L = L\<lparr>lib_time := UCSI_CB_OnGetTime os\<rparr>"

text \<open>
  A message of the receive thread is used up when the layer takes it, or while the network is not
  running; otherwise the layer is to be serviced first and the message stays.
\<close>

definition process_rx :: "'z task_os_scheme \<Rightarrow> ucs_lib \<Rightarrow> LocalVar_t \<Rightarrow> (bool \<times> LocalVar_t) result" where
  "process_rx os L m =
     (case Cdev_GetRx (ctrlRx m) of
        None \<Rightarrow> Inr (False, m)
      | Some (pData, len) \<Rightarrow>
          if \<not> unicensRunning m then Inr (True, m) else
          bindR (with_ucsi os (UCSI_ProcessRxData L pData len) m) (\<lambda>(ok, m).
          if ok then Inr (True, lld_trace (YELLOW @ ''%08d: MSG_RX: '') (GetTicks os (trace (unicensData m)))
                 (take (unat len) pData) m)
          else Inr (False, (say PRIO_ERROR (''RX buffer overflow'' @ CRLF) [] m)\<lparr>unicensTrigger := True\<rparr>)))"

definition release_rx :: "LocalVar_t \<Rightarrow> LocalVar_t" where
  "release_rx m = m\<lparr>ctrlRx := snd (Cdev_PopRx (ctrlRx m))\<rparr>"

definition service_trigger :: "'z task_os_scheme \<Rightarrow> ucs_lib \<Rightarrow> LocalVar_t \<Rightarrow> LocalVar_t result" where
  "service_trigger os L m =
     (if unicensTrigger m then do_ucsi os (UCSI_Service L) (m\<lparr>unicensTrigger := False\<rparr>) else Inr m)"

definition service_ams :: "'z task_os_scheme \<Rightarrow> ucs_lib \<Rightarrow> LocalVar_t \<Rightarrow> LocalVar_t result" where
  "service_ams os L m =
     (if \<not> amsReceived m then Inr m else
      bindR (with_ucsi os (UCSI_GetAmsMessage L) (m\<lparr>amsReceived := False\<rparr>)) (\<lambda>(msg, m).
      case msg of
        None \<Rightarrow> Inr m
      | Some (amsId, sourceAddress, _, len) \<Rightarrow>
          do_ucsi os (UCSI_ReleaseAmsMessage L)
            (if lldTrace m
             then say PRIO_HIGH (''Received AMS, id=0x%X, source=0x%X, len=%u'' @ CRLF)
               [MInt (uint amsId), MInt (uint sourceAddress), MInt (uint len)] m
             else m)))"

definition service_cable :: "'z task_os_scheme \<Rightarrow> LocalVar_t \<Rightarrow> LocalVar_t result" where
  "service_cable os m =
     (if cableDiagnosisTimer m \<noteq> 0 \<and> GetTicks os (trace (unicensData m)) \<ge> cableDiagnosisTimer m
      then bindR (with_ucsi os UCSI_RunCableDiagnosis
             (say PRIO_HIGH (''Starting network diagnosis..'' @ CRLF) [] (m\<lparr>cableDiagnosisTimer := 0\<rparr>))) (\<lambda>(_, m). Inr m)
      else Inr m)"

text \<open>One round, as far as no other thread interferes; \<open>None\<close> stays in \<open>SemWait\<close>.\<close>

definition TaskUnicens_Service :: "'z task_os_scheme \<Rightarrow> ucs_lib \<Rightarrow> LocalVar_t \<Rightarrow> LocalVar_t option result" where
  "TaskUnicens_Service os L m =
     bindR (service_trigger os L m) (\<lambda>m.
     bindR (if unicensTimeout m then do_ucsi os (UCSI_Timeout L) (m\<lparr>unicensTimeout := False\<rparr>) else Inr m) (\<lambda>m.
     bindR (if unicensDataAvailable m
            then bindR (process_rx os L m) (\<lambda>(used, m).
              Inr (if used then release_rx (m\<lparr>unicensDataAvailable := False\<rparr>) else m))
            else Inr m) (\<lambda>m.
     bindR (service_ams os L m) (\<lambda>m.
     bindR (service_cable os m) (\<lambda>m.
     Inr (if serviceSem m = 0 then None else Some (m\<lparr>serviceSem := serviceSem m - 1\<rparr>)))))))"

section \<open>Initialisation\<close>

definition task_zero :: "LocalVar_t \<Rightarrow> LocalVar_t" where
  "task_zero m = \<lparr>allowRun = False, lldTrace = False, noRouteTable = False, cfg = None,
     unicensData = unicensData m, unicensRunning = False, unicensTimeout = False, unicensTrigger = False,
     amsReceived = False, unicensDataAvailable = False, txErrorState = False, cableDiagnosisTimer = 0,
     ucsTimer = (0, 0), serviceSem = 0, ctrlTx = CdevData_zero, ctrlRx = CdevData_zero,
     controlRxCdev = replicate CDEV_PATH_LEN (CHR 0x00), controlTxCdev = replicate CDEV_PATH_LEN (CHR 0x00),
     programNodeCnt = 0, programPersistent = False, console = console m, fs = fs m\<rparr>"

text \<open>Leaving \<open>TaskUnicens_Init\<close> with \<open>false\<close> and a message.\<close>

definition failX :: "string \<Rightarrow> (bool, 'a, LocalVar_t) xe" where
  "failX msg = thenX (updX (say PRIO_ERROR (RED @ msg @ RESETCOLOR @ CRLF) [])) (stopX False)"

definition needX :: "bool \<Rightarrow> string \<Rightarrow> (bool, unit, LocalVar_t) xe" where
  "needX ok msg = (if ok then retX () else failX msg)"

definition changeX :: "(LocalVar_t \<Rightarrow> ('a \<times> LocalVar_t) result) \<Rightarrow> (bool, 'a, LocalVar_t) xe" where
  "changeX f m = bindR (f m) (\<lambda>(x, m). Inr (Inr x, m))"

text \<open>
  The names of the devices come from the configurator when neither was given: it is asked until it
  knows them.
\<close>

definition wait_for_cdevs :: "'z task_os_scheme \<Rightarrow> u8 \<Rightarrow> (bool, unit, LocalVar_t) xe" where
  "wait_for_cdevs os version =
     bindX (changeX (\<lambda>m. loopR (\<lambda>(n, m). mld_cdevs os version n = None)
       (\<lambda>(n, m). (Suc n, say PRIO_ERROR (YELLOW @ ''Wait for INICs control channel to appear'' @ RESETCOLOR @ CRLF) [] m))
       (0, m))) (\<lambda>n.
     case mld_cdevs os version n of
       None \<Rightarrow> retX ()
     | Some (tx, rx) \<Rightarrow> updX (\<lambda>m. m\<lparr>controlTxCdev := strncpy CDEV_PATH_LEN tx, controlRxCdev := strncpy CDEV_PATH_LEN rx\<rparr>))"

definition start_driver_config ::
  "'z task_os_scheme \<Rightarrow> TaskUnicens_t \<Rightarrow> network \<Rightarrow> (bool, unit, LocalVar_t) xe" where
  "start_driver_config os pVar net =
     (let v = tv_drvVersion pVar in
      if (v = 1 \<or> v = 2) \<and> tv_drvLocalNodeAddr pVar \<noteq> 0
      then thenX (needX (mld_start os v net (tv_drvLocalNodeAddr pVar) (tv_drvFilter pVar))
             (if v = 1 then ''Could not start driver V1 configuration service''
              else ''Could not start driver V2 configuration service''))
           (whenX (tv_controlRxCdev pVar = None \<and> tv_controlTxCdev pVar = None) (wait_for_cdevs os v))
      else retX ())"

definition new_config ::
  "'z task_os_scheme \<Rightarrow> network \<Rightarrow> string \<Rightarrow> (bool, unit, LocalVar_t) xe" where
  "new_config os net msg =
     bindX (getX (\<lambda>m. (programNodeCnt m, programPersistent m))) (\<lambda>(n, p).
     bindX (changeX (with_ucsi os (UCSI_NewConfig (packetBw net) (proxyBw net) (pRoutes net) (routesSize net)
       (pNod net) (nodSize net) n p))) (\<lambda>ok. needX ok msg))"

text \<open>The message with the names is formatted only when the priority lets it through.\<close>

definition InitializeCdevs :: "'z task_os_scheme \<Rightarrow> LocalVar_t \<Rightarrow> (bool \<times> LocalVar_t) result" where
  "InitializeCdevs os m =
     bindR (if prio_number PRIO_LOW < prio_number (minPrio (console m)) then Inr m else
            bindR (c_string (controlRxCdev m)) (\<lambda>rx. bindR (c_string (controlTxCdev m)) (\<lambda>tx.
            Inr (say PRIO_LOW (''RX-CDEV='' @ quoted ''%s'' @ '', TX-CDEV='' @ quoted ''%s'' @ CRLF) [MStr rx, MStr tx] m)))) (\<lambda>m.
     bindR (Cdev_Init (Some (controlTxCdev m)) False True (ctrlTx m)) (\<lambda>(ok, d).
     let m = m\<lparr>ctrlTx := d\<rparr> in if \<not> ok then Inr (False, m) else
     bindR (Cdev_Init (Some (controlRxCdev m)) True False (ctrlRx m)) (\<lambda>(ok, d).
     let m = m\<lparr>ctrlRx := d\<rparr> in if \<not> ok then Inr (False, m) else
     case Cdev_StartReading (rx_sem_ok os) (rx_thread_ok os) (ctrlRx m) of
       (ok, d) \<Rightarrow> Inr (ok, m\<lparr>ctrlRx := d\<rparr>))))"

definition take_parameters :: "TaskUnicens_t \<Rightarrow> LocalVar_t \<Rightarrow> LocalVar_t" where
  "take_parameters pVar m =
     (let m = task_zero m;
          m = (case (tv_controlRxCdev pVar, tv_controlTxCdev pVar) of
                 (Some rx, Some tx) \<Rightarrow>
                   m\<lparr>controlRxCdev := strncpy CDEV_PATH_LEN rx, controlTxCdev := strncpy CDEV_PATH_LEN tx\<rparr>
               | _ \<Rightarrow> m)
      in m\<lparr>noRouteTable := tv_noRouteTable pVar, lldTrace := tv_lldTrace pVar,
           unicensData := (unicensData m)\<lparr>promiscuousMode := tv_promiscuousMode pVar\<rparr>,
           programNodeCnt := tv_programNodeCnt pVar, programPersistent := tv_programPersistent pVar\<rparr>)"

definition init_steps :: "'z task_os_scheme \<Rightarrow> ucs_lib \<Rightarrow> TaskUnicens_t \<Rightarrow> (bool, bool, LocalVar_t) xe" where
  "init_steps os L pVar =
     thenX (updX (take_parameters pVar))
     (thenX (needX (timer_ok os \<and> service_sem_ok os) ''Failed to initialize timer/threading resources'')
     (thenX (case tv_cfgFileName pVar of
               None \<Rightarrow> retX ()
             | Some file \<Rightarrow> thenX (updX (\<lambda>m. m\<lparr>cfg := parse_file os file\<rparr>))
                 (needX (parse_file os file \<noteq> None) ''XML Parser error''))
     (thenX (changeX (with_ucsi os (\<lambda>u. Inr ((), UCSI_Init L (tv_debugLocalMsg pVar) u))))
     (thenX (needX (\<not> (tv_programPersistent pVar \<and> tv_programNodeCnt pVar = 0))
        ''Can not program persistent without setting amount of nodes (use additional -program)'')
     (thenX (bindX (getX cfg) (\<lambda>c. case c of
               Some net \<Rightarrow> thenX (start_driver_config os pVar net)
                 (new_config os net ''Could not enqueue XML generated UNICENS config'')
             | None \<Rightarrow> new_config os (default_config os) ''Could not enqueue default UNICENS config''))
     (bindX (changeX (InitializeCdevs os)) (\<lambda>ok.
      thenX (needX ok ''Failed to initialize Control CDEVs'')
      (thenX (updX (\<lambda>m. m\<lparr>allowRun := True\<rparr>)) (retX True)))))))))"

definition TaskUnicens_Init ::
  "'z task_os_scheme \<Rightarrow> ucs_lib \<Rightarrow> TaskUnicens_t option \<Rightarrow> LocalVar_t \<Rightarrow> (bool \<times> LocalVar_t) result" where
  "TaskUnicens_Init os L pVar m =
     (case pVar of
        None \<Rightarrow> Inr (False, m)
      | Some p \<Rightarrow> bindR (init_steps os (task_lib os L) p m) (\<lambda>(r, m). Inr (case r of Inl b \<Rightarrow> b | Inr b \<Rightarrow> b, m)))"

end
