(* ===== verification/Daemon_Main.thy ===== *)
theory Daemon_Main
  imports Task C_Strtol
begin

text \<open>
  The start of the process: src/src/main.c. The command line fills the parameters of the task; the
  console is the one of the task's data, which exists before the task is initialised. The
  strings of the command line are in memory that lives as long as the process.
\<close>

section \<open>Command line\<close>

definition UNICENSD_VERSION :: string where "UNICENSD_VERSION = ''V5.2.1''"
definition DEFAULT_CONTROL_CDEV_TX :: string where "DEFAULT_CONTROL_CDEV_TX = ''/dev/inic-control-tx''"
definition DEFAULT_CONTROL_CDEV_RX :: string where "DEFAULT_CONTROL_CDEV_RX = ''/dev/inic-control-rx''"

definition TaskUnicens_zero :: TaskUnicens_t where
  "TaskUnicens_zero = \<lparr>tv_noRouteTable = False, tv_lldTrace = False, tv_promiscuousMode = False,
     tv_debugLocalMsg = False, tv_cfgFileName = None, tv_drvVersion = 0, tv_drvLocalNodeAddr = 0, tv_drvFilter = None,
     tv_controlRxCdev = None, tv_controlTxCdev = None, tv_programNodeCnt = 0, tv_programPersistent = False\<rparr>"

text \<open>The function's variables, and the console it prints on. It returns, or the process ends.\<close>

record args =
  pv :: TaskUnicens_t
  defaultSet :: bool
  con :: "msg_arg LocalData_t"

datatype leave = Return bool | Exit int

definition print :: "ConsolePrio_t \<Rightarrow> string \<Rightarrow> msg_arg list \<Rightarrow> args \<Rightarrow> args" where
  "print prio fmt vargs a = a\<lparr>con := ConsolePrintf prio (Some fmt) vargs (con a)\<rparr>"

definition set_prio :: "ConsolePrio_t \<Rightarrow> args \<Rightarrow> args" where
  "set_prio prio a = a\<lparr>con := ConsoleSetPrio prio (con a)\<rparr>"

definition set_pv :: "(TaskUnicens_t \<Rightarrow> TaskUnicens_t) \<Rightarrow> args \<Rightarrow> args" where
  "set_pv f a = a\<lparr>pv := f (pv a)\<rparr>"

definition help_start :: string where
  "help_start = ''Usage: unicensd [OPTION]... [FILE]'' @ CRLF"

definition help_lines :: "string list" where
  "help_lines = [
     ''Executes the UNICENS daemon to start and configure INICnet devices.'' @ CRLF @ CRLF,
     ''  [File]                   Path to UNICENS XML configuration file, if not set, the compiled default config will be used'' @ CRLF,
     ''  -v                       Verbose mode, prints debug informations'' @ CRLF,
     ''  -vv                      Very Verbose mode, prints even more debug informations'' @ CRLF,
     ''  -hide                    Disable node and route table printing'' @ CRLF,
     ''  -default                 Uses default configuration (default_config.c) instead of parsing XML file'' @ CRLF,
     ''  -crx [RX char device]    Path to the receiver character device'' @ CRLF,
     ''  -ctx [TX char device]    Path to the sender character device'' @ CRLF,
     ''  -drv1 [Node Addr:Filter] Configures the Microchip MOST Linux Driver V1.X with the XML file and the local node address'' @ CRLF,
     ''                           An additional filter string can be passed with a colon as delimiter. This filter applies to'' @ CRLF,
     ''                           description file inside the sys fs from the MOST Linux Driver.'' @ CRLF,
     ''  -drv2                    Configures the Microchip MOST Linux Driver V2.X (reserved)'' @ CRLF,
     ''  -promisc                 Enable promiscuous mode on all INICs.'' @ CRLF @
        ''                           Promiscuous mode disables packet filter in all INICS, so all Ethernet packets will be received by all nodes.'' @ CRLF,
     ''  -local                   Special mode for INICnet sniffer. Messages sent to local attached INIC will be duplicated sent to debug node address.'' @ CRLF,
     ''  -lld                     Prints out the byte arrays send and received via Low Level Driver'' @ CRLF,
     ''  -program [Node Count]    Enables automatic reprogramming mode. If there is a node address collision,'' @ CRLF,
     ''                           the conflicting devices will get the next free node address assigned. By default the changes are'' @ CRLF,
     ''                           written to RAM only (not persistent). The programming starts when the number of devices found reaches'' @ CRLF,
     ''                           the given [Node Count] value.'' @ CRLF,
     ''  --persistent             Only valid along with -program parameter. If set, the changes are written into persistent memory (Flash or OTP)'' @ CRLF,
     ''                           !!WARNING: Use this parameter with care. On OS8121/0/2/4/6 you can only write changes two times!!'' @ CRLF,
     ''  --help                   Shows this help and exit'' @ CRLF @ CRLF,
     ''Examples:'' @ CRLF]"

definition help_examples :: "string list" where
  "help_examples = [
     ''  unicensd -default'' @ CRLF,
     ''  unicensd config.xml'' @ CRLF,
     ''  unicensd config.xml -drv1 0x200'' @ CRLF,
     ''  unicensd config.xml -drv1 0x200:1-1.3:1'' @ CRLF,
     ''  unicensd -ctx /dev/inic-control-tx -crx /dev/inic-control-rx'' @ CRLF]"

definition PrintHelp :: "args \<Rightarrow> args" where
  "PrintHelp a =
     (let d = ConsolePrintfStart PRIO_HIGH (Some help_start) [] (con a);
          d = fold (\<lambda>txt. ConsolePrintfContinue (Some txt) []) help_lines d
      in a\<lparr>con := fold (\<lambda>txt. ConsolePrintfExit (Some txt) []) help_examples d\<rparr>)"

text \<open>
  \<open>strtok_r\<close> with the colon: the parts between colons, without the empty ones. The first part is
  the address, the second one the filter; \<open>j\<close>, which counts them, has 8 bits.
\<close>

fun colon_tokens :: "string \<Rightarrow> string \<Rightarrow> string list" where
  "colon_tokens acc [] = (if acc = [] then [] else [acc])"
| "colon_tokens acc (c # cs) =
     (if c = CHR '':'' then (if acc = [] then [] else [acc]) @ colon_tokens [] cs else colon_tokens (acc @ [c]) cs)"

fun drv_tokens :: "u8 \<Rightarrow> string list \<Rightarrow> TaskUnicens_t \<Rightarrow> TaskUnicens_t" where
  "drv_tokens j [] p = p"
| "drv_tokens j (token # ts) p = drv_tokens (j + 1) ts
     (if j = 0 then p\<lparr>tv_drvLocalNodeAddr := of_int (strtol 0 token)\<rparr>
      else if j = 1 then p\<lparr>tv_drvFilter := Some token\<rparr> else p)"

text \<open>
  A round of the loop over the arguments, at the argument \<open>x\<close>: it leaves the function, or goes on
  with the arguments that are left.
\<close>

definition parse_arg :: "string \<Rightarrow> string list \<Rightarrow> args \<Rightarrow> (leave \<times> args) + (string list \<times> args)" where
  "parse_arg x xs a =
     (if take 1 x \<noteq> ''-'' then
        if tv_cfgFileName (pv a) \<noteq> None
        then Inl (Return False,
              print PRIO_ERROR (RED @ ''Filename is already set. Wrong parameter='' @ quoted ''%s'' @ RESETCOLOR @ CRLF) [MStr x] a)
        else Inr (xs, set_pv (\<lambda>p. p\<lparr>tv_cfgFileName := Some x\<rparr>) a)
      else if x = ''-v'' then Inr (xs, set_prio PRIO_MEDIUM a)
      else if x = ''-vv'' then Inr (xs, set_prio PRIO_LOW a)
      else if x = ''-hide'' then Inr (xs, set_pv (\<lambda>p. p\<lparr>tv_noRouteTable := True\<rparr>) a)
      else if x = ''--help'' then Inl (Exit 0, PrintHelp a)
      else if x = ''-default'' then Inr (xs, a\<lparr>defaultSet := True\<rparr>)
      else if x = ''-drv1'' \<or> x = ''-drv2'' then
        (case xs of
           [] \<Rightarrow> Inl (Return False, print PRIO_ERROR (RED @
             ''-drv1 or -drv2 parameter need additional node address of the local network controller'' @ RESETCOLOR @ CRLF) [] a)
         | y # ys \<Rightarrow> Inr (ys, set_pv (\<lambda>p. drv_tokens 0 (colon_tokens [] y)
             (p\<lparr>tv_drvVersion := (if x = ''-drv1'' then 1 else 2)\<rparr>)) a))
      else if x = ''-lld'' then Inr (xs, set_pv (\<lambda>p. p\<lparr>tv_lldTrace := True\<rparr>) a)
      else if x = ''-promisc'' then Inr (xs, set_pv (\<lambda>p. p\<lparr>tv_promiscuousMode := True\<rparr>)
             (print PRIO_ERROR (YELLOW @ ''Promiscuous Mode active for all nodes'' @ RESETCOLOR @ CRLF) [] a))
      else if x = ''-local'' then Inr (xs, set_pv (\<lambda>p. p\<lparr>tv_debugLocalMsg := True\<rparr>) (print PRIO_ERROR (YELLOW @
             ''Messages to local attached INIC will be copied to debug node address'' @ RESETCOLOR @ CRLF) [] a))
      else if x = ''-crx'' then
        (case xs of
           [] \<Rightarrow> Inl (Return False, print PRIO_ERROR (RED @
             ''-crx parameter needs additional path to RX character device'' @ RESETCOLOR @ CRLF) [] a)
         | y # ys \<Rightarrow> Inr (ys, set_pv (\<lambda>p. p\<lparr>tv_controlRxCdev := Some y\<rparr>) a))
      else if x = ''-ctx'' then
        (case xs of
           [] \<Rightarrow> Inl (Return False, print PRIO_ERROR (RED @
             ''-ctx parameter needs additional path to TX character device'' @ RESETCOLOR @ CRLF) [] a)
         | y # ys \<Rightarrow> Inr (ys, set_pv (\<lambda>p. p\<lparr>tv_controlTxCdev := Some y\<rparr>) a))
      else if x = ''-program'' then
        (case xs of
           [] \<Rightarrow> Inl (Return True, print PRIO_ERROR (RED @
             ''-program parameter needs additional amount of expected node count'' @ RESETCOLOR @ CRLF) [] a)
         | y # ys \<Rightarrow> let a = set_pv (\<lambda>p. p\<lparr>tv_programNodeCnt := of_int (strtol 0 y)\<rparr>) a in Inr (ys,
              print PRIO_HIGH (YELLOW @ ''Programming is enabled. Target node count is=%d'' @ RESETCOLOR @ CRLF)
                [MInt (uint (tv_programNodeCnt (pv a)))] a))
      else if x = ''--persistent'' then Inr (xs, set_pv (\<lambda>p. p\<lparr>tv_programPersistent := True\<rparr>)
             (print PRIO_ERROR (YELLOW @ ''Persistent programming mode chosen'' @ RESETCOLOR @ CRLF) [] a))
      else Inl (Return False,
            print PRIO_ERROR (RED @ ''Invalid command line parameter='' @ quoted ''%s'' @ RESETCOLOR @ CRLF) [MStr x] a))"

lemma parse_arg_shorter: "parse_arg x xs a = Inr (ys, b) \<Longrightarrow> length ys \<le> length xs"
  by (cases xs) (simp_all add: parse_arg_def Let_def split: if_splits, auto)

text \<open>The loop; \<open>None\<close> is its normal end.\<close>

function parse_args :: "string list \<Rightarrow> args \<Rightarrow> leave option \<times> args" where
  "parse_args [] a = (None, a)"
| "parse_args (x # xs) a =
     (case parse_arg x xs a of Inl (l, a) \<Rightarrow> (Some l, a) | Inr (xs, a) \<Rightarrow> parse_args xs a)"
  by pat_completeness auto
termination
  by (relation "measure (\<lambda>(xs, a). length xs)") (auto simp: less_Suc_eq_le dest: parse_arg_shorter)

text \<open>Behind the loop.\<close>

definition check_args :: "args \<Rightarrow> leave \<times> args" where
  "check_args a =
     (let p = pv a;
          a = (if tv_cfgFileName p = None \<and> \<not> defaultSet a
               then print PRIO_HIGH (YELLOW @ ''No filename was provided, executing default configuration (default_config.c).'' @
                 CRLF @ ''Use '' @ [CHR 0x22] @ ''--help'' @ [CHR 0x22] @ '' for details. Use '' @ [CHR 0x22] @ ''-default'' @
                 [CHR 0x22] @ '' to suppress this waring.'' @ RESETCOLOR @ CRLF) [] a
               else a)
      in if tv_cfgFileName p = None \<and> tv_drvLocalNodeAddr p \<noteq> 0
         then (Return False, print PRIO_ERROR (RED @
           ''-drv1 and -drv2 option only allowed, when specified an path to UNICENS XML file'' @ RESETCOLOR @ CRLF) [] a)
         else if tv_drvLocalNodeAddr p = 0 \<and> (tv_controlRxCdev p = None \<or> tv_controlTxCdev p = None)
         then (Return True, set_pv (\<lambda>p. p\<lparr>tv_controlRxCdev := Some DEFAULT_CONTROL_CDEV_RX,
                 tv_controlTxCdev := Some DEFAULT_CONTROL_CDEV_TX\<rparr>) a)
         else (Return True, a))"

text \<open>\<open>argv\<close> with the name of the program in front.\<close>

definition ParseCommandLine :: "string list \<Rightarrow> args \<Rightarrow> leave \<times> args" where
  "ParseCommandLine argv a =
     (case argv of
        [] \<Rightarrow> (Return False, a)
      | _ # xs \<Rightarrow>
          case parse_args xs (a\<lparr>pv := TaskUnicens_zero, defaultSet := False\<rparr>) of
            (Some l, a) \<Rightarrow> (l, a)
          | (None, a) \<Rightarrow> check_args a)"

section \<open>Main\<close>

definition banner :: string where
  "banner = CONSOLE_BLUE @ [CHR 0x0D] @ ''   __  ___   ___________________   _______'' @ CRLF @
     ''  / / / / | / /  _/ ____/ ____/ | / / ___/'' @ CRLF @
     '' / / / /  |/ // // /   / __/ /  |/ /'' @ [CHR 0x5C] @ ''__ '' @ [CHR 0x5C] @ '' '' @ CRLF @
     ''/ /_/ / /|  // // /___/ /___/ /|  /___/ / '' @ CRLF @
     [CHR 0x5C] @ ''____/_/ |_/___/'' @ [CHR 0x5C] @ ''____/_____/_/ |_//____/  '' @ CRLF @ ''   '' @
     YELLOW @ UNICENSD_VERSION @ '' (BUILD %s %s)'' @ RESETCOLOR @ CRLF"

text \<open>
  What comes before the loop that calls \<open>TaskUnicens_Service\<close>: \<open>None\<close> goes on to the loop, else the process ends
  with the code. \<open>built\<close> are the date and the time of the build.
\<close>

definition main_start ::
  "'z task_os_scheme \<Rightarrow> ucs_lib \<Rightarrow> string \<times> string \<Rightarrow> string list \<Rightarrow> LocalVar_t \<Rightarrow> (int option \<times> LocalVar_t) result" where
  "main_start os L built argv m =
     (let a = \<lparr>pv = TaskUnicens_zero, defaultSet = False, con = console m\<rparr>;
          a = print PRIO_HIGH banner [MStr (fst built), MStr (snd built)] (set_prio PRIO_HIGH a);
          (r, a) = ParseCommandLine argv a;
          m = m\<lparr>console := con a\<rparr>
      in case r of
           Exit code \<Rightarrow> Inr (Some code, m)
         | Return False \<Rightarrow> Inr (Some (- 1), say PRIO_ERROR (RED @ ''Parsing command line failed'' @ RESETCOLOR @ CRLF) [] m)
         | Return True \<Rightarrow>
             bindR (TaskUnicens_Init os L (Some (pv a)) m) (\<lambda>(ok, m).
             Inr (if ok then (None, m)
                  else (Some (- 1), say PRIO_ERROR (RED @ ''Initialization of UNICENS task failed'' @ RESETCOLOR @ CRLF) [] m))))"

end
