(* ===== verification/Threads.thy ===== *)
theory Threads
  imports Task
begin

text \<open>
  The daemon at run time: the loop around \<open>TaskUnicens_Service\<close> (src/src/main.c), the receive thread of
  libraries/cdev-handler/CdevHandler.c and the threads the timer starts, which share the flags and
  semaphores of the task. A step is one access to what is shared, or a stretch of code of the
  main thread that touches of it only what the others do not write; accesses to a flag are
  taken to be atomic, as they are on the processors the daemon is built for.

  The layer is called by the main thread alone, so a call of it is one step. The receive thread
  holds its message in the buffer of the device until the main thread posts \<open>rxSem\<close>.
\<close>

section \<open>Program counters\<close>

datatype main_pc =
    AtTrigger | AtTimeout | ClearTimeout | RunTimeout
  | AtData | ProcessData | ClearData | PopData | AtAms | AtCable | AtWait

datatype rx_pc = RxStart | RxLoop | RxOpen | RxRead | RxReading | RxStore nat | RxFlag | RxPost | RxWait | RxEnd

text \<open>
  \<open>timer_posts\<close> are the timer threads that have set the flag and not yet posted. What the receive
  thread has read (\<open>got\<close>), what the main thread has used up (\<open>used\<close>) and whether the layer has
  refused the message in this round (\<open>refused\<close>) are recorded for the statements below.
\<close>

record daemon =
  task :: LocalVar_t
  main_at :: main_pc
  rx_at :: rx_pc
  timer_posts :: nat
  got :: "u8 list list"
  used :: "u8 list list"
  refused :: bool

section \<open>Main thread\<close>

text \<open>The next step of \<open>TaskUnicens_Service\<close>; \<open>None\<close> waits for the semaphore.\<close>

fun main_step :: "'z task_os_scheme \<Rightarrow> ucs_lib \<Rightarrow> main_pc \<Rightarrow> LocalVar_t \<Rightarrow> (main_pc \<times> LocalVar_t) result option" where
  "main_step os L AtTrigger m = Some (bindR (service_trigger os L m) (\<lambda>m. Inr (AtTimeout, m)))"
| "main_step os L AtTimeout m = Some (Inr (if unicensTimeout m then ClearTimeout else AtData, m))"
| "main_step os L ClearTimeout m = Some (Inr (RunTimeout, m\<lparr>unicensTimeout := False\<rparr>))"
| "main_step os L RunTimeout m = Some (bindR (do_ucsi os (UCSI_Timeout L) m) (\<lambda>m. Inr (AtData, m)))"
| "main_step os L AtData m = Some (Inr (if unicensDataAvailable m then ProcessData else AtAms, m))"
| "main_step os L ProcessData m =
     Some (bindR (process_rx os L m) (\<lambda>(ok, m). Inr (if ok then ClearData else AtAms, m)))"
| "main_step os L ClearData m = Some (Inr (PopData, m\<lparr>unicensDataAvailable := False\<rparr>))"
| "main_step os L PopData m = Some (Inr (AtAms, release_rx m))"
| "main_step os L AtAms m = Some (bindR (service_ams os L m) (\<lambda>m. Inr (AtCable, m)))"
| "main_step os L AtCable m = Some (bindR (service_cable os m) (\<lambda>m. Inr (AtWait, m)))"
| "main_step os L AtWait m =
     (if serviceSem m = 0 then None else Some (Inr (AtTrigger, m\<lparr>serviceSem := serviceSem m - 1\<rparr>)))"

text \<open>What the step means for the history.\<close>

definition note_main :: "main_pc \<Rightarrow> daemon \<Rightarrow> daemon" where
  "note_main pc d =
     (if main_at d = ProcessData then
        (if pc = ClearData
         then d\<lparr>used := used d @ [take (unat (rxLen (ctrlRx (task d)))) (rxBuffer (ctrlRx (task d)))]\<rparr>
         else d\<lparr>refused := True\<rparr>)
      else if main_at d = AtTrigger then d\<lparr>refused := False\<rparr> else d)"

section \<open>Receive thread\<close>

definition set_rx :: "(CdevData_t \<Rightarrow> CdevData_t) \<Rightarrow> LocalVar_t \<Rightarrow> LocalVar_t" where
  "set_rx f m = m\<lparr>ctrlRx := f (ctrlRx m)\<rparr>"

text \<open>\<open>open_device\<close> for the receiving device.\<close>

definition open_rx :: "'z task_os_scheme \<Rightarrow> LocalVar_t \<Rightarrow> LocalVar_t result" where
  "open_rx os m =
     bindR (open_device (os.truncate os) (ctrlRx m, fs m)) (\<lambda>(d, f). Inr (m\<lparr>ctrlRx := d, fs := f\<rparr>))"

text \<open>
  \<open>ReceiveThread\<close>. A read returns nothing (an error, or the end of the file) or up to 64 bytes, which
  it puts at the beginning of the buffer.
\<close>

inductive rx_step :: "'z task_os_scheme \<Rightarrow> daemon \<Rightarrow> daemon \<Rightarrow> bool" for os where
  rx_start: "rx_at d = RxStart \<Longrightarrow>
     rx_step os d (d\<lparr>rx_at := RxLoop, task := set_rx (\<lambda>r. r\<lparr>rxThreadRuns := True\<rparr>) (task d)\<rparr>)"
| rx_loop: "rx_at d = RxLoop \<Longrightarrow>
     rx_step os d (d\<lparr>rx_at := (if allowThreadRun (ctrlRx (task d)) then RxOpen else RxEnd)\<rparr>)"
| rx_open: "rx_at d = RxOpen \<Longrightarrow> open_rx os (task d) = Inr m \<Longrightarrow>
     rx_step os d (d\<lparr>rx_at := (if fileHandle (ctrlRx m) = None then RxLoop else RxRead), task := m\<rparr>)"
| rx_clear: "rx_at d = RxRead \<Longrightarrow>
     rx_step os d (d\<lparr>rx_at := RxReading, task := set_rx (\<lambda>r. r\<lparr>rxLen := 0\<rparr>) (task d)\<rparr>)"
| rx_nothing: "rx_at d = RxReading \<Longrightarrow>
     rx_step os d (d\<lparr>rx_at := RxLoop, task := set_rx (\<lambda>r. r\<lparr>fileHandle := None\<rparr>) (task d)\<rparr>)"
| rx_bytes: "rx_at d = RxReading \<Longrightarrow> bytes \<noteq> [] \<Longrightarrow> length bytes \<le> RX_BUFFER \<Longrightarrow>
     rx_step os d (d\<lparr>rx_at := RxStore (length bytes), got := got d @ [bytes],
       task := set_rx (\<lambda>r. r\<lparr>rxBuffer := bytes @ drop (length bytes) (rxBuffer r)\<rparr>) (task d)\<rparr>)"
| rx_store: "rx_at d = RxStore n \<Longrightarrow>
     rx_step os d (d\<lparr>rx_at := RxFlag, task := set_rx (\<lambda>r. r\<lparr>rxLen := of_nat n\<rparr>) (task d)\<rparr>)"
| rx_flag: "rx_at d = RxFlag \<Longrightarrow>
     rx_step os d (d\<lparr>rx_at := RxPost, task := (task d)\<lparr>unicensDataAvailable := True\<rparr>\<rparr>)"
| rx_post: "rx_at d = RxPost \<Longrightarrow> rx_step os d (d\<lparr>rx_at := RxWait, task := SemPost (task d)\<rparr>)"
| rx_wait: "rx_at d = RxWait \<Longrightarrow> rxSem (ctrlRx (task d)) > 0 \<Longrightarrow>
     rx_step os d (d\<lparr>rx_at := RxLoop, task := set_rx (\<lambda>r. r\<lparr>rxSem := rxSem r - 1\<rparr>) (task d)\<rparr>)"

section \<open>Timer and the whole\<close>

text \<open>The timer runs out once; its thread sets the flag, and then posts (\<open>UcsTimerOnTimeout\<close>).\<close>

inductive timer_step :: "daemon \<Rightarrow> daemon \<Rightarrow> bool" where
  timer_expires: "ucsTimer (task d) \<noteq> (0, 0) \<Longrightarrow>
     timer_step d (d\<lparr>timer_posts := timer_posts d + 1,
       task := (task d)\<lparr>ucsTimer := (0, 0), unicensTimeout := True\<rparr>\<rparr>)"
| timer_post: "timer_posts d > 0 \<Longrightarrow>
     timer_step d (d\<lparr>timer_posts := timer_posts d - 1, task := SemPost (task d)\<rparr>)"

inductive daemon_step :: "'z task_os_scheme \<Rightarrow> ucs_lib \<Rightarrow> daemon \<Rightarrow> daemon \<Rightarrow> bool" for os L where
  by_main: "main_step os L (main_at d) (task d) = Some (Inr (pc, m)) \<Longrightarrow>
     daemon_step os L d ((note_main pc d)\<lparr>main_at := pc, task := m\<rparr>)"
| by_rx: "rx_step os d d' \<Longrightarrow> daemon_step os L d d'"
| by_timer: "timer_step d d' \<Longrightarrow> daemon_step os L d d'"

text \<open>The daemon behind a successful \<open>TaskUnicens_Init\<close>.\<close>

definition started :: "LocalVar_t \<Rightarrow> daemon" where
  "started m = \<lparr>task = m, main_at = AtTrigger, rx_at = RxStart, timer_posts = 0, got = [], used = [], refused = False\<rparr>"

inductive reaches :: "'z task_os_scheme \<Rightarrow> ucs_lib \<Rightarrow> daemon \<Rightarrow> daemon \<Rightarrow> bool" for os L d where
  reaches_start: "reaches os L d d"
| reaches_step: "reaches os L d d' \<Longrightarrow> daemon_step os L d' d'' \<Longrightarrow> reaches os L d d''"

inductive_cases rx_stepE: "rx_step os d d'"
inductive_cases timer_stepE: "timer_step d d'"
inductive_cases daemon_stepE: "daemon_step os L d d'"

end
