(* ===== verification/Task_Inv.thy ===== *)
theory Task_Inv
  imports Task Ucsi_Props
begin

text \<open>
  The invariant of the task's data, that its callbacks, its steps and its start keep; none of them
  runs into undefined behaviour.
\<close>

section \<open>The callbacks\<close>

text \<open>
  A callback of the layer wakes up the main thread when it sets a flag, and leaves alone what the
  other threads use.
\<close>

definition quiet :: "LocalVar_t \<Rightarrow> LocalVar_t \<Rightarrow> bool" where
  "quiet m m' \<longleftrightarrow> unicensTimeout m' = unicensTimeout m \<and> unicensDataAvailable m' = unicensDataAvailable m \<and>
     ctrlRx m' = ctrlRx m \<and> controlTxCdev m' = controlTxCdev m \<and>
     controlRxCdev m' = controlRxCdev m \<and> cfg m' = cfg m \<and> serviceSem m \<le> serviceSem m' \<and>
     (unicensTrigger m' \<longrightarrow> unicensTrigger m \<or> 0 < serviceSem m') \<and>
     (amsReceived m' \<longrightarrow> amsReceived m \<or> 0 < serviceSem m')"

lemma quiet_refl [intro, simp]: "quiet m m"
  by (simp add: quiet_def)

lemma quiet_trans: "quiet m m' \<Longrightarrow> quiet m' m'' \<Longrightarrow> quiet m m''"
  unfolding quiet_def by auto

text \<open>Before it is initialised, the device of the transmitter counts as one that can only be read.\<close>

definition task_ok :: "LocalVar_t \<Rightarrow> bool" where
  "task_ok m \<longleftrightarrow> (fileFlags (ctrlTx m) = O_RDONLY \<or> device_ok (ctrlTx m, fs m)) \<and>
     CHR 0x00 \<in> set (controlTxCdev m) \<and> CHR 0x00 \<in> set (fileName (ctrlRx m)) \<and> fileFlags (ctrlRx m) = O_RDONLY \<and>
     length (rxBuffer (ctrlRx m)) = RX_BUFFER \<and> unat (rxLen (ctrlRx m)) \<le> RX_BUFFER"

definition answered :: "LocalVar_t \<Rightarrow> LocalVar_t \<Rightarrow> bool" where
  "answered m m' \<longleftrightarrow> task_ok m' \<and> quiet m m' \<and> unicensData m' = unicensData m"

lemma answered_trans: "answered m m' \<Longrightarrow> answered m' m'' \<Longrightarrow> answered m m''"
  unfolding answered_def by (auto intro: quiet_trans)

lemma say_fields [simp]:
  "unicensTimeout (say p f v m) = unicensTimeout m" "unicensDataAvailable (say p f v m) = unicensDataAvailable m"
  "ctrlRx (say p f v m) = ctrlRx m" "ctrlTx (say p f v m) = ctrlTx m" "fs (say p f v m) = fs m"
  "controlTxCdev (say p f v m) = controlTxCdev m" "serviceSem (say p f v m) = serviceSem m"
  "unicensTrigger (say p f v m) = unicensTrigger m" "amsReceived (say p f v m) = amsReceived m"
  "controlRxCdev (say p f v m) = controlRxCdev m" "cfg (say p f v m) = cfg m"
  "unicensData (say p f v m) = unicensData m" "unicensRunning (say p f v m) = unicensRunning m"
  by (simp_all add: say_def)

lemma answered_say: "answered m m' \<Longrightarrow> answered m (say p f v m')"
  by (auto simp: answered_def task_ok_def quiet_def)

lemma lld_trace_console: "\<exists>c. lld_trace s t b m = m\<lparr>console := c\<rparr>"
  by (cases "lldTrace m") (auto simp: lld_trace_def intro: exI [of _ "console m"])

lemma answered_console: "answered m m' \<Longrightarrow> answered m (m'\<lparr>console := c\<rparr>)"
  by (auto simp: answered_def task_ok_def quiet_def)

lemma answered_lld_trace: "answered m m' \<Longrightarrow> answered m (lld_trace s t b m')"
  using lld_trace_console [of s t b m'] answered_console by fastforce

definition tx_ok :: "CdevData_t \<times> files \<Rightarrow> bool" where
  "tx_ok s \<longleftrightarrow> fileFlags (fst s) = O_RDONLY \<or> device_ok s"

lemma Cdev_Write_safe:
  assumes "writes_ok os" "tx_ok (d, f)" "unat len \<le> length p"
  shows "okR (Cdev_Write os (Some p) len (d, f)) (\<lambda>(ok, d', f'). tx_ok (d', f'))"
proof (cases "len = 0 \<or> fileFlags d = O_RDONLY")
  case False
  then have "okR (Cdev_Write os (Some p) len (d, f)) (transmitted (take (unat len) p) (d, f))"
    using assms(2) by (intro Cdev_Write_transmitted [OF assms(1) _ assms(3)]) (auto simp: tx_ok_def)
  then show ?thesis by (rule okR_mono) (auto simp: transmitted_def tx_ok_def)
qed (use assms in \<open>auto simp: Cdev_Write_def\<close>)

lemma c_string_okR: "CHR 0x00 \<in> set arr \<Longrightarrow> okR (c_string arr) (\<lambda>_. True)"
  by (simp add: c_string_def)

lemma answered_tx:
  assumes "answered m m'" "tx_ok (d, f)"
  shows "answered m (m'\<lparr>ctrlTx := d, fs := f\<rparr>)"
proof -
  have "task_ok (m'\<lparr>ctrlTx := d, fs := f\<rparr>)"
    using assms by (auto simp: answered_def tx_ok_def task_ok_def)
  moreover have "quiet m (m'\<lparr>ctrlTx := d, fs := f\<rparr>) = quiet m m'" by (simp add: quiet_def)
  ultimately show ?thesis using assms(1) by (simp add: answered_def)
qed

lemma answered_txErrorState: "answered m m' \<Longrightarrow> answered m (m'\<lparr>txErrorState := e\<rparr>)"
  by (auto simp: answered_def task_ok_def quiet_def)

lemma OnTxRequest_okR:
  assumes "writes_ok (os.truncate os)" "task_ok m"
  shows "okR (UCSI_CB_OnTxRequest os past bytes m) (answered m)"
proof -
  let ?m = "lld_trace (CONSOLE_BLUE @ ''%08d: MSG_TX: '') (GetTicks os past) bytes m"
  have a: "answered m ?m" using assms(2) by (intro answered_lld_trace) (simp add: answered_def)
  have w: "okR (Cdev_Write (os.truncate os) (Some bytes) (of_nat (length bytes)) (ctrlTx ?m, fs ?m))
      (\<lambda>(ok, d', f'). tx_ok (d', f'))"
    by (rule Cdev_Write_safe [OF assms(1)])
      (use a in \<open>simp_all add: answered_def task_ok_def tx_ok_def unat_of_nat_le\<close>)
  have b: "answered m (?m\<lparr>ctrlTx := d, fs := f, txErrorState := e\<rparr>)" "answered m (?m\<lparr>ctrlTx := d, fs := f\<rparr>)"
    if "tx_ok (d, f)" for d f e
    using answered_txErrorState [OF answered_tx [OF a that], of e] answered_tx [OF a that] by simp_all
  have n: "CHR 0x00 \<in> set (controlTxCdev ?m)" using a by (simp add: answered_def task_ok_def)
  show ?thesis
    unfolding UCSI_CB_OnTxRequest_def Let_def okR_bindR
    by (rule okR_mono [OF w]) (auto simp: c_string_def n split: prod.splits intro!: b answered_say)
qed

lemma answered_fold_say:
  "answered m m' \<Longrightarrow> answered m (fold (\<lambda>(fmt, vargs). say p (fmt @ e) vargs) xs m')"
  by (induction xs arbitrary: m') (auto simp: answered_say)

lemma task_callback_okR:
  assumes "writes_ok (os.truncate os)" "task_ok m" "out_ok x"
  shows "okR (task_callback os past x m) (answered m)"
proof -
  have r: "answered m m" using assms(2) by (simp add: answered_def)
  show ?thesis
  proof (cases x)
    case (CB_OnTxRequest bytes)
    then show ?thesis using OnTxRequest_okR [OF assms(1,2)] by simp
  next
    case (CB_OnMgrReport c sg n)
    moreover have "answered m (report_signature sg m)"
      unfolding report_signature_def by (rule answered_fold_say [OF r])
    ultimately show ?thesis using r by simp
  next
    case (CB_OnUserMessage u f v)
    then show ?thesis using answered_say [OF r] by (cases u) (simp_all add: UCSI_CB_OnUserMessage_def)
  next
    case (CB_OnNetworkState av bw n)
    have "answered m (m'\<lparr>cableDiagnosisTimer := t\<rparr>)" if "answered m m'" for m' t
      using that by (auto simp: answered_def task_ok_def quiet_def)
    then show ?thesis
      using CB_OnNetworkState answered_say [OF r] by (simp add: UCSI_CB_OnNetworkState_def Let_def)
  qed (use assms(3) answered_say [OF r] answered_console [OF r] r in
      \<open>auto simp: UCSI_CB_OnServiceRequired_def SemPost_def TimerSetTimeOut_def UCSI_CB_OnRouteResult_def
        answered_def task_ok_def quiet_def\<close>)
qed

lemma task_callbacks_okR:
  assumes "writes_ok (os.truncate os)" "task_ok m" "\<forall>x \<in> set xs. out_ok x"
  shows "okR (task_callbacks os past xs m) (answered m)"
  using assms(2,3)
proof (induction xs arbitrary: past m)
  case (Cons x xs)
  have "okR (task_callbacks os (past @ [x]) xs m') (answered m)" if "answered m m'" for m'
    by (rule okR_mono [OF Cons.IH]) (use that Cons.prems in \<open>auto simp: answered_def intro: quiet_trans\<close>)
  then show ?case
    using Cons.prems by (auto intro!: okR_mono [OF task_callback_okR [OF assms(1)]])
qed (simp add: answered_def)

section \<open>Calls of the layer\<close>

definition layer_ok :: "u16 set \<Rightarrow> LocalVar_t \<Rightarrow> bool" where
  "layer_ok P m \<longleftrightarrow> task_ok m \<and> ucsi_inv P (unicensData m)"

lemma with_ucsi_okR:
  assumes "writes_ok (os.truncate os)" "task_ok m"
    and f: "okR (f (unicensData m)) (\<lambda>(x, u). ucsi_inv P u)"
  shows "okR (with_ucsi os f m) (\<lambda>(x, m'). layer_ok P m' \<and> quiet m m')"
proof -
  let ?past = "trace (unicensData m)"
  obtain x u where u: "f (unicensData m) = Inr (x, u)" "ucsi_inv P u" using f by (auto simp: okR_ex)
  then have "\<forall>x \<in> set (drop (length ?past) (trace u)). out_ok x"
    by (auto simp: ucsi_inv_def outs_ok_def dest: in_set_dropD)
  then have "okR (task_callbacks os ?past (drop (length ?past) (trace u)) (m\<lparr>unicensData := u\<rparr>)) (answered (m\<lparr>unicensData := u\<rparr>))"
    by (intro task_callbacks_okR [OF assms(1)]) (use assms(2) in \<open>simp add: task_ok_def\<close>)
  then show ?thesis
    using u(2) by (auto simp: with_ucsi_def Let_def u(1) answered_def layer_ok_def quiet_def elim!: okR_mono)
qed

lemma do_ucsi_okR:
  assumes "writes_ok (os.truncate os)" "task_ok m" "okR (f (unicensData m)) (ucsi_inv P)"
  shows "okR (do_ucsi os f m) (\<lambda>m'. layer_ok P m' \<and> quiet m m')"
  unfolding do_ucsi_def okR_bindR
  by (rule okR_mono [OF with_ucsi_okR [OF assms(1,2)]]) (use assms(3) in \<open>auto elim!: okR_mono\<close>)

section \<open>Steps of the main thread\<close>

text \<open>
  What the daemon relies on: writes by their documentation, a library that answers commands later and
  keeps the contract of its callbacks, and no more nodes than the printer has room for.
\<close>

definition env_ok :: "u16 set \<Rightarrow> 'z task_os_scheme \<Rightarrow> ucs_lib \<Rightarrow> bool" where
  "env_ok P os L \<longleftrightarrow> writes_ok (os.truncate os) \<and> lib_async L \<and> lib_events_ok P L \<and> finite P \<and> card P \<le> 8"

lemma env_ok_task_lib [simp]: "env_ok P os (task_lib os' L) = env_ok P os L"
  by (simp add: env_ok_def task_lib_def lib_async_def lib_events_ok_def)

lemma state_of_okR_iff: "okR (state_of r) Q = okR r (\<lambda>(x, s). Q s)"
  by (cases r) (auto simp: state_of_def split: prod.splits)

lemma with_op_okR:
  assumes "env_ok P os L" "layer_ok P m" "op_ok P op" "\<And>u. run_op L op u = state_of (f u)"
  shows "okR (with_ucsi os f m) (\<lambda>(x, m'). layer_ok P m' \<and> quiet m m')"
proof (rule with_ucsi_okR)
  show "okR (f (unicensData m)) (\<lambda>(x, u). ucsi_inv P u)"
    unfolding state_of_okR_iff [symmetric] assms(4) [symmetric]
    using assms(1-3) by (intro run_op_inv) (simp_all add: env_ok_def layer_ok_def)
qed (use assms(1,2) in \<open>simp_all add: env_ok_def layer_ok_def\<close>)

lemma do_op_okR:
  assumes "env_ok P os L" "layer_ok P m" "op_ok P op" "\<And>u. run_op L op u = f u"
  shows "okR (do_ucsi os f m) (\<lambda>m'. layer_ok P m' \<and> quiet m m')"
proof (rule do_ucsi_okR)
  show "okR (f (unicensData m)) (ucsi_inv P)"
    unfolding assms(4) [symmetric] using assms(1-3) by (intro run_op_inv) (simp_all add: env_ok_def layer_ok_def)
qed (use assms(1,2) in \<open>simp_all add: env_ok_def layer_ok_def\<close>)

lemma layer_ok_flags [simp]:
  "layer_ok P (m\<lparr>unicensTrigger := b\<rparr>) = layer_ok P m" "layer_ok P (m\<lparr>unicensTimeout := b\<rparr>) = layer_ok P m"
  "layer_ok P (m\<lparr>unicensDataAvailable := b\<rparr>) = layer_ok P m" "layer_ok P (m\<lparr>amsReceived := b\<rparr>) = layer_ok P m"
  "layer_ok P (m\<lparr>cableDiagnosisTimer := t\<rparr>) = layer_ok P m" "layer_ok P (m\<lparr>serviceSem := n\<rparr>) = layer_ok P m"
  "layer_ok P (m\<lparr>ucsTimer := tm\<rparr>) = layer_ok P m" "layer_ok P (m\<lparr>console := c\<rparr>) = layer_ok P m"
  "layer_ok P (say p f v m) = layer_ok P m" "layer_ok P (SemPost m) = layer_ok P m"
  by (simp_all add: layer_ok_def task_ok_def say_def SemPost_def)

lemma quiet_console [simp]: "quiet m (m'\<lparr>console := c\<rparr>) = quiet m m'" "quiet m (say p f v m') = quiet m m'"
  by (simp_all add: quiet_def say_def)

lemma layer_ok_lld_trace [simp]: "layer_ok P (lld_trace s t b m) = layer_ok P m" "quiet m (lld_trace s t b m') = quiet m m'"
  using lld_trace_console [of s t b m] lld_trace_console [of s t b m'] by auto

lemma service_trigger_okR:
  assumes "env_ok P os L" "layer_ok P m"
  shows "okR (service_trigger os L m) (\<lambda>m'. layer_ok P m' \<and> quiet (m\<lparr>unicensTrigger := False\<rparr>) m')"
proof (cases "unicensTrigger m")
  case True
  then show ?thesis
    using do_op_okR [OF assms(1), of "m\<lparr>unicensTrigger := False\<rparr>" OpService] assms(2) by (simp add: service_trigger_def)
qed (use assms(2) in \<open>simp add: service_trigger_def quiet_def\<close>)

lemma timeout_okR:
  assumes "env_ok P os L" "layer_ok P m"
  shows "okR (do_ucsi os (UCSI_Timeout L) m) (\<lambda>m'. layer_ok P m' \<and> quiet m m')"
  by (rule do_op_okR [OF assms, of OpTimeout]) simp_all

lemma process_rx_okR:
  assumes "env_ok P os L" "layer_ok P m"
  shows "okR (process_rx os L m) (\<lambda>(ok, m'). layer_ok P m' \<and> quiet (if ok then m else m\<lparr>unicensTrigger := True\<rparr>) m')"
proof -
  have rx: "Cdev_GetRx (ctrlRx m) = Some (rxBuffer (ctrlRx m), rxLen (ctrlRx m))"
    and len: "unat (rxLen (ctrlRx m)) \<le> length (rxBuffer (ctrlRx m))"
    using assms(2) by (simp_all add: layer_ok_def task_ok_def Cdev_GetRx_def)
  have call: "okR (with_ucsi os (UCSI_ProcessRxData L (rxBuffer (ctrlRx m)) (rxLen (ctrlRx m))) m)
      (\<lambda>(x, m'). layer_ok P m' \<and> quiet m m')"
    by (rule with_op_okR [OF assms, of "OpProcessRxData (rxBuffer (ctrlRx m)) (rxLen (ctrlRx m))"]) (use len in simp_all)
  have trig: "quiet (m\<lparr>unicensTrigger := True\<rparr>) (m'\<lparr>unicensTrigger := True\<rparr>)" if "quiet m m'" for m'
    using that by (simp add: quiet_def)
  show ?thesis
    using assms(2) unfolding process_rx_def rx option.case prod.case
    by (auto intro!: okR_mono [OF call] simp: trig)
qed

lemma service_ams_okR:
  assumes "env_ok P os L" "layer_ok P m"
  shows "okR (service_ams os L m) (\<lambda>m'. layer_ok P m' \<and> quiet (m\<lparr>amsReceived := False\<rparr>) m')"
proof (cases "amsReceived m")
  case True
  let ?m = "m\<lparr>amsReceived := False\<rparr>"
  have get: "okR (with_ucsi os (UCSI_GetAmsMessage L) ?m) (\<lambda>(x, m'). layer_ok P m' \<and> quiet ?m m')"
    by (rule with_op_okR [OF assms(1), of _ OpGetAms]) (use assms(2) in simp_all)
  have release: "okR (do_ucsi os (UCSI_ReleaseAmsMessage L) m') (\<lambda>m''. layer_ok P m'' \<and> quiet ?m m'')"
    if "layer_ok P m'" "quiet ?m m'" for m'
    by (rule okR_mono [OF do_op_okR [OF assms(1) that(1), of OpReleaseAms]]) (use that(2) in \<open>auto intro: quiet_trans\<close>)
  show ?thesis
    using True by (auto simp: service_ams_def intro!: okR_mono [OF get] release split: option.split)
qed (use assms(2) in \<open>simp add: service_ams_def quiet_def\<close>)

lemma service_cable_okR:
  assumes "env_ok P os L" "layer_ok P m"
  shows "okR (service_cable os m) (\<lambda>m'. layer_ok P m' \<and> quiet m m')"
proof -
  let ?m = "say PRIO_HIGH (''Starting network diagnosis..'' @ CRLF) [] (m\<lparr>cableDiagnosisTimer := 0\<rparr>)"
  have "okR (with_ucsi os UCSI_RunCableDiagnosis ?m) (\<lambda>(x, m'). layer_ok P m' \<and> quiet ?m m')"
    by (rule with_op_okR [OF assms(1), of _ OpCableDiagnosis]) (use assms(2) in simp_all)
  moreover have "quiet m m'" if "quiet ?m m'" for m'
    by (rule quiet_trans [OF _ that]) (simp add: quiet_def)
  ultimately show ?thesis
    using assms(2) by (auto simp: service_cable_def elim!: okR_mono)
qed

end
