(* ===== verification/Threads_Inv.thy ===== *)
theory Threads_Inv
  imports Threads Task_Inv
begin

text \<open>
  What every step of the daemon keeps: no step of any thread runs into undefined behaviour, a message
  of the receive thread is handed over exactly once, and a flag that is set gets noticed.
\<close>

section \<open>The invariant of the daemon\<close>

text \<open>
  The handshake of the receive thread. Before it has a message, what it has read is used up; then the
  message is on its way in the buffer until the main thread has used it; and the post of
  \<open>rxSem\<close> gives the buffer back.
\<close>

definition in_buffer :: "LocalVar_t \<Rightarrow> u8 list" where
  "in_buffer m = take (unat (rxLen (ctrlRx m))) (rxBuffer (ctrlRx m))"

definition idle :: "daemon \<Rightarrow> bool" where
  "idle d \<longleftrightarrow> rxSem (ctrlRx (task d)) = 0 \<and> \<not> unicensDataAvailable (task d) \<and>
     main_at d \<notin> {ProcessData, ClearData, PopData}"

definition handed_to_main :: "daemon \<Rightarrow> bool" where
  "handed_to_main d \<longleftrightarrow> (let m = task d; sem = rxSem (ctrlRx m); flag = unicensDataAvailable m in
     main_at d = ClearData \<and> sem = 0 \<and> flag \<and> got d = used d \<or>
     main_at d = PopData \<and> sem = 0 \<and> \<not> flag \<and> got d = used d \<or>
     main_at d \<notin> {ClearData, PopData} \<and> sem = 0 \<and> flag \<and> got d = used d @ [in_buffer m] \<or>
     main_at d \<notin> {ProcessData, ClearData, PopData} \<and> sem = 1 \<and> \<not> flag \<and> got d = used d)"

definition handshake :: "daemon \<Rightarrow> bool" where
  "handshake d \<longleftrightarrow> (case rx_at d of
     RxStore n \<Rightarrow> idle d \<and> n \<le> RX_BUFFER \<and> got d = used d @ [take n (rxBuffer (ctrlRx (task d)))]
   | RxFlag \<Rightarrow> idle d \<and> got d = used d @ [in_buffer (task d)]
   | RxPost \<Rightarrow> handed_to_main d
   | RxWait \<Rightarrow> handed_to_main d
   | _ \<Rightarrow> idle d \<and> got d = used d)"

text \<open>Who sets a flag posts the semaphore, or the main thread has yet to look at the flag.\<close>

definition noticed :: "daemon \<Rightarrow> bool" where
  "noticed d \<longleftrightarrow> (let m = task d; awake = (0 < serviceSem m) in
     (unicensTimeout m \<longrightarrow> awake \<or> 0 < timer_posts d \<or> main_at d \<in> {AtTrigger, AtTimeout, ClearTimeout}) \<and>
     (unicensDataAvailable m \<longrightarrow> awake \<or> rx_at d = RxPost \<or> refused d \<or>
        main_at d \<in> {AtTrigger, AtTimeout, ClearTimeout, RunTimeout, AtData, ProcessData, ClearData}) \<and>
     (unicensTrigger m \<longrightarrow> awake \<or> refused d \<or> main_at d = AtTrigger) \<and>
     (amsReceived m \<longrightarrow> awake \<or> main_at d \<notin> {AtCable, AtWait}))"

definition daemon_inv :: "u16 set \<Rightarrow> daemon \<Rightarrow> bool" where
  "daemon_inv P d \<longleftrightarrow> layer_ok P (task d) \<and> handshake d \<and> noticed d"

lemma note_main_simps [simp]:
  "task (note_main pc d) = task d" "rx_at (note_main pc d) = rx_at d" "timer_posts (note_main pc d) = timer_posts d"
  "got (note_main pc d) = got d"
  by (simp_all add: note_main_def)

lemma quietD:
  assumes "quiet m m'"
  shows "unicensTimeout m' = unicensTimeout m" "unicensDataAvailable m' = unicensDataAvailable m"
    "ctrlRx m' = ctrlRx m" "serviceSem m \<le> serviceSem m'"
    "unicensTrigger m' \<Longrightarrow> unicensTrigger m \<or> 0 < serviceSem m'"
    "amsReceived m' \<Longrightarrow> amsReceived m \<or> 0 < serviceSem m'"
  using assms by (auto simp: quiet_def)

text \<open>A step of the main thread that the flags of the receive thread do not concern.\<close>

lemma handshake_quiet:
  assumes "handshake d" "main_at d \<notin> {ProcessData, ClearData, PopData}" "pc \<notin> {ProcessData, ClearData, PopData}"
    and "ctrlRx m = ctrlRx (task d)" "unicensDataAvailable m = unicensDataAvailable (task d)"
  shows "handshake ((note_main pc d)\<lparr>main_at := pc, task := m\<rparr>)"
proof -
  have "used (note_main pc d) = used d" using assms(2) by (simp add: note_main_def)
  then show ?thesis
    using assms by (cases "rx_at d") (auto simp: handshake_def idle_def handed_to_main_def in_buffer_def Let_def)
qed

section \<open>Steps of the main thread\<close>

definition next_main :: "main_pc \<Rightarrow> LocalVar_t \<Rightarrow> daemon \<Rightarrow> daemon" where
  "next_main pc m d = (note_main pc d)\<lparr>main_at := pc, task := m\<rparr>"

lemma next_main_simps [simp]:
  "task (next_main pc m d) = m" "main_at (next_main pc m d) = pc" "rx_at (next_main pc m d) = rx_at d"
  "timer_posts (next_main pc m d) = timer_posts d" "got (next_main pc m d) = got d"
  by (simp_all add: next_main_def note_main_def)

lemma next_main_history:
  "main_at d \<noteq> ProcessData \<Longrightarrow> used (next_main pc m d) = used d"
  "main_at d \<notin> {ProcessData, AtTrigger} \<Longrightarrow> refused (next_main pc m d) = refused d"
  by (auto simp: next_main_def note_main_def)

lemma noticed_trigger:
  assumes "noticed d" "main_at d = AtTrigger" "quiet ((task d)\<lparr>unicensTrigger := False\<rparr>) m"
  shows "noticed (next_main AtTimeout m d)"
  using assms(1,2) quietD [OF assms(3)] by (auto simp: noticed_def Let_def)

lemma noticed_timeout:
  assumes "noticed d" "main_at d = RunTimeout" "quiet (task d) m"
  shows "noticed (next_main AtData m d)"
  using assms(1,2) quietD [OF assms(3)] by (auto simp: noticed_def Let_def next_main_history)

lemma noticed_ams:
  assumes "noticed d" "main_at d = AtAms" "quiet ((task d)\<lparr>amsReceived := False\<rparr>) m"
  shows "noticed (next_main AtCable m d)"
  using assms(1,2) quietD [OF assms(3)] by (auto simp: noticed_def Let_def next_main_history)

lemma noticed_cable:
  assumes "noticed d" "main_at d = AtCable" "quiet (task d) m"
  shows "noticed (next_main AtWait m d)"
  using assms(1,2) quietD [OF assms(3)] by (auto simp: noticed_def Let_def next_main_history)

lemma noticed_process:
  assumes "noticed d" "main_at d = ProcessData"
    "quiet (if ok then task d else (task d)\<lparr>unicensTrigger := True\<rparr>) m"
  shows "noticed (next_main (if ok then ClearData else AtAms) m d)"
  using assms(1,2) quietD [OF assms(3)] 
  by (cases ok) (auto simp: noticed_def Let_def next_main_def note_main_def)

lemma handshake_process:
  assumes "handshake d" "main_at d = ProcessData" "ctrlRx m = ctrlRx (task d)" 
    "unicensDataAvailable m = unicensDataAvailable (task d)"
  shows "handshake (next_main (if ok then ClearData else AtAms) m d)"
  using assms by (cases "rx_at d"; cases ok) 
   (auto simp: handshake_def idle_def handed_to_main_def in_buffer_def Let_def next_main_def note_main_def)

lemma handshake_next:
  assumes "handshake d" "main_at d \<notin> {ProcessData, ClearData, PopData}" "pc \<notin> {ProcessData, ClearData, PopData}"
    and "ctrlRx m = ctrlRx (task d)" "unicensDataAvailable m = unicensDataAvailable (task d)"
  shows "handshake (next_main pc m d)"
  unfolding next_main_def by (rule handshake_quiet [OF assms])

lemma handshake_calm:
  assumes "handshake d" "main_at d \<notin> {ProcessData, ClearData, PopData}" "pc \<notin> {ProcessData, ClearData, PopData}"
    and "quiet m' m" "ctrlRx m' = ctrlRx (task d)" "unicensDataAvailable m' = unicensDataAvailable (task d)"
  shows "handshake (next_main pc m d)"
  by (rule handshake_next [OF assms(1-3)]) (use quietD [OF assms(4)] assms(5,6) in simp_all)

lemma main_step_inv:
  assumes E: "env_ok P os L" and I: "daemon_inv P d"
  shows "case main_step os L (main_at d) (task d) of None \<Rightarrow> True
    | Some r \<Rightarrow> okR r (\<lambda>(pc, m). daemon_inv P (next_main pc m d))"
proof -
  have l: "layer_ok P (task d)" and h: "handshake d" and n: "noticed d" using I by (simp_all add: daemon_inv_def)
  show ?thesis
  proof (cases "main_at d")
    case AtTrigger
    then show ?thesis
      using noticed_trigger [OF n] handshake_calm [OF h]
      by (auto simp: daemon_inv_def intro!: okR_mono [OF service_trigger_okR [OF E l]])
  next
    case AtTimeout
    then show ?thesis
      using l n handshake_next [OF h, of _ "task d"] by (auto simp: daemon_inv_def noticed_def Let_def next_main_history)
  next
    case ClearTimeout
    then show ?thesis
      using l n handshake_next [OF h, of _ "(task d)\<lparr>unicensTimeout := False\<rparr>"] 
       by (auto simp: daemon_inv_def noticed_def Let_def next_main_history)
  next
    case RunTimeout
    then show ?thesis
      using noticed_timeout [OF n] handshake_calm [OF h]
      by (auto simp: daemon_inv_def intro!: okR_mono [OF timeout_okR [OF E l]])
  next
    case AtData
    have "handshake (next_main ProcessData (task d) d)" if "unicensDataAvailable (task d)"
      using that AtData h by (cases "rx_at d")
        (auto simp: handshake_def idle_def handed_to_main_def in_buffer_def Let_def next_main_history)
    then show ?thesis
      using AtData l n handshake_next [OF h, of _ "task d"] by (auto simp: daemon_inv_def noticed_def Let_def next_main_history)
  next
    case ProcessData
    have "daemon_inv P (next_main (if ok then ClearData else AtAms) m d)" 
      if "layer_ok P m" "quiet (if ok then task d else (task d)\<lparr>unicensTrigger := True\<rparr>) m" for ok m
      using that(1) noticed_process [OF n ProcessData that(2)] handshake_process [OF h ProcessData, of m ok] 
        quietD [OF that(2)] by (simp add: daemon_inv_def split: if_splits)
    then show ?thesis
      using ProcessData by (auto intro!: okR_mono [OF process_rx_okR [OF E l]])
  next
    case ClearData
    have "handshake (next_main PopData ((task d)\<lparr>unicensDataAvailable := False\<rparr>) d)" 
      using ClearData h by (cases "rx_at d")
        (auto simp: handshake_def idle_def handed_to_main_def in_buffer_def Let_def next_main_history)
    then show ?thesis
      using ClearData l n by (auto simp: daemon_inv_def noticed_def Let_def next_main_history)
  next
    case PopData
    have r: "fileFlags (ctrlRx (task d)) = O_RDONLY" using l by (simp add: layer_ok_def task_ok_def)
    have "handshake (next_main AtAms (release_rx (task d)) d)"
      using PopData h r by (cases "rx_at d")
        (auto simp: handshake_def idle_def handed_to_main_def in_buffer_def Let_def next_main_history release_rx_def Cdev_PopRx_def)
    moreover have "layer_ok P (release_rx (task d))"
      using l by (simp add: layer_ok_def task_ok_def release_rx_def Cdev_PopRx_def)
    ultimately show ?thesis
      using PopData n by (auto simp: daemon_inv_def noticed_def Let_def next_main_history release_rx_def)
  next
    case AtAms
    then show ?thesis
      using noticed_ams [OF n] handshake_calm [OF h]
      by (auto simp: daemon_inv_def intro!: okR_mono [OF service_ams_okR [OF E l]])
  next
    case AtCable
    then show ?thesis
      using noticed_cable [OF n] handshake_calm [OF h]
      by (auto simp: daemon_inv_def intro!: okR_mono [OF service_cable_okR [OF E l]])
  next
    case AtWait
    then show ?thesis
      using l n handshake_next [OF h, of _ "(task d)\<lparr>serviceSem := serviceSem (task d) - 1\<rparr>"] 
       by (auto simp: daemon_inv_def noticed_def Let_def next_main_history)
  qed
qed

section \<open>Steps of the other threads\<close>

lemma open_rx_okR:
  assumes "layer_ok P m"
  shows "okR (open_rx os m) (\<lambda>m'. layer_ok P m' \<and> (\<exists>h f. m' = m\<lparr>ctrlRx := (ctrlRx m)\<lparr>fileHandle := h\<rparr>, fs := f\<rparr>))"
proof -
  let ?r = "ctrlRx m" and ?f = "fs m"
  have f: "CHR 0x00 \<in> set (fileName ?r)" using assms by (simp add: layer_ok_def task_ok_def)
  have eq: "\<exists>h' f'. m\<lparr>ctrlRx := ?r\<lparr>fileHandle := h\<rparr>, fs := g\<rparr> = m\<lparr>ctrlRx := ?r\<lparr>fileHandle := h'\<rparr>, fs := f'\<rparr>" for h g
    by blast
  have ok: "layer_ok P (m\<lparr>ctrlRx := ?r\<lparr>fileHandle := h\<rparr>, fs := f'\<rparr>)"
    if "set (open_handles ?f) \<subseteq> set (open_handles f')" for h f'
    using assms that by (auto simp: layer_ok_def task_ok_def device_ok_def)
  have "okR (open_device (os.truncate os) (?r, ?f)) (\<lambda>(d, f'). (\<exists>h. d = ?r\<lparr>fileHandle := h\<rparr>) \<and>
      set (open_handles ?f) \<subseteq> set (open_handles f'))"
    using f by (auto simp: open_device_def c_string_def Let_def intro: exI [of _ "fileHandle ?r"])
  then show ?thesis
    unfolding open_rx_def okR_bindR by (rule okR_mono) (use ok eq in fastforce)
qed

lemma layer_ok_set_rx:
  assumes "layer_ok P m"
    and "fileName (f (ctrlRx m)) = fileName (ctrlRx m)" "fileFlags (f (ctrlRx m)) = fileFlags (ctrlRx m)"
    and "length (rxBuffer (f (ctrlRx m))) = RX_BUFFER" "unat (rxLen (f (ctrlRx m))) \<le> RX_BUFFER"
  shows "layer_ok P (set_rx f m)"
  using assms by (simp add: set_rx_def layer_ok_def task_ok_def)

lemma layer_okD:
  "layer_ok P m \<Longrightarrow> length (rxBuffer (ctrlRx m)) = RX_BUFFER" "layer_ok P m \<Longrightarrow> unat (rxLen (ctrlRx m)) \<le> RX_BUFFER"
  by (simp_all add: layer_ok_def task_ok_def)

lemma unat_rx: "n \<le> RX_BUFFER \<Longrightarrow> unat (of_nat n :: u32) = n"
  by (simp add: RX_BUFFER_def unat_of_nat take_bit_eq_mod)

lemma rx_step_inv:
  assumes "rx_step os d d'" "daemon_inv P d"
  shows "daemon_inv P d'"
proof -
  have l: "layer_ok P (task d)" and h: "handshake d" and n: "noticed d" using assms(2) by (simp_all add: daemon_inv_def)
  note L = layer_ok_set_rx [OF l] layer_okD [OF l]
  note defs = daemon_inv_def handshake_def idle_def noticed_def in_buffer_def set_rx_def Let_def
  show ?thesis
    using assms(1)
  proof cases
    case rx_start
    have "layer_ok P (set_rx (\<lambda>r. r\<lparr>rxThreadRuns := True\<rparr>) (task d))" by (rule L) (simp_all add: L)
    then show ?thesis using rx_start h n by (simp add: defs)
  next
    case rx_loop
    then show ?thesis using l h n by (simp add: defs)
  next
    case (rx_open m)
    then obtain i f where m: "m = (task d)\<lparr>ctrlRx := (ctrlRx (task d))\<lparr>fileHandle := i\<rparr>, fs := f\<rparr>" "layer_ok P m"
      using open_rx_okR [OF l, of os] by auto
    then show ?thesis using rx_open h n by (simp add: defs)
  next
    case rx_clear
    have "layer_ok P (set_rx (\<lambda>r. r\<lparr>rxLen := 0\<rparr>) (task d))" by (rule L) (simp_all add: L)
    then show ?thesis using rx_clear h n by (simp add: defs)
  next
    case rx_nothing
    have "layer_ok P (set_rx (\<lambda>r. r\<lparr>fileHandle := None\<rparr>) (task d))" by (rule L) (simp_all add: L)
    then show ?thesis using rx_nothing h n by (simp add: defs)
  next
    case (rx_bytes bytes)
    have "layer_ok P (set_rx (\<lambda>r. r\<lparr>rxBuffer := bytes @ drop (length bytes) (rxBuffer r)\<rparr>) (task d))"
      by (rule L) (use rx_bytes in \<open>simp_all add: L\<close>)
    then show ?thesis using rx_bytes h n by (simp add: defs)
  next
    case (rx_store k)
    have k: "k \<le> RX_BUFFER" using rx_store h by (simp add: handshake_def)
    have "layer_ok P (set_rx (\<lambda>r. r\<lparr>rxLen := of_nat k\<rparr>) (task d))"
      by (rule L) (use k in \<open>simp_all add: L unat_rx\<close>)
    then show ?thesis using rx_store h n by (simp add: defs unat_rx)
  next
    case rx_flag
    then show ?thesis using l h n by (auto simp: defs handed_to_main_def)
  next
    case rx_post
    then show ?thesis using l h n by (auto simp: defs handed_to_main_def SemPost_def)
  next
    case rx_wait
    have "layer_ok P (set_rx (\<lambda>r. r\<lparr>rxSem := rxSem r - 1\<rparr>) (task d))" by (rule L) (simp_all add: L)
    then show ?thesis using rx_wait h n by (auto simp: defs handed_to_main_def)
  qed
qed

lemma timer_step_inv:
  assumes "timer_step d d'" "daemon_inv P d"
  shows "daemon_inv P d'"
  using assms(1)
proof cases
  case timer_expires
  then show ?thesis
    using assms(2) by (cases "rx_at d") (auto simp: daemon_inv_def handshake_def idle_def noticed_def in_buffer_def handed_to_main_def Let_def)
next
  case timer_post
  then show ?thesis
    using assms(2) by (cases "rx_at d") (auto simp: daemon_inv_def handshake_def idle_def noticed_def in_buffer_def handed_to_main_def SemPost_def Let_def)
qed

lemma daemon_step_inv:
  assumes "env_ok P os L" "daemon_inv P d" "daemon_step os L d d'"
  shows "daemon_inv P d'"
  using assms(3)
proof cases
  case (by_main pc m)
  then show ?thesis using main_step_inv [OF assms(1,2)] by (simp add: next_main_def)
qed (use assms(2) rx_step_inv timer_step_inv in blast)+

lemma reaches_inv:
  assumes "env_ok P os L" "daemon_inv P d" "reaches os L d d'"
  shows "daemon_inv P d'"
  using assms(3) by induction (auto intro: assms(2) daemon_step_inv [OF assms(1)])

end
