(* ===== verification/Task_Start.thy ===== *)
theory Task_Start
  imports Threads_Inv
begin

text \<open>
  The start of the task: whatever its parameters and what the system answers, it runs into no
  undefined behaviour, and behind a start that succeeds the invariant of the daemon holds.
\<close>

text \<open>
  What a start relies on: device names that fit, also those of the configurator, which knows them at
  some time; and route lists of the length that is stated.
\<close>

definition system_ok :: "'z task_os_scheme \<Rightarrow> bool" where
  "system_ok os \<longleftrightarrow> (\<forall>v. \<exists>n. mld_cdevs os v n \<noteq> None) \<and>
     (\<forall>v n tx rx. mld_cdevs os v n = Some (tx, rx) \<longrightarrow> length tx < CDEV_PATH_LEN \<and> length rx < CDEV_PATH_LEN) \<and>
     (\<forall>path net. parse_file os path = Some net \<longrightarrow> routes_ok (pRoutes net) (routesSize net)) \<and>
     routes_ok (pRoutes (default_config os)) (routesSize (default_config os))"

definition start_ok :: "'z task_os_scheme \<Rightarrow> TaskUnicens_t \<Rightarrow> bool" where
  "start_ok os p \<longleftrightarrow> system_ok os \<and>
     (\<forall>name \<in> set_option (tv_controlRxCdev p) \<union> set_option (tv_controlTxCdev p). length name < CDEV_PATH_LEN)"

definition starting :: "u16 set \<Rightarrow> LocalVar_t \<Rightarrow> bool" where
  "starting P m \<longleftrightarrow> layer_ok P m \<and> CHR 0x00 \<in> set (controlRxCdev m) \<and>
     length (controlRxCdev m) = CDEV_PATH_LEN \<and> length (controlTxCdev m) = CDEV_PATH_LEN \<and> \<not> unicensDataAvailable m \<and>
     (case cfg m of None \<Rightarrow> True | Some net \<Rightarrow> routes_ok (pRoutes net) (routesSize net))"

lemma strncpy_terminated: "length str < n \<Longrightarrow> CHR 0x00 \<in> set (strncpy n str)"
  by (simp add: strncpy_def)

lemma length_strncpy [simp]: "length (strncpy n str) = n"
  by (simp add: strncpy_def)

lemma starting_say [simp]: "starting P (say p f v m) = starting P m"
  by (simp add: starting_def)

lemma okX_needX [simp]: "okX (needX ok msg) m Q E =
    (if ok then Q () m else E False (say PRIO_ERROR (RED @ msg @ RESETCOLOR @ CRLF) [] m))"
  by (simp add: needX_def failX_def)

lemma okX_wait_for_cdevs:
  assumes "start_ok os p" "starting P m"
  shows "okX (wait_for_cdevs os v) m (\<lambda>_. starting P) E"
proof -
  have "\<exists>n. mld_cdevs os v n \<noteq> None" using assms(1) by (simp add: start_ok_def system_ok_def)
  then obtain k where k: "mld_cdevs os v k \<noteq> None" by blast
  have loop: "okR (loopR (\<lambda>(n, m). mld_cdevs os v n = None) (\<lambda>(n, m). (Suc n, say q f a m)) (0, m))
      (\<lambda>x. (fst x \<le> k \<and> starting P (snd x)) \<and> \<not> (\<lambda>(n, m). mld_cdevs os v n = None) x)" for q f a
    by (rule loopR_okR [where m = "\<lambda>(n, m). k - n"])
      (use k assms(2) in \<open>auto simp: le_less dest: Suc_leI\<close>)
  have "starting P (m'\<lparr>controlTxCdev := strncpy CDEV_PATH_LEN tx, controlRxCdev := strncpy CDEV_PATH_LEN rx\<rparr>)"
    if "mld_cdevs os v n = Some (tx, rx)" "starting P m'" for n tx rx m'
    using that assms(1) strncpy_terminated [of tx CDEV_PATH_LEN] strncpy_terminated [of rx CDEV_PATH_LEN]
    by (auto simp: start_ok_def system_ok_def starting_def layer_ok_def task_ok_def split: option.splits)
  then show ?thesis
    unfolding wait_for_cdevs_def okX_bindX okX_def [of "changeX f" for f] changeX_def okR_bindR
    by (auto split: option.split intro!: okR_mono [OF loop])
qed

lemma starting_quiet: "starting P m \<Longrightarrow> quiet m m' \<Longrightarrow> layer_ok P m' \<Longrightarrow> starting P m'"
  by (auto simp: starting_def quiet_def)

lemma okX_new_config:
  assumes "env_ok P os L" "routes_ok (pRoutes net) (routesSize net)" "starting P m"
  shows "okX (new_config os net msg) m (\<lambda>_. starting P) (\<lambda>r _. \<not> r)"
proof -
  let ?f = "\<lambda>n p. UCSI_NewConfig (packetBw net) (proxyBw net) (pRoutes net) (routesSize net) (pNod net) (nodSize net) n p"
  have "layer_ok P m" using assms(3) by (simp add: starting_def)
  then have "okR (with_ucsi os (?f n p) m) (\<lambda>(x, m'). layer_ok P m' \<and> quiet m m')" for n p
    by (rule with_op_okR [OF assms(1), of _ "OpNewConfig (packetBw net) (proxyBw net) (pRoutes net) (routesSize net) (pNod net) (nodSize net) n p"])
      (use assms(2) in simp_all)
  then have "okX (changeX (with_ucsi os (?f n p))) m (\<lambda>_. starting P) (\<lambda>r _. \<not> r)" for n p
    unfolding okX_def changeX_def okR_bindR
    by (rule okR_mono) (auto intro: starting_quiet [OF assms(3)])
  then show ?thesis
    unfolding new_config_def okX_bindX okX_getX prod.case by (rule okX_mono) simp_all
qed

lemma okX_start_driver_config:
  assumes "start_ok os p" "starting P m"
  shows "okX (start_driver_config os p net) m (\<lambda>_. starting P) (\<lambda>r _. \<not> r)"
  using assms okX_wait_for_cdevs [OF assms] by (simp add: start_driver_config_def Let_def)

text \<open>The devices, and with them the hand-over to the threads.\<close>

lemma Cdev_Init_okR:
  assumes "CHR 0x00 \<in> set arr" "length arr \<le> MAX_FILENAME_LEN" "rd \<noteq> wr"
  shows "okR (Cdev_Init (Some arr) rd wr d) (\<lambda>(ok, d'). ok \<and> fileHandle d' = None \<and> rxSem d' = 0 \<and>
     fileFlags d' = (if rd then O_RDONLY else O_WRONLY) \<and> rxBuffer d' = replicate RX_BUFFER 0 \<and> rxLen d' = 0 \<and>
     CHR 0x00 \<in> set (fileName d'))"
proof -
  have "length (takeWhile (\<lambda>c. c \<noteq> CHR 0x00) arr) < length arr"
    using assms(1) by (induction arr) auto
  then have "CHR 0x00 \<in> set (strncpy MAX_FILENAME_LEN (takeWhile (\<lambda>c. c \<noteq> CHR 0x00) arr))"
    using assms(2) by (intro strncpy_terminated) simp
  then show ?thesis using assms(1,3) by (auto simp: Cdev_Init_def c_string_def CdevData_zero_def)
qed

lemma InitializeCdevs_okR:
  assumes "starting P m"
  shows "okR (InitializeCdevs os m) (\<lambda>(ok, m'). ok \<longrightarrow> daemon_inv P (started m'))"
proof -
  have ok: "daemon_inv P (started (m'\<lparr>ctrlTx := dt, ctrlRx := dr\<lparr>rxSem := 0\<rparr>\<rparr>))"
    if "starting P m'" "fileHandle dt = None" "CHR 0x00 \<in> set (fileName dt)" "fileFlags dr = O_RDONLY"
      "CHR 0x00 \<in> set (fileName dr)" "rxBuffer dr = replicate RX_BUFFER 0" "rxLen dr = 0" for m' dt dr
    using that by (simp add: daemon_inv_def started_def layer_ok_def task_ok_def device_ok_def starting_def
        handshake_def idle_def noticed_def)
  have path: "CHR 0x00 \<in> set (controlTxCdev m')" "CHR 0x00 \<in> set (controlRxCdev m')"
    "length (controlTxCdev m') \<le> MAX_FILENAME_LEN" "length (controlRxCdev m') \<le> MAX_FILENAME_LEN"
    if "starting P m'" for m'
    using that by (simp_all add: starting_def layer_ok_def task_ok_def CDEV_PATH_LEN_def MAX_FILENAME_LEN_def)
  have dev: "okR (bindR (Cdev_Init (Some (controlTxCdev m')) False True (ctrlTx m')) (\<lambda>(ok, d).
     let m = m'\<lparr>ctrlTx := d\<rparr> in if \<not> ok then Inr (False, m) else
     bindR (Cdev_Init (Some (controlRxCdev m)) True False (ctrlRx m)) (\<lambda>(ok, d).
     let m = m\<lparr>ctrlRx := d\<rparr> in if \<not> ok then Inr (False, m) else
     case Cdev_StartReading (rx_sem_ok os) (rx_thread_ok os) (ctrlRx m) of
       (ok, d) \<Rightarrow> Inr (ok, m\<lparr>ctrlRx := d\<rparr>)))) (\<lambda>(ok, m'). ok \<longrightarrow> daemon_inv P (started m'))"
    if m: "starting P m'" for m'
  proof -
    have rx: "okR (Cdev_Init (Some (controlRxCdev m')) True False (ctrlRx m')) (\<lambda>(ok, d). ok \<and> fileHandle d = None \<and> rxSem d = 0 \<and>
     fileFlags d = O_RDONLY \<and> rxBuffer d = replicate RX_BUFFER 0 \<and> rxLen d = 0 \<and> CHR 0x00 \<in> set (fileName d))"
      by (rule okR_mono [OF Cdev_Init_okR]) (use path [OF m] in auto)
    obtain dt where dt: "Cdev_Init (Some (controlTxCdev m')) False True (ctrlTx m') = Inr (True, dt)"
      "fileHandle dt = None" "CHR 0x00 \<in> set (fileName dt)"
      using Cdev_Init_okR [OF path(1,3) [OF m], of False True "ctrlTx m'"] by (auto simp: okR_ex)
    obtain dr where dr: "Cdev_Init (Some (controlRxCdev m')) True False (ctrlRx m') = Inr (True, dr)"
      "CHR 0x00 \<in> set (fileName dr)" "fileFlags dr = O_RDONLY" "rxBuffer dr = replicate RX_BUFFER 0" "rxLen dr = 0"
      using rx by (auto simp: okR_ex)
    show ?thesis
      using ok [OF m dt(2,3) dr(3,2,4,5)] by (simp add: dt(1) dr(1) Let_def Cdev_StartReading_def)
  qed
  have "okR (if prio_number PRIO_LOW < prio_number (minPrio (console m)) then Inr m else
            bindR (c_string (controlRxCdev m)) (\<lambda>rx. bindR (c_string (controlTxCdev m)) (\<lambda>tx.
            Inr (say PRIO_LOW (''RX-CDEV='' @ quoted ''%s'' @ '', TX-CDEV='' @ quoted ''%s'' @ CRLF) [MStr rx, MStr tx] m)))) (starting P)"
    using assms path(1,2) [OF assms] by (simp add: c_string_def)
  then show ?thesis
    unfolding InitializeCdevs_def by (rule iffD2 [OF okR_bindR okR_mono]) (rule dev)
qed

section \<open>The whole start\<close>

lemma lib_starts_task_lib [simp]: "lib_starts (task_lib os L) = lib_starts L"
  by (simp add: lib_starts_def task_lib_def)

text \<open>The parameters, and the instance of the layer.\<close>

lemma take_parameters_ok:
  assumes "start_ok os p"
  shows "task_ok (take_parameters p m)" "CHR 0x00 \<in> set (controlRxCdev (take_parameters p m))"
    "length (controlRxCdev (take_parameters p m)) = CDEV_PATH_LEN"
    "length (controlTxCdev (take_parameters p m)) = CDEV_PATH_LEN"
    "\<not> unicensDataAvailable (take_parameters p m)"
    "unicensData (take_parameters p m) = (unicensData m)\<lparr>promiscuousMode := tv_promiscuousMode p\<rparr>"
proof -
  have "0 < CDEV_PATH_LEN" by (simp add: CDEV_PATH_LEN_def)
  then show "task_ok (take_parameters p m)" "CHR 0x00 \<in> set (controlRxCdev (take_parameters p m))"
    "length (controlRxCdev (take_parameters p m)) = CDEV_PATH_LEN"
    "length (controlTxCdev (take_parameters p m)) = CDEV_PATH_LEN"
    "\<not> unicensDataAvailable (take_parameters p m)"
    "unicensData (take_parameters p m) = (unicensData m)\<lparr>promiscuousMode := tv_promiscuousMode p\<rparr>"
    using assms by (auto simp: take_parameters_def task_zero_def Let_def task_ok_def CdevData_zero_def start_ok_def system_ok_def
        MAX_FILENAME_LEN_def RX_BUFFER_def strncpy_terminated split: option.splits)
qed

lemma okX_init_layer:
  assumes "env_ok P os L" "lib_starts L" "print_safe P (pm (unicensData m))" "outs_ok (unicensData m)"
    and "task_ok m" "CHR 0x00 \<in> set (controlRxCdev m)" "\<not> unicensDataAvailable m"
    and "length (controlRxCdev m) = CDEV_PATH_LEN" "length (controlTxCdev m) = CDEV_PATH_LEN"
    and "case cfg m of None \<Rightarrow> True | Some net \<Rightarrow> routes_ok (pRoutes net) (routesSize net)"
  shows "okX (changeX (with_ucsi os (\<lambda>u. Inr ((), UCSI_Init (task_lib os L) dbg u)))) m (\<lambda>_. starting P) E"
proof -
  have "okR (with_ucsi os (\<lambda>u. Inr ((), UCSI_Init (task_lib os L) dbg u)) m) (\<lambda>(x, m'). layer_ok P m' \<and> quiet m m')"
    by (rule with_ucsi_okR) (use assms UCSI_Init_inv [of "task_lib os L"] in \<open>simp_all add: env_ok_def\<close>)
  then show ?thesis
    unfolding okX_def changeX_def okR_bindR
    by (rule okR_mono) (use assms in \<open>auto simp: starting_def quiet_def\<close>)
qed

lemma okX_thenI: "okX m s (\<lambda>_. I) E \<Longrightarrow> (\<And>s. I s \<Longrightarrow> okX n s Q E) \<Longrightarrow> okX (thenX m n) s Q E"
  by (simp add: okX_mono)

lemma TaskUnicens_Init_okR:
  assumes "env_ok P os L" "lib_starts L" "start_ok os p" "print_safe P (pm (unicensData m))" "outs_ok (unicensData m)"
  shows "okR (TaskUnicens_Init os L (Some p) m) (\<lambda>(ok, m'). ok \<longrightarrow> daemon_inv P (started m'))"
proof -
  let ?E = "\<lambda>(r :: bool) m :: LocalVar_t. \<not> r" and ?Q = "\<lambda>r m'. r \<longrightarrow> daemon_inv P (started m')"
  let ?init = "changeX (with_ucsi os (\<lambda>u. Inr ((), UCSI_Init (task_lib os L) (tv_debugLocalMsg p) u)))"
  have cdevs: "okX (bindX (changeX (InitializeCdevs os)) (\<lambda>ok. thenX (needX ok ''Failed to initialize Control CDEVs'')
      (thenX (updX (\<lambda>m. m\<lparr>allowRun := True\<rparr>)) (retX True)))) m ?Q ?E"
    if "starting P m" for m
    unfolding okX_bindX okX_def [of "changeX f" for f] changeX_def okR_bindR
    by (rule okR_mono [OF InitializeCdevs_okR [OF that]])
      (auto simp: daemon_inv_def started_def handshake_def idle_def noticed_def layer_ok_def task_ok_def)
  have config: "okX (bindX (getX cfg) (\<lambda>c. case c of
               Some net \<Rightarrow> thenX (start_driver_config os p net)
                 (new_config os net ''Could not enqueue XML generated UNICENS config'')
             | None \<Rightarrow> new_config os (default_config os) ''Could not enqueue default UNICENS config'')) m (\<lambda>_. starting P) ?E"
    if m: "starting P m" for m
  proof (cases "cfg m")
    case None
    have "routes_ok (pRoutes (default_config os)) (routesSize (default_config os))"
      using assms(3) by (simp add: start_ok_def system_ok_def)
    then show ?thesis using None okX_new_config [OF assms(1) _ m] by simp
  next
    case (Some net)
    then have "routes_ok (pRoutes net) (routesSize net)" using m by (simp add: starting_def)
    then show ?thesis
      using Some okX_new_config [OF assms(1)] by (auto intro!: okX_mono [OF okX_start_driver_config [OF assms(3) m]])
  qed
  have init: "okX ?init (m'\<lparr>cfg := c\<rparr>) (\<lambda>_. starting P) ?E"
    if "m' = take_parameters p m" "\<forall>net. c = Some net \<longrightarrow> routes_ok (pRoutes net) (routesSize net)" for m' c
    using take_parameters_ok [OF assms(3), of m] that assms(4,5)
    by (intro okX_init_layer [OF assms(1,2)]) (auto simp: task_ok_def outs_ok_def split: option.split)
  have routes: "routes_ok (pRoutes net) (routesSize net)" if "parse_file os path = Some net" for path net
    using assms(3) that by (simp add: start_ok_def system_ok_def)
  have zero: "m' = m'\<lparr>cfg := None\<rparr>" if "m' = take_parameters p m" for m'
    using that by (auto simp: take_parameters_def task_zero_def Let_def split: option.split)
  let ?tp = "\<lambda>m'. m' = take_parameters p m"
  let ?J = "\<lambda>m'. \<exists>c. m' = (take_parameters p m)\<lparr>cfg := c\<rparr> \<and> (\<forall>net. c = Some net \<longrightarrow> routes_ok (pRoutes net) (routesSize net))"
  let ?rest = "thenX (needX (\<not> (tv_programPersistent p \<and> tv_programNodeCnt p = 0))
        ''Can not program persistent without setting amount of nodes (use additional -program)'')
     (thenX (bindX (getX cfg) (\<lambda>c. case c of
               Some net \<Rightarrow> thenX (start_driver_config os p net)
                 (new_config os net ''Could not enqueue XML generated UNICENS config'')
             | None \<Rightarrow> new_config os (default_config os) ''Could not enqueue default UNICENS config''))
     (bindX (changeX (InitializeCdevs os)) (\<lambda>ok.
      thenX (needX ok ''Failed to initialize Control CDEVs'')
      (thenX (updX (\<lambda>m. m\<lparr>allowRun := True\<rparr>)) (retX True)))))"
  have rest: "okX ?rest m ?Q ?E" if "starting P m" for m
    by (rule okX_thenI [OF _ okX_thenI [OF config cdevs]]) (use that in simp_all)
  have behind: "okX (thenX ?init ?rest) (m'\<lparr>cfg := c\<rparr>) ?Q ?E"
    if "m' = take_parameters p m" "\<forall>net. c = Some net \<longrightarrow> routes_ok (pRoutes net) (routesSize net)" for m' c
    by (rule okX_thenI [OF init [OF that] rest])
  have "okX (init_steps os (task_lib os L) p) m ?Q ?E"
    unfolding init_steps_def
  proof (rule okX_thenI [where I = ?tp], goal_cases)
    case start: (2 s)
    show ?case
    proof (rule okX_thenI [where I = ?tp], goal_cases)
      case (2 s)
      have J: "?J s" using 2 zero by (intro exI [of _ None]) simp
      show ?case
      proof (rule okX_thenI [where I = ?J], goal_cases)
        case 1
        show ?case using J routes by (auto split: option.split)
      qed (use behind in blast)
    qed (use start in simp)
  qed simp
  then show ?thesis
    unfolding TaskUnicens_Init_def option.case okR_bindR okX_def
    by (rule okR_mono) (auto split: sum.splits)
qed

end
