(* ===== verification/Threads_Props.thy ===== *)
theory Threads_Props
  imports Task_Start
begin

text \<open>
  What holds of the running daemon: it never runs into undefined behaviour, messages are handed over
  exactly once, no wake-up is lost, and where it falls asleep with work to do.
\<close>

section \<open>A scheduler\<close>

text \<open>It picks the thread that goes on, and what a read returns.\<close>

datatype actor = Main | Rx | RxNothing | RxBytes "u8 list" | TimerExpires | TimerPosts

fun act :: "'z task_os_scheme \<Rightarrow> ucs_lib \<Rightarrow> actor \<Rightarrow> daemon \<Rightarrow> daemon option" where
  "act os L Main d = (case main_step os L (main_at d) (task d) of
     Some (Inr (pc, m)) \<Rightarrow> Some ((note_main pc d)\<lparr>main_at := pc, task := m\<rparr>) | _ \<Rightarrow> None)"
| "act os L Rx d = (case rx_at d of
     RxStart \<Rightarrow> Some (d\<lparr>rx_at := RxLoop, task := set_rx (\<lambda>r. r\<lparr>rxThreadRuns := True\<rparr>) (task d)\<rparr>)
   | RxLoop \<Rightarrow> Some (d\<lparr>rx_at := (if allowThreadRun (ctrlRx (task d)) then RxOpen else RxEnd)\<rparr>)
   | RxOpen \<Rightarrow> (case open_rx os (task d) of Inl e \<Rightarrow> None
       | Inr m \<Rightarrow> Some (d\<lparr>rx_at := (if fileHandle (ctrlRx m) = None then RxLoop else RxRead), task := m\<rparr>))
   | RxRead \<Rightarrow> Some (d\<lparr>rx_at := RxReading, task := set_rx (\<lambda>r. r\<lparr>rxLen := 0\<rparr>) (task d)\<rparr>)
   | RxStore n \<Rightarrow> Some (d\<lparr>rx_at := RxFlag, task := set_rx (\<lambda>r. r\<lparr>rxLen := of_nat n\<rparr>) (task d)\<rparr>)
   | RxFlag \<Rightarrow> Some (d\<lparr>rx_at := RxPost, task := (task d)\<lparr>unicensDataAvailable := True\<rparr>\<rparr>)
   | RxPost \<Rightarrow> Some (d\<lparr>rx_at := RxWait, task := SemPost (task d)\<rparr>)
   | RxWait \<Rightarrow> if rxSem (ctrlRx (task d)) = 0 then None
       else Some (d\<lparr>rx_at := RxLoop, task := set_rx (\<lambda>r. r\<lparr>rxSem := rxSem r - 1\<rparr>) (task d)\<rparr>)
   | _ \<Rightarrow> None)"
| "act os L RxNothing d = (if rx_at d = RxReading
     then Some (d\<lparr>rx_at := RxLoop, task := set_rx (\<lambda>r. r\<lparr>fileHandle := None\<rparr>) (task d)\<rparr>) else None)"
| "act os L (RxBytes bytes) d = (if rx_at d = RxReading \<and> bytes \<noteq> [] \<and> length bytes \<le> RX_BUFFER
     then Some (d\<lparr>rx_at := RxStore (length bytes), got := got d @ [bytes],
       task := set_rx (\<lambda>r. r\<lparr>rxBuffer := bytes @ drop (length bytes) (rxBuffer r)\<rparr>) (task d)\<rparr>) else None)"
| "act os L TimerExpires d = (if ucsTimer (task d) = (0, 0) then None else
     Some (d\<lparr>timer_posts := timer_posts d + 1, task := (task d)\<lparr>ucsTimer := (0, 0), unicensTimeout := True\<rparr>\<rparr>))"
| "act os L TimerPosts d = (if timer_posts d = 0 then None else
     Some (d\<lparr>timer_posts := timer_posts d - 1, task := SemPost (task d)\<rparr>))"

lemma act_Rx_step:
  assumes "act os L Rx d = Some d'"
  shows "rx_step os d d'"
proof (cases "rx_at d")
  case RxOpen
  then show ?thesis using assms rx_open [OF RxOpen] by (auto split: sum.splits)
qed (use assms in \<open>auto simp: rx_step.simps split: if_splits\<close>)

lemma act_step: "act os L a d = Some d' \<Longrightarrow> daemon_step os L d d'"
  by (cases a)
    (auto intro: by_main by_timer by_rx act_Rx_step rx_nothing rx_bytes simp: timer_step.simps simp del: act.simps(2)
      split: option.splits sum.splits if_splits)

text \<open>The steps the other threads can take.\<close>

lemma rx_step_act:
  assumes "rx_step os d d'"
  shows "\<exists>a. act os L a d = Some d'"
  using assms
proof cases
  case rx_nothing
  then show ?thesis by (intro exI [of _ RxNothing]) simp
next
  case (rx_bytes bytes)
  then show ?thesis by (intro exI [of _ "RxBytes bytes"]) simp
qed (rule exI [of _ Rx], simp)+

fun acts :: "'z task_os_scheme \<Rightarrow> ucs_lib \<Rightarrow> actor list \<Rightarrow> daemon \<Rightarrow> daemon option" where
  "acts os L [] d = Some d"
| "acts os L (a # as) d = (case act os L a d of None \<Rightarrow> None | Some d \<Rightarrow> acts os L as d)"

lemma reaches_trans: "reaches os L d d' \<Longrightarrow> daemon_step os L d0 d \<Longrightarrow> reaches os L d0 d'"
  by (induction rule: reaches.induct) (auto intro: reaches.intros)

lemma reaches_reaches: "reaches os L d0 d \<Longrightarrow> reaches os L d d' \<Longrightarrow> reaches os L d0 d'"
  by (rotate_tac, induction rule: reaches.induct) (auto intro: reaches.intros)

lemma acts_reaches: "acts os L as d = Some d' \<Longrightarrow> reaches os L d d'"
  by (induction "as" arbitrary: d) (auto intro: reaches.intros act_step reaches_trans split: option.splits)

section \<open>An environment\<close>

definition small_net :: network where
  "small_net = \<lparr>packetBw = 52, proxyBw = 0, pRoutes = None, routesSize = 0, pNod = None, nodSize = 0\<rparr>"

definition demo_os :: task_os where
  "demo_os = \<lparr>open_ok = (\<lambda>_. True), write_result = (\<lambda>_ n. int n), get_time = (\<lambda>_. Some (5, 0)), timer_ok = True,
     service_sem_ok = True, rx_sem_ok = True, rx_thread_ok = True, errno = (\<lambda>_. 5), parse_file = (\<lambda>_. None),
     default_config = small_net, mld_start = (\<lambda>_ _ _ _. True), mld_cdevs = (\<lambda>_ _. Some (''/dev/inic-control-tx'', ''/dev/inic-control-rx''))\<rparr>"

definition demo_parameters :: TaskUnicens_t where
  "demo_parameters = \<lparr>tv_noRouteTable = True, tv_lldTrace = False, tv_promiscuousMode = False, tv_debugLocalMsg = False,
     tv_cfgFileName = None, tv_drvVersion = 0, tv_drvLocalNodeAddr = 0, tv_drvFilter = None,
     tv_controlRxCdev = Some ''/dev/inic-control-rx'', tv_controlTxCdev = Some ''/dev/inic-control-tx'',
     tv_programNodeCnt = 0, tv_programPersistent = False\<rparr>"

text \<open>A library that has no buffer for a message, and never asks for service again.\<close>

definition busy_lib :: ucs_lib where
  "busy_lib = demo_lib\<lparr>lib_success := (\<lambda>_ c. case c of Lld_rx_allocate _ \<Rightarrow> False | _ \<Rightarrow> True),
     lib_events := (\<lambda>_ c. case c of Ucs_Init _ \<Rightarrow> [EvService] | Ucs_Service \<Rightarrow> [EvLldStart True True] | _ \<Rightarrow> [])\<rparr>"

definition demo_before :: LocalVar_t where
  "demo_before = \<lparr>allowRun = False, lldTrace = False, noRouteTable = False, cfg = None,
     unicensData = demo_start, unicensRunning = False, unicensTimeout = False, unicensTrigger = False,
     amsReceived = False, unicensDataAvailable = False, txErrorState = False, cableDiagnosisTimer = 0,
     ucsTimer = (0, 0), serviceSem = 0, ctrlTx = CdevData_zero, ctrlRx = CdevData_zero,
     controlRxCdev = [], controlTxCdev = [], programNodeCnt = 0, programPersistent = False,
     console = \<lparr>minPrio = PRIO_HIGH, contPrio = PRIO_LOW, prints = []\<rparr>, fs = no_files\<rparr>"

definition demo_init :: "ucs_lib \<Rightarrow> LocalVar_t option" where
  "demo_init L = (case TaskUnicens_Init demo_os L (Some demo_parameters) demo_before of Inr (True, m) \<Rightarrow> Some m | _ \<Rightarrow> None)"


definition demo_run :: "ucs_lib \<Rightarrow> actor list \<Rightarrow> daemon option" where
  "demo_run L as = Option.bind (demo_init L) (\<lambda>m. acts demo_os (task_lib demo_os L) as (started m))"

definition rnd :: "actor list" where "rnd = replicate 6 Main"
definition receive :: "u8 list \<Rightarrow> actor list" where "receive b = [Rx, Rx, Rx, Rx, RxBytes b, Rx, Rx, Rx]"

lemma demo_ok:
  "env_ok {} demo_os busy_lib" "lib_starts busy_lib" "start_ok demo_os demo_parameters"
  "print_safe {} (pm (unicensData demo_before))" "outs_ok (unicensData demo_before)"
  using demo_start_safe(1) [of "{}"] demo_start_safe(2)
  by (auto simp: env_ok_def writes_ok_def demo_os_def busy_lib_def demo_lib_def lib_async_def lib_events_ok_def
      os.defs lib_starts_def demo_config_def CMD_QUEUE_LEN_def start_ok_def system_ok_def demo_parameters_def CDEV_PATH_LEN_def
      small_net_def routes_ok_def demo_before_def split: ucs_call.splits)

section \<open>Safety\<close>

text \<open>Whatever thread goes on next, its step has defined behaviour.\<close>

definition steps_defined :: "'z task_os_scheme \<Rightarrow> ucs_lib \<Rightarrow> daemon \<Rightarrow> bool" where
  "steps_defined os L d \<longleftrightarrow>
     (\<forall>r. main_step os L (main_at d) (task d) = Some r \<longrightarrow> okR r (\<lambda>_. True)) \<and> okR (open_rx os (task d)) (\<lambda>_. True)"

lemma daemon_inv_steps_defined:
  assumes "env_ok P os L" "daemon_inv P d"
  shows "steps_defined os L d"
  unfolding steps_defined_def
proof (intro conjI allI impI)
  show "okR (open_rx os (task d)) (\<lambda>_. True)"
    by (intro okR_mono [OF open_rx_okR]) (use assms(2) in \<open>auto simp: daemon_inv_def\<close>)
  show "okR r (\<lambda>_. True)" if "main_step os L (main_at d) (task d) = Some r" for r
    using main_step_inv [OF assms] that by (auto elim: okR_mono)
qed

section \<open>Messages\<close>

text \<open>The states of a daemon that was started.\<close>

definition running ::
  "u16 set \<Rightarrow> 'z task_os_scheme \<Rightarrow> ucs_lib \<Rightarrow> TaskUnicens_t \<Rightarrow> LocalVar_t \<Rightarrow> daemon \<Rightarrow> bool" where
  "running P os L p m d \<longleftrightarrow> env_ok P os L \<and> lib_starts L \<and> start_ok os p \<and>
     print_safe P (pm (unicensData m)) \<and> outs_ok (unicensData m) \<and>
     (\<exists>m'. TaskUnicens_Init os L (Some p) m = Inr (True, m') \<and> reaches os (task_lib os L) (started m') d)"

lemma running_inv: "running P os L p m d \<Longrightarrow> daemon_inv P d"
proof -
  assume "running P os L p m d"
  then obtain m' where r: "env_ok P os L" "lib_starts L" "start_ok os p" "print_safe P (pm (unicensData m))"
      "outs_ok (unicensData m)" "TaskUnicens_Init os L (Some p) m = Inr (True, m')"
      "reaches os (task_lib os L) (started m') d"
    unfolding running_def by blast
  have "daemon_inv P (started m')" using TaskUnicens_Init_okR [OF r(1-5)] r(6) by simp
  then show ?thesis by (intro reaches_inv [OF _ _ r(7)]) (simp_all add: r(1))
qed

lemma running_demo:
  assumes "demo_run busy_lib as = Some d"
  shows "running {} demo_os busy_lib demo_parameters demo_before d"
proof -
  obtain m where "demo_init busy_lib = Some m" "acts demo_os (task_lib demo_os busy_lib) as (started m) = Some d"
    using assms by (auto simp: demo_run_def bind_eq_Some_conv)
  then show ?thesis
    using demo_ok acts_reaches by (auto simp: running_def demo_init_def split: sum.splits prod.splits bool.splits if_splits)
qed




section \<open>Falling asleep\<close>

text \<open>The layer does not take the message in the buffer, and calls nothing back.\<close>

definition refused_silently :: "ucs_lib \<Rightarrow> LocalVar_t \<Rightarrow> bool" where
  "refused_silently L m \<longleftrightarrow>
     (case UCSI_ProcessRxData L (rxBuffer (ctrlRx m)) (rxLen (ctrlRx m)) (unicensData m) of
        Inl e \<Rightarrow> False
      | Inr (ok, u) \<Rightarrow> \<not> ok \<and> list_all (\<lambda>x. case x of Lib _ \<Rightarrow> True | _ \<Rightarrow> False)
          (drop (length (trace (unicensData m))) (trace u)))"

lemma task_callbacks_lib:
  "list_all (\<lambda>x. case x of Lib _ \<Rightarrow> True | _ \<Rightarrow> False) xs \<Longrightarrow> task_callbacks os past xs m = Inr m"
  by (induction xs arbitrary: past) (auto split: ucsi_out.splits)

lemma process_rx_refused:
  assumes "refused_silently L m" "unicensRunning m" "fileFlags (ctrlRx m) \<noteq> O_WRONLY"
  shows "\<exists>u. process_rx os L m =
     Inr (False, (say PRIO_ERROR (''RX buffer overflow'' @ CRLF) [] (m\<lparr>unicensData := u\<rparr>))\<lparr>unicensTrigger := True\<rparr>)"
proof -
  obtain u where u: "UCSI_ProcessRxData L (rxBuffer (ctrlRx m)) (rxLen (ctrlRx m)) (unicensData m) = Inr (False, u)"
    "list_all (\<lambda>x. case x of Lib _ \<Rightarrow> True | _ \<Rightarrow> False) (drop (length (trace (unicensData m))) (trace u))"
    using assms(1) by (auto simp: refused_silently_def split: sum.splits)
  then show ?thesis
    using assms(2,3) by (intro exI [of _ u])
      (simp add: process_rx_def Cdev_GetRx_def with_ucsi_def Let_def task_callbacks_lib)
qed

text \<open>
  C25: A refused message can put the daemon to sleep with work to do. The layer has no room for the
  message and calls nothing back; the code then sets the trigger, to reactivate the layer by its service
  routine, but posts no semaphore. When nothing else is under way, the main thread goes to sleep with the
  trigger set and the message in the buffer, the receive thread waits for it, no timer runs: no
  thread of the daemon makes a step again.
\<close>

theorem refused_message_sleeps:
  assumes "main_at d = ProcessData" "unicensRunning (task d)" "refused_silently L (task d)"
    and "rx_at d = RxWait" "rxSem (ctrlRx (task d)) = 0" "fileFlags (ctrlRx (task d)) \<noteq> O_WRONLY"
    and "serviceSem (task d) = 0" "timer_posts d = 0" "ucsTimer (task d) = (0, 0)"
    and "\<not> amsReceived (task d)" "cableDiagnosisTimer (task d) = 0"
  shows "\<exists>d'. reaches os L d d' \<and> main_at d' = AtWait \<and> unicensTrigger (task d') \<and>
     unicensDataAvailable (task d') = unicensDataAvailable (task d) \<and> got d' = got d \<and> used d' = used d \<and>
     (\<forall>d''. \<not> daemon_step os L d' d'')"
proof -
  obtain u where p: "process_rx os L (task d) = Inr (False, (say PRIO_ERROR (''RX buffer overflow'' @ CRLF) []
      ((task d)\<lparr>unicensData := u\<rparr>))\<lparr>unicensTrigger := True\<rparr>)" (is "_ = Inr (False, ?m)")
    using process_rx_refused [OF assms(3,2,6)] by blast
  let ?d = "d\<lparr>main_at := AtWait, task := ?m, refused := True\<rparr>"
  have "acts os L [Main, Main, Main] d = Some ?d"
    using assms p by (simp add: note_main_def service_ams_def service_cable_def say_def)
  then have "reaches os L d ?d" by (rule acts_reaches)
  moreover have "\<not> daemon_step os L ?d d''" for d''
    using assms by (auto elim!: daemon_stepE rx_stepE timer_stepE simp: say_def)
  ultimately show ?thesis by (intro exI [of _ ?d]) simp
qed

section \<open>An example\<close>

definition until_message :: "actor list" where
  "until_message = rnd @ rnd @ replicate 5 Main @ receive [1, 2] @ replicate 4 Main"

lemma demo_at_message:
  "case demo_run busy_lib until_message of None \<Rightarrow> False | Some d \<Rightarrow>
     main_at d = ProcessData \<and> unicensRunning (task d) \<and> refused_silently (task_lib demo_os busy_lib) (task d) \<and>
     rx_at d = RxWait \<and> rxSem (ctrlRx (task d)) = 0 \<and> fileFlags (ctrlRx (task d)) = O_RDONLY \<and>
     serviceSem (task d) = 0 \<and> timer_posts d = 0 \<and> ucsTimer (task d) = (0, 0) \<and>
     \<not> amsReceived (task d) \<and> cableDiagnosisTimer (task d) = 0 \<and> unicensDataAvailable (task d) \<and>
     got d = [[1, 2]] \<and> used d = []"
  by code_simp


theorem refused_message_sleeps_witness:
  "\<exists>d. running {} demo_os busy_lib demo_parameters demo_before d \<and> got d = [[1, 2]] \<and> used d = [] \<and>
     unicensDataAvailable (task d) \<and> unicensTrigger (task d) \<and>
     (\<forall>d'. \<not> daemon_step demo_os (task_lib demo_os busy_lib) d d')"
proof -
  let ?L = "task_lib demo_os busy_lib"
  obtain d where d: "demo_run busy_lib until_message = Some d" "main_at d = ProcessData" "unicensRunning (task d)"
    "refused_silently ?L (task d)" "rx_at d = RxWait" "rxSem (ctrlRx (task d)) = 0" "fileFlags (ctrlRx (task d)) = O_RDONLY"
    "serviceSem (task d) = 0" "timer_posts d = 0" "ucsTimer (task d) = (0, 0)"
    "\<not> amsReceived (task d)" "cableDiagnosisTimer (task d) = 0" "unicensDataAvailable (task d)" "got d = [[1, 2]]" "used d = []"
    using demo_at_message by (auto split: option.splits)
  have r: "running {} demo_os busy_lib demo_parameters demo_before d" by (rule running_demo [OF d(1)])
  obtain d' where d': "reaches demo_os ?L d d'" "unicensTrigger (task d')"
    "unicensDataAvailable (task d') = unicensDataAvailable (task d)" "got d' = got d" "used d' = used d"
    "\<forall>d''. \<not> daemon_step demo_os ?L d' d''"
    using refused_message_sleeps [OF d(2-6) _ d(8-12), of demo_os] d(7) by auto
  have "running {} demo_os busy_lib demo_parameters demo_before d'"
    using r reaches_reaches [OF _ d'(1)] by (auto simp: running_def)
  then show ?thesis using d' d by auto
qed


end
