(* ===== verification/Daemon_Main_Props.thy ===== *)
theory Daemon_Main_Props
  imports Daemon_Main Threads_Props
begin

text \<open>
  From the command line to the running daemon.
\<close>

section \<open>Arguments\<close>

lemma drv_tokens_devices [simp]:
  "tv_controlRxCdev (drv_tokens j ts p) = tv_controlRxCdev p"
  "tv_controlTxCdev (drv_tokens j ts p) = tv_controlTxCdev p"
  by (induction ts arbitrary: j p) auto

lemma print_fields [simp]:
  "pv (print prio fmt v a) = pv a" "defaultSet (print prio fmt v a) = defaultSet a"
  by (simp_all add: print_def)

lemma set_fields [simp]:
  "pv (set_prio prio a) = pv a" "pv (set_pv f a) = f (pv a)" "defaultSet (set_pv f a) = defaultSet a"
  "pv (PrintHelp a) = pv a"
  by (simp_all add: set_prio_def set_pv_def PrintHelp_def Let_def)

definition names_from :: "string set \<Rightarrow> args \<Rightarrow> bool" where
  "names_from X a \<longleftrightarrow> set_option (tv_controlRxCdev (pv a)) \<union> set_option (tv_controlTxCdev (pv a)) \<subseteq> X"

lemma names_from_simps [simp]:
  "names_from X (print prio fmt v a) = names_from X a" "names_from X (set_prio prio a) = names_from X a"
  "names_from X (PrintHelp a) = names_from X a" "names_from X (a\<lparr>defaultSet := b\<rparr>) = names_from X a"
  by (simp_all add: names_from_def)

lemma names_from_set [simp]:
  "names_from X (set_pv (\<lambda>p. p\<lparr>tv_cfgFileName := c\<rparr>) a) = names_from X a"
  "names_from X (set_pv (\<lambda>p. p\<lparr>tv_noRouteTable := b\<rparr>) a) = names_from X a"
  "names_from X (set_pv (\<lambda>p. p\<lparr>tv_lldTrace := b\<rparr>) a) = names_from X a"
  "names_from X (set_pv (\<lambda>p. p\<lparr>tv_promiscuousMode := b\<rparr>) a) = names_from X a"
  "names_from X (set_pv (\<lambda>p. p\<lparr>tv_debugLocalMsg := b\<rparr>) a) = names_from X a"
  "names_from X (set_pv (\<lambda>p. p\<lparr>tv_programNodeCnt := n\<rparr>) a) = names_from X a"
  "names_from X (set_pv (\<lambda>p. p\<lparr>tv_programPersistent := b\<rparr>) a) = names_from X a"
  "names_from X (set_pv (\<lambda>p. drv_tokens j ts (p\<lparr>tv_drvVersion := v\<rparr>)) a) = names_from X a"
  "names_from X a \<Longrightarrow> y \<in> X \<Longrightarrow> names_from X (set_pv (\<lambda>p. p\<lparr>tv_controlRxCdev := Some y\<rparr>) a)"
  "names_from X a \<Longrightarrow> y \<in> X \<Longrightarrow> names_from X (set_pv (\<lambda>p. p\<lparr>tv_controlTxCdev := Some y\<rparr>) a)"
  by (simp_all add: names_from_def)

text \<open>What a round does, whatever the option.\<close>

lemma parse_arg_round:
  "case parse_arg x xs a of
     Inl (l, b) \<Rightarrow> (l = Return True \<longrightarrow> xs = [] \<and> x = ''-program'') \<and>
       (set (x # xs) \<subseteq> X \<longrightarrow> names_from X a \<longrightarrow> names_from X b)
   | Inr (ys, b) \<Rightarrow> (\<exists>zs. xs = zs @ ys) \<and> (set (x # xs) \<subseteq> X \<longrightarrow> names_from X a \<longrightarrow> names_from X b) \<and>
       (\<forall>zs. parse_arg x (xs @ zs) a = Inr (ys @ zs, b))"
  by (cases xs) (simp_all add: parse_arg_def Let_def)

lemma parse_args_names:
  "set xs \<subseteq> X \<Longrightarrow> names_from X a \<Longrightarrow> names_from X (snd (parse_args xs a))"
proof (induction xs a rule: parse_args.induct)
  case (2 x xs a)
  show ?case
  proof (cases "parse_arg x xs a")
    case (Inl r)
    then show ?thesis using parse_arg_round [where x = x and xs = xs and a = a and X = X] 2(2,3) by (cases r) simp
  next
    case (Inr r)
    then show ?thesis using parse_arg_round [where x = x and xs = xs and a = a and X = X] 2(1) [OF Inr] 2(2,3) by (cases r) auto
  qed
qed simp

text \<open>Only the option without its number returns true from inside the loop.\<close>

lemma parse_args_early:
  "parse_args xs a = (Some (Return True), b) \<Longrightarrow> xs \<noteq> [] \<and> last xs = ''-program''"
proof (induction xs a rule: parse_args.induct)
  case (2 x xs a)
  show ?case
  proof (cases "parse_arg x xs a")
    case (Inl r)
    then show ?thesis using parse_arg_round [where x = x and xs = xs and a = a and X = UNIV] 2(2) by (cases r) simp
  next
    case (Inr r)
    then show ?thesis using parse_arg_round [where x = x and xs = xs and a = a and X = UNIV] 2(1) [OF Inr] 2(2) by (cases r) auto
  qed
qed simp

lemma parse_args_append:
  "parse_args xs a = (None, b) \<Longrightarrow> parse_args (xs @ ys) a = parse_args ys b"
proof (induction xs a rule: parse_args.induct)
  case (2 x xs a)
  show ?case
  proof (cases "parse_arg x xs a")
    case (Inr r)
    then show ?thesis using parse_arg_round [where x = x and xs = xs and a = a and X = UNIV] 2(1) [OF Inr] 2(2) by (cases r) simp
  qed (use 2(2) in \<open>simp split: prod.splits\<close>)
qed simp

lemma ParseCommandLine_names:
  assumes "ParseCommandLine argv a = (Return True, b)" "\<forall>x \<in> set argv. length x < CDEV_PATH_LEN"
  shows "\<forall>name \<in> set_option (tv_controlRxCdev (pv b)) \<union> set_option (tv_controlTxCdev (pv b)). length name < CDEV_PATH_LEN"
proof -
  let ?X = "{x. length x < CDEV_PATH_LEN}" and ?a = "a\<lparr>pv := TaskUnicens_zero, defaultSet := False\<rparr>"
  obtain x xs where argv: "argv = x # xs" using assms(1) by (cases argv) (simp_all add: ParseCommandLine_def)
  obtain r c where r: "parse_args xs ?a = (r, c)" by fastforce
  have "names_from ?X (snd (parse_args xs ?a))"
    by (rule parse_args_names) (use assms(2) argv in \<open>auto simp: names_from_def TaskUnicens_zero_def\<close>)
  then have c: "names_from ?X c" by (simp add: r)
  have "names_from ?X b"
    using assms(1) c
    by (auto simp: ParseCommandLine_def argv r check_args_def Let_def names_from_def DEFAULT_CONTROL_CDEV_RX_def
        DEFAULT_CONTROL_CDEV_TX_def CDEV_PATH_LEN_def split: option.splits if_splits)
  then show ?thesis by (auto simp: names_from_def)
qed





text \<open>
  C33: The option \<open>-program\<close> without its number is an error that the program does not notice. Behind any
  arguments that are in order, the message is printed and the function returns true (it is
  declared \<open>bool\<close> and returns -1); the checks behind the loop are left out, so that without device
  options the task starts with no device names at all.
\<close>

theorem program_without_number:
  assumes "parse_args xs (a\<lparr>pv := TaskUnicens_zero, defaultSet := False\<rparr>) = (None, b)"
  shows "ParseCommandLine (prog # xs @ [''-program'']) a = (Return True, print PRIO_ERROR (RED @
     ''-program parameter needs additional amount of expected node count'' @ RESETCOLOR @ CRLF) [] b)"
  unfolding ParseCommandLine_def list.case parse_args_append [OF assms] by (simp add: parse_arg_def)

theorem program_without_number_witness:
  "\<exists>b. ParseCommandLine [''unicensd'', ''-v'', ''-program'']
       \<lparr>pv = TaskUnicens_zero, defaultSet = False, con = \<lparr>minPrio = PRIO_HIGH, contPrio = PRIO_LOW, prints = []\<rparr>\<rparr> = (Return True, b) \<and>
     tv_controlRxCdev (pv b) = None \<and> tv_controlTxCdev (pv b) = None \<and> tv_drvLocalNodeAddr (pv b) = 0"
proof -
  let ?a = "\<lparr>pv = TaskUnicens_zero, defaultSet = False, con = \<lparr>minPrio = PRIO_HIGH, contPrio = PRIO_LOW, prints = []\<rparr>\<rparr>"
  have "parse_args [''-v''] (?a\<lparr>pv := TaskUnicens_zero, defaultSet := False\<rparr>) = (None, set_prio PRIO_MEDIUM ?a)"
    by (simp add: parse_arg_def)
  from program_without_number [OF this] show ?thesis
    by (simp add: TaskUnicens_zero_def)
qed

text \<open>
  The last example of the help gives a filter with a colon; the filter ends at it.
\<close>

lemma help_filter_cut:
  "tv_drvFilter (drv_tokens 0 (colon_tokens [] ''0x200:1-1.3:1'') TaskUnicens_zero) = Some ''1-1.3''"
  by code_simp

end
