(* ===== verification/Mld.thy ===== *)
theory Mld
  imports Cdev Xml_State
begin

text \<open>
  The configurators of the MOST Linux driver, libraries/mld-configurator/mld-configurator-v1.c and
  mld-configurator-v2.c. A thread walks through the directories of the driver again and again and
  writes the settings of each channel that is not configured yet: version 1 into the
  directory of the channel, version 2 into the configuration file system.

  The two files agree but for what they write; the version is a parameter of the definitions. The
  file system is a parameter, too: what it answers depends on what the configurator has done to it
  so far. A buffer of characters that holds a string is modelled by the string; the filter stays an
  array, as it can be without an end.
\<close>

section \<open>Files\<close>

datatype mld_version = V1 | V2

definition PATH_LEN :: nat where "PATH_LEN = 384"
definition VAL_SHORT_LEN :: nat where "VAL_SHORT_LEN = 32"
definition VAL_BIG_LEN :: nat where "VAL_BIG_LEN = 128"

definition SYS_FS_PATH :: "mld_version \<Rightarrow> string" where
  "SYS_FS_PATH v = (case v of V1 \<Rightarrow> ''/sys/class/most/mostcore/devices'' | V2 \<Rightarrow> ''/sys/bus/most/devices'')"
definition CON_FS_PATH :: string where "CON_FS_PATH = ''/sys/kernel/config''"
definition AIM_CDEV :: string where "AIM_CDEV = ''most_cdev''"
definition AIM_SOUND :: string where "AIM_SOUND = ''most_sound''"
definition AIM_V4L :: string where "AIM_V4L = ''most_video''"
definition AIM_NETWORK :: string where "AIM_NETWORK = ''most_net''"
definition ALSA_CARD_NAME :: string where "ALSA_CARD_NAME = ''card''"

text \<open>What was done to the file system: a line written into a file, an attempt that failed, a new directory.\<close>

datatype mld_op = Puts string string | PutsFailed string | MakeDir string

record mld_fs =
  fs_dir :: "mld_op list \<Rightarrow> string \<Rightarrow> string list option"
  fs_content :: "mld_op list \<Rightarrow> string \<Rightarrow> string option"
  fs_exists :: "mld_op list \<Rightarrow> string \<Rightarrow> bool"
  fs_opens :: "mld_op list \<Rightarrow> string \<Rightarrow> bool"
  fs_puts :: "mld_op list \<Rightarrow> string \<Rightarrow> string \<Rightarrow> bool"
  fs_mkdir :: "mld_op list \<Rightarrow> string \<Rightarrow> bool"

text \<open>
  The static data of a configurator, what it has done, and its messages. The names of the control
  devices are members that nothing uses.
\<close>

record mld =
  pConfig :: "DriverInformation_t option list option"
  driverSize :: u16
  localNodeAddress :: u16
  pollTime :: u16
  descriptionFilter :: string
  started_thread :: bool
  allowWorker :: bool
  createAlsaCard :: bool
  ops :: "mld_op list"
  msgs :: "(bool \<times> string) list"

text \<open>
  The callbacks of both versions in src/src/task-unicens.c print the text with \<open>vsprintf\<close> into an array of 300
  characters.
\<close>

definition MldConfig_CB_OnMessage :: "bool \<Rightarrow> string \<Rightarrow> mld \<Rightarrow> mld result" where
  "MldConfig_CB_OnMessage isError txt s =
     (if length txt < 300 then Inr (s\<lparr>msgs := msgs s @ [(isError, txt)]\<rparr>) else Inl OutOfBounds)"

definition DoesFileExist :: "mld_fs \<Rightarrow> string \<Rightarrow> mld \<Rightarrow> bool" where
  "DoesFileExist fs path s = fs_exists fs (ops s) path"

definition CreateFolder :: "mld_fs \<Rightarrow> string \<Rightarrow> mld \<Rightarrow> bool \<times> mld" where
  "CreateFolder fs path s =
     (if fs_exists fs (ops s) path then (True, s)
      else (fs_mkdir fs (ops s) path, s\<lparr>ops := ops s @ [MakeDir path]\<rparr>))"

text \<open>\<open>fgets\<close>: a line with its end, as far as there is room; a file that is empty gives none.\<close>

definition fgets :: "nat \<Rightarrow> string \<Rightarrow> string" where
  "fgets n content =
     (let t = take (n - 1) content
      in takeWhile (\<lambda>c. c \<noteq> CHR 0x0A) t @ (if CHR 0x0A \<in> set t then [CHR 0x0A] else []))"

definition ReadFromFile :: "mld_fs \<Rightarrow> string \<Rightarrow> string \<Rightarrow> nat \<Rightarrow> mld \<Rightarrow> (bool \<times> string \<times> mld) result" where
  "ReadFromFile fs name pString bufferLen s =
     (if bufferLen = 0 then Inr (False, pString, s) else
      case fs_content fs (ops s) name of
        None \<Rightarrow> bindR (MldConfig_CB_OnMessage True (''Read failed for '' @ quoted name) s) (\<lambda>s. Inr (False, pString, s))
      | Some [] \<Rightarrow> Inr (False, pString, s)
      | Some content \<Rightarrow>
          let line = takeWhile (\<lambda>c. c \<noteq> CHR 0x00) (fgets bufferLen content)
          in Inr (True, if line \<noteq> [] \<and> last line = CHR 0x0A then butlast line else line, s))"

text \<open>The second version writes into files that exist only, and says nothing about others.\<close>

definition WriteCharactersToFile ::
  "mld_version \<Rightarrow> mld_fs \<Rightarrow> string \<Rightarrow> string \<Rightarrow> string \<Rightarrow> mld \<Rightarrow> (bool \<times> mld) result" where
  "WriteCharactersToFile v fs path name txt s =
     (let combined = snprintf PATH_LEN (path @ ''/'' @ name)
      in if v = V2 \<and> \<not> DoesFileExist fs combined s then Inr (False, s)
         else
           let (success, s) =
             (if \<not> fs_opens fs (ops s) combined then (False, s)
              else if fs_puts fs (ops s) combined txt
              then (True, s\<lparr>ops := ops s @ [Puts combined (txt @ [CHR 0x0A])]\<rparr>)
              else (False, s\<lparr>ops := ops s @ [PutsFailed combined]\<rparr>))
           in bindR (MldConfig_CB_OnMessage (\<not> success)
                (quoted (path @ ''/'' @ name) @ ''='' @ quoted txt @ '' '' @ (if success then ''success'' else ''fail'')) s)
              (\<lambda>s. Inr (success, s)))"

definition WriteIntegerToFile ::
  "mld_version \<Rightarrow> mld_fs \<Rightarrow> string \<Rightarrow> string \<Rightarrow> nat \<Rightarrow> mld \<Rightarrow> (bool \<times> mld) result" where
  "WriteIntegerToFile v fs path name n s = WriteCharactersToFile v fs path name (snprintf 16 (dec_digits n)) s"

text \<open>A row of \<open>success &= Write...\<close>: each is done whatever becomes of the ones before.\<close>

fun write_settings ::
  "mld_version \<Rightarrow> mld_fs \<Rightarrow> string \<Rightarrow> (string \<times> string) list \<Rightarrow> mld \<Rightarrow> (bool \<times> mld) result" where
  "write_settings v fs path [] s = Inr (True, s)"
| "write_settings v fs path ((name, txt) # ws) s =
     bindR (WriteCharactersToFile v fs path name txt s) (\<lambda>(ok, s).
     bindR (write_settings v fs path ws s) (\<lambda>(ok', s). Inr (ok \<and> ok', s)))"

definition int_text :: "nat \<Rightarrow> string" where
  "int_text n = snprintf 16 (dec_digits n)"

section \<open>Names\<close>

definition ReplaceCharsInString :: "string \<Rightarrow> string \<Rightarrow> char \<Rightarrow> string" where
  "ReplaceCharsInString target pWrongChars replaceBy =
     map (\<lambda>c. fold (\<lambda>w c. if c = w then replaceBy else c) pWrongChars c) target"

text \<open>\<open>strncat\<close> appends at most \<open>n\<close> characters and then the terminating zero to the string in a buffer.\<close>

definition strncatR :: "nat \<Rightarrow> string \<Rightarrow> string \<Rightarrow> nat \<Rightarrow> string result" where
  "strncatR bufLen buf str n =
     (if length buf + length (take n str) < bufLen then Inr (buf @ take n str) else Inl OutOfBounds)"

text \<open>The end of a name: the filter, when there is one; \<open>room\<close> is the third argument of \<open>strncat\<close>.\<close>

definition add_filter :: "(nat \<Rightarrow> nat) \<Rightarrow> nat \<Rightarrow> string \<Rightarrow> string \<Rightarrow> string result" where
  "add_filter room bufLen filt buf =
     (if take 1 filt = [CHR 0x00] then Inr buf else
      bindR (c_string filt) (\<lambda>str.
      bindR (strncatR bufLen buf ''-'' (room (length buf))) (\<lambda>buf. strncatR bufLen buf str (room (length buf)))))"

definition EXTENSION :: string where "EXTENSION = ''/dev/inic-control-''"

definition ExtendControlCdevName :: "string \<Rightarrow> string \<Rightarrow> nat \<Rightarrow> string result" where
  "ExtendControlCdevName filt name outLen =
     (if outLen \<le> length EXTENSION then Inl OutOfBounds else
      bindR (strncatR outLen EXTENSION name (outLen - length EXTENSION)) (\<lambda>out.
      bindR (add_filter (\<lambda>k. outLen - k) outLen filt out) (\<lambda>out.
      Inr (ReplaceCharsInString out '' .:;|!'' (CHR ''_'')))))"

definition GetControlCdevName :: "mld_fs \<Rightarrow> nat \<Rightarrow> mld \<Rightarrow> (string \<times> string) option result" where
  "GetControlCdevName fs maxCharLen s =
     bindR (ExtendControlCdevName (descriptionFilter s) ''tx'' maxCharLen) (\<lambda>tx.
     if \<not> DoesFileExist fs tx s then Inr None else
     bindR (ExtendControlCdevName (descriptionFilter s) ''rx'' maxCharLen) (\<lambda>rx.
     Inr (if DoesFileExist fs rx s then Some (tx, rx) else None)))"

text \<open>
  The name in a link of the first version: the name from the configuration is copied into an array
  of 32 characters, which must hold its end.
\<close>

definition link_name :: "string \<Rightarrow> string \<Rightarrow> string result" where
  "link_name filt aim =
     (if VAL_SHORT_LEN \<le> length aim then Inl OutOfBounds else
      bindR (add_filter (\<lambda>k. VAL_SHORT_LEN - k - 1) VAL_SHORT_LEN filt aim) (\<lambda>name.
      Inr (ReplaceCharsInString name '' .:;/|!'' (CHR ''_''))))"

section \<open>Settings of a channel\<close>

definition data_type_text :: "DriverCfgDataType_t \<Rightarrow> string" where
  "data_type_text t = (case t of
     DriverCfgDataType_Sync \<Rightarrow> ''sync'' | DriverCfgDataType_Isoc \<Rightarrow> ''isoc''
   | DriverCfgDataType_Control \<Rightarrow> ''control'' | DriverCfgDataType_Async \<Rightarrow> ''async'')"

definition direction_text :: "DriverCfgDirection_t \<Rightarrow> string" where
  "direction_text dir = (case dir of DriverCfgDirection_Tx \<Rightarrow> ''tx'' | DriverCfgDirection_Rx \<Rightarrow> ''rx'')"

text \<open>The files of the first version are named after those of the second one, but for one.\<close>

definition setting :: "mld_version \<Rightarrow> string \<Rightarrow> string" where
  "setting v name = (case v of
     V1 \<Rightarrow> (if name = ''num_buffers'' then ''set_number_of_buffers'' else ''set_'' @ name) | V2 \<Rightarrow> name)"

definition direction_setting :: "mld_version \<Rightarrow> DriverInformation_t \<Rightarrow> (string \<times> string) result" where
  "direction_setting v d = (case dv_direction d of
     None \<Rightarrow> Inl WildDeref | Some dir \<Rightarrow> Inr (setting v ''direction'', direction_text dir))"

definition buffer_settings :: "mld_version \<Rightarrow> DriverInformation_t \<Rightarrow> (string \<times> string) list" where
  "buffer_settings v d =
     [(setting v ''num_buffers'', int_text (unat (dv_numBuffers d))),
      (setting v ''buffer_size'', int_text (unat (dv_bufferSize d)))]"

text \<open>
  The settings of a stream, from the data type on: \<open>None\<close> when the type is not one of those that the
  function knows. A member that was never assigned must not be read.
\<close>

definition stream_settings ::
  "mld_version \<Rightarrow> DriverCfgDataType_t list \<Rightarrow> DriverInformation_t \<Rightarrow> (string \<times> string) list option result" where
  "stream_settings v types d =
     (case dv_dataType d of
        None \<Rightarrow> Inl WildDeref
      | Some t \<Rightarrow>
          if t \<notin> set types then Inr None else
          bindR (direction_setting v d) (\<lambda>dir.
          bindR (if di_phy d \<noteq> DriverPhyUsb then Inr [] else
                 case dv_packetsPerXact d of
                   None \<Rightarrow> Inl WildDeref
                 | Some n \<Rightarrow> Inr [(setting v ''packets_per_xact'', int_text (unat n))]) (\<lambda>packets.
          Inr (Some ([(setting v ''datatype'', data_type_text t), dir] @
            (if dv_subBufferSize d = 0 then [] else [(setting v ''subbuffer_size'', int_text (unat (dv_subBufferSize d)))]) @
            packets @ buffer_settings v d)))))"

definition all_types :: "DriverCfgDataType_t list" where
  "all_types = [DriverCfgDataType_Sync, DriverCfgDataType_Isoc, DriverCfgDataType_Control, DriverCfgDataType_Async]"

definition stream_types :: "DriverCfgDataType_t list" where
  "stream_types = [DriverCfgDataType_Sync, DriverCfgDataType_Isoc]"

subsection \<open>First version\<close>

definition configure_v1 ::
  "DriverCfgDataType_t list \<Rightarrow> mld_fs \<Rightarrow> string \<Rightarrow> DriverInformation_t \<Rightarrow> mld \<Rightarrow> (bool \<times> mld) result" where
  "configure_v1 types fs fullPath d s =
     bindR (stream_settings V1 types d) (\<lambda>ws. case ws of
       None \<Rightarrow> Inr (False, s) | Some ws \<Rightarrow> write_settings V1 fs fullPath ws s)"

definition ConfigureCdev :: "mld_fs \<Rightarrow> string \<Rightarrow> DriverInformation_t \<Rightarrow> mld \<Rightarrow> (bool \<times> mld) result" where
  "ConfigureCdev = configure_v1 all_types"

definition ConfigureAlsa :: "mld_fs \<Rightarrow> string \<Rightarrow> DriverInformation_t \<Rightarrow> mld \<Rightarrow> (bool \<times> mld) result" where
  "ConfigureAlsa = configure_v1 stream_types"

definition ConfigureV4L2 :: "mld_fs \<Rightarrow> string \<Rightarrow> DriverInformation_t \<Rightarrow> mld \<Rightarrow> (bool \<times> mld) result" where
  "ConfigureV4L2 = configure_v1 stream_types"

definition ConfigureNetwork :: "mld_fs \<Rightarrow> string \<Rightarrow> DriverInformation_t \<Rightarrow> mld \<Rightarrow> (bool \<times> mld) result" where
  "ConfigureNetwork fs fullPath d s =
     bindR (direction_setting V1 d) (\<lambda>dir.
     write_settings V1 fs fullPath ([(''set_datatype'', ''async''), dir] @ buffer_settings V1 d) s)"

definition write_link ::
  "mld_fs \<Rightarrow> string \<Rightarrow> string \<Rightarrow> string \<Rightarrow> string \<Rightarrow> DriverInformation_t \<Rightarrow> mld \<Rightarrow> (bool \<times> mld) result" where
  "write_link fs aims rest channelName deviceName d s =
     bindR (link_name (descriptionFilter s) (dv_aimName d)) (\<lambda>aimName.
     WriteCharactersToFile V1 fs (''/sys/class/most/mostcore/aims/'' @ aims) ''add_link''
       (snprintf VAL_BIG_LEN (deviceName @ '':'' @ channelName @ '':inic-'' @ aimName @ rest)) s)"

definition LinkCdev ::
  "mld_fs \<Rightarrow> string \<Rightarrow> string \<Rightarrow> DriverInformation_t \<Rightarrow> mld \<Rightarrow> (bool \<times> mld) result" where
  "LinkCdev fs = write_link fs ''cdev'' []"

definition LinkAlsa ::
  "mld_fs \<Rightarrow> string \<Rightarrow> string \<Rightarrow> DriverInformation_t \<Rightarrow> mld \<Rightarrow> (bool \<times> mld) result" where
  "LinkAlsa fs channelName deviceName d = write_link fs ''sound''
     (''.'' @ dec_digits (unat (dv_amountOfChannels d)) @ ''x'' @ dec_digits (unat (dv_resolutionInBit d)))
     channelName deviceName d"

definition LinkV4L2 ::
  "mld_fs \<Rightarrow> string \<Rightarrow> string \<Rightarrow> DriverInformation_t \<Rightarrow> mld \<Rightarrow> (bool \<times> mld) result" where
  "LinkV4L2 fs = write_link fs ''v4l'' []"

definition LinkNetwork ::
  "mld_fs \<Rightarrow> string \<Rightarrow> string \<Rightarrow> DriverInformation_t \<Rightarrow> mld \<Rightarrow> (bool \<times> mld) result" where
  "LinkNetwork fs = write_link fs ''networking'' []"

text \<open>The link is made when the settings could be written.\<close>

definition then_link :: "(bool \<times> mld) result \<Rightarrow> (mld \<Rightarrow> (bool \<times> mld) result) \<Rightarrow> mld result" where
  "then_link configured link =
     bindR configured (\<lambda>(ok, s). if ok then bindR (link s) (\<lambda>(_, s). Inr s) else Inr s)"

definition WriteDriverConfig_V1 ::
  "mld_fs \<Rightarrow> string \<Rightarrow> string \<Rightarrow> string \<Rightarrow> DriverInformation_t \<Rightarrow> mld \<Rightarrow> mld result" where
  "WriteDriverConfig_V1 fs channelName deviceName fullPath d s =
     (case di_driverType d of
        Driver_LinuxCdev \<Rightarrow> then_link (ConfigureCdev fs fullPath d s) (LinkCdev fs channelName deviceName d)
      | Driver_LinuxAlsa \<Rightarrow> then_link (ConfigureAlsa fs fullPath d s) (LinkAlsa fs channelName deviceName d)
      | Driver_LinuxV4l2 \<Rightarrow> then_link (ConfigureV4L2 fs fullPath d s) (LinkV4L2 fs channelName deviceName d)
      | Driver_LinuxNetwork \<Rightarrow> then_link (ConfigureNetwork fs fullPath d s) (LinkNetwork fs channelName deviceName d))"

subsection \<open>Second version\<close>

text \<open>The directories down to the one with the settings; \<open>None\<close> when one cannot be made.\<close>

fun make_folders :: "mld_fs \<Rightarrow> string \<Rightarrow> string list \<Rightarrow> mld \<Rightarrow> string option \<times> mld" where
  "make_folders fs path [] s = (Some (snprintf PATH_LEN path), s)"
| "make_folders fs path (x # xs) s =
     (let path = path @ ''/'' @ x
      in case CreateFolder fs (snprintf PATH_LEN path) s of
           (True, s) \<Rightarrow> make_folders fs path xs s
         | (False, s) \<Rightarrow> (None, s))"

definition configure_v2 ::
  "string list \<Rightarrow> (string \<times> string) list option result \<Rightarrow> mld_fs \<Rightarrow> string \<Rightarrow> DriverInformation_t \<Rightarrow> mld
     \<Rightarrow> (bool \<times> mld) result" where
  "configure_v2 folders settings fs deviceName d s =
     (if \<not> DoesFileExist fs CON_FS_PATH s then Inr (False, s) else
      case make_folders fs CON_FS_PATH folders s of
        (None, s) \<Rightarrow> Inr (False, s)
      | (Some fullPath, s) \<Rightarrow>
          bindR (write_settings V2 fs fullPath [(''device'', deviceName), (''channel'', dv_channelName d)] s) (\<lambda>(ok, s).
          bindR settings (\<lambda>ws. case ws of
            None \<Rightarrow> Inr (False, s)
          | Some ws \<Rightarrow> bindR (write_settings V2 fs fullPath ws s) (\<lambda>(ok', s). Inr (ok \<and> ok', s)))))"

definition followed_by :: "(string \<times> string) list option result \<Rightarrow> (string \<times> string) list
    \<Rightarrow> (string \<times> string) list option result" where
  "followed_by settings ws = bindR settings (\<lambda>x. Inr (map_option (\<lambda>vs. vs @ ws) x))"

definition ConfigureCdev_V2 :: "mld_fs \<Rightarrow> string \<Rightarrow> DriverInformation_t \<Rightarrow> mld \<Rightarrow> (bool \<times> mld) result" where
  "ConfigureCdev_V2 fs deviceName d = configure_v2 [AIM_CDEV, ''inic-'' @ dv_aimName d]
     (followed_by (stream_settings V2 all_types d) [(''create_link'', int_text 1)]) fs deviceName d"

definition ConfigureAlsa_V2 :: "mld_fs \<Rightarrow> string \<Rightarrow> DriverInformation_t \<Rightarrow> mld \<Rightarrow> (bool \<times> mld) result" where
  "ConfigureAlsa_V2 fs deviceName d s =
     bindR (configure_v2 [AIM_SOUND, ALSA_CARD_NAME, dv_aimName d]
       (followed_by (stream_settings V2 stream_types d)
         [(''comp_params'', snprintf 16 (dec_digits (unat (dv_amountOfChannels d)) @ ''x'' @ dec_digits (unat (dv_resolutionInBit d)))),
          (''create_link'', int_text 1)]) fs deviceName d s) (\<lambda>(ok, s).
     Inr (ok, s\<lparr>createAlsaCard := createAlsaCard s \<or> ok\<rparr>))"

definition CreateAlsaCard :: "mld_fs \<Rightarrow> mld \<Rightarrow> (bool \<times> mld) result" where
  "CreateAlsaCard fs s =
     WriteIntegerToFile V2 fs (snprintf PATH_LEN (CON_FS_PATH @ ''/'' @ AIM_SOUND @ ''/'' @ ALSA_CARD_NAME)) ''create_card'' 1 s"

definition ConfigureV4L2_V2 :: "mld_fs \<Rightarrow> string \<Rightarrow> DriverInformation_t \<Rightarrow> mld \<Rightarrow> (bool \<times> mld) result" where
  "ConfigureV4L2_V2 fs deviceName d = configure_v2 [AIM_V4L, dv_aimName d]
     (followed_by (stream_settings V2 stream_types d) [(''create_link'', int_text 1)]) fs deviceName d"

definition ConfigureNetwork_V2 :: "mld_fs \<Rightarrow> string \<Rightarrow> DriverInformation_t \<Rightarrow> mld \<Rightarrow> (bool \<times> mld) result" where
  "ConfigureNetwork_V2 fs deviceName d = configure_v2 [AIM_NETWORK, dv_aimName d]
     (bindR (direction_setting V2 d) (\<lambda>dir.
       Inr (Some ([(''datatype'', ''async''), dir] @ buffer_settings V2 d @ [(''create_link'', int_text 1)])))) fs deviceName d"

definition WriteDriverConfig_V2 :: "mld_fs \<Rightarrow> string \<Rightarrow> DriverInformation_t \<Rightarrow> mld \<Rightarrow> mld result" where
  "WriteDriverConfig_V2 fs deviceName d s =
     bindR (case di_driverType d of
              Driver_LinuxCdev \<Rightarrow> ConfigureCdev_V2 fs deviceName d s
            | Driver_LinuxAlsa \<Rightarrow> ConfigureAlsa_V2 fs deviceName d s
            | Driver_LinuxV4l2 \<Rightarrow> ConfigureV4L2_V2 fs deviceName d s
            | Driver_LinuxNetwork \<Rightarrow> ConfigureNetwork_V2 fs deviceName d s) (\<lambda>(_, s). Inr s)"

section \<open>Channels\<close>

definition WriteDriverConfig ::
  "mld_version \<Rightarrow> mld_fs \<Rightarrow> string \<Rightarrow> string option \<Rightarrow> string \<Rightarrow> DriverInformation_t \<Rightarrow> mld \<Rightarrow> mld result" where
  "WriteDriverConfig v fs channelName deviceName fullPath d s = (case deviceName of
     None \<Rightarrow> Inr s
   | Some dev \<Rightarrow> (case v of
       V1 \<Rightarrow> WriteDriverConfig_V1 fs channelName dev fullPath d s
     | V2 \<Rightarrow> WriteDriverConfig_V2 fs dev d s))"

text \<open>
  The driver of a channel that is configured without a configuration; its other members are zero. The second
  version sets the name of the channel, too.
\<close>

definition local_driver ::
  "mld_version \<Rightarrow> string \<Rightarrow> DriverType_t \<Rightarrow> string \<Rightarrow> DriverCfgDataType_t \<Rightarrow> u16 \<Rightarrow> u16 \<Rightarrow> DriverCfgDirection_t
     \<Rightarrow> DriverInformation_t" where
  "local_driver v channelName type aim t num sz dir =
     \<lparr>di_linkName = [], di_phy = DriverPhyUnknown, di_nodeAddress = 0, di_driverType = type,
      dv_channelName = (case v of V1 \<Rightarrow> [] | V2 \<Rightarrow> channelName), dv_aimName = aim, dv_dataType = Some t,
      dv_direction = Some dir, dv_numBuffers = num, dv_bufferSize = sz, dv_subBufferSize = 0,
      dv_packetsPerXact = Some 0, dv_amountOfChannels = 0, dv_resolutionInBit = 0\<rparr>"

definition default_driver :: "mld_version \<Rightarrow> string \<Rightarrow> DriverInformation_t option" where
  "default_driver v channelName =
     (if channelName \<in> {''ep0f'', ''ep07'', ''ca4''}
      then Some (local_driver v channelName Driver_LinuxCdev ''control-tx'' DriverCfgDataType_Control 16 64 DriverCfgDirection_Tx)
      else if channelName \<in> {''ep8f'', ''ep87'', ''ca2''}
      then Some (local_driver v channelName Driver_LinuxCdev ''control-rx'' DriverCfgDataType_Control 16 64 DriverCfgDirection_Rx)
      else if channelName \<in> {''ep0e'', ''ep06'', ''ca8''}
      then Some (local_driver v channelName Driver_LinuxNetwork ''network-tx'' DriverCfgDataType_Async 20 1522 DriverCfgDirection_Tx)
      else if channelName \<in> {''ep8e'', ''ep86'', ''ca6''}
      then Some (local_driver v channelName Driver_LinuxNetwork ''network-rx'' DriverCfgDataType_Async 20 1522 DriverCfgDirection_Rx)
      else None)"

definition matches_channel :: "DriverPhysicalLayer_t \<Rightarrow> string \<Rightarrow> mld \<Rightarrow> DriverInformation_t \<Rightarrow> bool" where
  "matches_channel curPhy channelName s d \<longleftrightarrow>
     localNodeAddress s = di_nodeAddress d \<and> curPhy = di_phy d \<and> di_driverType d \<noteq> Driver_LinuxNetwork \<and>
     channelName = dv_channelName d"

text \<open>\<open>strstr\<close> finds the second string in the first one.\<close>

definition strstr :: "string \<Rightarrow> string \<Rightarrow> bool" where
  "strstr str sub = list_ex (\<lambda>i. take (length sub) (drop i str) = sub) [0..<Suc (length str)]"

definition filtered_out :: "string \<Rightarrow> string \<Rightarrow> bool result" where
  "filtered_out filt descr =
     (if take 1 filt = [CHR 0x00] then Inr False
      else bindR (c_string filt) (\<lambda>sub. Inr (\<not> strstr descr sub)))"

definition write_matching ::
  "mld_version \<Rightarrow> mld_fs \<Rightarrow> DriverPhysicalLayer_t \<Rightarrow> string \<Rightarrow> string option \<Rightarrow> string \<Rightarrow> DriverInformation_t option \<Rightarrow> mld
     \<Rightarrow> mld result" where
  "write_matching v fs curPhy channelName deviceName fullPath x s =
     (case x of None \<Rightarrow> Inr s
      | Some d \<Rightarrow> if matches_channel curPhy channelName s d
                  then WriteDriverConfig v fs channelName deviceName fullPath d s else Inr s)"

text \<open>A channel of the layer \<open>curPhy\<close> that is not configured yet.\<close>

definition configure_channel ::
  "mld_version \<Rightarrow> mld_fs \<Rightarrow> DriverPhysicalLayer_t \<Rightarrow> string \<Rightarrow> string option \<Rightarrow> string \<Rightarrow> mld \<Rightarrow> mld result" where
  "configure_channel v fs curPhy channelName deviceName fullPath s =
     bindR (case default_driver v channelName of
              None \<Rightarrow> Inr s
            | Some d \<Rightarrow> WriteDriverConfig v fs channelName deviceName fullPath d s) (\<lambda>s.
     case pConfig s of
       None \<Rightarrow> Inr s
     | Some drivers \<Rightarrow>
         if length drivers < unat (driverSize s) then Inl OutOfBounds
         else foldR (write_matching v fs curPhy channelName deviceName fullPath)
                (take (unat (driverSize s)) drivers) s)"

definition CheckDriverSettings ::
  "mld_version \<Rightarrow> mld_fs \<Rightarrow> string option \<Rightarrow> string option \<Rightarrow> string \<Rightarrow> string \<Rightarrow> string \<Rightarrow> mld \<Rightarrow> mld result" where
  "CheckDriverSettings v fs channelName deviceName fullPath intf descr s =
     bindR (filtered_out (descriptionFilter s) descr) (\<lambda>out.
     if out then Inr s else
     bindR (ReadFromFile fs (snprintf PATH_LEN (fullPath @ ''/'' @ ''set_buffer_size'')) [] VAL_SHORT_LEN s) (\<lambda>(ok, val, s).
     if \<not> ok \<or> val \<noteq> ''0'' \<or> intf \<notin> {''usb'', ''mlb_dim2''} then Inr s else
     case channelName of
       None \<Rightarrow> Inl NullDeref
     | Some channel \<Rightarrow>
         configure_channel v fs (if intf = ''usb'' then DriverPhyUsb else DriverPhyMlb) channel deviceName fullPath s))"

section \<open>Directories\<close>

text \<open>
  One directory: its files in the order they are listed, then what is in it. The strings of the interface and of the
  description are buffers that all levels share.
\<close>

definition skipped :: "mld_version \<Rightarrow> string \<Rightarrow> bool" where
  "skipped v name \<longleftrightarrow> v = V2 \<and> (name = ''driver'' \<or> name = ''subsystem'')"

definition look_at_file ::
  "mld_version \<Rightarrow> mld_fs \<Rightarrow> string \<Rightarrow> string option \<Rightarrow> string option \<Rightarrow> string \<Rightarrow> (string \<times> string) \<times> mld
     \<Rightarrow> ((string \<times> string) \<times> mld) result" where
  "look_at_file v fs path parent grandParent name x =
     (case x of ((intf, descr), s) \<Rightarrow>
      let combined = snprintf PATH_LEN (path @ ''/'' @ name)
      in if skipped v name then Inr ((intf, descr), s)
         else if name = ''interface''
         then bindR (ReadFromFile fs combined intf VAL_SHORT_LEN s) (\<lambda>(_, intf, s). Inr ((intf, descr), s))
         else if name = ''description''
         then bindR (ReadFromFile fs combined descr VAL_SHORT_LEN s) (\<lambda>(_, descr, s). Inr ((intf, descr), s))
         else if name = ''set_buffer_size''
         then bindR (CheckDriverSettings v fs parent grandParent path intf descr s) (\<lambda>s. Inr ((intf, descr), s))
         else Inr ((intf, descr), s))"

fun IterateDirectory ::
  "nat \<Rightarrow> mld_version \<Rightarrow> mld_fs \<Rightarrow> string \<Rightarrow> string option \<Rightarrow> string option \<Rightarrow> (string \<times> string) \<times> mld
     \<Rightarrow> ((string \<times> string) \<times> mld) result" where
  "IterateDirectory 0 v fs path parent grandParent x = Inl Diverges"
| "IterateDirectory (Suc k) v fs path parent grandParent x =
     (case fs_dir fs (ops (snd x)) path of
        None \<Rightarrow> Inr x
      | Some names \<Rightarrow>
          bindR (foldR (look_at_file v fs path parent grandParent) names x) (\<lambda>x.
          case fs_dir fs (ops (snd x)) path of
            None \<Rightarrow> Inr x
          | Some names \<Rightarrow>
              foldR (\<lambda>name x. if take 1 name = ''.'' \<or> skipped v name then Inr x else
                IterateDirectory k v fs (snprintf PATH_LEN (path @ ''/'' @ name)) (Some name) parent x) names x))"

text \<open>One round of the thread; as many levels of directories as a path has characters are enough.\<close>

definition worker_round :: "mld_version \<Rightarrow> mld_fs \<Rightarrow> mld \<Rightarrow> mld result" where
  "worker_round v fs s =
     bindR (IterateDirectory PATH_LEN v fs (SYS_FS_PATH v) None None (([], []), s)) (\<lambda>(_, s).
     if v = V2 \<and> createAlsaCard s
     then bindR (CreateAlsaCard fs (s\<lparr>createAlsaCard := False\<rparr>)) (\<lambda>(_, s). Inr s)
     else Inr s)"

section \<open>Start and stop\<close>

text \<open>Stopping waits for the end of the thread.\<close>

definition MldConfig_Stop :: "mld \<Rightarrow> mld" where
  "MldConfig_Stop s =
     (if \<not> started_thread s \<and> \<not> allowWorker s then s else s\<lparr>allowWorker := False, started_thread := False\<rparr>)"

definition MldConfig_Start ::
  "bool \<Rightarrow> DriverInformation_t option list option \<Rightarrow> u16 \<Rightarrow> u16 \<Rightarrow> string option \<Rightarrow> u16 \<Rightarrow> mld \<Rightarrow> bool \<times> mld" where
  "MldConfig_Start thread_ok config n address filt time s =
     (if time = 0 then (False, s) else
      let s = (if started_thread s then MldConfig_Stop s else s);
          s = s\<lparr>pConfig := config, driverSize := n, localNodeAddress := address, pollTime := time, allowWorker := True\<rparr>;
          s = (case filt of None \<Rightarrow> s | Some str \<Rightarrow> s\<lparr>descriptionFilter := strncpy VAL_SHORT_LEN str\<rparr>)
      in (thread_ok, s\<lparr>started_thread := thread_ok\<rparr>))"

end
