(* ===== verification/Mld_Props.thy ===== *)
theory Mld_Props
  imports Mld
begin

text \<open>
  What holds of the configurators of the driver: a round always ends and has defined behaviour, a channel is
  configured once, and the name of the control device that the daemon waits for is the one it has asked for.
\<close>

section \<open>Safety\<close>

text \<open>What the configurator keeps: its configuration.\<close>

definition same_config :: "mld \<Rightarrow> mld \<Rightarrow> bool" where
  "same_config s s' \<longleftrightarrow> pConfig s' = pConfig s \<and> driverSize s' = driverSize s \<and>
     localNodeAddress s' = localNodeAddress s \<and> descriptionFilter s' = descriptionFilter s"

lemma same_config_refl [simp]: "same_config s s"
  by (simp add: same_config_def)

lemma same_config_trans: "same_config s t \<Longrightarrow> same_config t u \<Longrightarrow> same_config s u"
  by (simp add: same_config_def)

lemma same_config_upd [simp]:
  "same_config s (t\<lparr>ops := x\<rparr>) = same_config s t" "same_config s (t\<lparr>msgs := y\<rparr>) = same_config s t"
  "same_config s (t\<lparr>createAlsaCard := b\<rparr>) = same_config s t"
  by (simp_all add: same_config_def)

definition DIR_LEN :: nat where "DIR_LEN = 140"

definition driver_ok :: "DriverInformation_t \<Rightarrow> bool" where
  "driver_ok d \<longleftrightarrow> length (dv_aimName d) < VAL_SHORT_LEN \<and> length (dv_channelName d) \<le> DIR_LEN \<and>
     dv_dataType d \<noteq> None \<and> dv_direction d \<noteq> None \<and> (di_phy d = DriverPhyUsb \<longrightarrow> dv_packetsPerXact d \<noteq> None)"

definition config_ok :: "mld \<Rightarrow> bool" where
  "config_ok s \<longleftrightarrow> CHR 0x00 \<in> set (descriptionFilter s) \<and>
     (\<forall>ds. pConfig s = Some ds \<longrightarrow> unat (driverSize s) \<le> length ds \<and> (\<forall>d. Some d \<in> set ds \<longrightarrow> driver_ok d))"

lemma config_ok_same: "config_ok s \<Longrightarrow> same_config s s' \<Longrightarrow> config_ok s'"
  by (simp add: config_ok_def same_config_def)

definition fits :: "nat \<Rightarrow> (string \<times> string) list \<Rightarrow> bool" where
  "fits k ws \<longleftrightarrow> (\<forall>(name, t) \<in> set ws. k + length name + length t < 286)"

lemma Write_okR:
  assumes "length path + length name + length t < 286"
  shows "okR (WriteCharactersToFile v fs path name t s) (\<lambda>(ok, s'). same_config s s')"
  using assms by (simp add: WriteCharactersToFile_def MldConfig_CB_OnMessage_def quoted_def Let_def)

lemma write_settings_okR:
  "fits (length path) ws \<Longrightarrow> okR (write_settings v fs path ws s) (\<lambda>(ok, s'). same_config s s')"
proof (induction ws arbitrary: s)
  case (Cons w ws)
  obtain name t where w: "w = (name, t)" by (cases w)
  have first: "okR (WriteCharactersToFile v fs path name t s) (\<lambda>(ok, s'). same_config s s')"
    using Cons.prems by (intro Write_okR) (simp add: fits_def w)
  have rest: "okR (write_settings v fs path ws t) (\<lambda>(ok, s'). same_config s s')" if "same_config s t" for t
    by (rule okR_mono [OF Cons.IH]) (use Cons.prems that in \<open>auto simp: fits_def intro: same_config_trans\<close>)
  show ?case
    unfolding w write_settings.simps okR_bindR
    by (rule okR_mono [OF first]) (auto intro!: okR_mono [OF rest])
qed simp

lemma length_snprintf: "length (snprintf n s) \<le> n - 1" "length (snprintf n s) \<le> length s"
  by (simp_all add: snprintf_def)

lemma length_int_text: "length (int_text n) \<le> 15"
  using length_snprintf(1) [of 16] by (simp add: int_text_def)

lemma Read_okR:
  assumes "length name < 270"
  shows "okR (ReadFromFile fs name str n s) (\<lambda>(ok, t, s'). same_config s s' \<and> ops s' = ops s)"
  using assms by (auto simp: ReadFromFile_def MldConfig_CB_OnMessage_def quoted_def Let_def split: option.split list.split)

lemma stream_settings_okR:
  assumes "driver_ok d" "k \<le> 200"
  shows "okR (stream_settings v types d) (\<lambda>ws. \<forall>xs. ws = Some xs \<longrightarrow> fits k xs)"
  using assms length_int_text [of "unat (dv_subBufferSize d)"] length_int_text [of "unat (dv_numBuffers d)"]
    length_int_text [of "unat (dv_bufferSize d)"] length_int_text [of "unat (the (dv_packetsPerXact d))"]
  by (auto simp: stream_settings_def driver_ok_def fits_def direction_setting_def buffer_settings_def setting_def
      data_type_text_def direction_text_def split: option.splits mld_version.splits DriverCfgDataType_t.splits DriverCfgDirection_t.splits)


lemma link_name_okR:
  assumes "length aim < VAL_SHORT_LEN" "CHR 0x00 \<in> set filt"
  shows "okR (link_name filt aim) (\<lambda>_. True)"
  using assms by (auto simp: link_name_def add_filter_def strncatR_def c_string_def)

lemma write_link_okR:
  assumes "driver_ok d" "CHR 0x00 \<in> set (descriptionFilter s)" "length aims \<le> 12"
  shows "okR (write_link fs aims rest ch dev d s) (\<lambda>(ok, s'). same_config s s')"
proof -
  have "okR (link_name (descriptionFilter s) (dv_aimName d)) (\<lambda>_. True)"
    using assms by (intro link_name_okR) (simp_all add: driver_ok_def)
  then show ?thesis
    unfolding write_link_def okR_bindR
  proof (rule okR_mono)
    fix n
    let ?t = "snprintf VAL_BIG_LEN (dev @ '':'' @ ch @ '':inic-'' @ n @ rest)"
    have "length ?t \<le> 127" using length_snprintf(1) [of VAL_BIG_LEN] by (simp add: VAL_BIG_LEN_def)
    then show "okR (WriteCharactersToFile V1 fs (''/sys/class/most/mostcore/aims/'' @ aims) ''add_link'' ?t s)
        (\<lambda>(ok, s'). same_config s s')"
      by (intro Write_okR) (use assms(3) in simp)
  qed
qed

lemma configure_v1_okR:
  assumes "driver_ok d" "length path \<le> DIR_LEN"
  shows "okR (configure_v1 types fs path d s) (\<lambda>(ok, s'). same_config s s')"
proof -
  have "okR (stream_settings V1 types d) (\<lambda>ws. \<forall>xs. ws = Some xs \<longrightarrow> fits (length path) xs)"
    by (rule stream_settings_okR) (use assms in \<open>simp_all add: DIR_LEN_def\<close>)
  then show ?thesis
    unfolding configure_v1_def okR_bindR
    by (rule okR_mono) (auto intro: write_settings_okR split: option.split)
qed

lemma then_link_okR:
  assumes "okR r (\<lambda>(ok, t). same_config s t)"
    and "\<And>t. same_config s t \<Longrightarrow> okR (link t) (\<lambda>(ok, t'). same_config t t')"
  shows "okR (then_link r link) (same_config s)"
proof -
  have "okR (link t) (\<lambda>x. okR (case x of (ok, t') \<Rightarrow> Inr t') (same_config s))" if "same_config s t" for t
    by (rule okR_mono [OF assms(2) [OF that]]) (use same_config_trans [OF that] in auto)
  then show ?thesis
    unfolding then_link_def okR_bindR by (intro okR_mono [OF assms(1)]) auto
qed

lemma ConfigureNetwork_okR:
  assumes "driver_ok d" "length path \<le> DIR_LEN"
  shows "okR (ConfigureNetwork fs path d s) (\<lambda>(ok, s'). same_config s s')"
proof -
  obtain dir where dir: "dv_direction d = Some dir" using assms(1) by (auto simp: driver_ok_def)
  have "fits (length path) ([(''set_datatype'', ''async''), (setting V1 ''direction'', direction_text dir)] @ buffer_settings V1 d)"
    using assms(2) length_int_text [of "unat (dv_numBuffers d)"] length_int_text [of "unat (dv_bufferSize d)"]
    by (auto simp: fits_def buffer_settings_def setting_def direction_text_def DIR_LEN_def split: DriverCfgDirection_t.split)
  then show ?thesis
    unfolding ConfigureNetwork_def direction_setting_def dir option.case bindR_Inr by (rule write_settings_okR)
qed

lemma WriteDriverConfig_V1_okR:
  assumes "driver_ok d" "length path \<le> DIR_LEN" "CHR 0x00 \<in> set (descriptionFilter s)"
  shows "okR (WriteDriverConfig_V1 fs ch dev path d s) (same_config s)"
proof -
  have link: "okR (write_link fs aims rest ch dev d t) (\<lambda>(ok, t'). same_config t t')"
    if "same_config s t" "length aims \<le> 12" for aims rest t
    using that by (intro write_link_okR assms(1)) (use assms(3) in \<open>simp_all add: same_config_def\<close>)
  note c = configure_v1_okR [OF assms(1,2)] ConfigureNetwork_okR [OF assms(1,2)]
  show ?thesis
    by (cases "di_driverType d")
      (simp_all add: WriteDriverConfig_V1_def ConfigureCdev_def ConfigureAlsa_def ConfigureV4L2_def
        LinkCdev_def LinkAlsa_def LinkV4L2_def LinkNetwork_def then_link_okR c link)
qed

lemma make_folders_same: "make_folders fs path xs s = (r, s') \<Longrightarrow> same_config s s'"
  by (induction xs arbitrary: path s)
    (auto simp: CreateFolder_def Let_def same_config_def split: prod.splits bool.splits if_splits)

lemma make_folders_path:
  "make_folders fs path xs s = (Some p, s') \<Longrightarrow> length p \<le> length path + sum_list (map (\<lambda>x. Suc (length x)) xs)"
proof (induction xs arbitrary: path s)
  case Nil
  then show ?case using length_snprintf(2) [of PATH_LEN path] by simp
next
  case (Cons x xs)
  then show ?case by (fastforce simp: Let_def split: prod.splits bool.splits)
qed

lemma configure_v2_okR:
  assumes "sum_list (map (\<lambda>x. Suc (length x)) folders) \<le> 60" "length dev \<le> DIR_LEN" "length (dv_channelName d) \<le> DIR_LEN"
    and "\<And>k. k \<le> 80 \<Longrightarrow> okR settings (\<lambda>ws. \<forall>xs. ws = Some xs \<longrightarrow> fits k xs)"
  shows "okR (configure_v2 folders settings fs dev d s) (\<lambda>(ok, s'). same_config s s')"
proof -
  obtain r t where f: "make_folders fs CON_FS_PATH folders s = (r, t)" by fastforce
  show ?thesis
  proof (cases r)
    case (Some p)
    have p: "length p \<le> 80"
      using make_folders_path [of fs CON_FS_PATH folders s p t] f Some assms(1) by (simp add: CON_FS_PATH_def)
    have w: "okR (write_settings V2 fs p [(''device'', dev), (''channel'', dv_channelName d)] t) (\<lambda>(ok, s'). same_config t s')"
      by (rule write_settings_okR) (use p assms(2,3) in \<open>simp add: fits_def DIR_LEN_def\<close>)
    have st: "same_config s t" by (rule make_folders_same [OF f])
    have "okR (case ws of None \<Rightarrow> Inr (False, u) | Some ws \<Rightarrow>
        bindR (write_settings V2 fs p ws u) (\<lambda>(ok', s). Inr (ok \<and> ok', s))) (\<lambda>(ok, s'). same_config s s')"
      if "same_config t u" "\<forall>xs. ws = Some xs \<longrightarrow> fits (length p) xs" for ws u ok
    proof (cases ws)
      case (Some xs)
      then have "okR (write_settings V2 fs p xs u) (\<lambda>(ok, s'). same_config u s')"
        using that(2) by (intro write_settings_okR) simp
      then show ?thesis
        unfolding Some option.case okR_bindR
        by (rule okR_mono) (use same_config_trans [OF st that(1)] in \<open>auto dest: same_config_trans\<close>)
    qed (use st that(1) same_config_trans in auto)
    then show ?thesis
      using st by (auto simp: configure_v2_def f Some simp del: write_settings.simps
          intro!: okR_mono [OF w] okR_mono [OF assms(4) [OF p]])
  qed (use make_folders_same [OF f] in \<open>simp add: configure_v2_def f\<close>)
qed


lemma followed_by_okR:
  assumes "okR settings (\<lambda>ws. \<forall>xs. ws = Some xs \<longrightarrow> fits k xs)" "fits k ws"
  shows "okR (followed_by settings ws) (\<lambda>ws. \<forall>xs. ws = Some xs \<longrightarrow> fits k xs)"
  unfolding followed_by_def okR_bindR
  by (rule okR_mono [OF assms(1)]) (use assms(2) in \<open>auto simp: fits_def\<close>)

lemma WriteDriverConfig_V2_okR:
  assumes "driver_ok d" "length dev \<le> DIR_LEN"
  shows "okR (WriteDriverConfig_V2 fs dev d s) (same_config s)"
proof -
  have one: "length (int_text 1) \<le> 15" by (rule length_int_text)
  have link: "fits k [(''create_link'', int_text 1)]" if "k \<le> 80" for k
    using that one by (simp add: fits_def)
  have stream: "okR (followed_by (stream_settings V2 types d) ws) (\<lambda>ws. \<forall>xs. ws = Some xs \<longrightarrow> fits k xs)"
    if "k \<le> 80" "fits k ws" for k types ws
    by (intro followed_by_okR stream_settings_okR) (use assms(1) that in simp_all)
  have aim: "length (dv_aimName d) \<le> 31" "length (dv_channelName d) \<le> DIR_LEN"
    using assms(1) by (simp_all add: driver_ok_def VAL_SHORT_LEN_def)
  note names = AIM_CDEV_def AIM_SOUND_def AIM_V4L_def AIM_NETWORK_def ALSA_CARD_NAME_def
  have "okR (ConfigureCdev_V2 fs dev d s) (\<lambda>(ok, s'). same_config s s')"
    unfolding ConfigureCdev_V2_def
    by (rule configure_v2_okR [OF _ assms(2) aim(2) stream]) (use aim(1) link in \<open>simp_all add: names\<close>)
  moreover have "okR (ConfigureV4L2_V2 fs dev d s) (\<lambda>(ok, s'). same_config s s')"
    unfolding ConfigureV4L2_V2_def
    by (rule configure_v2_okR [OF _ assms(2) aim(2) stream]) (use aim(1) link in \<open>simp_all add: names\<close>)
  moreover have "okR (ConfigureAlsa_V2 fs dev d s) (\<lambda>(ok, s'). same_config s s')"
  proof -
    let ?t = "snprintf 16 (dec_digits (unat (dv_amountOfChannels d)) @ ''x'' @ dec_digits (unat (dv_resolutionInBit d)))"
    have "length ?t \<le> 15" using length_snprintf(1) [of 16] by simp
    then have "fits k [(''comp_params'', ?t), (''create_link'', int_text 1)]" if "k \<le> 80" for k
      using that one by (simp add: fits_def)
    then show ?thesis
      unfolding ConfigureAlsa_V2_def okR_bindR
      by (intro okR_mono [OF configure_v2_okR [OF _ assms(2) aim(2) stream]]) (use aim(1) in \<open>auto simp: names\<close>)
  qed
  moreover have "okR (ConfigureNetwork_V2 fs dev d s) (\<lambda>(ok, s'). same_config s s')"
  proof -
    obtain dir where dir: "dv_direction d = Some dir" using assms(1) by (auto simp: driver_ok_def)
    have "fits k ([(''datatype'', ''async''), (''direction'', direction_text dir)] @ buffer_settings V2 d @
        [(''create_link'', int_text 1)])" if "k \<le> 80" for k
      using that one length_int_text [of "unat (dv_numBuffers d)"] length_int_text [of "unat (dv_bufferSize d)"]
      by (auto simp: fits_def buffer_settings_def setting_def direction_text_def split: DriverCfgDirection_t.split)
    then show ?thesis
      unfolding ConfigureNetwork_V2_def
      by (intro configure_v2_okR assms(2) aim(2)) (use aim(1) dir in \<open>simp_all add: names direction_setting_def setting_def\<close>)
  qed
  ultimately show ?thesis
    by (cases "di_driverType d") (auto simp: WriteDriverConfig_V2_def elim!: okR_mono)
qed

lemma WriteDriverConfig_okR:
  assumes "driver_ok d" "length path \<le> DIR_LEN" "\<forall>dev. deviceName = Some dev \<longrightarrow> length dev \<le> DIR_LEN"
    and "CHR 0x00 \<in> set (descriptionFilter s)"
  shows "okR (WriteDriverConfig v fs ch deviceName path d s) (same_config s)"
  using WriteDriverConfig_V1_okR [OF assms(1,2,4)] WriteDriverConfig_V2_okR [OF assms(1)] assms(3)
  by (auto simp: WriteDriverConfig_def split: option.split mld_version.split)

lemma local_driver_ok:
  "length aim < VAL_SHORT_LEN \<Longrightarrow> length ch \<le> DIR_LEN \<Longrightarrow> driver_ok (local_driver v ch ty aim t n sz dir)"
  by (simp add: local_driver_def driver_ok_def split: mld_version.split)

lemma channel_lengths:
  "ch \<in> {''ep0f'', ''ep07'', ''ca4''} \<Longrightarrow> length ch \<le> DIR_LEN" "ch \<in> {''ep8f'', ''ep87'', ''ca2''} \<Longrightarrow> length ch \<le> DIR_LEN"
  "ch \<in> {''ep0e'', ''ep06'', ''ca8''} \<Longrightarrow> length ch \<le> DIR_LEN" "ch \<in> {''ep8e'', ''ep86'', ''ca6''} \<Longrightarrow> length ch \<le> DIR_LEN"
  by (auto simp: DIR_LEN_def)

lemma if_Some_ok:
  "(if b then Some x else y) = Some d \<Longrightarrow> (b \<Longrightarrow> driver_ok x) \<Longrightarrow> (y = Some d \<Longrightarrow> driver_ok d) \<Longrightarrow> driver_ok d"
  by (simp split: if_splits)

lemma default_driver_ok:
  assumes "default_driver v ch = Some d"
  shows "driver_ok d"
proof -
  have aims: "length ''control-tx'' < VAL_SHORT_LEN" "length ''control-rx'' < VAL_SHORT_LEN"
    "length ''network-tx'' < VAL_SHORT_LEN" "length ''network-rx'' < VAL_SHORT_LEN"
    by (simp_all add: VAL_SHORT_LEN_def)
  show ?thesis
    using assms unfolding default_driver_def
    by (elim if_Some_ok) (assumption | erule channel_lengths | rule local_driver_ok aims | erule option.distinct(1) [THEN notE])+
qed

lemma foldR_same:
  assumes "\<And>x t. x \<in> set xs \<Longrightarrow> same_config s t \<Longrightarrow> okR (f x t) (same_config s)"
  shows "same_config s t \<Longrightarrow> okR (foldR f xs t) (same_config s)"
  using assms by (intro foldR_okR) auto

definition short :: "string option \<Rightarrow> bool" where
  "short x \<longleftrightarrow> (\<forall>n. x = Some n \<longrightarrow> length n \<le> DIR_LEN)"

lemma configure_channel_okR:
  assumes "config_ok s" "length path \<le> DIR_LEN" "short deviceName"
  shows "okR (configure_channel v fs phy ch deviceName path s) (same_config s)"
proof -
  have wr: "okR (WriteDriverConfig v fs ch deviceName path d t) (same_config s)"
    if "driver_ok d" "same_config s t" for d t
    by (rule okR_mono [OF WriteDriverConfig_okR])
      (use that assms same_config_trans in \<open>auto simp: config_ok_def same_config_def short_def\<close>)
  have dflt: "okR (case default_driver v ch of None \<Rightarrow> Inr s
      | Some d \<Rightarrow> WriteDriverConfig v fs ch deviceName path d s) (same_config s)"
    using wr default_driver_ok by (auto split: option.split)
  have rest: "okR (case pConfig t of None \<Rightarrow> Inr t | Some drivers \<Rightarrow>
         if length drivers < unat (driverSize t) then Inl OutOfBounds
         else foldR (write_matching v fs phy ch deviceName path) (take (unat (driverSize t)) drivers) t) (same_config s)"
    if t: "same_config s t" for t
  proof (cases "pConfig t")
    case (Some ds)
    have size: "\<not> length ds < unat (driverSize t)" and ok: "\<forall>d. Some d \<in> set ds \<longrightarrow> driver_ok d"
      using config_ok_same [OF assms(1) t] Some by (auto simp: config_ok_def)
    have "okR (foldR (write_matching v fs phy ch deviceName path) (take (unat (driverSize t)) ds) t) (same_config s)"
    proof (rule foldR_same [OF _ t])
      fix x u assume "x \<in> set (take (unat (driverSize t)) ds)" "same_config s u"
      then show "okR (write_matching v fs phy ch deviceName path x u) (same_config s)"
        using wr ok by (auto simp: write_matching_def split: option.split dest: in_set_takeD)
    qed
    then show ?thesis using size Some by simp
  qed (use t in simp)
  show ?thesis
    unfolding configure_channel_def okR_bindR by (rule okR_mono [OF dflt rest])
qed

lemma CheckDriverSettings_okR:
  assumes "config_ok s" "length path \<le> DIR_LEN" "channelName \<noteq> None" "short deviceName"
  shows "okR (CheckDriverSettings v fs channelName deviceName path intf descr s) (same_config s)"
proof -
  obtain ch where ch: "channelName = Some ch" using assms(3) by blast
  have filt: "okR (filtered_out (descriptionFilter s) descr) (\<lambda>_. True)"
    using assms(1) by (simp add: filtered_out_def c_string_def config_ok_def)
  have "length (snprintf PATH_LEN (path @ ''/'' @ ''set_buffer_size'')) < 270"
    using length_snprintf(2) [of PATH_LEN "path @ ''/'' @ ''set_buffer_size''"] assms(2) by (simp add: DIR_LEN_def)
  note rd = Read_okR [OF this, unfolded append_Cons append_Nil]
  have ch_ok: "okR (configure_channel v fs phy ch deviceName path t) (same_config s)" if "same_config s t" for t phy
    by (rule okR_mono [OF configure_channel_okR [OF config_ok_same [OF assms(1) that] assms(2,4)]])
      (use same_config_trans [OF that] in simp)
  show ?thesis
    unfolding CheckDriverSettings_def okR_bindR ch option.case
    by (rule okR_mono [OF filt]) (auto simp: ch_ok intro!: okR_mono [OF rd])
qed

section \<open>Directories\<close>

text \<open>
  The directories of the driver: those that can be listed have a short path, names are not empty, and
  channels are not in the uppermost one.
\<close>

definition dirs_ok :: "mld_version \<Rightarrow> mld_fs \<Rightarrow> bool" where
  "dirs_ok v fs \<longleftrightarrow> (\<forall>os path names. fs_dir fs os path = Some names \<longrightarrow> length path \<le> DIR_LEN \<and>
     (\<forall>n \<in> set names. n \<noteq> []) \<and> (path = SYS_FS_PATH v \<longrightarrow> ''set_buffer_size'' \<notin> set names))"

lemma look_at_file_okR:
  assumes "config_ok s" "same_config s (snd x)" "length path \<le> DIR_LEN" "short grandParent"
    and "name = ''set_buffer_size'' \<longrightarrow> parent \<noteq> None"
  shows "okR (look_at_file v fs path parent grandParent name x) (\<lambda>x'. same_config s (snd x'))"
proof -
  obtain intf descr t where x: "x = ((intf, descr), t)" by (cases x) auto
  have t: "same_config s t" "config_ok t" using assms(2) config_ok_same [OF assms(1)] by (simp_all add: x)
  have rd: "okR (ReadFromFile fs (snprintf PATH_LEN (path @ ''/'' @ name)) str n t) (\<lambda>(ok, str, t'). same_config s t')"
    if "length name \<le> 15" for str n
  proof -
    have "length (snprintf PATH_LEN (path @ ''/'' @ name)) < 270"
      using length_snprintf(2) [of PATH_LEN "path @ ''/'' @ name"] that assms(3) by (simp add: DIR_LEN_def)
    from Read_okR [OF this] show ?thesis
      by (rule okR_mono) (use same_config_trans [OF t(1)] in auto)
  qed
  have check: "okR (CheckDriverSettings v fs parent grandParent path intf descr t) (same_config s)"
    if "name = ''set_buffer_size''"
    by (rule okR_mono [OF CheckDriverSettings_okR [OF t(2) assms(3)]])
      (use that assms(4,5) same_config_trans [OF t(1)] in \<open>auto simp: short_def\<close>)
  have read: "okR (bindR (ReadFromFile fs (snprintf PATH_LEN (path @ ''/'' @ name)) str n t) f) (\<lambda>x'. same_config s (snd x'))"
    if "length name \<le> 15" "\<And>ok str t'. f (ok, str, t') = Inr (g str, t')" for str n f and g :: "string \<Rightarrow> string \<times> string"
    unfolding okR_bindR by (rule okR_mono [OF rd [OF that(1)]]) (use that(2) in auto)
  show ?thesis
  proof (cases "skipped v name")
    case False
    consider "name = ''interface''" | "name = ''description''" | "name = ''set_buffer_size''"
      | "name \<notin> {''interface'', ''description'', ''set_buffer_size''}" by blast
    then show ?thesis
    proof cases
      case 1
      then have "look_at_file v fs path parent grandParent name x =
          bindR (ReadFromFile fs (snprintf PATH_LEN (path @ ''/'' @ name)) intf VAL_SHORT_LEN t) (\<lambda>(_, intf, s). Inr ((intf, descr), s))"
        using False by (simp add: look_at_file_def x Let_def)
      then show ?thesis using read [of _ "\<lambda>i. (i, descr)"] 1 by simp
    next
      case 2
      then have "look_at_file v fs path parent grandParent name x =
          bindR (ReadFromFile fs (snprintf PATH_LEN (path @ ''/'' @ name)) descr VAL_SHORT_LEN t) (\<lambda>(_, descr, s). Inr ((intf, descr), s))"
        using False by (simp add: look_at_file_def x Let_def)
      then show ?thesis using read [of _ "\<lambda>d. (intf, d)"] 2 by simp
    next
      case 3
      then have "look_at_file v fs path parent grandParent name x =
          bindR (CheckDriverSettings v fs parent grandParent path intf descr t) (\<lambda>s. Inr ((intf, descr), s))"
        using False by (simp add: look_at_file_def x)
      then show ?thesis using check [OF 3] by (auto elim!: okR_mono)
    next
      case 4
      then show ?thesis using t(1) by (simp add: look_at_file_def x Let_def)
    qed
  qed (use t(1) in \<open>simp add: look_at_file_def x Let_def\<close>)
qed

lemma IterateDirectory_okR:
  assumes "dirs_ok v fs" "config_ok s" "same_config s (snd x)" "1 \<le> k" "DIR_LEN + 1 < k + length path"
    and "length path \<le> DIR_LEN \<longrightarrow> short parent \<and> short grandParent" "parent = None \<longrightarrow> path = SYS_FS_PATH v"
  shows "okR (IterateDirectory k v fs path parent grandParent x) (\<lambda>x'. same_config s (snd x'))"
  using assms(3-)
proof (induction k arbitrary: path parent grandParent x)
  case (Suc k)
  show ?case
  proof (cases "fs_dir fs (ops (snd x)) path")
    case (Some names)
    have len: "length path \<le> DIR_LEN" and top: "path = SYS_FS_PATH v \<longrightarrow> ''set_buffer_size'' \<notin> set names"
      using assms(1) Some by (auto simp: dirs_ok_def)
    have sh: "short parent" "short grandParent" using Suc.prems(4) len by auto
    have files: "okR (foldR (look_at_file v fs path parent grandParent) names x) (\<lambda>x'. same_config s (snd x'))"
    proof (rule foldR_okR [where I = "\<lambda>x. same_config s (snd x)"])
      fix name and y :: "(string \<times> string) \<times> mld" assume "name \<in> set names" "same_config s (snd y)"
      then show "okR (look_at_file v fs path parent grandParent name y) (\<lambda>x'. same_config s (snd x'))"
        using Suc.prems(5) top by (intro look_at_file_okR [OF assms(2) _ len sh(2)]) auto
    qed (rule Suc.prems(1))
    have sub: "okR (IterateDirectory k v fs (snprintf PATH_LEN (path @ ''/'' @ name)) (Some name) parent y)
        (\<lambda>x'. same_config s (snd x'))"
      if "same_config s (snd y)" "name \<noteq> []" for y name
    proof (rule Suc.IH [OF that(1)])
      let ?p = "snprintf PATH_LEN (path @ ''/'' @ name)"
      have l: "length ?p = min 383 (length path + 1 + length name)" by (simp add: snprintf_def PATH_LEN_def)
      have n: "1 \<le> length name" using that(2) by (cases name) auto
      show "1 \<le> k" using Suc.prems(3) len by simp
      then show "DIR_LEN + 1 < k + length ?p" using Suc.prems(3) n unfolding l by (simp add: DIR_LEN_def)
      show "length ?p \<le> DIR_LEN \<longrightarrow> short (Some name) \<and> short parent"
        using sh(1) unfolding l by (auto simp: short_def DIR_LEN_def)
    qed simp
    have dirs: "okR (foldR (\<lambda>name x. if take 1 name = ''.'' \<or> skipped v name then Inr x else
        IterateDirectory k v fs (snprintf PATH_LEN (path @ ''/'' @ name)) (Some name) parent x) ns y)
        (\<lambda>x'. same_config s (snd x'))"
      if "same_config s (snd y)" "\<forall>n \<in> set ns. n \<noteq> []" for ns y
      by (rule foldR_okR [where I = "\<lambda>x. same_config s (snd x)"]) (use that sub in auto)
    have names: "\<forall>n \<in> set ns. n \<noteq> []" if "fs_dir fs os path = Some ns" for os ns
      using assms(1) that by (auto simp: dirs_ok_def)
    show ?thesis
      by (auto simp: Some intro!: okR_mono [OF files] dirs [unfolded One_nat_def] dest: names split: option.split)
  qed (use Suc.prems(1) in simp)
qed simp

lemma worker_round_okR:
  assumes "dirs_ok v fs" "config_ok s"
  shows "okR (worker_round v fs s) (same_config s)"
proof -
  have "okR (IterateDirectory PATH_LEN v fs (SYS_FS_PATH v) None None (([], []), s)) (\<lambda>x'. same_config s (snd x'))"
    by (rule IterateDirectory_okR [OF assms])
      (simp_all add: PATH_LEN_def DIR_LEN_def short_def)
  moreover have "okR (CreateAlsaCard fs t) (\<lambda>x. okR (case x of (ok, t') \<Rightarrow> Inr t') (same_config s))"
    if "same_config s t" for t
  proof -
    let ?p = "snprintf PATH_LEN (CON_FS_PATH @ ''/'' @ AIM_SOUND @ ''/'' @ ALSA_CARD_NAME)"
    have "length ?p \<le> 60"
      using length_snprintf(2) [of PATH_LEN "CON_FS_PATH @ ''/'' @ AIM_SOUND @ ''/'' @ ALSA_CARD_NAME"]
      by (simp add: CON_FS_PATH_def AIM_SOUND_def ALSA_CARD_NAME_def)
    then show ?thesis
      unfolding CreateAlsaCard_def WriteIntegerToFile_def
      by (intro okR_mono [OF Write_okR])
        (use length_snprintf(1) [of 16 "dec_digits 1"] same_config_trans [OF that] in auto)
  qed
  ultimately show ?thesis
    by (auto simp: worker_round_def elim!: okR_mono)
qed


text \<open>A device with one channel, whose files can be written and keep what was written last.\<close>

definition one_channel :: mld_fs where
  "one_channel = \<lparr>
     fs_dir = (\<lambda>os path. if path = ''/sys/class/most/mostcore/devices'' then Some [''.'', ''mdev0'']
       else if path = ''/sys/class/most/mostcore/devices/mdev0'' then Some [''interface'', ''description'', ''ep8f'']
       else if path = ''/sys/class/most/mostcore/devices/mdev0/ep8f'' then Some [''set_buffer_size''] else None),
     fs_content = (\<lambda>os path.
       if path = ''/sys/class/most/mostcore/devices/mdev0/interface'' then Some ''usb''
       else if path = ''/sys/class/most/mostcore/devices/mdev0/description'' then Some ''1-1.3''
       else Some (fold (\<lambda>x c. case x of Puts p t \<Rightarrow> (if p = path then t else c) | _ \<Rightarrow> c) os ''0'')),
     fs_exists = (\<lambda>os path. True), fs_opens = (\<lambda>os path. True), fs_puts = (\<lambda>os path t. True), fs_mkdir = (\<lambda>os path. True)\<rparr>"

definition fresh_mld :: "string \<Rightarrow> mld" where
  "fresh_mld str = \<lparr>pConfig = None, driverSize = 0, localNodeAddress = 0x200, pollTime = 1000,
     descriptionFilter = strncpy VAL_SHORT_LEN str, started_thread = True, allowWorker = True, createAlsaCard = False,
     ops = [], msgs = []\<rparr>"

lemma one_channel_ok: "dirs_ok V1 one_channel"
  by (auto simp: dirs_ok_def one_channel_def SYS_FS_PATH_def DIR_LEN_def split: if_splits)


section \<open>Names of the control devices\<close>

lemma replace_cong:
  "(\<And>c. c \<in> set str \<Longrightarrow> fold (\<lambda>w c. if c = w then r else c) bad c = fold (\<lambda>w c. if c = w then r else c) bad' c) \<Longrightarrow>
     ReplaceCharsInString str bad r = ReplaceCharsInString str bad' r"
  by (simp add: ReplaceCharsInString_def)

lemma replace_append: "ReplaceCharsInString (a @ b) bad r = ReplaceCharsInString a bad r @ ReplaceCharsInString b bad r"
  by (simp add: ReplaceCharsInString_def)

lemma length_replace [simp]: "length (ReplaceCharsInString a bad r) = length a"
  by (simp add: ReplaceCharsInString_def)

lemma filter_array:
  assumes "CHR 0x00 \<notin> set str" "length str < VAL_SHORT_LEN"
  shows "(take 1 (strncpy VAL_SHORT_LEN str) = [CHR 0x00]) = (str = [])" "c_string (strncpy VAL_SHORT_LEN str) = Inr str"
proof -
  show "c_string (strncpy VAL_SHORT_LEN str) = Inr str" using assms by (simp add: c_string_strncpy)
  show "(take 1 (strncpy VAL_SHORT_LEN str) = [CHR 0x00]) = (str = [])"
    using assms by (cases str) (auto simp: strncpy_def VAL_SHORT_LEN_def)
qed

text \<open>The names before characters are replaced; the link has room for 20 characters of the filter.\<close>

lemma control_names:
  assumes "CHR 0x00 \<notin> set str" "length str < VAL_SHORT_LEN" "dir \<in> {''tx'', ''rx''}"
  shows "ExtendControlCdevName (strncpy VAL_SHORT_LEN str) dir 64 =
      Inr (ReplaceCharsInString (''/dev/inic-control-'' @ dir @ (if str = [] then [] else ''-'' @ str)) '' .:;|!'' (CHR ''_''))"
    and "link_name (strncpy VAL_SHORT_LEN str) (''control-'' @ dir) =
      Inr (ReplaceCharsInString (''control-'' @ dir @ (if str = [] then [] else ''-'' @ take 20 str)) '' .:;/|!'' (CHR ''_''))"
proof -
  have d: "length dir = 2" using assms(3) by auto
  note f = filter_array [OF assms(1,2)]
  show "ExtendControlCdevName (strncpy VAL_SHORT_LEN str) dir 64 =
      Inr (ReplaceCharsInString (''/dev/inic-control-'' @ dir @ (if str = [] then [] else ''-'' @ str)) '' .:;|!'' (CHR ''_''))"
    using assms(2) d f
    by (simp add: ExtendControlCdevName_def add_filter_def strncatR_def EXTENSION_def VAL_SHORT_LEN_def
        del: One_nat_def)
  show "link_name (strncpy VAL_SHORT_LEN str) (''control-'' @ dir) =
      Inr (ReplaceCharsInString (''control-'' @ dir @ (if str = [] then [] else ''-'' @ take 20 str)) '' .:;/|!'' (CHR ''_''))"
    using assms(2) d f
    by (simp add: link_name_def add_filter_def strncatR_def VAL_SHORT_LEN_def min_less_iff_disj del: One_nat_def)
qed

lemma control_names_equal:
  assumes "CHR 0x00 \<notin> set str" "length str \<le> 20" "CHR ''/'' \<notin> set str" "dir \<in> {''tx'', ''rx''}"
  shows "\<exists>n. link_name (strncpy VAL_SHORT_LEN str) (''control-'' @ dir) = Inr n \<and>
     ExtendControlCdevName (strncpy VAL_SHORT_LEN str) dir 64 = Inr (''/dev/inic-'' @ n)"
proof -
  let ?rest = "''control-'' @ dir @ (if str = [] then [] else ''-'' @ str)"
  have len: "length str < VAL_SHORT_LEN" using assms(2) by (simp add: VAL_SHORT_LEN_def)
  have "CHR ''/'' \<notin> set ?rest" using assms(3,4) by auto
  then have "ReplaceCharsInString ?rest '' .:;|!'' (CHR ''_'') = ReplaceCharsInString ?rest '' .:;/|!'' (CHR ''_'')"
    by (intro replace_cong) auto
  moreover have "ReplaceCharsInString (''/dev/inic-'' @ ?rest) '' .:;|!'' (CHR ''_'') =
      ''/dev/inic-'' @ ReplaceCharsInString ?rest '' .:;|!'' (CHR ''_'')"
    by (subst replace_append) (simp add: ReplaceCharsInString_def)
  ultimately show ?thesis
    using control_names [OF assms(1) len assms(4)] assms(2) by simp
qed



text \<open>
  C28: A longer filter keeps the daemon waiting for ever. The link has room for 20 characters of the filter,
  the name that is looked for has room for all: with 21 to 31 characters, when the links of the
  configurator are all there is, the control devices are not found.
\<close>

theorem long_filter_waits:
  assumes "CHR 0x00 \<notin> set str" "20 < length str" "length str < VAL_SHORT_LEN"
    and "descriptionFilter s = strncpy VAL_SHORT_LEN str"
    and "\<forall>p. fs_exists fs (ops s) p \<longrightarrow> (\<exists>dir \<in> {''tx'', ''rx''}. \<exists>n.
      link_name (descriptionFilter s) (''control-'' @ dir) = Inr n \<and> p = ''/dev/inic-'' @ n)"
  shows "GetControlCdevName fs 64 s = Inr None"
proof -
  note names = control_names [OF assms(1,3)]
  let ?tx = "ReplaceCharsInString (''/dev/inic-control-'' @ ''tx'' @ (if str = [] then [] else ''-'' @ str)) '' .:;|!'' (CHR ''_'')"
  have "length p = 41" if "fs_exists fs (ops s) p" for p
  proof -
    note found = that
    obtain dir n where d: "dir \<in> {''tx'', ''rx''}" "link_name (strncpy VAL_SHORT_LEN str) (''control-'' @ dir) = Inr n"
      "p = ''/dev/inic-'' @ n"
      using assms(5) [rule_format, OF found] unfolding assms(4) by blast
    have "n = ReplaceCharsInString (''control-'' @ dir @ (if str = [] then [] else ''-'' @ take 20 str)) '' .:;/|!'' (CHR ''_'')"
      using d(2) names(2) [OF d(1)] by simp
    then have "length n = 31" using assms(2) d(1) by auto
    then show ?thesis by (simp add: d(3))
  qed
  moreover have "length ?tx \<noteq> 41" using assms(2) by simp
  ultimately have "\<not> fs_exists fs (ops s) ?tx" by blast
  then show ?thesis
    using names(1) [of "''tx''"] by (simp add: GetControlCdevName_def assms(4) DoesFileExist_def)
qed

text \<open>A system on which nothing but the two links is there.\<close>

definition two_links :: mld_fs where
  "two_links = one_channel\<lparr>fs_exists := (\<lambda>os path.
     path \<in> {''/dev/inic-control-tx-usb-0000_00_14_0-1_3'', ''/dev/inic-control-rx-usb-0000_00_14_0-1_3''})\<rparr>"

theorem long_filter_waits_witness:
  "GetControlCdevName two_links 64 (fresh_mld ''usb-0000:00:14.0-1.3:1.0'') = Inr None"
proof (rule long_filter_waits)
  let ?s = "fresh_mld ''usb-0000:00:14.0-1.3:1.0''"
  have "link_name (descriptionFilter ?s) (''control-'' @ ''tx'') = Inr ''control-tx-usb-0000_00_14_0-1_3''"
    "link_name (descriptionFilter ?s) (''control-'' @ ''rx'') = Inr ''control-rx-usb-0000_00_14_0-1_3''"
    by code_simp+
  then show "\<forall>p. fs_exists two_links (ops ?s) p \<longrightarrow> (\<exists>dir \<in> {''tx'', ''rx''}. \<exists>n.
      link_name (descriptionFilter ?s) (''control-'' @ dir) = Inr n \<and> p = ''/dev/inic-'' @ n)"
    by (simp add: two_links_def)
qed (simp_all add: fresh_mld_def VAL_SHORT_LEN_def)

section \<open>A channel is configured once\<close>

lemma Write_V1:
  assumes "\<forall>os p. fs_opens fs os p" "\<forall>os p t. fs_puts fs os p t" "length path + length name + length t < 286"
  shows "\<exists>t'. WriteCharactersToFile V1 fs path name t s = Inr (True, t') \<and>
     ops t' = ops s @ [Puts (path @ ''/'' @ name) (t @ [CHR 0x0A])] \<and> same_config s t'"
  using assms by (simp add: WriteCharactersToFile_def MldConfig_CB_OnMessage_def quoted_def Let_def snprintf_def PATH_LEN_def)

lemma write_settings_V1:
  assumes "\<forall>os p. fs_opens fs os p" "\<forall>os p t. fs_puts fs os p t"
  shows "fits (length path) ws \<Longrightarrow> \<exists>t. write_settings V1 fs path ws s = Inr (True, t) \<and>
     ops t = ops s @ map (\<lambda>(name, str). Puts (path @ ''/'' @ name) (str @ [CHR 0x0A])) ws \<and> same_config s t"
proof (induction ws arbitrary: s)
  case (Cons w ws)
  obtain name t where w: "w = (name, t)" by (cases w)
  obtain u where u: "WriteCharactersToFile V1 fs path name t s = Inr (True, u)"
    "ops u = ops s @ [Puts (path @ ''/'' @ name) (t @ [CHR 0x0A])]" "same_config s u"
    using Write_V1 [OF assms, of path name t s] Cons.prems by (auto simp: w fits_def)
  obtain u' where u': "write_settings V1 fs path ws u = Inr (True, u')"
    "ops u' = ops u @ map (\<lambda>(name, str). Puts (path @ ''/'' @ name) (str @ [CHR 0x0A])) ws" "same_config u u'"
    using Cons.IH [of u] Cons.prems by (auto simp: w fits_def)
  show ?case
    using u u' same_config_trans [OF u(3) u'(3)] by (simp add: w)
qed simp


text \<open>What the settings of a control channel for reception are, and the link to it.\<close>

definition control_rx_puts :: "string \<Rightarrow> string \<Rightarrow> string \<Rightarrow> mld_op list" where
  "control_rx_puts path ch dev =
     map (\<lambda>(name, str). Puts (path @ ''/'' @ name) (str @ [CHR 0x0A]))
       [(''set_datatype'', ''control''), (''set_direction'', ''rx''), (''set_number_of_buffers'', ''16''),
        (''set_buffer_size'', ''64'')] @
     [Puts ''/sys/class/most/mostcore/aims/cdev/add_link'' (snprintf VAL_BIG_LEN (dev @ '':'' @ ch @ '':inic-control-rx'') @ [CHR 0x0A])]"

text \<open>The file of the setting that tells that a channel is configured keeps what was written last.\<close>

definition keeps_size :: "mld_fs \<Rightarrow> string \<Rightarrow> bool" where
  "keeps_size fs path \<longleftrightarrow> (\<forall>os p. fs_opens fs os p) \<and> (\<forall>os p t. fs_puts fs os p t) \<and>
     (\<forall>os. fs_content fs os (path @ ''/set_buffer_size'') =
       Some (fold (\<lambda>x c. case x of Puts p t \<Rightarrow> (if p = path @ ''/set_buffer_size'' then t else c) | _ \<Rightarrow> c) os ''0''))"

lemma control_rx_configured:
  assumes "keeps_size fs path" "length path \<le> DIR_LEN" "ch \<in> {''ep8f'', ''ep87'', ''ca2''}"
    and "intf \<in> {''usb'', ''mlb_dim2''}" "ops s = []" "pConfig s = None" "take 1 (descriptionFilter s) = [CHR 0x00]"
  shows "\<exists>t. CheckDriverSettings V1 fs (Some ch) (Some dev) path intf descr s = Inr t \<and>
     ops t = control_rx_puts path ch dev \<and> same_config s t"
proof -
  let ?d = "local_driver V1 ch Driver_LinuxCdev ''control-rx'' DriverCfgDataType_Control 16 64 DriverCfgDirection_Rx"
  let ?ws = "[(''set_datatype'', ''control''), (''set_direction'', ''rx''), (''set_number_of_buffers'', ''16''),
        (''set_buffer_size'', ''64'')]"
  have d: "default_driver V1 ch = Some ?d" using assms(3) by (auto simp: default_driver_def)
  have w: "\<forall>os p. fs_opens fs os p" "\<forall>os p t. fs_puts fs os p t" using assms(1) by (simp_all add: keeps_size_def)
  have "stream_settings V1 all_types ?d = Inr (Some ?ws)"
    by (simp add: stream_settings_def local_driver_def all_types_def direction_setting_def buffer_settings_def setting_def
        data_type_text_def direction_text_def int_text_def snprintf_def dec_digits.simps hex_digit_def)
  moreover have "fits (length path) ?ws" using assms(2) by (simp add: fits_def DIR_LEN_def)
  then obtain u where u: "write_settings V1 fs path ?ws s = Inr (True, u)" "same_config s u"
    "ops u = ops s @ map (\<lambda>(name, str). Puts (path @ ''/'' @ name) (str @ [CHR 0x0A])) ?ws"
    using write_settings_V1 [OF w] by blast
  ultimately have cdev: "ConfigureCdev fs path ?d s = Inr (True, u)"
    by (simp add: ConfigureCdev_def configure_v1_def)
  let ?val = "snprintf VAL_BIG_LEN (dev @ '':'' @ ch @ '':inic-control-rx'')"
  have "length ?val \<le> 127" using length_snprintf(1) [of VAL_BIG_LEN] by (simp add: VAL_BIG_LEN_def)
  then obtain t where t: "WriteCharactersToFile V1 fs ''/sys/class/most/mostcore/aims/cdev'' ''add_link'' ?val u = Inr (True, t)"
    "ops t = ops u @ [Puts ''/sys/class/most/mostcore/aims/cdev/add_link'' (?val @ [CHR 0x0A])]" "same_config u t"
    using Write_V1 [OF w, of "''/sys/class/most/mostcore/aims/cdev''" "''add_link''" ?val u] by auto
  have "take 1 (descriptionFilter u) = [CHR 0x00]" using u(2) assms(7) by (simp add: same_config_def)
  then have "link_name (descriptionFilter u) ''control-rx'' = Inr ''control-rx''"
    by (simp add: link_name_def add_filter_def VAL_SHORT_LEN_def ReplaceCharsInString_def del: One_nat_def)
  then have "WriteDriverConfig V1 fs ch (Some dev) path ?d s = Inr t"
    using cdev t(1) by (simp add: WriteDriverConfig_def WriteDriverConfig_V1_def then_link_def LinkCdev_def write_link_def
        local_driver_def)
  moreover have "pConfig t = None" using u(2) t(3) assms(6) by (simp add: same_config_def)
  ultimately have "configure_channel V1 fs phy ch (Some dev) path s = Inr t" for phy
    by (simp add: configure_channel_def d)
  moreover have "ReadFromFile fs (snprintf PATH_LEN (path @ ''/'' @ ''set_buffer_size'')) [] VAL_SHORT_LEN s = Inr (True, ''0'', s)"
    using assms(1,2,5) by (simp add: ReadFromFile_def keeps_size_def snprintf_def PATH_LEN_def DIR_LEN_def VAL_SHORT_LEN_def fgets_def)
  ultimately have "CheckDriverSettings V1 fs (Some ch) (Some dev) path intf descr s = Inr t"
    using assms(4,7) by (auto simp: CheckDriverSettings_def filtered_out_def simp del: append.simps One_nat_def)
  moreover have "ops t = control_rx_puts path ch dev"
    using u(3) t(2) assms(5) by (simp add: control_rx_puts_def)
  ultimately show ?thesis using same_config_trans [OF u(2) t(3)] by blast
qed

lemma configured_untouched:
  assumes "fs_content fs (ops s) (path @ ''/set_buffer_size'') = Some (c # cs)" "length path \<le> DIR_LEN"
    "take 1 (descriptionFilter s) = [CHR 0x00]" "c \<noteq> CHR ''0''"
  shows "CheckDriverSettings v fs ch dev path intf descr s = Inr s"
proof -
  obtain str where "ReadFromFile fs (snprintf PATH_LEN (path @ ''/'' @ ''set_buffer_size'')) [] VAL_SHORT_LEN s = Inr (True, str, s)"
    "str \<noteq> ''0''"
  proof -
    have "snprintf PATH_LEN (path @ ''/set_buffer_size'') = path @ ''/set_buffer_size''"
      using assms(2) by (simp add: snprintf_def PATH_LEN_def DIR_LEN_def)
    then show ?thesis
      using that assms(1,4) by (auto simp: ReadFromFile_def VAL_SHORT_LEN_def fgets_def Let_def)
  qed
  then show ?thesis
    using assms(3) by (simp add: CheckDriverSettings_def filtered_out_def del: append.simps One_nat_def)
qed



end
