(* ===== verification/Spec2Isabelle.thy ===== *)
theory Spec2Isabelle
  imports Ucsi_Props Xml_Nested_Props Mxml_Props Daemon_Main_Props Mld_Props
begin

text \<open>
  The UNICENS daemon: a shallow embedding of the program from its command line to its threads,
  with its integration layer, its configuration parser and the configurators of the driver,
  and the theorems that make them correct.

  The program. The daemon (src/task-unicens.c) brings up a MOST network: it reads a network
  description, gives it to the UNICENS library through the integration layer
  libraries/ucsi, and then serves that layer in a loop: received messages go in, requests of
  the library come out as callbacks. The layer keeps a queue of commands (start, stop, I2C
  jobs, programming, routes, diagnosis), hands them to the library one at a time and waits for
  the report of each; it drives the supervisor of the library to the operation mode that is
  wanted, restarts it after a failure, asks the integrator which node to reprogram
  (src/custom-programming.c) and prints a table of nodes and routes after changes.

  src/main.c reads the command line, starts the task and calls its service for ever. A second thread
  reads messages from the receiving character device (libraries/cdev-handler) and hands them over
  with a flag and two semaphores; a timer starts a third one. All messages to the user go
  through libraries/console. On request libraries/mld-configurator, which comes in two versions,
  watches the directories of the MOST Linux driver and configures each channel that appears.

  The network description is an XML text. libraries/ucs-xml turns it into the structures the
  library works on: nodes with their scripts and with the jobs that create their connections,
  routes between the connections, and settings for the drivers of the local node. It loads the
  text with mini-XML (libraries/mxml), which builds a tree of linked nodes, searches in this tree
  and deletes it when it is done.

  Theories.
  \<^item> \<open>Prelude\<close>: fixed-width integers, results with faults (undefined behaviour of C: NULL
    dereference, access out of bounds; an endless loop), their composition, array scans.
  \<^item> \<open>Ring_Buffer\<close>: \<open>RB_t\<close> and \<open>RB_*\<close> of ucsi_impl.c. The locale \<open>bounded_fifo\<close> states what a
    queue of bounded length promises; \<open>rb\<close> interprets it on the code's pointers and counters.
  \<^item> \<open>Ucsi_Ident\<close>: \<open>BuildIdentString\<close> and the checksum, against a bit-serial reference.
  \<^item> \<open>Ucsi_Cfg\<close>: the types of ucsi_cfg.h and of the configuration objects; the queue entry
    (a tagged union) is a datatype, \<open>UCSI_Data_t\<close> a record.
  \<^item> \<open>Custom_Programming\<close>: src/custom-programming.c, one definition per function.
  \<^item> \<open>C_Text\<close>, \<open>Slot_Table\<close>: the C text functions the printer uses, and the arrays of slots it
    keeps; the locale \<open>slot_table\<close> is interpreted on its node, route and resource tables.
  \<^item> \<open>Ucsi_Print\<close>: ucsi_print.c.
  \<^item> \<open>Ucsi\<close>, \<open>Ucsi_Callbacks\<close>, \<open>Ucsi_Api\<close>: the rest of ucsi_impl.c: state and queue access,
    the callbacks of the library in the order of the file, the public operations and
    \<open>UCSI_Service\<close>.
  \<^item> \<open>Ucsi_Inv\<close>: the invariant of the layer and its preservation; \<open>Ucsi_Props\<close>: its properties.
  \<^item> \<open>Console\<close>: Console.c; \<open>Cdev\<close>: CdevHandler.c, its writing loop and what becomes of handles.
  \<^item> \<open>Task\<close>: task-unicens.c: its data, the callbacks of the layer, \<open>TaskUnicens_Service\<close> and
    \<open>TaskUnicens_Init\<close>. \<open>Threads\<close>: the same service as steps of the main thread, with those of the
    receive thread and of the timer. \<open>Task_Inv\<close>, \<open>Task_Start\<close> and \<open>Threads_Inv\<close>: the invariant of the
    daemon, that the start establishes it and that every step keeps it; \<open>Threads_Props\<close>: schedules
    that can be run, and the properties.
  \<^item> \<open>Daemon_Main\<close>: main.c; \<open>Daemon_Main_Props\<close>: its properties, and the safety of the whole daemon.
  \<^item> \<open>Mld\<close>: mld-configurator-v1.c and -v2.c, with the version as a parameter; \<open>Mld_Props\<close>: a round is
    safe, names of links and devices, and the settings of a control channel.
  \<^item> \<open>Xml_Tree\<close>: the document of mini-XML, the search functions of mxml-search.c the parser uses
    (equal to the preorder of the tree), \<open>GetElement\<close> and its relatives; \<open>C_Strtol\<close>: \<open>strtol\<close>.
  \<^item> \<open>Xml_Memory\<close>, \<open>Xml_Control\<close>: \<open>MCalloc\<close>, \<open>FreeObjList\<close> and the store of blocks; functions of
    the parser as state transformers that return, report an error or fault.
  \<^item> \<open>Xml_Objects\<close>, \<open>Xml_State\<close>: the objects of UcsXml_Private.c, the private data and the job
    lists; \<open>Xml_Scripts\<close>, \<open>Xml_Nodes\<close>, \<open>Xml_Routes\<close>, \<open>Xml_Drivers\<close>, \<open>Xml_Parse\<close>: UcsXml.c in the
    order it works, one definition per function.
  \<^item> \<open>Control\<close>: computations on a state that can leave early or fault, their loops, and weakest
    preconditions; \<open>Xml_Control\<close> and the theories of mini-XML build on it.
  \<^item> \<open>Mxml_Node\<close>: mxml-node.c and the attributes of mxml-attr.c on a heap of nodes; \<open>Mxml_Entity\<close>:
    mxml-entity.c; \<open>Mxml_Load\<close>: \<open>mxmlLoadString\<close> with all it calls in mxml-file.c, one definition per
    function, loop round and kind of tag.
  \<^item> \<open>Mxml_Tree\<close>: which heap holds which tree, and what linking, creating and unlinking a node
    makes of it; \<open>Mxml_Delete\<close>: the walk of \<open>mxmlDelete\<close> over such a tree.
  \<^item> \<open>Mxml_Safe\<close>, \<open>Mxml_Load_Safe\<close>: the locales \<open>reader\<close> and \<open>attr_reader\<close> (what reading characters,
    entities, tags and attributes keeps), interpreted on the invariants of the loader's main
    loop, of a new element, of its attributes and of a closing tag.
  \<^item> \<open>Mxml_Doc\<close>: the document of a heap, as \<open>Xml_Tree\<close> has it; \<open>Mxml_Follow\<close>, \<open>Mxml_Roundtrip\<close>: printed
    names, attributes, elements and files, and that the loader reads them back; \<open>Mxml_Props\<close>: the
    properties, and the loader composed with the parser.
  \<^item> \<open>Xml_Partial\<close>: the locales \<open>parse_inv\<close> and \<open>script_inv\<close>: what the smallest operations keep, the
    whole parser keeps. \<open>Xml_Release\<close> interprets them on the accounting of the memory, \<open>Xml_Safe\<close>
    on the allocator. \<open>Xml_Safe\<close> also holds the calculus of runs without fault and the locale
    \<open>doc_inv\<close> (what holds while only the document is read), interpreted for each part of the node
    parser in \<open>Xml_Script_Props\<close>, \<open>Xml_Node_Safe\<close> and \<open>Xml_Parse_Safe\<close>.
  \<^item> \<open>Xml_Props\<close>, \<open>Xml_Route_Props\<close>, \<open>Xml_Release\<close>, \<open>Xml_Script_Props\<close>, \<open>Xml_Parse_Safe\<close>,
    \<open>Xml_Nested_Props\<close>: the properties of the parser.

  State. \<open>my\<close> is the instance data \<open>UCSI_Data_t\<close>, \<open>pm\<close> the static data of the printer, \<open>trace\<close>
  the calls that leave the layer in order (library calls and callbacks of the integrator).
  Pointers that are compared are identities (the queue's byte offsets, route and script
  numbers); the pointer \<open>currentCmd\<close> is an optional slot number of the queue.

  The parser's state is \<open>xst\<close>: \<open>PrivateData_t\<close> with the blocks it owns, the store of objects
  \<open>xs_res\<close> that job lists point into, and the record of allocations and releases. A pointer to
  a node of the document is a \<open>cursor\<close>: the node with the siblings after it. Whether an allocation succeeds is the function \<open>calloc_ok\<close> of
  the state, so that every theorem holds for every pattern of failures. Loading the text
  is the argument \<open>load\<close> of \<open>UcsXml_Parse\<close>, which \<open>mxml_load\<close>, the model of \<open>mxmlLoadString\<close>, instantiates.

  The state of the loader is \<open>mx_state\<close>: the heap of nodes (a pointer is an address or NULL, a
  released address stays unused), the rest of the text with its terminating NUL, and the local
  variables that the error exits use. Here \<open>malloc_ok\<close> tells which allocation succeeds.

  The task's state is \<open>LocalVar_t\<close>, the static data of task-unicens.c with the console and the files
  of the process; \<open>daemon\<close> adds the places at which the threads are, and records what was received
  and used. Time, semaphores, threads and the calls on files are answered by \<open>task_os\<close>. A step of a
  thread is one access to what is shared. The state of a configurator is \<open>mld\<close>; its file
  system \<open>mld_fs\<close> answers from what was done to it so far. What the task needs of a configuration file
  (\<open>parse_file\<close>), of the default configuration and of a configurator are parameters of \<open>task_os\<close>.

  The UNICENS library is a git submodule and not part of the sources. It is the parameter
  \<open>ucs_lib\<close>: functions from the trace so far to the outcome of a call and the callbacks it
  makes before returning. Hypotheses about it are named: \<open>lib_async\<close> (a command call reports
  its completion later, not before it returns), \<open>lib_events_ok\<close> and \<open>event_ok\<close> (callbacks
  bring arrays with the lengths they announce, routes that are not NULL, cable positions
  from 1), \<open>lib_starts\<close> (the library accepts the start). \<open>demo_lib\<close> satisfies them. For the task they are
  part of \<open>env_ok\<close>; \<open>writes_ok\<close> says that \<open>write\<close> takes no more bytes than it is given, \<open>system_ok\<close> that a
  parsed configuration is well-formed and that the control devices appear, and \<open>dirs_ok\<close> bounds the paths of
  the driver's directories.

  What the lemmas show. The queue is first-in first-out for every history, also when its
  counters wrap. Every operation and callback keeps the invariant and runs into no undefined
  behaviour; the service executes exactly one command, the oldest, and none while one is in
  progress; a report completes exactly the command in progress. The supervisor is driven to
  the wanted mode and restarted after failure. The programming decision finds each conflict,
  and programming mode ends with addresses in order. The printer prints by its deadline, its
  tables hold the last report, and its texts fit. Where the code goes wrong, the theorem says
  how: the 16-bit clock, the list of ignored nodes, a new configuration with a nearly full
  queue, a cable position of 0.

  The daemon runs into no undefined behaviour from its command line on, however its threads take turns. A
  received message is used exactly once and in order; no wake-up is lost, but a message that the
  layer refuses can put the daemon to sleep for good, which is a theorem, too. A message goes
  out whole however the system splits it up; failed writes use up handles. The command line leaves
  consistent parameters. A round of a configurator is safe, it configures a control channel once, and its
  link has the name that the daemon waits for, unless the filter is too long.

  Whatever the document and whatever allocation fails, the parser gives back blocks it owns,
  and after an error all of them. Within limits that are stated (\<open>within_limits\<close>) it runs into
  no undefined behaviour, and its routes are those of a list comprehension over the
  connections. Payloads and integers are read back as they were printed; a script reaches every
  node that names it. Outside the limits the theorems show the faults: \<open>UcsXml_ParseScript\<close>
  releases its data twice, the first action of a script writes behind its block, a splitter's
  input may be indeterminate, a leading zero makes a decimal octal.

  The loader returns on every text in UTF-8, without a fault as long as memory lasts, and what
  it returns is a tree of elements with names and distinct attributes; documents that are
  printed are read back. So file, loader and parser together have defined behaviour within the
  parser's limits. Without memory the loader may release a buffer twice, in UTF-16 it
  may read past the text, and \<open>mxmlDelete\<close> leaves inner nodes behind: just those that are stated.

  Bounds. \<open>CMD_QUEUE_LEN\<close> is 40, the printer holds 8 nodes and its text buffers have the sizes
  of ucsi_print.h, script jobs go into 5 buffers, a telegram carries up to 35 bytes. The
  search for a free address is the code's own loop (\<open>while_option\<close>) and is shown to end; the
  number of programming rounds is bounded by \<open>(n + 1)\<^sup>2\<close> for \<open>n\<close> nodes.
  \<open>ParseSocket\<close> calls itself for the sockets inside a splitter or combiner; \<open>SOCKET_DEPTH\<close> is its
  fuel, and \<open>safe_ParseSocket\<close> shows that three levels are all it needs, whatever the document.
  A loop of the loader that reads characters gets the length of the remaining text plus one as its
  fuel (\<open>readX\<close>): each round consumes a character. \<open>mxmlDelete\<close> gets two rounds for each node and
  one more, since it goes down from a node once and releases it once.
  \<open>write_loop\<close> gets the length of the message plus one, as each round writes at least a byte. The walk of
  the configurator gets \<open>PATH_LEN\<close> levels; a directory that can be listed has a path of at most 140
  characters (\<open>dirs_ok\<close>), and each level adds at least one. \<open>wait_for_cdevs\<close> is the code's own loop.
  Counts of nodes and routes are 16-bit numbers, so \<open>within_limits\<close> bounds them.

  Compiled-out assertions (the build sets NDEBUG) are not part of the code's behaviour.

  Not modelled: the reading of a configuration file into memory; of mini-XML what the program does not
  call (files and descriptors, callbacks, writing, the index, formatted strings); the constants of
  default_config.c, the values behind a parameter; the client and the converter, separate tools
  that print texts; the order of memory accesses below the steps; the text of trace messages.
\<close>

end
